(* ===== verification/Prelude.thy ===== *)
theory Prelude
  imports
    Main
    "HOL-Library.Word"
    "HOL-Library.Char_ord"
    "HOL-Library.List_Lexorder"
    "HOL-Library.Product_Lexorder"
    "HOL-Library.Option_ord"
    "HOL-Library.Multiset"
begin

text \<open>
  Shared vocabulary of the development: machine integer types, \<open>Result\<close> as a sum type
  with the combinators that stand for the \<open>?\<close> operator and for collecting an iterator of
  results, the sort-then-dedup idiom of the code, and the model of \<open>BTreeMap\<close> as an
  association list with strictly increasing keys. The generic lemmas the component theories
  rely on are proved here once.
\<close>

section \<open>Collections of facts\<close>

named_theorems btree_simps \<open>what BTreeMap operations return\<close>
named_theorems result_simps \<open>unfolding of the Result combinators\<close>
named_theorems codec_simps \<open>decoding what an encoder produced\<close>

section \<open>Machine integers\<close>

type_synonym u8 = "8 word"
type_synonym u32 = "32 word"
type_synonym u64 = "64 word"

text \<open>
  A \<open>usize\<close> counts bytes or elements in memory and is a \<^typ>\<open>nat\<close>; the conversions from and to
  the fixed widths are written out where the code casts. An \<open>i64\<close> is an \<^typ>\<open>int\<close>; the places that
  produce one from text check its range.
\<close>

type_synonym usize = nat
type_synonym i64 = int

section \<open>Result\<close>

text \<open>\<open>Result<T, E>\<close> is \<open>'e + 'a\<close>: \<open>Err\<close> is \<^const>\<open>Inl\<close>, \<open>Ok\<close> is \<^const>\<open>Inr\<close>.\<close>

type_synonym ('e, 'a) result = "'e + 'a"

abbreviation Ok :: "'a \<Rightarrow> ('e, 'a) result" where "Ok \<equiv> Inr"
abbreviation Err :: "'e \<Rightarrow> ('e, 'a) result" where "Err \<equiv> Inl"

text \<open>The \<open>?\<close> operator: continue with the value, or return the error at once.\<close>

definition and_then :: "('e, 'a) result \<Rightarrow> ('a \<Rightarrow> ('e, 'b) result) \<Rightarrow> ('e, 'b) result" where
  "and_then r f = (case r of Inl e \<Rightarrow> Inl e | Inr x \<Rightarrow> f x)"

lemma and_then_Ok [simp, result_simps]: "and_then (Inr x) f = f x"
  by (simp add: and_then_def)

lemma and_then_Err [simp, result_simps]: "and_then (Inl e) f = Inl e"
  by (simp add: and_then_def)

lemma and_then_eq_Ok:
  "and_then r f = Inr y \<longleftrightarrow> (\<exists>x. r = Inr x \<and> f x = Inr y)"
  by (cases r) auto

lemma and_then_eq_Err:
  "and_then r f = Inl e \<longleftrightarrow> r = Inl e \<or> (\<exists>x. r = Inr x \<and> f x = Inl e)"
  by (cases r) auto

lemma and_then_cong [fundef_cong]:
  "r = s \<Longrightarrow> (\<And>x. s = Inr x \<Longrightarrow> f x = g x) \<Longrightarrow> and_then r f = and_then s g"
  by (cases s) auto

text \<open>\<open>Option::ok_or\<close>.\<close>

definition ok_or :: "'e \<Rightarrow> 'a option \<Rightarrow> ('e, 'a) result" where
  "ok_or e v = (case v of None \<Rightarrow> Inl e | Some x \<Rightarrow> Inr x)"

lemma ok_or_simps [simp, result_simps]: "ok_or e None = Inl e" "ok_or e (Some x) = Inr x"
  by (simp_all add: ok_or_def)

lemma ok_or_eq_Ok: "ok_or e v = Inr x \<longleftrightarrow> v = Some x"
  by (cases v) auto

text \<open>\<open>iter.map(f).collect::<Result<Vec<_>, _>>()\<close>: the first error stops the iteration.\<close>

fun collect_results :: "('a \<Rightarrow> ('e, 'b) result) \<Rightarrow> 'a list \<Rightarrow> ('e, 'b list) result" where
  "collect_results f [] = Inr []"
| "collect_results f (x # xs) =
     and_then (f x) (\<lambda>y. and_then (collect_results f xs) (\<lambda>ys. Inr (y # ys)))"

text \<open>\<open>for x in xs { f(x)?; }\<close> for a check without a result.\<close>

fun check_all :: "('a \<Rightarrow> ('e, unit) result) \<Rightarrow> 'a list \<Rightarrow> ('e, unit) result" where
  "check_all f [] = Inr ()"
| "check_all f (x # xs) = and_then (f x) (\<lambda>_. check_all f xs)"

lemma check_all_Ok: "check_all f xs = Inr u \<longleftrightarrow> (\<forall>x\<in>set xs. f x = Inr ())"
  by (induction xs) (auto simp: and_then_eq_Ok)

lemma check_all_Err_in:
  "check_all f xs = Inl e \<Longrightarrow> \<exists>x\<in>set xs. f x = Inl e"
  by (induction xs) (auto simp: and_then_eq_Err)

lemma collect_results_Ok:
  "collect_results f xs = Inr ys \<longleftrightarrow> list_all2 (\<lambda>x y. f x = Inr y) xs ys"
proof (induction xs arbitrary: ys)
  case Nil
  then show ?case by auto
next
  case (Cons x xs)
  then show ?case by (cases ys) (auto simp: and_then_eq_Ok list_all2_Cons1)
qed

lemma collect_results_Ok_length:
  "collect_results f xs = Inr ys \<Longrightarrow> length ys = length xs"
  by (auto simp: collect_results_Ok dest: list_all2_lengthD)

lemma collect_results_total:
  "(\<And>x. x \<in> set xs \<Longrightarrow> f x = Inr (g x)) \<Longrightarrow> collect_results f xs = Inr (map g xs)"
  by (induction xs) auto

lemma collect_results_map_id [codec_simps]:
  "(\<And>x. x \<in> set xs \<Longrightarrow> d (e x) = Inr x) \<Longrightarrow> collect_results d (map e xs) = Inr xs"
  by (induction xs) auto

lemma collect_results_Err_in:
  "collect_results f xs = Inl e \<Longrightarrow> \<exists>x\<in>set xs. f x = Inl e"
  by (induction xs) (auto simp: and_then_eq_Err)

lemma collect_results_mem: "collect_results f xs = Inr ys \<Longrightarrow> y \<in> set ys \<Longrightarrow> \<exists>x\<in>set xs. f x = Inr y"
  by (induction xs arbitrary: ys) (auto simp: and_then_eq_Ok)

lemma collect_results_has: "collect_results f xs = Inr ys \<Longrightarrow> x \<in> set xs \<Longrightarrow> \<exists>y\<in>set ys. f x = Inr y"
  by (induction xs arbitrary: ys) (auto simp: and_then_eq_Ok)

lemma collect_results_cong [fundef_cong]:
  "xs = ys \<Longrightarrow> (\<And>x. x \<in> set ys \<Longrightarrow> f x = g x) \<Longrightarrow> collect_results f xs = collect_results g ys"
  by (induction xs arbitrary: ys) auto

section \<open>Sort, then dedup\<close>

text \<open>The idiom \<open>v.sort(); v.dedup();\<close>.\<close>

definition sort_dedup :: "'a::linorder list \<Rightarrow> 'a list" where
  "sort_dedup xs = remdups_adj (sort xs)"

abbreviation strictly_sorted :: "'a::linorder list \<Rightarrow> bool" where
  "strictly_sorted \<equiv> sorted_wrt (<)"

lemma set_sort_dedup [simp]: "set (sort_dedup xs) = set xs"
  by (simp add: sort_dedup_def)

lemma sorted_remdups_adj_strict: "sorted xs \<Longrightarrow> strictly_sorted (remdups_adj xs)"
  by (induction xs rule: remdups_adj.induct) (auto simp: less_le)

lemma strictly_sorted_sort_dedup [simp]: "strictly_sorted (sort_dedup xs)"
  by (simp add: sort_dedup_def sorted_remdups_adj_strict)

lemma sort_dedup_eq_sorted_list: "sort_dedup xs = sorted_list_of_set (set xs)"
  by (rule strict_sorted_equal) auto

lemma sort_dedup_cong_set: "set xs = set ys \<Longrightarrow> sort_dedup xs = sort_dedup ys"
  by (simp add: sort_dedup_eq_sorted_list)

lemma sort_dedup_idem [simp]: "sort_dedup (sort_dedup xs) = sort_dedup xs"
  by (rule sort_dedup_cong_set) simp

lemma sort_dedup_Nil [simp]: "sort_dedup [] = []"
  by (simp add: sort_dedup_def)

lemma sort_dedup_eq_Nil [simp]: "sort_dedup xs = [] \<longleftrightarrow> xs = []"
  by (metis set_empty set_sort_dedup)

lemma distinct_sort_dedup [simp]: "distinct (sort_dedup xs)"
  using strictly_sorted_sort_dedup strict_sorted_iff by blast

lemma length_sort_dedup_le: "length (sort_dedup xs) \<le> length xs"
  by (simp add: sort_dedup_def) (metis length_sort remdups_adj_length)

lemma sort_dedup_singleton: "sort_dedup xs = [x] \<longleftrightarrow> xs \<noteq> [] \<and> set xs = {x}"
proof
  assume "sort_dedup xs = [x]"
  then have "set xs = {x}"
    by (metis empty_set list.simps(15) set_sort_dedup)
  then show "xs \<noteq> [] \<and> set xs = {x}" by auto
next
  assume "xs \<noteq> [] \<and> set xs = {x}"
  then show "sort_dedup xs = [x]" by (simp add: sort_dedup_eq_sorted_list)
qed

section \<open>Ordered maps\<close>

text \<open>
  A \<open>BTreeMap\<close> is the list of its entries in key order. \<open>btree_insert\<close> replaces the value of
  a key that is present, as \<open>BTreeMap::insert\<close> does, so collecting pairs keeps the last value
  of a repeated key.
\<close>

type_synonym ('k, 'v) btree = "('k \<times> 'v) list"

fun btree_insert :: "'k::linorder \<Rightarrow> 'v \<Rightarrow> ('k, 'v) btree \<Rightarrow> ('k, 'v) btree" where
  "btree_insert k v [] = [(k, v)]"
| "btree_insert k v (e # m) =
     (if fst e < k then e # btree_insert k v m
      else if fst e = k then (k, v) # m
      else (k, v) # e # m)"

abbreviation btree_get :: "('k, 'v) btree \<Rightarrow> 'k \<Rightarrow> 'v option" where
  "btree_get m k \<equiv> map_of m k"

definition btree_contains :: "('k, 'v) btree \<Rightarrow> 'k \<Rightarrow> bool" where
  "btree_contains m k = (btree_get m k \<noteq> None)"

definition btree_wf :: "('k::linorder, 'v) btree \<Rightarrow> bool" where
  "btree_wf m = strictly_sorted (map fst m)"

text \<open>\<open>iter.map(|x| (key(x), x)).collect::<BTreeMap<_, _>>()\<close>.\<close>

definition btree_index :: "('a \<Rightarrow> 'k::linorder) \<Rightarrow> 'a list \<Rightarrow> ('k, 'a) btree" where
  "btree_index key xs = fold (\<lambda>x. btree_insert (key x) x) xs []"

lemma btree_get_insert [btree_simps]:
  "btree_get (btree_insert k v m) = (btree_get m)(k \<mapsto> v)"
  by (induction m) (auto simp: fun_eq_iff)

lemma keys_insert: "fst ` set (btree_insert k v m) = insert k (fst ` set m)"
  by (induction m) auto

lemma set_btree_insert: "set (btree_insert k v m) \<subseteq> insert (k, v) (set m)"
  by (induction m) auto

lemma btree_wf_Nil [simp]: "btree_wf []"
  by (simp add: btree_wf_def)

lemma btree_wf_insert [simp]: "btree_wf m \<Longrightarrow> btree_wf (btree_insert k v m)"
proof (induction m)
  case Nil
  then show ?case by (simp add: btree_wf_def)
next
  case (Cons e m)
  then have wf: "strictly_sorted (map fst m)" and lt: "\<forall>k'\<in>fst ` set m. fst e < k'"
    and IH: "strictly_sorted (map fst (btree_insert k v m))"
    by (auto simp: btree_wf_def)
  show ?case
    using lt wf IH keys_insert[of k v m] by (auto simp: btree_wf_def)
qed

lemma btree_wf_distinct: "btree_wf m \<Longrightarrow> distinct (map fst m)"
  by (simp add: btree_wf_def strict_sorted_iff)

lemma btree_contains_iff: "btree_contains m k \<longleftrightarrow> k \<in> fst ` set m"
  by (simp add: btree_contains_def map_of_eq_None_iff)

lemma btree_index_append:
  "btree_index key (xs @ [x]) = btree_insert (key x) x (btree_index key xs)"
  by (simp add: btree_index_def)

lemma btree_index_Nil [simp]: "btree_index key [] = []"
  by (simp add: btree_index_def)

lemma btree_wf_index [simp]: "btree_wf (btree_index key xs)"
  by (induction xs rule: rev_induct) (simp_all add: btree_index_append)

lemma btree_index_keys [btree_simps]: "fst ` set (btree_index key xs) = key ` set xs"
  by (induction xs rule: rev_induct) (simp_all add: btree_index_append keys_insert)

lemma btree_index_entry:
  "(k, x) \<in> set (btree_index key xs) \<Longrightarrow> x \<in> set xs \<and> key x = k"
proof (induction xs rule: rev_induct)
  case Nil
  then show ?case by simp
next
  case (snoc y ys)
  then have "(k, x) = (key y, y) \<or> (k, x) \<in> set (btree_index key ys)"
    using set_btree_insert[of "key y" y "btree_index key ys"] by (auto simp: btree_index_append)
  with snoc.IH show ?case by auto
qed

lemma btree_index_get_Some:
  "btree_get (btree_index key xs) k = Some x \<Longrightarrow> x \<in> set xs \<and> key x = k"
  by (rule btree_index_entry) (rule map_of_SomeD)

lemma btree_index_get_None:
  "btree_get (btree_index key xs) k = None \<longleftrightarrow> k \<notin> key ` set xs"
  by (simp add: map_of_eq_None_iff btree_index_keys)

lemma btree_get_eq_Some:
  "btree_wf m \<Longrightarrow> btree_get m k = Some v \<longleftrightarrow> (k, v) \<in> set m"
  by (simp add: btree_wf_distinct map_of_eq_Some_iff)

lemma btree_index_get_unique:
  assumes "x \<in> set xs" and "inj_on key (set xs)"
  shows "btree_get (btree_index key xs) (key x) = Some x"
proof -
  obtain y where y: "btree_get (btree_index key xs) (key x) = Some y"
    using assms(1) btree_index_get_None[of key xs "key x"] by fastforce
  then have "y \<in> set xs" "key y = key x" by (auto dest: btree_index_get_Some)
  with assms have "y = x" by (auto dest: inj_onD)
  with y show ?thesis by simp
qed

lemma btree_index_keys_list:
  "map fst (btree_index key xs) = sort_dedup (map key xs)"
proof (rule strict_sorted_equal)
  show "strictly_sorted (map fst (btree_index key xs))"
    using btree_wf_index[of key xs] by (simp add: btree_wf_def)
qed (simp_all add: btree_index_keys)

lemma btree_insert_map:
  "btree_insert k (f v) (map (\<lambda>(k, x). (k, f x)) m) = map (\<lambda>(k, x). (k, f x)) (btree_insert k v m)"
  by (induction m) auto

lemma btree_index_map:
  "btree_index key (map f xs) = map (\<lambda>(k, x). (k, f x)) (btree_index (\<lambda>x. key (f x)) xs)"
proof (induction xs rule: rev_induct)
  case Nil
  then show ?case by simp
next
  case (snoc x xs)
  then show ?case
    by (simp add: btree_index_append btree_insert_map)
qed

lemma btree_get_map: "btree_get (map (\<lambda>(k, x). (k, f x)) m) k = map_option f (btree_get m k)"
  by (induction m) auto

text \<open>A value list of a map is determined by the map: the entries of two equal lookups agree.\<close>

lemma btree_ext:
  assumes "btree_wf m" "btree_wf n" "\<And>k. btree_get m k = btree_get n k"
  shows "m = n"
proof -
  have sets: "set m = set n"
    using assms by (auto simp flip: btree_get_eq_Some)
  have inj: "inj_on fst (set m \<union> set n)"
    using btree_wf_distinct[OF assms(2)] sets by (simp add: distinct_map)
  show ?thesis
    using assms(1,2) sets inj
    by (intro map_sorted_distinct_set_unique[OF inj])
      (auto simp: btree_wf_def strict_sorted_iff)
qed

section \<open>Lists\<close>

lemma distinct_map_comp: "distinct (map (\<lambda>x. f (g x)) xs) \<Longrightarrow> distinct (map g xs)"
  by (induction xs) auto

text \<open>\<open>slice.windows(2)\<close> and \<open>slice.chunks(n)\<close>.\<close>

fun windows2 :: "'a list \<Rightarrow> ('a \<times> 'a) list" where
  "windows2 (x # y # xs) = (x, y) # windows2 (y # xs)"
| "windows2 _ = []"

lemma windows2_sorted_distinct:
  assumes "sorted (map f xs)"
  shows "(\<exists>p\<in>set (windows2 xs). f (fst p) = f (snd p)) \<longleftrightarrow> \<not> distinct (map f xs)"
  using assms
proof (induction xs rule: windows2.induct)
  case (1 x y xs)
  then have s: "sorted (map f (y # xs))" and le: "f x \<le> f y" "\<forall>z\<in>set xs. f y \<le> f z" by auto
  have "f x \<in> f ` set (y # xs) \<longleftrightarrow> f x = f y"
    using le by force
  with 1(1)[OF s] show ?case by auto
qed auto

function chunks :: "nat \<Rightarrow> 'a list \<Rightarrow> 'a list list" where
  "chunks n xs = (if xs = [] \<or> n = 0 then [] else take n xs # chunks n (drop n xs))"
  by pat_completeness auto
termination by (relation "measure (\<lambda>(n, xs). length xs)") auto

declare chunks.simps [simp del]

lemma concat_chunks: "0 < n \<Longrightarrow> concat (chunks n xs) = xs"
proof (induction n xs rule: chunks.induct)
  case (1 n xs)
  then show ?case by (cases "xs = []") (simp_all add: chunks.simps[of n xs] chunks.simps[of n "[]"])
qed

lemma chunks_bounds: "c \<in> set (chunks n xs) \<Longrightarrow> c \<noteq> [] \<and> length c \<le> n \<and> set c \<subseteq> set xs"
proof (induction n xs rule: chunks.induct)
  case (1 n xs)
  then show ?case
    by (auto simp: chunks.simps[of n xs] split: if_splits dest: in_set_takeD in_set_dropD)
qed

section \<open>Stable sorting\<close>

lemma insort_key_map: "insort_key k (f x) (map f xs) = map f (insort_key (\<lambda>x. k (f x)) x xs)"
  by (induction xs) auto

lemma sort_key_map: "sort_key k (map f xs) = map f (sort_key (\<lambda>x. k (f x)) xs)"
  by (induction xs) (simp_all add: insort_key_map)

lemma insort_key_cong:
  "k x = k' x \<Longrightarrow> (\<And>y. y \<in> set xs \<Longrightarrow> k y = k' y) \<Longrightarrow> insort_key k x xs = insort_key k' x xs"
  by (induction xs) auto

lemma sort_key_cong: "(\<And>x. x \<in> set xs \<Longrightarrow> k x = k' x) \<Longrightarrow> sort_key k xs = sort_key k' xs"
  by (induction xs) (auto intro: insort_key_cong)

section \<open>Rows with a unique key\<close>

lemma find_unique_key:
  assumes "distinct (map key t)"
  shows "find (\<lambda>r. key r = k) t = Some r \<longleftrightarrow> r \<in> set t \<and> key r = k"
  using assms by (induction t) (auto simp: image_iff)

end
