(* ===== verification/Rust_Str.thy ===== *)
theory Rust_Str
  imports Prelude
begin

text \<open>
  The parts of Rust's \<open>str\<close> the code uses. A \<open>String\<close> is the list of its UTF-8 bytes, so
  \<open>len()\<close> is \<^const>\<open>length\<close> and \<open>cmp\<close> is the bytewise lexicographic order, which is the
  \<open>linorder\<close> instance of \<^typ>\<open>string\<close> here. Searching for an ASCII pattern in the bytes finds
  what searching in the characters finds, because UTF-8 never uses an ASCII byte inside a
  longer sequence. Functions whose meaning depends on characters (counting, boundaries,
  trimming) decode the sequences they need.
\<close>

section \<open>Bytes\<close>

abbreviation byte :: "char \<Rightarrow> nat" where
  "byte c \<equiv> of_char c"

definition is_ascii_lowercase :: "char \<Rightarrow> bool" where
  "is_ascii_lowercase c = (97 \<le> byte c \<and> byte c \<le> 122)"

definition is_ascii_digit :: "char \<Rightarrow> bool" where
  "is_ascii_digit c = (48 \<le> byte c \<and> byte c \<le> 57)"

section \<open>Prefixes, suffixes, containment\<close>

fun strip_prefix :: "string \<Rightarrow> string \<Rightarrow> string option" where
  "strip_prefix [] s = Some s"
| "strip_prefix (p # ps) [] = None"
| "strip_prefix (p # ps) (c # cs) = (if p = c then strip_prefix ps cs else None)"

definition strip_suffix :: "string \<Rightarrow> string \<Rightarrow> string option" where
  "strip_suffix p s = map_option rev (strip_prefix (rev p) (rev s))"

definition starts_with :: "string \<Rightarrow> string \<Rightarrow> bool" where
  "starts_with p s = (strip_prefix p s \<noteq> None)"

definition ends_with :: "string \<Rightarrow> string \<Rightarrow> bool" where
  "ends_with p s = (strip_suffix p s \<noteq> None)"

lemma strip_prefix_eq_Some: "strip_prefix p s = Some t \<longleftrightarrow> s = p @ t"
  by (induction p s rule: strip_prefix.induct) auto

lemma strip_prefix_append [simp]: "strip_prefix p (p @ t) = Some t"
  by (simp add: strip_prefix_eq_Some)

lemma strip_suffix_eq_Some: "strip_suffix p s = Some t \<longleftrightarrow> s = t @ p"
proof
  assume "strip_suffix p s = Some t"
  then have "rev s = rev p @ rev t"
    by (auto simp: strip_suffix_def strip_prefix_eq_Some)
  then show "s = t @ p" by (metis rev_append rev_rev_ident)
qed (simp add: strip_suffix_def)

lemma strip_suffix_append [simp]: "strip_suffix p (t @ p) = Some t"
  by (simp add: strip_suffix_eq_Some)

lemma starts_with_iff: "starts_with p s \<longleftrightarrow> (\<exists>t. s = p @ t)"
  by (auto simp: starts_with_def strip_prefix_eq_Some)

lemma ends_with_iff: "ends_with p s \<longleftrightarrow> (\<exists>t. s = t @ p)"
  by (auto simp: ends_with_def strip_suffix_eq_Some)

section \<open>Splitting and joining\<close>

text \<open>\<open>split(c)\<close> always yields at least one segment.\<close>

fun split_char :: "char \<Rightarrow> string \<Rightarrow> string list" where
  "split_char c [] = [[]]"
| "split_char c (x # xs) =
     (if x = c then [] # split_char c xs
      else (case split_char c xs of [] \<Rightarrow> [[x]] | s # ss \<Rightarrow> (x # s) # ss))"

fun split_once_char :: "char \<Rightarrow> string \<Rightarrow> (string \<times> string) option" where
  "split_once_char c [] = None"
| "split_once_char c (x # xs) =
     (if x = c then Some ([], xs)
      else map_option (\<lambda>(a, b). (x # a, b)) (split_once_char c xs))"

fun split_once_str :: "string \<Rightarrow> string \<Rightarrow> (string \<times> string) option" where
  "split_once_str p [] = (if p = [] then Some ([], []) else None)"
| "split_once_str p (x # xs) =
     (case strip_prefix p (x # xs) of
        Some t \<Rightarrow> Some ([], t)
      | None \<Rightarrow> map_option (\<lambda>(a, b). (x # a, b)) (split_once_str p xs))"

lemma split_once_str_eq: "split_once_str p s = Some (a, b) \<Longrightarrow> s = a @ p @ b"
  by (induction s arbitrary: a)
    (auto simp: strip_prefix_eq_Some split: option.splits if_splits)

text \<open>\<open>split(p)\<close> for a non-empty pattern (the code only passes literals).\<close>

function split_str :: "string \<Rightarrow> string \<Rightarrow> string list" where
  "split_str p s =
     (if p = [] then [s]
      else case split_once_str p s of None \<Rightarrow> [s] | Some (a, b) \<Rightarrow> a # split_str p b)"
  by pat_completeness auto
termination
  by (relation "measure (\<lambda>(p, s). length s)") (auto dest!: split_once_str_eq)

declare split_str.simps [simp del]

fun join :: "string \<Rightarrow> string list \<Rightarrow> string" where
  "join sep [] = []"
| "join sep [s] = s"
| "join sep (s # t # ss) = s @ sep @ join sep (t # ss)"

lemma split_char_nonempty [simp]: "split_char c s \<noteq> []"
  by (induction s) (auto split: list.splits)

lemma join_Cons: "ss \<noteq> [] \<Longrightarrow> join sep (s # ss) = s @ sep @ join sep ss"
  by (cases ss) auto

lemma join_head: "join sep ((x # s) # ss) = x # join sep (s # ss)"
  by (cases ss) auto

lemma join_split_char: "join [c] (split_char c s) = s"
proof (induction s)
  case Nil
  then show ?case by simp
next
  case (Cons x xs)
  obtain t ts where "split_char c xs = t # ts"
    by (cases "split_char c xs") auto
  with Cons show ?case by (auto simp: join_Cons join_head)
qed

lemma split_char_segments: "seg \<in> set (split_char c s) \<Longrightarrow> c \<notin> set seg"
proof (induction s arbitrary: seg)
  case Nil
  then show ?case by simp
next
  case (Cons x xs)
  obtain t ts where "split_char c xs = t # ts"
    by (cases "split_char c xs") auto
  with Cons show ?case by (auto split: if_splits)
qed

lemma split_char_no_sep: "c \<notin> set s \<Longrightarrow> split_char c s = [s]"
  by (induction s) auto

lemma split_char_join:
  "ss \<noteq> [] \<Longrightarrow> (\<And>s. s \<in> set ss \<Longrightarrow> c \<notin> set s) \<Longrightarrow> split_char c (join [c] ss) = ss"
proof (induction ss)
  case Nil
  then show ?case by simp
next
  case (Cons s ss)
  have app: "c \<notin> set s \<Longrightarrow> split_char c (s @ c # t) = s # split_char c t" for t
    by (induction s) auto
  show ?case
  proof (cases ss)
    case Nil
    then show ?thesis using Cons.prems by (simp add: split_char_no_sep)
  next
    case (Cons t ts)
    then show ?thesis using Cons.IH Cons.prems app by (simp add: join_Cons)
  qed
qed

lemma split_once_char_eq:
  "split_once_char c s = Some (a, b) \<longleftrightarrow> s = a @ c # b \<and> c \<notin> set a"
proof (induction s arbitrary: a)
  case Nil
  then show ?case by simp
next
  case (Cons x xs)
  then show ?case by (cases a) auto
qed

lemma split_once_char_None: "split_once_char c s = None \<longleftrightarrow> c \<notin> set s"
  by (induction s) auto

section \<open>Dotted names\<close>

text \<open>
  \<open>!s.is_empty() && s.split('.').all(|part| !part.is_empty() && part.bytes().all(ok))\<close>, which
  the code writes out in four places with two different byte classes.
\<close>

definition dotted :: "(char \<Rightarrow> bool) \<Rightarrow> string \<Rightarrow> bool" where
  "dotted ok s =
     (s \<noteq> [] \<and> (\<forall>part\<in>set (split_char CHR ''.'' s). part \<noteq> [] \<and> (\<forall>b\<in>set part. ok b)))"

definition name_byte :: "char \<Rightarrow> bool" where
  "name_byte b = (is_ascii_lowercase b \<or> is_ascii_digit b \<or> b = CHR ''-'')"

lemma dotted_chars: "dotted ok s \<Longrightarrow> b \<in> set s \<Longrightarrow> ok b \<or> b = CHR ''.''"
proof -
  assume d: "dotted ok s" and b: "b \<in> set s"
  have "set (join [CHR ''.''] ss) \<subseteq> \<Union> (set ` set ss) \<union> {CHR ''.''}" for ss
    by (induction "[CHR ''.'']" ss rule: join.induct) auto
  from this[of "split_char CHR ''.'' s"]
  have "set s \<subseteq> \<Union> (set ` set (split_char CHR ''.'' s)) \<union> {CHR ''.''}"
    by (simp add: join_split_char)
  with d b show ?thesis by (auto simp: dotted_def)
qed

lemma dotted_nonempty: "dotted ok s \<Longrightarrow> s \<noteq> []"
  by (simp add: dotted_def)

section \<open>Lines\<close>

fun split_inclusive :: "char \<Rightarrow> string \<Rightarrow> string list" where
  "split_inclusive c [] = []"
| "split_inclusive c (x # xs) =
     (if x = c then [x] # split_inclusive c xs
      else (case split_inclusive c xs of [] \<Rightarrow> [[x]] | s # ss \<Rightarrow> (x # s) # ss))"

lemma concat_split_inclusive: "concat (split_inclusive c s) = s"
proof (induction s)
  case Nil
  then show ?case by simp
next
  case (Cons x xs)
  then show ?case by (cases "split_inclusive c xs") auto
qed

abbreviation newline :: char where "newline \<equiv> CHR 0x0A"
abbreviation carriage_return :: char where "carriage_return \<equiv> CHR 0x0D"

text \<open>\<open>str::lines\<close>: a line ends at a newline, and one carriage return before it is dropped.\<close>

definition rust_lines :: "string \<Rightarrow> string list" where
  "rust_lines s =
     map (\<lambda>l. case strip_suffix [newline] l of
            None \<Rightarrow> l
          | Some l' \<Rightarrow> (case strip_suffix [carriage_return] l' of None \<Rightarrow> l' | Some l'' \<Rightarrow> l''))
       (split_inclusive newline s)"

section \<open>Trimming\<close>

text \<open>
  \<open>str::trim\<close> removes Unicode \<open>White_Space\<close> characters. \<open>ws_len\<close> is the byte length of the
  white-space character a string starts with, 0 when it starts with another one; \<open>ws_end_len\<close>
  reads the string backwards.
\<close>

definition ws3 :: "nat \<Rightarrow> nat \<Rightarrow> nat \<Rightarrow> bool" where
  "ws3 a b c =
     (a = 225 \<and> b = 154 \<and> c = 128 \<or>
      a = 226 \<and> b = 128 \<and> (128 \<le> c \<and> c \<le> 138 \<or> c = 168 \<or> c = 169 \<or> c = 175) \<or>
      a = 226 \<and> b = 129 \<and> c = 159 \<or>
      a = 227 \<and> b = 128 \<and> c = 128)"

definition ws2 :: "nat \<Rightarrow> nat \<Rightarrow> bool" where
  "ws2 a b = (a = 194 \<and> (b = 133 \<or> b = 160))"

definition ws1 :: "nat \<Rightarrow> bool" where
  "ws1 a = (9 \<le> a \<and> a \<le> 13 \<or> a = 32)"

fun ws_len :: "string \<Rightarrow> nat" where
  "ws_len (a # b # c # _) =
     (if ws1 (byte a) then 1 else if ws2 (byte a) (byte b) then 2
      else if ws3 (byte a) (byte b) (byte c) then 3 else 0)"
| "ws_len [a, b] = (if ws1 (byte a) then 1 else if ws2 (byte a) (byte b) then 2 else 0)"
| "ws_len [a] = (if ws1 (byte a) then 1 else 0)"
| "ws_len [] = 0"

fun ws_rev_len :: "string \<Rightarrow> nat" where
  "ws_rev_len (c # b # a # _) =
     (if ws1 (byte c) then 1 else if ws2 (byte b) (byte c) then 2
      else if ws3 (byte a) (byte b) (byte c) then 3 else 0)"
| "ws_rev_len [b, a] = (if ws1 (byte b) then 1 else if ws2 (byte a) (byte b) then 2 else 0)"
| "ws_rev_len [a] = (if ws1 (byte a) then 1 else 0)"
| "ws_rev_len [] = 0"

lemma ws_len_le: "ws_len s \<le> length s"
  by (induction s rule: ws_len.induct) auto

lemma ws_rev_len_le: "ws_rev_len s \<le> length s"
  by (induction s rule: ws_rev_len.induct) auto

lemma ws_len_drop: "ws_len s \<noteq> 0 \<Longrightarrow> length (drop (ws_len s) s) < length s"
  using ws_len_le[of s] by simp

lemma ws_rev_len_drop: "ws_rev_len s \<noteq> 0 \<Longrightarrow> length (drop (ws_rev_len s) s) < length s"
  using ws_rev_len_le[of s] by simp

function trim_start :: "string \<Rightarrow> string" where
  "trim_start s = (if ws_len s = 0 then s else trim_start (drop (ws_len s) s))"
  by pat_completeness auto
termination
  by (relation "measure length") (auto simp del: length_drop intro: ws_len_drop)

function trim_rev :: "string \<Rightarrow> string" where
  "trim_rev s = (if ws_rev_len s = 0 then s else trim_rev (drop (ws_rev_len s) s))"
  by pat_completeness auto
termination
  by (relation "measure length") (auto simp del: length_drop intro: ws_rev_len_drop)

declare trim_start.simps [simp del] trim_rev.simps [simp del]

definition trim_end :: "string \<Rightarrow> string" where
  "trim_end s = rev (trim_rev (rev s))"

definition trim :: "string \<Rightarrow> string" where
  "trim s = trim_end (trim_start s)"

lemma trim_start_id: "ws_len s = 0 \<Longrightarrow> trim_start s = s"
  by (simp add: trim_start.simps)

lemma trim_end_id: "ws_rev_len (rev s) = 0 \<Longrightarrow> trim_end s = s"
  by (simp add: trim_end_def trim_rev.simps)

lemma trim_id: "ws_len s = 0 \<Longrightarrow> ws_rev_len (rev s) = 0 \<Longrightarrow> trim s = s"
  by (simp add: trim_def trim_start_id trim_end_id)

section \<open>Characters\<close>

text \<open>
  In valid UTF-8 a character starts at every byte that is not a continuation byte, so
  \<open>chars().count()\<close> counts those bytes and a boundary is the end of the string or such a byte.
\<close>

definition is_cont :: "char \<Rightarrow> bool" where
  "is_cont c = (128 \<le> byte c \<and> byte c < 192)"

definition char_count :: "string \<Rightarrow> nat" where
  "char_count s = length (filter (\<lambda>c. \<not> is_cont c) s)"

definition is_char_boundary :: "string \<Rightarrow> nat \<Rightarrow> bool" where
  "is_char_boundary s i = (i = 0 \<or> i = length s \<or> i < length s \<and> \<not> is_cont (s ! i))"

text \<open>The byte offsets at which characters start: \<open>char_indices().map(|(i, _)| i)\<close>.\<close>

definition char_offsets :: "string \<Rightarrow> nat list" where
  "char_offsets s = filter (\<lambda>i. \<not> is_cont (s ! i)) [0..<length s]"

text \<open>\<open>std::str::from_utf8\<close> accepts exactly the well-formed sequences of the Unicode standard.\<close>

definition cont_in :: "nat \<Rightarrow> nat \<Rightarrow> char \<Rightarrow> bool" where
  "cont_in lo hi c = (lo \<le> byte c \<and> byte c \<le> hi)"

fun utf8_valid :: "string \<Rightarrow> bool" where
  "utf8_valid [] = True"
| "utf8_valid (a # s) =
     (if byte a < 128 then utf8_valid s
      else if 194 \<le> byte a \<and> byte a \<le> 223 then
        (case s of b # s' \<Rightarrow> is_cont b \<and> utf8_valid s' | _ \<Rightarrow> False)
      else if 224 \<le> byte a \<and> byte a \<le> 239 then
        (case s of b # c # s' \<Rightarrow>
           cont_in (if byte a = 224 then 160 else 128) (if byte a = 237 then 159 else 191) b
           \<and> is_cont c \<and> utf8_valid s' | _ \<Rightarrow> False)
      else if 240 \<le> byte a \<and> byte a \<le> 244 then
        (case s of b # c # d # s' \<Rightarrow>
           cont_in (if byte a = 240 then 144 else 128) (if byte a = 244 then 143 else 191) b
           \<and> is_cont c \<and> is_cont d \<and> utf8_valid s' | _ \<Rightarrow> False)
      else False)"

lemma char_count_Nil [simp]: "char_count [] = 0"
  by (simp add: char_count_def)

lemma char_count_append [simp]: "char_count (s @ t) = char_count s + char_count t"
  by (simp add: char_count_def)

lemma char_count_Cons: "char_count (c # s) = (if is_cont c then 0 else 1) + char_count s"
  by (simp add: char_count_def)

lemma length_char_offsets: "length (char_offsets s) = char_count s"
proof -
  have "char_count s = length (filter (\<lambda>c. \<not> is_cont c) (map (\<lambda>i. s ! i) [0..<length s]))"
    by (simp add: char_count_def map_nth)
  also have "\<dots> = length (filter (\<lambda>i. \<not> is_cont (s ! i)) [0..<length s])"
    by (simp add: filter_map comp_def)
  finally show ?thesis by (simp add: char_offsets_def)
qed

lemma char_count_take_le: "char_count (take i s) \<le> char_count s"
  by (metis append_take_drop_id char_count_append le_add1)

text \<open>The \<open>n\<close>-th character starts at offset \<open>i\<close> when \<open>n\<close> characters end before \<open>i\<close>.\<close>

lemma char_offsets_nth:
  assumes "i < length s" "\<not> is_cont (s ! i)"
  shows "char_count (take i s) < char_count s
    \<and> char_offsets s ! char_count (take i s) = i"
proof -
  let ?P = "\<lambda>i. \<not> is_cont (s ! i)"
  have split: "[0..<length s] = [0..<i] @ i # [Suc i..<length s]"
    using assms(1) by (metis le_add1 less_imp_add_positive upt_add_eq_append upt_conv_Cons zero_le le_eq_less_or_eq add_0)
  have pre: "length (filter ?P [0..<i]) = char_count (take i s)"
  proof -
    have "filter ?P [0..<i] = filter (\<lambda>j. \<not> is_cont (take i s ! j)) [0..<length (take i s)]"
      using assms(1) by (intro filter_cong) auto
    then show ?thesis
      using length_char_offsets[of "take i s"] by (simp add: char_offsets_def)
  qed
  have eq: "char_offsets s = filter ?P [0..<i] @ i # filter ?P [Suc i..<length s]"
    using assms(2) by (simp add: char_offsets_def split)
  have "length (char_offsets s) = char_count s" by (rule length_char_offsets)
  with eq pre show ?thesis by (simp add: nth_append)
qed

section \<open>Numbers\<close>

text \<open>\<open>str::parse\<close> for unsigned and signed integers: an optional sign, then at least one digit.\<close>

fun digits_acc :: "nat \<Rightarrow> string \<Rightarrow> nat option" where
  "digits_acc n [] = Some n"
| "digits_acc n (c # cs) =
     (if is_ascii_digit c then digits_acc (10 * n + (byte c - 48)) cs else None)"

definition parse_digits :: "string \<Rightarrow> nat option" where
  "parse_digits s = (if s = [] then None else digits_acc 0 s)"

definition parse_unsigned :: "nat \<Rightarrow> string \<Rightarrow> nat option" where
  "parse_unsigned bits s =
     (let body = (case strip_prefix ''+'' s of Some t \<Rightarrow> t | None \<Rightarrow> s)
      in case parse_digits body of
           None \<Rightarrow> None
         | Some n \<Rightarrow> if n < 2 ^ bits then Some n else None)"

definition parse_i64 :: "string \<Rightarrow> i64 option" where
  "parse_i64 s =
     (case strip_prefix ''-'' s of
        Some t \<Rightarrow> (case parse_digits t of
            None \<Rightarrow> None
          | Some n \<Rightarrow> if n \<le> 2 ^ 63 then Some (- int n) else None)
      | None \<Rightarrow> (case parse_digits (case strip_prefix ''+'' s of Some t \<Rightarrow> t | None \<Rightarrow> s) of
            None \<Rightarrow> None
          | Some n \<Rightarrow> if n < 2 ^ 63 then Some (int n) else None))"

text \<open>Decimal formatting of an unsigned integer.\<close>

fun decimal :: "nat \<Rightarrow> string" where
  "decimal n =
     (if n < 10 then [char_of (48 + n)] else decimal (n div 10) @ [char_of (48 + n mod 10)])"

declare decimal.simps [simp del]

lemma digits_acc_append:
  "digits_acc n (s @ t) = (case digits_acc n s of None \<Rightarrow> None | Some m \<Rightarrow> digits_acc m t)"
  by (induction n s rule: digits_acc.induct) auto

lemma is_ascii_digit_char_of: "d < 10 \<Longrightarrow> is_ascii_digit (char_of (48 + d)) \<and> byte (char_of (48 + d)) = 48 + d"
  by (simp add: is_ascii_digit_def)

lemma decimal_digits: "digits_acc 0 (decimal n) = Some n"
proof (induction n rule: decimal.induct)
  case (1 n)
  show ?case
  proof (cases "n < 10")
    case True
    then show ?thesis
      using is_ascii_digit_char_of[of n] by (simp add: decimal.simps[of n])
  next
    case False
    with 1 show ?thesis
      using is_ascii_digit_char_of[of "n mod 10"]
      by (simp add: decimal.simps[of n] digits_acc_append)
  qed
qed

lemma decimal_nonempty: "decimal n \<noteq> []"
  by (simp add: decimal.simps[of n])

lemma parse_digits_decimal: "parse_digits (decimal n) = Some n"
  by (simp add: parse_digits_def decimal_nonempty decimal_digits)

section \<open>Hexadecimal\<close>

definition hex_digit :: "nat \<Rightarrow> char" where
  "hex_digit n = (if n < 10 then char_of (48 + n) else char_of (87 + n))"

text \<open>\<open>format!("{:x}", digest)\<close>: two lower-case hexadecimal digits per byte.\<close>

definition hex_byte :: "char \<Rightarrow> string" where
  "hex_byte b = [hex_digit (byte b div 16), hex_digit (byte b mod 16)]"

definition hex :: "string \<Rightarrow> string" where
  "hex bs = concat (map hex_byte bs)"

lemma byte_hex_digit:
  "n < 16 \<Longrightarrow> byte (hex_digit n) = (if n < 10 then 48 + n else 87 + n)"
  by (simp add: hex_digit_def)

lemma hex_digit_inj:
  assumes "m < 16" "n < 16" "hex_digit m = hex_digit n"
  shows "m = n"
proof -
  have "(if m < 10 then 48 + m else 87 + m) = byte (hex_digit m)"
    using byte_hex_digit[OF assms(1)] by simp
  also have "\<dots> = (if n < 10 then 48 + n else 87 + n)"
    using byte_hex_digit[OF assms(2)] by (simp add: assms(3))
  finally show ?thesis by (simp split: if_splits)
qed

lemma hex_byte_inj: "hex_byte a = hex_byte b \<Longrightarrow> a = b"
proof -
  assume eq: "hex_byte a = hex_byte b"
  have small: "byte c div 16 < 16" "byte c mod 16 < 16" for c
    using nat_of_char_less_256[of c] by (simp_all only: less_mult_imp_div_less)
  from eq have "byte a div 16 = byte b div 16" "byte a mod 16 = byte b mod 16"
    by (simp_all add: hex_byte_def) (blast intro: hex_digit_inj small)+
  then have "byte a = byte b" by (metis div_mult_mod_eq)
  then show "a = b" by simp
qed

lemma hex_Cons: "hex (b # bs) = hex_byte b @ hex bs"
  by (simp add: hex_def)

lemma hex_inj: "hex as = hex bs \<Longrightarrow> as = bs"
proof (induction as arbitrary: bs)
  case Nil
  then show ?case by (cases bs) (auto simp: hex_def hex_byte_def)
next
  case (Cons a as)
  then obtain b bs' where bs: "bs = b # bs'"
    by (cases bs) (auto simp: hex_def hex_byte_def)
  with Cons.prems have "hex_byte a = hex_byte b" "hex as = hex bs'"
    by (auto simp: hex_Cons hex_byte_def)
  with bs Cons.IH show ?case by (auto dest: hex_byte_inj)
qed

end
