(* ===== verification/Canonical.thy ===== *)
theory Canonical
  imports Rust_Str
begin

text \<open>
  The canonical data model of \<open>crates/kide-core/src/canonical.rs\<close>: the opaque identities, the
  enumerations and the fact records that Core persists. Field names carry a short prefix per
  record; otherwise fields and constructors are those of the source, in its order.
\<close>

section \<open>Opaque identities\<close>

text \<open>
  Eight newtypes over \<open>String\<close>, each with \<open>new\<close> and \<open>as_str\<close> only. One phantom-typed datatype
  keeps them apart; its linear order is the order of the underlying strings, the one the code
  spells \<open>left.as_str().cmp(right.as_str())\<close>.
\<close>

datatype 'k ident = Ident (as_str: string)

instantiation ident :: (type) linorder
begin

definition less_eq_ident :: "'a ident \<Rightarrow> 'a ident \<Rightarrow> bool" where
  "less_eq_ident a b = (as_str a \<le> as_str b)"

definition less_ident :: "'a ident \<Rightarrow> 'a ident \<Rightarrow> bool" where
  "less_ident a b = (as_str a < as_str b)"

instance
  by standard (auto simp: less_eq_ident_def less_ident_def ident.expand)

end

lemma as_str_inject: "as_str a = as_str b \<longleftrightarrow> a = b"
  by (auto intro: ident.expand)

lemma inj_as_str: "inj_on as_str A"
  by (auto simp: inj_on_def as_str_inject)

lemma Ident_as_str [simp]: "Ident (as_str a) = a"
  by (cases a) simp

datatype workspace_tag = Workspace_Tag
datatype component_tag = Component_Tag
datatype source_unit_tag = Source_Unit_Tag
datatype symbol_tag = Symbol_Tag
datatype application_tag = Application_Tag
datatype type_tag = Type_Tag
datatype path_tag = Path_Tag
datatype fingerprint_tag = Fingerprint_Tag

type_synonym workspace_id = "workspace_tag ident"
type_synonym component_id = "component_tag ident"
type_synonym source_unit_id = "source_unit_tag ident"
type_synonym symbol_id = "symbol_tag ident"
type_synonym application_id = "application_tag ident"
type_synonym type_id = "type_tag ident"
type_synonym workspace_path = "path_tag ident"
type_synonym fingerprint = "fingerprint_tag ident"

abbreviation WorkspaceId :: "string \<Rightarrow> workspace_id" where "WorkspaceId \<equiv> Ident"
abbreviation ComponentId :: "string \<Rightarrow> component_id" where "ComponentId \<equiv> Ident"
abbreviation SourceUnitId :: "string \<Rightarrow> source_unit_id" where "SourceUnitId \<equiv> Ident"
abbreviation SymbolId :: "string \<Rightarrow> symbol_id" where "SymbolId \<equiv> Ident"
abbreviation ApplicationId :: "string \<Rightarrow> application_id" where "ApplicationId \<equiv> Ident"
abbreviation TypeId :: "string \<Rightarrow> type_id" where "TypeId \<equiv> Ident"
abbreviation WorkspacePath :: "string \<Rightarrow> workspace_path" where "WorkspacePath \<equiv> Ident"
abbreviation Fingerprint :: "string \<Rightarrow> fingerprint" where "Fingerprint \<equiv> Ident"

section \<open>Enumerations\<close>

datatype language = Kotlin | Java | Rust | TypeScript | OtherLanguage string

datatype build_system = Gradle | Maven | Cargo | Npm | Bazel | Filesystem | OtherBuild string

datatype source_origin = OriginSource | OriginGenerated | OriginDependency

datatype freshness = Fresh | Stale | Unknown | Unsupported

datatype completeness = Complete | Partial | Failed

datatype precision = Exact | Approximate

section \<open>Provenance, positions and ranges\<close>

record provenance =
  prov_backend :: string
  prov_backend_version :: string
  prov_protocol_version :: u32
  prov_analysis_options :: fingerprint

record text_position =
  pos_line :: u32
  pos_column :: u32

record byte_range =
  br_start :: u64
  br_end :: u64

record location =
  loc_path :: workspace_path
  loc_position :: text_position

record source_range =
  sr_unit :: source_unit_id
  sr_bytes :: byte_range

section \<open>The project model\<close>

record source_set =
  ss_name :: string
  ss_source_roots :: "workspace_path list"
  ss_generated_roots :: "workspace_path list"
  ss_test :: bool

record toolchain =
  tc_jvm_version :: string
  tc_build_tool_version :: string
  tc_kotlin_version :: "string option"

record component =
  comp_id :: component_id
  comp_name :: string
  comp_build_system :: build_system
  comp_root :: workspace_path
  comp_languages :: "language list"
  comp_configuration :: fingerprint
  comp_source_sets :: "source_set list"
  comp_classpath :: "fingerprint list"
  comp_toolchain :: "toolchain option"
  comp_compiler_configuration :: "fingerprint option"

datatype dependency_target = TargetComponent component_id | TargetArtifact fingerprint

record dependency_edge =
  dep_from :: component_id
  dep_target :: dependency_target
  dep_scope :: string

record project_manifest =
  man_workspace :: workspace_id
  man_root :: workspace_path
  man_components :: "component list"
  man_dependencies :: "dependency_edge list"
  man_fingerprint :: fingerprint
  man_provenance :: provenance

record source_unit =
  su_id :: source_unit_id
  su_component :: component_id
  su_path :: workspace_path
  su_language :: language
  su_origin :: source_origin
  su_content :: fingerprint
  su_context :: fingerprint

section \<open>Facts\<close>

record backend_key =
  bk_backend :: string
  bk_schema_version :: u32
  bk_value :: string

datatype symbol_kind =
  KPackage | KModule | KClass | KInterface | KObject | KEnum | KFunction | KMethod
  | KConstructor | KProperty | KField | KParameter | KTypeAlias | KOther

record symbol_record =
  sym_id :: symbol_id
  sym_backend_key :: backend_key
  sym_language :: language
  sym_kind :: symbol_kind
  sym_name :: string
  sym_qualified_name :: "string option"
  sym_signature :: "string option"
  sym_component :: component_id
  sym_declaration :: source_range
  sym_name_range :: source_range
  sym_owner :: "symbol_id option"
  sym_modifiers :: "string list"
  sym_applied_symbols :: "symbol_id list"
  sym_freshness :: freshness
  sym_completeness :: completeness
  sym_provenance :: provenance

datatype occurrence_kind = ODeclaration | OReference | OCall | OTypeReference | OImport

record source_occurrence =
  occ_range :: source_range
  occ_kind :: occurrence_kind
  occ_enclosing_symbol :: "symbol_id option"
  occ_target :: "symbol_id option"
  occ_type_id :: "type_id option"
  occ_precision :: precision
  occ_freshness :: freshness
  occ_completeness :: completeness
  occ_provenance :: provenance

record reference_edge =
  ref_source :: source_occurrence
  ref_target :: symbol_id
  ref_precision :: precision

record call_edge =
  call_source :: source_occurrence
  call_target :: symbol_id
  call_caller :: "symbol_id option"
  call_precision :: precision

datatype application_value =
  AVString string | AVStringList "string list" | AVBoolean bool | AVInteger i64

record application_argument =
  arg_name :: "string option"
  arg_position :: u32
  arg_value :: application_value

record application_fact =
  app_id :: application_id
  app_subject :: symbol_id
  app_target :: symbol_id
  app_range :: source_range
  app_arguments :: "application_argument list"
  app_precision :: precision
  app_freshness :: freshness
  app_completeness :: completeness
  app_provenance :: provenance

record hierarchy_edge =
  hier_subtype :: symbol_id
  hier_supertype :: symbol_id
  hier_precision :: precision
  hier_provenance :: provenance

record type_record =
  ty_id :: type_id
  ty_language :: language
  ty_display :: string
  ty_backend_key :: "backend_key option"
  ty_freshness :: freshness
  ty_completeness :: completeness
  ty_provenance :: provenance

datatype diagnostic_severity = SevError | SevWarning | SevInformation | SevHint

record diagnostic_record =
  diag_source_unit :: source_unit_id
  diag_range :: "byte_range option"
  diag_severity :: diagnostic_severity
  diag_code :: "string option"
  diag_message :: string
  diag_freshness :: freshness
  diag_completeness :: completeness
  diag_provenance :: provenance

section \<open>Versions\<close>

definition CANONICAL_SCHEMA_VERSION :: u32 where "CANONICAL_SCHEMA_VERSION = 1"
definition INDEX_FORMAT_VERSION :: u32 where "INDEX_FORMAT_VERSION = 13"

end
