(* ===== verification/Protocol.thy ===== *)
theory Protocol
  imports Canonical
begin

text \<open>
  The worker protocol vocabulary of \<open>crates/kide-core/src/protocol.rs\<close> and the dependency
  identity of \<open>dependency_identity.rs\<close>. The SHA-256 digest and the JSON writer that
  \<open>cache_key\<close> uses are third-party code, so \<open>cache_key\<close> takes them as arguments.
\<close>

section \<open>Dependency identity\<close>

definition WORKER_PROTOCOL_VERSION :: u32 where "WORKER_PROTOCOL_VERSION = 3"
definition DEPENDENCY_IDENTITY_VERSION :: u32 where "DEPENDENCY_IDENTITY_VERSION = 1"
definition ARTIFACT_BLOB_FORMAT_VERSION :: u32 where "ARTIFACT_BLOB_FORMAT_VERSION = 1"

record dependency_identity =
  di_identity_version :: u32
  di_ecosystem :: string
  di_canonical_coordinate :: "string option"
  di_resolved_version :: "string option"
  di_content :: fingerprint
  di_context :: fingerprint
  di_provenance :: provenance
  di_canonical_schema_version :: u32
  di_blob_format_version :: u32

definition identity_new ::
    "string \<Rightarrow> string option \<Rightarrow> string option \<Rightarrow> fingerprint \<Rightarrow> fingerprint \<Rightarrow> provenance \<Rightarrow> u32
     \<Rightarrow> dependency_identity" where
  "identity_new ecosystem coordinate version content context prov blob_format_version =
     \<lparr> di_identity_version = DEPENDENCY_IDENTITY_VERSION, di_ecosystem = ecosystem,
       di_canonical_coordinate = coordinate, di_resolved_version = version,
       di_content = content, di_context = context, di_provenance = prov,
       di_canonical_schema_version = CANONICAL_SCHEMA_VERSION,
       di_blob_format_version = blob_format_version \<rparr>"

definition identity_unattributed ::
    "fingerprint \<Rightarrow> fingerprint \<Rightarrow> provenance \<Rightarrow> u32 \<Rightarrow> dependency_identity" where
  "identity_unattributed content context prov blob_format_version =
     identity_new ''unknown'' None None content context prov blob_format_version"

text \<open>
  \<open>json\<close> is \<open>serde_json::to_vec\<close> on the identity and \<open>sha256\<close> is the digest (32 raw bytes).
\<close>

definition identity_cache_key ::
    "(string \<Rightarrow> string) \<Rightarrow> (dependency_identity \<Rightarrow> string) \<Rightarrow> dependency_identity \<Rightarrow> fingerprint" where
  "identity_cache_key sha256 json i = Fingerprint (''sha256:'' @ hex (sha256 (json i)))"

section \<open>Artifact descriptors\<close>

record symbol_locator =
  loc_qualified_name :: string
  loc_symbol :: symbol_id

record artifact_descriptor =
  ad_source_unit :: source_unit
  ad_provenance :: provenance
  ad_resolved_identity :: "dependency_identity option"
  ad_symbol_locators :: "symbol_locator list"

definition resolved_identity :: "artifact_descriptor \<Rightarrow> dependency_identity" where
  "resolved_identity d =
     (case ad_resolved_identity d of
        Some i \<Rightarrow> i
      | None \<Rightarrow> identity_unattributed (su_content (ad_source_unit d)) (su_context (ad_source_unit d))
                  (ad_provenance d) ARTIFACT_BLOB_FORMAT_VERSION)"

text \<open>\<open>ArtifactBlobKey\<close> of \<open>artifact_cache.rs\<close>: an identity used as a cache key.\<close>

datatype artifact_blob_key = ArtifactBlobKey (key_identity: dependency_identity)

definition key_for_descriptor :: "artifact_descriptor \<Rightarrow> artifact_blob_key" where
  "key_for_descriptor d = ArtifactBlobKey (resolved_identity d)"

section \<open>Worker capabilities\<close>

datatype worker_capability =
  CapHandshake | CapProjectManifest | CapFileAnalysisSnapshot | CapDependencyAnalysis
  | CapAnalysisDelta

record worker_identity =
  wi_backend :: string
  wi_backend_version :: string

datatype semantic_query_parameter_type = PTSymbolId | PTComponentId | PTString | PTInteger

datatype semantic_query_result_kind = CandidateSymbols | NormalizedFacts

record semantic_query_parameter =
  sqp_name :: string
  sqp_ty :: semantic_query_parameter_type
  sqp_required :: bool

record semantic_query_capability =
  sqc_name :: string
  sqc_version :: u32
  sqc_parameters :: "semantic_query_parameter list"
  sqc_result :: semantic_query_result_kind

record worker_capabilities =
  wc_identity :: worker_identity
  wc_protocol_version :: u32
  wc_languages :: "language list"
  wc_capabilities :: "worker_capability list"
  wc_semantic_query_capabilities :: "semantic_query_capability list"

datatype semantic_query_argument_value =
  ArgSymbolId symbol_id | ArgComponentId component_id | ArgString string | ArgInteger i64

record semantic_query_argument =
  sqa_name :: string
  sqa_value :: semantic_query_argument_value

record semantic_query_budget =
  sqb_max_candidates :: u32
  sqb_max_nodes :: u32
  sqb_max_bytes :: u64
  sqb_deadline_millis :: u64

record semantic_query_request =
  sqr_capability_name :: string
  sqr_capability_version :: u32
  sqr_arguments :: "semantic_query_argument list"
  sqr_candidate_symbols :: "symbol_id list"
  sqr_candidate_source_units :: "source_unit_id list"
  sqr_budget :: semantic_query_budget

section \<open>Analysis snapshots\<close>

record file_analysis_snapshot =
  snap_source_unit :: source_unit
  snap_structural_fingerprint :: "fingerprint option"
  snap_public_api_fingerprint :: "fingerprint option"
  snap_symbols :: "symbol_record list"
  snap_applications :: "application_fact list"
  snap_occurrences :: "source_occurrence list"
  snap_references :: "reference_edge list"
  snap_calls :: "call_edge list"
  snap_hierarchy :: "hierarchy_edge list"
  snap_types :: "type_record list"
  snap_diagnostics :: "diagnostic_record list"
  snap_completeness :: completeness
  snap_provenance :: provenance

datatype semantic_query_response_state = RespComplete | RespPartial | RespUnsupported

record semantic_query_response =
  resp_capability_name :: string
  resp_capability_version :: u32
  resp_state :: semantic_query_response_state
  resp_candidate_symbols :: "symbol_id list"
  resp_snapshots :: "file_analysis_snapshot list"
  resp_provenance :: provenance
  resp_visited_nodes :: u32
  resp_produced_bytes :: u64

end
