(* ===== verification/Samples.thy ===== *)
theory Samples
  imports Protocol
begin

text \<open>
  Small concrete values of the data model, in the spirit of the fixtures of the crate's unit
  tests. The theorems that have hypotheses are applied to them at the end of each theory, which
  shows that the hypotheses can hold.
\<close>

definition sample_provenance :: "string \<Rightarrow> provenance" where
  "sample_provenance version =
     \<lparr> prov_backend = ''worker'', prov_backend_version = version, prov_protocol_version = 3,
       prov_analysis_options = Fingerprint ''options'' \<rparr>"

definition sample_unit :: "string \<Rightarrow> string \<Rightarrow> source_unit" where
  "sample_unit key content =
     \<lparr> su_id = SourceUnitId key, su_component = ComponentId ''core'',
       su_path = WorkspacePath (''src/'' @ key), su_language = Rust, su_origin = OriginSource,
       su_content = Fingerprint content, su_context = Fingerprint ''context'' \<rparr>"

definition sample_descriptor :: "string \<Rightarrow> string \<Rightarrow> artifact_descriptor" where
  "sample_descriptor key content =
     \<lparr> ad_source_unit = sample_unit key content, ad_provenance = sample_provenance ''1'',
       ad_resolved_identity = None, ad_symbol_locators = [] \<rparr>"

lemma sample_unit_simps [simp]:
  "su_id (sample_unit key content) = SourceUnitId key"
  "su_component (sample_unit key content) = ComponentId ''core''"
  "su_path (sample_unit key content) = WorkspacePath (''src/'' @ key)"
  "su_content (sample_unit key content) = Fingerprint content"
  "su_context (sample_unit key content) = Fingerprint ''context''"
  "su_language (sample_unit key content) = Rust"
  "su_origin (sample_unit key content) = OriginSource"
  by (simp_all add: sample_unit_def)

lemma sample_descriptor_simps [simp]:
  "ad_source_unit (sample_descriptor key content) = sample_unit key content"
  "ad_provenance (sample_descriptor key content) = sample_provenance ''1''"
  "ad_resolved_identity (sample_descriptor key content) = None"
  "ad_symbol_locators (sample_descriptor key content) = []"
  by (simp_all add: sample_descriptor_def)

definition sample_range :: "string \<Rightarrow> nat \<Rightarrow> nat \<Rightarrow> source_range" where
  "sample_range key a b =
     \<lparr> sr_unit = SourceUnitId key, sr_bytes = \<lparr> br_start = of_nat a, br_end = of_nat b \<rparr> \<rparr>"

definition sample_symbol :: "string \<Rightarrow> string \<Rightarrow> string \<Rightarrow> symbol_record" where
  "sample_symbol key symbol name =
     \<lparr> sym_id = SymbolId symbol,
       sym_backend_key = \<lparr> bk_backend = ''worker'', bk_schema_version = 1, bk_value = symbol \<rparr>,
       sym_language = Rust, sym_kind = KFunction, sym_name = name, sym_qualified_name = None,
       sym_signature = None, sym_component = ComponentId ''core'',
       sym_declaration = sample_range key 0 9, sym_name_range = sample_range key 3 7,
       sym_owner = None, sym_modifiers = [], sym_applied_symbols = [], sym_freshness = Fresh,
       sym_completeness = Complete, sym_provenance = sample_provenance ''1'' \<rparr>"

definition sample_snapshot :: "string \<Rightarrow> string \<Rightarrow> symbol_record list \<Rightarrow> file_analysis_snapshot" where
  "sample_snapshot key content symbols =
     \<lparr> snap_source_unit = sample_unit key content, snap_structural_fingerprint = None,
       snap_public_api_fingerprint = None, snap_symbols = symbols, snap_applications = [],
       snap_occurrences = [], snap_references = [], snap_calls = [], snap_hierarchy = [],
       snap_types = [], snap_diagnostics = [], snap_completeness = Complete,
       snap_provenance = sample_provenance ''1'' \<rparr>"

end
