(* ===== verification/Keyed_Plan.thy ===== *)
theory Keyed_Plan
  imports Prelude
begin

text \<open>
  The interface shared by the planners of the code: two inputs are indexed by key, every
  current entry gets the action that its persisted counterpart decides, and every persisted
  entry without a current one is reported as gone. \<open>freshness.rs\<close>, \<open>incremental_plan.rs\<close> and
  the reconciliation of \<open>input_inventory.rs\<close> follow this contract; what it promises is proved
  here once.
\<close>

locale keyed_plan =
  fixes ckey :: "'c \<Rightarrow> 'k::linorder"
    and pkey :: "'p \<Rightarrow> 'k"
    and decide :: "'c \<Rightarrow> 'p option \<Rightarrow> 'a"
    and gone :: "'p \<Rightarrow> 'a"
    and akey :: "'a \<Rightarrow> 'k"
    and plan :: "'c list \<Rightarrow> 'p list \<Rightarrow> 'a list"
  assumes akey_decide: "akey (decide c q) = ckey c"
    and akey_gone: "akey (gone p) = pkey p"
    and plan_unfold: "plan cs ps =
      map (\<lambda>(k, c). decide c (btree_get (btree_index pkey ps) k)) (btree_index ckey cs)
      @ map (\<lambda>(k, p). gone p)
          (filter (\<lambda>(k, p). \<not> btree_contains (btree_index ckey cs) k) (btree_index pkey ps))"
begin

lemma plan_keys_list:
  "map akey (plan cs ps) =
     map fst (btree_index ckey cs)
     @ filter (\<lambda>k. \<not> btree_contains (btree_index ckey cs) k) (map fst (btree_index pkey ps))"
proof -
  have "map (akey \<circ> (\<lambda>(k, c). decide c (btree_get (btree_index pkey ps) k))) (btree_index ckey cs)
      = map fst (btree_index ckey cs)"
    by (auto simp: akey_decide dest: btree_index_entry)
  moreover have "map (akey \<circ> (\<lambda>(k, p). gone p))
        (filter (\<lambda>(k, p). \<not> btree_contains (btree_index ckey cs) k) (btree_index pkey ps))
      = map fst (filter (\<lambda>(k, p). \<not> btree_contains (btree_index ckey cs) k) (btree_index pkey ps))"
    by (auto simp: akey_gone dest: btree_index_entry)
  ultimately show ?thesis
    by (simp add: plan_unfold filter_map comp_def case_prod_beta')
qed

lemma plan_keys: "akey ` set (plan cs ps) = ckey ` set cs \<union> pkey ` set ps"
proof -
  have "akey ` set (plan cs ps) = set (map akey (plan cs ps))" by simp
  also have "\<dots> = fst ` set (btree_index ckey cs) \<union> fst ` set (btree_index pkey ps)"
    by (subst plan_keys_list) (auto simp: btree_contains_iff)
  finally show ?thesis by (simp add: btree_simps)
qed

lemma plan_distinct: "distinct (map akey (plan cs ps))"
  by (subst plan_keys_list)
    (auto simp: btree_wf_distinct distinct_filter btree_contains_iff)

lemma plan_length: "length (plan cs ps) = card (ckey ` set cs \<union> pkey ` set ps)"
proof -
  have "length (plan cs ps) = card (set (map akey (plan cs ps)))"
    using distinct_card[OF plan_distinct[of cs ps]] by simp
  then show ?thesis by (simp add: plan_keys)
qed

lemma plan_cases:
  assumes "a \<in> set (plan cs ps)"
  obtains (current) c where "c \<in> set cs" "a = decide c (btree_get (btree_index pkey ps) (ckey c))"
    | (gone) p where "p \<in> set ps" "pkey p \<notin> ckey ` set cs" "a = gone p"
proof -
  from assms consider k c where "(k, c) \<in> set (btree_index ckey cs)"
      "a = decide c (btree_get (btree_index pkey ps) k)"
    | k p where "(k, p) \<in> set (btree_index pkey ps)"
      "\<not> btree_contains (btree_index ckey cs) k" "a = gone p"
    by (auto simp: plan_unfold)
  then show ?thesis
  proof cases
    case 1
    then show ?thesis using current by (auto dest: btree_index_entry)
  next
    case 2
    then have "p \<in> set ps" "pkey p = k" by (auto dest: btree_index_entry)
    with 2 show ?thesis using gone by (auto simp: btree_contains_iff btree_index_keys)
  qed
qed

lemma plan_current:
  assumes "c \<in> set cs" "inj_on ckey (set cs)"
  shows "decide c (btree_get (btree_index pkey ps) (ckey c)) \<in> set (plan cs ps)"
proof -
  from assms have "btree_get (btree_index ckey cs) (ckey c) = Some c"
    by (rule btree_index_get_unique)
  then have "(ckey c, c) \<in> set (btree_index ckey cs)" by (rule map_of_SomeD)
  then show ?thesis by (force simp: plan_unfold)
qed

lemma plan_gone:
  assumes "p \<in> set ps" "inj_on pkey (set ps)" "pkey p \<notin> ckey ` set cs"
  shows "gone p \<in> set (plan cs ps)"
proof -
  from assms(1,2) have "btree_get (btree_index pkey ps) (pkey p) = Some p"
    by (rule btree_index_get_unique)
  then have "(pkey p, p) \<in> set (btree_index pkey ps)" by (rule map_of_SomeD)
  with assms(3) show ?thesis
    by (force simp: plan_unfold btree_contains_iff btree_index_keys)
qed

text \<open>The order in which the inputs are listed does not matter when keys are unique.\<close>

lemma plan_order_irrelevant:
  assumes "set cs = set cs'" "set ps = set ps'" "inj_on ckey (set cs)" "inj_on pkey (set ps)"
  shows "plan cs ps = plan cs' ps'"
proof -
  have idx: "btree_index key xs = btree_index key ys"
    if "set xs = set ys" "inj_on key (set xs)" for key :: "'z \<Rightarrow> 'k" and xs ys
  proof (rule btree_ext)
    show "btree_get (btree_index key xs) k = btree_get (btree_index key ys) k" for k
    proof (cases "k \<in> key ` set xs")
      case True
      then obtain x where "x \<in> set xs" "k = key x" by auto
      with that show ?thesis by (simp add: btree_index_get_unique)
    next
      case False
      with that show ?thesis by (metis btree_index_get_None)
    qed
  qed simp_all
  show ?thesis
    unfolding plan_unfold using idx assms by metis
qed

end

text \<open>
  When both inputs have the same type and key, a list can be planned against itself: every entry
  then meets its own persisted copy and nothing is gone.
\<close>

locale keyed_replan = keyed_plan key key decide gone akey plan
  for key :: "'c \<Rightarrow> 'k::linorder"
    and decide :: "'c \<Rightarrow> 'c option \<Rightarrow> 'a"
    and gone :: "'c \<Rightarrow> 'a"
    and akey :: "'a \<Rightarrow> 'k"
    and plan :: "'c list \<Rightarrow> 'c list \<Rightarrow> 'a list"
begin

lemma replan:
  assumes "a \<in> set (plan cs cs)"
  shows "\<exists>c\<in>set cs. a = decide c (Some c)"
proof -
  have "filter (\<lambda>(k, p). \<not> btree_contains (btree_index key cs) k) (btree_index key cs) = []"
    by (auto simp: filter_empty_conv btree_contains_iff intro: rev_image_eqI)
  with assms obtain k c where kc: "(k, c) \<in> set (btree_index key cs)"
      and a: "a = decide c (btree_get (btree_index key cs) k)"
    by (auto simp: plan_unfold)
  from kc have "btree_get (btree_index key cs) k = Some c" by (simp add: btree_get_eq_Some)
  with kc a show ?thesis by (auto dest: btree_index_entry)
qed

end

end
