(* ===== verification/Freshness.thy ===== *)
theory Freshness
  imports Samples Keyed_Plan
begin

text \<open>
  \<open>crates/kide-core/src/freshness.rs\<close>: which persisted source snapshots may be reused and which
  must be analysed again. The planners index both inputs by the unit's id and walk the ids in
  order; both are instances of the contract \<open>keyed_plan\<close>.
\<close>

section \<open>Data\<close>

datatype invalidation_reason =
  ContentChanged | ContextChanged | BackendChanged | AnalysisOptionsChanged | PublicApiChanged

record analysis_input =
  ai_source_unit :: source_unit
  ai_provenance :: provenance
  ai_public_api_fingerprint :: "fingerprint option"

datatype index_action =
  Reuse source_unit
| Reanalyze source_unit invalidation_reason
| Remove source_unit_id

section \<open>Operations\<close>

definition api_dependent_invalidations ::
    "fingerprint option \<Rightarrow> fingerprint option \<Rightarrow> source_unit_id list \<Rightarrow> source_unit_id list" where
  "api_dependent_invalidations previous_api current_api dependents =
     (if previous_api = current_api then [] else sort_dedup dependents)"

definition source_action :: "source_unit \<Rightarrow> source_unit option \<Rightarrow> index_action" where
  "source_action unit previous =
     (case previous of
        None \<Rightarrow> Reanalyze unit ContentChanged
      | Some previous \<Rightarrow>
          if su_context previous \<noteq> su_context unit then Reanalyze unit ContextChanged
          else if su_content previous \<noteq> su_content unit then Reanalyze unit ContentChanged
          else Reuse unit)"

definition unit_key :: "source_unit \<Rightarrow> string" where
  "unit_key u = as_str (su_id u)"

definition plan_invalidation :: "source_unit list \<Rightarrow> source_unit list \<Rightarrow> index_action list" where
  "plan_invalidation current persisted =
     (let current = btree_index unit_key current;
          persisted = btree_index unit_key persisted
      in map (\<lambda>(k, unit). source_action unit (btree_get persisted k)) current
         @ map (\<lambda>k. Remove (SourceUnitId k))
             (filter (\<lambda>k. \<not> btree_contains current k) (map fst persisted)))"

definition analysis_reason :: "analysis_input \<Rightarrow> analysis_input option \<Rightarrow> invalidation_reason option" where
  "analysis_reason input previous =
     (case previous of
        None \<Rightarrow> Some ContentChanged
      | Some previous \<Rightarrow>
          if su_context (ai_source_unit previous) \<noteq> su_context (ai_source_unit input)
          then Some ContextChanged
          else if su_content (ai_source_unit previous) \<noteq> su_content (ai_source_unit input)
          then Some ContentChanged
          else if prov_backend (ai_provenance previous) \<noteq> prov_backend (ai_provenance input)
            \<or> prov_backend_version (ai_provenance previous) \<noteq> prov_backend_version (ai_provenance input)
            \<or> prov_protocol_version (ai_provenance previous) \<noteq> prov_protocol_version (ai_provenance input)
          then Some BackendChanged
          else if prov_analysis_options (ai_provenance previous)
            \<noteq> prov_analysis_options (ai_provenance input)
          then Some AnalysisOptionsChanged
          else None)"

definition analysis_action :: "analysis_input \<Rightarrow> analysis_input option \<Rightarrow> index_action" where
  "analysis_action input previous =
     (case analysis_reason input previous of
        Some reason \<Rightarrow> Reanalyze (ai_source_unit input) reason
      | None \<Rightarrow> Reuse (ai_source_unit input))"

definition input_key :: "analysis_input \<Rightarrow> string" where
  "input_key i = as_str (su_id (ai_source_unit i))"

definition plan_analysis_invalidation ::
    "analysis_input list \<Rightarrow> analysis_input list \<Rightarrow> index_action list" where
  "plan_analysis_invalidation current persisted =
     (let current = btree_index input_key current;
          persisted = btree_index input_key persisted
      in map (\<lambda>(k, input). analysis_action input (btree_get persisted k)) current
         @ map (\<lambda>k. Remove (SourceUnitId k))
             (filter (\<lambda>k. \<not> btree_contains current k) (map fst persisted)))"

section \<open>The planners meet the contract\<close>

text \<open>The unit an action is about.\<close>

fun action_id :: "index_action \<Rightarrow> source_unit_id" where
  "action_id (Reuse u) = su_id u"
| "action_id (Reanalyze u r) = su_id u"
| "action_id (Remove i) = i"

abbreviation action_key :: "index_action \<Rightarrow> string" where
  "action_key a \<equiv> as_str (action_id a)"

lemma action_id_source_action [simp]: "action_id (source_action u p) = su_id u"
  by (auto simp: source_action_def split: option.splits)

lemma action_id_analysis_action [simp]:
  "action_id (analysis_action i p) = su_id (ai_source_unit i)"
  by (auto simp: analysis_action_def split: option.splits)

lemma removed_keys:
  assumes "\<And>x. h x = SourceUnitId (key x)"
  shows "map (\<lambda>k. Remove (SourceUnitId k)) (filter P (map fst (btree_index key xs)))
    = map (\<lambda>(k, x). Remove (h x)) (filter (\<lambda>(k, x). P k) (btree_index key xs))"
proof -
  have "Remove (SourceUnitId k) = Remove (h x)" if "(k, x) \<in> set (btree_index key xs)" for k x
    using btree_index_entry[OF that] assms by simp
  then show ?thesis
    by (auto simp: filter_map comp_def case_prod_beta' intro!: map_cong)
qed

interpretation source_plan: keyed_replan
  unit_key source_action "\<lambda>p. Remove (su_id p)" action_key plan_invalidation
proof
  show "plan_invalidation cs ps =
      map (\<lambda>(k, c). source_action c (btree_get (btree_index unit_key ps) k)) (btree_index unit_key cs)
      @ map (\<lambda>(k, p). Remove (su_id p))
          (filter (\<lambda>(k, p). \<not> btree_contains (btree_index unit_key cs) k) (btree_index unit_key ps))"
    for cs ps
    by (simp add: plan_invalidation_def Let_def removed_keys[of su_id unit_key] unit_key_def)
qed (simp_all add: unit_key_def)

interpretation analysis_plan: keyed_replan
  input_key analysis_action "\<lambda>p. Remove (su_id (ai_source_unit p))" action_key
  plan_analysis_invalidation
proof
  show "plan_analysis_invalidation cs ps =
      map (\<lambda>(k, c). analysis_action c (btree_get (btree_index input_key ps) k)) (btree_index input_key cs)
      @ map (\<lambda>(k, p). Remove (su_id (ai_source_unit p)))
          (filter (\<lambda>(k, p). \<not> btree_contains (btree_index input_key cs) k) (btree_index input_key ps))"
    for cs ps
    by (simp add: plan_analysis_invalidation_def Let_def
        removed_keys[of "\<lambda>p. su_id (ai_source_unit p)" input_key] input_key_def)
qed (simp_all add: input_key_def)

section \<open>What the source plans guarantee\<close>

text \<open>Two inputs agree on everything the planner compares.\<close>

definition same_input :: "analysis_input \<Rightarrow> analysis_input \<Rightarrow> bool" where
  "same_input i p =
     (su_id (ai_source_unit p) = su_id (ai_source_unit i)
      \<and> su_content (ai_source_unit p) = su_content (ai_source_unit i)
      \<and> su_context (ai_source_unit p) = su_context (ai_source_unit i)
      \<and> ai_provenance p = ai_provenance i)"

lemma analysis_reason_None:
  "analysis_reason i q = None \<longleftrightarrow>
     (\<exists>p. q = Some p \<and> su_content (ai_source_unit p) = su_content (ai_source_unit i)
        \<and> su_context (ai_source_unit p) = su_context (ai_source_unit i)
        \<and> ai_provenance p = ai_provenance i)"
  by (cases q) (auto simp: analysis_reason_def intro: provenance.equality)

lemma analysis_action_Reuse:
  "analysis_action i q = Reuse u \<longleftrightarrow> u = ai_source_unit i \<and> analysis_reason i q = None"
  by (auto simp: analysis_action_def split: option.splits)

lemma input_key_eq: "input_key p = input_key i \<longleftrightarrow> su_id (ai_source_unit p) = su_id (ai_source_unit i)"
  by (simp add: input_key_def as_str_inject)

text \<open>
  A snapshot is reused only when a persisted snapshot of the same unit was made from the
  same content and context by the same worker with the same options, whatever the two input
  lists hold.
\<close>

theorem reuse_is_sound:
  assumes "Reuse u \<in> set (plan_analysis_invalidation current persisted)"
  shows "\<exists>i\<in>set current. \<exists>p\<in>set persisted. ai_source_unit i = u \<and> same_input i p"
  using assms
proof (cases rule: analysis_plan.plan_cases)
  case (current i)
  then obtain p where p: "btree_get (btree_index input_key persisted) (input_key i) = Some p"
      "su_content (ai_source_unit p) = su_content (ai_source_unit i)"
      "su_context (ai_source_unit p) = su_context (ai_source_unit i)"
      "ai_provenance p = ai_provenance i" "u = ai_source_unit i"
    by (metis analysis_action_Reuse analysis_reason_None)
  from btree_index_get_Some[OF p(1)] have "p \<in> set persisted" "input_key p = input_key i"
    by simp_all
  with p current(1) show ?thesis
    by (auto simp: same_input_def input_key_eq)
qed simp

text \<open>
  C38. The converse, so that nothing is analysed in vain: with one persisted snapshot per unit, a
  current unit is reused exactly when its persisted snapshot agrees with it.
\<close>

theorem reuse_is_exact:
  assumes "distinct (map input_key current)" "distinct (map input_key persisted)"
    and "i \<in> set current"
  shows "Reuse (ai_source_unit i) \<in> set (plan_analysis_invalidation current persisted)
    \<longleftrightarrow> (\<exists>p\<in>set persisted. same_input i p)"
proof
  assume "\<exists>p\<in>set persisted. same_input i p"
  then obtain p where p: "p \<in> set persisted" "same_input i p" by blast
  then have "btree_get (btree_index input_key persisted) (input_key i) = Some p"
    using assms(2) btree_index_get_unique[OF p(1), of input_key]
    by (simp add: distinct_map same_input_def input_key_def)
  then have "analysis_action i (btree_get (btree_index input_key persisted) (input_key i))
      = Reuse (ai_source_unit i)"
    using p(2) by (simp add: analysis_action_Reuse analysis_reason_None same_input_def)
  then show "Reuse (ai_source_unit i) \<in> set (plan_analysis_invalidation current persisted)"
    using analysis_plan.plan_current[OF assms(3), of persisted] assms(1)
    by (simp add: distinct_map)
next
  assume "Reuse (ai_source_unit i) \<in> set (plan_analysis_invalidation current persisted)"
  then show "\<exists>p\<in>set persisted. same_input i p"
  proof (cases rule: analysis_plan.plan_cases)
    case (current j)
    then obtain p where p: "btree_get (btree_index input_key persisted) (input_key j) = Some p"
        "analysis_reason j (Some p) = None" "ai_source_unit i = ai_source_unit j"
      by (metis analysis_action_Reuse analysis_reason_None)
    from p(3) have "input_key i = input_key j" by (simp add: input_key_def)
    with assms(1,3) current(1) have "i = j" by (auto simp: distinct_map dest: inj_onD)
    with p btree_index_get_Some[OF p(1)] show ?thesis
      by (auto simp: analysis_reason_None same_input_def input_key_eq)
  qed simp
qed

text \<open>
  Every unit that is current or persisted gets exactly one action, and no other unit gets
  one; removals are exactly the persisted units that are no longer current.
\<close>

theorem plan_is_a_partition:
  "distinct (map action_id (plan_analysis_invalidation current persisted))
   \<and> action_id ` set (plan_analysis_invalidation current persisted)
     = (\<lambda>i. su_id (ai_source_unit i)) ` (set current \<union> set persisted)
   \<and> {x. Remove x \<in> set (plan_analysis_invalidation current persisted)}
     = (\<lambda>i. su_id (ai_source_unit i)) ` set persisted
       - (\<lambda>i. su_id (ai_source_unit i)) ` set current"
proof (intro conjI)
  let ?plan = "plan_analysis_invalidation current persisted"
  let ?id = "\<lambda>i. su_id (ai_source_unit i)"
  show dist: "distinct (map action_id ?plan)"
    using analysis_plan.plan_distinct by (rule distinct_map_comp)
  have "as_str ` (action_id ` set ?plan) = as_str ` (?id ` (set current \<union> set persisted))"
    using analysis_plan.plan_keys[of current persisted]
    by (simp add: image_image input_key_def image_Un)
  then show "action_id ` set ?plan = ?id ` (set current \<union> set persisted)"
    by (rule inj_on_image_eq_iff[OF inj_as_str, THEN iffD1, OF subset_UNIV subset_UNIV])
  show "{x. Remove x \<in> set ?plan} = ?id ` set persisted - ?id ` set current"
  proof (intro equalityI subsetI)
    fix x
    assume "x \<in> {x. Remove x \<in> set ?plan}"
    then have "Remove x \<in> set ?plan" by simp
    then show "x \<in> ?id ` set persisted - ?id ` set current"
    proof (cases rule: analysis_plan.plan_cases)
      case (current i)
      then show ?thesis by (auto simp: analysis_action_def split: option.splits)
    next
      case (gone p)
      then show ?thesis by (auto simp: input_key_def as_str_inject)
    qed
  next
    fix x
    assume x: "x \<in> ?id ` set persisted - ?id ` set current"
    then obtain p where p: "p \<in> set persisted" "x = ?id p" "?id p \<notin> ?id ` set current"
      by auto
    then have "input_key p \<notin> input_key ` set current"
      by (auto simp: image_iff input_key_eq)
    with p have "as_str x \<in> fst ` set (btree_index input_key persisted)"
        "\<not> btree_contains (btree_index input_key current) (as_str x)"
      by (auto simp: btree_contains_iff btree_index_keys input_key_def)
    then have "as_str x \<in> set (filter (\<lambda>k. \<not> btree_contains (btree_index input_key current) k)
        (map fst (btree_index input_key persisted)))"
      by simp
    then have "Remove (SourceUnitId (as_str x)) \<in> set ?plan"
      unfolding plan_analysis_invalidation_def Let_def set_append set_map by blast
    then show "x \<in> {x. Remove x \<in> set ?plan}" by simp
  qed
qed

text \<open>The analysis planner may only tighten what the source planner decides.\<close>

definition tightens :: "index_action \<Rightarrow> index_action \<Rightarrow> bool" where
  "tightens a s =
     (a = s \<or> (\<exists>u. s = Reuse u \<and> a \<in> {Reanalyze u BackendChanged, Reanalyze u AnalysisOptionsChanged}))"

lemma analysis_tightens_source:
  "tightens (analysis_action i q) (source_action (ai_source_unit i) (map_option ai_source_unit q))"
  by (auto simp: tightens_def analysis_action_def analysis_reason_def source_action_def
      split: option.splits)

lemma unit_index_of_inputs:
  "btree_index unit_key (map ai_source_unit is)
     = map (\<lambda>(k, i). (k, ai_source_unit i)) (btree_index input_key is)"
  by (simp add: btree_index_map unit_key_def input_key_def [abs_def])

text \<open>
  The plan with worker identity refines the plain source plan: the two plans list the same
  units in the same order, and an action differs only where a reusable unit is analysed again
  because the worker or its options changed.
\<close>

theorem analysis_plan_refines_source_plan:
  "list_all2 tightens (plan_analysis_invalidation current persisted)
     (plan_invalidation (map ai_source_unit current) (map ai_source_unit persisted))"
proof -
  let ?c = "btree_index input_key current" and ?p = "btree_index input_key persisted"
  have contains: "btree_contains (map (\<lambda>(k, i). (k, ai_source_unit i)) m) k = btree_contains m k"
    for m :: "(string, analysis_input) btree" and k
    by (simp add: btree_contains_def btree_get_map)
  have keys: "map fst (map (\<lambda>(k, i). (k, ai_source_unit i)) m) = map fst m"
    for m :: "(string, analysis_input) btree"
    by auto
  show ?thesis
    unfolding plan_invalidation_def plan_analysis_invalidation_def Let_def unit_index_of_inputs keys
      contains
  proof (rule list_all2_appendI)
    show "list_all2 tightens
        (map (\<lambda>(k, input). analysis_action input (btree_get ?p k)) ?c)
        (map (\<lambda>(k, unit). source_action unit (btree_get (map (\<lambda>(k, i). (k, ai_source_unit i)) ?p) k))
          (map (\<lambda>(k, i). (k, ai_source_unit i)) ?c))"
      by (auto simp: list_all2_conv_all_nth btree_get_map analysis_tightens_source
          split: prod.splits)
  qed (simp add: list_all2_conv_all_nth tightens_def)
qed

text \<open>
  A second plan against the inputs just persisted is a fixed point: every action reuses, and
  nothing is analysed or removed.
\<close>

theorem replanning_reuses_everything:
  assumes "a \<in> set (plan_analysis_invalidation inputs inputs)"
  shows "\<exists>i\<in>set inputs. a = Reuse (ai_source_unit i)"
proof -
  from analysis_plan.replan[OF assms] obtain i where
    "i \<in> set inputs" "a = analysis_action i (Some i)" by blast
  then show ?thesis by (auto simp: analysis_action_Reuse analysis_reason_None)
qed

text \<open>
  When a snapshot's public API changed, the dependents to analyse again are exactly those
  given, once each, in the order of their ids; when it did not change, there are none.
\<close>

theorem api_dependents_exact:
  "(previous_api = current_api \<longrightarrow> api_dependent_invalidations previous_api current_api deps = [])
   \<and> (previous_api \<noteq> current_api \<longrightarrow>
        set (api_dependent_invalidations previous_api current_api deps) = set deps
        \<and> strictly_sorted (api_dependent_invalidations previous_api current_api deps))"
  by (simp add: api_dependent_invalidations_def)

section \<open>The theorems on concrete inputs\<close>

definition sample_input :: "string \<Rightarrow> string \<Rightarrow> string \<Rightarrow> analysis_input" where
  "sample_input key content version =
     \<lparr> ai_source_unit = sample_unit key content, ai_provenance = sample_provenance version,
       ai_public_api_fingerprint = None \<rparr>"

lemma reuse_is_sound_witness:
  "\<exists>i\<in>set [sample_input ''a'' ''1'' ''1'', sample_input ''b'' ''1'' ''1''].
     \<exists>p\<in>set [sample_input ''b'' ''1'' ''1'']. ai_source_unit i = sample_unit ''b'' ''1'' \<and> same_input i p"
  by (rule reuse_is_sound) code_simp

lemma reuse_is_exact_witness:
  "Reuse (ai_source_unit (sample_input ''b'' ''1'' ''2''))
      \<in> set (plan_analysis_invalidation [sample_input ''b'' ''1'' ''2''] [sample_input ''b'' ''1'' ''1''])
    \<longleftrightarrow> (\<exists>p\<in>set [sample_input ''b'' ''1'' ''1'']. same_input (sample_input ''b'' ''1'' ''2'') p)"
  by (rule reuse_is_exact) code_simp+

lemma replanning_reuses_everything_witness:
  "\<exists>i\<in>set [sample_input ''a'' ''1'' ''1'', sample_input ''b'' ''1'' ''1''].
     Reuse (sample_unit ''b'' ''1'') = Reuse (ai_source_unit i)"
  by (rule replanning_reuses_everything) code_simp

lemma api_dependents_exact_witness:
  "api_dependent_invalidations None (Some (Fingerprint ''api''))
     [SourceUnitId ''b'', SourceUnitId ''a'', SourceUnitId ''b'']
     = [SourceUnitId ''a'', SourceUnitId ''b'']"
  using api_dependents_exact[of None "Some (Fingerprint ''api'')"
      "[SourceUnitId ''b'', SourceUnitId ''a'', SourceUnitId ''b'']"]
  by code_simp

end
