(* ===== verification/Incremental.thy ===== *)
theory Incremental
  imports Freshness
begin

text \<open>
  \<open>crates/kide-core/src/incremental_plan.rs\<close>: the plan of one incremental index generation,
  made of a manifest decision, the source actions of \<^theory_text>\<open>Freshness\<close> and one decision per
  dependency artifact. The closure \<open>blob_is_available\<close> is a predicate on cache keys: every
  caller passes a read-only cache probe.
\<close>

section \<open>Data\<close>

datatype manifest_action = ManifestReuse | ManifestResolve

datatype dependency_action =
  CacheHit artifact_descriptor
| CacheMiss artifact_descriptor
| Removed artifact_descriptor

record incremental_index_plan =
  plan_manifest :: manifest_action
  plan_sources :: "index_action list"
  plan_dependencies :: "dependency_action list"

section \<open>Operations\<close>

fun is_reanalyze :: "index_action \<Rightarrow> bool" where
  "is_reanalyze (Reanalyze u r) = True"
| "is_reanalyze _ = False"

definition requires_source_worker :: "incremental_index_plan \<Rightarrow> bool" where
  "requires_source_worker p = (\<exists>a\<in>set (plan_sources p). is_reanalyze a)"

fun miss_descriptor :: "dependency_action \<Rightarrow> artifact_descriptor option" where
  "miss_descriptor (CacheMiss d) = Some d"
| "miss_descriptor _ = None"

definition dependency_misses :: "incremental_index_plan \<Rightarrow> artifact_descriptor list" where
  "dependency_misses p = List.map_filter miss_descriptor (plan_dependencies p)"

definition artifact_key :: "artifact_descriptor \<Rightarrow> string" where
  "artifact_key d = as_str (su_id (ad_source_unit d))"

definition plan_dependency ::
    "(artifact_blob_key \<Rightarrow> bool) \<Rightarrow> artifact_descriptor \<Rightarrow> artifact_descriptor option
     \<Rightarrow> dependency_action" where
  "plan_dependency blob_is_available descriptor previous =
     (let unchanged = (case previous of
            None \<Rightarrow> False
          | Some previous \<Rightarrow> resolved_identity previous = resolved_identity descriptor);
          key = ArtifactBlobKey (resolved_identity descriptor)
      in if unchanged \<and> blob_is_available key then CacheHit descriptor else CacheMiss descriptor)"

definition plan_dependency_actions ::
    "(artifact_blob_key \<Rightarrow> bool) \<Rightarrow> artifact_descriptor list \<Rightarrow> artifact_descriptor list
     \<Rightarrow> dependency_action list" where
  "plan_dependency_actions blob_is_available current_dependencies persisted_dependencies =
     (let current = btree_index artifact_key current_dependencies;
          persisted = btree_index artifact_key persisted_dependencies
      in map (\<lambda>(k, d). plan_dependency blob_is_available d (btree_get persisted k)) current
         @ map (\<lambda>(k, d). Removed d) (filter (\<lambda>(k, d). \<not> btree_contains current k) persisted))"

definition plan_with_source_actions ::
    "manifest_action \<Rightarrow> index_action list \<Rightarrow> artifact_descriptor list \<Rightarrow> artifact_descriptor list
     \<Rightarrow> (artifact_blob_key \<Rightarrow> bool) \<Rightarrow> incremental_index_plan" where
  "plan_with_source_actions manifest sources current_dependencies persisted_dependencies
     blob_is_available =
     \<lparr> plan_manifest = manifest, plan_sources = sources,
       plan_dependencies =
         plan_dependency_actions blob_is_available current_dependencies persisted_dependencies \<rparr>"

definition plan_incremental_index ::
    "manifest_action \<Rightarrow> source_unit list \<Rightarrow> source_unit list \<Rightarrow> artifact_descriptor list
     \<Rightarrow> artifact_descriptor list \<Rightarrow> (artifact_blob_key \<Rightarrow> bool) \<Rightarrow> incremental_index_plan" where
  "plan_incremental_index manifest current_sources persisted_sources current_dependencies
     persisted_dependencies blob_is_available =
     plan_with_source_actions manifest (plan_invalidation current_sources persisted_sources)
       current_dependencies persisted_dependencies blob_is_available"

definition plan_incremental_analysis_index ::
    "manifest_action \<Rightarrow> analysis_input list \<Rightarrow> analysis_input list \<Rightarrow> artifact_descriptor list
     \<Rightarrow> artifact_descriptor list \<Rightarrow> (artifact_blob_key \<Rightarrow> bool) \<Rightarrow> incremental_index_plan" where
  "plan_incremental_analysis_index manifest current_sources persisted_sources
     current_dependencies persisted_dependencies blob_is_available =
     plan_with_source_actions manifest
       (plan_analysis_invalidation current_sources persisted_sources)
       current_dependencies persisted_dependencies blob_is_available"

section \<open>The dependency plan meets the contract\<close>

fun dependency_of :: "dependency_action \<Rightarrow> artifact_descriptor" where
  "dependency_of (CacheHit d) = d"
| "dependency_of (CacheMiss d) = d"
| "dependency_of (Removed d) = d"

lemma dependency_of_plan [simp]: "dependency_of (plan_dependency avail d q) = d"
  by (simp add: plan_dependency_def Let_def)

interpretation dependency_plan: keyed_replan
  artifact_key "plan_dependency avail" Removed
  "\<lambda>a. artifact_key (dependency_of a)" "plan_dependency_actions avail" for avail
  by unfold_locales (simp_all add: plan_dependency_actions_def Let_def)

section \<open>What the plan guarantees\<close>

lemma plan_dependency_hit:
  "plan_dependency avail d q = CacheHit e \<longleftrightarrow>
     e = d \<and> (\<exists>p. q = Some p \<and> resolved_identity p = resolved_identity d)
     \<and> avail (key_for_descriptor d)"
  by (auto simp: plan_dependency_def key_for_descriptor_def Let_def split: option.splits)

lemma plan_dependency_not_removed: "plan_dependency avail d q \<noteq> Removed e"
  by (simp add: plan_dependency_def Let_def)

text \<open>
  With one persisted descriptor per artifact, a current dependency is served from the cache
  exactly when a persisted descriptor of the same artifact has the same resolved identity and
  the blob of that identity is available.
\<close>

theorem cache_hit_is_exact:
  assumes "distinct (map artifact_key current)" "distinct (map artifact_key persisted)"
    and "d \<in> set current"
  shows "CacheHit d \<in> set (plan_dependencies
        (plan_incremental_index manifest srcs old_srcs current persisted avail))
    \<longleftrightarrow> avail (key_for_descriptor d)
      \<and> (\<exists>p\<in>set persisted. artifact_key p = artifact_key d
            \<and> resolved_identity p = resolved_identity d)"
    (is "?hit \<longleftrightarrow> ?avail \<and> ?known")
proof -
  let ?get = "btree_get (btree_index artifact_key persisted)"
  have plan: "?hit \<longleftrightarrow> CacheHit d \<in> set (plan_dependency_actions avail current persisted)"
    by (simp add: plan_incremental_index_def plan_with_source_actions_def)
  show ?thesis
  proof
    assume ?hit
    with plan have "CacheHit d \<in> set (plan_dependency_actions avail current persisted)" by simp
    then show "?avail \<and> ?known"
    proof (cases rule: dependency_plan.plan_cases)
      case (current c)
      then have "plan_dependency avail c (?get (artifact_key c)) = CacheHit d" by simp
      then obtain p where "c = d" "?get (artifact_key d) = Some p"
          "resolved_identity p = resolved_identity d" "avail (key_for_descriptor d)"
        by (auto simp: plan_dependency_hit)
      then show ?thesis by (auto dest: btree_index_get_Some)
    qed simp
  next
    assume k: "?avail \<and> ?known"
    then obtain p where p: "p \<in> set persisted" "artifact_key p = artifact_key d"
        "resolved_identity p = resolved_identity d" by blast
    have "?get (artifact_key d) = Some p"
      using btree_index_get_unique[OF p(1), of artifact_key] assms(2) p(2) by (simp add: distinct_map)
    with k p have "plan_dependency avail d (?get (artifact_key d)) = CacheHit d"
      by (simp add: plan_dependency_hit)
    then have "CacheHit d \<in> set (plan_dependency_actions avail current persisted)"
      using dependency_plan.plan_current[OF assms(3), of avail persisted] assms(1)
      by (simp add: distinct_map)
    with plan show ?hit by simp
  qed
qed

text \<open>
  A warm plan starts no worker and misses no dependency: planning against the inputs just
  persisted, with every blob available, reuses every source and hits every artifact.
\<close>

theorem warm_plan_is_free:
  assumes "\<And>d. d \<in> set deps \<Longrightarrow> avail (key_for_descriptor d)"
  shows "\<not> requires_source_worker
            (plan_incremental_analysis_index manifest inputs inputs deps deps avail)
    \<and> dependency_misses (plan_incremental_analysis_index manifest inputs inputs deps deps avail) = []"
proof
  let ?plan = "plan_incremental_analysis_index manifest inputs inputs deps deps avail"
  show "\<not> requires_source_worker ?plan"
    by (auto simp: requires_source_worker_def plan_incremental_analysis_index_def
        plan_with_source_actions_def analysis_action_def analysis_reason_def
        dest!: analysis_plan.replan)
  have "miss_descriptor a = None" if "a \<in> set (plan_dependency_actions avail deps deps)" for a
    using dependency_plan.replan[OF that] assms
    by (auto simp: plan_dependency_def key_for_descriptor_def)
  then show "dependency_misses ?plan = []"
    by (auto simp: dependency_misses_def plan_incremental_analysis_index_def
        plan_with_source_actions_def List.map_filter_def filter_empty_conv)
qed

section \<open>The theorems on concrete inputs\<close>

lemma cache_hit_is_exact_witness:
  "CacheHit (sample_descriptor ''jar'' ''1'') \<in> set (plan_dependencies
        (plan_incremental_index ManifestReuse [] [] [sample_descriptor ''jar'' ''1'']
          [sample_descriptor ''jar'' ''1''] (\<lambda>k. True)))
    \<longleftrightarrow> True \<and> (\<exists>p\<in>set [sample_descriptor ''jar'' ''1''].
          artifact_key p = artifact_key (sample_descriptor ''jar'' ''1'')
          \<and> resolved_identity p = resolved_identity (sample_descriptor ''jar'' ''1''))"
  by (rule cache_hit_is_exact) code_simp+

lemma warm_plan_is_free_witness:
  "dependency_misses (plan_incremental_analysis_index ManifestReuse
      [sample_input ''a'' ''1'' ''1''] [sample_input ''a'' ''1'' ''1'']
      [sample_descriptor ''jar'' ''1''] [sample_descriptor ''jar'' ''1'']
      (\<lambda>k. k = key_for_descriptor (sample_descriptor ''jar'' ''1''))) = []"
  by (rule warm_plan_is_free[THEN conjunct2]) simp

end
