(* ===== verification/Inputs.thy ===== *)
theory Inputs
  imports Samples
begin

text \<open>
  \<open>crates/kide-core/src/input_inventory.rs\<close>: which files are configuration inputs, which
  components they concern, the fingerprints of a workspace generation, and the reconciliation
  of persisted and current inputs. A filesystem \<open>Path\<close> is the list of its components. The
  SHA-256 digest is third-party code and an argument of the functions that use it.
\<close>

section \<open>Data\<close>

record configuration_input =
  ci_path :: workspace_path
  ci_fingerprint :: fingerprint
  ci_components :: "component_id list"

record source_file_metadata =
  sfm_path :: workspace_path
  sfm_byte_size :: i64
  sfm_modified_nanos :: int
  sfm_content :: fingerprint

record source_snapshot_input =
  ssi_id :: source_unit_id
  ssi_content :: fingerprint

record workspace_checkpoint =
  wcp_workspace :: workspace_id
  wcp_manifest :: fingerprint
  wcp_configuration_inputs :: fingerprint
  wcp_source_inputs :: fingerprint
  wcp_artifact_catalog :: fingerprint
  wcp_committed :: bool

datatype configuration_input_state = InputCurrent | InputAdded | InputChanged | InputMissing

record configuration_input_status =
  cis_path :: workspace_path
  cis_state :: configuration_input_state
  cis_persisted_fingerprint :: "fingerprint option"
  cis_current_fingerprint :: "fingerprint option"
  cis_components :: "component_id list"

record configuration_input_reconciliation =
  cir_inputs :: "configuration_input_status list"
  cir_affected_components :: "component_id list"

section \<open>Fingerprints\<close>

abbreviation nul :: char where "nul \<equiv> CHR 0x00"

definition nul_terminated :: "string list \<Rightarrow> string" where
  "nul_terminated entries = concat (map (\<lambda>e. e @ [nul]) entries)"

definition fingerprint_entries :: "(string \<Rightarrow> string) \<Rightarrow> string list \<Rightarrow> fingerprint" where
  "fingerprint_entries sha256 entries =
     Fingerprint (''sha256:'' @ hex (sha256 (nul_terminated entries)))"

definition configuration_entry :: "configuration_input \<Rightarrow> string" where
  "configuration_entry i =
     as_str (ci_path i) @ [nul] @ as_str (ci_fingerprint i) @ [nul]
     @ join '','' (map as_str (ci_components i))"

definition fingerprint_configuration_inputs ::
    "(string \<Rightarrow> string) \<Rightarrow> configuration_input list \<Rightarrow> fingerprint" where
  "fingerprint_configuration_inputs sha256 inputs =
     fingerprint_entries sha256 (sort (map configuration_entry inputs))"

definition source_entry :: "source_unit \<Rightarrow> string" where
  "source_entry u =
     as_str (su_id u) @ [nul] @ as_str (su_content u) @ [nul] @ as_str (su_path u)"

definition fingerprint_source_inputs :: "(string \<Rightarrow> string) \<Rightarrow> source_unit list \<Rightarrow> fingerprint" where
  "fingerprint_source_inputs sha256 sources =
     fingerprint_entries sha256 (sort (map source_entry sources))"

definition catalog_entry :: "artifact_descriptor \<Rightarrow> string" where
  "catalog_entry d =
     as_str (su_id (ad_source_unit d)) @ [nul] @ as_str (su_content (ad_source_unit d)) @ [nul]
     @ as_str (su_context (ad_source_unit d))"

definition fingerprint_artifact_catalog ::
    "(string \<Rightarrow> string) \<Rightarrow> artifact_descriptor list \<Rightarrow> fingerprint" where
  "fingerprint_artifact_catalog sha256 descriptors =
     fingerprint_entries sha256 (sort (map catalog_entry descriptors))"

section \<open>Recognition and scope\<close>

type_synonym path = "string list"

definition CONFIGURATION_FILE_NAMES :: "string list" where
  "CONFIGURATION_FILE_NAMES =
    [''settings.gradle'', ''settings.gradle.kts'', ''build.gradle'', ''build.gradle.kts'',
     ''gradle.properties'', ''libs.versions.toml'', ''gradle.lockfile'', ''maven.config'',
     ''maven-wrapper.properties'', ''pom.xml'', ''Cargo.toml'', ''package.json'',
     ''package-lock.json'', ''npm-shrinkwrap.json'', ''pnpm-lock.yaml'', ''pnpm-workspace.yaml'',
     ''yarn.lock'', ''.yarnrc.yml'', ''bun.lock'', ''bun.lockb'', ''.npmrc'']"

definition CONFIGURATION_FILE_SUFFIXES :: "string list" where
  "CONFIGURATION_FILE_SUFFIXES = [''.lockfile'']"

definition file_name :: "path \<Rightarrow> string option" where
  "file_name p = (if p = [] \<or> last p = ''..'' then None else Some (last p))"

fun path_strip_prefix :: "path \<Rightarrow> path \<Rightarrow> path option" where
  "path_strip_prefix [] p = Some p"
| "path_strip_prefix (r # rs) [] = None"
| "path_strip_prefix (r # rs) (c # cs) = (if r = c then path_strip_prefix rs cs else None)"

definition path_starts_with :: "path \<Rightarrow> path \<Rightarrow> bool" where
  "path_starts_with base p = (path_strip_prefix base p \<noteq> None)"

definition path_parent :: "path \<Rightarrow> path option" where
  "path_parent p = (if p = [] then None else Some (butlast p))"

text \<open>
  \<open>root.join(relative)\<close> for a workspace-relative path: empty and \<open>.\<close> components do not count
  when paths are compared.
\<close>

definition path_components :: "string \<Rightarrow> path" where
  "path_components s = filter (\<lambda>c. c \<noteq> [] \<and> c \<noteq> ''.'') (split_char CHR ''/'' s)"

definition path_join :: "path \<Rightarrow> string \<Rightarrow> path" where
  "path_join root relative =
     (if starts_with ''/'' relative then path_components relative
      else root @ path_components relative)"

definition is_configuration_input :: "path \<Rightarrow> path \<Rightarrow> bool" where
  "is_configuration_input root p =
     ((case file_name p of None \<Rightarrow> False | Some name \<Rightarrow> name \<in> set CONFIGURATION_FILE_NAMES)
      \<or> (case path_strip_prefix root p of
           None \<Rightarrow> False
         | Some relative \<Rightarrow>
             relative = [''gradle'', ''wrapper'', ''gradle-wrapper.properties'']
             \<or> relative = [''.kide'', ''config.toml'']
             \<or> (case file_name relative of
                  None \<Rightarrow> False
                | Some name \<Rightarrow> (\<exists>suffix\<in>set CONFIGURATION_FILE_SUFFIXES. ends_with suffix name))))"

definition covers :: "path \<Rightarrow> path \<Rightarrow> component \<Rightarrow> bool" where
  "covers root p c = path_starts_with (path_join root (as_str (comp_root c))) p"

definition component_scope :: "path \<Rightarrow> path \<Rightarrow> component list \<Rightarrow> component_id list" where
  "component_scope root p components =
     (if path_parent p = Some root
         \<or> path_strip_prefix root p = Some [''.kide'', ''config.toml'']
      then map comp_id components
      else
        let deepest = fold max (map (\<lambda>c. length (as_str (comp_root c)))
                            (filter (covers root p) components)) 0
        in map comp_id
             (filter (\<lambda>c. covers root p c \<and> length (as_str (comp_root c)) = deepest) components))"

section \<open>Reconciliation\<close>

definition ci_key :: "configuration_input \<Rightarrow> string" where
  "ci_key i = as_str (ci_path i)"

definition input_state ::
    "configuration_input option \<Rightarrow> configuration_input option \<Rightarrow> configuration_input_state option" where
  "input_state previous next =
     (case (previous, next) of
        (None, Some _) \<Rightarrow> Some InputAdded
      | (Some _, None) \<Rightarrow> Some InputMissing
      | (Some p, Some n) \<Rightarrow>
          if ci_fingerprint p \<noteq> ci_fingerprint n \<or> ci_components p \<noteq> ci_components n
          then Some InputChanged else Some InputCurrent
      | (None, None) \<Rightarrow> None)"

text \<open>
  The \<open>unreachable!()\<close> arm of the match is the value \<^const>\<open>None\<close> of \<^const>\<open>input_state\<close>; no path of
  the two maps reaches it (\<open>input_state_reachable\<close> below), and such a path would be dropped here.
\<close>

definition input_status ::
    "(string, configuration_input) btree \<Rightarrow> (string, configuration_input) btree \<Rightarrow> string
     \<Rightarrow> configuration_input_status option" where
  "input_status persisted current p =
     (let previous = btree_get persisted p; next = btree_get current p
      in map_option (\<lambda>state.
           \<lparr> cis_path = WorkspacePath p, cis_state = state,
             cis_persisted_fingerprint = map_option ci_fingerprint previous,
             cis_current_fingerprint = map_option ci_fingerprint next,
             cis_components = (case next of
                 Some n \<Rightarrow> ci_components n
               | None \<Rightarrow> (case previous of Some q \<Rightarrow> ci_components q | None \<Rightarrow> [])) \<rparr>)
         (input_state previous next))"

definition reconcile_configuration_inputs ::
    "configuration_input list \<Rightarrow> configuration_input list \<Rightarrow> configuration_input_reconciliation" where
  "reconcile_configuration_inputs persisted current =
     (let persisted = btree_index ci_key persisted;
          current = btree_index ci_key current;
          paths = sort_dedup (map fst persisted @ map fst current);
          inputs = List.map_filter (input_status persisted current) paths;
          affected = sort_dedup (map as_str (concat
            (map cis_components (filter (\<lambda>i. cis_state i \<noteq> InputCurrent) inputs))))
      in \<lparr> cir_inputs = inputs, cir_affected_components = map ComponentId affected \<rparr>)"

definition component_context_fingerprint ::
    "(string \<Rightarrow> string) \<Rightarrow> component_id \<Rightarrow> configuration_input list \<Rightarrow> fingerprint" where
  "component_context_fingerprint sha256 component inputs =
     Fingerprint (''sha256:'' @ hex (sha256 (concat
       (map (\<lambda>i. as_str (ci_path i) @ [nul] @ as_str (ci_fingerprint i) @ [nul])
         (filter (\<lambda>i. component \<in> set (ci_components i)) inputs)))))"

section \<open>Lemmas\<close>

subsection \<open>Fingerprints determine their entries\<close>

text \<open>A sequence of strings without NUL is determined by its NUL-terminated concatenation.\<close>

lemma nul_terminated_inj:
  assumes "nul_terminated xs = nul_terminated ys"
    and "\<And>f. f \<in> set xs \<Longrightarrow> nul \<notin> set f" and "\<And>f. f \<in> set ys \<Longrightarrow> nul \<notin> set f"
  shows "xs = ys"
  using assms
proof (induction xs arbitrary: ys)
  case Nil
  then show ?case by (cases ys) (auto simp: nul_terminated_def)
next
  case (Cons x xs)
  then obtain y ys' where ys: "ys = y # ys'" by (cases ys) (auto simp: nul_terminated_def)
  with Cons.prems have eq: "x @ nul # nul_terminated xs
      = y @ nul # nul_terminated ys'" by (simp add: nul_terminated_def)
  moreover have "nul \<notin> set x" "nul \<notin> set y" using Cons.prems ys by auto
  ultimately have "x = y \<and> nul_terminated xs = nul_terminated ys'"
    using split_once_char_eq[of nul "x @ nul # nul_terminated xs" x]
      split_once_char_eq[of nul "y @ nul # nul_terminated ys'" y]
    by (metis option.inject prod.inject)
  with Cons ys show ?case by auto
qed

lemma concat_triples_inj:
  assumes "concat (map (\<lambda>(a, b, c). [a, b, c]) xs) = concat (map (\<lambda>(a, b, c). [a, b, c]) ys)"
  shows "xs = ys"
  using assms
proof (induction xs arbitrary: ys)
  case Nil
  then show ?case by (cases ys) (auto split: prod.splits)
next
  case (Cons x xs)
  then show ?case by (cases ys) (auto split: prod.splits)
qed

definition triple_entry :: "string \<times> string \<times> string \<Rightarrow> string" where
  "triple_entry t = (case t of (a, b, c) \<Rightarrow> a @ [nul] @ b @ [nul] @ c)"

definition nul_free :: "string \<times> string \<times> string \<Rightarrow> bool" where
  "nul_free t = (case t of (a, b, c) \<Rightarrow> nul \<notin> set a \<and> nul \<notin> set b \<and> nul \<notin> set c)"

lemma triple_entries_inj:
  assumes "nul_terminated (map triple_entry xs)
      = nul_terminated (map triple_entry ys)"
    and "\<And>t. t \<in> set xs \<Longrightarrow> nul_free t" and "\<And>t. t \<in> set ys \<Longrightarrow> nul_free t"
  shows "xs = ys"
proof (rule concat_triples_inj, rule nul_terminated_inj)
  have flat: "nul_terminated (concat (map (\<lambda>(a, b, c). [a, b, c]) ts))
      = nul_terminated (map triple_entry ts)" for ts
    by (induction ts) (auto simp: triple_entry_def nul_terminated_def)
  show "nul_terminated (concat (map (\<lambda>(a, b, c). [a, b, c]) xs))
      = nul_terminated (concat (map (\<lambda>(a, b, c). [a, b, c]) ys))"
    using assms(1) by (simp only: flat)
qed (use assms(2,3) in \<open>auto simp: nul_free_def split: prod.splits\<close>)

lemma fingerprint_entries_eq:
  assumes "fingerprint_entries sha256 xs = fingerprint_entries sha256 ys"
  shows "sha256 (nul_terminated xs) = sha256 (nul_terminated ys)"
  using assms by (auto simp: fingerprint_entries_def dest: hex_inj)

text \<open>
  The common core of the three fingerprints: with a digest that does not collide on the two
  inputs, equal fingerprints come from the same entries with the same multiplicity.
\<close>

lemma triple_fingerprint_injective:
  assumes entry: "\<And>x. entry x = triple_entry (parts x)"
    and eq: "fingerprint_entries sha256 (sort (map entry xs))
      = fingerprint_entries sha256 (sort (map entry ys))"
    and nocoll: "inj_on sha256 {nul_terminated (sort (map entry xs)), nul_terminated (sort (map entry ys))}"
    and free: "\<And>x. x \<in> set xs \<union> set ys \<Longrightarrow> nul_free (parts x)"
  shows "mset (map parts xs) = mset (map parts ys)"
proof -
  define us vs where "us = sort_key triple_entry (map parts xs)"
    and "vs = sort_key triple_entry (map parts ys)"
  have fn: "entry = (\<lambda>x. triple_entry (parts x))" using entry by blast
  have sorts: "sort (map entry zs) = map triple_entry (sort_key triple_entry (map parts zs))" for zs
    by (rule properties_for_sort) (simp_all add: fn image_mset.compositionality comp_def)
  have us: "sort (map entry xs) = map triple_entry us" "mset us = mset (map parts xs)"
    and vs: "sort (map entry ys) = map triple_entry vs" "mset vs = mset (map parts ys)"
    by (simp_all only: us_def vs_def sorts mset_sort)
  have "us = vs"
  proof (rule triple_entries_inj)
    have "nul_terminated (sort (map entry xs)) = nul_terminated (sort (map entry ys))"
      by (rule inj_onD[OF nocoll fingerprint_entries_eq[OF eq]]) simp_all
    then show "nul_terminated (map triple_entry us) = nul_terminated (map triple_entry vs)"
      by (simp only: us(1) vs(1))
    show "nul_free t" if "t \<in> set us" for t
      using that free by (auto simp: us_def)
    show "nul_free t" if "t \<in> set vs" for t
      using that free by (auto simp: vs_def)
  qed
  with us(2) vs(2) show ?thesis by simp
qed

lemma triple_fingerprint_exact:
  assumes entry: "\<And>x. entry x = triple_entry (parts x)"
    and nocoll: "inj_on sha256 {nul_terminated (sort (map entry xs)), nul_terminated (sort (map entry ys))}"
    and free: "\<And>x. x \<in> set xs \<union> set ys \<Longrightarrow> nul_free (parts x)"
  shows "fingerprint_entries sha256 (sort (map entry xs)) = fingerprint_entries sha256 (sort (map entry ys))
    \<longleftrightarrow> mset (map parts xs) = mset (map parts ys)"
proof
  assume m: "mset (map parts xs) = mset (map parts ys)"
  have fn: "entry = (\<lambda>x. triple_entry (parts x))" using entry by blast
  have "image_mset triple_entry (mset (map parts xs)) = image_mset triple_entry (mset (map parts ys))"
    by (simp only: m)
  then have "mset (map entry xs) = mset (map entry ys)"
    by (simp add: fn image_mset.compositionality comp_def)
  then have "sort (map entry xs) = sort (map entry ys)"
    by (simp only: sorted_list_of_multiset_mset[symmetric])
  then show "fingerprint_entries sha256 (sort (map entry xs)) = fingerprint_entries sha256 (sort (map entry ys))"
    by (simp only:)
qed (rule triple_fingerprint_injective[OF entry _ nocoll free])

text \<open>The fields a source fingerprint is made of.\<close>

definition source_parts :: "source_unit \<Rightarrow> string \<times> string \<times> string" where
  "source_parts u = (as_str (su_id u), as_str (su_content u), as_str (su_path u))"

definition configuration_parts :: "configuration_input \<Rightarrow> string \<times> string \<times> string" where
  "configuration_parts i =
     (as_str (ci_path i), as_str (ci_fingerprint i), join '','' (map as_str (ci_components i)))"

definition catalog_parts :: "artifact_descriptor \<Rightarrow> string \<times> string \<times> string" where
  "catalog_parts d = (as_str (su_id (ad_source_unit d)), as_str (su_content (ad_source_unit d)),
     as_str (su_context (ad_source_unit d)))"

lemma entries_of_parts:
  "source_entry u = triple_entry (source_parts u)"
  "configuration_entry i = triple_entry (configuration_parts i)"
  "catalog_entry d = triple_entry (catalog_parts d)"
  by (simp_all add: source_entry_def configuration_entry_def catalog_entry_def triple_entry_def
      source_parts_def configuration_parts_def catalog_parts_def)

lemma catalog_fingerprint_exact:
  assumes "inj_on sha256 {nul_terminated (sort (map catalog_entry xs)), nul_terminated (sort (map catalog_entry ys))}"
    and "\<And>d. d \<in> set xs \<union> set ys \<Longrightarrow> nul_free (catalog_parts d)"
  shows "fingerprint_artifact_catalog sha256 xs = fingerprint_artifact_catalog sha256 ys
    \<longleftrightarrow> mset (map catalog_parts xs) = mset (map catalog_parts ys)"
  unfolding fingerprint_artifact_catalog_def using entries_of_parts(3) assms
  by (rule triple_fingerprint_exact)

text \<open>
  The source fingerprint of a generation identifies its sources: two source lists whose
  fields hold no NUL byte and whose serialisations the digest tells apart have the same
  fingerprint exactly when they hold the same (id, content, path) triples, in whatever order.
\<close>

theorem source_fingerprint_exact:
  assumes "inj_on sha256 {nul_terminated (sort (map source_entry xs)), nul_terminated (sort (map source_entry ys))}"
    and "\<And>u. u \<in> set xs \<union> set ys \<Longrightarrow> nul_free (source_parts u)"
  shows "fingerprint_source_inputs sha256 xs = fingerprint_source_inputs sha256 ys
    \<longleftrightarrow> mset (map source_parts xs) = mset (map source_parts ys)"
  unfolding fingerprint_source_inputs_def using entries_of_parts(1) assms
  by (rule triple_fingerprint_exact)

text \<open>
  Component ids joined with commas are recovered by splitting when no id is empty or holds a comma.
\<close>

definition comma_free :: "configuration_input \<Rightarrow> bool" where
  "comma_free i = (\<forall>c\<in>set (ci_components i). as_str c \<noteq> [] \<and> CHR '','' \<notin> set (as_str c))"

lemma join_comma_inj:
  assumes "join [c] ss = join [c] ts"
    and "\<And>s. s \<in> set ss \<union> set ts \<Longrightarrow> s \<noteq> [] \<and> c \<notin> set s"
  shows "ss = ts"
proof -
  have empty: "join [c] us = [] \<longleftrightarrow> us = []" if "\<And>s. s \<in> set us \<Longrightarrow> s \<noteq> []" for us :: "string list"
  proof (cases us)
    case (Cons u vs)
    with that show ?thesis by (cases vs) auto
  qed simp
  show ?thesis
  proof (cases "ss = [] \<or> ts = []")
    case True
    then show ?thesis using assms empty[of ss] empty[of ts] by auto
  next
    case False
    have "split_char c (join [c] ss) = ss"
      by (rule split_char_join) (use False assms(2) in simp_all)
    moreover have "split_char c (join [c] ts) = ts"
      by (rule split_char_join) (use False assms(2) in simp_all)
    ultimately show ?thesis using assms(1) by metis
  qed
qed

lemma configuration_parts_inj:
  assumes "comma_free i" "comma_free j" "configuration_parts i = configuration_parts j"
  shows "i = (j :: configuration_input)"
proof (rule configuration_input.equality)
  have "map as_str (ci_components i) = map as_str (ci_components j)"
    by (rule join_comma_inj[of "CHR '',''"])
      (use assms in \<open>auto simp: configuration_parts_def comma_free_def\<close>)
  then show "ci_components i = ci_components j"
    by (rule map_injective) (simp add: inj_as_str)
qed (use assms(3) in \<open>simp_all add: configuration_parts_def as_str_inject\<close>)

lemma image_mset_inj_on_eq:
  assumes "image_mset f A = image_mset f B" "inj_on f (set_mset A \<union> set_mset B)"
  shows "A = B"
proof -
  have "image_mset (the_inv_into (set_mset A \<union> set_mset B) f) (image_mset f M) = M"
    if "set_mset M \<subseteq> set_mset A \<union> set_mset B" for M
    using that assms(2)
    by (induction M) (auto simp: the_inv_into_f_f)
  with assms(1) show ?thesis by (metis Un_upper1 Un_upper2)
qed

text \<open>
  The configuration fingerprint identifies the inventory itself: under the same conditions,
  with component ids that are not empty and hold no comma, equal fingerprints mean
  the same inputs, path, fingerprint and component list, in whatever order.
\<close>

theorem configuration_fingerprint_exact:
  assumes nocoll: "inj_on sha256 {nul_terminated (sort (map configuration_entry xs)),
      nul_terminated (sort (map configuration_entry ys))}"
    and free: "\<And>i. i \<in> set xs \<union> set ys \<Longrightarrow> nul_free (configuration_parts i)"
    and comma: "\<And>i. i \<in> set xs \<union> set ys \<Longrightarrow> comma_free i"
  shows "fingerprint_configuration_inputs sha256 xs = fingerprint_configuration_inputs sha256 ys
    \<longleftrightarrow> mset xs = mset ys"
proof -
  have "fingerprint_configuration_inputs sha256 xs = fingerprint_configuration_inputs sha256 ys
      \<longleftrightarrow> image_mset configuration_parts (mset xs) = image_mset configuration_parts (mset ys)"
    unfolding fingerprint_configuration_inputs_def mset_map[symmetric]
    using entries_of_parts(2) nocoll free by (rule triple_fingerprint_exact)
  moreover have "inj_on configuration_parts (set_mset (mset xs) \<union> set_mset (mset ys))"
    by (rule inj_onI) (use comma in \<open>auto intro: configuration_parts_inj\<close>)
  ultimately show ?thesis by (metis image_mset_inj_on_eq)
qed

subsection \<open>Reconciliation\<close>

lemma input_state_None: "input_state p n = None \<longleftrightarrow> p = None \<and> n = None"
  by (cases p; cases n) (auto simp: input_state_def)

lemma input_state_reachable:
  assumes "k \<in> fst ` set persisted \<union> fst ` set current"
  shows "input_state (btree_get persisted k) (btree_get current k) \<noteq> None"
  using assms by (auto simp: input_state_None map_of_eq_None_iff)

text \<open>The index of an inventory and the paths a reconciliation walks.\<close>

abbreviation inventory :: "configuration_input list \<Rightarrow> (string, configuration_input) btree" where
  "inventory \<equiv> btree_index ci_key"

definition input_paths :: "configuration_input list \<Rightarrow> configuration_input list \<Rightarrow> string list" where
  "input_paths persisted current = sort_dedup (map fst (inventory persisted) @ map fst (inventory current))"

definition status_of :: "configuration_input list \<Rightarrow> configuration_input list \<Rightarrow> string
    \<Rightarrow> configuration_input_status" where
  "status_of persisted current p = the (input_status (inventory persisted) (inventory current) p)"

lemma set_input_paths: "set (input_paths persisted current) = ci_key ` (set persisted \<union> set current)"
  using btree_index_keys[of ci_key] by (auto simp: input_paths_def)

lemma map_filter_the: "(\<And>x. x \<in> set xs \<Longrightarrow> f x \<noteq> None) \<Longrightarrow> List.map_filter f xs = map (\<lambda>x. the (f x)) xs"
  by (induction xs) fastforce+

lemma reconcile_inputs:
  "cir_inputs (reconcile_configuration_inputs persisted current) =
     map (status_of persisted current) (input_paths persisted current)"
proof -
  have "input_status (inventory persisted) (inventory current) k \<noteq> None"
    if "k \<in> set (input_paths persisted current)" for k
  proof -
    from that have "k \<in> fst ` set (inventory persisted) \<union> fst ` set (inventory current)"
      by (auto simp: input_paths_def)
    from input_state_reachable[OF this] show ?thesis by (simp add: input_status_def Let_def)
  qed
  then show ?thesis
    unfolding reconcile_configuration_inputs_def Let_def input_paths_def status_of_def
    using map_filter_the[of "input_paths persisted current"
      "input_status (inventory persisted) (inventory current)"]
    by (simp add: input_paths_def)
qed

lemma status_of_fields:
  assumes "k \<in> ci_key ` (set persisted \<union> set current)"
  shows "cis_path (status_of persisted current k) = WorkspacePath k"
    and "cis_state (status_of persisted current k)
      = the (input_state (btree_get (inventory persisted) k) (btree_get (inventory current) k))"
    and "cis_components (status_of persisted current k) =
      (case btree_get (inventory current) k of Some n \<Rightarrow> ci_components n
       | None \<Rightarrow> (case btree_get (inventory persisted) k of Some q \<Rightarrow> ci_components q | None \<Rightarrow> []))"
proof -
  have "k \<in> fst ` set (inventory persisted) \<union> fst ` set (inventory current)"
    using assms by (auto simp: btree_index_keys)
  from input_state_reachable[OF this] obtain st where
    "input_state (btree_get (inventory persisted) k) (btree_get (inventory current) k) = Some st"
    by blast
  then show "cis_path (status_of persisted current k) = WorkspacePath k"
    "cis_state (status_of persisted current k)
      = the (input_state (btree_get (inventory persisted) k) (btree_get (inventory current) k))"
    "cis_components (status_of persisted current k) =
      (case btree_get (inventory current) k of Some n \<Rightarrow> ci_components n
       | None \<Rightarrow> (case btree_get (inventory persisted) k of Some q \<Rightarrow> ci_components q | None \<Rightarrow> []))"
    by (simp_all add: status_of_def input_status_def Let_def)
qed

lemma input_state_cases:
  assumes "p \<noteq> None \<or> n \<noteq> None"
  shows "the (input_state p n) = InputAdded \<longleftrightarrow> p = None"
    and "the (input_state p n) = InputMissing \<longleftrightarrow> n = None"
    and "the (input_state p n) = InputCurrent \<longleftrightarrow>
      (\<exists>a b. p = Some a \<and> n = Some b \<and> ci_fingerprint a = ci_fingerprint b
        \<and> ci_components a = ci_components b)"
  using assms by (cases p; cases n; auto simp: input_state_def)+

definition status_paths ::
    "configuration_input_reconciliation \<Rightarrow> configuration_input_state \<Rightarrow> string set" where
  "status_paths r st = (\<lambda>s. as_str (cis_path s)) ` {s \<in> set (cir_inputs r). cis_state s = st}"

lemma status_paths_eq:
  "status_paths (reconcile_configuration_inputs persisted current) st =
     {k \<in> ci_key ` (set persisted \<union> set current).
        the (input_state (btree_get (inventory persisted) k) (btree_get (inventory current) k)) = st}"
proof -
  have mem: "x \<in> status_paths (reconcile_configuration_inputs persisted current) st \<longleftrightarrow>
      (\<exists>k\<in>ci_key ` (set persisted \<union> set current).
        x = as_str (cis_path (status_of persisted current k))
        \<and> cis_state (status_of persisted current k) = st)" for x
    unfolding status_paths_def reconcile_inputs set_map set_input_paths by blast
  have "x \<in> status_paths (reconcile_configuration_inputs persisted current) st \<longleftrightarrow>
      (\<exists>k\<in>ci_key ` (set persisted \<union> set current). x = k
        \<and> the (input_state (btree_get (inventory persisted) k) (btree_get (inventory current) k)) = st)"
    for x
    unfolding mem by (rule bex_cong) (simp_all add: status_of_fields)
  then show ?thesis
    by (intro set_eqI) (simp only: mem_Collect_eq bex_simps, blast)
qed

lemma path_known:
  "k \<in> ci_key ` (set persisted \<union> set current) \<longleftrightarrow>
     btree_get (inventory persisted) k \<noteq> None \<or> btree_get (inventory current) k \<noteq> None"
  by (auto simp: btree_index_get_None)

lemma in_status_paths:
  "k \<in> status_paths (reconcile_configuration_inputs persisted current) st \<longleftrightarrow>
     (btree_get (inventory persisted) k \<noteq> None \<or> btree_get (inventory current) k \<noteq> None)
     \<and> the (input_state (btree_get (inventory persisted) k) (btree_get (inventory current) k)) = st"
  by (simp only: status_paths_eq mem_Collect_eq path_known)

lemma in_status_paths_cases:
  "k \<in> status_paths (reconcile_configuration_inputs persisted current) InputAdded \<longleftrightarrow>
     btree_get (inventory persisted) k = None \<and> btree_get (inventory current) k \<noteq> None"
  "k \<in> status_paths (reconcile_configuration_inputs persisted current) InputMissing \<longleftrightarrow>
     btree_get (inventory persisted) k \<noteq> None \<and> btree_get (inventory current) k = None"
  "k \<in> status_paths (reconcile_configuration_inputs persisted current) InputCurrent \<longleftrightarrow>
     (\<exists>p n. btree_get (inventory persisted) k = Some p \<and> btree_get (inventory current) k = Some n
        \<and> ci_fingerprint p = ci_fingerprint n \<and> ci_components p = ci_components n)"
  by (cases "btree_get (inventory persisted) k"; cases "btree_get (inventory current) k";
      simp add: in_status_paths input_state_def)+

text \<open>
  A reconciliation lists every path of either inventory exactly once, in path order. The
  added paths are those only the current inventory has, the missing ones those only the
  persisted inventory has, and a path is current exactly when both hold it with the same
  fingerprint and components.
\<close>

theorem reconciliation_classifies:
  "map (\<lambda>s. as_str (cis_path s)) (cir_inputs (reconcile_configuration_inputs persisted current))
      = sorted_list_of_set (ci_key ` (set persisted \<union> set current))
   \<and> status_paths (reconcile_configuration_inputs persisted current) InputAdded
      = ci_key ` set current - ci_key ` set persisted
   \<and> status_paths (reconcile_configuration_inputs persisted current) InputMissing
      = ci_key ` set persisted - ci_key ` set current
   \<and> status_paths (reconcile_configuration_inputs persisted current) InputCurrent
      = {k. \<exists>p n. btree_get (inventory persisted) k = Some p \<and> btree_get (inventory current) k = Some n
          \<and> ci_fingerprint p = ci_fingerprint n \<and> ci_components p = ci_components n}"
proof (intro conjI)
  have keys: "k \<in> ci_key ` set xs \<longleftrightarrow> btree_get (inventory xs) k \<noteq> None" for k xs
    by (simp only: btree_index_get_None not_not)
  have "map (\<lambda>s. as_str (cis_path s)) (cir_inputs (reconcile_configuration_inputs persisted current))
      = input_paths persisted current"
    unfolding reconcile_inputs map_map
    by (rule map_idI) (simp add: set_input_paths status_of_fields(1))
  then show "map (\<lambda>s. as_str (cis_path s)) (cir_inputs (reconcile_configuration_inputs persisted current))
      = sorted_list_of_set (ci_key ` (set persisted \<union> set current))"
    by (metis input_paths_def set_input_paths set_sort_dedup sort_dedup_eq_sorted_list)
  show "status_paths (reconcile_configuration_inputs persisted current) InputAdded
      = ci_key ` set current - ci_key ` set persisted"
    by (rule set_eqI) (simp only: in_status_paths_cases Diff_iff keys conj_commute not_not)
  show "status_paths (reconcile_configuration_inputs persisted current) InputMissing
      = ci_key ` set persisted - ci_key ` set current"
    by (rule set_eqI) (simp only: in_status_paths_cases Diff_iff keys not_not)
qed (rule set_eqI, simp only: in_status_paths_cases mem_Collect_eq)

text \<open>
  With one entry per path in each inventory, a reconciliation affects no component and finds
  every input current exactly when the two inventories hold the same inputs.
\<close>

theorem reconciliation_detects_every_change:
  assumes "distinct (map ci_key persisted)" "distinct (map ci_key current)"
  shows "status_paths (reconcile_configuration_inputs persisted current) InputCurrent
      = ci_key ` (set persisted \<union> set current)
    \<longleftrightarrow> set persisted = set (current :: configuration_input list)"
proof -
  have get: "btree_get (inventory xs) k = Some i \<longleftrightarrow> i \<in> set xs \<and> ci_key i = k"
    if "distinct (map ci_key xs)" for xs k i
    using that btree_index_get_unique[of i xs ci_key] btree_index_get_Some[of ci_key xs k i]
    by (auto simp: distinct_map)
  have same: "p = n \<longleftrightarrow> ci_key p = ci_key n \<and> ci_fingerprint p = ci_fingerprint n
      \<and> ci_components p = ci_components n" for p n :: configuration_input
    by (auto simp: ci_key_def as_str_inject)
  have cur: "status_paths (reconcile_configuration_inputs persisted current) InputCurrent
      = ci_key ` (set persisted \<inter> set current)"
  proof (rule set_eqI)
    fix k
    have "k \<in> status_paths (reconcile_configuration_inputs persisted current) InputCurrent \<longleftrightarrow>
        (\<exists>p n. p \<in> set persisted \<and> ci_key p = k \<and> n \<in> set current \<and> ci_key n = k
          \<and> ci_fingerprint p = ci_fingerprint n \<and> ci_components p = ci_components n)"
      by (simp add: in_status_paths_cases get[OF assms(1)] get[OF assms(2)] conj_assoc)
    also have "\<dots> \<longleftrightarrow> (\<exists>p. p \<in> set persisted \<and> p \<in> set current \<and> k = ci_key p)"
      using same by metis
    finally show "k \<in> status_paths (reconcile_configuration_inputs persisted current) InputCurrent
        \<longleftrightarrow> k \<in> ci_key ` (set persisted \<inter> set current)"
      by blast
  qed
  have inj: "inj_on ci_key (set persisted)" "inj_on ci_key (set current)"
    using assms by (simp_all add: distinct_map)
  show ?thesis
  proof
    assume "status_paths (reconcile_configuration_inputs persisted current) InputCurrent
      = ci_key ` (set persisted \<union> set current)"
    then have img: "ci_key ` (set persisted \<inter> set current) = ci_key ` (set persisted \<union> set current)"
      by (simp add: cur)
    have meet: "\<exists>j. j \<in> set persisted \<and> j \<in> set current \<and> ci_key j = ci_key i"
      if "i \<in> set persisted \<union> set current" for i
    proof -
      from that have "ci_key i \<in> ci_key ` (set persisted \<inter> set current)" by (simp add: img)
      then show ?thesis by force
    qed
    have "i \<in> set current" if "i \<in> set persisted" for i
      using meet[of i] that inj(1) by (auto dest: inj_onD)
    moreover have "i \<in> set persisted" if "i \<in> set current" for i
      using meet[of i] that inj(2) by (auto dest: inj_onD)
    ultimately show "set persisted = set current" by blast
  qed (simp add: cur)
qed

text \<open>The components a reconciliation reports are those of the entries that are not current.\<close>

lemma affected_components_eq:
  "set (cir_affected_components (reconcile_configuration_inputs persisted current)) =
     {c. \<exists>s\<in>set (cir_inputs (reconcile_configuration_inputs persisted current)).
        cis_state s \<noteq> InputCurrent \<and> c \<in> set (cis_components s)}"
proof -
  define r where "r = reconcile_configuration_inputs persisted current"
  have "cir_affected_components r = map ComponentId (sort_dedup (map as_str (concat
      (map cis_components (filter (\<lambda>i. cis_state i \<noteq> InputCurrent) (cir_inputs r))))))"
    by (simp add: r_def reconcile_configuration_inputs_def Let_def)
  then show ?thesis
    unfolding r_def[symmetric] by (auto simp: image_image)
qed

text \<open>
  The affected components are exactly those that own an input only one inventory has, or,
  for an input both have and that changed, its current owners; an input whose recorded owner
  changed reports its new owners only.
\<close>

theorem affected_components_exact:
  "set (cir_affected_components (reconcile_configuration_inputs persisted current)) =
     {c. \<exists>k i. btree_get (inventory current) k = Some i \<and> c \<in> set (ci_components i)
          \<and> k \<notin> status_paths (reconcile_configuration_inputs persisted current) InputCurrent}
     \<union> {c. \<exists>k i. btree_get (inventory persisted) k = Some i \<and> c \<in> set (ci_components i)
          \<and> btree_get (inventory current) k = None}"
proof -
  let ?cur = "status_paths (reconcile_configuration_inputs persisted current) InputCurrent"
  let ?p = "btree_get (inventory persisted)" and ?n = "btree_get (inventory current)"
  have step: "(?p k \<noteq> None \<or> ?n k \<noteq> None) \<and> k \<notin> ?cur
        \<and> c \<in> set (case ?n k of Some n \<Rightarrow> ci_components n
            | None \<Rightarrow> (case ?p k of Some q \<Rightarrow> ci_components q | None \<Rightarrow> []))
      \<longleftrightarrow> (\<exists>i. ?n k = Some i \<and> c \<in> set (ci_components i) \<and> k \<notin> ?cur)
        \<or> (\<exists>i. ?p k = Some i \<and> c \<in> set (ci_components i) \<and> ?n k = None)" for k c
    by (cases "?p k"; cases "?n k"; simp add: in_status_paths_cases conj_commute)
  have "c \<in> set (cir_affected_components (reconcile_configuration_inputs persisted current)) \<longleftrightarrow>
      (\<exists>k. (?p k \<noteq> None \<or> ?n k \<noteq> None) \<and> k \<notin> ?cur
        \<and> c \<in> set (case ?n k of Some n \<Rightarrow> ci_components n
            | None \<Rightarrow> (case ?p k of Some q \<Rightarrow> ci_components q | None \<Rightarrow> [])))" for c
    unfolding affected_components_eq reconcile_inputs status_paths_eq set_map set_input_paths
      path_known[symmetric]
    by (auto simp: status_of_fields)
  then show ?thesis
    by (intro set_eqI) (simp only: step ex_disj_distrib Un_iff mem_Collect_eq)
qed

subsection \<open>Component scope\<close>

lemma fold_max_start: "n \<le> fold max xs n" for n :: nat
  by (induction xs arbitrary: n) (auto intro: order_trans[OF max.cobounded2])

lemma fold_max_ge: "x \<in> set xs \<Longrightarrow> x \<le> fold max xs n" for n :: nat
proof (induction xs arbitrary: n)
  case (Cons y ys)
  then show ?case using fold_max_start[of "max y n" ys] by auto
qed simp

lemma fold_max_in: "fold max xs n = n \<or> fold max xs n \<in> set xs" for n :: nat
proof (induction xs arbitrary: n)
  case (Cons y ys)
  then show ?case using Cons[of "max y n"] by (auto simp: max_def split: if_splits)
qed simp

text \<open>
  A configuration file below the workspace root concerns exactly the components whose
  root contains it and is innermost among those: no other component containing the file has a
  longer root. A file directly in the root, and \<open>.kide/config.toml\<close>, concern every component.
\<close>

theorem component_scope_is_innermost:
  "set (component_scope root p components) =
     (if path_parent p = Some root \<or> path_strip_prefix root p = Some [''.kide'', ''config.toml'']
      then comp_id ` set components
      else comp_id ` {c \<in> set components. covers root p c
        \<and> \<not> (\<exists>d\<in>set components. covers root p d
              \<and> length (as_str (comp_root c)) < length (as_str (comp_root d)))})"
proof -
  let ?len = "\<lambda>c. length (as_str (comp_root c))"
  define deepest where "deepest = fold max (map ?len (filter (covers root p) components)) 0"
  have upper: "?len d \<le> deepest" if "d \<in> set components" "covers root p d" for d
    using that unfolding deepest_def by (intro fold_max_ge) auto
  have attained: "\<exists>d\<in>set components. covers root p d \<and> ?len d = deepest"
    if "c \<in> set components" "covers root p c" for c
    using fold_max_in[of "map ?len (filter (covers root p) components)" 0] that upper[OF that]
    by (fastforce simp: deepest_def[symmetric])
  have "{c \<in> set components. covers root p c \<and> ?len c = deepest} =
      {c \<in> set components. covers root p c
        \<and> \<not> (\<exists>d\<in>set components. covers root p d \<and> ?len c < ?len d)}"
    using upper attained by (fastforce simp: not_less)
  then show ?thesis
    by (simp add: component_scope_def Let_def deepest_def)
qed

section \<open>The theorems on concrete inputs\<close>

lemma source_fingerprint_exact_witness:
  "fingerprint_source_inputs (\<lambda>s. s) [sample_unit ''a'' ''1'', sample_unit ''b'' ''2'']
      = fingerprint_source_inputs (\<lambda>s. s) [sample_unit ''b'' ''2'', sample_unit ''a'' ''1'']
    \<longleftrightarrow> mset (map source_parts [sample_unit ''a'' ''1'', sample_unit ''b'' ''2''])
      = mset (map source_parts [sample_unit ''b'' ''2'', sample_unit ''a'' ''1''])"
  by (rule source_fingerprint_exact)
    (auto simp: inj_on_def nul_free_def source_parts_def)

definition sample_configuration :: "string \<Rightarrow> string \<Rightarrow> string \<Rightarrow> configuration_input" where
  "sample_configuration path digest owner =
     \<lparr> ci_path = WorkspacePath path, ci_fingerprint = Fingerprint digest,
       ci_components = [ComponentId owner] \<rparr>"

lemma configuration_fingerprint_exact_witness:
  "fingerprint_configuration_inputs (\<lambda>s. s) [sample_configuration ''pom.xml'' ''1'' ''core'']
      = fingerprint_configuration_inputs (\<lambda>s. s) [sample_configuration ''pom.xml'' ''2'' ''core'']
    \<longleftrightarrow> mset [sample_configuration ''pom.xml'' ''1'' ''core'']
      = mset [sample_configuration ''pom.xml'' ''2'' ''core'']"
  by (rule configuration_fingerprint_exact)
    (auto simp: inj_on_def nul_free_def configuration_parts_def comma_free_def sample_configuration_def)

lemma reconciliation_detects_every_change_witness:
  "status_paths (reconcile_configuration_inputs [sample_configuration ''pom.xml'' ''1'' ''core'']
        [sample_configuration ''pom.xml'' ''2'' ''core'']) InputCurrent
      = ci_key ` (set [sample_configuration ''pom.xml'' ''1'' ''core'']
          \<union> set [sample_configuration ''pom.xml'' ''2'' ''core''])
    \<longleftrightarrow> set [sample_configuration ''pom.xml'' ''1'' ''core'']
      = set [sample_configuration ''pom.xml'' ''2'' ''core'']"
  by (rule reconciliation_detects_every_change) simp_all

text \<open>
  An input whose owner changed reports only its new owner: here \<open>core\<close> owned \<open>pom.xml\<close> in the
  persisted inventory, \<open>app\<close> owns it now, and \<open>core\<close> is not among the affected components.
\<close>

lemma moved_input_hides_its_old_owner:
  "cir_affected_components (reconcile_configuration_inputs
      [sample_configuration ''pom.xml'' ''1'' ''core''] [sample_configuration ''pom.xml'' ''1'' ''app''])
    = [ComponentId ''app'']"
  by code_simp

end
