(* ===== verification/Store_Tables.thy ===== *)
theory Store_Tables
  imports Inputs
begin

text \<open>
  The tables behind \<open>crates/kide-core/src/store.rs\<close>. A table is the list of its rows in insertion
  order; a primary key is a function of the row, and inserting a row whose key is taken fails as
  SQLite's constraint does. A JSON or bincode column holds the value it was serialised from: the
  serialisers are third-party code whose documented behaviour is that reading returns what was
  written. The facts a source unit owns form one record, the catalogs of the workspace another.
\<close>

section \<open>Errors\<close>

datatype index_store_error =
  SqliteConstraint
| SqliteSchema
| SqliteTooManyVariables
| SqliteColumnType
| IncompatibleSymbolRecordFormat u8
| IncompatibleIndexFormat u32 u32
| IncompatibleWorkerProtocol u32 u32
| SourceUnitMismatch
| SnapshotInputMismatch
| FactOwnedByOtherSource string string string
| InvalidRange string u64 u64
| ByteOffsetOutOfRange u64
| ArtifactBlobIdentityMismatch fingerprint

type_synonym 'a stored = "(index_store_error, 'a) result"

section \<open>Rows\<close>

text \<open>
  \<open>StoredSymbolRecord\<close>: what the blob column of a symbol keeps. Identity and name are columns;
  component and provenance belong to the source snapshot.
\<close>

record stored_symbol_record =
  ssr_backend_key :: backend_key
  ssr_language :: language
  ssr_kind :: symbol_kind
  ssr_qualified_name :: "string option"
  ssr_signature :: "string option"
  ssr_declaration :: byte_range
  ssr_name_range :: byte_range
  ssr_owner :: "symbol_id option"
  ssr_modifiers :: "string list"
  ssr_applied_symbols :: "symbol_id list"
  ssr_freshness :: freshness
  ssr_completeness :: completeness

text \<open>The blob: empty, or a version byte followed by the bincode payload.\<close>

datatype symbol_blob = EmptyBlob | VersionedBlob u8 stored_symbol_record

record source_row =
  ur_id :: source_unit_id
  ur_component :: component_id
  ur_path :: workspace_path
  ur_content :: fingerprint
  ur_context :: fingerprint
  ur_protocol :: u32
  ur_source_unit :: source_unit
  ur_provenance :: "provenance option"
  ur_public_api :: "fingerprint option"

record provenance_row =
  pr_unit :: source_unit_id
  pr_provenance :: provenance

record symbol_row =
  yr_id :: symbol_id
  yr_unit :: source_unit_id
  yr_name :: string
  yr_start :: i64
  yr_blob :: symbol_blob

record annotation_row =
  ar_unit :: source_unit_id
  ar_symbol :: symbol_id
  ar_annotation :: symbol_id

record application_row =
  pa_id :: application_id
  pa_unit :: source_unit_id
  pa_subject :: symbol_id
  pa_target :: symbol_id
  pa_start :: i64
  pa_end :: i64
  pa_record :: application_fact

record argument_row =
  gr_application :: application_id
  gr_name :: "string option"
  gr_position :: u32
  gr_kind :: string
  gr_value :: string

record occurrence_row =
  or_unit :: source_unit_id
  or_start :: i64
  or_end :: i64
  or_kind :: string
  or_target :: "symbol_id option"
  or_record :: source_occurrence

text \<open>\<open>reference_edges\<close> and \<open>call_edges\<close> have the same columns.\<close>

record 'r edge_row =
  er_unit :: source_unit_id
  er_start :: i64
  er_end :: i64
  er_target :: symbol_id
  er_record :: 'r

record hierarchy_row =
  hr_unit :: source_unit_id
  hr_subtype :: symbol_id
  hr_supertype :: symbol_id
  hr_record :: hierarchy_edge

record type_row =
  tr_unit :: source_unit_id
  tr_id :: type_id
  tr_record :: type_record

record diagnostic_row =
  dr_unit :: source_unit_id
  dr_start :: "i64 option"
  dr_end :: "i64 option"
  dr_severity :: string
  dr_record :: diagnostic_record

section \<open>The facts of the source units\<close>

record facts =
  t_sources :: "source_row list"
  t_provenances :: "provenance_row list"
  t_symbols :: "symbol_row list"
  t_annotations :: "annotation_row list"
  t_applications :: "application_row list"
  t_arguments :: "argument_row list"
  t_occurrences :: "occurrence_row list"
  t_references :: "reference_edge edge_row list"
  t_calls :: "call_edge edge_row list"
  t_hierarchy :: "hierarchy_row list"
  t_types :: "type_row list"
  t_diagnostics :: "diagnostic_row list"

section \<open>Statements\<close>

text \<open>
  \<open>INSERT INTO\<close> a table with a primary key. A key with a NULL column is \<^const>\<open>None\<close> and distinct
  from every other: SQLite does not treat two NULLs as equal, and only an integer primary key
  implies NOT NULL.
\<close>

definition insert_row :: "('r \<Rightarrow> 'k option) \<Rightarrow> 'r \<Rightarrow> 'r list \<Rightarrow> 'r list stored" where
  "insert_row key row t =
     (if key row \<noteq> None \<and> key row \<in> set (map key t) then Err SqliteConstraint else Ok (t @ [row]))"

text \<open>
  A statement on one table of a larger state: \<open>get\<close> and \<open>upd\<close> are the table's selector and
  update function.
\<close>

definition on_table :: "('s \<Rightarrow> 't) \<Rightarrow> (('t \<Rightarrow> 't) \<Rightarrow> 's \<Rightarrow> 's) \<Rightarrow> ('t \<Rightarrow> 't stored) \<Rightarrow> 's \<Rightarrow> 's stored" where
  "on_table get upd f s = and_then (f (get s)) (\<lambda>t. Ok (upd (\<lambda>_. t) s))"

text \<open>An insertion whose row is computed first; a failing conversion fails the statement.\<close>

definition insert_with :: "('s \<Rightarrow> 'r list) \<Rightarrow> (('r list \<Rightarrow> 'r list) \<Rightarrow> 's \<Rightarrow> 's) \<Rightarrow> ('r \<Rightarrow> 'k option)
    \<Rightarrow> ('x \<Rightarrow> 'r stored) \<Rightarrow> 'x \<Rightarrow> 's \<Rightarrow> 's stored" where
  "insert_with get upd key row x s =
     and_then (row x) (\<lambda>r. on_table get upd (insert_row key r) s)"

text \<open>\<open>INSERT ... ON CONFLICT(key) DO UPDATE SET\<close> every other column.\<close>

definition upsert_row :: "('r \<Rightarrow> 'k) \<Rightarrow> 'r \<Rightarrow> 'r list \<Rightarrow> 'r list" where
  "upsert_row key row t =
     (if key row \<in> key ` set t then map (\<lambda>r. if key r = key row then row else r) t else t @ [row])"

text \<open>\<open>for x in xs { transaction.execute(..)?; }\<close>: the first failing statement ends the loop.\<close>

fun for_each :: "('x \<Rightarrow> 's \<Rightarrow> 's stored) \<Rightarrow> 'x list \<Rightarrow> 's \<Rightarrow> 's stored" where
  "for_each f [] s = Ok s"
| "for_each f (x # xs) s = and_then (f x s) (for_each f xs)"

text \<open>
  A transaction applies all of its statements or, when one fails, none; dropping an uncommitted
  transaction rolls it back. Without a transaction every statement commits by itself.
\<close>

definition transaction :: "('s \<Rightarrow> 's stored) \<Rightarrow> 's \<Rightarrow> unit stored \<times> 's" where
  "transaction f s = (case f s of Inl e \<Rightarrow> (Err e, s) | Inr s' \<Rightarrow> (Ok (), s'))"

fun autocommit :: "('s \<Rightarrow> 's stored) list \<Rightarrow> 's \<Rightarrow> unit stored \<times> 's" where
  "autocommit [] s = (Ok (), s)"
| "autocommit (f # fs) s = (case f s of Inl e \<Rightarrow> (Err e, s) | Inr s' \<Rightarrow> autocommit fs s')"

text \<open>\<open>i64::try_from(value)\<close>.\<close>

definition sqlite_offset :: "u64 \<Rightarrow> i64 stored" where
  "sqlite_offset v = (if uint v < 2 ^ 63 then Ok (uint v) else Err (ByteOffsetOutOfRange v))"

section \<open>Lemmas on statements\<close>

text \<open>The keys a table holds, and the constraint that they are unique.\<close>

definition table_keys :: "('r \<Rightarrow> 'k option) \<Rightarrow> 'r list \<Rightarrow> 'k list" where
  "table_keys key t = List.map_filter key t"

definition key_valid :: "('r \<Rightarrow> 'k option) \<Rightarrow> 'r list \<Rightarrow> bool" where
  "key_valid key t = distinct (table_keys key t)"

lemma table_keys_simps [simp]:
  "table_keys key [] = []"
  "table_keys key (r # t) = (case key r of None \<Rightarrow> [] | Some k \<Rightarrow> [k]) @ table_keys key t"
  "table_keys key (t @ t') = table_keys key t @ table_keys key t'"
  by (auto simp: table_keys_def map_filter_def split: option.splits)

lemma set_table_keys: "k \<in> set (table_keys key t) \<longleftrightarrow> Some k \<in> key ` set t"
  by (induction t) (auto split: option.splits)

lemma table_keys_Some [simp]: "table_keys (\<lambda>r. Some (k r)) t = map k t"
  by (induction t) auto

lemma table_keys_filter_subset: "set (table_keys key (filter P t)) \<subseteq> set (table_keys key t)"
  by (induction t) (auto split: option.splits)

lemma key_valid_Nil [simp]: "key_valid key []"
  by (simp add: key_valid_def)

lemma key_valid_filter [intro]: "key_valid key t \<Longrightarrow> key_valid key (filter P t)"
proof -
  assume v: "key_valid key t"
  have "filter (\<lambda>r. key r \<noteq> None) (filter P t) = filter P (filter (\<lambda>r. key r \<noteq> None) t)"
    by (simp add: conj_commute)
  moreover have "distinct (map (\<lambda>r. the (key r)) (filter P (filter (\<lambda>r. key r \<noteq> None) t)))"
    by (rule distinct_map_filter)
      (use v in \<open>simp only: key_valid_def table_keys_def map_filter_def comp_def\<close>)
  ultimately show ?thesis
    by (simp only: key_valid_def table_keys_def map_filter_def comp_def)
qed

lemma key_valid_append:
  "key_valid key (t @ t') \<longleftrightarrow> key_valid key t \<and> key_valid key t'
     \<and> set (table_keys key t) \<inter> set (table_keys key t') = {}"
  by (auto simp: key_valid_def)

lemma insert_row_Ok:
  assumes "key_valid key t"
  shows "insert_row key row t = Inr t' \<longleftrightarrow> key_valid key (t @ [row]) \<and> t' = t @ [row]"
  using assms
  by (cases "key row") (auto simp: insert_row_def key_valid_def set_table_keys image_iff)

lemma on_table_Ok: "on_table get upd f s = Inr s' \<longleftrightarrow> (\<exists>t. f (get s) = Inr t \<and> s' = upd (\<lambda>_. t) s)"
  by (auto simp: on_table_def and_then_eq_Ok)

lemma sqlite_offset_Ok: "sqlite_offset v = Inr n \<longleftrightarrow> n = uint v \<and> uint v < 2 ^ 63"
  by (auto simp: sqlite_offset_def)

lemma for_each_append: "for_each f (xs @ ys) s = and_then (for_each f xs s) (for_each f ys)"
  by (induction xs arbitrary: s) (auto simp: and_then_def split: sum.splits)

lemma transaction_simps [simp]:
  "f s = Inl e \<Longrightarrow> transaction f s = (Inl e, s)"
  "f s = Inr s' \<Longrightarrow> transaction f s = (Inr (), s')"
  by (simp_all add: transaction_def)

lemma transaction_Ok: "transaction f s = (Inr u, s') \<longleftrightarrow> f s = Inr s'"
  by (auto simp: transaction_def split: sum.splits)

lemma transaction_Err: "transaction f s = (Inl e, s') \<longleftrightarrow> f s = Inl e \<and> s' = s"
  by (auto simp: transaction_def split: sum.splits)

section \<open>Tables of a state\<close>

text \<open>
  The interface between a table and the state that holds it. Statements on the table are proved
  once here; every table of the model is an interpretation.
\<close>

locale table =
  fixes get :: "'s \<Rightarrow> 'r list" and upd :: "('r list \<Rightarrow> 'r list) \<Rightarrow> 's \<Rightarrow> 's"
  assumes get_upd: "get (upd f s) = f (get s)"
    and upd_upd: "upd f (upd g s) = upd (\<lambda>t. f (g t)) s"
    and upd_set: "upd (\<lambda>_. get s) s = s"
begin

lemma upd_const: "upd (\<lambda>_. f (get s)) s = upd f s"
proof -
  have "upd (\<lambda>_. f (get s)) s = upd (\<lambda>_. get (upd f s)) s" by (simp only: get_upd)
  also have "\<dots> = upd (\<lambda>_. get (upd f s)) (upd f s)" by (simp only: upd_upd)
  also have "\<dots> = upd f s" by (rule upd_set)
  finally show ?thesis .
qed

lemma upd_id: "upd (\<lambda>t. t) s = s"
  using upd_const[of "\<lambda>t. t" s] upd_set by simp

text \<open>One insertion succeeds exactly when the table stays valid, and appends the row.\<close>

lemma insert_with_Ok:
  assumes "key_valid key (get s)"
  shows "insert_with get upd key row x s = Inr s' \<longleftrightarrow>
    (\<exists>r. row x = Inr r \<and> key_valid key (get s @ [r]) \<and> s' = upd (\<lambda>t. t @ [r]) s)"
proof -
  have "upd (\<lambda>_. get s @ [r]) s = upd (\<lambda>t. t @ [r]) s" for r
    by (rule upd_const)
  then show ?thesis
    using assms by (auto simp: insert_with_def and_then_eq_Ok on_table_Ok insert_row_Ok)
qed

text \<open>
  The loop over \<open>xs\<close> succeeds exactly when every row can be computed and the table stays valid
  with all of them, and then appends them in order.
\<close>

lemma for_each_insert:
  assumes "key_valid key (get s)"
  shows "for_each (insert_with get upd key row) xs s = Inr s' \<longleftrightarrow>
    (\<exists>rs. collect_results row xs = Inr rs \<and> key_valid key (get s @ rs) \<and> s' = upd (\<lambda>t. t @ rs) s)"
  using assms
proof (induction xs arbitrary: s)
  case Nil
  then show ?case by (auto simp: upd_id)
next
  case (Cons x xs)
  have valid: "key_valid key (get s @ [r])" if "key_valid key (get s @ r # rs)" for r rs
    using that by (auto simp: key_valid_def)
  have "for_each (insert_with get upd key row) (x # xs) s = Inr s' \<longleftrightarrow>
      (\<exists>r. row x = Inr r \<and> key_valid key (get s @ [r])
        \<and> for_each (insert_with get upd key row) xs (upd (\<lambda>t. t @ [r]) s) = Inr s')"
    by (auto simp: and_then_eq_Ok insert_with_Ok[OF Cons.prems])
  also have "\<dots> \<longleftrightarrow> (\<exists>r rs. row x = Inr r \<and> collect_results row xs = Inr rs
      \<and> key_valid key (get s @ r # rs) \<and> s' = upd (\<lambda>t. t @ r # rs) s)"
    using Cons.IH valid by (auto simp: get_upd upd_upd)
  also have "\<dots> \<longleftrightarrow> (\<exists>rs. collect_results row (x # xs) = Inr rs \<and> key_valid key (get s @ rs)
      \<and> s' = upd (\<lambda>t. t @ rs) s)"
    by (auto simp: and_then_eq_Ok)
  finally show ?case .
qed

text \<open>The same two facts about a statement followed by others.\<close>

lemma insert_with_then:
  assumes "key_valid key (get s)"
  shows "and_then (insert_with get upd key row x s) k = Inr s' \<longleftrightarrow>
    (\<exists>r. row x = Inr r \<and> key_valid key (get s @ [r]) \<and> k (upd (\<lambda>t. t @ [r]) s) = Inr s')"
  using assms by (auto simp: and_then_eq_Ok insert_with_Ok)

lemma for_each_insert_then:
  assumes "key_valid key (get s)"
  shows "and_then (for_each (insert_with get upd key row) xs s) k = Inr s' \<longleftrightarrow>
    (\<exists>rs. collect_results row xs = Inr rs \<and> key_valid key (get s @ rs)
      \<and> k (upd (\<lambda>t. t @ rs) s) = Inr s')"
  using assms by (auto simp: and_then_eq_Ok for_each_insert)

end

text \<open>
  A parent row followed by its child rows, in two tables of one state: symbols with their
  annotations, applications with their arguments. The rows of both tables end up in the order
  of the loop.
\<close>

definition insert_with_children :: "('x \<Rightarrow> 's \<Rightarrow> 's stored) \<Rightarrow> ('x \<Rightarrow> 'y list) \<Rightarrow> ('x \<Rightarrow> 'y \<Rightarrow> 's \<Rightarrow> 's stored)
    \<Rightarrow> 'x \<Rightarrow> 's \<Rightarrow> 's stored" where
  "insert_with_children parent children child x s =
     and_then (parent x s) (for_each (child x) (children x))"

definition child_rows :: "('x \<Rightarrow> 'y list) \<Rightarrow> ('x \<Rightarrow> 'y \<Rightarrow> 'b stored) \<Rightarrow> 'x list \<Rightarrow> 'b list stored" where
  "child_rows children row xs =
     collect_results (\<lambda>(x, y). row x y) (concat (map (\<lambda>x. map (Pair x) (children x)) xs))"

lemma collect_results_append:
  "collect_results f (xs @ ys) =
     and_then (collect_results f xs) (\<lambda>as. and_then (collect_results f ys) (\<lambda>bs. Inr (as @ bs)))"
  by (induction xs) (auto simp: and_then_def split: sum.splits)

lemma collect_results_map: "collect_results f (map g xs) = collect_results (\<lambda>x. f (g x)) xs"
  by (induction xs) auto

lemma child_rows_Cons:
  "child_rows children row (x # xs) =
     and_then (collect_results (row x) (children x)) (\<lambda>as.
       and_then (child_rows children row xs) (\<lambda>bs. Inr (as @ bs)))"
  by (simp add: child_rows_def collect_results_append collect_results_map)

lemma child_rows_Nil [simp]: "child_rows children row [] = Inr []"
  by (simp add: child_rows_def)

locale two_tables = A: table getA updA + B: table getB updB
  for getA :: "'s \<Rightarrow> 'a list" and updA and getB :: "'s \<Rightarrow> 'b list" and updB +
  assumes getB_updA: "getB (updA f s) = getB s"
    and getA_updB: "getA (updB g s) = getA s"
    and updA_updB: "updA f (updB g s) = updB g (updA f s)"
begin

lemma for_each_children:
  assumes "key_valid keyA (getA s)" "key_valid keyB (getB s)"
  shows "for_each (insert_with_children (insert_with getA updA keyA rowA) children
        (\<lambda>x. insert_with getB updB keyB (rowB x))) xs s = Inr s' \<longleftrightarrow>
    (\<exists>as bs. collect_results rowA xs = Inr as \<and> child_rows children rowB xs = Inr bs
      \<and> key_valid keyA (getA s @ as) \<and> key_valid keyB (getB s @ bs)
      \<and> s' = updB (\<lambda>t. t @ bs) (updA (\<lambda>t. t @ as) s))"
    (is "?loop xs s \<longleftrightarrow> _")
  using assms
proof (induction xs arbitrary: s)
  case Nil
  then show ?case by (auto simp: A.upd_id B.upd_id)
next
  case (Cons x xs)
  have validA: "key_valid keyA (getA s @ [a])" if "key_valid keyA (getA s @ a # as)" for a as
    using that by (auto simp: key_valid_def)
  have validB: "key_valid keyB (getB s @ cs)" if "key_valid keyB (getB s @ cs @ bs)" for cs bs
    using that by (auto simp: key_valid_def)
  have "?loop (x # xs) s \<longleftrightarrow>
      (\<exists>a cs. rowA x = Inr a \<and> key_valid keyA (getA s @ [a])
        \<and> collect_results (rowB x) (children x) = Inr cs \<and> key_valid keyB (getB s @ cs)
        \<and> ?loop xs (updB (\<lambda>t. t @ cs) (updA (\<lambda>t. t @ [a]) s)))"
    using Cons.prems
    by (auto simp: insert_with_children_def and_then_eq_Ok A.insert_with_Ok B.for_each_insert
        getB_updA)
  also have "\<dots> \<longleftrightarrow> (\<exists>a cs as bs. rowA x = Inr a \<and> collect_results (rowB x) (children x) = Inr cs
        \<and> collect_results rowA xs = Inr as \<and> child_rows children rowB xs = Inr bs
        \<and> key_valid keyA (getA s @ a # as) \<and> key_valid keyB (getB s @ cs @ bs)
        \<and> s' = updB (\<lambda>t. t @ cs @ bs) (updA (\<lambda>t. t @ a # as) s))"
    using Cons.IH validA validB
    by (auto simp: getA_updB getB_updA A.get_upd B.get_upd A.upd_upd B.upd_upd updA_updB)
  also have "\<dots> \<longleftrightarrow> (\<exists>as bs. collect_results rowA (x # xs) = Inr as
        \<and> child_rows children rowB (x # xs) = Inr bs
        \<and> key_valid keyA (getA s @ as) \<and> key_valid keyB (getB s @ bs)
        \<and> s' = updB (\<lambda>t. t @ bs) (updA (\<lambda>t. t @ as) s))"
    by (auto simp: and_then_eq_Ok child_rows_Cons)
  finally show ?case .
qed

lemma for_each_children_then:
  assumes "key_valid keyA (getA s)" "key_valid keyB (getB s)"
  shows "and_then (for_each (insert_with_children (insert_with getA updA keyA rowA) children
        (\<lambda>x. insert_with getB updB keyB (rowB x))) xs s) k = Inr s' \<longleftrightarrow>
    (\<exists>as bs. collect_results rowA xs = Inr as \<and> child_rows children rowB xs = Inr bs
      \<and> key_valid keyA (getA s @ as) \<and> key_valid keyB (getB s @ bs)
      \<and> k (updB (\<lambda>t. t @ bs) (updA (\<lambda>t. t @ as) s)) = Inr s')"
  using assms by (auto simp: and_then_eq_Ok for_each_children)

end

lemma upsert_row_keys: "key ` set (upsert_row key row t) = insert (key row) (key ` set t)"
  by (auto simp: upsert_row_def image_iff)

lemma upsert_row_mem:
  "r \<in> set (upsert_row key row t) \<longleftrightarrow> r = row \<or> r \<in> set t \<and> key r \<noteq> key row"
  by (auto simp: upsert_row_def image_iff)

lemma upsert_row_distinct:
  assumes "distinct (map key t)"
  shows "distinct (map key (upsert_row key row t))"
proof (cases "key row \<in> key ` set t")
  case True
  have "map key (map (\<lambda>r. if key r = key row then row else r) t) = map key t"
    by auto
  with True assms show ?thesis by (simp add: upsert_row_def del: map_map)
next
  case False
  with assms show ?thesis by (auto simp: upsert_row_def)
qed

end
