(* ===== verification/Store_Snapshots.thy ===== *)
theory Store_Snapshots
  imports Store_Tables
begin

text \<open>
  The write path of \<open>crates/kide-core/src/store.rs\<close>: validation of a worker's snapshot, deletion of
  the facts a source unit owns, insertion of a snapshot, and the atomic operations made of them.
\<close>

section \<open>Validation\<close>

definition validate_provenance :: "provenance \<Rightarrow> unit stored" where
  "validate_provenance p =
     (if prov_protocol_version p \<noteq> WORKER_PROTOCOL_VERSION
      then Err (IncompatibleWorkerProtocol (prov_protocol_version p) WORKER_PROTOCOL_VERSION)
      else Ok ())"

definition ensure_fact_source :: "string \<Rightarrow> string \<Rightarrow> source_unit_id \<Rightarrow> unit stored" where
  "ensure_fact_source record_kind expected actual =
     (if as_str actual = expected then Ok ()
      else Err (FactOwnedByOtherSource record_kind expected (as_str actual)))"

definition validate_range :: "string \<Rightarrow> byte_range \<Rightarrow> unit stored" where
  "validate_range record_kind r =
     (if br_start r \<le> br_end r then Ok () else Err (InvalidRange record_kind (br_start r) (br_end r)))"

definition validate_occurrence :: "string \<Rightarrow> source_occurrence \<Rightarrow> unit stored" where
  "validate_occurrence source_id occurrence =
     and_then (validate_provenance (occ_provenance occurrence)) (\<lambda>_.
     and_then (ensure_fact_source ''occurrence'' source_id (sr_unit (occ_range occurrence))) (\<lambda>_.
     validate_range ''occurrence'' (sr_bytes (occ_range occurrence))))"

definition validate_symbol :: "string \<Rightarrow> symbol_record \<Rightarrow> unit stored" where
  "validate_symbol source_id symbol =
     and_then (validate_provenance (sym_provenance symbol)) (\<lambda>_.
     and_then (ensure_fact_source ''symbol declaration'' source_id (sr_unit (sym_declaration symbol))) (\<lambda>_.
     and_then (ensure_fact_source ''symbol name range'' source_id (sr_unit (sym_name_range symbol))) (\<lambda>_.
     and_then (validate_range ''symbol declaration'' (sr_bytes (sym_declaration symbol))) (\<lambda>_.
     validate_range ''symbol name range'' (sr_bytes (sym_name_range symbol))))))"

definition validate_application :: "string \<Rightarrow> application_fact \<Rightarrow> unit stored" where
  "validate_application source_id application =
     and_then (validate_provenance (app_provenance application)) (\<lambda>_.
     and_then (ensure_fact_source ''application'' source_id (sr_unit (app_range application))) (\<lambda>_.
     validate_range ''application'' (sr_bytes (app_range application))))"

definition validate_diagnostic :: "string \<Rightarrow> diagnostic_record \<Rightarrow> unit stored" where
  "validate_diagnostic source_id diagnostic =
     and_then (validate_provenance (diag_provenance diagnostic)) (\<lambda>_.
     and_then (ensure_fact_source ''diagnostic'' source_id (diag_source_unit diagnostic)) (\<lambda>_.
     case diag_range diagnostic of None \<Rightarrow> Ok () | Some r \<Rightarrow> validate_range ''diagnostic'' r))"

definition validate_snapshot :: "source_unit \<Rightarrow> file_analysis_snapshot \<Rightarrow> unit stored" where
  "validate_snapshot expected snapshot =
     (if su_id (snap_source_unit snapshot) \<noteq> su_id expected then Err SourceUnitMismatch
      else if su_content (snap_source_unit snapshot) \<noteq> su_content expected
        \<or> su_context (snap_source_unit snapshot) \<noteq> su_context expected then Err SnapshotInputMismatch
      else
        and_then (validate_provenance (snap_provenance snapshot)) (\<lambda>_.
        let source_id = as_str (su_id expected) in
        and_then (check_all (validate_symbol source_id) (snap_symbols snapshot)) (\<lambda>_.
        and_then (check_all (validate_application source_id) (snap_applications snapshot)) (\<lambda>_.
        and_then (check_all (validate_occurrence source_id) (snap_occurrences snapshot)) (\<lambda>_.
        and_then (check_all (\<lambda>r. validate_occurrence source_id (ref_source r)) (snap_references snapshot)) (\<lambda>_.
        and_then (check_all (\<lambda>c. validate_occurrence source_id (call_source c)) (snap_calls snapshot)) (\<lambda>_.
        and_then (check_all (\<lambda>e. validate_provenance (hier_provenance e)) (snap_hierarchy snapshot)) (\<lambda>_.
        and_then (check_all (\<lambda>t. validate_provenance (ty_provenance t)) (snap_types snapshot)) (\<lambda>_.
        check_all (validate_diagnostic source_id) (snap_diagnostics snapshot))))))))))"

section \<open>Stored symbols\<close>

definition SYMBOL_RECORD_FORMAT_VERSION :: u8 where "SYMBOL_RECORD_FORMAT_VERSION = 2"

definition stored_symbol :: "symbol_record \<Rightarrow> stored_symbol_record" where
  "stored_symbol symbol =
     \<lparr> ssr_backend_key = sym_backend_key symbol, ssr_language = sym_language symbol,
       ssr_kind = sym_kind symbol, ssr_qualified_name = sym_qualified_name symbol,
       ssr_signature = sym_signature symbol,
       ssr_declaration = sr_bytes (sym_declaration symbol),
       ssr_name_range = sr_bytes (sym_name_range symbol), ssr_owner = sym_owner symbol,
       ssr_modifiers = sym_modifiers symbol, ssr_applied_symbols = sym_applied_symbols symbol,
       ssr_freshness = sym_freshness symbol, ssr_completeness = sym_completeness symbol \<rparr>"

definition into_symbol ::
    "stored_symbol_record \<Rightarrow> symbol_id \<Rightarrow> string \<Rightarrow> source_unit \<Rightarrow> provenance \<Rightarrow> symbol_record" where
  "into_symbol r key name unit prov =
     \<lparr> sym_id = key, sym_backend_key = ssr_backend_key r, sym_language = ssr_language r,
       sym_kind = ssr_kind r, sym_name = name, sym_qualified_name = ssr_qualified_name r,
       sym_signature = ssr_signature r, sym_component = ComponentId (as_str (su_component unit)),
       sym_declaration = \<lparr> sr_unit = su_id unit, sr_bytes = ssr_declaration r \<rparr>,
       sym_name_range = \<lparr> sr_unit = su_id unit, sr_bytes = ssr_name_range r \<rparr>,
       sym_owner = ssr_owner r, sym_modifiers = ssr_modifiers r,
       sym_applied_symbols = ssr_applied_symbols r, sym_freshness = ssr_freshness r,
       sym_completeness = ssr_completeness r, sym_provenance = prov \<rparr>"

definition encode_stored_symbol :: "stored_symbol_record \<Rightarrow> symbol_blob" where
  "encode_stored_symbol r = VersionedBlob SYMBOL_RECORD_FORMAT_VERSION r"

fun decode_stored_symbol :: "symbol_blob \<Rightarrow> stored_symbol_record stored" where
  "decode_stored_symbol EmptyBlob = Err (IncompatibleSymbolRecordFormat 0)"
| "decode_stored_symbol (VersionedBlob version payload) =
     (if version \<noteq> SYMBOL_RECORD_FORMAT_VERSION then Err (IncompatibleSymbolRecordFormat version)
      else Ok payload)"

section \<open>Primary keys\<close>

definition source_pk :: "source_row \<Rightarrow> source_unit_id option" where
  "source_pk r = Some (ur_id r)"
definition provenance_pk :: "provenance_row \<Rightarrow> source_unit_id option" where
  "provenance_pk r = Some (pr_unit r)"
definition symbol_pk :: "symbol_row \<Rightarrow> symbol_id option" where
  "symbol_pk r = Some (yr_id r)"
definition annotation_pk :: "annotation_row \<Rightarrow> (source_unit_id \<times> symbol_id \<times> symbol_id) option" where
  "annotation_pk r = Some (ar_unit r, ar_symbol r, ar_annotation r)"
definition application_pk :: "application_row \<Rightarrow> application_id option" where
  "application_pk r = Some (pa_id r)"
definition argument_pk :: "argument_row \<Rightarrow> (application_id \<times> u32) option" where
  "argument_pk r = Some (gr_application r, gr_position r)"
definition occurrence_pk :: "occurrence_row \<Rightarrow> (source_unit_id \<times> i64 \<times> i64 \<times> string) option" where
  "occurrence_pk r = Some (or_unit r, or_start r, or_end r, or_kind r)"
definition edge_pk :: "'r edge_row \<Rightarrow> (source_unit_id \<times> i64 \<times> i64 \<times> symbol_id) option" where
  "edge_pk r = Some (er_unit r, er_start r, er_end r, er_target r)"
definition hierarchy_pk :: "hierarchy_row \<Rightarrow> (source_unit_id \<times> symbol_id \<times> symbol_id) option" where
  "hierarchy_pk r = Some (hr_unit r, hr_subtype r, hr_supertype r)"
definition type_pk :: "type_row \<Rightarrow> (source_unit_id \<times> type_id) option" where
  "type_pk r = Some (tr_unit r, tr_id r)"

text \<open>The only key with columns that can be NULL.\<close>

definition diagnostic_pk ::
    "diagnostic_row \<Rightarrow> (source_unit_id \<times> i64 \<times> i64 \<times> string \<times> diagnostic_record) option" where
  "diagnostic_pk r =
     (case (dr_start r, dr_end r) of
        (Some a, Some b) \<Rightarrow> Some (dr_unit r, a, b, dr_severity r, dr_record r)
      | _ \<Rightarrow> None)"

section \<open>Rows of a snapshot\<close>

fun debug_occurrence_kind :: "occurrence_kind \<Rightarrow> string" where
  "debug_occurrence_kind ODeclaration = ''Declaration''"
| "debug_occurrence_kind OReference = ''Reference''"
| "debug_occurrence_kind OCall = ''Call''"
| "debug_occurrence_kind OTypeReference = ''TypeReference''"
| "debug_occurrence_kind OImport = ''Import''"

fun debug_severity :: "diagnostic_severity \<Rightarrow> string" where
  "debug_severity SevError = ''Error''"
| "debug_severity SevWarning = ''Warning''"
| "debug_severity SevInformation = ''Information''"
| "debug_severity SevHint = ''Hint''"

definition debug_integer :: "i64 \<Rightarrow> string" where
  "debug_integer n = (if n < 0 then ''-'' @ decimal (nat (- n)) else decimal (nat n))"

text \<open>\<open>json\<close> is \<open>serde_json::to_string\<close> on a list of strings.\<close>

fun application_value_columns :: "(string list \<Rightarrow> string) \<Rightarrow> application_value \<Rightarrow> string \<times> string" where
  "application_value_columns json (AVString s) = (''string'', s)"
| "application_value_columns json (AVStringList ss) = (''string_list'', json ss)"
| "application_value_columns json (AVBoolean b) = (''boolean'', if b then ''true'' else ''false'')"
| "application_value_columns json (AVInteger n) = (''integer'', debug_integer n)"

definition row_of_source :: "file_analysis_snapshot \<Rightarrow> unit \<Rightarrow> source_row stored" where
  "row_of_source snapshot _ =
     (let source = snap_source_unit snapshot in
      Ok \<lparr> ur_id = su_id source, ur_component = su_component source, ur_path = su_path source,
           ur_content = su_content source, ur_context = su_context source,
           ur_protocol = prov_protocol_version (snap_provenance snapshot), ur_source_unit = source,
           ur_provenance = Some (snap_provenance snapshot),
           ur_public_api = snap_public_api_fingerprint snapshot \<rparr>)"

definition row_of_provenance :: "file_analysis_snapshot \<Rightarrow> unit \<Rightarrow> provenance_row stored" where
  "row_of_provenance snapshot _ =
     Ok \<lparr> pr_unit = su_id (snap_source_unit snapshot), pr_provenance = snap_provenance snapshot \<rparr>"

definition row_of_symbol :: "source_unit_id \<Rightarrow> symbol_record \<Rightarrow> symbol_row stored" where
  "row_of_symbol unit symbol =
     and_then (sqlite_offset (br_start (sr_bytes (sym_name_range symbol)))) (\<lambda>start.
     Ok \<lparr> yr_id = sym_id symbol, yr_unit = unit, yr_name = sym_name symbol, yr_start = start,
          yr_blob = encode_stored_symbol (stored_symbol symbol) \<rparr>)"

definition row_of_annotation :: "source_unit_id \<Rightarrow> symbol_record \<Rightarrow> symbol_id \<Rightarrow> annotation_row stored" where
  "row_of_annotation unit symbol annotation =
     Ok \<lparr> ar_unit = unit, ar_symbol = sym_id symbol, ar_annotation = annotation \<rparr>"

definition row_of_application :: "source_unit_id \<Rightarrow> application_fact \<Rightarrow> application_row stored" where
  "row_of_application unit application =
     and_then (sqlite_offset (br_start (sr_bytes (app_range application)))) (\<lambda>start.
     and_then (sqlite_offset (br_end (sr_bytes (app_range application)))) (\<lambda>end.
     Ok \<lparr> pa_id = app_id application, pa_unit = unit, pa_subject = app_subject application,
          pa_target = app_target application, pa_start = start, pa_end = end,
          pa_record = application \<rparr>))"

definition row_of_argument ::
    "(string list \<Rightarrow> string) \<Rightarrow> application_fact \<Rightarrow> application_argument \<Rightarrow> argument_row stored" where
  "row_of_argument json application argument =
     (case application_value_columns json (arg_value argument) of (kind, v) \<Rightarrow>
       Ok \<lparr> gr_application = app_id application, gr_name = arg_name argument,
            gr_position = arg_position argument, gr_kind = kind, gr_value = v \<rparr>)"

definition row_of_occurrence :: "source_unit_id \<Rightarrow> source_occurrence \<Rightarrow> occurrence_row stored" where
  "row_of_occurrence unit occurrence =
     and_then (sqlite_offset (br_start (sr_bytes (occ_range occurrence)))) (\<lambda>start.
     and_then (sqlite_offset (br_end (sr_bytes (occ_range occurrence)))) (\<lambda>end.
     Ok \<lparr> or_unit = unit, or_start = start, or_end = end,
          or_kind = debug_occurrence_kind (occ_kind occurrence), or_target = occ_target occurrence,
          or_record = occurrence \<rparr>))"

definition row_of_reference :: "source_unit_id \<Rightarrow> reference_edge \<Rightarrow> reference_edge edge_row stored" where
  "row_of_reference unit reference =
     and_then (sqlite_offset (br_start (sr_bytes (occ_range (ref_source reference))))) (\<lambda>start.
     and_then (sqlite_offset (br_end (sr_bytes (occ_range (ref_source reference))))) (\<lambda>end.
     Ok \<lparr> er_unit = unit, er_start = start, er_end = end, er_target = ref_target reference,
          er_record = reference \<rparr>))"

definition row_of_call :: "source_unit_id \<Rightarrow> call_edge \<Rightarrow> call_edge edge_row stored" where
  "row_of_call unit call =
     and_then (sqlite_offset (br_start (sr_bytes (occ_range (call_source call))))) (\<lambda>start.
     and_then (sqlite_offset (br_end (sr_bytes (occ_range (call_source call))))) (\<lambda>end.
     Ok \<lparr> er_unit = unit, er_start = start, er_end = end, er_target = call_target call,
          er_record = call \<rparr>))"

definition row_of_hierarchy :: "source_unit_id \<Rightarrow> hierarchy_edge \<Rightarrow> hierarchy_row stored" where
  "row_of_hierarchy unit edge =
     Ok \<lparr> hr_unit = unit, hr_subtype = hier_subtype edge, hr_supertype = hier_supertype edge,
          hr_record = edge \<rparr>"

definition row_of_type :: "source_unit_id \<Rightarrow> type_record \<Rightarrow> type_row stored" where
  "row_of_type unit ty = Ok \<lparr> tr_unit = unit, tr_id = ty_id ty, tr_record = ty \<rparr>"

definition row_of_diagnostic :: "source_unit_id \<Rightarrow> diagnostic_record \<Rightarrow> diagnostic_row stored" where
  "row_of_diagnostic unit diagnostic =
     and_then (case diag_range diagnostic of
         None \<Rightarrow> Ok (None, None)
       | Some r \<Rightarrow> and_then (sqlite_offset (br_start r)) (\<lambda>start.
           and_then (sqlite_offset (br_end r)) (\<lambda>end. Ok (Some start, Some end)))) (\<lambda>(start, end).
     Ok \<lparr> dr_unit = unit, dr_start = start, dr_end = end,
          dr_severity = debug_severity (diag_severity diagnostic), dr_record = diagnostic \<rparr>)"

section \<open>Writing\<close>

definition delete_file_owned_facts :: "source_unit_id \<Rightarrow> facts \<Rightarrow> facts" where
  "delete_file_owned_facts unit F =
     (let owned = map pa_id (filter (\<lambda>r. pa_unit r = unit) (t_applications F)) in
      F\<lparr> t_arguments := filter (\<lambda>r. gr_application r \<notin> set owned) (t_arguments F),
         t_applications := filter (\<lambda>r. pa_unit r \<noteq> unit) (t_applications F),
         t_references := filter (\<lambda>r. er_unit r \<noteq> unit) (t_references F),
         t_calls := filter (\<lambda>r. er_unit r \<noteq> unit) (t_calls F),
         t_hierarchy := filter (\<lambda>r. hr_unit r \<noteq> unit) (t_hierarchy F),
         t_types := filter (\<lambda>r. tr_unit r \<noteq> unit) (t_types F),
         t_diagnostics := filter (\<lambda>r. dr_unit r \<noteq> unit) (t_diagnostics F),
         t_annotations := filter (\<lambda>r. ar_unit r \<noteq> unit) (t_annotations F),
         t_occurrences := filter (\<lambda>r. or_unit r \<noteq> unit) (t_occurrences F),
         t_symbols := filter (\<lambda>r. yr_unit r \<noteq> unit) (t_symbols F),
         t_provenances := filter (\<lambda>r. pr_unit r \<noteq> unit) (t_provenances F),
         t_sources := filter (\<lambda>r. ur_id r \<noteq> unit) (t_sources F) \<rparr>)"

definition insert_symbol :: "source_unit_id \<Rightarrow> symbol_record \<Rightarrow> facts \<Rightarrow> facts stored" where
  "insert_symbol unit =
     insert_with_children (insert_with t_symbols t_symbols_update symbol_pk (row_of_symbol unit))
       sym_applied_symbols
       (\<lambda>symbol. insert_with t_annotations t_annotations_update annotation_pk (row_of_annotation unit symbol))"

definition insert_application ::
    "(string list \<Rightarrow> string) \<Rightarrow> source_unit_id \<Rightarrow> application_fact \<Rightarrow> facts \<Rightarrow> facts stored" where
  "insert_application json unit =
     insert_with_children
       (insert_with t_applications t_applications_update application_pk (row_of_application unit))
       app_arguments
       (\<lambda>application. insert_with t_arguments t_arguments_update argument_pk
         (row_of_argument json application))"

definition insert_snapshot ::
    "(string list \<Rightarrow> string) \<Rightarrow> file_analysis_snapshot \<Rightarrow> facts \<Rightarrow> facts stored" where
  "insert_snapshot json snapshot F =
     (let unit = su_id (snap_source_unit snapshot) in
      and_then (insert_with t_sources t_sources_update source_pk (row_of_source snapshot) () F) (\<lambda>F.
      and_then (insert_with t_provenances t_provenances_update provenance_pk (row_of_provenance snapshot) () F) (\<lambda>F.
      and_then (for_each (insert_symbol unit) (snap_symbols snapshot) F) (\<lambda>F.
      and_then (for_each (insert_application json unit) (snap_applications snapshot) F) (\<lambda>F.
      and_then (for_each (insert_with t_occurrences t_occurrences_update occurrence_pk
          (row_of_occurrence unit)) (snap_occurrences snapshot) F) (\<lambda>F.
      and_then (for_each (insert_with t_references t_references_update edge_pk
          (row_of_reference unit)) (snap_references snapshot) F) (\<lambda>F.
      and_then (for_each (insert_with t_calls t_calls_update edge_pk
          (row_of_call unit)) (snap_calls snapshot) F) (\<lambda>F.
      and_then (for_each (insert_with t_hierarchy t_hierarchy_update hierarchy_pk
          (row_of_hierarchy unit)) (snap_hierarchy snapshot) F) (\<lambda>F.
      and_then (for_each (insert_with t_types t_types_update type_pk
          (row_of_type unit)) (snap_types snapshot) F) (\<lambda>F.
      for_each (insert_with t_diagnostics t_diagnostics_update diagnostic_pk
          (row_of_diagnostic unit)) (snap_diagnostics snapshot) F))))))))))"

definition replace_snapshot ::
    "(string list \<Rightarrow> string) \<Rightarrow> source_unit \<Rightarrow> file_analysis_snapshot \<Rightarrow> facts \<Rightarrow> unit stored \<times> facts" where
  "replace_snapshot json expected snapshot F =
     (case validate_snapshot expected snapshot of
        Inl e \<Rightarrow> (Err e, F)
      | Inr _ \<Rightarrow> transaction (\<lambda>F.
          insert_snapshot json snapshot (delete_file_owned_facts (su_id expected) F)) F)"

definition replace_snapshots_batch ::
    "(string list \<Rightarrow> string) \<Rightarrow> (source_unit \<times> file_analysis_snapshot) list \<Rightarrow> facts \<Rightarrow> unit stored \<times> facts" where
  "replace_snapshots_batch json entries F =
     (case check_all (\<lambda>(expected, snapshot). validate_snapshot expected snapshot) entries of
        Inl e \<Rightarrow> (Err e, F)
      | Inr _ \<Rightarrow> transaction (for_each (\<lambda>(expected, snapshot) F.
          insert_snapshot json snapshot (delete_file_owned_facts (su_id expected) F)) entries) F)"

definition remove_snapshot :: "source_unit_id \<Rightarrow> facts \<Rightarrow> unit stored \<times> facts" where
  "remove_snapshot unit F = transaction (\<lambda>F. Ok (delete_file_owned_facts unit F)) F"

section \<open>The tables of the facts\<close>

interpretation sources: table t_sources t_sources_update by unfold_locales simp_all
interpretation provenances: table t_provenances t_provenances_update by unfold_locales simp_all
interpretation symbols: two_tables t_symbols t_symbols_update t_annotations t_annotations_update
  by unfold_locales simp_all
interpretation applications: two_tables t_applications t_applications_update t_arguments t_arguments_update
  by unfold_locales simp_all
interpretation occurrences: table t_occurrences t_occurrences_update by unfold_locales simp_all
interpretation references: table t_references t_references_update by unfold_locales simp_all
interpretation calls: table t_calls t_calls_update by unfold_locales simp_all
interpretation hierarchy: table t_hierarchy t_hierarchy_update by unfold_locales simp_all
interpretation types: table t_types t_types_update by unfold_locales simp_all
interpretation diagnostics: table t_diagnostics t_diagnostics_update by unfold_locales simp_all

text \<open>All primary keys hold.\<close>

definition facts_valid :: "facts \<Rightarrow> bool" where
  "facts_valid F =
     (key_valid source_pk (t_sources F) \<and> key_valid provenance_pk (t_provenances F)
      \<and> key_valid symbol_pk (t_symbols F) \<and> key_valid annotation_pk (t_annotations F)
      \<and> key_valid application_pk (t_applications F) \<and> key_valid argument_pk (t_arguments F)
      \<and> key_valid occurrence_pk (t_occurrences F) \<and> key_valid edge_pk (t_references F)
      \<and> key_valid edge_pk (t_calls F) \<and> key_valid hierarchy_pk (t_hierarchy F)
      \<and> key_valid type_pk (t_types F) \<and> key_valid diagnostic_pk (t_diagnostics F))"

text \<open>The rows of a snapshot, and the tables after they were added.\<close>

definition snapshot_facts :: "(string list \<Rightarrow> string) \<Rightarrow> file_analysis_snapshot \<Rightarrow> facts stored" where
  "snapshot_facts json snapshot =
     (let unit = su_id (snap_source_unit snapshot) in
      and_then (row_of_source snapshot ()) (\<lambda>so.
      and_then (row_of_provenance snapshot ()) (\<lambda>pr.
      and_then (collect_results (row_of_symbol unit) (snap_symbols snapshot)) (\<lambda>sy.
      and_then (child_rows sym_applied_symbols (row_of_annotation unit) (snap_symbols snapshot)) (\<lambda>an.
      and_then (collect_results (row_of_application unit) (snap_applications snapshot)) (\<lambda>ap.
      and_then (child_rows app_arguments (row_of_argument json) (snap_applications snapshot)) (\<lambda>ag.
      and_then (collect_results (row_of_occurrence unit) (snap_occurrences snapshot)) (\<lambda>oc.
      and_then (collect_results (row_of_reference unit) (snap_references snapshot)) (\<lambda>re.
      and_then (collect_results (row_of_call unit) (snap_calls snapshot)) (\<lambda>ca.
      and_then (collect_results (row_of_hierarchy unit) (snap_hierarchy snapshot)) (\<lambda>hi.
      and_then (collect_results (row_of_type unit) (snap_types snapshot)) (\<lambda>ty.
      and_then (collect_results (row_of_diagnostic unit) (snap_diagnostics snapshot)) (\<lambda>di.
      Ok \<lparr> t_sources = [so], t_provenances = [pr], t_symbols = sy, t_annotations = an,
           t_applications = ap, t_arguments = ag, t_occurrences = oc, t_references = re,
           t_calls = ca, t_hierarchy = hi, t_types = ty, t_diagnostics = di \<rparr>)))))))))))))"

definition append_facts :: "facts \<Rightarrow> facts \<Rightarrow> facts" where
  "append_facts F G =
     \<lparr> t_sources = t_sources F @ t_sources G, t_provenances = t_provenances F @ t_provenances G,
       t_symbols = t_symbols F @ t_symbols G, t_annotations = t_annotations F @ t_annotations G,
       t_applications = t_applications F @ t_applications G, t_arguments = t_arguments F @ t_arguments G,
       t_occurrences = t_occurrences F @ t_occurrences G, t_references = t_references F @ t_references G,
       t_calls = t_calls F @ t_calls G, t_hierarchy = t_hierarchy F @ t_hierarchy G,
       t_types = t_types F @ t_types G, t_diagnostics = t_diagnostics F @ t_diagnostics G \<rparr>"

lemma append_facts_sel [simp]:
  "t_sources (append_facts F G) = t_sources F @ t_sources G"
  "t_provenances (append_facts F G) = t_provenances F @ t_provenances G"
  "t_symbols (append_facts F G) = t_symbols F @ t_symbols G"
  "t_annotations (append_facts F G) = t_annotations F @ t_annotations G"
  "t_applications (append_facts F G) = t_applications F @ t_applications G"
  "t_arguments (append_facts F G) = t_arguments F @ t_arguments G"
  "t_occurrences (append_facts F G) = t_occurrences F @ t_occurrences G"
  "t_references (append_facts F G) = t_references F @ t_references G"
  "t_calls (append_facts F G) = t_calls F @ t_calls G"
  "t_hierarchy (append_facts F G) = t_hierarchy F @ t_hierarchy G"
  "t_types (append_facts F G) = t_types F @ t_types G"
  "t_diagnostics (append_facts F G) = t_diagnostics F @ t_diagnostics G"
  by (simp_all add: append_facts_def)

text \<open>
  Inserting a snapshot succeeds exactly when every offset fits and no key is violated, and then
  adds the snapshot's rows to the tables.
\<close>

lemma insert_snapshot_Ok:
  assumes "facts_valid F"
  shows "insert_snapshot json snapshot F = Inr F' \<longleftrightarrow>
    (\<exists>G. snapshot_facts json snapshot = Inr G \<and> facts_valid (append_facts F G)
      \<and> F' = append_facts F G)"
proof -
  define unit where "unit = su_id (snap_source_unit snapshot)"
  have shape: "append_facts F \<lparr> t_sources = [so], t_provenances = [pr], t_symbols = sy, t_annotations = an,
           t_applications = ap, t_arguments = ag, t_occurrences = oc, t_references = re,
           t_calls = ca, t_hierarchy = hi, t_types = ty, t_diagnostics = di \<rparr> =
      t_diagnostics_update (\<lambda>t. t @ di) (t_types_update (\<lambda>t. t @ ty) (t_hierarchy_update (\<lambda>t. t @ hi)
      (t_calls_update (\<lambda>t. t @ ca) (t_references_update (\<lambda>t. t @ re) (t_occurrences_update (\<lambda>t. t @ oc)
      (t_arguments_update (\<lambda>t. t @ ag) (t_applications_update (\<lambda>t. t @ ap)
      (t_annotations_update (\<lambda>t. t @ an) (t_symbols_update (\<lambda>t. t @ sy)
      (t_provenances_update (\<lambda>t. t @ [pr]) (t_sources_update (\<lambda>t. t @ [so]) F)))))))))))"
    for so pr sy an ap ag oc re ca hi ty di
    by (simp add: append_facts_def)
  have rows: "insert_snapshot json snapshot F = Inr F' \<longleftrightarrow>
    (\<exists>so pr sy an ap ag oc re ca hi ty di.
      row_of_source snapshot () = Inr so \<and> row_of_provenance snapshot () = Inr pr
      \<and> collect_results (row_of_symbol unit) (snap_symbols snapshot) = Inr sy
      \<and> child_rows sym_applied_symbols (row_of_annotation unit) (snap_symbols snapshot) = Inr an
      \<and> collect_results (row_of_application unit) (snap_applications snapshot) = Inr ap
      \<and> child_rows app_arguments (row_of_argument json) (snap_applications snapshot) = Inr ag
      \<and> collect_results (row_of_occurrence unit) (snap_occurrences snapshot) = Inr oc
      \<and> collect_results (row_of_reference unit) (snap_references snapshot) = Inr re
      \<and> collect_results (row_of_call unit) (snap_calls snapshot) = Inr ca
      \<and> collect_results (row_of_hierarchy unit) (snap_hierarchy snapshot) = Inr hi
      \<and> collect_results (row_of_type unit) (snap_types snapshot) = Inr ty
      \<and> collect_results (row_of_diagnostic unit) (snap_diagnostics snapshot) = Inr di
      \<and> facts_valid (append_facts F \<lparr> t_sources = [so], t_provenances = [pr], t_symbols = sy,
           t_annotations = an, t_applications = ap, t_arguments = ag, t_occurrences = oc,
           t_references = re, t_calls = ca, t_hierarchy = hi, t_types = ty, t_diagnostics = di \<rparr>)
      \<and> F' = append_facts F \<lparr> t_sources = [so], t_provenances = [pr], t_symbols = sy,
           t_annotations = an, t_applications = ap, t_arguments = ag, t_occurrences = oc,
           t_references = re, t_calls = ca, t_hierarchy = hi, t_types = ty, t_diagnostics = di \<rparr>)"
    using assms unfolding shape
    by (simp add: insert_snapshot_def Let_def unit_def[symmetric] insert_symbol_def
        insert_application_def facts_valid_def sources.insert_with_then provenances.insert_with_then
        symbols.for_each_children_then applications.for_each_children_then
        occurrences.for_each_insert_then references.for_each_insert_then calls.for_each_insert_then
        hierarchy.for_each_insert_then types.for_each_insert_then diagnostics.for_each_insert)
      (rule iffI; elim exE conjE; intro exI conjI; assumption)
  show ?thesis
    unfolding rows snapshot_facts_def Let_def unit_def[symmetric] and_then_eq_Ok sum.inject
    by (rule iffI; elim exE conjE; hypsubst; intro exI conjI; (assumption | rule refl))
qed

section \<open>Ownership\<close>

text \<open>The application ids of a unit, and the rows a unit owns.\<close>

definition unit_applications :: "source_unit_id \<Rightarrow> facts \<Rightarrow> application_id set" where
  "unit_applications u F = pa_id ` {r \<in> set (t_applications F). pa_unit r = u}"

definition unit_facts :: "source_unit_id \<Rightarrow> facts \<Rightarrow> facts" where
  "unit_facts u F =
     \<lparr> t_sources = filter (\<lambda>r. ur_id r = u) (t_sources F),
       t_provenances = filter (\<lambda>r. pr_unit r = u) (t_provenances F),
       t_symbols = filter (\<lambda>r. yr_unit r = u) (t_symbols F),
       t_annotations = filter (\<lambda>r. ar_unit r = u) (t_annotations F),
       t_applications = filter (\<lambda>r. pa_unit r = u) (t_applications F),
       t_arguments = filter (\<lambda>r. gr_application r \<in> unit_applications u F) (t_arguments F),
       t_occurrences = filter (\<lambda>r. or_unit r = u) (t_occurrences F),
       t_references = filter (\<lambda>r. er_unit r = u) (t_references F),
       t_calls = filter (\<lambda>r. er_unit r = u) (t_calls F),
       t_hierarchy = filter (\<lambda>r. hr_unit r = u) (t_hierarchy F),
       t_types = filter (\<lambda>r. tr_unit r = u) (t_types F),
       t_diagnostics = filter (\<lambda>r. dr_unit r = u) (t_diagnostics F) \<rparr>"

definition no_facts :: facts where
  "no_facts = \<lparr> t_sources = [], t_provenances = [], t_symbols = [], t_annotations = [],
     t_applications = [], t_arguments = [], t_occurrences = [], t_references = [], t_calls = [],
     t_hierarchy = [], t_types = [], t_diagnostics = [] \<rparr>"

text \<open>Every row names its unit, and every argument its application.\<close>

definition units_of :: "facts \<Rightarrow> source_unit_id set" where
  "units_of F =
     pr_unit ` set (t_provenances F) \<union> yr_unit ` set (t_symbols F) \<union> ar_unit ` set (t_annotations F)
     \<union> pa_unit ` set (t_applications F) \<union> or_unit ` set (t_occurrences F) \<union> er_unit ` set (t_references F)
     \<union> er_unit ` set (t_calls F) \<union> hr_unit ` set (t_hierarchy F) \<union> tr_unit ` set (t_types F)
     \<union> dr_unit ` set (t_diagnostics F)"

definition arguments_owned :: "facts \<Rightarrow> bool" where
  "arguments_owned F = (gr_application ` set (t_arguments F) \<subseteq> pa_id ` set (t_applications F))"

text \<open>
  The invariant of the store: primary keys hold, arguments belong to applications, and every row
  belongs to a unit that has a snapshot row.
\<close>

definition store_inv :: "facts \<Rightarrow> bool" where
  "store_inv F \<longleftrightarrow> facts_valid F \<and> arguments_owned F \<and> units_of F \<subseteq> ur_id ` set (t_sources F)
     \<and> ur_id ` set (t_sources F) \<subseteq> pr_unit ` set (t_provenances F)"

lemma no_facts_inv [simp]: "store_inv no_facts"
  by (simp add: store_inv_def no_facts_def facts_valid_def arguments_owned_def units_of_def)

lemma append_no_facts [simp]: "append_facts no_facts G = G"
  by (simp add: append_facts_def no_facts_def)

lemma application_ids_disjoint:
  assumes "key_valid application_pk (t_applications F)" "u \<noteq> v"
  shows "unit_applications u F \<inter> unit_applications v F = {}"
proof -
  have "inj_on pa_id (set (t_applications F))"
    using assms(1) by (simp add: key_valid_def application_pk_def [abs_def] distinct_map)
  with assms(2) show ?thesis by (auto simp: unit_applications_def dest: inj_onD)
qed

lemma unit_facts_delete_self: "unit_facts u (delete_file_owned_facts u F) = no_facts"
  by (simp add: unit_facts_def delete_file_owned_facts_def Let_def no_facts_def unit_applications_def
      filter_empty_conv)

lemma unit_facts_delete_other:
  assumes "facts_valid F" "v \<noteq> u"
  shows "unit_facts v (delete_file_owned_facts u F) = unit_facts v F"
proof -
  have apps: "unit_applications v (delete_file_owned_facts u F) = unit_applications v F"
    using assms(2) by (auto simp: unit_applications_def delete_file_owned_facts_def Let_def)
  have "pa_id ` {r \<in> set (t_applications F). pa_unit r = u} \<inter> unit_applications v F = {}"
    using application_ids_disjoint[of F u v] assms by (auto simp: facts_valid_def unit_applications_def)
  then have args: "filter (\<lambda>r. gr_application r \<in> unit_applications v F)
        (filter (\<lambda>r. gr_application r \<notin> pa_id ` {r \<in> set (t_applications F). pa_unit r = u}) (t_arguments F))
      = filter (\<lambda>r. gr_application r \<in> unit_applications v F) (t_arguments F)"
    by (auto simp: filter_filter intro!: filter_cong)
  have keep: "filter (\<lambda>r. k r = v) (filter (\<lambda>r. k r \<noteq> u) xs) = filter (\<lambda>r. k r = v) xs"
    for k :: "'z \<Rightarrow> source_unit_id" and xs
    using assms(2) by (auto simp: filter_filter intro!: filter_cong)
  show ?thesis
    unfolding unit_facts_def apps
    by (simp add: delete_file_owned_facts_def Let_def keep args del: filter_filter)
qed

lemma facts_valid_delete: "facts_valid F \<Longrightarrow> facts_valid (delete_file_owned_facts u F)"
  by (simp add: facts_valid_def delete_file_owned_facts_def Let_def key_valid_filter)

lemma arguments_owned_delete:
  assumes "arguments_owned F"
  shows "arguments_owned (delete_file_owned_facts u F)"
  unfolding arguments_owned_def
proof (rule image_subsetI)
  fix r
  assume "r \<in> set (t_arguments (delete_file_owned_facts u F))"
  then have r: "r \<in> set (t_arguments F)"
      "gr_application r \<notin> pa_id ` {a \<in> set (t_applications F). pa_unit a = u}"
    by (simp_all add: delete_file_owned_facts_def Let_def)
  then obtain a where "a \<in> set (t_applications F)" "gr_application r = pa_id a"
    using assms by (auto simp: arguments_owned_def)
  with r(2) show "gr_application r \<in> pa_id ` set (t_applications (delete_file_owned_facts u F))"
    by (auto simp: delete_file_owned_facts_def Let_def)
qed

lemma store_inv_delete:
  assumes "store_inv F"
  shows "store_inv (delete_file_owned_facts u F)"
proof -
  let ?D = "delete_file_owned_facts u F"
  have "units_of ?D \<subseteq> units_of F - {u}"
    unfolding units_of_def delete_file_owned_facts_def Let_def by auto
  moreover have "ur_id ` set (t_sources ?D) = ur_id ` set (t_sources F) - {u}"
    and "pr_unit ` set (t_provenances ?D) = pr_unit ` set (t_provenances F) - {u}"
    by (auto simp: delete_file_owned_facts_def Let_def)
  ultimately have "units_of ?D \<subseteq> ur_id ` set (t_sources ?D)"
      "ur_id ` set (t_sources ?D) \<subseteq> pr_unit ` set (t_provenances ?D)"
    using assms by (auto simp only: store_inv_def)
  with assms show ?thesis
    by (simp add: store_inv_def facts_valid_delete arguments_owned_delete)
qed

section \<open>The rows of a snapshot belong to its unit\<close>

lemma child_rows_mem:
  "child_rows children row xs = Inr bs \<Longrightarrow> b \<in> set bs \<Longrightarrow>
     \<exists>x\<in>set xs. \<exists>y\<in>set (children x). row x y = Inr b"
  unfolding child_rows_def by (drule (1) collect_results_mem) auto

lemma rows_unit:
  "collect_results f xs = Inr ys \<Longrightarrow> (\<And>x y. f x = Inr y \<Longrightarrow> k y = u) \<Longrightarrow> k ` set ys \<subseteq> {u}"
  by (auto dest: collect_results_mem)

lemma child_rows_unit:
  "child_rows children row xs = Inr ys \<Longrightarrow> (\<And>x y z. row x y = Inr z \<Longrightarrow> k z = u) \<Longrightarrow> k ` set ys \<subseteq> {u}"
  by (auto dest!: child_rows_mem)

text \<open>The unit column of every row is the unit it was made for.\<close>

lemma row_units:
  "row_of_source snapshot x = Inr so \<Longrightarrow> ur_id so = su_id (snap_source_unit snapshot)"
  "row_of_provenance snapshot x = Inr pr \<Longrightarrow> pr_unit pr = su_id (snap_source_unit snapshot)"
  "row_of_symbol u sm = Inr sy \<Longrightarrow> yr_unit sy = u"
  "row_of_annotation u sm ann = Inr an \<Longrightarrow> ar_unit an = u"
  "row_of_application u app = Inr ap \<Longrightarrow> pa_unit ap = u \<and> pa_id ap = app_id app"
  "row_of_argument json app arg = Inr ag \<Longrightarrow> gr_application ag = app_id app"
  "row_of_occurrence u occ = Inr oc \<Longrightarrow> or_unit oc = u"
  "row_of_reference u rf = Inr re \<Longrightarrow> er_unit re = u"
  "row_of_call u cl = Inr ca \<Longrightarrow> er_unit ca = u"
  "row_of_hierarchy u he = Inr hi \<Longrightarrow> hr_unit hi = u"
  "row_of_type u t = Inr ty \<Longrightarrow> tr_unit ty = u"
  "row_of_diagnostic u d = Inr di \<Longrightarrow> dr_unit di = u"
  by (auto simp: row_of_source_def row_of_provenance_def row_of_symbol_def row_of_annotation_def
      row_of_application_def row_of_argument_def row_of_occurrence_def row_of_reference_def
      row_of_call_def row_of_hierarchy_def row_of_type_def row_of_diagnostic_def Let_def
      and_then_eq_Ok split: prod.splits)

lemma snapshot_facts_tables:
  assumes "snapshot_facts json snapshot = Inr G" "u = su_id (snap_source_unit snapshot)"
  obtains so pr where "t_sources G = [so]" "t_provenances G = [pr]"
    "row_of_source snapshot () = Inr so" "row_of_provenance snapshot () = Inr pr"
    "collect_results (row_of_symbol u) (snap_symbols snapshot) = Inr (t_symbols G)"
    "child_rows sym_applied_symbols (row_of_annotation u) (snap_symbols snapshot) = Inr (t_annotations G)"
    "collect_results (row_of_application u) (snap_applications snapshot) = Inr (t_applications G)"
    "child_rows app_arguments (row_of_argument json) (snap_applications snapshot) = Inr (t_arguments G)"
    "collect_results (row_of_occurrence u) (snap_occurrences snapshot) = Inr (t_occurrences G)"
    "collect_results (row_of_reference u) (snap_references snapshot) = Inr (t_references G)"
    "collect_results (row_of_call u) (snap_calls snapshot) = Inr (t_calls G)"
    "collect_results (row_of_hierarchy u) (snap_hierarchy snapshot) = Inr (t_hierarchy G)"
    "collect_results (row_of_type u) (snap_types snapshot) = Inr (t_types G)"
    "collect_results (row_of_diagnostic u) (snap_diagnostics snapshot) = Inr (t_diagnostics G)"
  using assms by (auto simp: snapshot_facts_def Let_def and_then_eq_Ok)

lemma snapshot_facts_owned:
  assumes "snapshot_facts json snapshot = Inr G" and u: "u = su_id (snap_source_unit snapshot)"
  shows "arguments_owned G" "units_of G \<subseteq> {u}" "ur_id ` set (t_sources G) = {u}"
    "pr_unit ` set (t_provenances G) = {u}"
proof -
  obtain so pr where G: "t_sources G = [so]" "t_provenances G = [pr]"
      "row_of_source snapshot () = Inr so" "row_of_provenance snapshot () = Inr pr"
      "collect_results (row_of_symbol u) (snap_symbols snapshot) = Inr (t_symbols G)"
      "child_rows sym_applied_symbols (row_of_annotation u) (snap_symbols snapshot) = Inr (t_annotations G)"
      "collect_results (row_of_application u) (snap_applications snapshot) = Inr (t_applications G)"
      "child_rows app_arguments (row_of_argument json) (snap_applications snapshot) = Inr (t_arguments G)"
      "collect_results (row_of_occurrence u) (snap_occurrences snapshot) = Inr (t_occurrences G)"
      "collect_results (row_of_reference u) (snap_references snapshot) = Inr (t_references G)"
      "collect_results (row_of_call u) (snap_calls snapshot) = Inr (t_calls G)"
      "collect_results (row_of_hierarchy u) (snap_hierarchy snapshot) = Inr (t_hierarchy G)"
      "collect_results (row_of_type u) (snap_types snapshot) = Inr (t_types G)"
      "collect_results (row_of_diagnostic u) (snap_diagnostics snapshot) = Inr (t_diagnostics G)"
    by (rule snapshot_facts_tables[OF assms])
  show "ur_id ` set (t_sources G) = {u}" "pr_unit ` set (t_provenances G) = {u}"
    using G(1-4) by (simp_all add: row_units u)
  have "pr_unit ` set (t_provenances G) \<subseteq> {u}" using G(2,4) by (simp add: row_units u)
  moreover have "yr_unit ` set (t_symbols G) \<subseteq> {u}"
    by (rule rows_unit[OF G(5)]) (auto dest: row_units)
  moreover have "ar_unit ` set (t_annotations G) \<subseteq> {u}"
    by (rule child_rows_unit[OF G(6)]) (auto dest: row_units)
  moreover have "pa_unit ` set (t_applications G) \<subseteq> {u}"
    by (rule rows_unit[OF G(7)]) (auto dest: row_units)
  moreover have "or_unit ` set (t_occurrences G) \<subseteq> {u}"
    by (rule rows_unit[OF G(9)]) (auto dest: row_units)
  moreover have "er_unit ` set (t_references G) \<subseteq> {u}"
    by (rule rows_unit[OF G(10)]) (auto dest: row_units)
  moreover have "er_unit ` set (t_calls G) \<subseteq> {u}"
    by (rule rows_unit[OF G(11)]) (auto dest: row_units)
  moreover have "hr_unit ` set (t_hierarchy G) \<subseteq> {u}"
    by (rule rows_unit[OF G(12)]) (auto dest: row_units)
  moreover have "tr_unit ` set (t_types G) \<subseteq> {u}"
    by (rule rows_unit[OF G(13)]) (auto dest: row_units)
  moreover have "dr_unit ` set (t_diagnostics G) \<subseteq> {u}"
    by (rule rows_unit[OF G(14)]) (auto dest: row_units)
  ultimately show "units_of G \<subseteq> {u}" by (simp add: units_of_def)
  show "arguments_owned G"
    unfolding arguments_owned_def
  proof (rule image_subsetI)
    fix r
    assume "r \<in> set (t_arguments G)"
    then obtain app arg where "app \<in> set (snap_applications snapshot)" "row_of_argument json app arg = Inr r"
      using child_rows_mem[OF G(8)] by blast
    moreover from this obtain a where "a \<in> set (t_applications G)" "row_of_application u app = Inr a"
      using collect_results_has[OF G(7)] by blast
    ultimately show "gr_application r \<in> pa_id ` set (t_applications G)"
      by (metis image_eqI row_units(5,6))
  qed
qed

text \<open>Facts whose rows all belong to one unit.\<close>

lemma unit_facts_owned:
  assumes "arguments_owned G" "units_of G \<subseteq> {u}" "ur_id ` set (t_sources G) \<subseteq> {u}"
  shows "unit_facts u G = G" and "v \<noteq> u \<Longrightarrow> unit_facts v G = no_facts"
proof -
  have apps: "unit_applications u G = pa_id ` set (t_applications G)"
    using assms(2) by (auto simp: unit_applications_def units_of_def)
  have args: "filter (\<lambda>r. gr_application r \<in> unit_applications u G) (t_arguments G) = t_arguments G"
    using assms(1) by (auto simp: apps arguments_owned_def filter_id_conv)
  have keep: "filter (\<lambda>r. k r = u) xs = xs" if "k ` set xs \<subseteq> {u}" for k :: "'z \<Rightarrow> source_unit_id" and xs
    using that by (auto simp: filter_id_conv)
  show "unit_facts u G = G"
    unfolding unit_facts_def args using assms(2,3)
    by (intro facts.equality) (simp_all add: keep units_of_def)
  assume v: "v \<noteq> u"
  have gone: "filter (\<lambda>r. k r = v) xs = []" if "k ` set xs \<subseteq> {u}" for k :: "'z \<Rightarrow> source_unit_id" and xs
    using that v by (auto simp: filter_empty_conv)
  have "unit_applications v G = {}"
    using assms(2) v by (auto simp: unit_applications_def units_of_def)
  then show "unit_facts v G = no_facts"
    unfolding unit_facts_def no_facts_def using assms(2,3)
    by (intro facts.equality) (simp_all add: gone units_of_def)
qed

text \<open>Appending keeps the units apart.\<close>

lemma unit_facts_append:
  assumes "arguments_owned F" "arguments_owned G" "facts_valid (append_facts F G)"
  shows "unit_facts v (append_facts F G) = append_facts (unit_facts v F) (unit_facts v G)"
proof -
  have disj: "pa_id ` set (t_applications F) \<inter> pa_id ` set (t_applications G) = {}"
    using assms(3) by (simp add: facts_valid_def key_valid_append application_pk_def [abs_def])
  have apps: "unit_applications v (append_facts F G) = unit_applications v F \<union> unit_applications v G"
    by (auto simp: unit_applications_def)
  have sub: "unit_applications v H \<subseteq> pa_id ` set (t_applications H)" for H
    by (auto simp: unit_applications_def)
  have "gr_application r \<notin> unit_applications v G" if "r \<in> set (t_arguments F)" for r
    using that assms(1) disj sub[of G] unfolding arguments_owned_def by blast
  then have F: "filter (\<lambda>r. gr_application r \<in> unit_applications v F \<union> unit_applications v G) (t_arguments F)
      = filter (\<lambda>r. gr_application r \<in> unit_applications v F) (t_arguments F)"
    by (intro filter_cong) auto
  have "gr_application r \<notin> unit_applications v F" if "r \<in> set (t_arguments G)" for r
    using that assms(2) disj sub[of F] unfolding arguments_owned_def by blast
  then have G: "filter (\<lambda>r. gr_application r \<in> unit_applications v F \<union> unit_applications v G) (t_arguments G)
      = filter (\<lambda>r. gr_application r \<in> unit_applications v G) (t_arguments G)"
    by (intro filter_cong) auto
  show ?thesis
    unfolding unit_facts_def apps append_facts_sel filter_append F G
    by (simp add: append_facts_def)
qed

section \<open>The write operations\<close>

lemma append_facts_no_facts [simp]: "append_facts F no_facts = F"
  by (simp add: append_facts_def no_facts_def)

lemma store_inv_append:
  assumes "store_inv F" "arguments_owned G" "units_of G \<subseteq> ur_id ` set (t_sources G)"
    "ur_id ` set (t_sources G) \<subseteq> pr_unit ` set (t_provenances G)" "facts_valid (append_facts F G)"
  shows "store_inv (append_facts F G)"
proof -
  have "units_of (append_facts F G) = units_of F \<union> units_of G"
    unfolding units_of_def append_facts_sel set_append image_Un by (simp only: Un_ac)
  moreover have "arguments_owned (append_facts F G)"
    using assms(1,2) by (auto simp: store_inv_def arguments_owned_def)
  ultimately show ?thesis
    using assms by (auto simp: store_inv_def image_Un le_supI1 le_supI2)
qed

text \<open>The body of the replacing transaction.\<close>

lemma replacement_Ok:
  assumes inv: "store_inv F" and u: "u = su_id (snap_source_unit snapshot)"
    and ins: "insert_snapshot json snapshot (delete_file_owned_facts u F) = Inr F'"
  shows "store_inv F'" "snapshot_facts json snapshot = Inr (unit_facts u F')"
    "v \<noteq> u \<Longrightarrow> unit_facts v F' = unit_facts v F"
proof -
  let ?D = "delete_file_owned_facts u F"
  have D: "store_inv ?D" using inv by (rule store_inv_delete)
  then have valid: "facts_valid ?D" and owned: "arguments_owned ?D" by (simp_all add: store_inv_def)
  from ins obtain G where G: "snapshot_facts json snapshot = Inr G" "facts_valid (append_facts ?D G)"
      "F' = append_facts ?D G"
    by (auto simp: insert_snapshot_Ok[OF valid])
  note G_owned = snapshot_facts_owned[OF G(1) u]
  have parts: "unit_facts w F' = append_facts (unit_facts w ?D) (unit_facts w G)" for w
    unfolding G(3) using owned G_owned(1) G(2) by (rule unit_facts_append)
  have "unit_facts u F' = G"
    using parts[of u] unit_facts_owned(1)[OF G_owned(1,2)] G_owned(3)
    by (simp add: unit_facts_delete_self)
  with G(1) show "snapshot_facts json snapshot = Inr (unit_facts u F')" by simp
  show "unit_facts v F' = unit_facts v F" if "v \<noteq> u"
    using parts[of v] unit_facts_owned(2)[OF G_owned(1,2) _ that] G_owned(3)
      unit_facts_delete_other[OF _ that] inv
    by (simp add: store_inv_def)
  show "store_inv F'"
    unfolding G(3) using D G_owned G(2) by (intro store_inv_append) simp_all
qed

lemma validate_snapshot_id:
  "validate_snapshot expected snapshot = Inr x \<Longrightarrow> su_id (snap_source_unit snapshot) = su_id expected"
  by (auto simp: validate_snapshot_def split: if_splits)

lemma replace_snapshot_Ok:
  "replace_snapshot json expected snapshot F = (Inr x, F') \<longleftrightarrow>
     validate_snapshot expected snapshot = Inr ()
     \<and> insert_snapshot json snapshot (delete_file_owned_facts (su_id expected) F) = Inr F'"
  by (auto simp: replace_snapshot_def transaction_Ok split: sum.splits)

lemma remove_snapshot_eq: "remove_snapshot unit F = (Inr (), delete_file_owned_facts unit F)"
  by (simp add: remove_snapshot_def transaction_def)

text \<open>
  C1. Read-after-write and isolation: when replacing a snapshot succeeds, the rows the unit owns
  are exactly those of the new snapshot, and no other unit's rows change.
\<close>

theorem replace_snapshot_is_exact:
  assumes "store_inv F" "replace_snapshot json expected snapshot F = (Ok (), F')"
  shows "snapshot_facts json snapshot = Ok (unit_facts (su_id expected) F')
    \<and> (\<forall>v. v \<noteq> su_id expected \<longrightarrow> unit_facts v F' = unit_facts v F)"
proof -
  from assms(2) have v: "validate_snapshot expected snapshot = Inr ()"
    and ins: "insert_snapshot json snapshot (delete_file_owned_facts (su_id expected) F) = Inr F'"
    by (simp_all add: replace_snapshot_Ok)
  have u: "su_id expected = su_id (snap_source_unit snapshot)"
    using validate_snapshot_id[OF v] by simp
  show ?thesis
    using replacement_Ok(2,3)[OF assms(1) u ins] by blast
qed

text \<open>Batches.\<close>

definition replace_step ::
    "(string list \<Rightarrow> string) \<Rightarrow> source_unit \<times> file_analysis_snapshot \<Rightarrow> facts \<Rightarrow> facts stored" where
  "replace_step json = (\<lambda>(expected, snapshot) F.
     insert_snapshot json snapshot (delete_file_owned_facts (su_id expected) F))"

lemma replace_snapshots_batch_Ok:
  "replace_snapshots_batch json entries F = (Inr x, F') \<longleftrightarrow>
     (\<forall>e\<in>set entries. validate_snapshot (fst e) (snd e) = Inr ())
     \<and> for_each (replace_step json) entries F = Inr F'"
proof (cases "check_all (\<lambda>(expected, snapshot). validate_snapshot expected snapshot) entries")
  case (Inl e)
  then have "\<not> (\<forall>e\<in>set entries. validate_snapshot (fst e) (snd e) = Inr ())"
    by (force dest!: check_all_Err_in)
  with Inl show ?thesis by (simp add: replace_snapshots_batch_def)
next
  case (Inr y)
  then have "\<forall>e\<in>set entries. validate_snapshot (fst e) (snd e) = Inr ()"
    by (auto simp: check_all_Ok)
  with Inr show ?thesis by (simp add: replace_snapshots_batch_def transaction_Ok replace_step_def)
qed

text \<open>The entries replaced one by one, giving up at the first failure.\<close>

fun replace_in_sequence ::
    "(string list \<Rightarrow> string) \<Rightarrow> (source_unit \<times> file_analysis_snapshot) list \<Rightarrow> facts \<Rightarrow> facts option" where
  "replace_in_sequence json [] F = Some F"
| "replace_in_sequence json ((expected, snapshot) # entries) F =
     (case replace_snapshot json expected snapshot F of
        (Inr _, F') \<Rightarrow> replace_in_sequence json entries F'
      | (Inl _, _) \<Rightarrow> None)"

lemma replace_in_sequence_Some:
  "replace_in_sequence json entries F = Some F' \<longleftrightarrow>
     (\<forall>e\<in>set entries. validate_snapshot (fst e) (snd e) = Inr ())
     \<and> for_each (replace_step json) entries F = Inr F'"
proof (induction json entries F rule: replace_in_sequence.induct)
  case (2 json expected snapshot entries F)
  show ?case
  proof (cases "replace_snapshot json expected snapshot F")
    case (Pair r F1)
    then show ?thesis
    proof (cases r)
      case (Inl e)
      with Pair have "\<not> (validate_snapshot expected snapshot = Inr ()
          \<and> replace_step json (expected, snapshot) F = Inr F2)" for F2
        using replace_snapshot_Ok[of json expected snapshot F "()" F2] by (auto simp: replace_step_def)
      with Pair Inl show ?thesis by (auto simp: and_then_eq_Ok)
    next
      case (Inr x)
      with Pair have "validate_snapshot expected snapshot = Inr ()"
          "replace_step json (expected, snapshot) F = Inr F1"
        by (simp_all add: replace_snapshot_Ok replace_step_def)
      with Pair Inr 2 show ?thesis by simp
    qed
  qed
qed simp

lemma replace_snapshots_batch_Err:
  "replace_snapshots_batch json entries F = (Inl e, F') \<Longrightarrow> F' = F"
  by (auto simp: replace_snapshots_batch_def transaction_Err split: sum.splits)

text \<open>
  C9. A batch is all or nothing: it succeeds exactly when replacing its entries one after the
  other does, and then leaves the same tables; otherwise it leaves the tables as they were.
\<close>

theorem batch_is_atomic_sequence:
  "(fst (replace_snapshots_batch json entries F) = Ok () \<longleftrightarrow> replace_in_sequence json entries F \<noteq> None)
   \<and> snd (replace_snapshots_batch json entries F) =
      (case replace_in_sequence json entries F of Some F' \<Rightarrow> F' | None \<Rightarrow> F)"
proof (cases "replace_snapshots_batch json entries F")
  case (Pair r F')
  have iff: "replace_snapshots_batch json entries F = (Inr (), F2) \<longleftrightarrow>
      replace_in_sequence json entries F = Some F2" for F2
    by (simp add: replace_snapshots_batch_Ok replace_in_sequence_Some)
  show ?thesis
  proof (cases r)
    case (Inl e)
    with Pair iff have "replace_in_sequence json entries F = None" by (metis Inr_not_Inl not_None_eq prod.inject)
    with Pair Inl replace_snapshots_batch_Err[of json entries F e F'] show ?thesis by simp
  next
    case (Inr x)
    with Pair iff[of F'] show ?thesis by simp
  qed
qed

lemma for_each_inv:
  assumes "for_each f xs s = Inr s'" "P s" "\<And>x s s'. x \<in> set xs \<Longrightarrow> P s \<Longrightarrow> f x s = Inr s' \<Longrightarrow> P s'"
  shows "P s'"
  using assms by (induction xs arbitrary: s) (auto simp: and_then_eq_Ok)

section \<open>The store as a map\<close>

text \<open>
  The abstract store keeps the last snapshot published for each unit. An operation of the store
  that reports success updates it; one that fails leaves it alone.
\<close>

datatype store_operation =
  OpReplace source_unit file_analysis_snapshot
| OpReplaceBatch "(source_unit \<times> file_analysis_snapshot) list"
| OpRemove source_unit_id

fun run_operation :: "(string list \<Rightarrow> string) \<Rightarrow> store_operation \<Rightarrow> facts \<Rightarrow> unit stored \<times> facts" where
  "run_operation json (OpReplace expected snapshot) F = replace_snapshot json expected snapshot F"
| "run_operation json (OpReplaceBatch entries) F = replace_snapshots_batch json entries F"
| "run_operation json (OpRemove u) F = remove_snapshot u F"

type_synonym abstract_store = "source_unit_id \<Rightarrow> file_analysis_snapshot option"

definition publish :: "source_unit \<times> file_analysis_snapshot \<Rightarrow> abstract_store \<Rightarrow> abstract_store" where
  "publish entry A = A(su_id (fst entry) \<mapsto> snd entry)"

fun abstract_operation :: "store_operation \<Rightarrow> abstract_store \<Rightarrow> abstract_store" where
  "abstract_operation (OpReplace expected snapshot) A = publish (expected, snapshot) A"
| "abstract_operation (OpReplaceBatch entries) A = fold publish entries A"
| "abstract_operation (OpRemove u) A = A(u := None)"

fun run_operations ::
    "(string list \<Rightarrow> string) \<Rightarrow> store_operation list \<Rightarrow> facts \<times> abstract_store \<Rightarrow> facts \<times> abstract_store" where
  "run_operations json [] (F, A) = (F, A)"
| "run_operations json (op # ops) (F, A) =
     (case run_operation json op F of
        (Inr _, F') \<Rightarrow> run_operations json ops (F', abstract_operation op A)
      | (Inl _, F') \<Rightarrow> run_operations json ops (F', A))"

fun holds :: "(string list \<Rightarrow> string) \<Rightarrow> source_unit_id \<Rightarrow> file_analysis_snapshot option \<Rightarrow> facts \<Rightarrow> bool" where
  "holds json u None rows = (rows = no_facts)"
| "holds json u (Some snapshot) rows =
     (su_id (snap_source_unit snapshot) = u \<and> snapshot_facts json snapshot = Ok rows
      \<and> validate_snapshot (snap_source_unit snapshot) snapshot = Ok ())"

definition represents :: "(string list \<Rightarrow> string) \<Rightarrow> facts \<Rightarrow> abstract_store \<Rightarrow> bool" where
  "represents json F A \<longleftrightarrow> store_inv F \<and> (\<forall>u. holds json u (A u) (unit_facts u F))"

lemma validate_snapshot_self:
  "validate_snapshot expected snapshot = Inr x \<Longrightarrow>
     validate_snapshot (snap_source_unit snapshot) snapshot = Inr ()"
  by (auto simp: validate_snapshot_def split: if_splits)

lemma represents_replace:
  assumes "represents json F A" "validate_snapshot expected snapshot = Inr ()"
    "replace_step json (expected, snapshot) F = Inr F'"
  shows "represents json F' (publish (expected, snapshot) A)"
proof -
  have u: "su_id expected = su_id (snap_source_unit snapshot)"
    using validate_snapshot_id[OF assms(2)] by simp
  have inv: "store_inv F" using assms(1) by (simp add: represents_def)
  have ins: "insert_snapshot json snapshot (delete_file_owned_facts (su_id expected) F) = Inr F'"
    using assms(3) by (simp add: replace_step_def)
  show ?thesis
    using assms(1) replacement_Ok[OF inv u ins] u validate_snapshot_self[OF assms(2)]
    by (simp add: represents_def publish_def)
qed

lemma represents_batch:
  assumes "represents json F A" "\<forall>e\<in>set entries. validate_snapshot (fst e) (snd e) = Inr ()"
    "for_each (replace_step json) entries F = Inr F'"
  shows "represents json F' (fold publish entries A)"
  using assms
proof (induction entries arbitrary: F A)
  case (Cons e entries)
  then obtain expected snapshot where e: "e = (expected, snapshot)" by (cases e)
  from Cons.prems(3) obtain F1 where "replace_step json e F = Inr F1"
      "for_each (replace_step json) entries F1 = Inr F'"
    by (auto simp: and_then_eq_Ok)
  moreover from this have "represents json F1 (publish e A)"
    using Cons.prems(1,2) unfolding e by (intro represents_replace) simp_all
  ultimately show ?case
    using Cons.IH Cons.prems(2) by (simp add: e)
qed simp

lemma represents_remove:
  assumes "represents json F A"
  shows "represents json (delete_file_owned_facts u F) (A(u := None))"
proof -
  have "facts_valid F" using assms by (simp add: represents_def store_inv_def)
  then have "unit_facts v (delete_file_owned_facts u F) = unit_facts v F" if "v \<noteq> u" for v
    using that by (rule unit_facts_delete_other)
  with assms show ?thesis
    by (simp add: represents_def store_inv_delete unit_facts_delete_self)
qed

lemma represents_operation:
  assumes "represents json F A"
  shows "run_operation json op F = (Inr x, F') \<Longrightarrow> represents json F' (abstract_operation op A)"
    and "run_operation json op F = (Inl e, F') \<Longrightarrow> F' = F"
proof -
  show "represents json F' (abstract_operation op A)" if "run_operation json op F = (Inr x, F')"
  proof (cases op)
    case (OpReplace expected snapshot)
    then show ?thesis
      using that assms by (auto simp: replace_snapshot_Ok replace_step_def intro!: represents_replace)
  next
    case (OpReplaceBatch entries)
    then show ?thesis
      using that assms by (auto simp: replace_snapshots_batch_Ok intro!: represents_batch)
  next
    case (OpRemove u)
    then show ?thesis
      using that assms by (auto simp: remove_snapshot_eq intro!: represents_remove)
  qed
  show "F' = F" if "run_operation json op F = (Inl e, F')"
    using that
    by (cases op) (auto simp: replace_snapshot_def replace_snapshots_batch_def remove_snapshot_eq
        transaction_Err split: sum.splits)
qed

lemma replace_snapshot_Err: "replace_snapshot json expected snapshot F = (Inl e, F') \<Longrightarrow> F' = F"
  by (auto simp: replace_snapshot_def transaction_Err split: sum.splits)

lemma represents_empty: "represents json no_facts Map.empty"
  by (simp add: represents_def unit_facts_def no_facts_def unit_applications_def
      store_inv_def facts_valid_def arguments_owned_def units_of_def)

lemma run_operations_represents:
  "represents json F A \<Longrightarrow>
     represents json (fst (run_operations json ops (F, A))) (snd (run_operations json ops (F, A)))"
proof (induction ops arbitrary: F A)
  case (Cons op ops)
  obtain r F' where r: "run_operation json op F = (r, F')" by (cases "run_operation json op F")
  then show ?case
    using Cons represents_operation[OF Cons.prems, of op]
    by (cases r) auto
qed simp

text \<open>The tables and the abstract store after a sequence of operations on an empty store.\<close>

definition published :: "(string list \<Rightarrow> string) \<Rightarrow> store_operation list \<Rightarrow> facts \<times> abstract_store" where
  "published json ops = run_operations json ops (no_facts, Map.empty)"

lemma represents_published: "represents json (fst (published json ops)) (snd (published json ops))"
  unfolding published_def by (rule run_operations_represents) (rule represents_empty)

text \<open>
  C2. The store implements the map from unit to last published snapshot: after any sequence of
  replacements, batches and removals, succeeding or failing, from the empty store, the invariant
  of the tables holds, a unit's rows are those of the last snapshot published for it, which
  passed validation, and a unit without one owns no rows.
\<close>

theorem store_implements_snapshot_map:
  "store_inv (fst (published json ops))
   \<and> holds json u (snd (published json ops) u) (unit_facts u (fst (published json ops)))"
  using represents_published[of json ops] by (simp add: represents_def)

text \<open>
  C22. When replacing succeeds, after any history: exactly when the snapshot validates against the expected unit,
  every byte offset fits SQLite's integers, and its rows violate no primary key of the facts the other units own.
  When it succeeds the tables hold exactly those facts with the snapshot's rows appended; when it fails the
  transaction is rolled back and every table is as before, the rows of the replaced snapshot included.
\<close>

theorem replace_snapshot_succeeds_iff:
  "(fst (replace_snapshot json expected snapshot (fst (published json ops))) = Ok () \<longleftrightarrow>
      validate_snapshot expected snapshot = Ok ()
      \<and> (\<exists>G. snapshot_facts json snapshot = Ok G
            \<and> facts_valid (append_facts
                  (delete_file_owned_facts (su_id expected) (fst (published json ops))) G)))
   \<and> (case replace_snapshot json expected snapshot (fst (published json ops)) of
        (Inr _, F') \<Rightarrow> (\<exists>G. snapshot_facts json snapshot = Ok G
           \<and> F' = append_facts (delete_file_owned_facts (su_id expected) (fst (published json ops))) G)
      | (Inl _, F') \<Rightarrow> F' = fst (published json ops))"
proof -
  let ?F = "fst (published json ops)"
  have "store_inv ?F" using represents_published[of json ops] by (simp add: represents_def)
  then have valid: "facts_valid (delete_file_owned_facts (su_id expected) ?F)"
    using store_inv_delete by (simp add: store_inv_def)
  obtain r F' where run: "replace_snapshot json expected snapshot ?F = (r, F')" by force
  have success: "(\<exists>x F'. replace_snapshot json expected snapshot ?F = (Inr x, F')) \<longleftrightarrow>
      validate_snapshot expected snapshot = Ok ()
      \<and> (\<exists>G. snapshot_facts json snapshot = Ok G \<and> facts_valid (append_facts (delete_file_owned_facts (su_id expected) ?F) G))"
    by (auto simp: replace_snapshot_Ok insert_snapshot_Ok[OF valid])
  show ?thesis
  proof (cases r)
    case (Inl e)
    then show ?thesis using run success replace_snapshot_Err[of json expected snapshot ?F e F'] by simp
  next
    case (Inr u)
    then have "\<exists>G. snapshot_facts json snapshot = Ok G \<and> F' = append_facts (delete_file_owned_facts (su_id expected) ?F) G"
      using run by (auto simp: replace_snapshot_Ok insert_snapshot_Ok[OF valid])
    then show ?thesis using run success Inr by simp
  qed
qed

section \<open>The theorems on concrete inputs\<close>

definition sample_store :: facts where
  "sample_store = snd (replace_snapshot concat (sample_unit ''a'' ''1'')
     (sample_snapshot ''a'' ''1'' [sample_symbol ''a'' ''f'' ''first'']) no_facts)"

lemma sample_store_inv: "store_inv sample_store"
proof -
  have "replace_snapshot concat (sample_unit ''a'' ''1'')
      (sample_snapshot ''a'' ''1'' [sample_symbol ''a'' ''f'' ''first'']) no_facts = (Inr (), sample_store)"
    unfolding sample_store_def by code_simp
  then have "insert_snapshot concat (sample_snapshot ''a'' ''1'' [sample_symbol ''a'' ''f'' ''first''])
      (delete_file_owned_facts (SourceUnitId ''a'') no_facts) = Inr sample_store"
    by (simp add: replace_snapshot_Ok)
  then show ?thesis
    by (rule replacement_Ok(1)[OF no_facts_inv, rotated]) (simp add: sample_snapshot_def)
qed

lemma replace_snapshot_is_exact_witness:
  "snapshot_facts concat (sample_snapshot ''b'' ''1'' [sample_symbol ''b'' ''g'' ''second''])
      = Ok (unit_facts (SourceUnitId ''b'') (snd (replace_snapshot concat (sample_unit ''b'' ''1'')
          (sample_snapshot ''b'' ''1'' [sample_symbol ''b'' ''g'' ''second'']) sample_store)))
    \<and> unit_facts (SourceUnitId ''a'') (snd (replace_snapshot concat (sample_unit ''b'' ''1'')
          (sample_snapshot ''b'' ''1'' [sample_symbol ''b'' ''g'' ''second'']) sample_store))
      = unit_facts (SourceUnitId ''a'') sample_store"
proof -
  let ?r = "replace_snapshot concat (sample_unit ''b'' ''1'')
      (sample_snapshot ''b'' ''1'' [sample_symbol ''b'' ''g'' ''second'']) sample_store"
  have "fst ?r = Inr ()" unfolding sample_store_def by code_simp
  then have "?r = (Inr (), snd ?r)" by (metis prod.collapse)
  from replace_snapshot_is_exact[OF sample_store_inv this] show ?thesis by simp
qed

end
