(* ===== verification/Store_Reads.thy ===== *)
theory Store_Reads
  imports Store_Snapshots Freshness
begin

text \<open>
  The read path of \<open>crates/kide-core/src/store.rs\<close>. A \<open>SELECT ... ORDER BY\<close> is a filter of the
  table followed by a stable sort on the ordering columns; a join pairs every row with the
  matching rows of the other table.
\<close>

section \<open>Source units\<close>

definition stored_source_unit :: "source_unit_id \<Rightarrow> facts \<Rightarrow> source_unit option" where
  "stored_source_unit u F = map_option ur_source_unit (find (\<lambda>r. ur_id r = u) (t_sources F))"

definition stored_source_units :: "facts \<Rightarrow> source_unit list" where
  "stored_source_units F = map ur_source_unit (sort_key ur_id (t_sources F))"

definition source_snapshot_inputs :: "facts \<Rightarrow> source_snapshot_input list" where
  "source_snapshot_inputs F =
     map (\<lambda>r. \<lparr> ssi_id = ur_id r, ssi_content = ur_content r \<rparr>) (sort_key ur_id (t_sources F))"

definition source_units_at_path :: "workspace_path \<Rightarrow> facts \<Rightarrow> source_unit list" where
  "source_units_at_path p F =
     map ur_source_unit (sort_key ur_id (filter (\<lambda>r. ur_path r = p) (t_sources F)))"

text \<open>
  The column is nullable, and \<open>NULL\<close> in the rows a store of the first schema version had before its upgrade; reading it as
  a blob fails.
\<close>

definition provenance_column :: "source_row \<Rightarrow> provenance stored" where
  "provenance_column r = ok_or SqliteColumnType (ur_provenance r)"

definition stored_analysis_inputs :: "facts \<Rightarrow> analysis_input list stored" where
  "stored_analysis_inputs F =
     collect_results (\<lambda>r. and_then (provenance_column r) (\<lambda>p.
       Ok \<lparr> ai_source_unit = ur_source_unit r, ai_provenance = p,
            ai_public_api_fingerprint = ur_public_api r \<rparr>)) (sort_key ur_id (t_sources F))"

lemma null_provenance_is_unreadable:
  assumes "r \<in> set (t_sources F)" "ur_provenance r = None"
  shows "stored_analysis_inputs F = Err SqliteColumnType"
proof -
  let ?f = "\<lambda>r. and_then (provenance_column r) (\<lambda>p. Ok \<lparr> ai_source_unit = ur_source_unit r, ai_provenance = p,
      ai_public_api_fingerprint = ur_public_api r \<rparr> :: analysis_input stored)"
  have "collect_results ?f rs = Inl SqliteColumnType" if "r \<in> set rs" for rs
    using that assms(2) by (induction rs) (auto simp: provenance_column_def ok_or_def split: option.split)
  then show ?thesis using assms(1) by (simp add: stored_analysis_inputs_def)
qed

text \<open>\<open>SELECT DISTINCT\<close> without an order: the model lists the values in insertion order.\<close>

definition analysis_provenance :: "facts \<Rightarrow> provenance list" where
  "analysis_provenance F = remdups (map pr_provenance (t_provenances F))"

section \<open>Symbols\<close>

definition joined_symbols :: "facts \<Rightarrow> (symbol_row \<times> source_row) list" where
  "joined_symbols F =
     concat (map (\<lambda>y. map (Pair y) (filter (\<lambda>s. ur_id s = yr_unit y) (t_sources F))) (t_symbols F))"

definition decode_symbol :: "symbol_row \<times> source_row \<Rightarrow> symbol_record stored" where
  "decode_symbol = (\<lambda>(y, s).
     and_then (provenance_column s) (\<lambda>p.
     and_then (decode_stored_symbol (yr_blob y)) (\<lambda>r.
     Ok (into_symbol r (yr_id y) (yr_name y) (ur_source_unit s) p))))"

text \<open>All rows are fetched before the first one is decoded.\<close>

definition decode_symbols :: "(symbol_row \<times> source_row) list \<Rightarrow> symbol_record list stored" where
  "decode_symbols rows =
     and_then (collect_results (\<lambda>(y, s). provenance_column s) rows) (\<lambda>_. collect_results decode_symbol rows)"

lemma decode_symbol_column: "decode_symbol (y, s) = Inr r \<Longrightarrow> \<exists>p. provenance_column s = Inr p"
  by (auto simp: decode_symbol_def and_then_eq_Ok)

lemma decode_symbols_Ok: "decode_symbols rows = Inr rs \<longleftrightarrow> collect_results decode_symbol rows = Inr rs"
proof
  assume ok: "collect_results decode_symbol rows = Inr rs"
  have "\<exists>p. provenance_column (snd x) = Inr p" if "x \<in> set rows" for x
    using collect_results_has[OF ok that] decode_symbol_column[of "fst x" "snd x"] by auto
  then obtain ps where "collect_results (\<lambda>(y, s). provenance_column s) rows = Inr ps"
    using collect_results_total[of rows "\<lambda>(y, s). provenance_column s" "\<lambda>x. projr (provenance_column (snd x))"]
    by (fastforce simp: case_prod_unfold)
  then show "decode_symbols rows = Inr rs" using ok by (simp add: decode_symbols_def)
qed (auto simp: decode_symbols_def and_then_eq_Ok)

definition symbol_order :: "symbol_row \<times> source_row \<Rightarrow> source_unit_id \<times> i64 \<times> symbol_id" where
  "symbol_order = (\<lambda>(y, s). (yr_unit y, yr_start y, yr_id y))"

definition symbols_named :: "string \<Rightarrow> facts \<Rightarrow> symbol_record list stored" where
  "symbols_named name F =
     decode_symbols
       (sort_key symbol_order (filter (\<lambda>(y, s). yr_name y = name) (joined_symbols F)))"

text \<open>
  SQLite's \<open>lower\<close> and \<open>LIKE\<close>: ASCII letters are folded, \<open>%\<close> matches any sequence of characters
  and \<open>_\<close> any single one. The query text is not escaped.
\<close>

definition sqlite_lower :: "string \<Rightarrow> string" where
  "sqlite_lower = map (\<lambda>c. if 65 \<le> byte c \<and> byte c \<le> 90 then char_of (byte c + 32) else c)"

definition drop_char :: "string \<Rightarrow> string" where
  "drop_char s = dropWhile is_cont (tl s)"

lemma length_drop_char: "s \<noteq> [] \<Longrightarrow> length (drop_char s) < length s"
  by (cases s) (auto simp: drop_char_def le_imp_less_Suc length_dropWhile_le)

function sqlite_like :: "string \<Rightarrow> string \<Rightarrow> bool" where
  "sqlite_like [] s = (s = [])"
| "sqlite_like (p # ps) s =
     (if s = [] then p = CHR ''%'' \<and> sqlite_like ps s
      else if p = CHR ''%'' then sqlite_like ps s \<or> sqlite_like (p # ps) (drop_char s)
      else if p = CHR ''_'' then sqlite_like ps (drop_char s)
      else sqlite_lower [hd s] = sqlite_lower [p] \<and> sqlite_like ps (tl s))"
  by pat_completeness auto
termination
  by (relation "measure (\<lambda>(p, s). length p + length s)")
    (auto dest: length_drop_char)

definition symbols_matching_name :: "string \<Rightarrow> facts \<Rightarrow> symbol_record list stored" where
  "symbols_matching_name query F =
     decode_symbols
       (sort_key symbol_order
         (filter (\<lambda>(y, s). sqlite_like (''%'' @ sqlite_lower query @ ''%'') (sqlite_lower (yr_name y)))
           (joined_symbols F)))"

definition symbols_for_source :: "source_unit_id \<Rightarrow> facts \<Rightarrow> symbol_record list stored" where
  "symbols_for_source u F =
     decode_symbols
       (sort_key (\<lambda>(y, s). (yr_start y, yr_id y)) (filter (\<lambda>(y, s). yr_unit y = u) (joined_symbols F)))"

definition stored_symbol_by_id :: "symbol_id \<Rightarrow> facts \<Rightarrow> symbol_record option stored" where
  "stored_symbol_by_id key F =
     (case find (\<lambda>(y, s). yr_id y = key) (joined_symbols F) of
        None \<Rightarrow> Ok None
      | Some row \<Rightarrow> and_then (decode_symbol row) (\<lambda>r. Ok (Some r)))"

definition symbols_with_applied_symbol :: "symbol_id \<Rightarrow> facts \<Rightarrow> symbol_record list stored" where
  "symbols_with_applied_symbol annotation F =
     decode_symbols
       (sort_key symbol_order
         (concat (map (\<lambda>a. filter (\<lambda>(y, s). yr_id y = ar_symbol a) (joined_symbols F))
           (filter (\<lambda>a. ar_annotation a = annotation) (t_annotations F)))))"

text \<open>The \<open>EXISTS\<close> sub-query: an application of the outer target on the owner with the argument.\<close>

definition owner_application_matches ::
    "symbol_id \<Rightarrow> symbol_id \<Rightarrow> string \<Rightarrow> string \<Rightarrow> string \<Rightarrow> facts \<Rightarrow> bool" where
  "owner_application_matches owner outer_target name kind v F =
     (\<exists>a\<in>set (t_applications F). pa_subject a = owner \<and> pa_target a = outer_target
        \<and> (\<exists>g\<in>set (t_arguments F). gr_application g = pa_id a \<and> gr_name g = Some name
              \<and> gr_kind g = kind \<and> gr_value g = v))"

definition symbols_with_nested_application_argument ::
    "(string list \<Rightarrow> string) \<Rightarrow> symbol_id \<Rightarrow> symbol_id \<Rightarrow> string \<Rightarrow> application_value \<Rightarrow> facts
     \<Rightarrow> symbol_record list stored" where
  "symbols_with_nested_application_argument json nested_target outer_target argument_name argument_value F =
     (case application_value_columns json argument_value of (kind, v) \<Rightarrow>
       and_then (decode_symbols
         (sort_key symbol_order (remdups
           (concat (map (\<lambda>a. filter (\<lambda>(y, s). yr_id y = pa_subject a) (joined_symbols F))
             (filter (\<lambda>a. pa_target a = nested_target) (t_applications F))))))) (\<lambda>records.
       Ok (filter (\<lambda>r. case sym_owner r of
             None \<Rightarrow> False
           | Some owner \<Rightarrow> owner_application_matches owner outer_target argument_name kind v F)
         records)))"

section \<open>Occurrences and edges\<close>

definition occurrences_at :: "source_unit_id \<Rightarrow> u64 \<Rightarrow> facts \<Rightarrow> source_occurrence list stored" where
  "occurrences_at u byte_offset F =
     and_then (sqlite_offset byte_offset) (\<lambda>offset.
     Ok (map or_record (sort_key (\<lambda>r. (- or_start r, or_end r))
       (filter (\<lambda>r. or_unit r = u \<and> or_start r \<le> offset \<and> or_end r > offset) (t_occurrences F)))))"

definition references_to :: "symbol_id \<Rightarrow> facts \<Rightarrow> reference_edge list" where
  "references_to target F =
     map er_record (sort_key (\<lambda>r. (er_unit r, er_start r))
       (filter (\<lambda>r. er_target r = target) (t_references F)))"

definition calls_to :: "symbol_id \<Rightarrow> facts \<Rightarrow> call_edge list" where
  "calls_to target F =
     map er_record (sort_key (\<lambda>r. (er_unit r, er_start r))
       (filter (\<lambda>r. er_target r = target) (t_calls F)))"

definition implementations_of :: "symbol_id \<Rightarrow> facts \<Rightarrow> hierarchy_edge list" where
  "implementations_of supertype F =
     map hr_record (sort_key (\<lambda>r. (hr_unit r, hr_subtype r))
       (filter (\<lambda>r. hr_supertype r = supertype) (t_hierarchy F)))"

definition types_for :: "source_unit_id \<Rightarrow> facts \<Rightarrow> type_record list" where
  "types_for u F = map tr_record (sort_key tr_id (filter (\<lambda>r. tr_unit r = u) (t_types F)))"

definition diagnostics_for :: "source_unit_id \<Rightarrow> facts \<Rightarrow> diagnostic_record list" where
  "diagnostics_for u F =
     map dr_record (sort_key (\<lambda>r. (dr_start r, dr_end r, dr_severity r))
       (filter (\<lambda>r. dr_unit r = u) (t_diagnostics F)))"

section \<open>The transitive hierarchy\<close>

type_synonym traversal = "symbol_id list \<times> symbol_id set \<times> hierarchy_edge list"

fun visit_edges :: "hierarchy_edge list \<Rightarrow> traversal \<Rightarrow> traversal" where
  "visit_edges [] t = t"
| "visit_edges (e # es) (pending, visited, result) =
     (if hier_subtype e \<in> visited then visit_edges es (pending, visited, result)
      else visit_edges es (pending @ [hier_subtype e], insert (hier_subtype e) visited, result @ [e]))"

text \<open>Every subtype the table of edges mentions: what a traversal can still visit.\<close>

definition subtypes :: "facts \<Rightarrow> symbol_id set" where
  "subtypes F = (\<lambda>r. hier_subtype (hr_record r)) ` set (t_hierarchy F)"

lemma finite_subtypes [simp]: "finite (subtypes F)"
  by (simp add: subtypes_def)

lemma visit_edges_measure:
  assumes "visit_edges es (pending, visited, result) = (pending', visited', result')"
    and "hier_subtype ` set es \<subseteq> S" and "finite S"
  shows "card (S - visited') + length pending' = card (S - visited) + length pending"
  using assms
proof (induction es arbitrary: pending visited result)
  case (Cons e es)
  show ?case
  proof (cases "hier_subtype e \<in> visited")
    case True
    with Cons show ?thesis by simp
  next
    case False
    have "hier_subtype e \<in> S - visited" using Cons.prems False by simp
    with Cons.prems(3) have "Suc (card (S - visited - {hier_subtype e})) = card (S - visited)"
      by (intro card_Suc_Diff1) simp_all
    then have "card (S - visited) = Suc (card (S - insert (hier_subtype e) visited))"
      by (simp only: Diff_insert[of S "hier_subtype e" visited])
    with Cons False show ?thesis by simp
  qed
qed simp

lemma implementations_of_subtypes: "hier_subtype ` set (implementations_of s F) \<subseteq> subtypes F"
  by (auto simp: implementations_of_def subtypes_def)

function traverse :: "facts \<Rightarrow> traversal \<Rightarrow> hierarchy_edge list" where
  "traverse F ([], visited, result) = result"
| "traverse F (supertype # pending, visited, result) =
     traverse F (visit_edges (implementations_of supertype F) (pending, visited, result))"
  by pat_completeness auto
termination
proof (relation "measure (\<lambda>(F, pending, visited, result). card (subtypes F - visited) + length pending)")
  show "((F, visit_edges (implementations_of supertype F) (pending, visited, result)),
      F, supertype # pending, visited, result)
    \<in> measure (\<lambda>(F, pending, visited, result). card (subtypes F - visited) + length pending)"
    for F supertype pending visited result
    using visit_edges_measure[OF _ implementations_of_subtypes finite_subtypes,
        of supertype F pending visited result]
    by (cases "visit_edges (implementations_of supertype F) (pending, visited, result)") auto
qed simp

definition implementations_of_transitive :: "symbol_id \<Rightarrow> facts \<Rightarrow> hierarchy_edge list" where
  "implementations_of_transitive s F = traverse F ([s], {s}, [])"

section \<open>Dependents\<close>

definition dependents_of_symbol :: "facts \<Rightarrow> symbol_record \<Rightarrow> source_unit_id list stored" where
  "dependents_of_symbol F symbol =
     and_then (collect_results (\<lambda>e. stored_symbol_by_id (hier_subtype e) F)
        (implementations_of (sym_id symbol) F)) (\<lambda>found.
     Ok (map (\<lambda>e. sr_unit (occ_range (ref_source e))) (references_to (sym_id symbol) F)
         @ map (\<lambda>e. sr_unit (occ_range (call_source e))) (calls_to (sym_id symbol) F)
         @ map (\<lambda>s. sr_unit (sym_declaration s)) (List.map_filter (\<lambda>s. s) found)))"

definition dependent_source_units :: "source_unit_id \<Rightarrow> facts \<Rightarrow> source_unit_id list stored" where
  "dependent_source_units source F =
     and_then (symbols_for_source source F) (\<lambda>symbols.
     and_then (collect_results (dependents_of_symbol F) symbols) (\<lambda>ids.
     Ok (sort_dedup (filter (\<lambda>u. u \<noteq> source) (concat ids)))))"

declare sqlite_like.simps [simp del]

section \<open>The traversal reaches every implementation once\<close>

definition hierarchy_relation :: "facts \<Rightarrow> (symbol_id \<times> symbol_id) set" where
  "hierarchy_relation F = (\<lambda>r. (hr_supertype r, hier_subtype (hr_record r))) ` set (t_hierarchy F)"

lemma set_implementations_of:
  "set (implementations_of s F) = hr_record ` {r \<in> set (t_hierarchy F). hr_supertype r = s}"
  by (simp add: implementations_of_def)

lemma implementations_of_relation:
  "hier_subtype ` set (implementations_of s F) = hierarchy_relation F `` {s}"
  by (auto simp: set_implementations_of hierarchy_relation_def)

lemma visit_edges_result:
  "\<exists>new. visit_edges es (pending, visited, result) =
       (pending @ map hier_subtype new, visited \<union> hier_subtype ` set es, result @ new)
     \<and> distinct (map hier_subtype new) \<and> hier_subtype ` set new = hier_subtype ` set es - visited
     \<and> set new \<subseteq> set es"
proof (induction es arbitrary: pending visited result)
  case (Cons e es)
  show ?case
  proof (cases "hier_subtype e \<in> visited")
    case True
    from Cons[of pending visited result] obtain new where
      "visit_edges es (pending, visited, result) =
         (pending @ map hier_subtype new, visited \<union> hier_subtype ` set es, result @ new)"
      "distinct (map hier_subtype new)" "hier_subtype ` set new = hier_subtype ` set es - visited"
      "set new \<subseteq> set es"
      by blast
    with True show ?thesis by (intro exI[of _ new]) auto
  next
    case False
    from Cons[of "pending @ [hier_subtype e]" "insert (hier_subtype e) visited" "result @ [e]"]
    obtain new where
      "visit_edges es (pending @ [hier_subtype e], insert (hier_subtype e) visited, result @ [e]) =
         (pending @ map hier_subtype (e # new), visited \<union> hier_subtype ` set (e # es), result @ e # new)"
      "distinct (map hier_subtype new)"
      "hier_subtype ` set new = hier_subtype ` set es - insert (hier_subtype e) visited"
      "set new \<subseteq> set es"
      by auto
    with False show ?thesis by (intro exI[of _ "e # new"]) auto
  qed
qed auto

text \<open>
  The invariant of the traversal from \<open>s\<close>: what was visited is \<open>s\<close> and the reported subtypes, each
  reported once; everything visited is reachable; the successors of a visited symbol that is not
  pending were visited.
\<close>

definition traversal_inv :: "facts \<Rightarrow> symbol_id \<Rightarrow> traversal \<Rightarrow> bool" where
  "traversal_inv F s = (\<lambda>(pending, visited, result).
     set pending \<subseteq> visited \<and> visited = insert s (hier_subtype ` set result)
     \<and> distinct (map hier_subtype result) \<and> s \<notin> hier_subtype ` set result
     \<and> visited \<subseteq> (hierarchy_relation F)\<^sup>* `` {s}
     \<and> (\<forall>x\<in>visited - set pending. hierarchy_relation F `` {x} \<subseteq> visited)
     \<and> set result \<subseteq> hr_record ` set (t_hierarchy F))"

lemma traversal_inv_start: "traversal_inv F s ([s], {s}, [])"
  by (simp add: traversal_inv_def)

lemma traversal_inv_step:
  assumes inv: "traversal_inv F s (t # pending, visited, result)"
  shows "traversal_inv F s (visit_edges (implementations_of t F) (pending, visited, result))"
proof -
  let ?R = "hierarchy_relation F"
  obtain new where new: "visit_edges (implementations_of t F) (pending, visited, result) =
        (pending @ map hier_subtype new, visited \<union> ?R `` {t}, result @ new)"
      "distinct (map hier_subtype new)" "hier_subtype ` set new = ?R `` {t} - visited"
      "set new \<subseteq> set (implementations_of t F)"
    using visit_edges_result[of "implementations_of t F" pending visited result]
    unfolding implementations_of_relation by blast
  let ?v = "visited \<union> ?R `` {t}"
  have I: "set pending \<subseteq> visited" "t \<in> visited" "visited = insert s (hier_subtype ` set result)"
      "distinct (map hier_subtype result)" "s \<notin> hier_subtype ` set result"
      "visited \<subseteq> ?R\<^sup>* `` {s}" "\<And>x. x \<in> visited \<Longrightarrow> x \<notin> set (t # pending) \<Longrightarrow> ?R `` {x} \<subseteq> visited"
      "set result \<subseteq> hr_record ` set (t_hierarchy F)"
    using inv unfolding traversal_inv_def split list.set by blast+
  have pend: "set (pending @ map hier_subtype new) = set pending \<union> (?R `` {t} - visited)"
    using new(3) by simp
  show ?thesis
    unfolding new(1) traversal_inv_def split
  proof (intro conjI)
    show "set (pending @ map hier_subtype new) \<subseteq> ?v" unfolding pend using I(1) by blast
    show "?v = insert s (hier_subtype ` set (result @ new))"
      unfolding set_append image_Un new(3) using I(3) by blast
    show "distinct (map hier_subtype (result @ new))"
      using I(3,4) new(2,3) by auto
    show "s \<notin> hier_subtype ` set (result @ new)"
      unfolding set_append image_Un new(3) using I(3,5) by blast
    show "?v \<subseteq> ?R\<^sup>* `` {s}" using I(2,6) by (auto intro: rtrancl_into_rtrancl)
    show "\<forall>x\<in>?v - set (pending @ map hier_subtype new). ?R `` {x} \<subseteq> ?v"
    proof
      fix x
      assume "x \<in> ?v - set (pending @ map hier_subtype new)"
      then have "x \<in> visited" "x \<notin> set pending" unfolding pend by blast+
      then show "?R `` {x} \<subseteq> ?v" using I(7)[of x] by (cases "x = t") auto
    qed
    show "set (result @ new) \<subseteq> hr_record ` set (t_hierarchy F)"
      using I(8) new(4) by (auto simp: set_implementations_of)
  qed
qed

lemma traverse_inv:
  "traversal_inv F s t \<Longrightarrow> \<exists>visited. traversal_inv F s ([], visited, traverse F t)"
proof (induction F t rule: traverse.induct)
  case (1 F visited result)
  then show ?case by auto
next
  case (2 F supertype pending visited result)
  then show ?case using traversal_inv_step by (simp add: case_prod_unfold)
qed

text \<open>
  C7. The transitive implementations of a symbol are exactly the symbols reachable from it
  through stored hierarchy edges, without the symbol itself even in a cyclic hierarchy; each is
  reported once, by an edge of the store.
\<close>

theorem transitive_implementations_exact:
  "distinct (map hier_subtype (implementations_of_transitive s F))
   \<and> hier_subtype ` set (implementations_of_transitive s F) = (hierarchy_relation F)\<^sup>+ `` {s} - {s}
   \<and> set (implementations_of_transitive s F) \<subseteq> hr_record ` set (t_hierarchy F)"
proof -
  let ?R = "hierarchy_relation F" and ?T = "implementations_of_transitive s F"
  obtain visited where "traversal_inv F s ([], visited, ?T)"
    using traverse_inv[OF traversal_inv_start] by (auto simp: implementations_of_transitive_def)
  then have inv: "visited = insert s (hier_subtype ` set ?T)" "distinct (map hier_subtype ?T)"
      "s \<notin> hier_subtype ` set ?T" "visited \<subseteq> ?R\<^sup>* `` {s}" "?R `` visited \<subseteq> visited"
      "set ?T \<subseteq> hr_record ` set (t_hierarchy F)"
    by (auto simp: traversal_inv_def)
  have "?R\<^sup>* `` {s} \<subseteq> ?R\<^sup>* `` visited" using inv(1) by auto
  also have "\<dots> = visited" using inv(5) by (simp add: Image_closed_trancl)
  finally have "visited = ?R\<^sup>* `` {s}" using inv(4) by blast
  then have "hier_subtype ` set ?T = ?R\<^sup>* `` {s} - {s}" using inv(1,3) by auto
  also have "\<dots> = ?R\<^sup>+ `` {s} - {s}" by (auto simp: rtrancl_eq_or_trancl)
  finally show ?thesis using inv(2,6) by blast
qed

section \<open>What the rows say about the snapshots\<close>

lemma represents_unit:
  assumes "represents json F A"
  shows "A u = None \<Longrightarrow> unit_facts u F = no_facts"
    and "A u = Some snapshot \<Longrightarrow> su_id (snap_source_unit snapshot) = u
      \<and> snapshot_facts json snapshot = Inr (unit_facts u F)
      \<and> validate_snapshot (snap_source_unit snapshot) snapshot = Inr ()"
  using assms unfolding represents_def by (metis holds.simps(1), metis holds.simps(2))

text \<open>
  A row of a table belongs to the snapshot of its unit: \<open>tab\<close> is a table of the facts, \<open>k\<close> its unit
  column, and \<open>row\<close> what its rows are computed with.
\<close>

lemma represents_rows:
  assumes rep: "represents json F A"
    and sel: "\<And>u. tab (unit_facts u F) = filter (\<lambda>r. k r = u) (tab F)" and "tab no_facts = []"
    and made: "\<And>u snapshot G. snapshot_facts json snapshot = Inr G \<Longrightarrow> su_id (snap_source_unit snapshot) = u \<Longrightarrow>
      collect_results (row u snapshot) (xs snapshot) = Inr (tab G)"
  shows "A u = Some snapshot \<Longrightarrow>
      collect_results (row u snapshot) (xs snapshot) = Inr (filter (\<lambda>r. k r = u) (tab F))"
    and "r \<in> set (tab F) \<longleftrightarrow>
      (\<exists>snapshot x. A (k r) = Some snapshot \<and> x \<in> set (xs snapshot) \<and> row (k r) snapshot x = Inr r)"
proof -
  show snap: "collect_results (row u snapshot) (xs snapshot) = Inr (filter (\<lambda>r. k r = u) (tab F))"
    if "A u = Some snapshot" for u snapshot
    using represents_unit(2)[OF rep that] made[of snapshot "unit_facts u F" u] by (simp add: sel)
  have mem: "r \<in> set (tab F) \<longleftrightarrow> r \<in> set (tab (unit_facts (k r) F))" by (simp add: sel)
  show "r \<in> set (tab F) \<longleftrightarrow>
      (\<exists>snapshot x. A (k r) = Some snapshot \<and> x \<in> set (xs snapshot) \<and> row (k r) snapshot x = Inr r)"
  proof (cases "A (k r)")
    case None
    then show ?thesis
      using represents_unit(1)[OF rep None] assms(3) by (simp add: mem)
  next
    case (Some snapshot)
    have "r \<in> set (tab F) \<longleftrightarrow> r \<in> set (filter (\<lambda>x. k x = k r) (tab F))" by simp
    also have "\<dots> \<longleftrightarrow> (\<exists>x\<in>set (xs snapshot). row (k r) snapshot x = Inr r)"
      using collect_results_mem[OF snap[OF Some]] collect_results_has[OF snap[OF Some]]
      by fastforce
    finally show ?thesis using Some by auto
  qed
qed

lemma unit_facts_sel [simp]:
  "t_sources (unit_facts u F) = filter (\<lambda>r. ur_id r = u) (t_sources F)"
  "t_symbols (unit_facts u F) = filter (\<lambda>r. yr_unit r = u) (t_symbols F)"
  "t_occurrences (unit_facts u F) = filter (\<lambda>r. or_unit r = u) (t_occurrences F)"
  "t_references (unit_facts u F) = filter (\<lambda>r. er_unit r = u) (t_references F)"
  "t_calls (unit_facts u F) = filter (\<lambda>r. er_unit r = u) (t_calls F)"
  "t_hierarchy (unit_facts u F) = filter (\<lambda>r. hr_unit r = u) (t_hierarchy F)"
  by (simp_all add: unit_facts_def)

lemma no_facts_sel [simp]:
  "t_sources no_facts = []" "t_symbols no_facts = []" "t_occurrences no_facts = []"
  "t_references no_facts = []" "t_calls no_facts = []" "t_hierarchy no_facts = []"
  by (simp_all add: no_facts_def)

lemma source_rows_of:
  assumes "represents json F A"
  shows "A u = Some snapshot \<Longrightarrow>
      collect_results (row_of_source snapshot) [()] = Inr (filter (\<lambda>r. ur_id r = u) (t_sources F))"
    and "r \<in> set (t_sources F) \<longleftrightarrow>
      (\<exists>snapshot x. A (ur_id r) = Some snapshot \<and> x \<in> set [()] \<and> row_of_source snapshot x = Inr r)"
  by (rule represents_rows[OF assms, where tab = t_sources and k = ur_id and xs = "\<lambda>_. [()]"
        and row = "\<lambda>_. row_of_source"]; simp?; erule snapshot_facts_tables; simp)+

lemma symbol_rows_of:
  assumes "represents json F A"
  shows "A u = Some snapshot \<Longrightarrow>
      collect_results (row_of_symbol u) (snap_symbols snapshot)
        = Inr (filter (\<lambda>r. yr_unit r = u) (t_symbols F))"
    and "r \<in> set (t_symbols F) \<longleftrightarrow>
      (\<exists>snapshot x. A (yr_unit r) = Some snapshot \<and> x \<in> set (snap_symbols snapshot)
         \<and> row_of_symbol (yr_unit r) x = Inr r)"
  by (rule represents_rows[OF assms, where tab = t_symbols and k = yr_unit and xs = snap_symbols
        and row = "\<lambda>u _. row_of_symbol u"]; simp?; erule snapshot_facts_tables; simp)+

lemma occurrence_rows_of:
  assumes "represents json F A"
  shows "A u = Some snapshot \<Longrightarrow>
      collect_results (row_of_occurrence u) (snap_occurrences snapshot)
        = Inr (filter (\<lambda>r. or_unit r = u) (t_occurrences F))"
    and "r \<in> set (t_occurrences F) \<longleftrightarrow>
      (\<exists>snapshot x. A (or_unit r) = Some snapshot \<and> x \<in> set (snap_occurrences snapshot)
         \<and> row_of_occurrence (or_unit r) x = Inr r)"
  by (rule represents_rows[OF assms, where tab = t_occurrences and k = or_unit and xs = snap_occurrences
        and row = "\<lambda>u _. row_of_occurrence u"]; simp?; erule snapshot_facts_tables; simp)+

lemma reference_rows_of:
  assumes "represents json F A"
  shows "A u = Some snapshot \<Longrightarrow>
      collect_results (row_of_reference u) (snap_references snapshot)
        = Inr (filter (\<lambda>r. er_unit r = u) (t_references F))"
    and "r \<in> set (t_references F) \<longleftrightarrow>
      (\<exists>snapshot x. A (er_unit r) = Some snapshot \<and> x \<in> set (snap_references snapshot)
         \<and> row_of_reference (er_unit r) x = Inr r)"
  by (rule represents_rows[OF assms, where tab = t_references and k = er_unit and xs = snap_references
        and row = "\<lambda>u _. row_of_reference u"]; simp?; erule snapshot_facts_tables; simp)+

lemma call_rows_of:
  assumes "represents json F A"
  shows "A u = Some snapshot \<Longrightarrow>
      collect_results (row_of_call u) (snap_calls snapshot)
        = Inr (filter (\<lambda>r. er_unit r = u) (t_calls F))"
    and "r \<in> set (t_calls F) \<longleftrightarrow>
      (\<exists>snapshot x. A (er_unit r) = Some snapshot \<and> x \<in> set (snap_calls snapshot)
         \<and> row_of_call (er_unit r) x = Inr r)"
  by (rule represents_rows[OF assms, where tab = t_calls and k = er_unit and xs = snap_calls
        and row = "\<lambda>u _. row_of_call u"]; simp?; erule snapshot_facts_tables; simp)+

lemma hierarchy_rows_of:
  assumes "represents json F A"
  shows "A u = Some snapshot \<Longrightarrow>
      collect_results (row_of_hierarchy u) (snap_hierarchy snapshot)
        = Inr (filter (\<lambda>r. hr_unit r = u) (t_hierarchy F))"
    and "r \<in> set (t_hierarchy F) \<longleftrightarrow>
      (\<exists>snapshot x. A (hr_unit r) = Some snapshot \<and> x \<in> set (snap_hierarchy snapshot)
         \<and> row_of_hierarchy (hr_unit r) x = Inr r)"
  by (rule represents_rows[OF assms, where tab = t_hierarchy and k = hr_unit and xs = snap_hierarchy
        and row = "\<lambda>u _. row_of_hierarchy u"]; simp?; erule snapshot_facts_tables; simp)+

section \<open>Reading symbols back\<close>

text \<open>
  What the store returns for a symbol of a snapshot: the symbol with the component of its source
  unit and the provenance of the snapshot, which the store keeps once per unit.
\<close>

definition symbol_view :: "file_analysis_snapshot \<Rightarrow> symbol_record \<Rightarrow> symbol_record" where
  "symbol_view snapshot symbol =
     symbol\<lparr> sym_component := su_component (snap_source_unit snapshot),
             sym_provenance := snap_provenance snapshot \<rparr>"

lemma validated_symbol:
  assumes "validate_snapshot expected snapshot = Inr x" "symbol \<in> set (snap_symbols snapshot)"
  shows "sr_unit (sym_declaration symbol) = su_id expected" "sr_unit (sym_name_range symbol) = su_id expected"
  using assms
  by (auto simp: validate_snapshot_def and_then_eq_Ok check_all_Ok validate_symbol_def Let_def
      ensure_fact_source_def as_str_inject split: if_splits)

lemma into_symbol_view:
  assumes "sr_unit (sym_declaration symbol) = su_id (snap_source_unit snapshot)"
    "sr_unit (sym_name_range symbol) = su_id (snap_source_unit snapshot)"
  shows "into_symbol (stored_symbol symbol) (sym_id symbol) (sym_name symbol)
      (snap_source_unit snapshot) (snap_provenance snapshot) = symbol_view snapshot symbol"
  using assms
  by (intro symbol_record.equality)
    (auto simp: into_symbol_def stored_symbol_def symbol_view_def intro!: source_range.equality)

lemma source_row_join:
  assumes "represents json F A" "A u = Some snapshot"
  obtains so where "filter (\<lambda>s. ur_id s = u) (t_sources F) = [so]"
    "ur_source_unit so = snap_source_unit snapshot" "ur_provenance so = Some (snap_provenance snapshot)"
proof -
  from source_rows_of(1)[OF assms]
  have "\<exists>so. filter (\<lambda>r. ur_id r = u) (t_sources F) = [so] \<and> row_of_source snapshot () = Inr so"
    by (auto simp: and_then_eq_Ok intro: sym)
  then obtain so where "filter (\<lambda>r. ur_id r = u) (t_sources F) = [so]" "row_of_source snapshot () = Inr so"
    by blast
  then show ?thesis using that by (auto simp: row_of_source_def Let_def)
qed

lemma decode_symbol_view:
  assumes "row_of_symbol u symbol = Inr y" "ur_source_unit so = snap_source_unit snapshot"
    "ur_provenance so = Some (snap_provenance snapshot)"
    "sr_unit (sym_declaration symbol) = su_id (snap_source_unit snapshot)"
    "sr_unit (sym_name_range symbol) = su_id (snap_source_unit snapshot)"
  shows "decode_symbol (y, so) = Inr (symbol_view snapshot symbol)"
  using assms into_symbol_view[OF assms(4,5)]
  by (auto simp: decode_symbol_def provenance_column_def ok_or_def row_of_symbol_def and_then_eq_Ok encode_stored_symbol_def)

lemma row_of_symbol_columns:
  "row_of_symbol u symbol = Inr y \<Longrightarrow> yr_id y = sym_id symbol \<and> yr_unit y = u \<and> yr_name y = sym_name symbol
     \<and> yr_start y = uint (br_start (sr_bytes (sym_name_range symbol)))"
  by (auto simp: row_of_symbol_def and_then_eq_Ok sqlite_offset_Ok)

text \<open>Every row of the join decodes to the view of a symbol of some snapshot, and conversely.\<close>

lemma joined_symbol:
  assumes rep: "represents json F A" and "(y, so) \<in> set (joined_symbols F)"
  obtains snapshot symbol where "A (yr_unit y) = Some snapshot" "symbol \<in> set (snap_symbols snapshot)"
    "sym_id symbol = yr_id y" "sym_name symbol = yr_name y"
    "yr_start y = uint (br_start (sr_bytes (sym_name_range symbol)))"
    "decode_symbol (y, so) = Inr (symbol_view snapshot symbol)"
proof -
  from assms(2) have y: "y \<in> set (t_symbols F)" "so \<in> set (t_sources F)" "ur_id so = yr_unit y"
    by (auto simp: joined_symbols_def)
  then obtain snapshot symbol where s: "A (yr_unit y) = Some snapshot" "symbol \<in> set (snap_symbols snapshot)"
      "row_of_symbol (yr_unit y) symbol = Inr y"
    using symbol_rows_of(2)[OF rep] by blast
  obtain so' where so: "filter (\<lambda>s. ur_id s = yr_unit y) (t_sources F) = [so']"
      "ur_source_unit so' = snap_source_unit snapshot" "ur_provenance so' = Some (snap_provenance snapshot)"
    by (rule source_row_join[OF rep s(1)])
  have "so \<in> set (filter (\<lambda>s. ur_id s = yr_unit y) (t_sources F))" using y by simp
  then have "so = so'" by (simp add: so(1))
  have valid: "validate_snapshot (snap_source_unit snapshot) snapshot = Inr ()"
    using represents_unit(2)[OF rep s(1)] by simp
  show ?thesis
    using that[OF s(1,2)] decode_symbol_view[OF s(3) so(2,3) validated_symbol[OF valid s(2)]] \<open>so = so'\<close>
      row_of_symbol_columns[OF s(3)]
    by simp
qed

lemma joined_symbol_exists:
  assumes rep: "represents json F A" and A: "A u = Some snapshot" and symbol: "symbol \<in> set (snap_symbols snapshot)"
  obtains y so where "(y, so) \<in> set (joined_symbols F)" "yr_unit y = u" "yr_id y = sym_id symbol"
    "decode_symbol (y, so) = Inr (symbol_view snapshot symbol)"
proof -
  obtain y where y: "y \<in> set (filter (\<lambda>r. yr_unit r = u) (t_symbols F))" "row_of_symbol u symbol = Inr y"
    using collect_results_has[OF symbol_rows_of(1)[OF rep A] symbol] by blast
  obtain so where so: "filter (\<lambda>s. ur_id s = u) (t_sources F) = [so]"
      "ur_source_unit so = snap_source_unit snapshot" "ur_provenance so = Some (snap_provenance snapshot)"
    by (rule source_row_join[OF rep A])
  have "(y, so) \<in> set (joined_symbols F)"
  proof -
    have "so \<in> set (filter (\<lambda>s. ur_id s = u) (t_sources F))" by (simp add: so(1))
    with y(1) show ?thesis by (auto simp: joined_symbols_def)
  qed
  moreover have "yr_unit y = u" "yr_id y = sym_id symbol"
    using row_of_symbol_columns[OF y(2)] by simp_all
  moreover have "validate_snapshot (snap_source_unit snapshot) snapshot = Inr ()"
    using represents_unit(2)[OF rep A] by simp
  ultimately show ?thesis
    using that decode_symbol_view[OF y(2) so(2,3)] validated_symbol[OF _ symbol] by blast
qed

lemma joined_symbol_unique:
  assumes "represents json F A" "(y, so) \<in> set (joined_symbols F)" "(y', so') \<in> set (joined_symbols F)"
    "yr_id y = yr_id y'"
  shows "(y, so) = (y', so')"
proof -
  have "inj_on yr_id (set (t_symbols F))" "inj_on ur_id (set (t_sources F))"
    using assms(1) by (simp_all add: represents_def store_inv_def facts_valid_def key_valid_def
        symbol_pk_def [abs_def] source_pk_def [abs_def] distinct_map)
  moreover have "y \<in> set (t_symbols F)" "y' \<in> set (t_symbols F)" "so \<in> set (t_sources F)"
      "so' \<in> set (t_sources F)" "ur_id so = yr_unit y" "ur_id so' = yr_unit y'"
    using assms(2,3) by (auto simp: joined_symbols_def)
  ultimately show ?thesis using assms(4) by (metis inj_onD)
qed

definition declares :: "abstract_store \<Rightarrow> symbol_id \<Rightarrow> symbol_record \<Rightarrow> bool" where
  "declares A key record \<longleftrightarrow>
     (\<exists>u snapshot symbol. A u = Some snapshot \<and> symbol \<in> set (snap_symbols snapshot)
        \<and> sym_id symbol = key \<and> record = symbol_view snapshot symbol)"

lemma declares_joined:
  assumes "represents json F A"
  shows "declares A key r \<longleftrightarrow>
    (\<exists>y so. (y, so) \<in> set (joined_symbols F) \<and> yr_id y = key \<and> decode_symbol (y, so) = Inr r)"
proof
  assume "declares A key r"
  then show "\<exists>y so. (y, so) \<in> set (joined_symbols F) \<and> yr_id y = key \<and> decode_symbol (y, so) = Inr r"
    using joined_symbol_exists[OF assms] unfolding declares_def by metis
next
  assume "\<exists>y so. (y, so) \<in> set (joined_symbols F) \<and> yr_id y = key \<and> decode_symbol (y, so) = Inr r"
  then obtain y so where y: "(y, so) \<in> set (joined_symbols F)" "yr_id y = key" "decode_symbol (y, so) = Inr r"
    by blast
  obtain snapshot symbol where "A (yr_unit y) = Some snapshot" "symbol \<in> set (snap_symbols snapshot)"
      "sym_id symbol = yr_id y" "decode_symbol (y, so) = Inr (symbol_view snapshot symbol)"
    by (rule joined_symbol[OF assms y(1)])
  with y(2,3) show "declares A key r" unfolding declares_def by auto
qed

lemma lookup_declared:
  assumes rep: "represents json F A" and "declares A key r"
  shows "stored_symbol_by_id key F = Inr (Some r)"
proof -
  obtain y so where y: "(y, so) \<in> set (joined_symbols F)" "yr_id y = key" "decode_symbol (y, so) = Inr r"
    using assms(2) declares_joined[OF rep] by blast
  then obtain row where row: "find (\<lambda>(y, s). yr_id y = key) (joined_symbols F) = Some row"
    by (cases "find (\<lambda>(y, s). yr_id y = key) (joined_symbols F)") (auto simp: find_None_iff)
  obtain y' so' where y': "row = (y', so')" by (cases row)
  have "(y', so') \<in> set (joined_symbols F)" "yr_id y' = key"
    using row by (auto simp: find_Some_iff y' in_set_conv_nth)
  then have "(y, so) = (y', so')"
    using joined_symbol_unique[OF rep y(1)] y(2) by simp
  with row y(3) y' show ?thesis by (simp add: stored_symbol_by_id_def)
qed

lemma lookup_undeclared:
  assumes rep: "represents json F A" and "\<not> (\<exists>r. declares A key r)"
  shows "stored_symbol_by_id key F = Inr None"
proof (cases "find (\<lambda>(y, s). yr_id y = key) (joined_symbols F)")
  case (Some row)
  obtain y so where row: "row = (y, so)" by (cases row)
  have y: "(y, so) \<in> set (joined_symbols F)" "yr_id y = key"
    using Some by (auto simp: find_Some_iff row in_set_conv_nth)
  obtain snapshot symbol where "decode_symbol (y, so) = Inr (symbol_view snapshot symbol)"
    by (rule joined_symbol[OF rep y(1)])
  with y assms(2) show ?thesis using declares_joined[OF rep] by blast
qed (simp add: stored_symbol_by_id_def)

text \<open>
  Looking a symbol up by its id never fails: the result is the symbol of the one snapshot
  that declares the id, in whatever unit, and nothing exactly when no snapshot declares it.
\<close>

theorem symbol_lookup_exact:
  "(stored_symbol_by_id key (fst (published json ops)) = Ok (Some record)
      \<longleftrightarrow> declares (snd (published json ops)) key record)
   \<and> (stored_symbol_by_id key (fst (published json ops)) = Ok None
      \<longleftrightarrow> \<not> (\<exists>r. declares (snd (published json ops)) key r))"
proof -
  define F A where "F = fst (published json ops)" and "A = snd (published json ops)"
  have rep: "represents json F A" unfolding F_def A_def by (rule represents_published)
  have "(stored_symbol_by_id key F = Ok (Some record) \<longleftrightarrow> declares A key record)
    \<and> (stored_symbol_by_id key F = Ok None \<longleftrightarrow> \<not> (\<exists>r. declares A key r))"
  proof (cases "\<exists>r. declares A key r")
    case True
    then obtain r where r: "declares A key r" by blast
    have "declares A key record \<longleftrightarrow> record = r"
      using r lookup_declared[OF rep] by (metis option.inject sum.inject(2))
    with r lookup_declared[OF rep r] show ?thesis by auto
  next
    case False
    with lookup_undeclared[OF rep False] show ?thesis by auto
  qed
  then show ?thesis by (simp only: F_def A_def)
qed

section \<open>Ordered selections\<close>

lemma collect_results_rows:
  assumes "collect_results f xs = Inr ys"
  shows "ys = map (\<lambda>x. projr (f x)) xs" and "x \<in> set xs \<Longrightarrow> f x = Inr (projr (f x))"
proof -
  show "ys = map (\<lambda>x. projr (f x)) xs"
    using assms by (induction xs arbitrary: ys) (auto simp: and_then_eq_Ok)
  show "f x = Inr (projr (f x))" if "x \<in> set xs"
    using collect_results_has[OF assms that] by auto
qed

text \<open>
  A selection over the rows of one snapshot is the same selection over its records, when the
  columns it uses are functions of the record.
\<close>

lemma select_rows:
  assumes "collect_results row xs = Inr rows"
    and "\<And>x r. row x = Inr r \<Longrightarrow> key r = key' x \<and> (P r \<longleftrightarrow> P' x)"
  shows "\<exists>f. sort_key key (filter P rows) = map f (sort_key key' (filter P' xs))
    \<and> (\<forall>x\<in>set xs. row x = Inr (f x))"
proof (intro exI conjI ballI)
  let ?f = "\<lambda>x. projr (row x)"
  note rows = collect_results_rows[OF assms(1)]
  have cols: "key (?f x) = key' x \<and> (P (?f x) \<longleftrightarrow> P' x)" if "x \<in> set xs" for x
    using assms(2)[OF rows(2)[OF that]] .
  have "filter P rows = map ?f (filter P' xs)"
    unfolding rows(1) filter_map comp_def using cols by (auto intro!: filter_cong map_cong)
  then have "sort_key key (filter P rows) = map ?f (sort_key (\<lambda>x. key (?f x)) (filter P' xs))"
    by (simp only: sort_key_map)
  also have "sort_key (\<lambda>x. key (?f x)) (filter P' xs) = sort_key key' (filter P' xs)"
    using cols by (intro sort_key_cong) auto
  finally show "sort_key key (filter P rows) = map ?f (sort_key key' (filter P' xs))" .
  show "row x = Inr (?f x)" if "x \<in> set xs" for x using rows(2)[OF that] .
qed

lemma joined_symbols_of_unit:
  "filter (\<lambda>(y, s). yr_unit y = u) (joined_symbols F) =
     concat (map (\<lambda>y. map (Pair y) (filter (\<lambda>s. ur_id s = u) (t_sources F)))
       (filter (\<lambda>y. yr_unit y = u) (t_symbols F)))"
proof -
  have "filter (\<lambda>(y, s). yr_unit y = u) (concat (map (\<lambda>y. map (Pair y) (S y)) Y)) =
      concat (map (\<lambda>y. map (Pair y) (S y)) (filter (\<lambda>y. yr_unit y = u) Y))"
    for S :: "symbol_row \<Rightarrow> source_row list" and Y
    by (induction Y) (auto simp: filter_map comp_def)
  from this[of "\<lambda>y. filter (\<lambda>s. ur_id s = yr_unit y) (t_sources F)" "t_symbols F"]
  have "filter (\<lambda>(y, s). yr_unit y = u) (joined_symbols F) =
      concat (map (\<lambda>y. map (Pair y) (filter (\<lambda>s. ur_id s = yr_unit y) (t_sources F)))
        (filter (\<lambda>y. yr_unit y = u) (t_symbols F)))"
    by (simp only: joined_symbols_def)
  also have "\<dots> = concat (map (\<lambda>y. map (Pair y) (filter (\<lambda>s. ur_id s = u) (t_sources F)))
       (filter (\<lambda>y. yr_unit y = u) (t_symbols F)))"
    by (intro arg_cong[where f = concat] map_cong) auto
  finally show ?thesis .
qed

text \<open>The order in which a source unit's declarations are listed.\<close>

definition declaration_order :: "symbol_record \<Rightarrow> int \<times> symbol_id" where
  "declaration_order symbol = (uint (br_start (sr_bytes (sym_name_range symbol))), sym_id symbol)"

lemma symbols_for_source_eq:
  assumes rep: "represents json F A"
  shows "symbols_for_source u F =
    Ok (case A u of None \<Rightarrow> []
        | Some snapshot \<Rightarrow> map (symbol_view snapshot) (sort_key declaration_order (snap_symbols snapshot)))"
proof (cases "A u")
  case None
  then have "unit_facts u F = no_facts" using represents_unit(1)[OF rep] by simp
  then have "t_symbols (unit_facts u F) = []" by simp
  then have "filter (\<lambda>y. yr_unit y = u) (t_symbols F) = []" by simp
  with None show ?thesis by (simp add: symbols_for_source_def joined_symbols_of_unit decode_symbols_def)
next
  case (Some snapshot)
  let ?rows = "filter (\<lambda>y. yr_unit y = u) (t_symbols F)"
  obtain so where so: "filter (\<lambda>s. ur_id s = u) (t_sources F) = [so]"
      "ur_source_unit so = snap_source_unit snapshot" "ur_provenance so = Some (snap_provenance snapshot)"
    by (rule source_row_join[OF rep Some])
  have rows: "collect_results (row_of_symbol u) (snap_symbols snapshot) = Inr ?rows"
    by (rule symbol_rows_of(1)[OF rep Some])
  obtain f where f: "sort_key (\<lambda>y. (yr_start y, yr_id y)) (filter (\<lambda>_. True) ?rows)
        = map f (sort_key declaration_order (filter (\<lambda>_. True) (snap_symbols snapshot)))"
      "\<forall>x\<in>set (snap_symbols snapshot). row_of_symbol u x = Inr (f x)"
    using select_rows[OF rows, of "\<lambda>y. (yr_start y, yr_id y)" declaration_order "\<lambda>_. True" "\<lambda>_. True"]
      row_of_symbol_columns unfolding declaration_order_def by blast
  have valid: "validate_snapshot (snap_source_unit snapshot) snapshot = Inr ()"
    using represents_unit(2)[OF rep Some] by simp
  have pairs: "filter (\<lambda>(y, s). yr_unit y = u) (joined_symbols F) = map (\<lambda>y. (y, so)) ?rows"
    by (simp add: joined_symbols_of_unit so(1))
  have "sort_key (\<lambda>(y, s). (yr_start y, yr_id y)) (map (\<lambda>y. (y, so)) ?rows)
      = map (\<lambda>x. (f x, so)) (sort_key declaration_order (snap_symbols snapshot))"
    using f(1) by (simp add: sort_key_map)
  moreover have "collect_results decode_symbol (map (\<lambda>x. (f x, so)) xs) = Inr (map (symbol_view snapshot) xs)"
    if "set xs \<subseteq> set (snap_symbols snapshot)" for xs
    unfolding collect_results_map
    by (rule collect_results_total, rule decode_symbol_view[OF _ so(2,3)])
      (use that f(2) validated_symbol[OF valid] in auto)
  ultimately show ?thesis
    by (simp add: symbols_for_source_def pairs Some decode_symbols_Ok)
qed

text \<open>
  Reading a unit's symbols returns the symbols of its last published snapshot, ordered by
  the position of their names and then by id; a unit without a snapshot has none.
\<close>

theorem symbols_for_source_exact:
  "symbols_for_source u (fst (published json ops)) =
    Ok (case snd (published json ops) u of
          None \<Rightarrow> []
        | Some snapshot \<Rightarrow> map (symbol_view snapshot) (sort_key declaration_order (snap_symbols snapshot)))"
  by (rule symbols_for_source_eq) (rule represents_published)

text \<open>Innermost first: later starts, then earlier ends.\<close>

definition innermost_order :: "source_occurrence \<Rightarrow> int \<times> int" where
  "innermost_order oc = (- uint (br_start (sr_bytes (occ_range oc))), uint (br_end (sr_bytes (occ_range oc))))"

definition holds_offset :: "u64 \<Rightarrow> source_occurrence \<Rightarrow> bool" where
  "holds_offset offset oc =
     (br_start (sr_bytes (occ_range oc)) \<le> offset \<and> offset < br_end (sr_bytes (occ_range oc)))"

lemma occurrences_at_eq:
  assumes rep: "represents json F A" and A: "A u = Some snapshot"
  shows "occurrences_at u offset F =
    (if uint offset < 2 ^ 63
     then Ok (sort_key innermost_order (filter (holds_offset offset) (snap_occurrences snapshot)))
     else Err (ByteOffsetOutOfRange offset))"
proof -
  let ?rows = "filter (\<lambda>r. or_unit r = u) (t_occurrences F)"
  let ?hit = "\<lambda>r. or_start r \<le> uint offset \<and> uint offset < or_end r"
  have rows: "collect_results (row_of_occurrence u) (snap_occurrences snapshot) = Inr ?rows"
    by (rule occurrence_rows_of(1)[OF rep A])
  have cols: "or_record r = oc \<and> or_start r = uint (br_start (sr_bytes (occ_range oc)))
      \<and> or_end r = uint (br_end (sr_bytes (occ_range oc)))" if "row_of_occurrence u oc = Inr r" for oc r
    using that by (auto simp: row_of_occurrence_def and_then_eq_Ok sqlite_offset_Ok)
  obtain f where f: "sort_key (\<lambda>r. (- or_start r, or_end r)) (filter ?hit ?rows)
      = map f (sort_key innermost_order (filter (holds_offset offset) (snap_occurrences snapshot)))"
      "\<forall>oc\<in>set (snap_occurrences snapshot). row_of_occurrence u oc = Inr (f oc)"
    using select_rows[OF rows, of "\<lambda>r. (- or_start r, or_end r)" innermost_order ?hit "holds_offset offset"]
      cols unfolding innermost_order_def holds_offset_def word_le_def word_less_def by fastforce
  have out: "map or_record (map f xs) = xs" if "set xs \<subseteq> set (snap_occurrences snapshot)" for xs
    using that f(2) cols by (auto intro!: map_idI simp: subset_iff)
  show ?thesis
  proof (cases "uint offset < 2 ^ 63")
    case True
    have "filter (\<lambda>r. or_unit r = u \<and> or_start r \<le> uint offset \<and> or_end r > uint offset) (t_occurrences F)
        = filter ?hit ?rows"
      by (simp add: conj_ac)
    then have "occurrences_at u offset F = Inr (map or_record (map f
        (sort_key innermost_order (filter (holds_offset offset) (snap_occurrences snapshot)))))"
      using True by (simp only: occurrences_at_def sqlite_offset_def if_True and_then_Ok f(1))
    moreover have "set (sort_key innermost_order (filter (holds_offset offset) (snap_occurrences snapshot)))
        \<subseteq> set (snap_occurrences snapshot)" by auto
    ultimately show ?thesis using True by (simp only: if_True out)
  qed (simp add: occurrences_at_def sqlite_offset_def)
qed

lemma occurrences_at_unknown:
  assumes "represents json F A" "A u = None"
  shows "occurrences_at u offset F =
    (if uint offset < 2 ^ 63 then Ok [] else Err (ByteOffsetOutOfRange offset))"
proof -
  have "t_occurrences (unit_facts u F) = []"
    using represents_unit(1)[OF assms] by simp
  then have "filter (\<lambda>r. or_unit r = u \<and> P r) (t_occurrences F) = []" for P
    by (auto simp: filter_empty_conv)
  then show ?thesis by (simp add: occurrences_at_def sqlite_offset_def)
qed

text \<open>
  The occurrences at a byte offset are exactly those of the unit's snapshot whose range holds
  the offset, later starts first and shorter ranges first among equal starts, so the innermost
  one leads; an offset SQLite cannot represent is an error.
\<close>

theorem occurrences_at_exact:
  "occurrences_at u offset (fst (published json ops)) =
    (if uint offset < 2 ^ 63
     then Ok (case snd (published json ops) u of
         None \<Rightarrow> []
       | Some snapshot \<Rightarrow>
           sort_key innermost_order (filter (holds_offset offset) (snap_occurrences snapshot)))
     else Err (ByteOffsetOutOfRange offset))"
proof (cases "snd (published json ops) u")
  case None
  then show ?thesis using occurrences_at_unknown[OF represents_published None] by simp
next
  case (Some snapshot)
  then show ?thesis using occurrences_at_eq[OF represents_published Some] by simp
qed

section \<open>Dependents\<close>

lemma validated_edges:
  assumes "validate_snapshot expected snapshot = Inr x"
  shows "e \<in> set (snap_references snapshot) \<Longrightarrow> sr_unit (occ_range (ref_source e)) = su_id expected"
    and "c \<in> set (snap_calls snapshot) \<Longrightarrow> sr_unit (occ_range (call_source c)) = su_id expected"
  using assms
  by (auto simp: validate_snapshot_def and_then_eq_Ok check_all_Ok validate_occurrence_def Let_def
      ensure_fact_source_def as_str_inject split: if_splits)

lemma references_to_units:
  assumes rep: "represents json F A"
  shows "(\<lambda>e. sr_unit (occ_range (ref_source e))) ` set (references_to key F) =
    {v. \<exists>snapshot. A v = Some snapshot \<and> key \<in> ref_target ` set (snap_references snapshot)}"
proof -
  have cols: "er_record r = e \<and> er_target r = ref_target e" if "row_of_reference u e = Inr r" for u e r
    using that by (auto simp: row_of_reference_def and_then_eq_Ok)
  have unit: "sr_unit (occ_range (ref_source e)) = v"
    if "A v = Some snapshot" "e \<in> set (snap_references snapshot)" for v snapshot e
    using validated_edges(1)[OF _ that(2)] represents_unit(2)[OF rep that(1)] by metis
  show ?thesis
  proof (intro equalityI subsetI)
    fix v
    assume "v \<in> (\<lambda>e. sr_unit (occ_range (ref_source e))) ` set (references_to key F)"
    then obtain r where r: "r \<in> set (t_references F)" "er_target r = key"
        "v = sr_unit (occ_range (ref_source (er_record r)))"
      by (auto simp: references_to_def)
    then obtain snapshot e where "A (er_unit r) = Some snapshot" "e \<in> set (snap_references snapshot)"
        "row_of_reference (er_unit r) e = Inr r"
      using reference_rows_of(2)[OF rep] by blast
    with r cols unit show "v \<in> {v. \<exists>snapshot. A v = Some snapshot \<and> key \<in> ref_target ` set (snap_references snapshot)}"
      by force
  next
    fix v
    assume "v \<in> {v. \<exists>snapshot. A v = Some snapshot \<and> key \<in> ref_target ` set (snap_references snapshot)}"
    then obtain snapshot e where e: "A v = Some snapshot" "e \<in> set (snap_references snapshot)" "ref_target e = key"
      by auto
    then obtain r where r: "r \<in> set (filter (\<lambda>r. er_unit r = v) (t_references F))" "row_of_reference v e = Inr r"
      using collect_results_has[OF reference_rows_of(1)[OF rep e(1)]] by blast
    then have "e \<in> set (references_to key F)"
      using cols[OF r(2)] e(3) by (force simp: references_to_def)
    with unit[OF e(1,2)] show "v \<in> (\<lambda>e. sr_unit (occ_range (ref_source e))) ` set (references_to key F)"
      by force
  qed
qed

lemma calls_to_units:
  assumes rep: "represents json F A"
  shows "(\<lambda>e. sr_unit (occ_range (call_source e))) ` set (calls_to key F) =
    {v. \<exists>snapshot. A v = Some snapshot \<and> key \<in> call_target ` set (snap_calls snapshot)}"
proof -
  have cols: "er_record r = e \<and> er_target r = call_target e" if "row_of_call u e = Inr r" for u e r
    using that by (auto simp: row_of_call_def and_then_eq_Ok)
  have unit: "sr_unit (occ_range (call_source e)) = v"
    if "A v = Some snapshot" "e \<in> set (snap_calls snapshot)" for v snapshot e
    using validated_edges(2)[OF _ that(2)] represents_unit(2)[OF rep that(1)] by metis
  show ?thesis
  proof (intro equalityI subsetI)
    fix v
    assume "v \<in> (\<lambda>e. sr_unit (occ_range (call_source e))) ` set (calls_to key F)"
    then obtain r where r: "r \<in> set (t_calls F)" "er_target r = key"
        "v = sr_unit (occ_range (call_source (er_record r)))"
      by (auto simp: calls_to_def)
    then obtain snapshot e where "A (er_unit r) = Some snapshot" "e \<in> set (snap_calls snapshot)"
        "row_of_call (er_unit r) e = Inr r"
      using call_rows_of(2)[OF rep] by blast
    with r cols unit show "v \<in> {v. \<exists>snapshot. A v = Some snapshot \<and> key \<in> call_target ` set (snap_calls snapshot)}"
      by force
  next
    fix v
    assume "v \<in> {v. \<exists>snapshot. A v = Some snapshot \<and> key \<in> call_target ` set (snap_calls snapshot)}"
    then obtain snapshot e where e: "A v = Some snapshot" "e \<in> set (snap_calls snapshot)" "call_target e = key"
      by auto
    then obtain r where r: "r \<in> set (filter (\<lambda>r. er_unit r = v) (t_calls F))" "row_of_call v e = Inr r"
      using collect_results_has[OF call_rows_of(1)[OF rep e(1)]] by blast
    then have "e \<in> set (calls_to key F)"
      using cols[OF r(2)] e(3) by (force simp: calls_to_def)
    with unit[OF e(1,2)] show "v \<in> (\<lambda>e. sr_unit (occ_range (call_source e))) ` set (calls_to key F)"
      by force
  qed
qed

lemma implementations_of_exact:
  assumes rep: "represents json F A"
  shows "e \<in> set (implementations_of key F) \<longleftrightarrow>
    (\<exists>v snapshot. A v = Some snapshot \<and> e \<in> set (snap_hierarchy snapshot) \<and> hier_supertype e = key)"
proof
  assume "e \<in> set (implementations_of key F)"
  then obtain r where "r \<in> set (t_hierarchy F)" "hr_supertype r = key" "hr_record r = e"
    by (auto simp: set_implementations_of)
  moreover from this(1) obtain snapshot x where "A (hr_unit r) = Some snapshot"
      "x \<in> set (snap_hierarchy snapshot)" "row_of_hierarchy (hr_unit r) x = Inr r"
    using hierarchy_rows_of(2)[OF rep] by blast
  ultimately show "\<exists>v snapshot. A v = Some snapshot \<and> e \<in> set (snap_hierarchy snapshot) \<and> hier_supertype e = key"
    unfolding row_of_hierarchy_def by (metis hierarchy_row.select_convs(3,4) sum.inject(2))
next
  assume "\<exists>v snapshot. A v = Some snapshot \<and> e \<in> set (snap_hierarchy snapshot) \<and> hier_supertype e = key"
  then obtain v snapshot where "A v = Some snapshot" "e \<in> set (snap_hierarchy snapshot)" "hier_supertype e = key"
    by blast
  moreover from this obtain r where "r \<in> set (filter (\<lambda>r. hr_unit r = v) (t_hierarchy F))" "row_of_hierarchy v e = Inr r"
    using collect_results_has[OF hierarchy_rows_of(1)[OF rep]] by blast
  ultimately show "e \<in> set (implementations_of key F)"
    by (force simp: set_implementations_of row_of_hierarchy_def)
qed

text \<open>
  A symbol id of unit \<open>v\<close>, and the three ways a unit can depend on a symbol: a reference, a call,
  or the declaration of a subtype some hierarchy edge names.
\<close>

definition symbol_of :: "abstract_store \<Rightarrow> source_unit_id \<Rightarrow> symbol_id \<Rightarrow> bool" where
  "symbol_of A v key \<longleftrightarrow> (\<exists>snapshot. A v = Some snapshot \<and> key \<in> sym_id ` set (snap_symbols snapshot))"

definition depends_on_symbol :: "abstract_store \<Rightarrow> source_unit_id \<Rightarrow> symbol_id \<Rightarrow> bool" where
  "depends_on_symbol A v key \<longleftrightarrow>
     (\<exists>snapshot. A v = Some snapshot \<and> key \<in> ref_target ` set (snap_references snapshot))
     \<or> (\<exists>snapshot. A v = Some snapshot \<and> key \<in> call_target ` set (snap_calls snapshot))
     \<or> (\<exists>w snapshot e. A w = Some snapshot \<and> e \<in> set (snap_hierarchy snapshot) \<and> hier_supertype e = key
          \<and> symbol_of A v (hier_subtype e))"

lemma declares_unit:
  assumes rep: "represents json F A"
  shows "(\<exists>r. declares A key r \<and> sr_unit (sym_declaration r) = v) \<longleftrightarrow> symbol_of A v key"
proof -
  have unit: "sr_unit (sym_declaration (symbol_view snapshot symbol)) = w"
    if "A w = Some snapshot" "symbol \<in> set (snap_symbols snapshot)" for w snapshot symbol
    using validated_symbol(1)[OF _ that(2)] represents_unit(2)[OF rep that(1)]
    by (metis (no_types, lifting) symbol_view_def symbol_record.select_convs(9)
        symbol_record.update_convs(8,16) symbol_record.surjective)
  show ?thesis
    unfolding declares_def symbol_of_def using unit by blast
qed

lemma lookup_unit:
  assumes rep: "represents json F A"
  shows "\<exists>r. stored_symbol_by_id k F = Inr r
    \<and> {v. \<exists>s. r = Some s \<and> sr_unit (sym_declaration s) = v} = {v. symbol_of A v k}"
proof (cases "\<exists>d. declares A k d")
  case True
  then obtain d where d: "declares A k d" by blast
  have "r = d" if "declares A k r" for r
    using lookup_declared[OF rep that] lookup_declared[OF rep d] by simp
  then have "{v. sr_unit (sym_declaration d) = v} = {v. symbol_of A v k}"
    unfolding declares_unit[OF rep, symmetric] using d by blast
  with lookup_declared[OF rep d] show ?thesis by auto
next
  case False
  then have "{v. symbol_of A v k} = {}"
    unfolding declares_unit[OF rep, symmetric] by blast
  with lookup_undeclared[OF rep False] show ?thesis by simp
qed

lemma dependents_of_symbol_units:
  assumes rep: "represents json F A"
  shows "\<exists>ids. dependents_of_symbol F symbol = Inr ids
    \<and> set ids = {v. depends_on_symbol A v (sym_id symbol)}"
proof -
  let ?key = "sym_id symbol" and ?look = "\<lambda>e. projr (stored_symbol_by_id (hier_subtype e) F)"
  have look: "stored_symbol_by_id (hier_subtype e) F = Inr (?look e)" for e
    using lookup_unit[OF rep, of "hier_subtype e"] by auto
  have units: "(\<exists>s. ?look e = Some s \<and> sr_unit (sym_declaration s) = v) \<longleftrightarrow> symbol_of A v (hier_subtype e)"
    for e v
    using lookup_unit[OF rep, of "hier_subtype e"] by auto
  have "collect_results (\<lambda>e. stored_symbol_by_id (hier_subtype e) F) es = Inr (map ?look es)"
    for es :: "hierarchy_edge list"
    by (rule collect_results_total) (rule look)
  then have "dependents_of_symbol F symbol = Inr
      (map (\<lambda>e. sr_unit (occ_range (ref_source e))) (references_to ?key F)
       @ map (\<lambda>e. sr_unit (occ_range (call_source e))) (calls_to ?key F)
       @ map (\<lambda>s. sr_unit (sym_declaration s))
           (List.map_filter (\<lambda>s. s) (map ?look (implementations_of ?key F))))"
    by (simp add: dependents_of_symbol_def)
  moreover have "sr_unit ` sym_declaration ` set (List.map_filter (\<lambda>s. s) (map ?look (implementations_of ?key F)))
      = {v. \<exists>e\<in>set (implementations_of ?key F). \<exists>s. ?look e = Some s \<and> sr_unit (sym_declaration s) = v}"
    by (auto simp: map_filter_def image_iff) (metis option.sel)+
  moreover have "\<dots> = {v. \<exists>w snapshot e. A w = Some snapshot \<and> e \<in> set (snap_hierarchy snapshot)
      \<and> hier_supertype e = ?key \<and> symbol_of A v (hier_subtype e)}"
    unfolding units implementations_of_exact[OF rep] Bex_def by blast
  ultimately show ?thesis
    using references_to_units[OF rep, of ?key] calls_to_units[OF rep, of ?key]
    by (auto simp: depends_on_symbol_def image_image)
qed

lemma unit_symbol_ids:
  assumes "represents json F A"
  obtains symbols where "symbols_for_source u F = Inr symbols"
    "sym_id ` set symbols = {key. symbol_of A u key}"
proof (cases "A u")
  case None
  then have "{key. symbol_of A u key} = {}" by (simp add: symbol_of_def)
  with None show ?thesis using that[of "[]"] symbols_for_source_eq[OF assms, of u] by simp
next
  case (Some snapshot)
  have view: "sym_id (symbol_view snapshot symbol) = sym_id symbol" for symbol
    by (simp add: symbol_view_def)
  have "sym_id ` set (map (symbol_view snapshot) (sort_key declaration_order (snap_symbols snapshot)))
      = {key. symbol_of A u key}"
    using Some by (auto simp: symbol_of_def image_image view)
  with Some show ?thesis using that symbols_for_source_eq[OF assms, of u] by simp
qed

text \<open>
  C8. The dependents of a unit are computed without error, and are exactly the other units with
  a reference or a call to one of its symbols, or that declare a subtype of one; each is listed
  once, in the order of ids.
\<close>

theorem dependents_exact:
  "dependent_source_units u (fst (published json ops)) =
     Ok (sorted_list_of_set {v. v \<noteq> u
       \<and> (\<exists>key. symbol_of (snd (published json ops)) u key \<and> depends_on_symbol (snd (published json ops)) v key)})"
proof -
  define F A where "F = fst (published json ops)" and "A = snd (published json ops)"
  have rep: "represents json F A" unfolding F_def A_def by (rule represents_published)
  obtain symbols where symbols: "symbols_for_source u F = Inr symbols"
      "sym_id ` set symbols = {key. symbol_of A u key}"
    by (rule unit_symbol_ids[OF rep])
  let ?deps = "\<lambda>symbol. projr (dependents_of_symbol F symbol)"
  have deps: "dependents_of_symbol F s = Inr (?deps s)"
      "set (?deps s) = {v. depends_on_symbol A v (sym_id s)}" for s
    using dependents_of_symbol_units[OF rep, of s] by auto
  have ids: "collect_results (dependents_of_symbol F) symbols = Inr (map ?deps symbols)"
    by (rule collect_results_total) (rule deps(1))
  have "set (filter (\<lambda>v. v \<noteq> u) (concat (map ?deps symbols))) =
      {v. v \<noteq> u \<and> (\<exists>s\<in>set symbols. depends_on_symbol A v (sym_id s))}"
    using deps(2) by auto
  also have "\<dots> = {v. v \<noteq> u \<and> (\<exists>key\<in>sym_id ` set symbols. depends_on_symbol A v key)}"
    by simp
  also have "\<dots> = {v. v \<noteq> u \<and> (\<exists>key. symbol_of A u key \<and> depends_on_symbol A v key)}"
    by (auto simp: symbols(2))
  finally have "dependent_source_units u F =
      Inr (sorted_list_of_set {v. v \<noteq> u \<and> (\<exists>key. symbol_of A u key \<and> depends_on_symbol A v key)})"
    by (simp add: dependent_source_units_def symbols(1) ids sort_dedup_eq_sorted_list)
  then show ?thesis by (simp only: F_def A_def)
qed

text \<open>
  The broad name search hands the query to \<open>LIKE\<close> as a pattern: an underscore in the query stands
  for any character, so a name that does not contain the query is found.
\<close>

lemma name_search_reads_wildcards:
  "sqlite_like (''%'' @ sqlite_lower ''_'' @ ''%'') (sqlite_lower ''main'')" "CHR ''_'' \<notin> set ''main''"
  by code_simp+

end
