(* ===== verification/Text_Index.thy ===== *)
theory Text_Index
  imports Samples
begin

text \<open>
  \<open>crates/kide-core/src/text_index.rs\<close> and the coordinate conversion of
  \<open>query_resolver.rs\<close>: workspace text documents, positions, snippets and lexical terms. A text is
  its UTF-8 bytes; a character is its first byte with the continuation bytes after it. SHA-256
  and the Unicode test \<open>is_alphanumeric\<close> are arguments. The directory walk is I/O and not
  modelled.
\<close>

section \<open>Characters of a text\<close>

function utf8_chars :: "string \<Rightarrow> string list" where
  "utf8_chars [] = []"
| "utf8_chars (c # cs) = (c # takeWhile is_cont cs) # utf8_chars (dropWhile is_cont cs)"
  by pat_completeness auto
termination
  by (relation "measure length") (auto simp: le_imp_less_Suc length_dropWhile_le)

lemma concat_utf8_chars: "concat (utf8_chars s) = s"
  by (induction s rule: utf8_chars.induct) auto

section \<open>Documents\<close>

definition MAX_TEXT_DOCUMENT_BYTES :: usize where "MAX_TEXT_DOCUMENT_BYTES = 1048576"

record text_document =
  td_path :: workspace_path
  td_content :: string
  td_fingerprint :: fingerprint

record lexical_match =
  lm_path :: workspace_path
  lm_range :: byte_range
  lm_position :: text_position
  lm_snippet :: string

datatype text_document_skip = SkipBinary | SkipOversized usize | SkipInvalidUtf8

definition document_from_bytes ::
    "(string \<Rightarrow> string) \<Rightarrow> workspace_path \<Rightarrow> string \<Rightarrow> (text_document_skip, text_document) result" where
  "document_from_bytes sha256 path bytes =
     (if length bytes > MAX_TEXT_DOCUMENT_BYTES then Err (SkipOversized (length bytes))
      else if CHR 0x00 \<in> set bytes then Err SkipBinary
      else if \<not> utf8_valid bytes then Err SkipInvalidUtf8
      else Ok \<lparr> td_path = path, td_content = bytes,
                td_fingerprint = Fingerprint (''sha256:'' @ hex (sha256 bytes)) \<rparr>)"

section \<open>Positions\<close>

definition newlines :: "string \<Rightarrow> nat" where
  "newlines s = length (filter (\<lambda>b. b = newline) s)"

text \<open>\<open>rfind('\n').map_or(0, |index| index + 1)\<close>.\<close>

definition after_last_newline :: "string \<Rightarrow> nat" where
  "after_last_newline s = length s - length (takeWhile (\<lambda>b. b \<noteq> newline) (rev s))"

definition position_at :: "string \<Rightarrow> usize \<Rightarrow> text_position option" where
  "position_at text offset =
     (if offset > length text \<or> \<not> is_char_boundary text offset then None
      else
        let prefix = take offset text;
            line_start = after_last_newline prefix
        in Some \<lparr> pos_line = of_nat (newlines prefix) + 1,
                  pos_column = of_nat (char_count (drop line_start prefix)) + 1 \<rparr>)"

text \<open>
  The slices panic when a bound is out of range or inside a character; the value is then
  \<^const>\<open>None\<close>.
\<close>

definition snippet_at :: "string \<Rightarrow> usize \<Rightarrow> usize \<Rightarrow> string option" where
  "snippet_at text start end =
     (if start \<le> length text \<and> is_char_boundary text start
         \<and> end \<le> length text \<and> is_char_boundary text end
      then
        let line_start = after_last_newline (take start text);
            line_end = end + length (takeWhile (\<lambda>b. b \<noteq> newline) (drop end text))
        in if line_start \<le> line_end then Some (trim (take (line_end - line_start) (drop line_start text)))
           else None
      else None)"

section \<open>Terms\<close>

type_synonym term_span = "string \<times> usize \<times> usize"

text \<open>
  The loop of \<open>lexical_terms\<close>: \<open>run\<close> is the term being read with its start offset. \<open>word\<close> is
  \<open>is_alphanumeric() || == '_'\<close> on the bytes of a character.
\<close>

fun scan_terms :: "(string \<Rightarrow> bool) \<Rightarrow> usize \<Rightarrow> (string \<times> usize) option \<Rightarrow> string list \<Rightarrow> term_span list" where
  "scan_terms word offset None [] = []"
| "scan_terms word offset (Some (run, start)) [] = [(run, start, offset)]"
| "scan_terms word offset None (c # cs) =
     (if word c then scan_terms word (offset + length c) (Some (c, offset)) cs
      else scan_terms word (offset + length c) None cs)"
| "scan_terms word offset (Some (run, start)) (c # cs) =
     (if word c then scan_terms word (offset + length c) (Some (run @ c, start)) cs
      else (run, start, offset) # scan_terms word (offset + length c) None cs)"

definition lexical_terms :: "(string \<Rightarrow> bool) \<Rightarrow> string \<Rightarrow> term_span list" where
  "lexical_terms word text = scan_terms word 0 None (utf8_chars text)"

section \<open>Byte offsets of positions\<close>

datatype location_error = InvalidCoordinate | OutOfRange

text \<open>
  \<open>split_inclusive('\n').enumerate().find_map(..)\<close>: the line of the given one-based number with
  the bytes before it.
\<close>

fun find_line :: "nat \<Rightarrow> nat \<Rightarrow> nat \<Rightarrow> string list \<Rightarrow> (nat \<times> string) option" where
  "find_line wanted index prefix_bytes [] = None"
| "find_line wanted index prefix_bytes (line # lines) =
     (if index + 1 = wanted then Some (prefix_bytes, line)
      else find_line wanted (index + 1) (prefix_bytes + length line) lines)"

definition byte_offset :: "string \<Rightarrow> text_position \<Rightarrow> (location_error, u64) result" where
  "byte_offset text position =
     (if pos_line position = 0 \<or> pos_column position = 0 then Err InvalidCoordinate
      else
        and_then (ok_or OutOfRange (find_line (unat (pos_line position)) 0 0 (split_inclusive newline text)))
        (\<lambda>(prefix_bytes, line_start).
          let line = (case strip_suffix [newline] line_start of Some l \<Rightarrow> l | None \<Rightarrow> line_start);
              scalar_offset = unat (pos_column position) - 1
          in and_then
               (if scalar_offset = char_count line then Ok (length line)
                else if scalar_offset < char_count line then Ok (char_offsets line ! scalar_offset)
                else Err OutOfRange)
               (\<lambda>column_offset. Ok (of_nat (prefix_bytes + column_offset)))))"

section \<open>Positions and offsets are inverse\<close>

lemma utf8_valid_head: "utf8_valid (c # cs) \<Longrightarrow> \<not> is_cont c"
  by (auto simp: is_cont_def split: if_splits)

lemma split_inclusive_append:
  "p = [] \<or> last p = c \<Longrightarrow> split_inclusive c (p @ q) = split_inclusive c p @ split_inclusive c q"
proof (induction p)
  case (Cons x xs)
  show ?case
  proof (cases "xs = []")
    case True
    with Cons.prems show ?thesis by simp
  next
    case False
    with Cons have IH: "split_inclusive c (xs @ q) = split_inclusive c xs @ split_inclusive c q" by simp
    have "split_inclusive c xs \<noteq> []"
      using concat_split_inclusive[of c xs] False by (metis concat.simps(1))
    then obtain l ls where "split_inclusive c xs = l # ls" by (cases "split_inclusive c xs") auto
    with IH show ?thesis by simp
  qed
qed simp

lemma length_split_inclusive:
  "p = [] \<or> last p = newline \<Longrightarrow> length (split_inclusive newline p) = newlines p"
proof (induction p)
  case (Cons x xs)
  show ?case
  proof (cases "xs = []")
    case True
    with Cons.prems show ?thesis by (simp add: newlines_def)
  next
    case False
    with Cons have IH: "length (split_inclusive newline xs) = newlines xs" by simp
    have "split_inclusive newline xs \<noteq> []"
      using concat_split_inclusive[of newline xs] False by (metis concat.simps(1))
    then obtain l ls where "split_inclusive newline xs = l # ls"
      by (cases "split_inclusive newline xs") auto
    with IH show ?thesis by (simp add: newlines_def)
  qed
qed (simp add: newlines_def)

lemma split_inclusive_line:
  assumes "c \<notin> set l"
  shows "split_inclusive c (l @ c # q) = (l @ [c]) # split_inclusive c q"
    and "l \<noteq> [] \<Longrightarrow> split_inclusive c l = [l]"
proof -
  show "split_inclusive c (l @ c # q) = (l @ [c]) # split_inclusive c q"
    using assms by (induction l) auto
  show "split_inclusive c l = [l]" if "l \<noteq> []"
    using assms that
  proof (induction l)
    case (Cons a l)
    then show ?case by (cases l) auto
  qed simp
qed

lemma find_line_at:
  "find_line (n + length xs + 1) n b (xs @ line # ys) = Some (b + length (concat xs), line)"
proof (induction xs arbitrary: n b)
  case (Cons a xs)
  then show ?case using Cons[of "Suc n" "b + length a"] by (simp add: add.assoc)
qed simp

lemma find_line_Some:
  "find_line w n b ls = Some (p, line) \<Longrightarrow>
     \<exists>xs ys. ls = xs @ line # ys \<and> w = n + length xs + 1 \<and> p = b + length (concat xs)"
proof (induction w n b ls rule: find_line.induct)
  case (2 w n b l ls)
  show ?case
  proof (cases "n + 1 = w")
    case True
    with 2(2) show ?thesis by (intro exI[of _ "[]"] exI[of _ ls]) simp
  next
    case False
    with 2 obtain xs ys where "ls = xs @ line # ys" "w = n + 1 + length xs + 1"
        "p = b + length l + length (concat xs)" by auto
    then show ?thesis by (intro exI[of _ "l # xs"] exI[of _ ys]) simp
  qed
qed simp

lemma after_last_newline_append:
  assumes "p = [] \<or> last p = newline" "newline \<notin> set l"
  shows "after_last_newline (p @ l) = length p"
proof -
  have "takeWhile (\<lambda>b. b \<noteq> newline) (rev l @ rev p) = rev l @ takeWhile (\<lambda>b. b \<noteq> newline) (rev p)"
    using assms(2) by (subst takeWhile_append2) auto
  moreover have "takeWhile (\<lambda>b. b \<noteq> newline) (rev p) = []"
    using assms(1) by (cases p rule: rev_cases) auto
  ultimately show ?thesis by (simp add: after_last_newline_def)
qed

text \<open>Every text splits into the full lines before an offset and the rest of the offset's line.\<close>

lemma split_at_line:
  obtains p l where "s = p @ l" "p = [] \<or> last p = newline" "newline \<notin> set l"
proof (cases "newline \<in> set s")
  case True
  then obtain p l where "s = p @ newline # l" "newline \<notin> set l" by (metis split_list_last)
  then show ?thesis using that[of "p @ [newline]" l] by simp
next
  case False
  then show ?thesis using that[of "[]" s] by simp
qed

text \<open>Where a line's bytes stop: at its newline or at the end of the text.\<close>

lemma line_of_rest:
  assumes "q \<noteq> []"
  obtains l rest where "split_inclusive newline q = (l @ rest) # split_inclusive newline (drop (length l + length rest) q)"
    "newline \<notin> set l" "rest = [newline] \<or> rest = [] \<and> l \<noteq> []" "q = l @ rest @ drop (length l + length rest) q"
    "rest = [] \<Longrightarrow> q = l"
proof (cases "newline \<in> set q")
  case True
  then obtain l r where lr: "q = l @ newline # r" "newline \<notin> set l" by (metis split_list_first)
  then show ?thesis
    using that[of l "[newline]"] split_inclusive_line(1)[OF lr(2), of r] by simp
next
  case False
  then show ?thesis
    using that[of q "[]"] split_inclusive_line(2)[OF False assms] assms by simp
qed

lemma strip_newline:
  assumes "newline \<notin> set l"
  shows "(case strip_suffix [newline] (l @ [newline]) of Some x \<Rightarrow> x | None \<Rightarrow> l @ [newline]) = l"
    and "(case strip_suffix [newline] l of Some x \<Rightarrow> x | None \<Rightarrow> l) = l"
  using assms by (auto simp: strip_suffix_eq_Some split: option.splits)

lemma char_offset_inverse:
  assumes "i \<le> length l" "i < length l \<Longrightarrow> \<not> is_cont (l ! i)"
  shows "(if char_count (take i l) = char_count l then Ok (length l)
      else if char_count (take i l) < char_count l then Ok (char_offsets l ! char_count (take i l))
      else Err OutOfRange) = (Ok i :: (location_error, nat) result)"
proof (cases "i < length l")
  case True
  with char_offsets_nth[OF True assms(2)[OF True]] show ?thesis by simp
next
  case False
  with assms(1) have "i = length l" by simp
  then show ?thesis by simp
qed

lemma char_offsets_sound:
  assumes "k < char_count s"
  shows "char_offsets s ! k < length s" "\<not> is_cont (s ! (char_offsets s ! k))"
    "char_count (take (char_offsets s ! k) s) = k"
proof -
  let ?i = "char_offsets s ! k"
  have k: "k < length (char_offsets s)" using assms by (simp add: length_char_offsets)
  then have "?i \<in> set (char_offsets s)" by simp
  then show i: "?i < length s" "\<not> is_cont (s ! ?i)" by (auto simp: char_offsets_def)
  from char_offsets_nth[OF i] have "char_count (take ?i s) < length (char_offsets s)"
    "char_offsets s ! char_count (take ?i s) = ?i" by (simp_all add: length_char_offsets)
  moreover have "distinct (char_offsets s)" by (simp add: char_offsets_def)
  ultimately show "char_count (take ?i s) = k" using k nth_eq_iff_index_eq by blast
qed

lemma split_inclusive_prefix:
  "split_inclusive newline s = xs @ line # ys \<Longrightarrow>
     split_inclusive newline (concat xs) = xs \<and> (concat xs = [] \<or> last (concat xs) = newline)"
proof (induction xs arbitrary: s)
  case (Cons x xs)
  have "s \<noteq> []" using Cons.prems by auto
  from line_of_rest[OF this] obtain l rest where
    L: "split_inclusive newline s = (l @ rest) # split_inclusive newline (drop (length l + length rest) s)"
      "newline \<notin> set l" "rest = [newline] \<or> rest = [] \<and> l \<noteq> []" "rest = [] \<Longrightarrow> s = l"
    by metis
  have x: "x = l @ rest" and tail: "split_inclusive newline (drop (length l + length rest) s) = xs @ line # ys"
    using L(1) Cons.prems by auto
  have "rest = [newline]"
    using L(3,4) tail by auto
  with x have x': "x = l @ [newline]" by simp
  from Cons.IH[OF tail] have IH: "split_inclusive newline (concat xs) = xs"
    "concat xs = [] \<or> last (concat xs) = newline" by auto
  have "split_inclusive newline (l @ newline # concat xs) = x # xs"
    using split_inclusive_line(1)[OF L(2), of "concat xs"] IH(1) x' by simp
  with IH(2) x' show ?case by auto
qed simp

lemma newlines_append [simp]: "newlines (s @ t) = newlines s + newlines t"
  by (simp add: newlines_def)

lemma newlines_none: "newline \<notin> set l \<Longrightarrow> newlines l = 0"
  unfolding newlines_def by (auto simp: filter_empty_conv)

lemma newlines_le: "newlines s \<le> length s"
  by (simp add: newlines_def)

lemma char_count_le: "char_count s \<le> length s"
  by (simp add: char_count_def)

lemma position_at_split:
  assumes "p = [] \<or> last p = newline" "newline \<notin> set l" "is_char_boundary (p @ l @ r) (length p + length l)"
  shows "position_at (p @ l @ r) (length p + length l) =
    Some \<lparr> pos_line = of_nat (newlines p) + 1, pos_column = of_nat (char_count l) + 1 \<rparr>"
proof -
  have "take (length p + length l) (p @ l @ r) = p @ l" by simp
  moreover have "newlines (p @ l) = newlines p" using assms(2) by (simp add: newlines_none)
  moreover have "drop (length p) (p @ l) = l" by simp
  ultimately show ?thesis
    using assms unfolding position_at_def Let_def by (simp add: after_last_newline_append)
qed

lemma unat_of_nat_plus1:
  "n < 2 ^ 32 - 1 \<Longrightarrow> unat (of_nat n + 1 :: u32) = n + 1 \<and> of_nat n + 1 \<noteq> (0 :: u32)"
proof -
  assume n: "n < 2 ^ 32 - 1"
  have "of_nat n + 1 = (of_nat (Suc n) :: u32)" by simp
  moreover have "unat (of_nat (Suc n) :: u32) = Suc n"
    using n by (simp only: unat_of_nat take_bit_nat_eq_self_iff) simp
  ultimately show ?thesis by (metis Suc_eq_plus1 nat.distinct(1) unat_0)
qed

text \<open>The bytes of a line before its newline.\<close>

definition line_body :: "string \<Rightarrow> string" where
  "line_body line = (case strip_suffix [newline] line of Some l \<Rightarrow> l | None \<Rightarrow> line)"

lemma line_body_simps:
  assumes "newline \<notin> set l"
  shows "line_body (l @ [newline]) = l" "line_body l = l"
  using strip_newline[OF assms] by (simp_all add: line_body_def)

lemma byte_offset_on_line:
  assumes "split_inclusive newline text = xs @ line # ys"
    and "unat (pos_line pos) = length xs + 1" "unat (pos_column pos) = k + 1"
  shows "byte_offset text pos =
    (if k = char_count (line_body line) then Ok (of_nat (length (concat xs) + length (line_body line)))
     else if k < char_count (line_body line)
     then Ok (of_nat (length (concat xs) + char_offsets (line_body line) ! k))
     else Err OutOfRange)"
proof -
  have "pos_line pos \<noteq> 0" "pos_column pos \<noteq> 0" using assms(2,3) by auto
  moreover have "find_line (unat (pos_line pos)) 0 0 (split_inclusive newline text)
      = Some (length (concat xs), line)"
    using find_line_at[of 0 xs 0 line ys] assms(1,2) by simp
  ultimately show ?thesis
    using assms(3) by (simp add: byte_offset_def line_body_def[symmetric])
qed

lemma line_around:
  assumes "newline \<notin> set l" "l @ r \<noteq> []"
  obtains m rest t where "r = m @ rest @ t" "line_body (l @ m @ rest) = l @ m" "newline \<notin> set m"
    "split_inclusive newline (l @ r) = (l @ m @ rest) # split_inclusive newline t"
    "rest @ t = [] \<or> hd (rest @ t) = newline"
proof (cases "newline \<in> set r")
  case True
  then obtain m t where mt: "r = m @ newline # t" "newline \<notin> set m" by (metis split_list_first)
  then have "newline \<notin> set (l @ m)" using assms(1) by simp
  from split_inclusive_line(1)[OF this, of t] line_body_simps(1)[OF this] show ?thesis
    using that[of m "[newline]" t] mt by simp
next
  case False
  then have "newline \<notin> set (l @ r)" using assms(1) by simp
  from split_inclusive_line(2)[OF this assms(2)] line_body_simps(2)[OF this] show ?thesis
    using that[of r "[]" "[]"] False by simp
qed

lemma boundary_is_no_cont:
  "utf8_valid s \<Longrightarrow> is_char_boundary s v \<Longrightarrow> v < length s \<Longrightarrow> \<not> is_cont (s ! v)"
  using utf8_valid_head by (cases s) (auto simp: is_char_boundary_def)

lemma byte_offset_of_position:
  assumes valid: "utf8_valid s" and small: "length s < 2 ^ 32 - 1"
    and pos: "position_at s v = Some pos"
    and inside: "\<not> (v = length s \<and> (s = [] \<or> last s = newline))"
  shows "byte_offset s pos = Ok (of_nat v)"
proof -
  have v: "v \<le> length s" "is_char_boundary s v"
    using pos by (auto simp: position_at_def split: if_splits)
  obtain p l where pl: "take v s = p @ l" "p = [] \<or> last p = newline" "newline \<notin> set l"
    by (rule split_at_line)
  define r where "r = drop v s"
  have s: "s = p @ l @ r" using pl(1) append_take_drop_id[of v s] by (simp add: r_def)
  have len: "v = length p + length l" using arg_cong[OF pl(1), of length] v(1) by simp
  have pos': "pos = \<lparr> pos_line = of_nat (newlines p) + 1, pos_column = of_nat (char_count l) + 1 \<rparr>"
    using position_at_split[OF pl(2,3), of r] s len v(2) pos by simp
  have "l @ r \<noteq> []" using inside pl(2) s len by auto
  from line_around[OF pl(3) this] obtain m rest t where M: "r = m @ rest @ t"
    "line_body (l @ m @ rest) = l @ m" "newline \<notin> set m"
    "split_inclusive newline (l @ r) = (l @ m @ rest) # split_inclusive newline t"
    "rest @ t = [] \<or> hd (rest @ t) = newline" .
  have split: "split_inclusive newline s =
      split_inclusive newline p @ (l @ m @ rest) # split_inclusive newline t"
    using split_inclusive_append[OF pl(2), of "l @ r"] M(4) s by simp
  have bounds: "newlines p < 2 ^ 32 - 1" "char_count l < 2 ^ 32 - 1"
    using newlines_le[of p] char_count_le[of l] len v(1) small by linarith+
  have at: "unat (pos_line pos) = length (split_inclusive newline p) + 1" "unat (pos_column pos) = char_count l + 1"
    using unat_of_nat_plus1[OF bounds(1)] unat_of_nat_plus1[OF bounds(2)] length_split_inclusive[OF pl(2)]
    by (simp_all add: pos')
  have "\<not> is_cont ((l @ m) ! length l)" if "length l < length (l @ m)"
    using boundary_is_no_cont[OF valid v(2)] that M(1) by (simp add: s len nth_append)
  moreover have "take (length l) (l @ m) = l" by simp
  ultimately have inv:
    "(if char_count l = char_count (l @ m) then Ok (length (l @ m))
      else if char_count l < char_count (l @ m) then Ok (char_offsets (l @ m) ! char_count l)
      else Err OutOfRange) = (Ok (length l) :: (location_error, nat) result)"
    using char_offset_inverse[of "length l" "l @ m"] by (metis le_add1 length_append)
  from byte_offset_on_line[OF split at] inv show ?thesis
    unfolding M(2) concat_split_inclusive len by (auto split: if_splits)
qed

text \<open>The lines of a text: the number of the line, its offset and its body.\<close>

lemma line_of_split:
  assumes "split_inclusive newline s = xs @ line # ys"
  obtains m t where "line_body line = m" "newline \<notin> set m" "s = concat xs @ m @ t" "t = [] \<or> hd t = newline"
    "length xs = newlines (concat xs)" "concat xs = [] \<or> last (concat xs) = newline"
    "m @ t \<noteq> []"
proof -
  note p = split_inclusive_prefix[OF assms]
  have s: "s = concat xs @ line @ concat ys"
    using arg_cong[OF assms, of concat] by (simp add: concat_split_inclusive)
  then have split: "split_inclusive newline (line @ concat ys) = line # ys"
    using split_inclusive_append[of "concat xs" newline "line @ concat ys"] assms p by simp
  then have nonempty: "line @ concat ys \<noteq> []" by (metis list.distinct(1) split_inclusive.simps(1))
  from nonempty have "[] @ (line @ concat ys) \<noteq> []" by simp
  from line_around[OF _ this] obtain m rest t where m: "line @ concat ys = m @ rest @ t"
    "line_body (m @ rest) = m" "newline \<notin> set m"
    "split_inclusive newline (line @ concat ys) = (m @ rest) # split_inclusive newline t"
    "rest @ t = [] \<or> hd (rest @ t) = newline"
    unfolding append_Nil by auto
  have line: "line = m @ rest" using m(4) split by (metis list.inject)
  have "s = concat xs @ m @ (rest @ t)" using s m(1) by (metis append_assoc)
  moreover have "m @ (rest @ t) \<noteq> []" using nonempty m(1) by metis
  ultimately show ?thesis
    using that[of m "rest @ t"] line m(2,3,5) p length_split_inclusive[of "concat xs"] by metis
qed

lemma word_of_unat: "unat (w :: u32) = n + 1 \<Longrightarrow> of_nat n + 1 = w"
proof -
  assume "unat w = n + 1"
  then have "of_nat (unat w) = (of_nat (n + 1) :: u32)" by (simp only:)
  moreover have "of_nat (unat w) = w" by (simp add: of_nat_unat)
  ultimately show ?thesis by simp
qed

lemma position_of_unats:
  "unat (pos_line pos) = n + 1 \<Longrightarrow> unat (pos_column pos) = k + 1 \<Longrightarrow>
     \<lparr> pos_line = of_nat n + 1, pos_column = of_nat k + 1 \<rparr> = pos"
  using word_of_unat[of "pos_line pos" n] word_of_unat[of "pos_column pos" k] by (cases pos) simp

lemma position_of_byte_offset:
  assumes small: "length s < 2 ^ 32 - 1" and off: "byte_offset s pos = Ok off"
  shows "position_at s (unat off) = Some pos
    \<and> \<not> (unat off = length s \<and> (s = [] \<or> last s = newline))"
proof -
  obtain b line where nz: "pos_line pos \<noteq> 0" "pos_column pos \<noteq> 0"
    and find: "find_line (unat (pos_line pos)) 0 0 (split_inclusive newline s) = Some (b, line)"
    using off by (auto simp: byte_offset_def and_then_eq_Ok ok_or_eq_Ok split: if_splits)
  from find_line_Some[OF find] obtain xs ys where
    split: "split_inclusive newline s = xs @ line # ys" "unat (pos_line pos) = length xs + 1" by auto
  define k where "k = unat (pos_column pos) - 1"
  have k: "unat (pos_column pos) = k + 1" using nz(2) by (simp add: k_def unat_gt_0)
  from line_of_split[OF split(1)] obtain m t where m: "line_body line = m" "newline \<notin> set m"
    "s = concat xs @ m @ t" "t = [] \<or> hd t = newline" "length xs = newlines (concat xs)"
    "concat xs = [] \<or> last (concat xs) = newline" "m @ t \<noteq> []" .
  have "k = char_count m \<and> off = of_nat (length (concat xs) + length m)
      \<or> k < char_count m \<and> off = of_nat (length (concat xs) + char_offsets m ! k)"
    using off unfolding byte_offset_on_line[OF split k] m(1) by (simp split: if_splits)
  then obtain i where i: "i \<le> length m" "char_count (take i m) = k" "i < length m \<Longrightarrow> \<not> is_cont (m ! i)"
    "off = of_nat (length (concat xs) + i)"
  proof
    assume "k = char_count m \<and> off = of_nat (length (concat xs) + length m)"
    then show ?thesis using that[of "length m"] by simp
  next
    assume "k < char_count m \<and> off = of_nat (length (concat xs) + char_offsets m ! k)"
    then show ?thesis using that[of "char_offsets m ! k"] char_offsets_sound[of k m] by simp
  qed
  let ?v = "length (concat xs) + i"
  have s: "s = concat xs @ take i m @ (drop i m @ t)" unfolding m(3) by simp
  have "?v \<le> length s" using m(3) i(1) by (metis add_le_cancel_left length_append trans_le_add1)
  with small have "?v < 2 ^ 64" by simp
  then have off': "unat off = ?v" unfolding i(4) by (simp only: unat_of_nat take_bit_nat_eq_self_iff) simp
  have "is_char_boundary s ?v"
  proof (cases "i < length m")
    case True
    with i(3) have "\<not> is_cont (s ! ?v)" unfolding m(3) by (simp add: nth_append)
    then show ?thesis using True m(3) by (simp add: is_char_boundary_def)
  next
    case False
    then have "i = length m" using i(1) by simp
    have "\<not> is_cont newline" by (simp add: is_cont_def)
    with \<open>i = length m\<close> m(4) show ?thesis
      by (cases t) (auto simp: is_char_boundary_def m(3) nth_append)
  qed
  moreover have "length (take i m) = i" "newline \<notin> set (take i m)"
    using i(1) m(2) by (auto dest: in_set_takeD)
  ultimately have "position_at s ?v = Some \<lparr> pos_line = of_nat (newlines (concat xs)) + 1,
      pos_column = of_nat (char_count (take i m)) + 1 \<rparr>"
    using position_at_split[OF m(6), of "take i m" "drop i m @ t"] s by simp
  also have "\<dots> = Some pos"
    using position_of_unats[OF split(2) k] m(5) i(2) by simp
  finally have "position_at s (unat off) = Some pos" using off' by simp
  moreover have "\<not> (unat off = length s \<and> (s = [] \<or> last s = newline))"
  proof
    assume end_of_text: "unat off = length s \<and> (s = [] \<or> last s = newline)"
    then have "t = []" using off' i(1) m(3) by simp
    with m(7) have "m \<noteq> []" "last s = last m" "s \<noteq> []" using m(3) by auto
    with end_of_text m(2) show False by (metis last_in_set)
  qed
  ultimately show ?thesis by blast
qed

text \<open>
  C33. Where a cursor position can be converted, \<open>byte_offset\<close> returns exactly the offset whose
  position it is: for a well-formed text below 4 GiB the two conversions are inverse, and the only
  positions of the text that are refused are those after a trailing newline (or in an empty text).
\<close>

theorem byte_offset_exact:
  assumes "utf8_valid s" "length s < 2 ^ 32 - 1"
  shows "byte_offset s pos = Ok off \<longleftrightarrow>
    position_at s (unat off) = Some pos \<and> \<not> (unat off = length s \<and> (s = [] \<or> last s = newline))"
  using byte_offset_of_position[OF assms, of "unat off" pos] position_of_byte_offset[OF assms(2), of pos off]
  by auto

text \<open>The text \<open>a, U+1F600, b, newline, n\<close>, whose third column starts at byte 5.\<close>

definition sample_text :: string where
  "sample_text = ''a'' @ [CHR 0xF0, CHR 0x9F, CHR 0x98, CHR 0x80] @ ''b'' @ [newline] @ ''n''"

theorem byte_offset_exact_witness:
  "utf8_valid sample_text \<and> length sample_text < 2 ^ 32 - 1
   \<and> byte_offset sample_text \<lparr> pos_line = 1, pos_column = 3 \<rparr> = Ok 5"
proof (intro conjI)
  show valid: "utf8_valid sample_text" by code_simp
  show small: "length sample_text < 2 ^ 32 - 1" by (simp add: sample_text_def)
  have "position_at sample_text 5 = Some \<lparr> pos_line = 1, pos_column = 3 \<rparr>" by code_simp
  moreover have "length sample_text = 8" by (simp add: sample_text_def)
  ultimately show "byte_offset sample_text \<lparr> pos_line = 1, pos_column = 3 \<rparr> = Ok 5"
    by (subst byte_offset_exact[OF valid small]) simp
qed

text \<open>The cursor after a trailing newline has a position that does not convert back.\<close>

lemma position_after_trailing_newline_is_refused:
  "position_at (''a'' @ [newline]) 2 = Some \<lparr> pos_line = 2, pos_column = 1 \<rparr>
   \<and> byte_offset (''a'' @ [newline]) \<lparr> pos_line = 2, pos_column = 1 \<rparr> = Err OutOfRange"
  by code_simp

section \<open>Lexical terms are the maximal word runs\<close>

text \<open>A run of word characters between \<open>xs\<close> and \<open>zs\<close> that cannot be extended on either side.\<close>

definition maximal_run :: "(string \<Rightarrow> bool) \<Rightarrow> string list \<Rightarrow> string list \<Rightarrow> string list \<Rightarrow> bool" where
  "maximal_run word xs ys zs =
     (ys \<noteq> [] \<and> (\<forall>c\<in>set ys. word c) \<and> (xs = [] \<or> \<not> word (last xs)) \<and> (zs = [] \<or> \<not> word (hd zs)))"

lemma scan_terms_run:
  "scan_terms word off (Some (run, start)) cs =
     (run @ concat (takeWhile word cs), start, off + length (concat (takeWhile word cs)))
     # scan_terms word (off + length (concat (takeWhile word cs))) None (dropWhile word cs)"
  by (induction cs arbitrary: off run) (simp_all add: add.assoc)

text \<open>The span of the run \<open>ys\<close> after \<open>xs\<close>.\<close>

abbreviation run_span :: "usize \<Rightarrow> string list \<Rightarrow> string list \<Rightarrow> term_span" where
  "run_span off xs ys \<equiv>
     (concat ys, off + length (concat xs), off + length (concat xs) + length (concat ys))"

lemma scan_terms_word:
  "cs \<noteq> [] \<Longrightarrow> word (hd cs) \<Longrightarrow> scan_terms word off None cs =
     run_span off [] (takeWhile word cs)
     # scan_terms word (off + length (concat (takeWhile word cs))) None (dropWhile word cs)"
  by (cases cs) (simp_all add: scan_terms_run add.assoc)

lemma maximal_run_reported:
  "maximal_run word xs ys zs \<Longrightarrow> run_span off xs ys \<in> set (scan_terms word off None (xs @ ys @ zs))"
proof (induction "length xs" arbitrary: xs off rule: less_induct)
  case less
  show ?case
  proof (cases xs)
    case Nil
    with less.prems have "takeWhile word (ys @ zs) = ys" "ys @ zs \<noteq> []" "word (hd (ys @ zs))"
      by (cases zs; auto simp: maximal_run_def takeWhile_tail hd_append)+
    with Nil show ?thesis by (simp add: scan_terms_word)
  next
    case (Cons c xs')
    have tail: "maximal_run word us ys zs" if "xs = ts @ us" for ts us
      using less.prems that by (auto simp: maximal_run_def)
    show ?thesis
    proof (cases "word c")
      case False
      with less.hyps[of xs' "off + length c"] tail[of "[c]" xs'] Cons show ?thesis
        by (simp add: add.assoc)
    next
      case True
      let ?t = "takeWhile word xs" and ?d = "dropWhile word xs"
      have last: "\<not> word (last xs)" using less.prems Cons by (simp add: maximal_run_def)
      then obtain x where x: "x \<in> set xs" "\<not> word x" using Cons by (metis last_in_set list.distinct(1))
      have eqs: "takeWhile word (xs @ ys @ zs) = ?t" "dropWhile word (xs @ ys @ zs) = ?d @ ys @ zs"
        using x by (simp_all add: takeWhile_append dropWhile_append) blast+
      have "length ?d < length xs" using Cons True by (simp add: length_dropWhile_le le_imp_less_Suc)
      from less.hyps[OF this tail, of ?t "off + length (concat ?t)"]
      have "run_span (off + length (concat ?t)) ?d ys
          \<in> set (scan_terms word (off + length (concat ?t)) None (?d @ ys @ zs))" by simp
      moreover have "off + length (concat xs) = off + length (concat ?t) + length (concat ?d)"
        by (metis add.assoc concat_append length_append takeWhile_dropWhile_id)
      ultimately show ?thesis
        using scan_terms_word[of "xs @ ys @ zs" word off] Cons True unfolding eqs
        by (simp del: scan_terms.simps takeWhile.simps dropWhile.simps add: add.assoc)
    qed
  qed
qed

lemma reported_run_maximal:
  "sp \<in> set (scan_terms word off None cs) \<Longrightarrow>
     \<exists>xs ys zs. cs = xs @ ys @ zs \<and> maximal_run word xs ys zs \<and> sp = run_span off xs ys"
proof (induction "length cs" arbitrary: cs off rule: less_induct)
  case less
  show ?case
  proof (cases cs)
    case Nil
    with less.prems show ?thesis by simp
  next
    case (Cons c cs')
    show ?thesis
    proof (cases "word c")
      case False
      then obtain xs ys zs where "cs' = xs @ ys @ zs" "maximal_run word xs ys zs"
          "sp = run_span (off + length c) xs ys"
        using less.hyps[of cs' "off + length c"] less.prems Cons by auto
      then show ?thesis using Cons False
        by (intro exI[of _ "c # xs"] exI[of _ ys] exI[of _ zs]) (auto simp: maximal_run_def add.assoc)
    next
      case True
      let ?t = "takeWhile word cs" and ?d = "dropWhile word cs"
      have t: "?t \<noteq> []" "\<forall>c\<in>set ?t. word c" using Cons True by (auto dest: set_takeWhileD)
      have d: "?d = [] \<or> \<not> word (hd ?d)" using hd_dropWhile[of word cs] by blast
      have cs: "cs = ?t @ ?d" by simp
      from less.prems Cons True consider "sp = run_span off [] ?t"
        | "sp \<in> set (scan_terms word (off + length (concat ?t)) None ?d)"
        by (auto simp: scan_terms_word simp del: scan_terms.simps)
      then show ?thesis
      proof cases
        case 1
        with t d show ?thesis
          by (intro exI[of _ "[]"] exI[of _ ?t] exI[of _ ?d]) (simp add: maximal_run_def)
      next
        case 2
        have "length ?d < length cs" using Cons True by (simp add: length_dropWhile_le le_imp_less_Suc)
        from less.hyps[OF this 2] obtain xs ys zs where
          R: "?d = xs @ ys @ zs" "maximal_run word xs ys zs" "sp = run_span (off + length (concat ?t)) xs ys"
          by blast
        have "xs \<noteq> []" using R(1,2) d by (auto simp: maximal_run_def hd_append)
        with R(2) have "maximal_run word (?t @ xs) ys zs" by (simp add: maximal_run_def)
        moreover have "cs = (?t @ xs) @ ys @ zs" using cs R(1) by (metis append_assoc)
        ultimately show ?thesis using R(3)
          by (intro exI[of _ "?t @ xs"] exI[of _ ys] exI[of _ zs]) (simp add: add.assoc)
      qed
    qed
  qed
qed

text \<open>Terms start at increasing offsets.\<close>

abbreviation span_start :: "term_span \<Rightarrow> usize" where
  "span_start sp \<equiv> fst (snd sp)"

lemma scan_terms_starts:
  "[] \<notin> set cs \<Longrightarrow> sorted_wrt (<) (map span_start (scan_terms word off None cs))
     \<and> (\<forall>sp\<in>set (scan_terms word off None cs). off \<le> span_start sp)"
proof (induction "length cs" arbitrary: cs off rule: less_induct)
  case less
  show ?case
  proof (cases cs)
    case (Cons c cs')
    show ?thesis
    proof (cases "word c")
      case False
      with less.hyps[of cs' "off + length c"] less.prems Cons show ?thesis by fastforce
    next
      case True
      let ?t = "takeWhile word cs" and ?d = "dropWhile word cs"
      have shorter: "length ?d < length cs" using Cons True by (simp add: length_dropWhile_le le_imp_less_Suc)
      have "[] \<notin> set ?d" using less.prems set_dropWhileD[of _ word cs] by blast
      note rest = less.hyps[OF shorter this, of "off + length (concat ?t)"]
      have "length (concat ?t) > 0" using Cons True less.prems by (cases c) auto
      then have "off < span_start sp"
        if "sp \<in> set (scan_terms word (off + length (concat ?t)) None ?d)" for sp
        using bspec[OF conjunct2[OF rest] that] by linarith
      moreover have "scan_terms word off None cs =
          run_span off [] ?t # scan_terms word (off + length (concat ?t)) None ?d"
        using Cons True by (intro scan_terms_word) simp_all
      ultimately show ?thesis using rest by (simp del: scan_terms.simps add: less_imp_le)
    qed
  qed simp
qed

lemma utf8_chars_nonempty: "[] \<notin> set (utf8_chars s)"
  by (induction s rule: utf8_chars.induct) auto

lemma lexical_starts_distinct: "distinct (map span_start (lexical_terms word s))"
  using scan_terms_starts[OF utf8_chars_nonempty, of word 0 s]
  by (simp add: lexical_terms_def strict_sorted_iff)

text \<open>
  The indexed terms of a text are exactly its maximal runs of word characters, each with the
  byte range it occupies.
\<close>

theorem lexical_terms_exact:
  "sp \<in> set (lexical_terms word s) \<longleftrightarrow>
    (\<exists>xs ys zs. utf8_chars s = xs @ ys @ zs \<and> maximal_run word xs ys zs \<and> sp = run_span 0 xs ys)"
  unfolding lexical_terms_def using maximal_run_reported[of word _ _ _ 0] reported_run_maximal[of sp word 0]
  by metis

end
