(* ===== verification/Bytes.thy ===== *)
theory Bytes
  imports Rust_Str
begin

text \<open>
  Fixed-width little-endian integers in byte strings: \<open>to_le_bytes\<close> and \<open>from_le_bytes\<close> of the
  standard library, on the natural value of the integer.
\<close>

fun le_bytes :: "nat \<Rightarrow> nat \<Rightarrow> string" where
  "le_bytes 0 v = []"
| "le_bytes (Suc n) v = char_of (v mod 256) # le_bytes n (v div 256)"

fun le_value :: "string \<Rightarrow> nat" where
  "le_value [] = 0"
| "le_value (c # cs) = byte c + 256 * le_value cs"

lemma length_le_bytes [simp]: "length (le_bytes n v) = n"
  by (induction n arbitrary: v) auto

lemma byte_bound: "byte c < 256"
  by simp

lemma le_value_bound: "le_value cs < 256 ^ length cs"
proof (induction cs)
  case (Cons c cs)
  have "b + 256 * v < 256 * m" if "b < 256" "v < m" for b v m :: nat
    using that by linarith
  from this[OF byte_bound Cons] show ?case by simp
qed simp

lemma le_value_le_bytes [codec_simps]: "le_value (le_bytes n v) = v mod 256 ^ n"
proof (induction n arbitrary: v)
  case (Suc n)
  have "v mod 256 + 256 * (v div 256 mod 256 ^ n) = v mod (256 * 256 ^ n)"
    by (simp only: mod_mult2_eq[of v 256 "256 ^ n"] add.commute)
  with Suc show ?case by simp
qed simp

lemma le_bytes_le_value [codec_simps]: "length cs = n \<Longrightarrow> le_bytes n (le_value cs) = cs"
proof (induction cs arbitrary: n)
  case (Cons c cs)
  have "byte c < 256" by (rule byte_bound)
  with Cons show ?case by (cases n) simp_all
qed simp

definition u32_le :: "u32 \<Rightarrow> string" where "u32_le w = le_bytes 4 (unat w)"
definition u64_le :: "u64 \<Rightarrow> string" where "u64_le w = le_bytes 8 (unat w)"
definition u32_of_le :: "string \<Rightarrow> u32" where "u32_of_le s = of_nat (le_value s)"
definition u64_of_le :: "string \<Rightarrow> u64" where "u64_of_le s = of_nat (le_value s)"

lemma length_u32_le [simp]: "length (u32_le w) = 4"
  by (simp add: u32_le_def)

lemma length_u64_le [simp]: "length (u64_le w) = 8"
  by (simp add: u64_le_def)

lemma u64_of_le_u64_le [simp, codec_simps]: "u64_of_le (u64_le w) = w"
proof -
  have "unat w < 256 ^ 8" using unsigned_less[of w, where 'a = nat] by simp
  then show ?thesis by (simp add: u64_of_le_def u64_le_def le_value_le_bytes)
qed

lemma u32_of_le_u32_le [simp, codec_simps]: "u32_of_le (u32_le w) = w"
proof -
  have "unat w < 256 ^ 4" using unsigned_less[of w, where 'a = nat] by simp
  then show ?thesis by (simp add: u32_of_le_def u32_le_def le_value_le_bytes)
qed

end
