(* ===== verification/Artifact_Cache.thy ===== *)
theory Artifact_Cache
  imports Bytes Samples
begin

text \<open>
  \<open>crates/kide-core/src/artifact_cache.rs\<close>: the shared store of immutable dependency payloads. The
  cache directory \<open>root/v1\<close> is a map from file names to contents. The operations are first given as
  one process runs them alone; then a step relation interleaves any number of publishing processes
  that may stop at any point. SHA-256 and the JSON writer are arguments; timings are not modelled.
\<close>

section \<open>Keys and headers\<close>

definition ARTIFACT_BLOB_LAYOUT_VERSION :: u32 where "ARTIFACT_BLOB_LAYOUT_VERSION = 1"

definition CACHE_MAGIC :: string where "CACHE_MAGIC = ''KIDEBLB1''"

definition CACHE_HEADER_SIZE :: usize where "CACHE_HEADER_SIZE = length CACHE_MAGIC + 4 + 32 + 8"

datatype blob_cache_error =
  CacheIo
| CacheInvalidHeader
| TruncatedPayload u64
| StagedLengthMismatch u64 u64
| StagedChecksumMismatch

definition key_new :: "fingerprint \<Rightarrow> fingerprint \<Rightarrow> provenance \<Rightarrow> artifact_blob_key" where
  "key_new artifact ctxt prov =
     ArtifactBlobKey (identity_unattributed artifact ctxt prov ARTIFACT_BLOB_LAYOUT_VERSION)"

text \<open>The digest function on keys: SHA-256 of the canonical JSON of the identity.\<close>

type_synonym digester = "artifact_blob_key \<Rightarrow> string"

definition key_digest :: "(string \<Rightarrow> string) \<Rightarrow> (dependency_identity \<Rightarrow> string) \<Rightarrow> digester" where
  "key_digest sha256 json key = sha256 (json (key_identity key))"

definition key_filename :: "digester \<Rightarrow> artifact_blob_key \<Rightarrow> string" where
  "key_filename digest key = hex (digest key) @ ''.blob''"

text \<open>What \<open>write_blob_stream\<close> puts before the payload.\<close>

definition blob_header :: "digester \<Rightarrow> artifact_blob_key \<Rightarrow> u64 \<Rightarrow> string" where
  "blob_header digest key payload_len =
     CACHE_MAGIC @ u32_le 1 @ digest key @ u64_le payload_len"

definition validate_header :: "digester \<Rightarrow> string \<Rightarrow> artifact_blob_key \<Rightarrow> (blob_cache_error, u64) result" where
  "validate_header digest bytes key =
     (if length bytes \<noteq> CACHE_HEADER_SIZE \<or> take 8 bytes \<noteq> CACHE_MAGIC
         \<or> take 4 (drop 8 bytes) \<noteq> u32_le 1 then Err CacheInvalidHeader
      else if take 32 (drop 12 bytes) \<noteq> digest key then Err CacheInvalidHeader
      else Ok (u64_of_le (take 8 (drop 44 bytes))))"

section \<open>Reading\<close>

type_synonym cache_files = "string \<Rightarrow> string option"

text \<open>\<open>ArtifactBlob\<close>: the opened file and the length its header declares.\<close>

record artifact_blob =
  ab_file :: string
  ab_payload_len :: u64

definition open_blob ::
    "digester \<Rightarrow> artifact_blob_key \<Rightarrow> cache_files \<Rightarrow> (blob_cache_error, artifact_blob option) result" where
  "open_blob digest key fs =
     (case fs (key_filename digest key) of
        None \<Rightarrow> Ok None
      | Some file \<Rightarrow>
          if length file < CACHE_HEADER_SIZE then Err CacheInvalidHeader
          else and_then (validate_header digest (take CACHE_HEADER_SIZE file) key) (\<lambda>payload_len.
            if of_nat (length file) \<noteq> of_nat CACHE_HEADER_SIZE + payload_len then Err CacheInvalidHeader
            else Ok (Some \<lparr> ab_file = file, ab_payload_len = payload_len \<rparr>)))"

definition read_range :: "artifact_blob \<Rightarrow> u64 \<Rightarrow> usize \<Rightarrow> (blob_cache_error, string) result" where
  "read_range b offset len =
     (if unat offset + len \<ge> 2 ^ 64 then Err CacheInvalidHeader
      else if unat offset + len > unat (ab_payload_len b) then Err CacheInvalidHeader
      else let start = CACHE_HEADER_SIZE + unat offset
        in if start + len \<le> length (ab_file b) then Ok (take len (drop start (ab_file b)))
           else Err CacheIo)"

definition read_all :: "artifact_blob \<Rightarrow> (blob_cache_error, string) result" where
  "read_all b = read_range b 0 (unat (ab_payload_len b))"

definition load :: "digester \<Rightarrow> artifact_blob_key \<Rightarrow> cache_files \<Rightarrow> (blob_cache_error, string option) result" where
  "load digest key fs =
     and_then (open_blob digest key fs) (\<lambda>found.
       case found of None \<Rightarrow> Ok None | Some b \<Rightarrow> and_then (read_all b) (\<lambda>bytes. Ok (Some bytes)))"

section \<open>Publishing\<close>

definition remove_invalid :: "digester \<Rightarrow> artifact_blob_key \<Rightarrow> cache_files \<Rightarrow> bool \<times> cache_files" where
  "remove_invalid digest key fs =
     (let name = key_filename digest key
      in if fs name = None then (False, fs) else (True, fs(name := None)))"

definition temporary_name :: "digester \<Rightarrow> artifact_blob_key \<Rightarrow> nat \<Rightarrow> string" where
  "temporary_name digest key pid = ''.'' @ key_filename digest key @ ''.tmp-'' @ decimal pid"

text \<open>
  The bytes \<open>write_blob_stream\<close> leaves in the file and its result; \<open>payload\<close> is what the reader
  delivers until its end.
\<close>

definition write_blob_stream ::
    "digester \<Rightarrow> artifact_blob_key \<Rightarrow> u64 \<Rightarrow> string \<Rightarrow> (blob_cache_error, unit) result \<times> string" where
  "write_blob_stream digest key payload_len payload =
     (let copied = take (unat payload_len) payload
      in (if length copied \<noteq> unat payload_len then Err (TruncatedPayload payload_len) else Ok (),
          blob_header digest key payload_len @ copied))"

text \<open>
  The calls on the file system can fail: the creation of the directory or of the temporary file, a write, a read of
  the payload or the final sync with some bytes written, the link, after which the temporary file may or may not
  be removed, and the removal of the temporary file after a successful link.
\<close>

datatype publish_fault = NoFault | PrepareFails | WriteFails nat | LinkFails bool | UnlinkFails

definition publish_stream ::
    "digester \<Rightarrow> nat \<Rightarrow> artifact_blob_key \<Rightarrow> u64 \<Rightarrow> string \<Rightarrow> publish_fault \<Rightarrow> cache_files
     \<Rightarrow> (blob_cache_error, bool) result \<times> cache_files" where
  "publish_stream digest pid key payload_len payload fault fs =
     (let destination = key_filename digest key; temporary = temporary_name digest key pid
      in if fs destination \<noteq> None then (Ok False, fs)
         else if fault = PrepareFails then (Err CacheIo, fs)
         else if fs temporary \<noteq> None then (Ok False, fs)
         else
           let (written, bytes) = write_blob_stream digest key payload_len payload
           in case fault of
                WriteFails n \<Rightarrow> (Err CacheIo, fs(temporary \<mapsto> take n bytes))
              | _ \<Rightarrow>
                  (case written of
                     Inl e \<Rightarrow> (Err e, fs(temporary \<mapsto> bytes))
                   | Inr _ \<Rightarrow>
                       (case fault of
                          LinkFails kept \<Rightarrow> (Err CacheIo, if kept then fs(temporary \<mapsto> bytes) else fs)
                        | UnlinkFails \<Rightarrow> (Err CacheIo, fs(temporary \<mapsto> bytes, destination \<mapsto> bytes))
                        | _ \<Rightarrow> (Ok True, fs(destination \<mapsto> bytes)))))"

definition publish_payload ::
    "digester \<Rightarrow> nat \<Rightarrow> artifact_blob_key \<Rightarrow> string \<Rightarrow> publish_fault \<Rightarrow> cache_files
     \<Rightarrow> (blob_cache_error, bool) result \<times> cache_files" where
  "publish_payload digest pid key payload fault fs =
     publish_stream digest pid key (of_nat (length payload)) payload fault fs"

text \<open>
  \<open>promote_staged\<close> opens the staged file twice: \<open>checked\<close> is its content when the checksum is
  computed, \<open>published\<close> when it is copied.
\<close>

definition promote_staged ::
    "digester \<Rightarrow> (string \<Rightarrow> string) \<Rightarrow> nat \<Rightarrow> artifact_blob_key \<Rightarrow> string \<Rightarrow> string \<Rightarrow> u64 \<Rightarrow> string \<Rightarrow> publish_fault
     \<Rightarrow> cache_files \<Rightarrow> (blob_cache_error, bool) result \<times> cache_files" where
  "promote_staged digest sha256 pid key checked published expected_length expected_sha256 fault fs =
     (if of_nat (length checked) \<noteq> expected_length
      then (Err (StagedLengthMismatch expected_length (of_nat (length checked))), fs)
      else if sha256 checked \<noteq> expected_sha256 then (Err StagedChecksumMismatch, fs)
      else publish_stream digest pid key expected_length published fault fs)"

section \<open>Headers are recognised\<close>

lemma CACHE_HEADER_SIZE_eq [simp]: "CACHE_HEADER_SIZE = 52"
  by (simp add: CACHE_HEADER_SIZE_def CACHE_MAGIC_def)

lemma length_CACHE_MAGIC [simp]: "length CACHE_MAGIC = 8"
  by (simp add: CACHE_MAGIC_def)

text \<open>The file a complete publication leaves.\<close>

definition blob_file :: "digester \<Rightarrow> artifact_blob_key \<Rightarrow> string \<Rightarrow> string" where
  "blob_file digest key payload = blob_header digest key (of_nat (length payload)) @ payload"

lemma blob_header_fields:
  assumes "length (digest key) = 32"
  shows "length (blob_header digest key n) = 52" "take 8 (blob_header digest key n) = CACHE_MAGIC"
    "take 4 (drop 8 (blob_header digest key n)) = u32_le 1"
    "take 32 (drop 12 (blob_header digest key n)) = digest key"
    "take 8 (drop 44 (blob_header digest key n)) = u64_le n"
  using assms by (simp_all add: blob_header_def)

lemma validate_blob_header:
  assumes "length (digest key) = 32" "digest key = digest key'"
  shows "validate_header digest (blob_header digest key n) key' = Ok n"
  using assms blob_header_fields[of digest key n] by (simp add: validate_header_def)

lemma open_blob_file:
  assumes "length (digest key) = 32" "digest key = digest key'"
    and "fs (key_filename digest key') = Some (blob_file digest key payload)"
  shows "open_blob digest key' fs =
    Ok (Some \<lparr> ab_file = blob_file digest key payload, ab_payload_len = of_nat (length payload) \<rparr>)"
proof -
  have "take 52 (blob_file digest key payload) = blob_header digest key (of_nat (length payload))"
    "length (blob_file digest key payload) = 52 + length payload"
    using blob_header_fields(1)[of digest key] assms(1) by (simp_all add: blob_file_def)
  then show ?thesis
    using assms(3) validate_blob_header[OF assms(1,2)] by (simp add: open_blob_def)
qed

lemma read_all_blob_file:
  assumes "length (digest key) = 32" "length payload < 2 ^ 64"
  shows "read_all \<lparr> ab_file = blob_file digest key payload, ab_payload_len = of_nat (length payload) \<rparr> = Ok payload"
proof -
  have "unat (of_nat (length payload) :: u64) = length payload"
    using assms(2) by (simp only: unat_of_nat take_bit_nat_eq_self_iff) simp
  moreover have "length (blob_file digest key payload) = 52 + length payload"
    "drop 52 (blob_file digest key payload) = payload"
    using blob_header_fields(1)[of digest key] assms(1) by (simp_all add: blob_file_def)
  ultimately show ?thesis using assms(2) by (simp add: read_all_def read_range_def)
qed

section \<open>Publishing processes\<close>

text \<open>
  \<open>publish_stream\<close> as the sequence of its file system calls. Any number of publishers run
  interleaved, each with its job; between two calls of one, the others may make theirs. A write
  may append any number of bytes, and a publisher may fail or stop anywhere.
\<close>

record publish_job =
  pj_key :: artifact_blob_key
  pj_len :: u64
  pj_payload :: string
  pj_pid :: nat

datatype publish_phase =
  PStart
| PChecked
| PWriting nat
| PWritten
| PLinked
| PLost
| PDone "(blob_cache_error, bool) result"
| PStopped

record cache_system =
  cs_files :: cache_files
  cs_phase :: "nat \<Rightarrow> publish_phase"

abbreviation job_destination :: "digester \<Rightarrow> publish_job \<Rightarrow> string" where
  "job_destination digest j \<equiv> key_filename digest (pj_key j)"

abbreviation job_temporary :: "digester \<Rightarrow> publish_job \<Rightarrow> string" where
  "job_temporary digest j \<equiv> temporary_name digest (pj_key j) (pj_pid j)"

definition job_payload :: "publish_job \<Rightarrow> string" where
  "job_payload j = take (unat (pj_len j)) (pj_payload j)"

definition job_bytes :: "digester \<Rightarrow> publish_job \<Rightarrow> string" where
  "job_bytes digest j = blob_header digest (pj_key j) (pj_len j) @ job_payload j"

definition job_complete :: "publish_job \<Rightarrow> bool" where
  "job_complete j = (length (job_payload j) = unat (pj_len j))"

definition move :: "nat \<Rightarrow> publish_phase \<Rightarrow> cache_files \<Rightarrow> cache_system \<Rightarrow> cache_system" where
  "move p phase fs s = \<lparr> cs_files = fs, cs_phase = (cs_phase s)(p := phase) \<rparr>"

inductive cache_step ::
    "digester \<Rightarrow> (nat \<Rightarrow> publish_job) \<Rightarrow> bool \<Rightarrow> cache_system \<Rightarrow> cache_system \<Rightarrow> bool"
  for digest jobs removals where
  found: "cs_phase s p = PStart \<Longrightarrow> cs_files s (job_destination digest (jobs p)) \<noteq> None \<Longrightarrow>
    cache_step digest jobs removals s (move p (PDone (Ok False)) (cs_files s) s)"
| absent: "cs_phase s p = PStart \<Longrightarrow> cs_files s (job_destination digest (jobs p)) = None \<Longrightarrow>
    cache_step digest jobs removals s (move p PChecked (cs_files s) s)"
| prepare_failed: "cs_phase s p = PChecked \<Longrightarrow>
    cache_step digest jobs removals s (move p (PDone (Err CacheIo)) (cs_files s) s)"
| create: "cs_phase s p = PChecked \<Longrightarrow> cs_files s (job_temporary digest (jobs p)) = None \<Longrightarrow>
    cache_step digest jobs removals s
      (move p (PWriting 0) ((cs_files s)(job_temporary digest (jobs p) \<mapsto> [])) s)"
| taken: "cs_phase s p = PChecked \<Longrightarrow> cs_files s (job_temporary digest (jobs p)) \<noteq> None \<Longrightarrow>
    cache_step digest jobs removals s (move p (PDone (Ok False)) (cs_files s) s)"
| wrote: "cs_phase s p = PWriting n \<Longrightarrow> n < m \<Longrightarrow> m \<le> length (job_bytes digest (jobs p)) \<Longrightarrow>
    cache_step digest jobs removals s
      (move p (PWriting m)
        ((cs_files s)(job_temporary digest (jobs p) \<mapsto> take m (job_bytes digest (jobs p)))) s)"
| finish: "cs_phase s p = PWriting (length (job_bytes digest (jobs p))) \<Longrightarrow> job_complete (jobs p) \<Longrightarrow>
    cache_step digest jobs removals s (move p PWritten (cs_files s) s)"
| truncated: "cs_phase s p = PWriting (length (job_bytes digest (jobs p))) \<Longrightarrow> \<not> job_complete (jobs p) \<Longrightarrow>
    cache_step digest jobs removals s
      (move p (PDone (Err (TruncatedPayload (pj_len (jobs p))))) (cs_files s) s)"
| write_failed: "cs_phase s p = PWriting n \<Longrightarrow>
    cache_step digest jobs removals s (move p (PDone (Err CacheIo)) (cs_files s) s)"
| link: "cs_phase s p = PWritten \<Longrightarrow> cs_files s (job_destination digest (jobs p)) = None \<Longrightarrow>
    cache_step digest jobs removals s
      (move p PLinked ((cs_files s)(job_destination digest (jobs p)
         := cs_files s (job_temporary digest (jobs p)))) s)"
| lost: "cs_phase s p = PWritten \<Longrightarrow> cs_files s (job_destination digest (jobs p)) \<noteq> None \<Longrightarrow>
    cache_step digest jobs removals s (move p PLost (cs_files s) s)"
| link_failed: "cs_phase s p = PWritten \<Longrightarrow>
    cache_step digest jobs removals s
      (move p (PDone (Err CacheIo)) ((cs_files s)(job_temporary digest (jobs p) := None)) s)"
| link_failed_kept: "cs_phase s p = PWritten \<Longrightarrow>
    cache_step digest jobs removals s (move p (PDone (Err CacheIo)) (cs_files s) s)"
| unlink: "cs_phase s p = PLinked \<Longrightarrow>
    cache_step digest jobs removals s
      (move p (PDone (Ok True)) ((cs_files s)(job_temporary digest (jobs p) := None)) s)"
| unlink_lost: "cs_phase s p = PLost \<Longrightarrow>
    cache_step digest jobs removals s
      (move p (PDone (Ok False)) ((cs_files s)(job_temporary digest (jobs p) := None)) s)"
| unlink_failed: "cs_phase s p = PLinked \<or> cs_phase s p = PLost \<Longrightarrow>
    cache_step digest jobs removals s (move p (PDone (Err CacheIo)) (cs_files s) s)"
| stop: "cache_step digest jobs removals s (move p PStopped (cs_files s) s)"
| removal: "removals \<Longrightarrow>
    cache_step digest jobs removals s (s\<lparr>cs_files := snd (remove_invalid digest key (cs_files s))\<rparr>)"

definition cache_start :: "cache_files \<Rightarrow> cache_system" where
  "cache_start fs = \<lparr> cs_files = fs, cs_phase = \<lambda>_. PStart \<rparr>"

inductive cache_reachable ::
    "digester \<Rightarrow> (nat \<Rightarrow> publish_job) \<Rightarrow> bool \<Rightarrow> cache_files \<Rightarrow> cache_system \<Rightarrow> bool"
  for digest jobs removals fs where
  start: "cache_reachable digest jobs removals fs (cache_start fs)"
| step: "cache_reachable digest jobs removals fs s \<Longrightarrow> cache_step digest jobs removals s t \<Longrightarrow>
    cache_reachable digest jobs removals fs t"

section \<open>The invariant of the cache directory\<close>

definition active :: "publish_phase \<Rightarrow> bool" where
  "active phase = (case phase of PWriting _ \<Rightarrow> True | PWritten \<Rightarrow> True | PLinked \<Rightarrow> True | PLost \<Rightarrow> True
     | _ \<Rightarrow> False)"

text \<open>The bytes a publisher's temporary file holds in a phase.\<close>

definition temporary_holds :: "digester \<Rightarrow> publish_job \<Rightarrow> publish_phase \<Rightarrow> string option \<Rightarrow> bool" where
  "temporary_holds digest j phase content =
     (case phase of PWriting n \<Rightarrow> content = Some (take n (job_bytes digest j))
      | PWritten \<Rightarrow> content = Some (job_bytes digest j) \<and> job_complete j
      | PLinked \<Rightarrow> content \<noteq> None
      | PLost \<Rightarrow> content \<noteq> None
      | _ \<Rightarrow> True)"

text \<open>A file under a key's name is a complete blob: an original one or that of a job.\<close>

definition blob_origin ::
    "digester \<Rightarrow> (nat \<Rightarrow> publish_job) \<Rightarrow> cache_files \<Rightarrow> string \<Rightarrow> string \<Rightarrow> bool" where
  "blob_origin digest jobs fs name content =
     (fs name = Some content
      \<or> (\<exists>p. name = job_destination digest (jobs p) \<and> content = job_bytes digest (jobs p)
           \<and> job_complete (jobs p)))"

definition cache_inv :: "digester \<Rightarrow> (nat \<Rightarrow> publish_job) \<Rightarrow> cache_files \<Rightarrow> cache_system \<Rightarrow> bool" where
  "cache_inv digest jobs fs s =
     ((\<forall>key content. cs_files s (key_filename digest key) = Some content \<longrightarrow>
         blob_origin digest jobs fs (key_filename digest key) content)
      \<and> (\<forall>p. temporary_holds digest (jobs p) (cs_phase s p) (cs_files s (job_temporary digest (jobs p))))
      \<and> (\<forall>p q. active (cs_phase s p) \<longrightarrow> active (cs_phase s q) \<longrightarrow>
           job_temporary digest (jobs p) = job_temporary digest (jobs q) \<longrightarrow> p = q))"

lemma temporary_not_destination: "temporary_name digest key pid \<noteq> key_filename digest key'"
proof
  assume eq: "temporary_name digest key pid = key_filename digest key'"
  show False
  proof (cases "digest key'")
    case Nil
    with eq show False by (simp add: temporary_name_def key_filename_def hex_def)
  next
    case (Cons b bs)
    have "byte (hex_digit (byte b div 16)) \<noteq> 46"
      by (simp add: byte_hex_digit less_mult_imp_div_less[of _ 16 16])
    moreover have "hd (key_filename digest key') = hex_digit (byte b div 16)"
      using Cons by (simp add: key_filename_def hex_Cons hex_byte_def)
    moreover have "hd (temporary_name digest key pid) = CHR ''.''" by (simp add: temporary_name_def)
    moreover have "byte (CHR ''.'') = 46" by simp
    ultimately show False using eq by metis
  qed
qed

lemma active_holds:
  "active phase \<Longrightarrow> temporary_holds digest j phase content \<Longrightarrow> content \<noteq> None"
  by (cases phase) (auto simp: active_def temporary_holds_def)

lemma cache_inv_start: "cache_inv digest jobs fs (cache_start fs)"
  by (auto simp: cache_inv_def cache_start_def blob_origin_def active_def temporary_holds_def)

text \<open>
  What a call of one publisher has to respect: the blobs it leaves under key names are complete,
  the temporary files of the other active publishers stay as they are, and a publisher becomes
  active only where no temporary file of its name exists.
\<close>

lemma cache_inv_move:
  assumes inv: "cache_inv digest jobs fs s"
    and blobs: "\<And>key content. fs' (key_filename digest key) = Some content \<Longrightarrow>
      cs_files s (key_filename digest key) = Some content
      \<or> blob_origin digest jobs fs (key_filename digest key) content"
    and others: "\<And>q. q \<noteq> p \<Longrightarrow> active (cs_phase s q) \<Longrightarrow>
      fs' (job_temporary digest (jobs q)) = cs_files s (job_temporary digest (jobs q))"
    and own: "temporary_holds digest (jobs p) phase (fs' (job_temporary digest (jobs p)))"
    and start: "active phase \<Longrightarrow> active (cs_phase s p) \<or> cs_files s (job_temporary digest (jobs p)) = None"
  shows "cache_inv digest jobs fs (move p phase fs' s)"
  unfolding cache_inv_def
proof (intro conjI allI impI)
  fix key content
  assume "cs_files (move p phase fs' s) (key_filename digest key) = Some content"
  then show "blob_origin digest jobs fs (key_filename digest key) content"
    using blobs inv unfolding cache_inv_def by (auto simp: move_def)
next
  fix q
  show "temporary_holds digest (jobs q) (cs_phase (move p phase fs' s) q)
      (cs_files (move p phase fs' s) (job_temporary digest (jobs q)))"
  proof (cases "q = p")
    case True
    with own show ?thesis by (simp add: move_def)
  next
    case False
    have "temporary_holds digest (jobs q) (cs_phase s q) (cs_files s (job_temporary digest (jobs q)))"
      using inv by (simp add: cache_inv_def)
    moreover have "temporary_holds digest (jobs q) ph c" if "\<not> active ph" for ph c
      using that by (cases ph) (auto simp: active_def temporary_holds_def)
    ultimately show ?thesis using others[OF False] False
      by (cases "active (cs_phase s q)") (simp_all add: move_def)
  qed
next
  fix q r
  assume A: "active (cs_phase (move p phase fs' s) q)" "active (cs_phase (move p phase fs' s) r)"
    "job_temporary digest (jobs q) = job_temporary digest (jobs r)"
  have unique: "q' = r'" if "active (cs_phase s q')" "active (cs_phase s r')"
      "job_temporary digest (jobs q') = job_temporary digest (jobs r')" for q' r'
    using inv that unfolding cache_inv_def by blast
  have taken: "cs_files s (job_temporary digest (jobs q')) \<noteq> None" if "active (cs_phase s q')" for q'
    using inv that active_holds unfolding cache_inv_def by blast
  show "q = r"
    using A start unique taken unfolding move_def by (auto split: if_splits) (metis option.distinct(1))+
qed

lemma active_simps [simp]:
  "active (PWriting n)" "active PWritten" "active PLinked" "active PLost"
  "\<not> active PStart" "\<not> active PChecked" "\<not> active (PDone r)" "\<not> active PStopped"
  by (simp_all add: active_def)

lemma temporary_holds_simps [simp]:
  "temporary_holds digest j (PWriting n) c \<longleftrightarrow> c = Some (take n (job_bytes digest j))"
  "temporary_holds digest j PWritten c \<longleftrightarrow> c = Some (job_bytes digest j) \<and> job_complete j"
  "temporary_holds digest j PLinked c \<longleftrightarrow> c \<noteq> None"
  "temporary_holds digest j PLost c \<longleftrightarrow> c \<noteq> None"
  "temporary_holds digest j PStart c" "temporary_holds digest j PChecked c"
  "temporary_holds digest j (PDone r) c" "temporary_holds digest j PStopped c"
  by (simp_all add: temporary_holds_def)

lemma cache_inv_step:
  assumes "cache_step digest jobs removals s t" "cache_inv digest jobs fs s"
  shows "cache_inv digest jobs fs t"
proof -
  note inv = assms(2)
  have holds: "temporary_holds digest (jobs p) (cs_phase s p) (cs_files s (job_temporary digest (jobs p)))" for p
    using inv by (simp add: cache_inv_def)
  have taken: "cs_files s (job_temporary digest (jobs q)) \<noteq> None" if "active (cs_phase s q)" for q
    using holds active_holds that by blast
  have differ: "job_temporary digest (jobs q) \<noteq> job_temporary digest (jobs p)"
    if "q \<noteq> p" "active (cs_phase s q)" "active (cs_phase s p)" for p q
    using inv that unfolding cache_inv_def by blast
  have blob: "cs_files s (key_filename digest key) = Some content
      \<Longrightarrow> blob_origin digest jobs fs (key_filename digest key) content" for key content
    using inv by (simp add: cache_inv_def)
  note [simp] = temporary_not_destination temporary_not_destination[symmetric]
  from assms(1) show ?thesis
  proof cases
    case (create p)
    have "job_temporary digest (jobs q) \<noteq> job_temporary digest (jobs p)" if "active (cs_phase s q)" for q
      using taken[OF that] create by metis
    then show ?thesis unfolding create(1)
      using create by (intro cache_inv_move[OF inv]) auto
  next
    case (wrote p n m)
    show ?thesis unfolding wrote(1)
      using wrote differ[of _ p] by (intro cache_inv_move[OF inv]) auto
  next
    case (finish p)
    show ?thesis unfolding finish(1)
      using finish holds[of p] by (intro cache_inv_move[OF inv]) auto
  next
    case (link p)
    have "cs_files s (job_temporary digest (jobs p)) = Some (job_bytes digest (jobs p))"
      "job_complete (jobs p)" using holds[of p] link by auto
    then show ?thesis unfolding link(1)
      using link by (intro cache_inv_move[OF inv]) (auto simp: blob_origin_def split: if_splits)
  next
    case (lost p)
    show ?thesis unfolding lost(1)
      using lost holds[of p] by (intro cache_inv_move[OF inv]) auto
  next
    case (removal key)
    then show ?thesis using inv
      by (auto simp: cache_inv_def remove_invalid_def Let_def)
  next
    case (link_failed p)
    show ?thesis unfolding link_failed(1)
      using link_failed differ[of _ p] by (intro cache_inv_move[OF inv]) (auto split: if_splits)
  next
    case (unlink p)
    show ?thesis unfolding unlink(1)
      using unlink differ[of _ p] by (intro cache_inv_move[OF inv]) (auto split: if_splits)
  next
    case (unlink_lost p)
    show ?thesis unfolding unlink_lost(1)
      using unlink_lost differ[of _ p] by (intro cache_inv_move[OF inv]) (auto split: if_splits)
  qed (auto intro!: cache_inv_move[OF inv])
qed

lemma cache_inv_reachable:
  "cache_reachable digest jobs removals fs s \<Longrightarrow> cache_inv digest jobs fs s"
  by (induction rule: cache_reachable.induct) (auto intro: cache_inv_start cache_inv_step)

section \<open>Readers see complete blobs only\<close>

text \<open>A cache directory whose files under key names are complete blobs.\<close>

definition complete_cache :: "digester \<Rightarrow> cache_files \<Rightarrow> bool" where
  "complete_cache digest fs =
     (\<forall>key content. fs (key_filename digest key) = Some content \<longrightarrow>
        (\<exists>key' payload. digest key' = digest key \<and> content = blob_file digest key' payload
           \<and> length payload < 2 ^ 64))"

lemma job_bytes_blob_file:
  assumes "job_complete j"
  shows "job_bytes digest j = blob_file digest (pj_key j) (job_payload j)" "length (job_payload j) < 2 ^ 64"
proof -
  have len: "length (job_payload j) = unat (pj_len j)" using assms by (simp add: job_complete_def)
  then have "of_nat (length (job_payload j)) = pj_len j" by simp
  then show "job_bytes digest j = blob_file digest (pj_key j) (job_payload j)"
    by (simp add: job_bytes_def blob_file_def)
  show "length (job_payload j) < 2 ^ 64" using len unsigned_less[of "pj_len j", where 'a = nat] by simp
qed

lemma key_filename_inj: "key_filename digest key = key_filename digest' key' \<longleftrightarrow> digest key = digest' key'"
  by (auto simp: key_filename_def dest: hex_inj)

lemma load_blob_file:
  assumes "length (digest key) = 32" "digest key' = digest key" "length payload < 2 ^ 64"
    and "fs (key_filename digest key) = Some (blob_file digest key' payload)"
  shows "load digest key fs = Ok (Some payload)"
  using open_blob_file[of digest key' key fs payload] read_all_blob_file[of digest key' payload] assms
  by (simp add: load_def)

text \<open>
  C30. Whatever the interleaving of publishers, crashes and removals, a reader of the cache finds
  either no blob or the whole payload of an earlier blob or of a publication that completed its
  declared length, under the same digest; it never meets a partial or foreign file.
\<close>

theorem readers_see_complete_blobs:
  assumes "\<And>k. length (digest k) = 32" "complete_cache digest fs"
    and "cache_reachable digest jobs removals fs s"
  shows "load digest key (cs_files s) = Ok None
    \<or> (\<exists>payload. load digest key (cs_files s) = Ok (Some payload)
        \<and> (load digest key fs = Ok (Some payload)
           \<or> (\<exists>p. digest (pj_key (jobs p)) = digest key \<and> payload = job_payload (jobs p)
                \<and> job_complete (jobs p))))"
proof (cases "cs_files s (key_filename digest key)")
  case None
  then show ?thesis by (simp add: load_def open_blob_def)
next
  case (Some content)
  then have "blob_origin digest jobs fs (key_filename digest key) content"
    using cache_inv_reachable[OF assms(3)] by (simp add: cache_inv_def)
  then consider (original) "fs (key_filename digest key) = Some content"
    | (job) p where "digest key = digest (pj_key (jobs p))" "content = job_bytes digest (jobs p)"
        "job_complete (jobs p)"
    unfolding blob_origin_def key_filename_inj by blast
  then show ?thesis
  proof cases
    case original
    then obtain key' payload where "digest key' = digest key" "content = blob_file digest key' payload"
        "length payload < 2 ^ 64"
      using assms(2) unfolding complete_cache_def by blast
    then show ?thesis using original Some load_blob_file assms(1) by blast
  next
    case job
    have "load digest key (cs_files s) = Ok (Some (job_payload (jobs p)))"
      using job Some assms(1) job_bytes_blob_file[OF job(3)] by (intro load_blob_file[of digest key "pj_key (jobs p)"]) simp_all
    with job show ?thesis by auto
  qed
qed

section \<open>One publisher wins\<close>

definition wins :: "publish_phase \<Rightarrow> bool" where
  "wins phase = (phase = PLinked \<or> phase = PDone (Ok True))"

lemma wins_simps [simp]:
  "wins PLinked" "wins (PDone (Ok True))" "\<not> wins PStart" "\<not> wins PChecked" "\<not> wins (PWriting n)"
  "\<not> wins PWritten" "\<not> wins PLost" "\<not> wins PStopped" "\<not> wins (PDone (Ok False))" "\<not> wins (PDone (Err e))"
  by (auto simp: wins_def)

definition winners_inv :: "digester \<Rightarrow> (nat \<Rightarrow> publish_job) \<Rightarrow> cache_system \<Rightarrow> bool" where
  "winners_inv digest jobs s =
     ((\<forall>p. wins (cs_phase s p) \<longrightarrow> cs_files s (job_destination digest (jobs p)) \<noteq> None)
      \<and> (\<forall>p q. wins (cs_phase s p) \<longrightarrow> wins (cs_phase s q) \<longrightarrow>
           job_destination digest (jobs p) = job_destination digest (jobs q) \<longrightarrow> p = q))"

lemma winners_inv_move:
  assumes inv: "winners_inv digest jobs s"
    and keep: "\<And>key. cs_files s (key_filename digest key) \<noteq> None \<Longrightarrow> fs' (key_filename digest key) \<noteq> None"
    and win: "wins phase \<Longrightarrow> wins (cs_phase s p)
      \<or> cs_files s (job_destination digest (jobs p)) = None \<and> fs' (job_destination digest (jobs p)) \<noteq> None"
  shows "winners_inv digest jobs (move p phase fs' s)"
proof -
  have won: "cs_files s (job_destination digest (jobs q)) \<noteq> None" if "wins (cs_phase s q)" for q
    using inv that unfolding winners_inv_def by blast
  have unique: "q = r" if "wins (cs_phase s q)" "wins (cs_phase s r)"
      "job_destination digest (jobs q) = job_destination digest (jobs r)" for q r
    using inv that unfolding winners_inv_def by blast
  show ?thesis
    unfolding winners_inv_def
  proof (intro conjI allI impI)
    fix q
    assume "wins (cs_phase (move p phase fs' s) q)"
    then show "cs_files (move p phase fs' s) (job_destination digest (jobs q)) \<noteq> None"
      using win keep won by (auto simp: move_def split: if_splits)
  next
    fix q r
    assume "wins (cs_phase (move p phase fs' s) q)" "wins (cs_phase (move p phase fs' s) r)"
      "job_destination digest (jobs q) = job_destination digest (jobs r)"
    then show "q = r"
      using win won unique unfolding move_def by (auto split: if_splits) (metis option.distinct(1))+
  qed
qed

lemma winners_inv_step:
  assumes "cache_step digest jobs False s t" "winners_inv digest jobs s" "cache_inv digest jobs fs s"
  shows "winners_inv digest jobs t"
proof -
  note [simp] = temporary_not_destination temporary_not_destination[symmetric]
  from assms(1) show ?thesis
  proof cases
    case (link p)
    have "temporary_holds digest (jobs p) (cs_phase s p) (cs_files s (job_temporary digest (jobs p)))"
      using assms(3) by (simp add: cache_inv_def)
    then show ?thesis unfolding link(1) using link
      by (intro winners_inv_move[OF assms(2)]) auto
  next
    case (unlink p)
    then show ?thesis unfolding unlink(1) by (intro winners_inv_move[OF assms(2)]) auto
  qed (auto intro!: winners_inv_move[OF assms(2)])
qed

lemma winners_inv_reachable:
  "cache_reachable digest jobs False fs s \<Longrightarrow> winners_inv digest jobs s"
proof (induction rule: cache_reachable.induct)
  case start
  then show ?case by (simp add: winners_inv_def cache_start_def)
next
  case (step s t)
  then show ?case using winners_inv_step cache_inv_reachable by blast
qed

text \<open>
  As long as no blob is removed, at most one publisher of a key reports that it populated the
  cache, and what it reported is there.
\<close>

theorem one_publisher_wins:
  assumes "cache_reachable digest jobs False fs s"
    and "cs_phase s p = PDone (Ok True)" "cs_phase s q = PDone (Ok True)"
    and "digest (pj_key (jobs p)) = digest (pj_key (jobs q))"
  shows "p = q \<and> cs_files s (job_destination digest (jobs p)) \<noteq> None"
  using winners_inv_reachable[OF assms(1)] assms(2-4)
  unfolding winners_inv_def key_filename_inj by (metis wins_simps(2))

section \<open>The operation alone\<close>

text \<open>\<open>publish_stream\<close> is one execution of a publisher that no other step interrupts.\<close>

lemma move_move [simp]: "move p phase' fs' (move p phase fs s) = move p phase' fs' s"
  by (simp add: move_def)

lemma move_simps [simp]:
  "cs_files (move p phase fs s) = fs" "cs_phase (move p phase fs s) p = phase"
  by (simp_all add: move_def)

abbreviation cache_steps ::
    "digester \<Rightarrow> (nat \<Rightarrow> publish_job) \<Rightarrow> bool \<Rightarrow> cache_system \<Rightarrow> cache_system \<Rightarrow> bool" where
  "cache_steps digest jobs removals \<equiv> (cache_step digest jobs removals)\<^sup>*\<^sup>*"

lemma cache_steps_reachable:
  "cache_steps digest jobs removals s t \<Longrightarrow> cache_reachable digest jobs removals fs s
     \<Longrightarrow> cache_reachable digest jobs removals fs t"
  by (induction rule: rtranclp_induct) (auto intro: cache_reachable.step)

lemma job_bytes_written:
  "write_blob_stream digest (pj_key j) (pj_len j) (pj_payload j) =
     (if job_complete j then Ok () else Err (TruncatedPayload (pj_len j)), job_bytes digest j)"
  by (simp add: write_blob_stream_def job_bytes_def job_payload_def job_complete_def Let_def)

lemma write_steps:
  assumes "cs_phase s p = PChecked" "cs_files s (job_temporary digest (jobs p)) = None" "m \<le> length (job_bytes digest (jobs p))"
  shows "cache_steps digest jobs removals s
    (move p (PWriting m) ((cs_files s)(job_temporary digest (jobs p) \<mapsto> take m (job_bytes digest (jobs p)))) s)"
proof -
  let ?t = "job_temporary digest (jobs p)" and ?b = "job_bytes digest (jobs p)"
  let ?s = "move p (PWriting 0) ((cs_files s)(?t \<mapsto> [])) s"
  have create: "cache_step digest jobs removals s ?s"
    using assms(1,2) by (rule cache_step.create)
  show ?thesis
  proof (cases "m = 0")
    case True
    then show ?thesis using create by simp
  next
    case False
    then have "cache_step digest jobs removals ?s (move p (PWriting m) (((cs_files s)(?t \<mapsto> []))(?t \<mapsto> take m ?b)) ?s)"
      using cache_step.wrote[of ?s p 0 m digest jobs removals] assms(3) by simp
    with create show ?thesis by simp
  qed
qed

text \<open>Every outcome of the operation alone, its failures included, is one the steps allow.\<close>

lemma written_runs:
  assumes "cs_phase s p = PWriting (length (job_bytes digest (jobs p)))" "job_complete (jobs p)"
    and "cs_files s (job_destination digest (jobs p)) = None"
    and "cs_files s (job_temporary digest (jobs p)) = Some (job_bytes digest (jobs p))"
  defines "t \<equiv> job_temporary digest (jobs p)" and "d \<equiv> job_destination digest (jobs p)"
  shows "cache_steps digest jobs removals s (move p (PDone (Err CacheIo)) (cs_files s) s)"
    and "cache_steps digest jobs removals s (move p (PDone (Err CacheIo)) ((cs_files s)(t := None)) s)"
    and "cache_steps digest jobs removals s (move p (PDone (Err CacheIo)) ((cs_files s)(d \<mapsto> job_bytes digest (jobs p))) s)"
    and "cache_steps digest jobs removals s (move p (PDone (Ok True)) ((cs_files s)(d \<mapsto> job_bytes digest (jobs p), t := None)) s)"
proof -
  let ?w = "move p PWritten (cs_files s) s" and ?l = "move p PLinked ((cs_files s)(d \<mapsto> job_bytes digest (jobs p))) s"
  have written: "cache_step digest jobs removals s ?w"
    using cache_step.finish[of s p digest jobs removals] assms(1,2) by simp
  have linked: "cache_step digest jobs removals ?w ?l"
    using cache_step.link[of ?w p digest jobs removals] assms(3,4) by (simp add: d_def)
  have "cache_step digest jobs removals ?w (move p (PDone (Err CacheIo)) (cs_files s) s)"
    using cache_step.link_failed_kept[of ?w p digest jobs removals] by simp
  then show "cache_steps digest jobs removals s (move p (PDone (Err CacheIo)) (cs_files s) s)" using written by simp
  have "cache_step digest jobs removals ?w (move p (PDone (Err CacheIo)) ((cs_files s)(t := None)) s)"
    using cache_step.link_failed[of ?w p digest jobs removals] by (simp add: t_def)
  then show "cache_steps digest jobs removals s (move p (PDone (Err CacheIo)) ((cs_files s)(t := None)) s)" using written by simp
  have "cache_step digest jobs removals ?l (move p (PDone (Err CacheIo)) ((cs_files s)(d \<mapsto> job_bytes digest (jobs p))) s)"
    using cache_step.unlink_failed[of ?l p digest jobs removals] by simp
  then show "cache_steps digest jobs removals s (move p (PDone (Err CacheIo)) ((cs_files s)(d \<mapsto> job_bytes digest (jobs p))) s)"
    using written linked by (meson converse_rtranclp_into_rtranclp r_into_rtranclp)
  have "cache_step digest jobs removals ?l (move p (PDone (Ok True)) ((cs_files s)(d \<mapsto> job_bytes digest (jobs p), t := None)) s)"
    using cache_step.unlink[of ?l p digest jobs removals] by (simp add: t_def)
  then show "cache_steps digest jobs removals s (move p (PDone (Ok True)) ((cs_files s)(d \<mapsto> job_bytes digest (jobs p), t := None)) s)"
    using written linked by (meson converse_rtranclp_into_rtranclp r_into_rtranclp)
qed

lemma publish_stream_is_a_run:
  assumes "cs_phase s p = PStart"
    and "publish_stream digest (pj_pid (jobs p)) (pj_key (jobs p)) (pj_len (jobs p)) (pj_payload (jobs p)) fault
      (cs_files s) = (r, fs')"
  shows "cache_steps digest jobs removals s (move p (PDone r) fs' s)"
proof -
  let ?d = "job_destination digest (jobs p)" and ?t = "job_temporary digest (jobs p)"
  let ?fs = "cs_files s" and ?b = "job_bytes digest (jobs p)" and ?c = "move p PChecked (cs_files s) s"
  note [simp] = temporary_not_destination temporary_not_destination[symmetric]
  have checked: "cache_steps digest jobs removals s ?c" if "?fs ?d = None"
    using cache_step.absent[of s p digest jobs removals] assms(1) that by (simp add: r_into_rtranclp)
  consider (found) "?fs ?d \<noteq> None" | (prepare) "?fs ?d = None" "fault = PrepareFails"
    | (taken) "?fs ?d = None" "fault \<noteq> PrepareFails" "?fs ?t \<noteq> None"
    | (opened) "?fs ?d = None" "fault \<noteq> PrepareFails" "?fs ?t = None" by blast
  then show ?thesis
  proof cases
    case found
    with cache_step.found[of s p digest jobs removals] assms show ?thesis by (auto simp: publish_stream_def)
  next
    case prepare
    then have "cache_step digest jobs removals ?c (move p (PDone (Err CacheIo)) ?fs ?c)"
      using cache_step.prepare_failed[of ?c p digest jobs removals] by simp
    with checked assms(2) prepare show ?thesis by (auto simp: publish_stream_def)
  next
    case taken
    then have "cache_step digest jobs removals ?c (move p (PDone (Ok False)) ?fs ?c)"
      using cache_step.taken[of ?c p digest jobs removals] by simp
    with checked assms(2) taken show ?thesis by (auto simp: publish_stream_def)
  next
    case opened
    have writing: "cache_steps digest jobs removals s (move p (PWriting m) (?fs(?t \<mapsto> take m ?b)) s)" if "m \<le> length ?b" for m
      using rtranclp_trans[OF checked[OF opened(1)] write_steps[of ?c p digest jobs m removals]] opened(3) that by simp
    let ?w = "move p (PWriting (length ?b)) (?fs(?t \<mapsto> ?b)) s"
    have written: "cache_steps digest jobs removals s ?w" using writing[of "length ?b"] by simp
    have result: "publish_stream digest (pj_pid (jobs p)) (pj_key (jobs p)) (pj_len (jobs p)) (pj_payload (jobs p)) fault ?fs =
      (case fault of WriteFails n \<Rightarrow> (Err CacheIo, ?fs(?t \<mapsto> take n ?b))
       | _ \<Rightarrow> if \<not> job_complete (jobs p) then (Err (TruncatedPayload (pj_len (jobs p))), ?fs(?t \<mapsto> ?b))
         else (case fault of LinkFails kept \<Rightarrow> (Err CacheIo, if kept then ?fs(?t \<mapsto> ?b) else ?fs)
               | UnlinkFails \<Rightarrow> (Err CacheIo, ?fs(?t \<mapsto> ?b, ?d \<mapsto> ?b)) | _ \<Rightarrow> (Ok True, ?fs(?d \<mapsto> ?b))))"
      using opened by (simp add: publish_stream_def Let_def job_bytes_written split: publish_fault.splits)
    show ?thesis
    proof (cases "\<exists>n. fault = WriteFails n")
      case True
      then obtain n where n: "fault = WriteFails n" by blast
      let ?m = "min n (length ?b)"
      let ?x = "move p (PWriting ?m) (?fs(?t \<mapsto> take ?m ?b)) s"
      have "take ?m ?b = take n ?b" by (simp add: min_def)
      moreover have "cache_step digest jobs removals ?x (move p (PDone (Err CacheIo)) (?fs(?t \<mapsto> take ?m ?b)) ?x)"
        using cache_step.write_failed[of ?x p ?m digest jobs removals] by simp
      ultimately show ?thesis using writing[of ?m] assms(2) result n by auto
    next
      case no_write: False
      show ?thesis
      proof (cases "job_complete (jobs p)")
        case False
        then have "cache_step digest jobs removals ?w
            (move p (PDone (Err (TruncatedPayload (pj_len (jobs p))))) (?fs(?t \<mapsto> ?b)) ?w)"
          using cache_step.truncated[of ?w p digest jobs removals] by simp
        with written assms(2) result False no_write show ?thesis by (auto split: publish_fault.splits)
      next
        case True
        note runs = written_runs[of ?w p digest jobs removals, OF _ True, simplified, OF opened(1), THEN rtranclp_trans[OF written]]
        have restored: "?fs(?t := None) = ?fs" using opened(3) by (auto simp: fun_eq_iff)
        have "?fs(?t \<mapsto> ?b, ?d \<mapsto> ?b, ?t := None) = ?fs(?d \<mapsto> ?b)" using opened(3) by (auto simp: fun_eq_iff)
        then show ?thesis
          using runs restored assms(2) result no_write True opened(2)
          by (cases fault) (auto split: if_splits)
      qed
    qed
  qed
qed

lemma publish_payload_bytes:
  assumes "length payload < 2 ^ 64"
  shows "publish_payload digest pid key payload fault fs =
    (let destination = key_filename digest key; temporary = temporary_name digest key pid; bytes = blob_file digest key payload
     in if fs destination \<noteq> None then (Ok False, fs)
        else if fault = PrepareFails then (Err CacheIo, fs)
        else if fs temporary \<noteq> None then (Ok False, fs)
        else case fault of
            WriteFails n \<Rightarrow> (Err CacheIo, fs(temporary \<mapsto> take n bytes))
          | LinkFails kept \<Rightarrow> (Err CacheIo, if kept then fs(temporary \<mapsto> bytes) else fs)
          | UnlinkFails \<Rightarrow> (Err CacheIo, fs(temporary \<mapsto> bytes, destination \<mapsto> bytes))
          | _ \<Rightarrow> (Ok True, fs(destination \<mapsto> bytes)))"
proof -
  have "unat (of_nat (length payload) :: u64) = length payload"
    using assms by (simp only: unat_of_nat take_bit_nat_eq_self_iff) simp
  then have "write_blob_stream digest key (of_nat (length payload)) payload = (Ok (), blob_file digest key payload)"
    by (simp add: write_blob_stream_def Let_def blob_file_def)
  then show ?thesis by (simp add: publish_payload_def publish_stream_def Let_def split: publish_fault.splits)
qed

lemma publish_payload_spec:
  assumes "length (digest key) = 32" "length payload < 2 ^ 64"
    and "publish_payload digest pid key payload fault fs = (r, fs')"
  shows "(r = Ok True \<longleftrightarrow> fault = NoFault \<and> fs (key_filename digest key) = None \<and> fs (temporary_name digest key pid) = None)
    \<and> (case r of
         Inr True \<Rightarrow> fs' = fs(key_filename digest key \<mapsto> blob_file digest key payload) \<and> load digest key fs' = Ok (Some payload)
       | Inr False \<Rightarrow> fs' = fs \<and> (fs (key_filename digest key) \<noteq> None \<or> fs (temporary_name digest key pid) \<noteq> None)
       | Inl e \<Rightarrow> e = CacheIo \<and> fault \<noteq> NoFault \<and> fs (key_filename digest key) = None
           \<and> fs' (key_filename digest key) \<in> {None, Some (blob_file digest key payload)}
           \<and> load digest key fs' \<in> {Ok None, Ok (Some payload)}
           \<and> (\<forall>name. name \<noteq> key_filename digest key \<longrightarrow> name \<noteq> temporary_name digest key pid \<longrightarrow> fs' name = fs name))"
proof -
  have loaded: "load digest key (F(key_filename digest key \<mapsto> blob_file digest key payload)) = Ok (Some payload)" for F
    using assms(1,2) by (simp add: load_blob_file[of digest key key])
  have absent: "load digest key F = Ok None" if "F (key_filename digest key) = None" for F
    using that by (simp add: load_def open_blob_def)
  note [simp] = temporary_not_destination temporary_not_destination[symmetric]
  show ?thesis
    using assms(3) unfolding publish_payload_bytes[OF assms(2)] Let_def
    by (cases fault) (auto simp: loaded absent split: if_splits)
qed

text \<open>
  C32. Whatever call on the file system fails, publishing a payload reports success exactly when nothing failed and
  neither the key's blob nor this process's temporary file was there, and then the payload is loaded back
  unchanged; it reports that the blob is there only if one of the two files was, and changes nothing; it fails only
  on an I/O error, and then the key has no blob or, when only the last removal failed, the complete one. Nothing but
  the key's blob and this process's temporary file is ever touched.
\<close>

theorem publish_then_load:
  assumes "length (digest key) = 32" "length payload < 2 ^ 64"
    and "publish_payload digest pid key payload fault fs = (r, fs')"
  shows "(r = Ok True \<longleftrightarrow> fault = NoFault \<and> fs (key_filename digest key) = None \<and> fs (temporary_name digest key pid) = None)
    \<and> (case r of
         Inr True \<Rightarrow> fs' = fs(key_filename digest key \<mapsto> blob_file digest key payload) \<and> load digest key fs' = Ok (Some payload)
       | Inr False \<Rightarrow> fs' = fs \<and> (fs (key_filename digest key) \<noteq> None \<or> fs (temporary_name digest key pid) \<noteq> None)
       | Inl e \<Rightarrow> e = CacheIo \<and> fault \<noteq> NoFault \<and> fs (key_filename digest key) = None
           \<and> fs' (key_filename digest key) \<in> {None, Some (blob_file digest key payload)}
           \<and> load digest key fs' \<in> {Ok None, Ok (Some payload)}
           \<and> (\<forall>name. name \<noteq> key_filename digest key \<longrightarrow> name \<noteq> temporary_name digest key pid \<longrightarrow> fs' name = fs name))"
  using assms by (rule publish_payload_spec)

text \<open>
  C31. A staged file is promoted only when its length and checksum are those the worker announced,
  and what a reader then loads is the checked content if the file did not change meanwhile; a
  rejected file leaves the cache as it was.
\<close>

theorem promotion_is_verified:
  assumes "length (digest key) = 32" "length checked < 2 ^ 64"
    and "promote_staged digest sha256 pid key checked published expected_length expected_sha256 fault fs = (r, fs')"
  shows "(r = Ok True \<longrightarrow> sha256 checked = expected_sha256 \<and> of_nat (length checked) = expected_length
      \<and> (published = checked \<longrightarrow> load digest key fs' = Ok (Some checked)))
    \<and> (sha256 checked \<noteq> expected_sha256 \<or> of_nat (length checked) \<noteq> expected_length \<longrightarrow>
        fs' = fs \<and> r \<noteq> Ok True)"
proof (cases "sha256 checked = expected_sha256 \<and> of_nat (length checked) = expected_length")
  case False
  then show ?thesis using assms(3) by (auto simp: promote_staged_def split: if_splits)
next
  case True
  then have "promote_staged digest sha256 pid key checked published expected_length expected_sha256 fault fs
      = publish_stream digest pid key (of_nat (length checked)) published fault fs"
    by (auto simp: promote_staged_def)
  then have published: "publish_payload digest pid key checked fault fs = (r, fs')" if "published = checked"
    using assms(3) that by (simp add: publish_payload_def)
  have "load digest key fs' = Ok (Some checked)" if "r = Ok True" "published = checked"
    using publish_payload_spec[OF assms(1,2) published[OF that(2)]] unfolding that(1) sum.case bool.case by blast
  then show ?thesis using True by simp
qed

section \<open>Concrete runs\<close>

definition sample_digest :: digester where
  "sample_digest key = replicate 32 (CHR ''d'')"

definition sample_key :: artifact_blob_key where
  "sample_key = key_new (Fingerprint ''artifact'') (Fingerprint ''context'') (sample_provenance ''1'')"

definition sample_job :: publish_job where
  "sample_job = \<lparr> pj_key = sample_key, pj_len = 5, pj_payload = ''facts'', pj_pid = 7 \<rparr>"

lemma sample_run:
  "cache_reachable sample_digest (\<lambda>_. sample_job) removals (\<lambda>_. None)
    (move 0 (PDone (Ok True)) [key_filename sample_digest sample_key \<mapsto> blob_file sample_digest sample_key ''facts'']
      (cache_start (\<lambda>_. None)))"
proof -
  have "publish_stream sample_digest 7 sample_key 5 ''facts'' NoFault (\<lambda>_. None) =
      (Ok True, [key_filename sample_digest sample_key \<mapsto> blob_file sample_digest sample_key ''facts''])"
    by (simp add: publish_stream_def write_blob_stream_def blob_file_def Let_def)
  then have "cache_steps sample_digest (\<lambda>_. sample_job) removals (cache_start (\<lambda>_. None))
      (move 0 (PDone (Ok True)) [key_filename sample_digest sample_key \<mapsto> blob_file sample_digest sample_key ''facts'']
        (cache_start (\<lambda>_. None)))"
    by (intro publish_stream_is_a_run) (simp_all add: cache_start_def sample_job_def)
  then show ?thesis by (rule cache_steps_reachable) (rule cache_reachable.start)
qed

lemma length_sample_digest [simp]: "length (sample_digest key) = 32"
  by (simp add: sample_digest_def)

theorem readers_see_complete_blobs_witness:
  "load sample_digest sample_key
      [key_filename sample_digest sample_key \<mapsto> blob_file sample_digest sample_key ''facts''] = Ok (Some ''facts'')"
proof -
  let ?fs = "[key_filename sample_digest sample_key \<mapsto> blob_file sample_digest sample_key ''facts'']"
  have "load sample_digest sample_key ?fs = Ok None
      \<or> (\<exists>payload. load sample_digest sample_key ?fs = Ok (Some payload)
        \<and> (load sample_digest sample_key (\<lambda>_. None) = Ok (Some payload)
           \<or> (\<exists>p. sample_digest (pj_key sample_job) = sample_digest sample_key \<and> payload = job_payload sample_job
                \<and> job_complete sample_job)))"
    using readers_see_complete_blobs[of sample_digest "\<lambda>_. None", OF length_sample_digest _ sample_run, of sample_key]
    by (simp add: complete_cache_def)
  moreover have "load sample_digest sample_key ?fs \<noteq> Ok None"
    using load_blob_file[of sample_digest sample_key sample_key "''facts''" ?fs] by simp
  moreover have "load sample_digest sample_key (\<lambda>_. None) = Ok None"
    by (simp add: load_def open_blob_def)
  moreover have "job_payload sample_job = ''facts''" by (simp add: job_payload_def sample_job_def)
  ultimately show ?thesis by auto
qed

theorem one_publisher_wins_witness:
  "[key_filename sample_digest sample_key \<mapsto> blob_file sample_digest sample_key ''facts'']
     (key_filename sample_digest sample_key) \<noteq> None"
  using one_publisher_wins[OF sample_run, of 0 0] by (simp add: sample_job_def)

theorem publish_then_load_witness:
  "\<exists>fs'. publish_payload sample_digest 7 sample_key ''facts'' NoFault (\<lambda>_. None) = (Ok True, fs')
     \<and> load sample_digest sample_key fs' = Ok (Some ''facts'')"
proof -
  obtain r fs' where p: "publish_payload sample_digest 7 sample_key ''facts'' NoFault (\<lambda>_. None) = (r, fs')" by fastforce
  from publish_then_load[OF _ _ p] have "r = Ok True \<and> load sample_digest sample_key fs' = Ok (Some ''facts'')" by auto
  with p show ?thesis by blast
qed

theorem promotion_is_verified_witness:
  "promote_staged sample_digest (\<lambda>s. s) 7 sample_key ''facts'' ''facts'' 5 ''other'' NoFault (\<lambda>_. None)
     = (Err StagedChecksumMismatch, \<lambda>_. None)"
proof -
  obtain r fs' where p: "promote_staged sample_digest (\<lambda>s. s) 7 sample_key ''facts'' ''facts'' 5 ''other'' NoFault (\<lambda>_. None) = (r, fs')"
    by fastforce
  from promotion_is_verified[OF _ _ p] have "fs' = (\<lambda>_. None)" by simp
  with p show ?thesis by (simp add: promote_staged_def)
qed

text \<open>
  A reader that ends early leaves the temporary file behind, and from then on a process with the
  same identifier is told that the key is published while nothing can be loaded.
\<close>

lemma truncated_publication_blocks_the_key:
  "let (r, fs) = publish_stream sample_digest 7 sample_key 5 ''fa'' NoFault (\<lambda>_. None)
   in r = Err (TruncatedPayload 5)
      \<and> publish_payload sample_digest 7 sample_key ''facts'' NoFault fs = (Ok False, fs)
      \<and> load sample_digest sample_key fs = Ok None"
  by (simp add: publish_stream_def publish_payload_def write_blob_stream_def Let_def load_def open_blob_def
      temporary_not_destination[symmetric])

end
