(* ===== verification/Store_Catalog.thy ===== *)
theory Store_Catalog
  imports Store_Snapshots Text_Index Artifact_Cache
begin

text \<open>
  The workspace tables of \<open>crates/kide-core/src/store.rs\<close>: manifests, checkpoints, configuration
  inputs, file metadata, the dependency catalog with its symbol locators and blob references, and
  the lexical index. They share nothing with the facts of the source units, so they form a state of
  their own. The word test of the lexical index, SHA-256, the cache and the workspace files are
  arguments. Time stamps that no query reads are not modelled.
\<close>

section \<open>Rows\<close>

record manifest_row =
  mr_workspace :: workspace_id
  mr_fingerprint :: fingerprint
  mr_protocol :: u32
  mr_record :: project_manifest

record checkpoint_row =
  kr_workspace :: workspace_id
  kr_manifest :: fingerprint
  kr_configuration :: fingerprint
  kr_sources :: fingerprint
  kr_catalog :: fingerprint
  kr_state :: string

record descriptor_row =
  dsr_unit :: source_unit_id
  dsr_descriptor :: artifact_descriptor

record locator_row =
  lr_unit :: source_unit_id
  lr_name :: string
  lr_symbol :: symbol_id

record blob_row =
  bl_key :: fingerprint
  bl_identity :: dependency_identity
  bl_length :: "i64 option"

record blob_ref_row =
  rf_unit :: source_unit_id
  rf_key :: fingerprint

record document_row =
  xr_path :: workspace_path
  xr_fingerprint :: fingerprint

record term_row =
  mt_path :: workspace_path
  mt_term :: string
  mt_start :: i64
  mt_end :: i64

text \<open>\<open>configuration_inputs\<close> and \<open>source_file_metadata\<close> have the columns of their records.\<close>

record catalog =
  c_manifests :: "manifest_row list"
  c_checkpoints :: "checkpoint_row list"
  c_configuration :: "configuration_input list"
  c_metadata :: "source_file_metadata list"
  c_descriptors :: "descriptor_row list"
  c_locators :: "locator_row list"
  c_blobs :: "blob_row list"
  c_blob_refs :: "blob_ref_row list"
  c_documents :: "document_row list"
  c_terms :: "term_row list"

definition empty_catalog :: catalog where
  "empty_catalog =
     \<lparr> c_manifests = [], c_checkpoints = [], c_configuration = [], c_metadata = [], c_descriptors = [],
       c_locators = [], c_blobs = [], c_blob_refs = [], c_documents = [], c_terms = [] \<rparr>"

section \<open>Manifests and checkpoints\<close>

definition put_manifest :: "project_manifest \<Rightarrow> catalog \<Rightarrow> unit stored \<times> catalog" where
  "put_manifest m c =
     (case validate_provenance (man_provenance m) of
        Inl e \<Rightarrow> (Err e, c)
      | Inr _ \<Rightarrow>
          (Ok (), c\<lparr>c_manifests := upsert_row mr_workspace
             \<lparr> mr_workspace = man_workspace m, mr_fingerprint = man_fingerprint m,
               mr_protocol = prov_protocol_version (man_provenance m), mr_record = m \<rparr> (c_manifests c)\<rparr>))"

definition stored_manifest :: "workspace_id \<Rightarrow> catalog \<Rightarrow> project_manifest option" where
  "stored_manifest w c = map_option mr_record (find (\<lambda>r. mr_workspace r = w) (c_manifests c))"

text \<open>\<open>ORDER BY workspace_id LIMIT 1\<close>.\<close>

definition latest_manifest :: "catalog \<Rightarrow> project_manifest option" where
  "latest_manifest c =
     (case sort_key mr_workspace (c_manifests c) of [] \<Rightarrow> None | r # _ \<Rightarrow> Some (mr_record r))"

definition put_workspace_checkpoint :: "workspace_checkpoint \<Rightarrow> catalog \<Rightarrow> catalog" where
  "put_workspace_checkpoint k c =
     c\<lparr>c_checkpoints := upsert_row kr_workspace
       \<lparr> kr_workspace = wcp_workspace k, kr_manifest = wcp_manifest k,
         kr_configuration = wcp_configuration_inputs k, kr_sources = wcp_source_inputs k,
         kr_catalog = wcp_artifact_catalog k,
         kr_state = (if wcp_committed k then ''committed'' else ''pending'') \<rparr> (c_checkpoints c)\<rparr>"

definition stored_checkpoint :: "catalog \<Rightarrow> workspace_checkpoint option" where
  "stored_checkpoint c =
     (case sort_key kr_workspace (c_checkpoints c) of
        [] \<Rightarrow> None
      | r # _ \<Rightarrow> Some \<lparr> wcp_workspace = kr_workspace r, wcp_manifest = kr_manifest r,
          wcp_configuration_inputs = kr_configuration r, wcp_source_inputs = kr_sources r,
          wcp_artifact_catalog = kr_catalog r, wcp_committed = (kr_state r = ''committed'') \<rparr>)"

section \<open>Configuration inputs and file metadata\<close>

definition stored_configuration_inputs :: "catalog \<Rightarrow> configuration_input list" where
  "stored_configuration_inputs c = sort_key ci_path (c_configuration c)"

definition stored_source_file_metadata :: "catalog \<Rightarrow> source_file_metadata list" where
  "stored_source_file_metadata c = sort_key sfm_path (c_metadata c)"

definition replace_source_file_metadata ::
    "source_file_metadata list \<Rightarrow> catalog \<Rightarrow> unit stored \<times> catalog" where
  "replace_source_file_metadata current =
     transaction (\<lambda>c. for_each
       (insert_with c_metadata c_metadata_update (\<lambda>m. Some (sfm_path m)) Ok) current
       (c\<lparr>c_metadata := []\<rparr>))"

definition stored_configuration_status ::
    "configuration_input list \<Rightarrow> catalog \<Rightarrow> configuration_input_reconciliation" where
  "stored_configuration_status current c =
     reconcile_configuration_inputs (stored_configuration_inputs c) current"

definition replace_configuration_inputs ::
    "configuration_input list \<Rightarrow> catalog \<Rightarrow> configuration_input_reconciliation stored \<times> catalog" where
  "replace_configuration_inputs current c =
     (let status = stored_configuration_status current c
      in case transaction (\<lambda>c. for_each
            (insert_with c_configuration c_configuration_update (\<lambda>i. Some (ci_path i)) Ok) current
            (c\<lparr>c_configuration := []\<rparr>)) c
         of (Inl e, c') \<Rightarrow> (Err e, c') | (Inr _, c') \<Rightarrow> (Ok status, c'))"

section \<open>The dependency catalog\<close>

definition descriptor_unit :: "artifact_descriptor \<Rightarrow> source_unit_id" where
  "descriptor_unit d = su_id (ad_source_unit d)"

definition row_of_descriptor :: "artifact_descriptor \<Rightarrow> descriptor_row" where
  "row_of_descriptor d = \<lparr> dsr_unit = descriptor_unit d, dsr_descriptor = d \<rparr>"

definition row_of_locator :: "artifact_descriptor \<Rightarrow> symbol_locator \<Rightarrow> locator_row" where
  "row_of_locator d l =
     \<lparr> lr_unit = descriptor_unit d, lr_name = loc_qualified_name l, lr_symbol = loc_symbol l \<rparr>"

definition locator_pk :: "locator_row \<Rightarrow> (source_unit_id \<times> string \<times> symbol_id) option" where
  "locator_pk r = Some (lr_unit r, lr_name r, lr_symbol r)"

definition insert_locator :: "artifact_descriptor \<Rightarrow> symbol_locator \<Rightarrow> catalog \<Rightarrow> catalog stored" where
  "insert_locator d = insert_with c_locators c_locators_update locator_pk (\<lambda>l. Ok (row_of_locator d l))"

text \<open>Without a transaction: every statement commits by itself.\<close>

definition put_artifact_descriptor :: "artifact_descriptor \<Rightarrow> catalog \<Rightarrow> unit stored \<times> catalog" where
  "put_artifact_descriptor d =
     autocommit
       ([\<lambda>c. Ok (c\<lparr>c_descriptors := upsert_row dsr_unit (row_of_descriptor d) (c_descriptors c)\<rparr>),
         \<lambda>c. Ok (c\<lparr>c_locators := filter (\<lambda>r. lr_unit r \<noteq> descriptor_unit d) (c_locators c)\<rparr>)]
        @ map (insert_locator d) (ad_symbol_locators d))"

definition replace_artifact_descriptors ::
    "artifact_descriptor list \<Rightarrow> catalog \<Rightarrow> unit stored \<times> catalog" where
  "replace_artifact_descriptors descriptors =
     transaction (\<lambda>c.
       let c1 = c\<lparr>c_locators := filter (\<lambda>r. lr_unit r \<notin> dsr_unit ` set (c_descriptors c)) (c_locators c)\<rparr>;
           c2 = c1\<lparr>c_descriptors := []\<rparr>
       in and_then
            (for_each (insert_with_children
                (insert_with c_descriptors c_descriptors_update (\<lambda>r. Some (dsr_unit r))
                  (\<lambda>d. Ok (row_of_descriptor d)))
                ad_symbol_locators insert_locator) descriptors c2)
            (\<lambda>c3. Ok (c3\<lparr>c_blob_refs := filter (\<lambda>r. rf_unit r \<in> dsr_unit ` set (c_descriptors c3))
                           (c_blob_refs c3)\<rparr>)))"

definition stored_artifact_descriptor :: "source_unit_id \<Rightarrow> catalog \<Rightarrow> artifact_descriptor option" where
  "stored_artifact_descriptor u c = map_option dsr_descriptor (find (\<lambda>r. dsr_unit r = u) (c_descriptors c))"

definition stored_artifact_descriptors :: "catalog \<Rightarrow> artifact_descriptor list" where
  "stored_artifact_descriptors c = map dsr_descriptor (sort_key dsr_unit (c_descriptors c))"

definition symbols_with_qualified_name :: "string \<Rightarrow> catalog \<Rightarrow> symbol_id list" where
  "symbols_with_qualified_name name c =
     map lr_symbol (sort_key lr_symbol (filter (\<lambda>r. lr_name r = name) (c_locators c)))"

text \<open>The join of the selected locators with the catalog.\<close>

definition located_descriptors :: "(locator_row \<Rightarrow> bool) \<Rightarrow> catalog \<Rightarrow> artifact_descriptor list" where
  "located_descriptors P c =
     map dsr_descriptor (sort_key dsr_unit
       (concat (map (\<lambda>l. filter (\<lambda>r. dsr_unit r = lr_unit l) (c_descriptors c))
         (filter P (c_locators c)))))"

definition artifact_candidates_with_qualified_name :: "string \<Rightarrow> catalog \<Rightarrow> artifact_descriptor list" where
  "artifact_candidates_with_qualified_name name = located_descriptors (\<lambda>l. lr_name l = name)"

definition artifact_candidates_with_symbol :: "symbol_id \<Rightarrow> catalog \<Rightarrow> artifact_descriptor list" where
  "artifact_candidates_with_symbol s = located_descriptors (\<lambda>l. lr_symbol l = s)"

section \<open>Blob references\<close>

record artifact_blob_entry =
  abe_key :: fingerprint
  abe_identity :: dependency_identity
  abe_length :: "u64 option"

definition record_artifact_blob ::
    "(dependency_identity \<Rightarrow> fingerprint) \<Rightarrow> artifact_descriptor \<Rightarrow> u64 \<Rightarrow> catalog
     \<Rightarrow> artifact_blob_entry stored \<times> catalog" where
  "record_artifact_blob cache_key d byte_length c =
     (let identity = resolved_identity d; key = cache_key identity
      in case sqlite_offset byte_length of
           Inl e \<Rightarrow> (Err e, c)
         | Inr n \<Rightarrow>
             if \<exists>r\<in>set (c_blobs c). bl_key r = key \<and> bl_identity r \<noteq> identity
             then (Err (ArtifactBlobIdentityMismatch key), c)
             else (Ok \<lparr> abe_key = key, abe_identity = identity, abe_length = Some byte_length \<rparr>,
               c\<lparr>c_blobs := upsert_row bl_key
                    \<lparr> bl_key = key, bl_identity = identity, bl_length = Some n \<rparr> (c_blobs c),
                 c_blob_refs := upsert_row rf_unit
                    \<lparr> rf_unit = descriptor_unit d, rf_key = key \<rparr> (c_blob_refs c)\<rparr>))"

definition stored_blob_length :: "i64 \<Rightarrow> u64 stored" where
  "stored_blob_length n = (if n < 0 then Err (ByteOffsetOutOfRange 0) else Ok (of_int n))"

definition artifact_blob_for :: "source_unit_id \<Rightarrow> catalog \<Rightarrow> artifact_blob_entry option stored" where
  "artifact_blob_for u c =
     (case find (\<lambda>(r, b). rf_key r = bl_key b)
        (concat (map (\<lambda>r. map (Pair r) (c_blobs c)) (filter (\<lambda>r. rf_unit r = u) (c_blob_refs c))))
      of None \<Rightarrow> Ok None
       | Some (r, b) \<Rightarrow>
           and_then (case bl_length b of None \<Rightarrow> Ok None
                     | Some n \<Rightarrow> and_then (stored_blob_length n) (\<lambda>v. Ok (Some v))) (\<lambda>len.
           Ok (Some \<lparr> abe_key = bl_key b, abe_identity = bl_identity b, abe_length = len \<rparr>)))"

fun blob_is_missing :: "(blob_cache_error, artifact_blob option) result \<Rightarrow> bool" where
  "blob_is_missing (Inr (Some _)) = False"
| "blob_is_missing (Inr None) = True"
| "blob_is_missing (Inl CacheInvalidHeader) = True"
| "blob_is_missing (Inl _) = False"

definition referenced_identities :: "catalog \<Rightarrow> (source_unit_id \<times> dependency_identity) list" where
  "referenced_identities c =
     concat (map (\<lambda>r. map (\<lambda>b. (rf_unit r, bl_identity b))
       (filter (\<lambda>b. bl_key b = rf_key r) (c_blobs c))) (c_blob_refs c))"

definition reconcile_artifact_blob_refs ::
    "(artifact_blob_key \<Rightarrow> (blob_cache_error, artifact_blob option) result) \<Rightarrow> catalog \<Rightarrow> nat \<times> catalog" where
  "reconcile_artifact_blob_refs probe c =
     (let missing = map fst (filter (\<lambda>(_, i). blob_is_missing (probe (ArtifactBlobKey i)))
            (referenced_identities c))
      in (length missing, c\<lparr>c_blob_refs := filter (\<lambda>r. rf_unit r \<notin> set missing) (c_blob_refs c)\<rparr>))"

section \<open>The lexical index\<close>

definition term_pk :: "term_row \<Rightarrow> (workspace_path \<times> string \<times> i64) option" where
  "term_pk r = Some (mt_path r, mt_term r, mt_start r)"

definition row_of_term :: "workspace_path \<Rightarrow> term_span \<Rightarrow> term_row" where
  "row_of_term p = (\<lambda>(t, a, b). \<lparr> mt_path = p, mt_term = t, mt_start = int a, mt_end = int b \<rparr>)"

text \<open>Deleting documents deletes their terms (\<open>ON DELETE CASCADE\<close>).\<close>

definition keep_documents :: "(workspace_path \<Rightarrow> bool) \<Rightarrow> catalog \<Rightarrow> catalog" where
  "keep_documents P c =
     c\<lparr>c_documents := filter (\<lambda>r. P (xr_path r)) (c_documents c),
       c_terms := filter (\<lambda>r. P (mt_path r)) (c_terms c)\<rparr>"

definition sync_document :: "(string \<Rightarrow> bool) \<Rightarrow> text_document \<Rightarrow> catalog \<Rightarrow> catalog stored" where
  "sync_document word d c =
     (if map_option xr_fingerprint (find (\<lambda>r. xr_path r = td_path d) (c_documents c))
          = Some (td_fingerprint d) then Ok c
      else for_each
        (insert_with c_terms c_terms_update term_pk (\<lambda>t. Ok (row_of_term (td_path d) t)))
        (lexical_terms word (td_content d))
        (c\<lparr>c_terms := filter (\<lambda>r. mt_path r \<noteq> td_path d) (c_terms c),
           c_documents := upsert_row xr_path
             \<lparr> xr_path = td_path d, xr_fingerprint = td_fingerprint d \<rparr> (c_documents c)\<rparr>))"

text \<open>\<open>max_variables\<close> is SQLite's bound on the placeholders of one statement.\<close>

definition sync_text_documents ::
    "(string \<Rightarrow> bool) \<Rightarrow> nat \<Rightarrow> text_document list \<Rightarrow> catalog \<Rightarrow> unit stored \<times> catalog" where
  "sync_text_documents word max_variables documents =
     transaction (\<lambda>c.
       and_then
         (if documents = [] then Ok (keep_documents (\<lambda>_. False) c)
          else if length documents > max_variables then Err SqliteTooManyVariables
          else Ok (keep_documents (\<lambda>p. p \<in> td_path ` set documents) c))
         (for_each (sync_document word) documents))"

text \<open>
  One row of the result: \<^const>\<open>None\<close> where the code would panic, \<open>Some None\<close> where the file no longer
  has the indexed content.
\<close>

definition match_of_term ::
    "(string \<Rightarrow> string) \<Rightarrow> (workspace_path \<Rightarrow> string option) \<Rightarrow> term_row \<times> document_row
     \<Rightarrow> lexical_match option option" where
  "match_of_term sha256 read = (\<lambda>(t, d).
     case read (mt_path t) of
       None \<Rightarrow> Some None
     | Some bytes \<Rightarrow>
         (case document_from_bytes sha256 (mt_path t) bytes of
            Inl _ \<Rightarrow> Some None
          | Inr doc \<Rightarrow>
              if td_fingerprint doc \<noteq> xr_fingerprint d then Some None
              else case position_at (td_content doc) (nat (mt_start t)) of
                     None \<Rightarrow> None
                   | Some pos \<Rightarrow> map_option (\<lambda>snippet.
                       Some \<lparr> lm_path = mt_path t,
                         lm_range = \<lparr> br_start = of_int (mt_start t), br_end = of_int (mt_end t) \<rparr>,
                         lm_position = pos, lm_snippet = snippet \<rparr>)
                       (snippet_at (td_content doc) (nat (mt_start t)) (nat (mt_end t)))))"

definition joined_terms :: "string \<Rightarrow> catalog \<Rightarrow> (term_row \<times> document_row) list" where
  "joined_terms query c =
     sort_key (\<lambda>(t, d). (mt_path t, mt_start t))
       (concat (map (\<lambda>t. map (Pair t) (filter (\<lambda>d. xr_path d = mt_path t) (c_documents c)))
         (filter (\<lambda>t. mt_term t = query) (c_terms c))))"

definition lexical_matches ::
    "(string \<Rightarrow> string) \<Rightarrow> (workspace_path \<Rightarrow> string option) \<Rightarrow> string \<Rightarrow> catalog \<Rightarrow> lexical_match list option" where
  "lexical_matches sha256 read query c =
     (if query = [] then Some []
      else map_option (List.map_filter (\<lambda>m. m))
        (those (map (match_of_term sha256 read) (joined_terms query c))))"

interpretation manifests: table c_manifests c_manifests_update by unfold_locales simp_all
interpretation checkpoints: table c_checkpoints c_checkpoints_update by unfold_locales simp_all
interpretation configuration: table c_configuration c_configuration_update by unfold_locales simp_all
interpretation metadata: table c_metadata c_metadata_update by unfold_locales simp_all
interpretation descriptors: two_tables c_descriptors c_descriptors_update c_locators c_locators_update
  by unfold_locales simp_all
interpretation blobs: two_tables c_blobs c_blobs_update c_blob_refs c_blob_refs_update
  by unfold_locales simp_all
interpretation documents: two_tables c_documents c_documents_update c_terms c_terms_update
  by unfold_locales simp_all

section \<open>Runs of the catalog\<close>

datatype catalog_operation =
  PutManifest project_manifest
| PutCheckpoint workspace_checkpoint
| ReplaceConfiguration "configuration_input list"
| ReplaceMetadata "source_file_metadata list"
| PutDescriptor artifact_descriptor
| ReplaceDescriptors "artifact_descriptor list"
| RecordBlob artifact_descriptor u64
| ReconcileBlobs "artifact_blob_key \<Rightarrow> (blob_cache_error, artifact_blob option) result"
| SyncTexts "text_document list"

text \<open>The code under the operations that is not the store's.\<close>

record catalog_env =
  env_cache_key :: "dependency_identity \<Rightarrow> fingerprint"
  env_word :: "string \<Rightarrow> bool"
  env_max_variables :: nat

fun catalog_step :: "catalog_env \<Rightarrow> catalog_operation \<Rightarrow> catalog \<Rightarrow> catalog" where
  "catalog_step env (PutManifest m) c = snd (put_manifest m c)"
| "catalog_step env (PutCheckpoint k) c = put_workspace_checkpoint k c"
| "catalog_step env (ReplaceConfiguration inputs) c = snd (replace_configuration_inputs inputs c)"
| "catalog_step env (ReplaceMetadata metadata) c = snd (replace_source_file_metadata metadata c)"
| "catalog_step env (PutDescriptor d) c = snd (put_artifact_descriptor d c)"
| "catalog_step env (ReplaceDescriptors ds) c = snd (replace_artifact_descriptors ds c)"
| "catalog_step env (RecordBlob d n) c = snd (record_artifact_blob (env_cache_key env) d n c)"
| "catalog_step env (ReconcileBlobs probe) c = snd (reconcile_artifact_blob_refs probe c)"
| "catalog_step env (SyncTexts documents) c =
     snd (sync_text_documents (env_word env) (env_max_variables env) documents c)"

definition run_catalog :: "catalog_env \<Rightarrow> catalog_operation list \<Rightarrow> catalog" where
  "run_catalog env ops = fold (catalog_step env) ops empty_catalog"

section \<open>The invariant\<close>

text \<open>Primary keys, and locators that belong to the current descriptor of their unit.\<close>

definition descriptors_inv :: "descriptor_row list \<Rightarrow> locator_row list \<Rightarrow> bool" where
  "descriptors_inv ds ls =
     (distinct (map dsr_unit ds) \<and> (\<forall>r\<in>set ds. dsr_unit r = descriptor_unit (dsr_descriptor r))
      \<and> key_valid locator_pk ls
      \<and> (\<forall>r\<in>set ls. \<exists>d\<in>dsr_descriptor ` set ds. \<exists>l\<in>set (ad_symbol_locators d). r = row_of_locator d l))"

text \<open>A reference leads to one blob, whose key is that of its identity.\<close>

definition blobs_inv :: "(dependency_identity \<Rightarrow> fingerprint) \<Rightarrow> blob_row list \<Rightarrow> blob_ref_row list \<Rightarrow> bool" where
  "blobs_inv cache_key bs rs =
     (distinct (map bl_key bs) \<and> distinct (map rf_unit rs)
      \<and> (\<forall>b\<in>set bs. bl_key b = cache_key (bl_identity b)
           \<and> (\<exists>n. bl_length b = Some n \<and> 0 \<le> n \<and> n < 2 ^ 63))
      \<and> (\<forall>r\<in>set rs. rf_key r \<in> bl_key ` set bs))"

definition documents_inv :: "document_row list \<Rightarrow> term_row list \<Rightarrow> bool" where
  "documents_inv ds ts =
     (distinct (map xr_path ds) \<and> key_valid term_pk ts \<and> mt_path ` set ts \<subseteq> xr_path ` set ds)"

definition catalog_inv :: "(dependency_identity \<Rightarrow> fingerprint) \<Rightarrow> catalog \<Rightarrow> bool" where
  "catalog_inv cache_key c =
     (distinct (map mr_workspace (c_manifests c)) \<and> distinct (map kr_workspace (c_checkpoints c))
      \<and> distinct (map ci_path (c_configuration c)) \<and> distinct (map sfm_path (c_metadata c))
      \<and> descriptors_inv (c_descriptors c) (c_locators c)
      \<and> blobs_inv cache_key (c_blobs c) (c_blob_refs c)
      \<and> documents_inv (c_documents c) (c_terms c))"

text \<open>Replacing a table by the rows of a list: it succeeds exactly when their keys are distinct.\<close>

lemma key_valid_some: "key_valid (\<lambda>r. Some (k r)) t \<longleftrightarrow> distinct (map k t)"
  by (simp add: key_valid_def)

lemma collect_results_Inr: "collect_results (\<lambda>x. Inr (f x)) xs = Inr (map f xs)"
  by (induction xs) simp_all

lemma replace_metadata_Ok:
  "replace_source_file_metadata ms c = (Inr u, c') \<longleftrightarrow>
     distinct (map sfm_path ms) \<and> c' = c\<lparr>c_metadata := ms\<rparr>"
  unfolding replace_source_file_metadata_def transaction_Ok
  by (subst metadata.for_each_insert) (auto simp: key_valid_some collect_results_Inr[of "\<lambda>x. x", simplified])

lemma replace_metadata_Err:
  "replace_source_file_metadata ms c = (Inl e, c') \<Longrightarrow> c' = c"
  by (simp add: replace_source_file_metadata_def transaction_Err)

lemma replace_configuration_Ok:
  "replace_configuration_inputs inputs c = (Inr st, c') \<longleftrightarrow>
     distinct (map ci_path inputs) \<and> st = stored_configuration_status inputs c
     \<and> c' = c\<lparr>c_configuration := inputs\<rparr>"
proof -
  let ?loop = "\<lambda>c. for_each (insert_with c_configuration c_configuration_update (\<lambda>i. Some (ci_path i)) Ok)
    inputs (c\<lparr>c_configuration := []\<rparr>)"
  have "?loop c = Inr c'' \<longleftrightarrow> distinct (map ci_path inputs) \<and> c'' = c\<lparr>c_configuration := inputs\<rparr>" for c''
    by (subst configuration.for_each_insert) (auto simp: key_valid_some collect_results_Inr[of "\<lambda>x. x", simplified])
  then show ?thesis
    by (auto simp: replace_configuration_inputs_def Let_def transaction_def split: sum.splits)
qed

lemma replace_configuration_Err:
  "replace_configuration_inputs inputs c = (Inl e, c') \<Longrightarrow> c' = c"
  by (auto simp: replace_configuration_inputs_def Let_def transaction_def split: sum.splits)

lemma replace_metadata_snd:
  "snd (replace_source_file_metadata ms c) =
     (if distinct (map sfm_path ms) then c\<lparr>c_metadata := ms\<rparr> else c)"
proof (cases "replace_source_file_metadata ms c")
  case (Pair r c')
  then show ?thesis using replace_metadata_Ok[of ms c "()" c'] replace_metadata_Ok[of ms c "()" "c\<lparr>c_metadata := ms\<rparr>"]
      replace_metadata_Err[of ms c _ c'] by (cases r) auto
qed

lemma replace_configuration_snd:
  "snd (replace_configuration_inputs inputs c) =
     (if distinct (map ci_path inputs) then c\<lparr>c_configuration := inputs\<rparr> else c)"
proof (cases "replace_configuration_inputs inputs c")
  case (Pair r c')
  show ?thesis
    using replace_configuration_Ok[of inputs c _ c', unfolded Pair]
      replace_configuration_Ok[of inputs c "stored_configuration_status inputs c"
        "c\<lparr>c_configuration := inputs\<rparr>", unfolded Pair]
      replace_configuration_Err[of inputs c _ c', unfolded Pair]
    unfolding Pair snd_conv by (cases r) auto
qed

text \<open>The rows of a list of descriptors.\<close>

definition locator_rows :: "artifact_descriptor list \<Rightarrow> locator_row list" where
  "locator_rows ds = concat (map (\<lambda>d. map (row_of_locator d) (ad_symbol_locators d)) ds)"

lemma bex_locator_rows:
  "(\<exists>r\<in>set (locator_rows ds). P r) \<longleftrightarrow> (\<exists>d\<in>set ds. \<exists>l\<in>set (ad_symbol_locators d). P (row_of_locator d l))"
  by (auto simp: locator_rows_def)

lemma child_rows_locators:
  "child_rows ad_symbol_locators (\<lambda>d l. Ok (row_of_locator d l)) ds = Inr (locator_rows ds)"
  by (induction ds) (simp_all add: child_rows_Cons locator_rows_def collect_results_Inr)

lemma distinct_locator_rows:
  assumes "distinct (map descriptor_unit ds)"
  shows "key_valid locator_pk (locator_rows ds) \<longleftrightarrow> (\<forall>d\<in>set ds. distinct (ad_symbol_locators d))"
  using assms
proof (induction ds)
  case (Cons d ds)
  have inj: "inj_on (\<lambda>l. (descriptor_unit d, loc_qualified_name l, loc_symbol l)) (set (ad_symbol_locators d))"
    by (rule inj_onI) (metis Pair_inject symbol_locator.equality unit.exhaust old.unit.exhaust)
  have "table_keys locator_pk (map (row_of_locator d) ls) =
      map (\<lambda>l. (descriptor_unit d, loc_qualified_name l, loc_symbol l)) ls" for ls
    by (induction ls) (simp_all add: locator_pk_def row_of_locator_def)
  moreover have "fst k \<in> descriptor_unit ` set ds" if "k \<in> set (table_keys locator_pk (locator_rows ds))" for k
    using that by (auto simp: set_table_keys locator_rows_def locator_pk_def row_of_locator_def)
  ultimately show ?case
    using Cons inj by (auto simp: key_valid_def locator_rows_def distinct_map)
qed (simp add: locator_rows_def)

lemma replace_descriptors_Ok:
  assumes "descriptors_inv (c_descriptors c) (c_locators c)"
  shows "replace_artifact_descriptors ds c = (Inr u, c') \<longleftrightarrow>
     distinct (map descriptor_unit ds) \<and> (\<forall>d\<in>set ds. distinct (ad_symbol_locators d))
     \<and> c' = c\<lparr>c_descriptors := map row_of_descriptor ds, c_locators := locator_rows ds,
              c_blob_refs := filter (\<lambda>r. rf_unit r \<in> descriptor_unit ` set ds) (c_blob_refs c)\<rparr>"
proof -
  let ?c2 = "c\<lparr>c_locators := filter (\<lambda>r. lr_unit r \<notin> dsr_unit ` set (c_descriptors c)) (c_locators c),
    c_descriptors := []\<rparr>"
  have none: "filter (\<lambda>r. lr_unit r \<notin> dsr_unit ` set (c_descriptors c)) (c_locators c) = []"
    using assms by (fastforce simp: filter_empty_conv descriptors_inv_def row_of_locator_def)
  have units: "dsr_unit (row_of_descriptor d) = descriptor_unit d" for d
    by (simp add: row_of_descriptor_def)
  have locators: "insert_locator = (\<lambda>d. insert_with c_locators c_locators_update locator_pk (\<lambda>l. Ok (row_of_locator d l)))"
    by (simp add: insert_locator_def fun_eq_iff)
  show ?thesis
    unfolding replace_artifact_descriptors_def transaction_Ok Let_def locators
    by (subst descriptors.for_each_children_then)
      (auto simp: none key_valid_some child_rows_locators collect_results_Inr units distinct_locator_rows
        comp_def image_image)
qed

lemma replace_descriptors_Err: "replace_artifact_descriptors ds c = (Inl e, c') \<Longrightarrow> c' = c"
  by (simp add: replace_artifact_descriptors_def transaction_Err)

lemma record_blob_Ok:
  assumes "blobs_inv cache_key (c_blobs c) (c_blob_refs c)"
  shows "record_artifact_blob cache_key d n c = (Inr e, c') \<longleftrightarrow>
    uint n < 2 ^ 63 \<and> (\<forall>b\<in>set (c_blobs c). bl_key b = cache_key (resolved_identity d) \<longrightarrow>
        bl_identity b = resolved_identity d)
    \<and> e = \<lparr> abe_key = cache_key (resolved_identity d), abe_identity = resolved_identity d,
            abe_length = Some n \<rparr>
    \<and> c' = c\<lparr>c_blobs := upsert_row bl_key \<lparr> bl_key = cache_key (resolved_identity d),
                bl_identity = resolved_identity d, bl_length = Some (uint n) \<rparr> (c_blobs c),
              c_blob_refs := upsert_row rf_unit
                \<lparr> rf_unit = descriptor_unit d, rf_key = cache_key (resolved_identity d) \<rparr> (c_blob_refs c)\<rparr>"
  by (auto simp: record_artifact_blob_def Let_def sqlite_offset_def split: if_splits)

lemma record_blob_Err: "record_artifact_blob cache_key d n c = (Inl e, c') \<Longrightarrow> c' = c"
  by (auto simp: record_artifact_blob_def Let_def split: sum.splits if_splits)

lemma blobs_inv_record:
  assumes "blobs_inv cache_key bs rs" "uint (n :: u64) < 2 ^ 63"
  shows "blobs_inv cache_key
    (upsert_row bl_key \<lparr> bl_key = cache_key i, bl_identity = i, bl_length = Some (uint n) \<rparr> bs)
    (upsert_row rf_unit \<lparr> rf_unit = u, rf_key = cache_key i \<rparr> rs)"
  using assms unfolding blobs_inv_def
  by (auto simp: upsert_row_distinct upsert_row_mem upsert_row_keys)

lemma blobs_inv_filter: "blobs_inv cache_key bs rs \<Longrightarrow> blobs_inv cache_key bs (filter P rs)"
  by (auto simp: blobs_inv_def distinct_map_filter)

text \<open>An unfinished \<open>put_artifact_descriptor\<close> leaves a prefix of the locators.\<close>

lemma autocommit_locators:
  "snd (autocommit (map (insert_locator d) ls) c)
     \<in> {c\<lparr>c_locators := c_locators c @ map (row_of_locator d) ls'\<rparr> | ls'. set ls' \<subseteq> set ls
          \<and> (key_valid locator_pk (c_locators c) \<longrightarrow>
               key_valid locator_pk (c_locators c @ map (row_of_locator d) ls'))}"
proof (induction ls arbitrary: c)
  case Nil
  show ?case by (auto intro!: exI[of _ "[]"])
next
  case (Cons l ls)
  show ?case
  proof (cases "insert_locator d l c")
    case (Inl e)
    then show ?thesis by (auto intro!: exI[of _ "[]"])
  next
    case (Inr c1)
    have step: "c1 = c\<lparr>c_locators := c_locators c @ [row_of_locator d l]\<rparr>
        \<and> (key_valid locator_pk (c_locators c) \<longrightarrow> key_valid locator_pk (c_locators c @ [row_of_locator d l]))"
    proof
      show "c1 = c\<lparr>c_locators := c_locators c @ [row_of_locator d l]\<rparr>"
        using Inr by (auto simp: insert_locator_def insert_with_def on_table_Ok insert_row_def split: if_splits)
      show "key_valid locator_pk (c_locators c) \<longrightarrow> key_valid locator_pk (c_locators c @ [row_of_locator d l])"
        using Inr descriptors.B.insert_with_Ok[of locator_pk c "\<lambda>l. Ok (row_of_locator d l)" l c1]
        by (auto simp: insert_locator_def)
    qed
    from Cons[of c1] step obtain ls' where "set ls' \<subseteq> set ls"
      "snd (autocommit (map (insert_locator d) ls) c1)
         = c\<lparr>c_locators := c_locators c @ map (row_of_locator d) (l # ls')\<rparr>"
      "key_valid locator_pk (c_locators c) \<longrightarrow>
         key_valid locator_pk (c_locators c @ map (row_of_locator d) (l # ls'))"
      by auto
    with Inr show ?thesis by (auto intro!: exI[of _ "l # ls'"])
  qed
qed

lemma descriptors_inv_put:
  assumes "descriptors_inv (c_descriptors c) (c_locators c)"
  shows "descriptors_inv (c_descriptors (snd (put_artifact_descriptor d c)))
    (c_locators (snd (put_artifact_descriptor d c)))"
proof -
  let ?ds = "upsert_row dsr_unit (row_of_descriptor d) (c_descriptors c)"
  let ?ls = "filter (\<lambda>r. lr_unit r \<noteq> descriptor_unit d) (c_locators c)"
  obtain ls' where ls': "set ls' \<subseteq> set (ad_symbol_locators d)"
    "snd (put_artifact_descriptor d c) = c\<lparr>c_descriptors := ?ds, c_locators := ?ls @ map (row_of_locator d) ls'\<rparr>"
    "key_valid locator_pk ?ls \<longrightarrow> key_valid locator_pk (?ls @ map (row_of_locator d) ls')"
    using autocommit_locators[of d "ad_symbol_locators d" "c\<lparr>c_descriptors := ?ds, c_locators := ?ls\<rparr>"]
    by (auto simp: put_artifact_descriptor_def)
  have valid: "key_valid locator_pk (?ls @ map (row_of_locator d) ls')"
    using ls'(3) assms by (auto simp: descriptors_inv_def)
  have unit: "dsr_unit (row_of_descriptor d) = descriptor_unit d" "dsr_descriptor (row_of_descriptor d) = d"
    by (simp_all add: row_of_descriptor_def)
  have old: "\<exists>d'\<in>dsr_descriptor ` set ?ds. \<exists>l\<in>set (ad_symbol_locators d'). r = row_of_locator d' l"
    if r: "r \<in> set ?ls" for r
  proof -
    from r assms obtain row l where "row \<in> set (c_descriptors c)" "l \<in> set (ad_symbol_locators (dsr_descriptor row))"
        "r = row_of_locator (dsr_descriptor row) l" "dsr_unit row = descriptor_unit (dsr_descriptor row)"
      unfolding descriptors_inv_def by fastforce
    moreover from this r have "dsr_unit row \<noteq> descriptor_unit d" by (auto simp: row_of_locator_def)
    ultimately show ?thesis using unit by (auto simp: upsert_row_mem)
  qed
  have new: "\<exists>d'\<in>dsr_descriptor ` set ?ds. \<exists>l\<in>set (ad_symbol_locators d'). row_of_locator d k = row_of_locator d' l"
    if "k \<in> set ls'" for k
  proof -
    have "row_of_descriptor d \<in> set ?ds" by (simp add: upsert_row_mem)
    then have "d \<in> dsr_descriptor ` set ?ds" using unit(2) by (metis imageI)
    then show ?thesis using that ls'(1) by blast
  qed
  have "distinct (map dsr_unit ?ds)" "\<forall>r\<in>set ?ds. dsr_unit r = descriptor_unit (dsr_descriptor r)"
    using assms unit by (auto simp: descriptors_inv_def upsert_row_distinct upsert_row_mem)
  moreover have "\<forall>r\<in>set (?ls @ map (row_of_locator d) ls').
      \<exists>d'\<in>dsr_descriptor ` set ?ds. \<exists>l\<in>set (ad_symbol_locators d'). r = row_of_locator d' l"
  proof
    fix r
    assume "r \<in> set (?ls @ map (row_of_locator d) ls')"
    then consider "r \<in> set ?ls" | l where "l \<in> set ls'" "r = row_of_locator d l"
      by (auto simp del: set_filter)
    then show "\<exists>d'\<in>dsr_descriptor ` set ?ds. \<exists>l\<in>set (ad_symbol_locators d'). r = row_of_locator d' l"
    proof cases
      case 1
      then show ?thesis by (rule old)
    next
      case 2
      show ?thesis unfolding 2(2) using 2(1) by (rule new)
    qed
  qed
  ultimately show ?thesis
    using valid unfolding ls'(2) descriptors_inv_def by simp
qed

lemma documents_inv_keep:
  "documents_inv (c_documents c) (c_terms c) \<Longrightarrow>
     documents_inv (c_documents (keep_documents P c)) (c_terms (keep_documents P c))"
  by (auto simp: documents_inv_def keep_documents_def distinct_map_filter)

text \<open>The rows of a changed document.\<close>

definition document_terms :: "(string \<Rightarrow> bool) \<Rightarrow> text_document \<Rightarrow> term_row list" where
  "document_terms word d = map (row_of_term (td_path d)) (lexical_terms word (td_content d))"

definition index_document :: "(string \<Rightarrow> bool) \<Rightarrow> text_document \<Rightarrow> catalog \<Rightarrow> catalog" where
  "index_document word d c =
     c\<lparr>c_terms := filter (\<lambda>r. mt_path r \<noteq> td_path d) (c_terms c) @ document_terms word d,
       c_documents := upsert_row xr_path
         \<lparr> xr_path = td_path d, xr_fingerprint = td_fingerprint d \<rparr> (c_documents c)\<rparr>"

lemma document_terms_valid:
  assumes "key_valid term_pk ts"
  shows "key_valid term_pk (filter (\<lambda>r. mt_path r \<noteq> td_path d) ts @ document_terms word d)"
proof -
  have pk: "term_pk = (\<lambda>r. Some (mt_path r, mt_term r, mt_start r))" by (simp add: term_pk_def fun_eq_iff)
  have "distinct (map (\<lambda>sp. fst (snd sp)) (lexical_terms word (td_content d)))"
    by (rule lexical_starts_distinct)
  then have "distinct (map (\<lambda>r. nat (mt_start r)) (document_terms word d))"
    by (simp add: document_terms_def comp_def row_of_term_def case_prod_unfold)
  then have "distinct (map (\<lambda>r. (mt_path r, mt_term r, mt_start r)) (document_terms word d))"
    by (auto simp: distinct_map inj_on_def)
  moreover have "mt_path r = td_path d" if "r \<in> set (document_terms word d)" for r
    using that by (auto simp: document_terms_def row_of_term_def)
  ultimately show ?thesis
    using key_valid_filter[OF assms, of "\<lambda>r. mt_path r \<noteq> td_path d"]
    unfolding key_valid_append pk by (auto simp: key_valid_some)
qed

lemma sync_document_Ok:
  assumes "documents_inv (c_documents c) (c_terms c)"
  shows "sync_document word d c = Inr (if \<exists>r\<in>set (c_documents c). xr_path r = td_path d \<and>
      xr_fingerprint r = td_fingerprint d then c else index_document word d c)"
proof -
  let ?c = "c\<lparr>c_terms := filter (\<lambda>r. mt_path r \<noteq> td_path d) (c_terms c),
    c_documents := upsert_row xr_path
      \<lparr> xr_path = td_path d, xr_fingerprint = td_fingerprint d \<rparr> (c_documents c)\<rparr>"
  have valid: "key_valid term_pk (c_terms c)" "distinct (map xr_path (c_documents c))"
    using assms by (auto simp: documents_inv_def)
  have "for_each (insert_with c_terms c_terms_update term_pk (\<lambda>t. Ok (row_of_term (td_path d) t)))
      (lexical_terms word (td_content d)) ?c = Inr (index_document word d c)"
    using document_terms_valid[OF valid(1), of d word] key_valid_filter[OF valid(1)]
    by (subst documents.B.for_each_insert)
      (auto simp: collect_results_Inr index_document_def document_terms_def)
  moreover have "map_option xr_fingerprint (find (\<lambda>r. xr_path r = td_path d) (c_documents c)) = Some f
      \<longleftrightarrow> (\<exists>r\<in>set (c_documents c). xr_path r = td_path d \<and> xr_fingerprint r = f)" for f
    using valid(2) find_unique_key[of xr_path "c_documents c" "td_path d"] by auto
  ultimately show ?thesis by (simp add: sync_document_def) blast
qed

lemma documents_inv_index:
  "documents_inv (c_documents c) (c_terms c) \<Longrightarrow>
     documents_inv (c_documents (index_document word d c)) (c_terms (index_document word d c))"
  using document_terms_valid[of "c_terms c" d word]
  by (auto simp: documents_inv_def index_document_def upsert_row_distinct upsert_row_keys
      document_terms_def row_of_term_def)

text \<open>The frame of the catalog operations: what each leaves alone.\<close>

lemma put_descriptor_frame:
  "\<exists>ds ls. snd (put_artifact_descriptor d c) = c\<lparr>c_descriptors := ds, c_locators := ls\<rparr>"
  using autocommit_locators[of d "ad_symbol_locators d"
      "c\<lparr>c_descriptors := upsert_row dsr_unit (row_of_descriptor d) (c_descriptors c),
         c_locators := filter (\<lambda>r. lr_unit r \<noteq> descriptor_unit d) (c_locators c)\<rparr>"]
  by (auto simp: put_artifact_descriptor_def)

lemma sync_documents_inv:
  "documents_inv (c_documents c) (c_terms c) \<Longrightarrow>
    \<exists>c'. for_each (sync_document word) docs c = Inr c'
      \<and> documents_inv (c_documents c') (c_terms c') \<and> (\<exists>ds ts. c' = c\<lparr>c_documents := ds, c_terms := ts\<rparr>)"
proof (induction docs arbitrary: c)
  case Nil
  then show ?case by (auto intro!: exI[of _ "c_documents c"] exI[of _ "c_terms c"])
next
  case (Cons d docs)
  let ?c1 = "if \<exists>r\<in>set (c_documents c). xr_path r = td_path d \<and> xr_fingerprint r = td_fingerprint d then c
    else index_document word d c"
  have "documents_inv (c_documents ?c1) (c_terms ?c1)" using Cons.prems documents_inv_index by auto
  from Cons.IH[OF this] obtain c' ds ts where C: "for_each (sync_document word) docs ?c1 = Inr c'"
    "documents_inv (c_documents c') (c_terms c')" "c' = ?c1\<lparr>c_documents := ds, c_terms := ts\<rparr>" by blast
  have "?c1\<lparr>c_documents := ds, c_terms := ts\<rparr> = c\<lparr>c_documents := ds, c_terms := ts\<rparr>"
    by (simp add: index_document_def)
  with C(3) have "c' = c\<lparr>c_documents := ds, c_terms := ts\<rparr>" by (rule trans)
  then have frame: "\<exists>ds ts. c' = c\<lparr>c_documents := ds, c_terms := ts\<rparr>" by (intro exI)
  have loop: "for_each (sync_document word) (d # docs) c = Inr c'"
    unfolding for_each.simps sync_document_Ok[OF Cons.prems] and_then_Ok by (rule C(1))
  show ?case by (rule exI) (rule conjI[OF loop conjI[OF C(2) frame]])
qed

lemma catalog_inv_step:
  assumes "catalog_inv (env_cache_key env) c"
  shows "catalog_inv (env_cache_key env) (catalog_step env op c)"
proof (cases op)
  case (PutManifest m)
  then show ?thesis using assms
    by (auto simp: put_manifest_def catalog_inv_def upsert_row_distinct split: sum.splits)
next
  case (PutCheckpoint k)
  then show ?thesis using assms
    by (auto simp: put_workspace_checkpoint_def catalog_inv_def upsert_row_distinct)
next
  case (ReplaceConfiguration inputs)
  show ?thesis using assms
    by (simp add: ReplaceConfiguration replace_configuration_snd catalog_inv_def)
next
  case (ReplaceMetadata ms)
  show ?thesis using assms
    by (simp add: ReplaceMetadata replace_metadata_snd catalog_inv_def)
next
  case (PutDescriptor d)
  obtain ds ls where "snd (put_artifact_descriptor d c) = c\<lparr>c_descriptors := ds, c_locators := ls\<rparr>"
    using put_descriptor_frame by blast
  moreover have "descriptors_inv (c_descriptors c) (c_locators c)" using assms by (simp add: catalog_inv_def)
  note descriptors_inv_put[OF this, of d]
  ultimately show ?thesis using assms PutDescriptor by (simp add: catalog_inv_def)
next
  case (ReplaceDescriptors ds)
  have inv: "descriptors_inv (c_descriptors c) (c_locators c)" using assms by (simp add: catalog_inv_def)
  show ?thesis
  proof (cases "replace_artifact_descriptors ds c")
    case (Pair r c')
    show ?thesis
    proof (cases r)
      case (Inl e)
      then show ?thesis using assms Pair ReplaceDescriptors replace_descriptors_Err by fastforce
    next
      case (Inr u)
      with Pair replace_descriptors_Ok[OF inv, of ds u c'] have ok:
        "distinct (map descriptor_unit ds)" "\<forall>d\<in>set ds. distinct (ad_symbol_locators d)"
        "c' = c\<lparr>c_descriptors := map row_of_descriptor ds, c_locators := locator_rows ds,
              c_blob_refs := filter (\<lambda>r. rf_unit r \<in> descriptor_unit ` set ds) (c_blob_refs c)\<rparr>" by auto
      have "descriptors_inv (map row_of_descriptor ds) (locator_rows ds)"
        using ok(1,2) distinct_locator_rows[OF ok(1)]
        by (auto simp: descriptors_inv_def row_of_descriptor_def comp_def locator_rows_def image_image)
      with assms Pair ReplaceDescriptors ok(3) show ?thesis
        by (auto simp: catalog_inv_def blobs_inv_filter)
    qed
  qed
next
  case (RecordBlob d n)
  have inv: "blobs_inv (env_cache_key env) (c_blobs c) (c_blob_refs c)" using assms by (simp add: catalog_inv_def)
  show ?thesis
  proof (cases "record_artifact_blob (env_cache_key env) d n c")
    case (Pair r c')
    show ?thesis
    proof (cases r)
      case (Inl e)
      then show ?thesis using assms Pair RecordBlob record_blob_Err by fastforce
    next
      case (Inr e)
      with Pair record_blob_Ok[OF inv, of d n e c'] blobs_inv_record[OF inv, of n] assms RecordBlob
      show ?thesis by (auto simp: catalog_inv_def)
    qed
  qed
next
  case (ReconcileBlobs probe)
  then show ?thesis using assms
    by (auto simp: reconcile_artifact_blob_refs_def Let_def catalog_inv_def blobs_inv_filter)
next
  case (SyncTexts docs)
  show ?thesis
  proof (cases "sync_text_documents (env_word env) (env_max_variables env) docs c")
    case (Pair r c')
    show ?thesis
    proof (cases r)
      case (Inl e)
      then show ?thesis using assms Pair SyncTexts by (simp add: sync_text_documents_def transaction_Err)
    next
      case (Inr u)
      then obtain P where P: "for_each (sync_document (env_word env)) docs (keep_documents P c) = Inr c'"
        using Pair by (auto simp: sync_text_documents_def transaction_Ok split: if_splits)
      have "documents_inv (c_documents (keep_documents P c)) (c_terms (keep_documents P c))"
        using assms by (intro documents_inv_keep) (simp add: catalog_inv_def)
      from sync_documents_inv[OF this, of "env_word env" docs] P obtain ds ts where
        "documents_inv (c_documents c') (c_terms c')" "c' = keep_documents P c\<lparr>c_documents := ds, c_terms := ts\<rparr>"
        by auto
      then show ?thesis using assms Pair SyncTexts by (simp add: catalog_inv_def keep_documents_def)
    qed
  qed
qed

lemma catalog_inv_empty: "catalog_inv cache_key empty_catalog"
  by (simp add: empty_catalog_def catalog_inv_def descriptors_inv_def blobs_inv_def documents_inv_def)

lemma catalog_invariant_lemma: "catalog_inv (env_cache_key env) (run_catalog env ops)"
proof -
  have "catalog_inv (env_cache_key env) c \<Longrightarrow> catalog_inv (env_cache_key env) (fold (catalog_step env) ops c)" for c
    by (induction ops arbitrary: c) (auto intro: catalog_inv_step)
  from this[OF catalog_inv_empty] show ?thesis unfolding run_catalog_def .
qed

text \<open>
  C39. After any sequence of operations every table of the catalog respects its keys, every locator
  belongs to the current descriptor of its unit, every blob reference leads to one blob whose key is
  the cache key of its identity, and every indexed term belongs to an indexed document.
\<close>

theorem catalog_invariant: "catalog_inv (env_cache_key env) (run_catalog env ops)"
  by (rule catalog_invariant_lemma)

section \<open>Configuration inputs\<close>

lemma reconcile_unchanged:
  assumes "distinct (map ci_key p)" "distinct (map ci_key c)" "set p = set (c :: configuration_input list)"
  shows "cir_affected_components (reconcile_configuration_inputs p c) = []"
proof -
  have get: "btree_get (inventory xs) k = Some i \<longleftrightarrow> i \<in> set xs \<and> ci_key i = k"
    if "distinct (map ci_key xs)" for xs k i
    using that btree_index_get_unique[of i xs ci_key] btree_index_get_Some[of ci_key xs k i]
    by (auto simp: distinct_map)
  have same: "btree_get (inventory p) k = btree_get (inventory c) k" for k
  proof -
    have "btree_get (inventory p) k = Some i \<longleftrightarrow> btree_get (inventory c) k = Some i" for i
      unfolding get[OF assms(1)] get[OF assms(2)] assms(3) ..
    then show ?thesis by (metis not_None_eq)
  qed
  have "cis_state (status_of p c k) = InputCurrent" if "k \<in> ci_key ` (set p \<union> set c)" for k
  proof -
    from that have "btree_get (inventory p) k \<noteq> None \<or> btree_get (inventory c) k \<noteq> None"
      unfolding path_known .
    then obtain i where i: "btree_get (inventory p) k = Some i" using same[of k] by (metis not_None_eq)
    moreover from i have "btree_get (inventory c) k = Some i" unfolding same .
    ultimately show ?thesis by (simp add: status_of_fields(2)[OF that] input_state_def)
  qed
  then have "set (cir_affected_components (reconcile_configuration_inputs p c)) = {}"
    unfolding affected_components_eq reconcile_inputs set_map set_input_paths by blast
  then show ?thesis by simp
qed

text \<open>
  Replacing the configuration inventory reports the differences to the previous one and stores
  exactly the given inputs; afterwards the same inventory affects no component.
\<close>

theorem configuration_replacement_exact:
  assumes "distinct (map ci_path inputs)"
  shows "\<exists>c'. replace_configuration_inputs inputs c = (Ok (stored_configuration_status inputs c), c')
    \<and> stored_configuration_inputs c' = sort_key ci_path inputs
    \<and> cir_affected_components (stored_configuration_status inputs c') = []"
proof -
  have keys: "distinct (map ci_key inputs)"
    using assms by (auto simp: distinct_map inj_on_def ci_key_def as_str_inject)
  moreover have "distinct (map ci_key (sort_key ci_path inputs))"
    using keys by (simp add: distinct_map)
  ultimately have "cir_affected_components (reconcile_configuration_inputs (sort_key ci_path inputs) inputs) = []"
    by (intro reconcile_unchanged) simp_all
  then have "stored_configuration_inputs (c\<lparr>c_configuration := inputs\<rparr>) = sort_key ci_path inputs
      \<and> cir_affected_components (stored_configuration_status inputs (c\<lparr>c_configuration := inputs\<rparr>)) = []"
    by (simp add: stored_configuration_inputs_def stored_configuration_status_def)
  moreover have "replace_configuration_inputs inputs c
      = (Ok (stored_configuration_status inputs c), c\<lparr>c_configuration := inputs\<rparr>)"
    using assms by (simp add: replace_configuration_Ok)
  ultimately show ?thesis by blast
qed

theorem configuration_replacement_exact_witness:
  "\<exists>c'. replace_configuration_inputs [sample_configuration ''pom.xml'' ''1'' ''core''] empty_catalog
      = (Ok (stored_configuration_status [sample_configuration ''pom.xml'' ''1'' ''core''] empty_catalog), c')
    \<and> stored_configuration_inputs c' = [sample_configuration ''pom.xml'' ''1'' ''core'']"
  using configuration_replacement_exact[of "[sample_configuration ''pom.xml'' ''1'' ''core'']" empty_catalog]
  by auto

section \<open>Routing by the dependency catalog\<close>

lemma replace_descriptors_result:
  assumes "distinct (map descriptor_unit ds)" "\<forall>d\<in>set ds. distinct (ad_symbol_locators d)"
  shows "replace_artifact_descriptors ds (run_catalog env ops) =
    (Ok (), (run_catalog env ops)\<lparr>c_descriptors := map row_of_descriptor ds, c_locators := locator_rows ds,
       c_blob_refs := filter (\<lambda>r. rf_unit r \<in> descriptor_unit ` set ds) (c_blob_refs (run_catalog env ops))\<rparr>)"
  using assms catalog_invariant_lemma[of env ops] by (simp add: replace_descriptors_Ok catalog_inv_def)

lemma located_descriptors_set:
  assumes "distinct (map descriptor_unit ds)"
    and "c_descriptors c = map row_of_descriptor ds" "c_locators c = locator_rows ds"
  shows "d \<in> set (located_descriptors P c) \<longleftrightarrow>
    d \<in> set ds \<and> (\<exists>l\<in>set (ad_symbol_locators d). P (row_of_locator d l))"
proof -
  have unique: "d' = d''" if "d' \<in> set ds" "d'' \<in> set ds" "descriptor_unit d' = descriptor_unit d''" for d' d''
    using assms(1) that by (auto simp: distinct_map dest: inj_onD)
  have "d \<in> set (located_descriptors P c) \<longleftrightarrow>
      (\<exists>l\<in>set (locator_rows ds). P l \<and> (\<exists>r\<in>row_of_descriptor ` set ds. dsr_unit r = lr_unit l \<and> d = dsr_descriptor r))"
    by (auto simp: located_descriptors_def assms(2,3))
  also have "\<dots> \<longleftrightarrow> (\<exists>d'\<in>set ds. \<exists>l\<in>set (ad_symbol_locators d'). P (row_of_locator d' l)
      \<and> d \<in> set ds \<and> descriptor_unit d = descriptor_unit d')"
    by (auto simp: locator_rows_def row_of_descriptor_def row_of_locator_def)
  also have "\<dots> \<longleftrightarrow> d \<in> set ds \<and> (\<exists>l\<in>set (ad_symbol_locators d). P (row_of_locator d l))"
    using unique by metis
  finally show ?thesis .
qed

text \<open>
  C40. Replacing the dependency catalog succeeds when units and locators are unique; afterwards the
  catalog lists exactly the given descriptors by unit, a name or a symbol routes to exactly the
  descriptors that advertise it, and no other unit keeps a blob reference.
\<close>

theorem descriptor_routing_exact:
  assumes "distinct (map descriptor_unit ds)" "\<forall>d\<in>set ds. distinct (ad_symbol_locators d)"
  shows "\<exists>c'. replace_artifact_descriptors ds (run_catalog env ops) = (Ok (), c')
    \<and> stored_artifact_descriptors c' = sort_key descriptor_unit ds
    \<and> (\<forall>name d. d \<in> set (artifact_candidates_with_qualified_name name c') \<longleftrightarrow>
         d \<in> set ds \<and> name \<in> loc_qualified_name ` set (ad_symbol_locators d))
    \<and> (\<forall>s d. d \<in> set (artifact_candidates_with_symbol s c') \<longleftrightarrow>
         d \<in> set ds \<and> s \<in> loc_symbol ` set (ad_symbol_locators d))
    \<and> (\<forall>name s. s \<in> set (symbols_with_qualified_name name c') \<longleftrightarrow>
         (\<exists>d\<in>set ds. \<lparr> loc_qualified_name = name, loc_symbol = s \<rparr> \<in> set (ad_symbol_locators d)))
    \<and> rf_unit ` set (c_blob_refs c') \<subseteq> descriptor_unit ` set ds"
proof -
  let ?c = "run_catalog env ops"
  let ?c' = "?c\<lparr>c_descriptors := map row_of_descriptor ds, c_locators := locator_rows ds,
       c_blob_refs := filter (\<lambda>r. rf_unit r \<in> descriptor_unit ` set ds) (c_blob_refs ?c)\<rparr>"
  have "stored_artifact_descriptors ?c' = sort_key descriptor_unit ds"
  proof -
    have "sort_key dsr_unit (map row_of_descriptor ds) = map row_of_descriptor (sort_key descriptor_unit ds)"
      by (simp add: sort_key_map row_of_descriptor_def)
    then show ?thesis by (simp add: stored_artifact_descriptors_def row_of_descriptor_def comp_def)
  qed
  moreover have "d \<in> set (located_descriptors P ?c') \<longleftrightarrow>
      d \<in> set ds \<and> (\<exists>l\<in>set (ad_symbol_locators d). P (row_of_locator d l))" for d P
    by (rule located_descriptors_set[OF assms(1)]) simp_all
  moreover have "s \<in> set (symbols_with_qualified_name name ?c') \<longleftrightarrow>
      (\<exists>d\<in>set ds. \<lparr> loc_qualified_name = name, loc_symbol = s \<rparr> \<in> set (ad_symbol_locators d))" for s name
  proof -
    have "(\<exists>l\<in>L. loc_qualified_name l = name \<and> loc_symbol l = s)
        \<longleftrightarrow> \<lparr> loc_qualified_name = name, loc_symbol = s \<rparr> \<in> L" for L :: "symbol_locator set"
      by (metis symbol_locator.cases symbol_locator.select_convs(1,2))
    moreover have "s \<in> set (symbols_with_qualified_name name ?c') \<longleftrightarrow>
        (\<exists>d\<in>set ds. \<exists>l\<in>set (ad_symbol_locators d). loc_qualified_name l = name \<and> loc_symbol l = s)"
    proof -
      have "s \<in> set (symbols_with_qualified_name name ?c') \<longleftrightarrow>
          (\<exists>r\<in>set (locator_rows ds). lr_name r = name \<and> lr_symbol r = s)"
        unfolding symbols_with_qualified_name_def by auto
      then show ?thesis unfolding bex_locator_rows by (simp add: row_of_locator_def)
    qed
    ultimately show ?thesis by simp
  qed
  ultimately show ?thesis
    using replace_descriptors_result[OF assms, of env ops]
    by (intro exI[of _ ?c'])
      (auto simp: artifact_candidates_with_qualified_name_def artifact_candidates_with_symbol_def row_of_locator_def)
qed

definition named_descriptor :: "string \<Rightarrow> symbol_locator list \<Rightarrow> artifact_descriptor" where
  "named_descriptor unit locators = (sample_descriptor unit ''1'')\<lparr>ad_symbol_locators := locators\<rparr>"

definition sample_env :: catalog_env where
  "sample_env = \<lparr> env_cache_key = (\<lambda>i. di_content i), env_word = (\<lambda>c. True), env_max_variables = 2 \<rparr>"

theorem descriptor_routing_exact_witness:
  "\<exists>c'. replace_artifact_descriptors
       [named_descriptor ''a'' [\<lparr> loc_qualified_name = ''A'', loc_symbol = SymbolId ''s'' \<rparr>]] (run_catalog sample_env []) = (Ok (), c')
     \<and> SymbolId ''s'' \<in> set (symbols_with_qualified_name ''A'' c')"
  using descriptor_routing_exact[of
      "[named_descriptor ''a'' [\<lparr> loc_qualified_name = ''A'', loc_symbol = SymbolId ''s'' \<rparr>]]" sample_env "[]"]
  by (auto simp: named_descriptor_def)

text \<open>
  A descriptor that repeats a locator is refused, but outside a transaction: the catalog already
  names the new descriptor and has only its first locators.
\<close>

lemma put_artifact_descriptor_is_not_atomic:
  "let l = \<lparr> loc_qualified_name = ''A'', loc_symbol = SymbolId ''s'' \<rparr>;
       m = \<lparr> loc_qualified_name = ''B'', loc_symbol = SymbolId ''t'' \<rparr>;
       (r, c) = put_artifact_descriptor (named_descriptor ''a'' [l, l, m]) empty_catalog
   in r = Err SqliteConstraint \<and> length (c_descriptors c) = 1
      \<and> symbols_with_qualified_name ''A'' c = [SymbolId ''s''] \<and> symbols_with_qualified_name ''B'' c = []"
  by code_simp

section \<open>Blob references\<close>

definition entry_of_blob :: "blob_row \<Rightarrow> artifact_blob_entry" where
  "entry_of_blob b = \<lparr> abe_key = bl_key b, abe_identity = bl_identity b,
     abe_length = map_option of_int (bl_length b) \<rparr>"

lemma find_filter: "find P (filter Q xs) = find (\<lambda>x. Q x \<and> P x) xs"
  by (induction xs) auto

text \<open>The lookup in terms of the two keys.\<close>

definition blob_bound :: "catalog \<Rightarrow> source_unit_id \<Rightarrow> artifact_blob_entry \<Rightarrow> bool" where
  "blob_bound c u e = (\<exists>r\<in>set (c_blob_refs c). \<exists>b\<in>set (c_blobs c).
     rf_unit r = u \<and> bl_key b = rf_key r \<and> e = entry_of_blob b)"

lemma artifact_blob_for_cases:
  assumes "blobs_inv cache_key (c_blobs c) (c_blob_refs c)"
  obtains (none) "artifact_blob_for u c = Ok None" "u \<notin> rf_unit ` set (c_blob_refs c)"
  | (some) e where "artifact_blob_for u c = Ok (Some e)" "\<And>e'. blob_bound c u e' \<longleftrightarrow> e' = e"
      "u \<in> rf_unit ` set (c_blob_refs c)"
proof -
  let ?refs = "filter (\<lambda>r. rf_unit r = u) (c_blob_refs c)"
  let ?pairs = "concat (map (\<lambda>r. map (Pair r) (c_blobs c)) ?refs)"
  let ?found = "find (\<lambda>(r, b). rf_key r = bl_key b) ?pairs"
  have inv: "distinct (map bl_key (c_blobs c))" "distinct (map rf_unit (c_blob_refs c))"
    "\<forall>b\<in>set (c_blobs c). \<exists>n. bl_length b = Some n \<and> 0 \<le> n" "\<forall>r\<in>set (c_blob_refs c). rf_key r \<in> bl_key ` set (c_blobs c)"
    using assms by (auto simp: blobs_inv_def)
  show thesis
  proof (cases ?found)
    case None
    then have "u \<notin> rf_unit ` set (c_blob_refs c)"
      using inv(4) by (fastforce simp: find_None_iff)
    with None none show thesis by (simp add: artifact_blob_for_def)
  next
    case (Some pair)
    obtain r b where pair: "pair = (r, b)" by fastforce
    from Some pair have rb: "r \<in> set (c_blob_refs c)" "rf_unit r = u" "b \<in> set (c_blobs c)" "rf_key r = bl_key b"
      by (auto simp: find_Some_iff in_set_conv_nth dest!: nth_mem)
    have unique: "b' = b" if "r' \<in> set (c_blob_refs c)" "rf_unit r' = u" "b' \<in> set (c_blobs c)"
        "bl_key b' = rf_key r'" for r' b'
    proof -
      have "r' = r" using inv(2) that(1,2) rb(1,2) by (metis distinct_map inj_onD)
      then show ?thesis using inv(1) that(3,4) rb(3,4) by (metis distinct_map inj_onD)
    qed
    have "artifact_blob_for u c = Ok (Some (entry_of_blob b))"
      using Some pair inv(3) rb(3) by (auto simp: artifact_blob_for_def entry_of_blob_def stored_blob_length_def)
    moreover have "blob_bound c u e' \<longleftrightarrow> e' = entry_of_blob b" for e'
      unfolding blob_bound_def using rb unique by metis
    moreover have "u \<in> rf_unit ` set (c_blob_refs c)" using rb(1,2) by blast
    ultimately show thesis by (rule some)
  qed
qed

lemma artifact_blob_for_bound:
  assumes "blobs_inv cache_key (c_blobs c) (c_blob_refs c)"
  shows "artifact_blob_for u c = Ok (Some e) \<longleftrightarrow> blob_bound c u e"
    and "artifact_blob_for u c = Ok None \<longleftrightarrow> u \<notin> rf_unit ` set (c_blob_refs c)"
  by (rule artifact_blob_for_cases[OF assms, of u]; auto simp: blob_bound_def)+

text \<open>
  Recording a blob for a descriptor succeeds unless its length does not fit or its key is bound
  to another identity, and then looking up the unit returns the recorded entry; units bound to
  other blobs keep theirs, and a refused recording changes nothing.
\<close>

theorem blob_recording_exact:
  assumes "record_artifact_blob (env_cache_key env) d n (run_catalog env ops) = (r, c')"
  shows "case r of
      Inr e \<Rightarrow> abe_identity e = resolved_identity d \<and> abe_key e = env_cache_key env (abe_identity e)
        \<and> abe_length e = Some n
        \<and> artifact_blob_for (descriptor_unit d) c' = Ok (Some e)
        \<and> (\<forall>u e'. u \<noteq> descriptor_unit d \<longrightarrow> (e' = None \<or> abe_key (the e') \<noteq> abe_key e) \<longrightarrow>
             (artifact_blob_for u c' = Ok e' \<longleftrightarrow> artifact_blob_for u (run_catalog env ops) = Ok e'))
    | Inl err \<Rightarrow> c' = run_catalog env ops
        \<and> (err = ByteOffsetOutOfRange n \<and> 2 ^ 63 \<le> uint n
           \<or> err = ArtifactBlobIdentityMismatch (env_cache_key env (resolved_identity d))
             \<and> (\<exists>b\<in>set (c_blobs c'). bl_key b = env_cache_key env (resolved_identity d)
                  \<and> bl_identity b \<noteq> resolved_identity d))"
proof (cases r)
  case (Inl err)
  then show ?thesis using assms
    by (auto simp: record_artifact_blob_def Let_def sqlite_offset_def split: if_splits)
next
  case (Inr e)
  let ?c = "run_catalog env ops" and ?k = "env_cache_key env (resolved_identity d)"
  have inv: "blobs_inv (env_cache_key env) (c_blobs ?c) (c_blob_refs ?c)"
    using catalog_invariant_lemma[of env ops] by (simp add: catalog_inv_def)
  from assms Inr record_blob_Ok[OF inv, of d n e c'] have
    n: "uint n < 2 ^ 63" and e: "e = \<lparr> abe_key = ?k, abe_identity = resolved_identity d, abe_length = Some n \<rparr>"
    and c': "c_blobs c' = upsert_row bl_key \<lparr> bl_key = ?k, bl_identity = resolved_identity d,
        bl_length = Some (uint n) \<rparr> (c_blobs ?c)"
      "c_blob_refs c' = upsert_row rf_unit \<lparr> rf_unit = descriptor_unit d, rf_key = ?k \<rparr> (c_blob_refs ?c)"
    by auto
  have inv': "blobs_inv (env_cache_key env) (c_blobs c') (c_blob_refs c')"
    unfolding c' by (rule blobs_inv_record[OF inv n])
  let ?b = "\<lparr> bl_key = ?k, bl_identity = resolved_identity d, bl_length = Some (uint n) \<rparr>"
  let ?r = "\<lparr> rf_unit = descriptor_unit d, rf_key = ?k \<rparr>"
  have "?b \<in> set (c_blobs c')" "?r \<in> set (c_blob_refs c')" "entry_of_blob ?b = e"
    unfolding c' upsert_row_mem by (simp_all add: entry_of_blob_def e)
  then have "blob_bound c' (descriptor_unit d) e" unfolding blob_bound_def by force
  then have own: "artifact_blob_for (descriptor_unit d) c' = Ok (Some e)"
    unfolding artifact_blob_for_bound[OF inv'] .
  have "artifact_blob_for u c' = Ok e' \<longleftrightarrow> artifact_blob_for u ?c = Ok e'"
    if "u \<noteq> descriptor_unit d" "e' = None \<or> abe_key (the e') \<noteq> abe_key e" for u e'
  proof (cases e')
    case None
    then show ?thesis using that(1)
      unfolding None artifact_blob_for_bound(2)[OF inv'] artifact_blob_for_bound(2)[OF inv] c'(2) upsert_row_keys
      by simp
  next
    case (Some entry)
    have refs: "r \<in> set (c_blob_refs c') \<longleftrightarrow> r \<in> set (c_blob_refs ?c)" if "rf_unit r = u" for r
      using that \<open>u \<noteq> descriptor_unit d\<close> unfolding c'(2) upsert_row_mem by auto
    have blobs: "b \<in> set (c_blobs c') \<longleftrightarrow> b \<in> set (c_blobs ?c)" if "bl_key b \<noteq> ?k" for b
      using that unfolding c'(1) upsert_row_mem by auto
    have "bl_key b \<noteq> ?k" if "entry = entry_of_blob b" for b
      using that Some \<open>e' = None \<or> _\<close> e by (simp add: entry_of_blob_def)
    then have "blob_bound c' u entry \<longleftrightarrow> blob_bound ?c u entry"
      unfolding blob_bound_def using refs blobs by metis
    then show ?thesis unfolding Some artifact_blob_for_bound[OF inv'] artifact_blob_for_bound[OF inv] .
  qed
  with own show ?thesis by (simp add: Inr e)
qed

text \<open>The blob a reference leads to.\<close>

definition blob_of :: "catalog \<Rightarrow> blob_ref_row \<Rightarrow> blob_row" where
  "blob_of c r = the (find (\<lambda>b. bl_key b = rf_key r) (c_blobs c))"

lemma filter_unique_key:
  "distinct (map key t) \<Longrightarrow> b \<in> set t \<Longrightarrow> filter (\<lambda>x. key x = key b) t = [b]"
  by (induction t) (auto simp: filter_empty_conv image_iff)

lemma blob_of_reference:
  assumes "blobs_inv cache_key (c_blobs c) (c_blob_refs c)" "r \<in> set (c_blob_refs c)"
  shows "blob_of c r \<in> set (c_blobs c)" "bl_key (blob_of c r) = rf_key r"
    "b \<in> set (c_blobs c) \<Longrightarrow> bl_key b = rf_key r \<Longrightarrow> b = blob_of c r"
proof -
  have distinct: "distinct (map bl_key (c_blobs c))" using assms(1) by (simp add: blobs_inv_def)
  have found: "blob_of c r = x" if "x \<in> set (c_blobs c)" "bl_key x = rf_key r" for x
  proof -
    have "find (\<lambda>b. bl_key b = rf_key r) (c_blobs c) = Some x"
      unfolding find_unique_key[OF distinct] using that by (rule conjI)
    then show ?thesis by (simp add: blob_of_def)
  qed
  have "rf_key r \<in> bl_key ` set (c_blobs c)" using assms unfolding blobs_inv_def by blast
  then obtain b' where b': "b' \<in> set (c_blobs c)" "bl_key b' = rf_key r" by (metis imageE)
  show "blob_of c r \<in> set (c_blobs c)" "bl_key (blob_of c r) = rf_key r"
    unfolding found[OF b'] by (rule b')+
  show "b = blob_of c r" if "b \<in> set (c_blobs c)" "bl_key b = rf_key r"
    using found[OF that] by (rule sym)
qed

lemma referenced_identities_eq:
  assumes "blobs_inv cache_key (c_blobs c) (c_blob_refs c)"
  shows "referenced_identities c = map (\<lambda>r. (rf_unit r, bl_identity (blob_of c r))) (c_blob_refs c)"
proof -
  have "filter (\<lambda>b. bl_key b = rf_key r) (c_blobs c) = [blob_of c r]" if "r \<in> set (c_blob_refs c)" for r
    using filter_unique_key[of bl_key "c_blobs c" "blob_of c r"] blob_of_reference(1,2)[OF assms that] assms
    by (simp add: blobs_inv_def)
  then have eq: "map (\<lambda>r. map (\<lambda>b. (rf_unit r, bl_identity b)) (filter (\<lambda>b. bl_key b = rf_key r) (c_blobs c))) (c_blob_refs c)
      = map (\<lambda>r. [(rf_unit r, bl_identity (blob_of c r))]) (c_blob_refs c)" by simp
  show ?thesis unfolding referenced_identities_def eq by (simp only: concat_map_singleton)
qed

lemma reconcile_result:
  assumes "blobs_inv cache_key (c_blobs c) (c_blob_refs c)"
  shows "reconcile_artifact_blob_refs probe c =
    (length (filter (\<lambda>r. blob_is_missing (probe (ArtifactBlobKey (bl_identity (blob_of c r))))) (c_blob_refs c)),
     c\<lparr>c_blob_refs := filter (\<lambda>r. \<not> blob_is_missing (probe (ArtifactBlobKey (bl_identity (blob_of c r)))))
         (c_blob_refs c)\<rparr>)"
proof -
  let ?gone = "\<lambda>r. blob_is_missing (probe (ArtifactBlobKey (bl_identity (blob_of c r))))"
  have missing: "map fst (filter (\<lambda>(_, i). blob_is_missing (probe (ArtifactBlobKey i))) (referenced_identities c))
      = map rf_unit (filter ?gone (c_blob_refs c))"
    unfolding referenced_identities_eq[OF assms] filter_map by (simp add: comp_def)
  have "distinct (map rf_unit (c_blob_refs c))" using assms by (simp add: blobs_inv_def)
  then have "rf_unit r \<in> rf_unit ` set (filter ?gone (c_blob_refs c)) \<longleftrightarrow> ?gone r"
    if "r \<in> set (c_blob_refs c)" for r
    using that by (auto simp: distinct_map dest: inj_onD)
  then have "filter (\<lambda>r. rf_unit r \<notin> rf_unit ` set (filter ?gone (c_blob_refs c))) (c_blob_refs c)
      = filter (\<lambda>r. \<not> ?gone r) (c_blob_refs c)"
    by (intro filter_cong) simp_all
  then show ?thesis
    unfolding reconcile_artifact_blob_refs_def Let_def missing by simp
qed

text \<open>
  After a reconciliation with the cache a unit has a blob entry exactly when it had one before
  and its blob is still readable; the number reported is the number of references dropped.
\<close>

theorem blob_reconciliation_exact:
  "let c = run_catalog env ops; (dropped, c') = reconcile_artifact_blob_refs probe c
   in dropped + length (c_blob_refs c') = length (c_blob_refs c)
      \<and> (\<forall>u e. artifact_blob_for u c' = Ok (Some e) \<longleftrightarrow>
           artifact_blob_for u c = Ok (Some e)
           \<and> \<not> blob_is_missing (probe (ArtifactBlobKey (abe_identity e))))"
proof -
  let ?c = "run_catalog env ops"
  let ?gone = "\<lambda>r. blob_is_missing (probe (ArtifactBlobKey (bl_identity (blob_of ?c r))))"
  let ?c' = "?c\<lparr>c_blob_refs := filter (\<lambda>r. \<not> ?gone r) (c_blob_refs ?c)\<rparr>"
  have inv: "blobs_inv (env_cache_key env) (c_blobs ?c) (c_blob_refs ?c)"
    using catalog_invariant_lemma[of env ops] by (simp add: catalog_inv_def)
  have inv': "blobs_inv (env_cache_key env) (c_blobs ?c') (c_blob_refs ?c')"
    using blobs_inv_filter[OF inv] by simp
  have bound: "blob_bound ?c u e \<longleftrightarrow> (\<exists>r\<in>set (c_blob_refs ?c). rf_unit r = u \<and> e = entry_of_blob (blob_of ?c r))" for u e
    unfolding blob_bound_def using blob_of_reference[OF inv] by metis
  have bound': "blob_bound ?c' u e \<longleftrightarrow>
      (\<exists>r\<in>set (c_blob_refs ?c). \<not> ?gone r \<and> rf_unit r = u \<and> e = entry_of_blob (blob_of ?c r))" for u e
    unfolding blob_bound_def using blob_of_reference[OF inv] by auto
  have "blob_bound ?c' u e \<longleftrightarrow> blob_bound ?c u e \<and> \<not> blob_is_missing (probe (ArtifactBlobKey (abe_identity e)))" for u e
    unfolding bound bound' by (auto simp: entry_of_blob_def)
  moreover have "length (filter ?gone xs) + length (filter (\<lambda>r. \<not> ?gone r) xs) = length xs" for xs
    by (simp add: sum_length_filter_compl)
  ultimately show ?thesis
    unfolding Let_def reconcile_result[OF inv] split artifact_blob_for_bound(1)[OF inv] artifact_blob_for_bound(1)[OF inv']
    by simp
qed

theorem blob_recording_exact_witness:
  "\<exists>e c'. record_artifact_blob (env_cache_key sample_env) (sample_descriptor ''a'' ''1'') 5 (run_catalog sample_env [])
       = (Ok e, c')
     \<and> artifact_blob_for (SourceUnitId ''a'') c' = Ok (Some e)"
proof -
  obtain r c' where rec: "record_artifact_blob (env_cache_key sample_env) (sample_descriptor ''a'' ''1'') 5
      (run_catalog sample_env []) = (r, c')" by fastforce
  moreover have "\<exists>e. r = Ok e"
    using rec by (auto simp: record_artifact_blob_def run_catalog_def empty_catalog_def sqlite_offset_def Let_def)
  ultimately show ?thesis
    using blob_recording_exact[OF rec] by (auto simp: descriptor_unit_def)
qed

section \<open>Manifests and checkpoints\<close>

text \<open>The first row in key order.\<close>

lemma sort_key_hd:
  assumes "distinct (map k t)" "r \<in> set t" "\<And>x. x \<in> set t \<Longrightarrow> k r \<le> k x"
  shows "\<exists>rest. sort_key k t = r # rest"
proof -
  have "sort_key k t \<noteq> []" using assms(2) by (metis empty_iff list.set(1) set_sort)
  then obtain x rest where x: "sort_key k t = x # rest" by (cases "sort_key k t") auto
  then have "x \<in> set t" using set_sort[of k t] by (metis list.set_intros(1))
  have "sorted (map k (x # rest))" using sorted_sort_key[of k t] x by simp
  moreover have "r \<in> set (x # rest)" using assms(2) set_sort[of k t] x by metis
  ultimately have "k x \<le> k r" by auto
  with assms(3)[OF \<open>x \<in> set t\<close>] have "k x = k r" by simp
  with \<open>x \<in> set t\<close> assms(1,2) have "x = r" by (auto simp: distinct_map dest: inj_onD)
  with x show ?thesis by simp
qed

text \<open>
  Whatever was stored before, a workspace manifest and a checkpoint are read back as they were
  put, and the store reports them as the current ones when their workspace is the first of those
  it holds; in particular a checkpoint keeps whether it was committed.
\<close>

theorem manifest_and_checkpoint_roundtrip:
  assumes "put_manifest m (run_catalog env ops) = (Ok (), c)"
    and "\<And>r. r \<in> set (c_manifests c) \<Longrightarrow> man_workspace m \<le> mr_workspace r"
    and "\<And>r. r \<in> set (c_checkpoints c) \<Longrightarrow> wcp_workspace k \<le> kr_workspace r"
  shows "stored_manifest (man_workspace m) c = Some m \<and> latest_manifest c = Some m
    \<and> stored_checkpoint (put_workspace_checkpoint k c) = Some k
    \<and> latest_manifest (put_workspace_checkpoint k c) = Some m"
proof -
  let ?row = "\<lparr> mr_workspace = man_workspace m, mr_fingerprint = man_fingerprint m,
    mr_protocol = prov_protocol_version (man_provenance m), mr_record = m \<rparr>"
  have inv: "catalog_inv (env_cache_key env) c"
    using catalog_inv_step[OF catalog_invariant_lemma, of env "PutManifest m" ops] assms(1) by simp
  have row: "?row \<in> set (c_manifests c)"
    using assms(1) by (auto simp: put_manifest_def upsert_row_mem split: sum.splits)
  have dm: "distinct (map mr_workspace (c_manifests c))" using inv by (simp add: catalog_inv_def)
  have "find (\<lambda>r. mr_workspace r = man_workspace m) (c_manifests c) = Some ?row"
    unfolding find_unique_key[OF dm] using row by simp
  then have "stored_manifest (man_workspace m) c = Some m" by (simp add: stored_manifest_def)
  moreover have latest: "latest_manifest c = Some m"
    using sort_key_hd[OF dm row] assms(2) by (auto simp: latest_manifest_def)
  moreover have "stored_checkpoint (put_workspace_checkpoint k c) = Some k"
  proof -
    let ?k = "\<lparr> kr_workspace = wcp_workspace k, kr_manifest = wcp_manifest k,
         kr_configuration = wcp_configuration_inputs k, kr_sources = wcp_source_inputs k,
         kr_catalog = wcp_artifact_catalog k,
         kr_state = (if wcp_committed k then ''committed'' else ''pending'') \<rparr>"
    have t: "c_checkpoints (put_workspace_checkpoint k c) = upsert_row kr_workspace ?k (c_checkpoints c)"
      by (simp add: put_workspace_checkpoint_def)
    have "distinct (map kr_workspace (upsert_row kr_workspace ?k (c_checkpoints c)))"
      using inv by (intro upsert_row_distinct) (simp add: catalog_inv_def)
    moreover have "?k \<in> set (upsert_row kr_workspace ?k (c_checkpoints c))" by (simp add: upsert_row_mem)
    moreover have "kr_workspace ?k \<le> kr_workspace x"
      if "x \<in> set (upsert_row kr_workspace ?k (c_checkpoints c))" for x
      using that assms(3)[of x] unfolding upsert_row_mem by (elim disjE) simp_all
    ultimately have "\<exists>rest. sort_key kr_workspace (upsert_row kr_workspace ?k (c_checkpoints c)) = ?k # rest"
      by (rule sort_key_hd)
    then show ?thesis unfolding stored_checkpoint_def t by auto
  qed
  ultimately show ?thesis by (simp add: put_workspace_checkpoint_def latest_manifest_def)
qed

definition sample_manifest :: project_manifest where
  "sample_manifest = \<lparr> man_workspace = WorkspaceId ''w'', man_root = WorkspacePath ''.'', man_components = [],
     man_dependencies = [], man_fingerprint = Fingerprint ''f'', man_provenance = sample_provenance ''1'' \<rparr>"

definition sample_checkpoint :: workspace_checkpoint where
  "sample_checkpoint = \<lparr> wcp_workspace = WorkspaceId ''w'', wcp_manifest = Fingerprint ''f'',
     wcp_configuration_inputs = Fingerprint ''c'', wcp_source_inputs = Fingerprint ''s'',
     wcp_artifact_catalog = Fingerprint ''a'', wcp_committed = False \<rparr>"

theorem manifest_and_checkpoint_roundtrip_witness:
  "\<exists>c. put_manifest sample_manifest (run_catalog sample_env []) = (Ok (), c)
     \<and> stored_checkpoint (put_workspace_checkpoint sample_checkpoint c) = Some sample_checkpoint"
proof -
  obtain c where put: "put_manifest sample_manifest (run_catalog sample_env []) = (Ok (), c)"
    and c: "c_manifests c = [\<lparr> mr_workspace = WorkspaceId ''w'', mr_fingerprint = Fingerprint ''f'',
      mr_protocol = 3, mr_record = sample_manifest \<rparr>]" "c_checkpoints c = []"
    by (auto simp: put_manifest_def run_catalog_def empty_catalog_def sample_manifest_def sample_provenance_def
        validate_provenance_def WORKER_PROTOCOL_VERSION_def upsert_row_def)
  from manifest_and_checkpoint_roundtrip[OF put, of sample_checkpoint] c put show ?thesis
    by (auto simp: sample_manifest_def sample_checkpoint_def)
qed

end
