(* ===== verification/Store_Lexical.thy ===== *)
theory Store_Lexical
  imports Store_Catalog
begin

text \<open>
  The lexical index of \<open>crates/kide-core/src/store.rs\<close> from end to end: what \<open>sync_text_documents\<close>
  stores and what \<open>lexical_matches\<close> finds. The index holds the terms of some text with the recorded
  fingerprint for every document, so a search that checks the fingerprint of the current file
  neither reports a stale position nor panics on a boundary.
\<close>

section \<open>Terms lie on character boundaries\<close>

lemma utf8_valid_cut:
  assumes "utf8_chars s = xs @ ys" "utf8_valid s"
  shows "is_char_boundary s (length (concat xs))"
proof (cases ys)
  case Nil
  then show ?thesis using concat_utf8_chars[of s] assms(1) by (simp add: is_char_boundary_def)
next
  case (Cons y ys')
  have s: "s = concat xs @ y @ concat ys'"
    using concat_utf8_chars[of s] assms(1) Cons by simp
  have "\<not> is_cont (hd y) \<and> y \<noteq> []"
    using assms Cons
  proof (induction s arbitrary: xs rule: utf8_chars.induct)
    case (2 c cs)
    show ?case
    proof (cases xs)
      case Nil
      then show ?thesis using 2(2-4) utf8_valid_head by auto
    next
      case (Cons x xs')
      then have tail: "utf8_chars (dropWhile is_cont cs) = xs' @ ys" using 2(2) by simp
      have heads: "\<not> is_cont (hd z) \<and> z \<noteq> []" if "z \<in> set (utf8_chars t)" "t = [] \<or> \<not> is_cont (hd t)" for z t
        using that
      proof (induction t rule: utf8_chars.induct)
        case (2 a as)
        have "dropWhile is_cont as = [] \<or> \<not> is_cont (hd (dropWhile is_cont as))"
          using hd_dropWhile[of is_cont as] by blast
        with 2 show ?case by auto
      qed simp
      have "dropWhile is_cont cs = [] \<or> \<not> is_cont (hd (dropWhile is_cont cs))"
        using hd_dropWhile[of is_cont cs] by blast
      moreover have "y \<in> set (utf8_chars (dropWhile is_cont cs))" using tail 2(4) by simp
      ultimately show ?thesis using heads by blast
    qed
  qed simp
  then show ?thesis unfolding is_char_boundary_def s by (cases y) (auto simp: nth_append)
qed

lemma after_last_newline_le: "after_last_newline s \<le> length s"
  by (simp add: after_last_newline_def)

lemma term_boundaries:
  assumes "(t, a, b) \<in> set (lexical_terms word s)" "utf8_valid s"
  shows "position_at s a \<noteq> None" "snippet_at s a b \<noteq> None" "t \<noteq> []"
proof -
  from reported_run_maximal[OF assms(1)[unfolded lexical_terms_def]] obtain xs ys zs where
    "utf8_chars s = xs @ ys @ zs \<and> maximal_run word xs ys zs \<and> (t, a, b) = run_span 0 xs ys" by blast
  then have cut: "utf8_chars s = xs @ ys @ zs" "maximal_run word xs ys zs"
    "t = concat ys" "a = length (concat xs)" "b = length (concat xs) + length (concat ys)" by simp_all
  have "length s = length (concat xs) + length (concat ys) + length (concat zs)"
    using arg_cong[OF cut(1), of "\<lambda>cs. length (concat cs)"] by (simp add: concat_utf8_chars)
  then have len: "a \<le> b" "b \<le> length s" using cut(4,5) by simp_all
  have a: "is_char_boundary s a" using utf8_valid_cut[of s xs "ys @ zs"] cut assms(2) by simp
  have "is_char_boundary s (length (concat (xs @ ys)))"
    using utf8_valid_cut[of s "xs @ ys" zs] cut(1) assms(2) by simp
  then have b: "is_char_boundary s b" using cut(5) by simp
  show "position_at s a \<noteq> None" using a len by (simp add: position_at_def Let_def)
  have "after_last_newline (take a s) \<le> b"
    using after_last_newline_le[of "take a s"] len by simp
  then show "snippet_at s a b \<noteq> None" using a b len by (simp add: snippet_at_def Let_def)
  have "ys \<noteq> []" "\<forall>y\<in>set ys. y \<noteq> []"
    using cut(1,2) utf8_chars_nonempty[of s] by (auto simp: maximal_run_def)
  then show "t \<noteq> []" using cut(3) by (cases ys) auto
qed

section \<open>What the index holds\<close>

text \<open>A document as the inventory of the workspace makes it.\<close>

definition document_ok :: "(string \<Rightarrow> string) \<Rightarrow> text_document \<Rightarrow> bool" where
  "document_ok sha256 d = (document_from_bytes sha256 (td_path d) (td_content d) = Ok d)"

definition content_fingerprint :: "(string \<Rightarrow> string) \<Rightarrow> string \<Rightarrow> fingerprint" where
  "content_fingerprint sha256 content = Fingerprint (''sha256:'' @ hex (sha256 content))"

lemma document_from_bytes_Ok:
  "document_from_bytes sha256 p bytes = Ok d \<longleftrightarrow>
     length bytes \<le> MAX_TEXT_DOCUMENT_BYTES \<and> CHR 0x00 \<notin> set bytes \<and> utf8_valid bytes
     \<and> d = \<lparr> td_path = p, td_content = bytes, td_fingerprint = content_fingerprint sha256 bytes \<rparr>"
  by (auto simp: document_from_bytes_def content_fingerprint_def)

text \<open>The terms of each document are those of one of the texts \<open>T\<close> with its fingerprint.\<close>

definition lexical_inv ::
    "(string \<Rightarrow> bool) \<Rightarrow> (string \<Rightarrow> string) \<Rightarrow> string set \<Rightarrow> document_row list \<Rightarrow> term_row list \<Rightarrow> bool" where
  "lexical_inv word sha256 T ds ts =
     (\<forall>r\<in>set ds. \<exists>content\<in>T. xr_fingerprint r = content_fingerprint sha256 content
        \<and> {t \<in> set ts. mt_path t = xr_path r} = row_of_term (xr_path r) ` set (lexical_terms word content))"

lemma mt_path_row [simp]: "mt_path (row_of_term p sp) = p"
  by (simp add: row_of_term_def case_prod_unfold)

lemma lexical_inv_keep:
  assumes "lexical_inv word sha256 T (c_documents c) (c_terms c)"
  shows "lexical_inv word sha256 T (c_documents (keep_documents P c)) (c_terms (keep_documents P c))"
  unfolding lexical_inv_def
proof
  fix r
  assume "r \<in> set (c_documents (keep_documents P c))"
  then have r: "r \<in> set (c_documents c)" "P (xr_path r)" by (auto simp: keep_documents_def)
  then have "{t \<in> set (c_terms (keep_documents P c)). mt_path t = xr_path r}
      = {t \<in> set (c_terms c). mt_path t = xr_path r}" by (auto simp: keep_documents_def)
  with r(1) assms show "\<exists>content\<in>T. xr_fingerprint r = content_fingerprint sha256 content
      \<and> {t \<in> set (c_terms (keep_documents P c)). mt_path t = xr_path r}
        = row_of_term (xr_path r) ` set (lexical_terms word content)"
    unfolding lexical_inv_def by simp
qed

lemma lexical_inv_index:
  assumes "lexical_inv word sha256 T (c_documents c) (c_terms c)" "document_ok sha256 d" "td_content d \<in> T"
  shows "lexical_inv word sha256 T (c_documents (index_document word d c)) (c_terms (index_document word d c))"
  unfolding lexical_inv_def
proof
  fix r
  assume "r \<in> set (c_documents (index_document word d c))"
  then have "r = \<lparr> xr_path = td_path d, xr_fingerprint = td_fingerprint d \<rparr>
      \<or> r \<in> set (c_documents c) \<and> xr_path r \<noteq> td_path d"
    by (simp add: index_document_def upsert_row_mem)
  then show "\<exists>content\<in>T. xr_fingerprint r = content_fingerprint sha256 content
      \<and> {t \<in> set (c_terms (index_document word d c)). mt_path t = xr_path r}
        = row_of_term (xr_path r) ` set (lexical_terms word content)"
  proof
    assume r: "r = \<lparr> xr_path = td_path d, xr_fingerprint = td_fingerprint d \<rparr>"
    have "{t \<in> set (c_terms (index_document word d c)). mt_path t = td_path d}
        = row_of_term (td_path d) ` set (lexical_terms word (td_content d))"
      by (auto simp: index_document_def document_terms_def)
    moreover have "td_fingerprint d = content_fingerprint sha256 (td_content d)"
      using assms(2) unfolding document_ok_def document_from_bytes_Ok by (metis text_document.select_convs(3))
    ultimately show ?thesis using assms(3) r by auto
  next
    assume r: "r \<in> set (c_documents c) \<and> xr_path r \<noteq> td_path d"
    then have "{t \<in> set (c_terms (index_document word d c)). mt_path t = xr_path r}
        = {t \<in> set (c_terms c). mt_path t = xr_path r}"
      by (auto simp: index_document_def document_terms_def)
    with r assms(1) show ?thesis unfolding lexical_inv_def by simp
  qed
qed

text \<open>What the synchronisation loop leaves: the invariant, and one row per document.\<close>

lemma sync_documents_rows:
  assumes "documents_inv (c_documents c) (c_terms c)" "lexical_inv word sha256 T (c_documents c) (c_terms c)"
    and "\<forall>d\<in>set docs. document_ok sha256 d \<and> td_content d \<in> T"
    and "for_each (sync_document word) docs c = Inr c'"
  shows "documents_inv (c_documents c') (c_terms c') \<and> lexical_inv word sha256 T (c_documents c') (c_terms c')
    \<and> (distinct (map td_path docs) \<longrightarrow>
        (\<forall>p f. \<lparr> xr_path = p, xr_fingerprint = f \<rparr> \<in> set (c_documents c') \<longleftrightarrow>
          (if p \<in> td_path ` set docs then \<exists>d\<in>set docs. td_path d = p \<and> td_fingerprint d = f
           else \<lparr> xr_path = p, xr_fingerprint = f \<rparr> \<in> set (c_documents c))))"
  using assms
proof (induction docs arbitrary: c)
  case (Cons d docs)
  let ?row = "\<lparr> xr_path = td_path d, xr_fingerprint = td_fingerprint d \<rparr>"
  let ?same = "\<exists>r\<in>set (c_documents c). xr_path r = td_path d \<and> xr_fingerprint r = td_fingerprint d"
  define c1 where "c1 = (if ?same then c else index_document word d c)"
  have loop: "for_each (sync_document word) docs c1 = Inr c'"
    using Cons.prems(4) sync_document_Ok[OF Cons.prems(1), of word d] by (simp add: c1_def)
  have inv: "documents_inv (c_documents c1) (c_terms c1)" "lexical_inv word sha256 T (c_documents c1) (c_terms c1)"
    using Cons.prems documents_inv_index lexical_inv_index by (simp_all add: c1_def)
  have eq: "r = \<lparr> xr_path = p, xr_fingerprint = f \<rparr> \<longleftrightarrow> xr_path r = p \<and> xr_fingerprint r = f" for r :: document_row and p f
    by (cases r) auto
  have row: "\<lparr> xr_path = p, xr_fingerprint = f \<rparr> \<in> set (c_documents c1) \<longleftrightarrow>
      (if p = td_path d then f = td_fingerprint d else \<lparr> xr_path = p, xr_fingerprint = f \<rparr> \<in> set (c_documents c))" for p f
  proof (cases ?same)
    case True
    then have mem: "?row \<in> set (c_documents c)" using eq by metis
    have "distinct (map xr_path (c_documents c))" using Cons.prems(1) by (simp add: documents_inv_def)
    then have only: "f = td_fingerprint d" if "\<lparr> xr_path = td_path d, xr_fingerprint = f \<rparr> \<in> set (c_documents c)" for f
    proof -
      have "xr_path \<lparr> xr_path = td_path d, xr_fingerprint = f \<rparr> = xr_path ?row" by simp
      with \<open>distinct (map xr_path (c_documents c))\<close> that mem
      have "\<lparr> xr_path = td_path d, xr_fingerprint = f \<rparr> = ?row" by (metis (no_types) distinct_map inj_onD)
      then show ?thesis by simp
    qed
    have c1: "c1 = c" using True by (simp only: c1_def if_True)
    show ?thesis
    proof (cases "p = td_path d")
      case True
      have "\<lparr> xr_path = td_path d, xr_fingerprint = f \<rparr> \<in> set (c_documents c) \<longleftrightarrow> f = td_fingerprint d"
        using mem only[of f] by metis
      then show ?thesis by (simp add: True c1)
    qed (simp only: c1 if_False)
  next
    case False
    then show ?thesis by (auto simp: c1_def index_document_def upsert_row_mem)
  qed
  from Cons.IH[OF inv _ loop] Cons.prems(3) have IH:
    "documents_inv (c_documents c') (c_terms c') \<and> lexical_inv word sha256 T (c_documents c') (c_terms c')"
    "distinct (map td_path docs) \<Longrightarrow> \<lparr> xr_path = p, xr_fingerprint = f \<rparr> \<in> set (c_documents c') \<longleftrightarrow>
      (if p \<in> td_path ` set docs then \<exists>d\<in>set docs. td_path d = p \<and> td_fingerprint d = f
       else \<lparr> xr_path = p, xr_fingerprint = f \<rparr> \<in> set (c_documents c1))" for p f
    by simp_all
  show ?case
  proof (intro conjI impI allI)
    fix p f
    assume dist: "distinct (map td_path (d # docs))"
    then have other: "td_path x \<noteq> td_path d" if "x \<in> set docs" for x
      using that by (metis distinct.simps(2) image_eqI list.set_map list.simps(9))
    from dist show "\<lparr> xr_path = p, xr_fingerprint = f \<rparr> \<in> set (c_documents c') \<longleftrightarrow>
        (if p \<in> td_path ` set (d # docs) then \<exists>d\<in>set (d # docs). td_path d = p \<and> td_fingerprint d = f
         else \<lparr> xr_path = p, xr_fingerprint = f \<rparr> \<in> set (c_documents c))"
      using IH(2)[of p f] row[of p f]
      by (cases "p = td_path d"; cases "p \<in> td_path ` set docs") (auto dest: other)
  qed (use IH(1) in auto)
qed simp

text \<open>The documents the operations of a run synchronise.\<close>

fun synced :: "catalog_operation list \<Rightarrow> text_document set" where
  "synced [] = {}"
| "synced (SyncTexts docs # ops) = set docs \<union> synced ops"
| "synced (_ # ops) = synced ops"

lemma synced_append: "synced (ops @ ops') = synced ops \<union> synced ops'"
  by (induction ops rule: synced.induct) auto

lemma sync_step_rows:
  assumes "documents_inv (c_documents c) (c_terms c)" "lexical_inv word sha256 T (c_documents c) (c_terms c)"
    and "\<forall>d\<in>set docs. document_ok sha256 d \<and> td_content d \<in> T"
    and "sync_text_documents word max_variables docs c = (Inr u, c')"
  shows "lexical_inv word sha256 T (c_documents c') (c_terms c')
    \<and> (distinct (map td_path docs) \<longrightarrow>
        (\<forall>p f. \<lparr> xr_path = p, xr_fingerprint = f \<rparr> \<in> set (c_documents c') \<longleftrightarrow>
          (\<exists>d\<in>set docs. td_path d = p \<and> td_fingerprint d = f)))"
proof -
  let ?P = "\<lambda>p. p \<in> td_path ` set docs"
  have loop: "for_each (sync_document word) docs (keep_documents ?P c) = Inr c'"
    using assms(4) by (auto simp: sync_text_documents_def transaction_Ok split: if_splits)
  have "\<lparr> xr_path = p, xr_fingerprint = f \<rparr> \<in> set (c_documents (keep_documents ?P c)) \<Longrightarrow> ?P p" for p f
    by (simp add: keep_documents_def)
  then show ?thesis
    using sync_documents_rows[OF documents_inv_keep[OF assms(1)] lexical_inv_keep[OF assms(2)] assms(3) loop]
    by auto
qed

lemma lexical_inv_step:
  assumes "catalog_inv (env_cache_key env) c" "lexical_inv (env_word env) sha256 T (c_documents c) (c_terms c)"
    and "\<forall>d\<in>synced [op]. document_ok sha256 d \<and> td_content d \<in> T"
  shows "lexical_inv (env_word env) sha256 T (c_documents (catalog_step env op c)) (c_terms (catalog_step env op c))"
proof (cases op)
  case (SyncTexts docs)
  show ?thesis
  proof (cases "sync_text_documents (env_word env) (env_max_variables env) docs c")
    case (Pair r c')
    have "documents_inv (c_documents c) (c_terms c)" using assms(1) by (simp add: catalog_inv_def)
    with Pair assms(2,3) SyncTexts sync_step_rows[of c "env_word env" sha256 T docs "env_max_variables env" _ c']
    show ?thesis by (cases r) (auto simp: sync_text_documents_def transaction_Err)
  qed
next
  case (PutDescriptor d)
  then show ?thesis using put_descriptor_frame[of d c] assms(2) by auto
next
  case (PutManifest m)
  then show ?thesis using assms(2) by (auto simp: put_manifest_def split: sum.splits)
next
  case (ReplaceDescriptors ds)
  show ?thesis
  proof (cases "replace_artifact_descriptors ds c")
    case (Pair r c')
    have "descriptors_inv (c_descriptors c) (c_locators c)" using assms(1) by (simp add: catalog_inv_def)
    with Pair assms(2) ReplaceDescriptors replace_descriptors_Ok[of c ds _ c'] replace_descriptors_Err[of ds c _ c']
    show ?thesis by (cases r) auto
  qed
next
  case (RecordBlob d n)
  then show ?thesis using assms(2)
    by (auto simp: record_artifact_blob_def Let_def split: sum.splits)
qed (use assms(2) in \<open>simp_all add: put_workspace_checkpoint_def replace_configuration_snd replace_metadata_snd
    reconcile_artifact_blob_refs_def Let_def\<close>)

lemma lexical_inv_run:
  assumes "\<forall>d\<in>synced ops. document_ok sha256 d \<and> td_content d \<in> T"
  shows "lexical_inv (env_word env) sha256 T (c_documents (run_catalog env ops)) (c_terms (run_catalog env ops))"
  using assms
proof (induction ops rule: rev_induct)
  case Nil
  then show ?case by (simp add: run_catalog_def empty_catalog_def lexical_inv_def)
next
  case (snoc op ops)
  have "run_catalog env (ops @ [op]) = catalog_step env op (run_catalog env ops)"
    by (simp add: run_catalog_def)
  moreover have "lexical_inv (env_word env) sha256 T (c_documents (catalog_step env op (run_catalog env ops)))
      (c_terms (catalog_step env op (run_catalog env ops)))"
  proof (rule lexical_inv_step[OF catalog_invariant_lemma])
    show "lexical_inv (env_word env) sha256 T (c_documents (run_catalog env ops)) (c_terms (run_catalog env ops))"
      using snoc by (simp add: synced_append)
    show "\<forall>d\<in>synced [op]. document_ok sha256 d \<and> td_content d \<in> T"
      using snoc(2) by (simp add: synced_append)
  qed
  ultimately show ?case by simp
qed

section \<open>What a search finds\<close>

definition match_at :: "workspace_path \<Rightarrow> string \<Rightarrow> usize \<Rightarrow> usize \<Rightarrow> lexical_match" where
  "match_at p s a b =
     \<lparr> lm_path = p, lm_range = \<lparr> br_start = of_nat a, br_end = of_nat b \<rparr>,
       lm_position = the (position_at s a), lm_snippet = the (snippet_at s a b) \<rparr>"

lemma match_of_row:
  assumes "(query, a, b) \<in> set (lexical_terms word content)" "xr_fingerprint d = content_fingerprint sha256 content"
    and "utf8_valid content" "length content \<le> MAX_TEXT_DOCUMENT_BYTES" "CHR 0x00 \<notin> set content"
    and "\<And>bytes. read p = Some bytes \<Longrightarrow> sha256 bytes = sha256 content \<Longrightarrow> bytes = content"
  shows "match_of_term sha256 read (row_of_term p (query, a, b), d) =
    Some (if read p = Some content then Some (match_at p content a b) else None)"
proof (cases "read p")
  case None
  then show ?thesis by (simp add: match_of_term_def row_of_term_def)
next
  case (Some bytes)
  show ?thesis
  proof (cases "bytes = content")
    case True
    have "document_from_bytes sha256 p content
        = Ok \<lparr> td_path = p, td_content = content, td_fingerprint = content_fingerprint sha256 content \<rparr>"
      using assms(3-5) by (simp add: document_from_bytes_Ok)
    then show ?thesis
      using Some True assms(2) term_boundaries(1,2)[OF assms(1,3)]
      by (auto simp: match_of_term_def row_of_term_def match_at_def)
  next
    case False
    with assms(6)[OF Some] have "content_fingerprint sha256 bytes \<noteq> content_fingerprint sha256 content"
      by (auto simp: content_fingerprint_def dest: hex_inj)
    then have other: "td_fingerprint doc \<noteq> xr_fingerprint d" if "document_from_bytes sha256 p bytes = Ok doc" for doc
      using that[unfolded document_from_bytes_Ok] assms(2) by simp
    then show ?thesis
    proof (cases "document_from_bytes sha256 p bytes")
      case (Inl e)
      then show ?thesis using Some False by (simp add: match_of_term_def row_of_term_def)
    next
      case (Inr doc)
      then show ?thesis using Some False other[of doc] by (simp add: match_of_term_def row_of_term_def)
    qed
  qed
qed

lemma document_ok_D:
  assumes "document_ok sha256 d"
  shows "utf8_valid (td_content d)" "length (td_content d) \<le> MAX_TEXT_DOCUMENT_BYTES"
    "CHR 0x00 \<notin> set (td_content d)" "td_fingerprint d = content_fingerprint sha256 (td_content d)"
  using assms unfolding document_ok_def document_from_bytes_Ok
  by (simp_all, metis text_document.select_convs(3))

lemma content_fingerprint_inj:
  "content_fingerprint sha256 x = content_fingerprint sha256 y \<Longrightarrow> sha256 x = sha256 y"
  by (auto simp: content_fingerprint_def dest: hex_inj)

text \<open>The rows a search joins once \<open>docs\<close> are synchronised.\<close>

lemma joined_rows:
  assumes "lexical_inv word sha256 T (c_documents c) (c_terms c)"
    and "\<And>p f. \<lparr> xr_path = p, xr_fingerprint = f \<rparr> \<in> set (c_documents c) \<longleftrightarrow>
          (\<exists>d\<in>set docs. td_path d = p \<and> td_fingerprint d = f)"
    and "\<forall>d\<in>set docs. document_ok sha256 d \<and> td_content d \<in> T" "inj_on sha256 T"
  shows "(t, r) \<in> set (joined_terms query c) \<longleftrightarrow>
    (\<exists>d\<in>set docs. \<exists>a b. (query, a, b) \<in> set (lexical_terms word (td_content d))
      \<and> t = row_of_term (td_path d) (query, a, b)
      \<and> r = \<lparr> xr_path = td_path d, xr_fingerprint = content_fingerprint sha256 (td_content d) \<rparr>)"
proof -
  have terms: "{t \<in> set (c_terms c). mt_path t = td_path d}
      = row_of_term (td_path d) ` set (lexical_terms word (td_content d))" if "d \<in> set docs" for d
  proof -
    have fp: "td_fingerprint d = content_fingerprint sha256 (td_content d)" and T: "td_content d \<in> T"
      using that assms(3) document_ok_D(4) by blast+
    have "\<lparr> xr_path = td_path d, xr_fingerprint = td_fingerprint d \<rparr> \<in> set (c_documents c)"
      using that assms(2)[of "td_path d" "td_fingerprint d"] by blast
    then obtain content where content: "content \<in> T" "td_fingerprint d = content_fingerprint sha256 content"
      "{t \<in> set (c_terms c). mt_path t = td_path d} = row_of_term (td_path d) ` set (lexical_terms word content)"
      using assms(1) unfolding lexical_inv_def by fastforce
    then have "content = td_content d"
      using fp T assms(4) content_fingerprint_inj[of sha256 content "td_content d"] by (simp add: inj_on_eq_iff)
    with content(3) show ?thesis by simp
  qed
  have join: "(t, r) \<in> set (joined_terms query c) \<longleftrightarrow>
      t \<in> set (c_terms c) \<and> mt_term t = query \<and> r \<in> set (c_documents c) \<and> xr_path r = mt_path t"
    by (auto simp: joined_terms_def)
  have row: "r \<in> set (c_documents c) \<longleftrightarrow> (\<exists>d\<in>set docs.
      r = \<lparr> xr_path = td_path d, xr_fingerprint = content_fingerprint sha256 (td_content d) \<rparr>)"
  proof -
    have split: "r = \<lparr> xr_path = p, xr_fingerprint = f \<rparr> \<longleftrightarrow> p = xr_path r \<and> f = xr_fingerprint r" for p f
      by (cases r) auto
    have "r \<in> set (c_documents c) \<longleftrightarrow> (\<exists>d\<in>set docs. td_path d = xr_path r \<and> td_fingerprint d = xr_fingerprint r)"
      using assms(2)[of "xr_path r" "xr_fingerprint r"] by (cases r) simp
    then show ?thesis unfolding split using assms(3) document_ok_D(4)[of sha256] by metis
  qed
  have trow: "t \<in> set (c_terms c) \<and> mt_term t = query \<and> mt_path t = td_path d \<longleftrightarrow>
      (\<exists>a b. (query, a, b) \<in> set (lexical_terms word (td_content d)) \<and> t = row_of_term (td_path d) (query, a, b))"
    if "d \<in> set docs" for d
  proof -
    have "t \<in> set (c_terms c) \<and> mt_path t = td_path d \<longleftrightarrow>
        t \<in> row_of_term (td_path d) ` set (lexical_terms word (td_content d))"
      using terms[OF that] by blast
    moreover have "t = row_of_term (td_path d) (w, a, b) \<Longrightarrow> mt_term t = w" for w a b
      by (simp add: row_of_term_def)
    moreover have "mt_term (row_of_term (td_path d) (w, a, b)) = w" for w a b
      by (simp add: row_of_term_def)
    ultimately show ?thesis by (auto simp: image_iff) (metis)+
  qed
  show ?thesis
  proof
    assume "(t, r) \<in> set (joined_terms query c)"
    then have j: "t \<in> set (c_terms c)" "mt_term t = query" "r \<in> set (c_documents c)" "xr_path r = mt_path t"
      unfolding join by simp_all
    then obtain d where d: "d \<in> set docs"
      "r = \<lparr> xr_path = td_path d, xr_fingerprint = content_fingerprint sha256 (td_content d) \<rparr>"
      unfolding row by blast
    with j(4) have "mt_path t = td_path d" by simp
    with j(1,2) trow[OF d(1)] d show "\<exists>d\<in>set docs. \<exists>a b. (query, a, b) \<in> set (lexical_terms word (td_content d))
      \<and> t = row_of_term (td_path d) (query, a, b)
      \<and> r = \<lparr> xr_path = td_path d, xr_fingerprint = content_fingerprint sha256 (td_content d) \<rparr>" by blast
  next
    assume "\<exists>d\<in>set docs. \<exists>a b. (query, a, b) \<in> set (lexical_terms word (td_content d))
      \<and> t = row_of_term (td_path d) (query, a, b)
      \<and> r = \<lparr> xr_path = td_path d, xr_fingerprint = content_fingerprint sha256 (td_content d) \<rparr>"
    then obtain d a b where d: "d \<in> set docs" "(query, a, b) \<in> set (lexical_terms word (td_content d))"
      "t = row_of_term (td_path d) (query, a, b)"
      "r = \<lparr> xr_path = td_path d, xr_fingerprint = content_fingerprint sha256 (td_content d) \<rparr>" by blast
    then have "t \<in> set (c_terms c)" "mt_term t = query" "mt_path t = td_path d" using trow[OF d(1)] by blast+
    moreover have "r \<in> set (c_documents c)" unfolding row using d(1,4) by blast
    ultimately show "(t, r) \<in> set (joined_terms query c)" unfolding join using d(4) by simp
  qed
qed

section \<open>Search after synchronisation\<close>

lemma those_total:
  assumes "\<And>x. x \<in> set xs \<Longrightarrow> \<exists>y. f x = Some y"
  shows "\<exists>ys. those (map f xs) = Some ys \<and> map f xs = map Some ys"
  using assms
proof (induction xs)
  case (Cons x xs)
  then obtain y ys where "f x = Some y" "those (map f xs) = Some ys" "map f xs = map Some ys"
    by (metis list.set_intros)
  then show ?case by (intro exI[of _ "y # ys"]) simp
qed simp

lemma lexical_matches_of_rows:
  assumes "query \<noteq> []"
    and "\<And>x. x \<in> set (joined_terms query c) \<Longrightarrow> \<exists>m. match_of_term sha256 read x = Some m"
  shows "\<exists>ms. lexical_matches sha256 read query c = Some ms \<and>
    (\<forall>m. m \<in> set ms \<longleftrightarrow> (\<exists>x\<in>set (joined_terms query c). match_of_term sha256 read x = Some (Some m)))"
proof -
  obtain ms where ms: "those (map (match_of_term sha256 read) (joined_terms query c)) = Some ms"
    "map (match_of_term sha256 read) (joined_terms query c) = map Some ms"
    using those_total[of "joined_terms query c" "match_of_term sha256 read"] assms(2) by blast
  have "m \<in> set (List.map_filter (\<lambda>m. m) ms) \<longleftrightarrow> Some (Some m) \<in> set (map Some ms)" for m
    by (auto simp: map_filter_def image_iff)
  moreover have "Some (Some m) \<in> set (map Some ms) \<longleftrightarrow>
      (\<exists>x\<in>set (joined_terms query c). match_of_term sha256 read x = Some (Some m))" for m
    unfolding ms(2)[symmetric] by (auto simp: image_iff eq_commute)
  ultimately show ?thesis using ms(1) assms(1) by (simp add: lexical_matches_def)
qed

text \<open>The documents after a synchronisation that fits SQLite's limit of variables.\<close>

lemma documents_after_sync:
  assumes c: "c = run_catalog env (ops @ [SyncTexts docs])"
    and docs: "\<forall>d\<in>synced ops \<union> set docs. document_ok sha256 d"
    and "distinct (map td_path docs)" "length docs \<le> env_max_variables env"
    and "T = td_content ` (synced ops \<union> set docs)"
  shows "lexical_inv (env_word env) sha256 T (c_documents c) (c_terms c)"
    and "\<lparr> xr_path = p, xr_fingerprint = f \<rparr> \<in> set (c_documents c) \<longleftrightarrow>
      (\<exists>d\<in>set docs. td_path d = p \<and> td_fingerprint d = f)"
proof -
  let ?word = "env_word env"
  define b where "b = run_catalog env ops"
  have inv: "lexical_inv ?word sha256 T (c_documents b) (c_terms b)" "documents_inv (c_documents b) (c_terms b)"
    using lexical_inv_run[of ops sha256 T env] docs assms(5) catalog_invariant_lemma[of env ops]
    by (auto simp: b_def catalog_inv_def)
  define r where "r = fst (sync_text_documents ?word (env_max_variables env) docs b)"
  have "c = snd (sync_text_documents ?word (env_max_variables env) docs b)"
    using c by (simp add: b_def run_catalog_def)
  then have sync: "sync_text_documents ?word (env_max_variables env) docs b = (r, c)" by (simp add: r_def)
  have "\<exists>c'. for_each (sync_document ?word) docs (keep_documents P b) = Inr c'" for P
    using sync_documents_inv[OF documents_inv_keep[OF inv(2)]] by blast
  from this[of "\<lambda>_. False"] this[of "\<lambda>p. p \<in> td_path ` set docs"] have "r = Ok ()"
    using sync assms(4) by (auto simp: sync_text_documents_def transaction_def split: if_splits sum.splits)
  with sync sync_step_rows[OF inv(2,1), of docs "env_max_variables env" "()" c] docs assms(3,5)
  show "lexical_inv ?word sha256 T (c_documents c) (c_terms c)"
    and "\<lparr> xr_path = p, xr_fingerprint = f \<rparr> \<in> set (c_documents c) \<longleftrightarrow>
      (\<exists>d\<in>set docs. td_path d = p \<and> td_fingerprint d = f)" by simp_all
qed

lemma lexical_search_lemma:
  assumes c: "c = run_catalog env (ops @ [SyncTexts docs])"
    and docs: "\<forall>d\<in>synced ops \<union> set docs. document_ok sha256 d"
    and "distinct (map td_path docs)" "length docs \<le> env_max_variables env"
    and inj: "inj_on sha256 (td_content ` (synced ops \<union> set docs) \<union> ran read)"
    and "query \<noteq> []"
  shows "\<exists>ms. lexical_matches sha256 read query c = Some ms \<and>
    (\<forall>m. m \<in> set ms \<longleftrightarrow> (\<exists>d\<in>set docs. \<exists>a b. read (td_path d) = Some (td_content d)
      \<and> (query, a, b) \<in> set (lexical_terms (env_word env) (td_content d)) \<and> m = match_at (td_path d) (td_content d) a b))"
proof -
  let ?word = "env_word env"
  let ?row = "\<lambda>d a b. (row_of_term (td_path d) (query, a, b),
      \<lparr> xr_path = td_path d, xr_fingerprint = content_fingerprint sha256 (td_content d) \<rparr>)"
  note after = documents_after_sync[OF c docs assms(3,4) refl]
  have joined: "x \<in> set (joined_terms query c) \<longleftrightarrow>
    (\<exists>d\<in>set docs. \<exists>a b. (query, a, b) \<in> set (lexical_terms ?word (td_content d)) \<and> x = ?row d a b)" for x
    using joined_rows[OF after, of "fst x" "snd x" query] docs inj
    by (cases x) (auto intro: inj_on_subset)
  have row: "match_of_term sha256 read (?row d a b)
      = Some (if read (td_path d) = Some (td_content d) then Some (match_at (td_path d) (td_content d) a b) else None)"
    if "d \<in> set docs" "(query, a, b) \<in> set (lexical_terms ?word (td_content d))" for d a b
  proof (rule match_of_row[OF that(2)])
    have ok: "document_ok sha256 d" using docs that(1) by simp
    show "utf8_valid (td_content d)" "length (td_content d) \<le> MAX_TEXT_DOCUMENT_BYTES" "CHR 0x00 \<notin> set (td_content d)"
      using document_ok_D[OF ok] by simp_all
    show "bytes = td_content d" if "read (td_path d) = Some bytes" "sha256 bytes = sha256 (td_content d)" for bytes
      using inj that \<open>d \<in> set docs\<close> by (auto simp: inj_on_def ran_def)
  qed simp
  have found: "(\<exists>x\<in>set (joined_terms query c). match_of_term sha256 read x = Some (Some m)) \<longleftrightarrow>
      (\<exists>d\<in>set docs. \<exists>a b. (query, a, b) \<in> set (lexical_terms ?word (td_content d))
        \<and> match_of_term sha256 read (?row d a b) = Some (Some m))" for m
    unfolding Bex_def joined by blast
  have "\<exists>m. match_of_term sha256 read x = Some m" if "x \<in> set (joined_terms query c)" for x
    using that row unfolding joined by blast
  from lexical_matches_of_rows[of query c sha256 read, OF assms(6) this] obtain ms where
    ms: "lexical_matches sha256 read query c = Some ms"
    "\<And>m. m \<in> set ms \<longleftrightarrow> (\<exists>x\<in>set (joined_terms query c). match_of_term sha256 read x = Some (Some m))" by blast
  have "m \<in> set ms \<longleftrightarrow> (\<exists>d\<in>set docs. \<exists>a b. read (td_path d) = Some (td_content d)
      \<and> (query, a, b) \<in> set (lexical_terms ?word (td_content d)) \<and> m = match_at (td_path d) (td_content d) a b)" for m
    unfolding ms(2) found by (intro bex_cong ex_cong1 refl) (use row in \<open>auto split: if_splits\<close>)
  with ms(1) show ?thesis by blast
qed

text \<open>
  C34. After the text inventory \<open>docs\<close> is synchronised, whatever the catalog held before, a search
  never panics, and finds exactly the words of the query in those documents whose file still has
  the synchronised content, each with the right range, position and snippet.
\<close>

theorem lexical_search_exact:
  assumes "c = run_catalog env (ops @ [SyncTexts docs])"
    and "\<forall>d\<in>synced ops \<union> set docs. document_ok sha256 d"
    and "distinct (map td_path docs)" "length docs \<le> env_max_variables env"
    and "inj_on sha256 (td_content ` (synced ops \<union> set docs) \<union> ran read)"
    and "query \<noteq> []"
  shows "\<exists>ms. lexical_matches sha256 read query c = Some ms \<and>
    (\<forall>m. m \<in> set ms \<longleftrightarrow> (\<exists>d\<in>set docs. \<exists>a b. read (td_path d) = Some (td_content d)
      \<and> (query, a, b) \<in> set (lexical_terms (env_word env) (td_content d)) \<and> m = match_at (td_path d) (td_content d) a b))"
  by (rule lexical_search_lemma[OF assms])

definition sample_document :: text_document where
  "sample_document = \<lparr> td_path = WorkspacePath ''a'', td_content = ''ab'',
     td_fingerprint = Fingerprint (''sha256:'' @ hex ''ab'') \<rparr>"

definition sample_files :: "workspace_path \<Rightarrow> string option" where
  "sample_files p = (if p = WorkspacePath ''a'' then Some ''ab'' else None)"

theorem lexical_search_exact_witness:
  "\<exists>ms. lexical_matches (\<lambda>s. s) sample_files ''ab'' (run_catalog sample_env ([] @ [SyncTexts [sample_document]])) = Some ms
     \<and> match_at (WorkspacePath ''a'') ''ab'' 0 2 \<in> set ms"
proof -
  have "document_ok (\<lambda>s. s) sample_document"
    by (simp add: document_ok_def sample_document_def document_from_bytes_def MAX_TEXT_DOCUMENT_BYTES_def)
  moreover have "(''ab'', 0, 2) \<in> set (lexical_terms (env_word sample_env) ''ab'')" by code_simp
  moreover have "distinct (map td_path [sample_document])" "length [sample_document] \<le> env_max_variables sample_env"
    by (simp_all add: sample_env_def)
  ultimately obtain ms where "lexical_matches (\<lambda>s. s) sample_files ''ab''
      (run_catalog sample_env ([] @ [SyncTexts [sample_document]])) = Some ms"
    and "\<forall>m. m \<in> set ms \<longleftrightarrow> (\<exists>d\<in>set [sample_document]. \<exists>a b. sample_files (td_path d) = Some (td_content d)
      \<and> (''ab'', a, b) \<in> set (lexical_terms (env_word sample_env) (td_content d)) \<and> m = match_at (td_path d) (td_content d) a b)"
    using lexical_search_exact[OF refl, of "[]" "[sample_document]" "\<lambda>s. s" sample_env sample_files "''ab''"]
    by auto
  moreover have "sample_files (td_path sample_document) = Some (td_content sample_document)"
    "td_path sample_document = WorkspacePath ''a''" "td_content sample_document = ''ab''"
    by (simp_all add: sample_document_def sample_files_def)
  ultimately show ?thesis using \<open>(''ab'', 0, 2) \<in> set (lexical_terms (env_word sample_env) ''ab'')\<close>
    by (intro exI[of _ ms] conjI) auto
qed

end
