(* ===== verification/Store_Schema.thy ===== *)
theory Store_Schema
  imports Store_Tables
begin

text \<open>
  The schema of the index (\<open>crates/kide-core/src/store.rs\<close>, \<open>MIGRATION_1\<close> to \<open>MIGRATION_15\<close>): the
  SQL statements the migrations use, over a small model of a database, and the migrations
  themselves, statement by statement.
\<close>

section \<open>The database\<close>

text \<open>The identifiers of the schema.\<close>

datatype (plugins only: code) table_name =
  T_kide_metadata | T_schema_migrations | T_project_manifests | T_source_snapshots
| T_symbols | T_occurrences | T_reference_edges | T_call_edges
| T_hierarchy_edges | T_type_records | T_diagnostics | T_annotation_edges
| T_artifact_catalog | T_symbol_locators | T_applications | T_application_arguments
| T_workspace_text_documents | T_workspace_text_terms | T_configuration_inputs | T_artifact_blob_catalog
| T_project_artifact_blob_refs | T_source_file_metadata | T_workspace_checkpoints | T_source_provenance

datatype (plugins only: code) index_name =
  I_source_snapshots_by_path | I_symbols_by_name | I_occurrences_by_source_interval | I_references_by_target
| I_calls_by_target | I_hierarchy_by_supertype | I_annotations_by_target | I_symbol_locators_by_name
| I_applications_by_target | I_applications_by_subject | I_application_arguments_by_name_value | I_workspace_text_documents_by_fingerprint
| I_workspace_text_terms_by_term | I_project_artifact_blob_refs_by_blob

datatype (plugins only: code) column_name =
  C_key | C_value | C_version | C_applied_at
| C_workspace_id | C_fingerprint | C_protocol_version | C_record_json
| C_source_unit_id | C_component_id | C_workspace_path | C_content_fingerprint
| C_context_fingerprint | C_source_unit_json | C_snapshot_json | C_symbol_id
| C_name | C_name_start_byte | C_record_blob | C_start_byte
| C_end_byte | C_occurrence_kind | C_target_symbol_id | C_subtype_symbol_id
| C_supertype_symbol_id | C_type_id | C_severity | C_provenance_blob
| C_annotation_symbol_id | C_descriptor_json | C_qualified_name | C_application_id
| C_subject_symbol_id | C_position | C_value_kind | C_value_text
| C_term | C_public_api_fingerprint | C_component_ids_json | C_blob_key
| C_identity_json | C_byte_length | C_created_at | C_accessed_at
| C_byte_size | C_modified_nanos | C_manifest_fingerprint | C_configuration_inputs_fingerprint
| C_source_inputs_fingerprint | C_artifact_catalog_fingerprint | C_publication_state

datatype sql_value = SqlNull | SqlText string | SqlInteger int | SqlBlob string

datatype sql_type = TEXT | INTEGER | BLOB

datatype sql_default = NoDefault | DefaultValue sql_value | CurrentTimestamp

text \<open>A column may reference a table; the flag is \<open>ON DELETE CASCADE\<close>.\<close>

record sql_column =
  cl_name :: column_name
  cl_type :: sql_type
  cl_not_null :: bool
  cl_default :: sql_default
  cl_references :: "(table_name \<times> bool) option"

type_synonym sql_row = "(column_name \<times> sql_value) list"

record sql_table =
  tb_columns :: "sql_column list"
  tb_key :: "column_name list"
  tb_rows :: "sql_row list"

text \<open>An index has a name, a table and columns.\<close>

record database =
  db_tables :: "(table_name \<times> sql_table) list"
  db_indexes :: "(index_name \<times> table_name \<times> column_name list) list"

definition empty_database :: database where
  "empty_database = \<lparr> db_tables = [], db_indexes = [] \<rparr>"

text \<open>
  \<open>CREATE TABLE IF NOT EXISTS\<close>, \<open>CREATE INDEX IF NOT EXISTS\<close>, \<open>ALTER TABLE\<close> with one column,
  \<open>INSERT\<close> (the flag is \<open>OR IGNORE\<close>) and \<open>INSERT OR REPLACE ... SELECT\<close> the same columns of another
  table \<open>WHERE\<close> one of them \<open>IS NOT NULL\<close>.
\<close>

datatype sql_statement =
  CreateTable table_name "sql_column list" "column_name list"
| CreateIndex index_name table_name "column_name list"
| AddColumn table_name sql_column
| DropColumn table_name column_name
| InsertRow table_name sql_row bool
| InsertOrReplaceSelect table_name table_name "column_name list" column_name

definition column :: "column_name \<Rightarrow> sql_type \<Rightarrow> sql_column" where
  "column n ty = \<lparr> cl_name = n, cl_type = ty, cl_not_null = False, cl_default = NoDefault, cl_references = None \<rparr>"

definition required :: "column_name \<Rightarrow> sql_type \<Rightarrow> sql_column" where
  "required n ty = (column n ty)\<lparr>cl_not_null := True\<rparr>"

definition defaulted :: "column_name \<Rightarrow> sql_type \<Rightarrow> string \<Rightarrow> sql_column" where
  "defaulted n ty v = (required n ty)\<lparr>cl_default := DefaultValue (SqlText v)\<rparr>"

definition timestamp :: "column_name \<Rightarrow> sql_column" where
  "timestamp n = (required n TEXT)\<lparr>cl_default := CurrentTimestamp\<rparr>"

definition referencing :: "column_name \<Rightarrow> sql_type \<Rightarrow> table_name \<Rightarrow> bool \<Rightarrow> sql_column" where
  "referencing n ty t cascade = (required n ty)\<lparr>cl_references := Some (t, cascade)\<rparr>"

section \<open>Statements\<close>

definition column_names :: "sql_table \<Rightarrow> column_name list" where
  "column_names t = map cl_name (tb_columns t)"

text \<open>The value of a column a row does not mention; \<open>now\<close> stands for \<open>CURRENT_TIMESTAMP\<close>.\<close>

fun default_value :: "string \<Rightarrow> sql_default \<Rightarrow> sql_value" where
  "default_value now NoDefault = SqlNull"
| "default_value now (DefaultValue v) = v"
| "default_value now CurrentTimestamp = SqlText now"

definition cell :: "sql_row \<Rightarrow> column_name \<Rightarrow> sql_value" where
  "cell r c = (case map_of r c of None \<Rightarrow> SqlNull | Some v \<Rightarrow> v)"

definition full_row :: "string \<Rightarrow> sql_table \<Rightarrow> sql_row \<Rightarrow> sql_row" where
  "full_row now t r = map (\<lambda>c. (cl_name c,
     case map_of r (cl_name c) of None \<Rightarrow> default_value now (cl_default c) | Some v \<Rightarrow> v)) (tb_columns t)"

text \<open>The primary key of a row; a NULL in it makes the row distinct from every other.\<close>

definition row_key :: "sql_table \<Rightarrow> sql_row \<Rightarrow> sql_value list option" where
  "row_key t r = (let k = map (cell r) (tb_key t) in if SqlNull \<in> set k then None else Some k)"

definition same_key :: "sql_table \<Rightarrow> sql_row \<Rightarrow> sql_row \<Rightarrow> bool" where
  "same_key t r r' = (row_key t r \<noteq> None \<and> row_key t r = row_key t r')"

definition not_null_ok :: "sql_table \<Rightarrow> sql_row \<Rightarrow> bool" where
  "not_null_ok t r = (\<forall>c\<in>set (tb_columns t). cl_not_null c \<longrightarrow> cell r (cl_name c) \<noteq> SqlNull)"

definition table_of :: "table_name \<Rightarrow> database \<Rightarrow> sql_table stored" where
  "table_of n db = (case map_of (db_tables db) n of None \<Rightarrow> Err SqliteSchema | Some t \<Rightarrow> Ok t)"

definition with_table :: "table_name \<Rightarrow> (sql_table \<Rightarrow> sql_table stored) \<Rightarrow> database \<Rightarrow> database stored" where
  "with_table n f db = and_then (table_of n db) (\<lambda>t. and_then (f t) (\<lambda>t'.
     Ok (db\<lparr>db_tables := map (\<lambda>(m, u). (m, if m = n then t' else u)) (db_tables db)\<rparr>)))"

definition create_index :: "index_name \<Rightarrow> table_name \<Rightarrow> column_name list \<Rightarrow> database \<Rightarrow> database stored" where
  "create_index i n cs db =
     (if i \<in> set (map fst (db_indexes db)) then Ok db
      else and_then (table_of n db) (\<lambda>t.
        if set cs \<subseteq> set (column_names t) then Ok (db\<lparr>db_indexes := db_indexes db @ [(i, n, cs)]\<rparr>)
        else Err SqliteSchema))"

text \<open>A new column that is \<open>NOT NULL\<close> needs a constant default.\<close>

definition add_column :: "sql_column \<Rightarrow> sql_table \<Rightarrow> sql_table stored" where
  "add_column c t =
     (if cl_name c \<in> set (column_names t) \<or> cl_default c = CurrentTimestamp
         \<or> cl_not_null c \<and> default_value [] (cl_default c) = SqlNull then Err SqliteSchema
      else Ok (t\<lparr>tb_columns := tb_columns t @ [c],
        tb_rows := map (\<lambda>r. r @ [(cl_name c, default_value [] (cl_default c))]) (tb_rows t)\<rparr>))"

text \<open>A column of the primary key, or the only one, cannot be dropped.\<close>

definition drop_column :: "column_name \<Rightarrow> sql_table \<Rightarrow> sql_table stored" where
  "drop_column c t =
     (if c \<notin> set (column_names t) \<or> c \<in> set (tb_key t) \<or> length (tb_columns t) = 1 then Err SqliteSchema
      else Ok (t\<lparr>tb_columns := filter (\<lambda>x. cl_name x \<noteq> c) (tb_columns t),
        tb_rows := map (filter (\<lambda>x. fst x \<noteq> c)) (tb_rows t)\<rparr>))"

definition insert_sql :: "string \<Rightarrow> sql_row \<Rightarrow> bool \<Rightarrow> sql_table \<Rightarrow> sql_table stored" where
  "insert_sql now r or_ignore t =
     (let r' = full_row now t r
      in if \<not> set (map fst r) \<subseteq> set (column_names t) then Err SqliteSchema
         else if \<not> not_null_ok t r' \<or> (\<exists>x\<in>set (tb_rows t). same_key t x r')
           then if or_ignore then Ok t else Err SqliteConstraint
         else Ok (t\<lparr>tb_rows := tb_rows t @ [r']\<rparr>))"

definition replace_sql :: "string \<Rightarrow> sql_row \<Rightarrow> sql_table \<Rightarrow> sql_table stored" where
  "replace_sql now r t =
     (let r' = full_row now t r
      in if \<not> set (map fst r) \<subseteq> set (column_names t) then Err SqliteSchema
         else if \<not> not_null_ok t r' then Err SqliteConstraint
         else Ok (t\<lparr>tb_rows := filter (\<lambda>x. \<not> same_key t x r') (tb_rows t) @ [r']\<rparr>))"

definition selected_rows :: "column_name list \<Rightarrow> column_name \<Rightarrow> sql_table \<Rightarrow> sql_row list" where
  "selected_rows cs guard t =
     map (\<lambda>r. map (\<lambda>c. (c, cell r c)) cs) (filter (\<lambda>r. cell r guard \<noteq> SqlNull) (tb_rows t))"

fun exec :: "string \<Rightarrow> sql_statement \<Rightarrow> database \<Rightarrow> database stored" where
  "exec now (CreateTable n cs k) db =
     (if map_of (db_tables db) n \<noteq> None then Ok db
      else Ok (db\<lparr>db_tables := db_tables db @ [(n, \<lparr> tb_columns = cs, tb_key = k, tb_rows = [] \<rparr>)]\<rparr>))"
| "exec now (CreateIndex i n cs) db = create_index i n cs db"
| "exec now (AddColumn n c) db = with_table n (add_column c) db"
| "exec now (DropColumn n c) db =
     (if \<exists>(i, m, cs)\<in>set (db_indexes db). m = n \<and> c \<in> set cs then Err SqliteSchema
      else with_table n (drop_column c) db)"
| "exec now (InsertRow n r or_ignore) db = with_table n (insert_sql now r or_ignore) db"
| "exec now (InsertOrReplaceSelect n m cs guard) db =
     and_then (table_of m db) (\<lambda>t.
       if set (guard # cs) \<subseteq> set (column_names t)
       then with_table n (for_each (replace_sql now) (selected_rows cs guard t)) db
       else Err SqliteSchema)"

text \<open>\<open>execute_batch\<close>: every statement commits by itself, the first failing one ends the batch.\<close>

definition execute_batch :: "string \<Rightarrow> sql_statement list \<Rightarrow> database \<Rightarrow> unit stored \<times> database" where
  "execute_batch now ss = autocommit (map (exec now) ss)"

section \<open>The migrations\<close>

definition MIGRATION_1 :: "sql_statement list" where
  "MIGRATION_1 =
    [CreateTable T_kide_metadata
       [column C_key TEXT,
        required C_value TEXT]
       [C_key],
     CreateTable T_schema_migrations
       [column C_version INTEGER,
        timestamp C_applied_at]
       [C_version],
     CreateTable T_project_manifests
       [column C_workspace_id TEXT,
        required C_fingerprint TEXT,
        required C_protocol_version INTEGER,
        required C_record_json TEXT]
       [C_workspace_id],
     CreateTable T_source_snapshots
       [column C_source_unit_id TEXT,
        required C_component_id TEXT,
        required C_workspace_path TEXT,
        required C_content_fingerprint TEXT,
        required C_context_fingerprint TEXT,
        required C_protocol_version INTEGER,
        required C_source_unit_json TEXT,
        required C_snapshot_json TEXT]
       [C_source_unit_id],
     CreateIndex I_source_snapshots_by_path T_source_snapshots [C_workspace_path, C_source_unit_id],
     CreateTable T_symbols
       [column C_symbol_id TEXT,
        required C_source_unit_id TEXT,
        required C_name TEXT,
        required C_name_start_byte INTEGER,
        required C_record_blob BLOB]
       [C_symbol_id],
     CreateIndex I_symbols_by_name T_symbols [C_name, C_source_unit_id, C_name_start_byte, C_symbol_id],
     CreateTable T_occurrences
       [required C_source_unit_id TEXT,
        required C_start_byte INTEGER,
        required C_end_byte INTEGER,
        required C_occurrence_kind TEXT,
        column C_target_symbol_id TEXT,
        required C_record_json TEXT]
       [C_source_unit_id, C_start_byte, C_end_byte, C_occurrence_kind],
     CreateIndex I_occurrences_by_source_interval T_occurrences [C_source_unit_id, C_start_byte, C_end_byte],
     CreateTable T_reference_edges
       [required C_source_unit_id TEXT,
        required C_start_byte INTEGER,
        required C_end_byte INTEGER,
        required C_target_symbol_id TEXT,
        required C_record_json TEXT]
       [C_source_unit_id, C_start_byte, C_end_byte, C_target_symbol_id],
     CreateIndex I_references_by_target T_reference_edges [C_target_symbol_id, C_source_unit_id, C_start_byte],
     CreateTable T_call_edges
       [required C_source_unit_id TEXT,
        required C_start_byte INTEGER,
        required C_end_byte INTEGER,
        required C_target_symbol_id TEXT,
        required C_record_json TEXT]
       [C_source_unit_id, C_start_byte, C_end_byte, C_target_symbol_id],
     CreateIndex I_calls_by_target T_call_edges [C_target_symbol_id, C_source_unit_id, C_start_byte],
     CreateTable T_hierarchy_edges
       [required C_source_unit_id TEXT,
        required C_subtype_symbol_id TEXT,
        required C_supertype_symbol_id TEXT,
        required C_record_json TEXT]
       [C_source_unit_id, C_subtype_symbol_id, C_supertype_symbol_id],
     CreateIndex I_hierarchy_by_supertype T_hierarchy_edges [C_supertype_symbol_id, C_source_unit_id, C_subtype_symbol_id],
     CreateTable T_type_records
       [required C_source_unit_id TEXT,
        required C_type_id TEXT,
        required C_record_json TEXT]
       [C_source_unit_id, C_type_id],
     CreateTable T_diagnostics
       [required C_source_unit_id TEXT,
        column C_start_byte INTEGER,
        column C_end_byte INTEGER,
        required C_severity TEXT,
        required C_record_json TEXT]
       [C_source_unit_id, C_start_byte, C_end_byte, C_severity, C_record_json]]"

definition MIGRATION_2 :: "sql_statement list" where
  "MIGRATION_2 =
    [AddColumn T_source_snapshots (column C_provenance_blob BLOB),
     DropColumn T_source_snapshots C_snapshot_json]"

definition MIGRATION_3 :: "sql_statement list" where
  "MIGRATION_3 =
    [CreateTable T_annotation_edges
       [required C_source_unit_id TEXT,
        required C_symbol_id TEXT,
        required C_annotation_symbol_id TEXT]
       [C_source_unit_id, C_symbol_id, C_annotation_symbol_id],
     CreateIndex I_annotations_by_target T_annotation_edges [C_annotation_symbol_id, C_source_unit_id, C_symbol_id]]"

definition MIGRATION_4 :: "sql_statement list" where
  "MIGRATION_4 =
    [CreateTable T_artifact_catalog
       [column C_source_unit_id TEXT,
        required C_descriptor_json TEXT]
       [C_source_unit_id]]"

definition MIGRATION_5 :: "sql_statement list" where
  "MIGRATION_5 =
    [CreateTable T_symbol_locators
       [required C_source_unit_id TEXT,
        required C_qualified_name TEXT,
        required C_symbol_id TEXT]
       [C_source_unit_id, C_qualified_name, C_symbol_id],
     CreateIndex I_symbol_locators_by_name T_symbol_locators [C_qualified_name, C_symbol_id]]"

definition MIGRATION_6 :: "sql_statement list" where
  "MIGRATION_6 =
    [CreateTable T_applications
       [column C_application_id TEXT,
        required C_source_unit_id TEXT,
        required C_subject_symbol_id TEXT,
        required C_target_symbol_id TEXT,
        required C_start_byte INTEGER,
        required C_end_byte INTEGER,
        required C_record_json TEXT]
       [C_application_id],
     CreateIndex I_applications_by_target T_applications [C_target_symbol_id, C_subject_symbol_id, C_source_unit_id],
     CreateIndex I_applications_by_subject T_applications [C_subject_symbol_id, C_target_symbol_id, C_source_unit_id],
     CreateTable T_application_arguments
       [required C_application_id TEXT,
        column C_name TEXT,
        required C_position INTEGER,
        required C_value_kind TEXT,
        required C_value_text TEXT]
       [C_application_id, C_position],
     CreateIndex I_application_arguments_by_name_value T_application_arguments [C_name, C_value_kind, C_value_text, C_application_id]]"

definition MIGRATION_7 :: "sql_statement list" where
  "MIGRATION_7 =
    [CreateTable T_workspace_text_documents
       [column C_workspace_path TEXT,
        required C_content_fingerprint TEXT]
       [C_workspace_path],
     CreateIndex I_workspace_text_documents_by_fingerprint T_workspace_text_documents [C_content_fingerprint],
     CreateTable T_workspace_text_terms
       [referencing C_workspace_path TEXT T_workspace_text_documents True,
        required C_term TEXT,
        required C_start_byte INTEGER,
        required C_end_byte INTEGER]
       [C_workspace_path, C_term, C_start_byte],
     CreateIndex I_workspace_text_terms_by_term T_workspace_text_terms [C_term, C_workspace_path, C_start_byte]]"

definition MIGRATION_8 :: "sql_statement list" where
  "MIGRATION_8 =
    [AddColumn T_source_snapshots (column C_public_api_fingerprint TEXT)]"

definition MIGRATION_9 :: "sql_statement list" where
  "MIGRATION_9 =
    [CreateTable T_configuration_inputs
       [column C_workspace_path TEXT,
        required C_content_fingerprint TEXT,
        required C_component_ids_json TEXT]
       [C_workspace_path]]"

definition MIGRATION_10 :: "sql_statement list" where
  "MIGRATION_10 =
    [CreateTable T_artifact_blob_catalog
       [column C_blob_key TEXT,
        required C_identity_json TEXT,
        column C_byte_length INTEGER,
        timestamp C_created_at,
        timestamp C_accessed_at]
       [C_blob_key],
     CreateTable T_project_artifact_blob_refs
       [column C_source_unit_id TEXT,
        referencing C_blob_key TEXT T_artifact_blob_catalog False]
       [C_source_unit_id],
     CreateIndex I_project_artifact_blob_refs_by_blob T_project_artifact_blob_refs [C_blob_key, C_source_unit_id]]"

definition MIGRATION_11 :: "sql_statement list" where
  "MIGRATION_11 =
    [CreateTable T_source_file_metadata
       [column C_workspace_path TEXT,
        required C_byte_size INTEGER,
        required C_modified_nanos TEXT,
        required C_content_fingerprint TEXT]
       [C_workspace_path]]"

definition MIGRATION_12 :: "sql_statement list" where
  "MIGRATION_12 =
    [CreateTable T_workspace_checkpoints
       [column C_workspace_id TEXT,
        required C_manifest_fingerprint TEXT,
        required C_configuration_inputs_fingerprint TEXT,
        required C_source_inputs_fingerprint TEXT]
       [C_workspace_id]]"

definition MIGRATION_13 :: "sql_statement list" where
  "MIGRATION_13 =
    [AddColumn T_workspace_checkpoints (defaulted C_artifact_catalog_fingerprint TEXT '''')]"

definition MIGRATION_14 :: "sql_statement list" where
  "MIGRATION_14 =
    [AddColumn T_workspace_checkpoints (defaulted C_publication_state TEXT ''committed'')]"

definition MIGRATION_15 :: "sql_statement list" where
  "MIGRATION_15 =
    [CreateTable T_source_provenance
       [column C_source_unit_id TEXT,
        required C_provenance_blob BLOB]
       [C_source_unit_id],
     InsertOrReplaceSelect T_source_provenance T_source_snapshots [C_source_unit_id, C_provenance_blob] C_provenance_blob]"

end
