(* ===== verification/Store_Migrations.thy ===== *)
theory Store_Migrations
  imports Store_Schema
begin

text \<open>
  Opening the index (\<open>crates/kide-core/src/store.rs\<close>, \<open>migrate\<close>): which statements run on which
  database, with the commits the code has. Every statement outside a transaction commits by
  itself, so an error or a crash leaves what ran before it.
\<close>

section \<open>Opening\<close>

text \<open>Two operations in a row, each with its commits: the second runs when the first succeeded.\<close>

definition and_also :: "('s \<Rightarrow> unit stored \<times> 's) \<Rightarrow> ('s \<Rightarrow> unit stored \<times> 's) \<Rightarrow> 's \<Rightarrow> unit stored \<times> 's" where
  "and_also f g s = (case f s of (Inl e, s') \<Rightarrow> (Err e, s') | (Inr _, s') \<Rightarrow> g s')"

definition rows_of :: "table_name \<Rightarrow> database \<Rightarrow> sql_row list" where
  "rows_of n db = (case map_of (db_tables db) n of None \<Rightarrow> [] | Some t \<Rightarrow> tb_rows t)"

text \<open>\<open>SELECT value FROM kide_metadata WHERE key = 'index_format_version'\<close>\<close>

definition stored_version :: "database \<Rightarrow> sql_value option" where
  "stored_version db = map_option (\<lambda>r. cell r C_value)
     (find (\<lambda>r. cell r C_key = SqlText ''index_format_version'') (rows_of T_kide_metadata db))"

definition format_row :: sql_row where
  "format_row = [(C_key, SqlText ''index_format_version''),
     (C_value, SqlText (decimal (unat INDEX_FORMAT_VERSION)))]"

definition check_format :: "string \<Rightarrow> database \<Rightarrow> unit stored \<times> database" where
  "check_format now db =
     (case stored_version db of
        Some (SqlText value) \<Rightarrow>
          (let found = (case parse_unsigned 32 value of Some n \<Rightarrow> of_nat n | None \<Rightarrow> - 1)
           in if found \<noteq> INDEX_FORMAT_VERSION then (Err (IncompatibleIndexFormat found INDEX_FORMAT_VERSION), db)
              else (Ok (), db))
      | Some _ \<Rightarrow> (Err SqliteSchema, db)
      | None \<Rightarrow> execute_batch now [InsertRow T_kide_metadata format_row False] db)"

definition applied :: "nat \<Rightarrow> database \<Rightarrow> bool" where
  "applied v db = (\<exists>r\<in>set (rows_of T_schema_migrations db). cell r C_version = SqlInteger (int v))"

definition record_version :: "nat \<Rightarrow> bool \<Rightarrow> sql_statement" where
  "record_version v or_ignore = InsertRow T_schema_migrations [(C_version, SqlInteger (int v))] or_ignore"

definition apply_migration :: "string \<Rightarrow> nat \<times> sql_statement list \<Rightarrow> database \<Rightarrow> unit stored \<times> database" where
  "apply_migration now = (\<lambda>(v, ss) db.
     if applied v db then (Ok (), db) else execute_batch now (ss @ [record_version v False]) db)"

definition migrations :: "(nat \<times> sql_statement list) list" where
  "migrations =
     [(2, MIGRATION_2), (3, MIGRATION_3), (4, MIGRATION_4), (5, MIGRATION_5), (6, MIGRATION_6),
      (7, MIGRATION_7), (8, MIGRATION_8), (9, MIGRATION_9), (10, MIGRATION_10), (11, MIGRATION_11),
      (12, MIGRATION_12), (13, MIGRATION_13), (14, MIGRATION_14), (15, MIGRATION_15)]"

fun apply_migrations :: "string \<Rightarrow> (nat \<times> sql_statement list) list \<Rightarrow> database \<Rightarrow> unit stored \<times> database" where
  "apply_migrations now [] db = (Ok (), db)"
| "apply_migrations now (m # ms) db = and_also (apply_migration now m) (apply_migrations now ms) db"

definition prepare :: "string \<Rightarrow> database \<Rightarrow> unit stored \<times> database" where
  "prepare now = and_also (execute_batch now MIGRATION_1)
     (and_also (check_format now) (execute_batch now [record_version 1 True]))"

definition migrate :: "string \<Rightarrow> database \<Rightarrow> unit stored \<times> database" where
  "migrate now = and_also (prepare now) (apply_migrations now migrations)"

section \<open>Runs of statements\<close>

lemma and_also_Ok: "and_also f g s = (Inr u, s'') \<longleftrightarrow> (\<exists>s'. f s = (Inr (), s') \<and> g s' = (Inr (), s''))"
  by (auto simp: and_also_def split: prod.splits sum.splits)

lemma and_also_step: "f s = (Inr u, s') \<Longrightarrow> and_also f g s = g s'"
  by (simp add: and_also_def)

lemma autocommit_append: "autocommit (fs @ gs) = and_also (autocommit fs) (autocommit gs)"
proof
  show "autocommit (fs @ gs) s = and_also (autocommit fs) (autocommit gs) s" for s
    by (induction fs arbitrary: s) (auto simp: and_also_def split: sum.splits prod.splits)
qed

lemma execute_batch_Nil [simp]: "execute_batch now [] db = (Ok (), db)"
  by (simp add: execute_batch_def)

lemma execute_batch_Cons: "execute_batch now (s # ss) db =
    (case exec now s db of Inl e \<Rightarrow> (Err e, db) | Inr db' \<Rightarrow> execute_batch now ss db')"
  by (simp add: execute_batch_def split: sum.split)

lemma execute_batch_append:
  "execute_batch now (ss @ ss') = and_also (execute_batch now ss) (execute_batch now ss')"
  by (simp add: execute_batch_def autocommit_append)

lemma apply_migrations_append:
  "apply_migrations now (ms @ ms') = and_also (apply_migrations now ms) (apply_migrations now ms')"
proof
  show "apply_migrations now (ms @ ms') db = and_also (apply_migrations now ms) (apply_migrations now ms') db" for db
    by (induction ms arbitrary: db) (auto simp: and_also_def split: sum.splits prod.splits)
qed

text \<open>A property that each of some statements keeps.\<close>

definition kept_by :: "string \<Rightarrow> sql_statement list \<Rightarrow> (database \<Rightarrow> bool) \<Rightarrow> bool" where
  "kept_by now ss P = (\<forall>s\<in>set ss. \<forall>db db'. P db \<longrightarrow> exec now s db = Ok db' \<longrightarrow> P db')"

lemma kept_by_subset: "kept_by now ss P \<Longrightarrow> set ss' \<subseteq> set ss \<Longrightarrow> kept_by now ss' P"
  by (auto simp: kept_by_def)

lemma execute_batch_inv: "kept_by now ss P \<Longrightarrow> P db \<Longrightarrow> P (snd (execute_batch now ss db))"
proof (induction ss arbitrary: db)
  case (Cons s ss)
  show ?case
  proof (cases "exec now s db")
    case (Inr db')
    have "\<forall>db db'. P db \<longrightarrow> exec now s db = Ok db' \<longrightarrow> P db'"
      using Cons.prems(1) unfolding kept_by_def list.set by blast
    then have "P db'" using Inr Cons.prems(2) by blast
    moreover have "kept_by now ss P" using kept_by_subset[OF Cons.prems(1)] by (simp add: subset_insertI)
    ultimately show ?thesis using Cons.IH Inr by (simp add: execute_batch_Cons)
  qed (use Cons.prems in \<open>simp add: execute_batch_Cons\<close>)
qed simp

lemma and_also_inv:
  assumes "P (snd (f s))" "\<And>s'. P s' \<Longrightarrow> P (snd (g s'))"
  shows "P (snd (and_also f g s))"
  using assms by (auto simp: and_also_def split: prod.splits sum.splits)

definition all_statements :: "sql_statement list" where
  "all_statements = MIGRATION_1 @ [InsertRow T_kide_metadata format_row False, record_version 1 True]
     @ concat (map (\<lambda>(v, ss). ss @ [record_version v False]) migrations)"

lemma apply_migrations_inv:
  assumes "kept_by now all_statements P" "set ms \<subseteq> set migrations" "P db"
  shows "P (snd (apply_migrations now ms db))"
  using assms(2,3)
proof (induction ms arbitrary: db)
  case (Cons m ms)
  have "P (snd (apply_migration now m db'))" if "P db'" for db'
  proof (cases m)
    case (Pair v ss)
    with Cons.prems(1) have "set (ss @ [record_version v False]) \<subseteq> set all_statements"
      by (fastforce simp: all_statements_def)
    then have "P (snd (execute_batch now (ss @ [record_version v False]) db'))"
      using execute_batch_inv kept_by_subset[OF assms(1)] that by blast
    then show ?thesis using that by (simp add: Pair apply_migration_def)
  qed
  then show ?case using Cons by (simp add: and_also_inv[of P])
qed simp

lemma prepare_inv:
  assumes "kept_by now all_statements P" "P db"
  shows "P (snd (prepare now db))"
proof -
  have batch: "P (snd (execute_batch now ss db))" if "set ss \<subseteq> set all_statements" "P db" for ss db
    using execute_batch_inv kept_by_subset[OF assms(1)] that by blast
  have "P (snd (check_format now db))" if "P db" for db
    using batch[of "[InsertRow T_kide_metadata format_row False]" db] that
    by (auto simp: check_format_def Let_def all_statements_def simp del: exec.simps split: option.splits sql_value.splits)
  moreover have "P (snd (execute_batch now MIGRATION_1 db))"
    by (rule batch[OF _ assms(2)]) (auto simp: all_statements_def)
  moreover have "P (snd (execute_batch now [record_version 1 True] db))" if "P db" for db
    by (rule batch[OF _ that]) (simp add: all_statements_def)
  ultimately show ?thesis unfolding prepare_def by (intro and_also_inv[of P]) simp_all
qed

lemma migrate_inv: "kept_by now all_statements P \<Longrightarrow> P db \<Longrightarrow> P (snd (migrate now db))"
  unfolding migrate_def
  by (rule and_also_inv[of P]) (simp_all add: prepare_inv apply_migrations_inv)

section \<open>The data of an index is kept\<close>

definition has_column :: "table_name \<Rightarrow> column_name \<Rightarrow> database \<Rightarrow> bool" where
  "has_column n c db = (case table_of n db of Inl _ \<Rightarrow> False | Inr t \<Rightarrow> c \<in> set (column_names t))"

definition column_values :: "table_name \<Rightarrow> column_name \<Rightarrow> database \<Rightarrow> sql_value list" where
  "column_values n c db = map (\<lambda>r. cell r c) (rows_of n db)"

text \<open>Statements that neither write rows of \<open>n\<close> nor drop its column \<open>c\<close>.\<close>

fun keeps_column :: "table_name \<Rightarrow> column_name \<Rightarrow> sql_statement \<Rightarrow> bool" where
  "keeps_column n c (DropColumn m d) = ((m, d) \<noteq> (n, c))"
| "keeps_column n c (InsertRow m _ _) = (m \<noteq> n)"
| "keeps_column n c (InsertOrReplaceSelect m _ _ _) = (m \<noteq> n)"
| "keeps_column n c _ = True"

lemma map_of_with: "map_of (map (\<lambda>(m, u). (m, if m = n then t' else u)) ts) k =
    (if k = n then map_option (\<lambda>_. t') (map_of ts n) else map_of ts k)"
  by (induction ts) auto

lemma with_table_Ok: "with_table n f db = Inr db' \<longleftrightarrow>
    (\<exists>t t'. map_of (db_tables db) n = Some t \<and> f t = Inr t'
      \<and> db' = db\<lparr>db_tables := map (\<lambda>(m, u). (m, if m = n then t' else u)) (db_tables db)\<rparr>)"
  by (auto simp: with_table_def table_of_def and_then_eq_Ok split: option.splits)

lemma cell_append: "c \<noteq> d \<Longrightarrow> cell (r @ [(d, v)]) c = cell r c"
  by (auto simp: cell_def map_add_def split: option.splits)

lemma cell_filter: "c \<noteq> d \<Longrightarrow> cell (filter (\<lambda>x. fst x \<noteq> d) r) c = cell r c"
proof -
  assume "c \<noteq> d"
  then have "map_of (filter (\<lambda>x. fst x \<noteq> d) r) c = map_of r c" by (induction r) auto
  then show ?thesis by (simp add: cell_def)
qed

lemma exec_keeps_column:
  assumes "exec now s db = Inr db'" "keeps_column n c s" "has_column n c db"
  shows "has_column n c db' \<and> column_values n c db' = column_values n c db"
proof (cases s)
  case (CreateTable m cs k)
  then show ?thesis using assms
    by (auto simp: has_column_def column_values_def rows_of_def table_of_def map_of_append split: if_splits option.splits)
next
  case (CreateIndex i m cs)
  then show ?thesis using assms
    by (auto simp: create_index_def and_then_eq_Ok has_column_def column_values_def rows_of_def table_of_def
        split: if_splits option.splits)
next
  case (AddColumn m d)
  then obtain t t' where t: "map_of (db_tables db) m = Some t" "add_column d t = Inr t'"
    "db' = db\<lparr>db_tables := map (\<lambda>(k, u). (k, if k = m then t' else u)) (db_tables db)\<rparr>"
    using assms(1) by (auto simp: with_table_Ok)
  have "c \<in> set (column_names t') \<and> map (\<lambda>r. cell r c) (tb_rows t') = map (\<lambda>r. cell r c) (tb_rows t)"
    if "c \<in> set (column_names t)"
  proof -
    have "c \<noteq> cl_name d" using t(2) that by (auto simp: add_column_def split: if_splits)
    with t(2) that show ?thesis by (auto simp: add_column_def column_names_def cell_append split: if_splits)
  qed
  then show ?thesis using t assms(3)
    by (auto simp: has_column_def column_values_def rows_of_def table_of_def map_of_with)
next
  case (DropColumn m d)
  then obtain t t' where t: "map_of (db_tables db) m = Some t" "drop_column d t = Inr t'"
    "db' = db\<lparr>db_tables := map (\<lambda>(k, u). (k, if k = m then t' else u)) (db_tables db)\<rparr>"
    using assms(1) by (auto simp: with_table_Ok split: if_splits)
  have "c \<in> set (column_names t') \<and> map (\<lambda>r. cell r c) (tb_rows t') = map (\<lambda>r. cell r c) (tb_rows t)"
    if "c \<in> set (column_names t)" "c \<noteq> d"
    using t(2) that by (auto simp: drop_column_def column_names_def cell_filter split: if_splits)
  then show ?thesis using t assms(2,3) DropColumn
    by (auto simp: has_column_def column_values_def rows_of_def table_of_def map_of_with)
next
  case (InsertRow m r i)
  then show ?thesis using assms
    by (auto simp: with_table_Ok has_column_def column_values_def rows_of_def table_of_def map_of_with)
next
  case (InsertOrReplaceSelect m k cs g)
  then show ?thesis using assms
    by (auto simp: with_table_Ok and_then_eq_Ok has_column_def column_values_def rows_of_def table_of_def map_of_with
        split: if_splits)
qed

lemmas migration_defs =
  MIGRATION_1_def MIGRATION_2_def MIGRATION_3_def MIGRATION_4_def MIGRATION_5_def MIGRATION_6_def
  MIGRATION_7_def MIGRATION_8_def MIGRATION_9_def MIGRATION_10_def MIGRATION_11_def MIGRATION_12_def
  MIGRATION_13_def MIGRATION_14_def MIGRATION_15_def

lemma migrations_keep_column:
  assumes "n \<notin> {T_kide_metadata, T_schema_migrations, T_source_provenance}"
    and "(n, c) \<noteq> (T_source_snapshots, C_snapshot_json)"
  shows "s \<in> set all_statements \<Longrightarrow> keeps_column n c s"
proof -
  have "list_all (keeps_column n c) all_statements"
    using assms by (auto simp: all_statements_def migrations_def migration_defs record_version_def)
  then show "s \<in> set all_statements \<Longrightarrow> keeps_column n c s" by (simp add: list_all_iff)
qed

text \<open>
  Opening an index of any earlier version, whether it succeeds or stops at an error, keeps every
  value of every column of the tables that hold facts, except the column \<open>snapshot_json\<close> that a
  migration drops.
\<close>

theorem migration_keeps_data:
  assumes "has_column n c db" "n \<notin> {T_kide_metadata, T_schema_migrations, T_source_provenance}"
    and "(n, c) \<noteq> (T_source_snapshots, C_snapshot_json)"
  shows "has_column n c (snd (migrate now db))
    \<and> column_values n c (snd (migrate now db)) = column_values n c db"
proof -
  let ?P = "\<lambda>d. has_column n c d \<and> column_values n c d = column_values n c db"
  have "kept_by now all_statements ?P"
    unfolding kept_by_def
  proof (intro ballI allI impI)
    fix s d d'
    assume "s \<in> set all_statements" "?P d" "exec now s d = Ok d'"
    then show "?P d'" using exec_keeps_column[of now s d d' n c] migrations_keep_column[OF assms(2,3)] by auto
  qed
  then show ?thesis using migrate_inv[of now ?P db] assms(1) by blast
qed

theorem migration_keeps_data_witness:
  "column_values T_symbols C_name (snd (migrate ''now'' \<lparr> db_tables =
      [(T_symbols, \<lparr> tb_columns = [column C_symbol_id TEXT, required C_name TEXT], tb_key = [C_symbol_id],
        tb_rows = [[(C_symbol_id, SqlText ''s''), (C_name, SqlText ''main'')]] \<rparr>)], db_indexes = [] \<rparr>)) = [SqlText ''main'']"
proof -
  let ?db = "\<lparr> db_tables = [(T_symbols, \<lparr> tb_columns = [column C_symbol_id TEXT, required C_name TEXT], tb_key = [C_symbol_id],
      tb_rows = [[(C_symbol_id, SqlText ''s''), (C_name, SqlText ''main'')]] \<rparr>)], db_indexes = [] \<rparr>"
  have "has_column T_symbols C_name ?db" "column_values T_symbols C_name ?db = [SqlText ''main'']"
    by (simp_all add: has_column_def table_of_def column_names_def column_def required_def column_values_def
        rows_of_def cell_def)
  then show ?thesis using migration_keeps_data[of T_symbols C_name ?db "''now''"] by simp
qed

section \<open>Databases with the same schema\<close>

definition versions :: "sql_table \<Rightarrow> sql_value list" where
  "versions t = map (\<lambda>r. cell r C_version) (tb_rows t)"

text \<open>
  Two tables of the same schema. The rows of the format and the recorded versions agree; what a
  table must be for its version or provenance rows to be written is part of the schema.
\<close>

definition similar_table :: "table_name \<Rightarrow> sql_table \<Rightarrow> sql_table \<Rightarrow> bool" where
  "similar_table n t u =
     (tb_columns t = tb_columns u \<and> tb_key t = tb_key u
      \<and> (n = T_kide_metadata \<longrightarrow> column_names t = [C_key, C_value] \<and> tb_rows t = tb_rows u)
      \<and> (n = T_schema_migrations \<longrightarrow> tb_key t = [C_version] \<and> versions t = versions u)
      \<and> (n = T_source_provenance \<longrightarrow> column_names t = [C_source_unit_id, C_provenance_blob]
          \<and> (\<forall>c\<in>set (tb_columns t). cl_not_null c \<longrightarrow> cl_name c = C_provenance_blob)))"

definition similar :: "database \<Rightarrow> database \<Rightarrow> bool" where
  "similar db d =
     (db_indexes db = db_indexes d
      \<and> list_all2 (\<lambda>(n, t) (m, u). n = m \<and> similar_table n t u) (db_tables db) (db_tables d))"

definition similar_results :: "database stored \<Rightarrow> database stored \<Rightarrow> bool" where
  "similar_results x y = (case (x, y) of
     (Inl e, Inl e') \<Rightarrow> e = e' | (Inr db, Inr d) \<Rightarrow> similar db d | _ \<Rightarrow> False)"

lemma similar_results_simps [simp]:
  "similar_results (Inl e) (Inl e') \<longleftrightarrow> e = e'" "similar_results (Inr db) (Inr d) \<longleftrightarrow> similar db d"
  by (simp_all add: similar_results_def)

lemma similar_lookup:
  assumes "similar db d"
  shows "rel_option (similar_table n) (map_of (db_tables db) n) (map_of (db_tables d) n)"
proof -
  have "list_all2 (\<lambda>(n, t) (m, u). n = m \<and> similar_table n t u) (db_tables db) (db_tables d)"
    using assms by (simp add: similar_def)
  then show ?thesis by (induction rule: list_all2_induct) auto
qed

lemma similar_lookup_cases [consumes 1, case_names None Some]:
  assumes "similar db d"
  obtains "map_of (db_tables db) n = None" "map_of (db_tables d) n = None"
  | t u where "map_of (db_tables db) n = Some t" "map_of (db_tables d) n = Some u" "similar_table n t u"
  using similar_lookup[OF assms, of n] by (auto simp: option_rel_Some1 elim!: option.rel_cases)

lemma similar_update:
  assumes "similar db d" "similar_table n t u"
  shows "similar (db\<lparr>db_tables := map (\<lambda>(m, x). (m, if m = n then t else x)) (db_tables db)\<rparr>)
    (d\<lparr>db_tables := map (\<lambda>(m, x). (m, if m = n then u else x)) (db_tables d)\<rparr>)"
  using assms by (auto simp: similar_def list_all2_conv_all_nth split: prod.splits)

lemma with_table_similar:
  assumes "similar db d"
    and "\<And>t u. similar_table n t u \<Longrightarrow>
      (\<exists>t' u'. f t = Ok t' \<and> g u = Ok u' \<and> similar_table n t' u') \<or> (\<exists>e. f t = Err e \<and> g u = Err e)"
  shows "similar_results (with_table n f db) (with_table n g d)"
  using assms(1)
proof (cases rule: similar_lookup_cases[where n = n])
  case None
  then show ?thesis by (simp add: with_table_def table_of_def)
next
  case (Some t u)
  then show ?thesis using assms(2)[OF Some(3)] similar_update[OF assms(1)]
    by (auto simp: with_table_def table_of_def)
qed

text \<open>The statements of the migrations write no version or format row but through \<open>INSERT\<close>.\<close>

fun plain :: "sql_statement \<Rightarrow> bool" where
  "plain (CreateTable n cs k) =
     ((n = T_kide_metadata \<longrightarrow> map cl_name cs = [C_key, C_value])
      \<and> (n = T_schema_migrations \<longrightarrow> k = [C_version])
      \<and> (n = T_source_provenance \<longrightarrow> map cl_name cs = [C_source_unit_id, C_provenance_blob]
          \<and> (\<forall>c\<in>set cs. cl_not_null c \<longrightarrow> cl_name c = C_provenance_blob)))"
| "plain (CreateIndex i n cs) = True"
| "plain (AddColumn n c) = (n \<notin> {T_kide_metadata, T_schema_migrations, T_source_provenance})"
| "plain (DropColumn n c) = (n \<notin> {T_kide_metadata, T_schema_migrations, T_source_provenance})"
| "plain (InsertRow n r i) =
     (n = T_kide_metadata \<and> map fst r = [C_key, C_value] \<or> n = T_schema_migrations \<and> (\<exists>v. r = [(C_version, SqlInteger v)]))"
| "plain (InsertOrReplaceSelect n m cs g) =
     (n = T_source_provenance \<and> cs = [C_source_unit_id, C_provenance_blob] \<and> g = C_provenance_blob)"

lemma migrations_plain: "s \<in> set all_statements \<Longrightarrow> plain s"
proof -
  have "list_all plain all_statements"
    by (simp add: all_statements_def migrations_def migration_defs record_version_def format_row_def
        column_def required_def defaulted_def timestamp_def referencing_def)
  then show "s \<in> set all_statements \<Longrightarrow> plain s" by (simp add: list_all_iff)
qed

lemma findSomeD: "find P xs = Some x \<Longrightarrow> P x \<and> x \<in> set xs"
  by (induction xs) (auto split: if_splits)

lemma cell_full_row: "cell (full_row now t r) n = (case find (\<lambda>c. cl_name c = n) (tb_columns t) of
    None \<Rightarrow> SqlNull
  | Some c \<Rightarrow> (case map_of r n of None \<Rightarrow> default_value now (cl_default c) | Some v \<Rightarrow> v))"
proof -
  have "map_of (map (\<lambda>c. (cl_name c, f c)) cs) n = map_option f (find (\<lambda>c. cl_name c = n) cs)"
    for f :: "sql_column \<Rightarrow> sql_value" and cs
    by (induction cs) auto
  then show ?thesis unfolding cell_def full_row_def
    by (auto split: option.splits dest: findSomeD)
qed

lemma default_value_null: "default_value now d = SqlNull \<longleftrightarrow> default_value now' d = SqlNull"
  by (cases d) auto

lemma not_null_full_row: "tb_columns t = tb_columns u \<Longrightarrow>
    not_null_ok t (full_row now t r) \<longleftrightarrow> not_null_ok u (full_row now' u r)"
proof -
  assume "tb_columns t = tb_columns u"
  moreover have "cell (full_row now t r) n = SqlNull \<longleftrightarrow> cell (full_row now' t r) n = SqlNull" for n
    using default_value_null[of now _ now'] by (auto simp: cell_full_row split: option.splits)
  moreover have "full_row now' u r = full_row now' t r" using calculation(1) by (simp add: full_row_def)
  ultimately show ?thesis by (simp add: not_null_ok_def)
qed

lemma insert_metadata_similar:
  assumes "similar_table T_kide_metadata t u" "map fst r = [C_key, C_value]"
  shows "(\<exists>t' u'. insert_sql now r i t = Ok t' \<and> insert_sql now' r i u = Ok u' \<and> similar_table T_kide_metadata t' u')
    \<or> (\<exists>e. insert_sql now r i t = Err e \<and> insert_sql now' r i u = Err e)"
proof -
  have cols: "tb_columns t = tb_columns u" "tb_key t = tb_key u" "tb_rows t = tb_rows u" "column_names t = [C_key, C_value]"
    using assms(1) by (auto simp: similar_table_def)
  have "cl_name c \<in> dom (map_of r)" if "c \<in> set (tb_columns t)" for c
  proof -
    have "cl_name c \<in> set (column_names t)" using that by (simp add: column_names_def)
    then have "cl_name c \<in> set (map fst r)" using assms(2) cols(4) by simp
    then show ?thesis by (simp add: dom_map_of_conv_image_fst)
  qed
  then have "full_row now t r = full_row now' u r"
    unfolding full_row_def cols(1)[symmetric] by (fastforce split: option.splits)
  then show ?thesis using assms(1) cols
    by (auto simp: insert_sql_def Let_def similar_table_def column_names_def same_key_def row_key_def not_null_ok_def)
qed

lemma insert_version_similar:
  assumes "similar_table T_schema_migrations t u"
  shows "(\<exists>t' u'. insert_sql now [(C_version, SqlInteger v)] i t = Ok t' \<and> insert_sql now' [(C_version, SqlInteger v)] i u = Ok u'
        \<and> similar_table T_schema_migrations t' u')
    \<or> (\<exists>e. insert_sql now [(C_version, SqlInteger v)] i t = Err e \<and> insert_sql now' [(C_version, SqlInteger v)] i u = Err e)"
proof -
  let ?r = "[(C_version, SqlInteger v)]"
  have cols: "tb_columns t = tb_columns u" "tb_key t = [C_version]" "tb_key u = [C_version]" "versions t = versions u"
    using assms by (auto simp: similar_table_def)
  have version: "cell (full_row now t ?r) C_version = cell (full_row now' u ?r) C_version"
    using cols(1) by (auto simp: cell_full_row split: option.splits)
  have conflict: "(\<exists>x\<in>set (tb_rows w). same_key w x r) \<longleftrightarrow> cell r C_version \<noteq> SqlNull \<and> cell r C_version \<in> set (versions w)"
    if "tb_key w = [C_version]" for w r
    using that by (auto simp: same_key_def row_key_def versions_def) (metis imageI)+
  have names: "column_names t = column_names u" using cols(1) by (simp add: column_names_def)
  have nn: "not_null_ok t (full_row now t ?r) \<longleftrightarrow> not_null_ok u (full_row now' u ?r)"
    by (rule not_null_full_row[OF cols(1)])
  show ?thesis
    unfolding insert_sql_def Let_def conflict[OF cols(2)] conflict[OF cols(3)] names nn cols(4) version
    using assms version by (auto simp: similar_table_def versions_def)
qed

lemma replace_provenance:
  assumes "similar_table T_source_provenance t t"
    and "\<forall>r\<in>set rs. map fst r = [C_source_unit_id, C_provenance_blob] \<and> cell r C_provenance_blob \<noteq> SqlNull"
  shows "\<exists>t'. for_each (replace_sql now) rs t = Ok t' \<and> similar_table T_source_provenance t' t"
  using assms
proof (induction rs arbitrary: t)
  case (Cons r rs)
  have cols: "column_names t = [C_source_unit_id, C_provenance_blob]"
    "\<forall>c\<in>set (tb_columns t). cl_not_null c \<longrightarrow> cl_name c = C_provenance_blob"
    using Cons.prems(1) by (auto simp: similar_table_def)
  have r: "map fst r = [C_source_unit_id, C_provenance_blob]" "cell r C_provenance_blob \<noteq> SqlNull"
    using Cons.prems(2) by auto
  then obtain v where v: "map_of r C_provenance_blob = Some v" "v \<noteq> SqlNull"
    by (auto simp: cell_def split: option.splits)
  have "cell (full_row now t r) C_provenance_blob \<noteq> SqlNull"
  proof -
    have "find (\<lambda>c. cl_name c = C_provenance_blob) (tb_columns t) \<noteq> None"
      using cols(1) by (auto simp: column_names_def find_None_iff)
    then show ?thesis using v by (auto simp: cell_full_row)
  qed
  then have "not_null_ok t (full_row now t r)" using cols(2) by (auto simp: not_null_ok_def)
  then have step: "replace_sql now r t
      = Ok (t\<lparr>tb_rows := filter (\<lambda>x. \<not> same_key t x (full_row now t r)) (tb_rows t) @ [full_row now t r]\<rparr>)"
    using r(1) cols(1) by (simp add: replace_sql_def Let_def)
  let ?t = "t\<lparr>tb_rows := filter (\<lambda>x. \<not> same_key t x (full_row now t r)) (tb_rows t) @ [full_row now t r]\<rparr>"
  have "similar_table T_source_provenance ?t ?t" using cols by (simp add: similar_table_def column_names_def)
  from Cons.IH[OF this] Cons.prems(2) obtain t' where "for_each (replace_sql now) rs ?t = Ok t'"
    "similar_table T_source_provenance t' ?t" by auto
  then show ?case using step by (auto simp: similar_table_def)
qed simp

lemma similar_table_sym: "similar_table n t u \<Longrightarrow> similar_table n u t"
  unfolding similar_table_def column_names_def by (elim conjE) simp

lemma similar_table_trans: "similar_table n t u \<Longrightarrow> similar_table n u w \<Longrightarrow> similar_table n t w"
  unfolding similar_table_def column_names_def by (elim conjE) simp

lemma similar_sym: "similar db d \<Longrightarrow> similar d db"
  unfolding similar_def by (auto simp: list_all2_conv_all_nth split: prod.splits) (metis similar_table_sym)

lemma similar_trans:
  assumes "similar a b" "similar b c"
  shows "similar a c"
proof -
  have "list_all2 (\<lambda>(n, t) (m, u). n = m \<and> similar_table n t u) (db_tables a) (db_tables c)"
    by (rule list_all2_trans[of "\<lambda>(n, t) (m, u). n = m \<and> similar_table n t u"
          "\<lambda>(n, t) (m, u). n = m \<and> similar_table n t u" _ "db_tables a" "db_tables b"])
      (use assms in \<open>auto simp: similar_def intro: similar_table_trans\<close>)
  then show ?thesis using assms by (simp add: similar_def)
qed

lemma exec_similar:
  assumes "similar db d" "plain s"
  shows "similar_results (exec now s db) (exec now' s d)"
proof (cases s)
  case (CreateTable n cs k)
  show ?thesis using assms(1)
  proof (cases rule: similar_lookup_cases[where n = n])
    case None
    have "similar_table n \<lparr> tb_columns = cs, tb_key = k, tb_rows = [] \<rparr> \<lparr> tb_columns = cs, tb_key = k, tb_rows = [] \<rparr>"
      using assms(2) CreateTable by (simp add: similar_table_def column_names_def versions_def)
    then show ?thesis using None CreateTable assms(1) by (simp add: similar_def list_all2_appendI)
  next
    case (Some t u)
    then show ?thesis using CreateTable assms(1) by simp
  qed
next
  case (CreateIndex i n cs)
  show ?thesis using assms(1)
  proof (cases rule: similar_lookup_cases[where n = n])
    case None
    then show ?thesis using CreateIndex assms(1) by (auto simp: create_index_def table_of_def similar_def)
  next
    case (Some t u)
    then have "column_names t = column_names u" by (simp add: similar_table_def column_names_def)
    then show ?thesis using Some CreateIndex assms(1) by (auto simp: create_index_def table_of_def similar_def)
  qed
next
  case (AddColumn n c)
  then have "n \<notin> {T_kide_metadata, T_schema_migrations, T_source_provenance}" using assms(2) by simp
  then have "similar_results (with_table n (add_column c) db) (with_table n (add_column c) d)"
    by (intro with_table_similar[OF assms(1)]) (auto simp: add_column_def similar_table_def column_names_def)
  then show ?thesis using AddColumn by simp
next
  case (DropColumn n c)
  then have "n \<notin> {T_kide_metadata, T_schema_migrations, T_source_provenance}" using assms(2) by simp
  then have "similar_results (with_table n (drop_column c) db) (with_table n (drop_column c) d)"
    by (intro with_table_similar[OF assms(1)]) (auto simp: drop_column_def similar_table_def column_names_def)
  then show ?thesis using DropColumn assms(1) by (simp add: similar_def)
next
  case (InsertRow n r i)
  then consider "n = T_kide_metadata" "map fst r = [C_key, C_value]"
    | v where "n = T_schema_migrations" "r = [(C_version, SqlInteger v)]"
    using assms(2) by auto
  then have "similar_results (with_table n (insert_sql now r i) db) (with_table n (insert_sql now' r i) d)"
  proof cases
    case 1
    show ?thesis unfolding 1(1)
      by (rule with_table_similar[OF assms(1)]) (rule insert_metadata_similar[OF _ 1(2)])
  next
    case 2
    show ?thesis unfolding 2
      by (rule with_table_similar[OF assms(1)]) (rule insert_version_similar)
  qed
  then show ?thesis using InsertRow by simp
next
  case (InsertOrReplaceSelect n m cs g)
  then have plain: "n = T_source_provenance" "cs = [C_source_unit_id, C_provenance_blob]" "g = C_provenance_blob"
    using assms(2) by simp_all
  have selected: "\<forall>r\<in>set (selected_rows cs g t). map fst r = [C_source_unit_id, C_provenance_blob] \<and> cell r C_provenance_blob \<noteq> SqlNull"
    for t by (auto simp: selected_rows_def plain cell_def)
  show ?thesis using assms(1)
  proof (cases rule: similar_lookup_cases[where n = m])
    case None
    then show ?thesis using InsertOrReplaceSelect by (simp add: table_of_def)
  next
    case (Some t u)
    have "similar_results (with_table n (for_each (replace_sql now) (selected_rows cs g t)) db)
        (with_table n (for_each (replace_sql now') (selected_rows cs g u)) d)"
    proof (rule with_table_similar[OF assms(1)], rule disjI1)
      fix a b assume ab: "similar_table n a b"
      have refl: "similar_table T_source_provenance a a" "similar_table T_source_provenance b b"
        using ab similar_table_trans similar_table_sym plain(1) by blast+
      obtain a' b' where "for_each (replace_sql now) (selected_rows cs g t) a = Ok a'" "similar_table n a' a"
        "for_each (replace_sql now') (selected_rows cs g u) b = Ok b'" "similar_table n b' b"
        using replace_provenance[OF refl(1) selected] replace_provenance[OF refl(2) selected] plain(1) by metis
      then show "\<exists>a' b'. for_each (replace_sql now) (selected_rows cs g t) a = Ok a'
          \<and> for_each (replace_sql now') (selected_rows cs g u) b = Ok b' \<and> similar_table n a' b'"
        using ab similar_table_trans similar_table_sym by blast
    qed
    moreover have "column_names t = column_names u" using Some(3) by (simp add: similar_table_def column_names_def)
    ultimately show ?thesis using Some InsertOrReplaceSelect by (simp add: table_of_def)
  qed
qed

text \<open>Whole operations act alike on similar databases.\<close>

definition alike :: "(database \<Rightarrow> unit stored \<times> database) \<Rightarrow> (database \<Rightarrow> unit stored \<times> database) \<Rightarrow> bool" where
  "alike f g = (\<forall>db d. similar db d \<longrightarrow> fst (f db) = fst (g d) \<and> similar (snd (f db)) (snd (g d)))"

lemma alikeD: "alike f g \<Longrightarrow> similar db d \<Longrightarrow> fst (f db) = fst (g d) \<and> similar (snd (f db)) (snd (g d))"
  by (simp add: alike_def)

lemma and_also_unfold: "and_also f g s = (case fst (f s) of Inl e \<Rightarrow> (Err e, snd (f s)) | Inr _ \<Rightarrow> g (snd (f s)))"
  by (cases "f s") (auto simp: and_also_def split: sum.splits)

lemma alike_and_also: "alike f g \<Longrightarrow> alike f' g' \<Longrightarrow> alike (and_also f f') (and_also g g')"
proof -
  assume 1: "alike f g" and 2: "alike f' g'"
  show ?thesis unfolding alike_def
  proof (intro allI impI)
    fix db d assume "similar db d"
    with 1 have step: "fst (f db) = fst (g d)" "similar (snd (f db)) (snd (g d))" by (simp_all add: alikeD)
    with alikeD[OF 2 step(2)] show "fst (and_also f f' db) = fst (and_also g g' d)
        \<and> similar (snd (and_also f f' db)) (snd (and_also g g' d))"
      by (cases "fst (g d)") (simp_all add: and_also_unfold)
  qed
qed

lemma execute_batch_alike: "\<forall>s\<in>set ss. plain s \<Longrightarrow> alike (execute_batch now ss) (execute_batch now' ss)"
proof (induction ss)
  case (Cons s ss)
  show ?case unfolding alike_def
  proof (intro allI impI)
    fix db d assume sim: "similar db d"
    have step: "similar_results (exec now s db) (exec now' s d)" using exec_similar[OF sim] Cons.prems by simp
    have rest: "alike (execute_batch now ss) (execute_batch now' ss)" using Cons by simp
    show "fst (execute_batch now (s # ss) db) = fst (execute_batch now' (s # ss) d)
        \<and> similar (snd (execute_batch now (s # ss) db)) (snd (execute_batch now' (s # ss) d))"
    proof (cases "exec now s db")
      case (Inl e)
      then have "exec now' s d = Inl e" using step by (cases "exec now' s d") (simp_all add: similar_results_def)
      then show ?thesis using Inl sim by (simp add: execute_batch_Cons)
    next
      case (Inr db')
      then obtain d' where "exec now' s d = Inr d'" "similar db' d'"
        using step by (cases "exec now' s d") (simp_all add: similar_results_def)
      then show ?thesis using Inr alikeD[OF rest] by (simp add: execute_batch_Cons)
    qed
  qed
qed (simp add: alike_def)

lemma similar_rows_of:
  assumes "similar db d"
  shows "rows_of T_kide_metadata db = rows_of T_kide_metadata d"
    and "map (\<lambda>r. cell r C_version) (rows_of T_schema_migrations db) = map (\<lambda>r. cell r C_version) (rows_of T_schema_migrations d)"
proof -
  show "rows_of T_kide_metadata db = rows_of T_kide_metadata d"
    using assms by (cases rule: similar_lookup_cases[where n = T_kide_metadata]) (simp_all add: rows_of_def similar_table_def)
  show "map (\<lambda>r. cell r C_version) (rows_of T_schema_migrations db) = map (\<lambda>r. cell r C_version) (rows_of T_schema_migrations d)"
    using assms by (cases rule: similar_lookup_cases[where n = T_schema_migrations])
      (simp_all add: rows_of_def similar_table_def versions_def)
qed

lemma similar_stored_version: "similar db d \<Longrightarrow> stored_version db = stored_version d"
  by (simp add: stored_version_def similar_rows_of)

lemma applied_iff: "applied v db \<longleftrightarrow> SqlInteger (int v) \<in> set (map (\<lambda>r. cell r C_version) (rows_of T_schema_migrations db))"
  by (auto simp: applied_def image_iff) metis

lemma similar_applied: "similar db d \<Longrightarrow> applied v db = applied v d"
  unfolding applied_iff by (simp only: similar_rows_of(2))

lemma batch_alike:
  assumes "set ss \<subseteq> set all_statements"
  shows "alike (execute_batch now ss) (execute_batch now' ss)"
  using assms migrations_plain by (blast intro: execute_batch_alike)

lemma check_format_alike: "alike (check_format now) (check_format now')"
proof -
  have insert: "alike (execute_batch now [InsertRow T_kide_metadata format_row False])
      (execute_batch now' [InsertRow T_kide_metadata format_row False])"
    by (rule batch_alike) (simp add: all_statements_def)
  show ?thesis unfolding alike_def
  proof (intro allI impI)
    fix db d assume sim: "similar db d"
    show "fst (check_format now db) = fst (check_format now' d) \<and> similar (snd (check_format now db)) (snd (check_format now' d))"
    proof (cases "stored_version d")
      case None
      then show ?thesis using alikeD[OF insert sim] similar_stored_version[OF sim]
        by (simp add: check_format_def del: exec.simps)
    next
      case (Some v)
      then show ?thesis using sim similar_stored_version[OF sim]
        by (auto simp: check_format_def Let_def split: sql_value.splits)
    qed
  qed
qed

lemma prepare_alike: "alike (prepare now) (prepare now')"
  unfolding prepare_def
  by (intro alike_and_also batch_alike check_format_alike) (auto simp: all_statements_def)

lemma apply_migration_alike:
  assumes "m \<in> set migrations"
  shows "alike (apply_migration now m) (apply_migration now' m)"
proof (cases m)
  case (Pair v ss)
  with assms have "set (ss @ [record_version v False]) \<subseteq> set all_statements"
    by (fastforce simp: all_statements_def)
  note batch = batch_alike[OF this, of now now']
  show ?thesis unfolding alike_def
  proof (intro allI impI)
    fix db d assume sim: "similar db d"
    with alikeD[OF batch sim] show "fst (apply_migration now m db) = fst (apply_migration now' m d)
        \<and> similar (snd (apply_migration now m db)) (snd (apply_migration now' m d))"
      by (simp add: Pair apply_migration_def similar_applied)
  qed
qed

lemma apply_migrations_alike: "set ms \<subseteq> set migrations \<Longrightarrow> alike (apply_migrations now ms) (apply_migrations now' ms)"
proof (induction ms)
  case Nil
  then show ?case by (simp add: alike_def)
next
  case (Cons m ms)
  have eq: "apply_migrations now (m # ms) = and_also (apply_migration now m) (apply_migrations now ms)" for now
    by (rule ext) simp
  show ?case unfolding eq using Cons apply_migration_alike by (intro alike_and_also) simp_all
qed

lemma migrate_alike: "alike (migrate now) (migrate now')"
  unfolding migrate_def by (intro alike_and_also prepare_alike apply_migrations_alike) simp

section \<open>What a run of statements leaves in place\<close>

text \<open>A creating statement whose table or index exists.\<close>

fun in_place :: "sql_statement \<Rightarrow> database \<Rightarrow> bool" where
  "in_place (CreateTable n _ _) db = (n \<in> set (map fst (db_tables db)))"
| "in_place (CreateIndex i _ _) db = (i \<in> set (map fst (db_indexes db)))"
| "in_place _ db = False"

definition version_table :: "database \<Rightarrow> bool" where
  "version_table db = (case map_of (db_tables db) T_schema_migrations of None \<Rightarrow> False
     | Some t \<Rightarrow> tb_key t = [C_version] \<and> C_version \<in> set (column_names t))"

text \<open>A database on which \<open>prepare\<close> has nothing left to do.\<close>

definition ready :: "database \<Rightarrow> bool" where
  "ready db = (distinct (map fst (db_tables db)) \<and> (\<forall>s\<in>set MIGRATION_1. in_place s db)
     \<and> stored_version db = Some (SqlText (decimal (unat INDEX_FORMAT_VERSION)))
     \<and> version_table db \<and> applied 1 db)"

lemma map_fst_with [simp]: "map fst (map (\<lambda>(m, u). (m, if m = n then t' else u)) ts) = map fst ts"
  by (induction ts) auto

lemma exec_grows:
  assumes "plain s" "exec now s db = Inr db'"
  shows "(\<exists>xs. rows_of T_kide_metadata db' = rows_of T_kide_metadata db @ xs)
    \<and> (\<exists>xs. rows_of T_schema_migrations db' = rows_of T_schema_migrations db @ xs)"
proof -
  have rows: "\<exists>xs. rows_of n db' = rows_of n db @ xs" if n: "n \<in> {T_kide_metadata, T_schema_migrations}" for n
  proof (cases s)
    case (CreateTable m cs k)
    then show ?thesis using assms(2) by (auto simp: rows_of_def split: if_splits option.splits)
  next
    case (CreateIndex i m cs)
    then show ?thesis using assms(2) by (auto simp: create_index_def and_then_eq_Ok rows_of_def split: if_splits)
  next
    case (AddColumn m c)
    then show ?thesis using assms n by (auto simp: with_table_Ok rows_of_def map_of_with)
  next
    case (DropColumn m c)
    then show ?thesis using assms n by (auto simp: with_table_Ok rows_of_def map_of_with split: if_splits)
  next
    case (InsertRow m r i)
    then show ?thesis using assms(2) n
      by (auto simp: with_table_Ok rows_of_def map_of_with insert_sql_def Let_def split: if_splits)
  next
    case (InsertOrReplaceSelect m k cs g)
    then show ?thesis using assms n
      by (auto simp: with_table_Ok and_then_eq_Ok rows_of_def map_of_with split: if_splits)
  qed
  show ?thesis using rows by blast
qed

lemma with_table_names:
  "with_table n f db = Inr db' \<Longrightarrow> map fst (db_tables db') = map fst (db_tables db) \<and> db_indexes db' = db_indexes db"
  unfolding with_table_Ok by (elim exE conjE) (cases db, simp add: case_prod_unfold)

lemma exec_keeps_names:
  assumes "exec now s db = Inr db'"
  shows "set (map fst (db_tables db)) \<subseteq> set (map fst (db_tables db'))
    \<and> set (map fst (db_indexes db)) \<subseteq> set (map fst (db_indexes db'))
    \<and> (distinct (map fst (db_tables db)) \<longrightarrow> distinct (map fst (db_tables db')))"
proof (cases s)
  case (CreateTable n cs k)
  then show ?thesis using assms by (auto simp: map_of_eq_None_iff split: if_splits)
next
  case (CreateIndex i n cs)
  then show ?thesis using assms by (auto simp: create_index_def and_then_eq_Ok split: if_splits)
next
  case (InsertOrReplaceSelect m k cs g)
  then obtain f where "with_table m f db = Inr db'" using assms by (auto simp: and_then_eq_Ok split: if_splits)
  then have "map fst (db_tables db') = map fst (db_tables db) \<and> db_indexes db' = db_indexes db"
    by (rule with_table_names)
  then show ?thesis by (simp del: set_map)
qed (use assms with_table_names in \<open>fastforce simp del: set_map split: if_splits\<close>)+

lemma exec_keeps_version_table:
  assumes "plain s" "exec now s db = Inr db'" "version_table db"
  shows "version_table db'"
proof (cases s)
  case (CreateTable n cs k)
  then show ?thesis using assms by (auto simp: version_table_def split: if_splits option.splits)
next
  case (CreateIndex i n cs)
  then show ?thesis using assms by (auto simp: create_index_def and_then_eq_Ok version_table_def split: if_splits)
next
  case (InsertRow n r i)
  then show ?thesis using assms
    by (auto simp: with_table_Ok version_table_def map_of_with insert_sql_def Let_def column_names_def
        split: if_splits option.splits)
next
  case (InsertOrReplaceSelect m k cs g)
  then show ?thesis using assms
    by (auto simp: with_table_Ok and_then_eq_Ok version_table_def map_of_with split: if_splits)
qed (use assms in \<open>auto simp: with_table_Ok version_table_def map_of_with split: if_splits\<close>)

lemma exec_keeps_applied:
  assumes "plain s" "exec now s db = Inr db'" "applied v db"
  shows "applied v db'"
  using exec_grows[OF assms(1,2)] assms(3) by (auto simp: applied_def)

lemma exec_keeps_in_place:
  assumes "exec now s db = Inr db'" "in_place s' db"
  shows "in_place s' db'"
  using exec_keeps_names[OF assms(1)] assms(2) by (cases s') auto

lemma find_append_Some: "find P xs = Some x \<Longrightarrow> find P (xs @ ys) = Some x"
  by (induction xs) auto

lemma exec_keeps_ready:
  assumes "plain s" "exec now s db = Inr db'" "ready db"
  shows "ready db'"
proof -
  obtain xs where "rows_of T_kide_metadata db' = rows_of T_kide_metadata db @ xs"
    using exec_grows[OF assms(1,2)] by blast
  then have "stored_version db' = Some (SqlText (decimal (unat INDEX_FORMAT_VERSION)))"
    using assms(3) by (auto simp: ready_def stored_version_def dest: find_append_Some)
  moreover have "\<forall>s\<in>set MIGRATION_1. in_place s db'"
    using assms(3) exec_keeps_in_place[OF assms(2)] by (auto simp: ready_def)
  ultimately show ?thesis
    using assms(3) exec_keeps_names[OF assms(2)] exec_keeps_version_table[OF assms(1,2)] exec_keeps_applied[OF assms(1,2)]
    by (simp add: ready_def)
qed

lemma similar_names: "similar a b \<Longrightarrow> map fst (db_tables a) = map fst (db_tables b)"
  by (auto simp: similar_def list_all2_conv_all_nth split_beta intro!: nth_equalityI)

lemma similar_ready:
  assumes "similar a b" "ready b"
  shows "ready a"
proof -
  have "in_place s a = in_place s b" for s
    using assms(1) similar_names[OF assms(1)] by (cases s) (auto simp: similar_def simp del: set_map)
  moreover have "version_table a"
    using assms(1) by (cases rule: similar_lookup_cases[where n = T_schema_migrations])
      (use assms(2) in \<open>auto simp: ready_def version_table_def similar_table_def column_names_def\<close>)
  ultimately show ?thesis
    using assms similar_names[OF assms(1)] similar_stored_version[OF assms(1)] similar_applied[OF assms(1)]
    by (simp add: ready_def)
qed

lemma in_place_batch: "\<forall>s\<in>set ss. in_place s db \<Longrightarrow> execute_batch now ss db = (Ok (), db)"
proof (induction ss)
  case (Cons s ss)
  have "exec now s db = Ok db"
    using Cons.prems by (cases s) (auto simp: create_index_def map_of_eq_None_iff)
  then show ?case using Cons by (simp add: execute_batch_Cons)
qed simp

lemma parse_format: "parse_unsigned 32 (decimal (unat INDEX_FORMAT_VERSION)) = Some 13"
proof -
  have "char_of (49 :: nat) = CHR ''1''" "char_of (51 :: nat) = CHR ''3''" by code_simp+
  then have "decimal 13 = ''13''" by (simp add: decimal.simps[of 13] decimal.simps[of "Suc 0"])
  moreover have "strip_prefix ''+'' ''13'' = None" by code_simp
  ultimately show ?thesis
    using parse_digits_decimal[of 13] by (simp add: INDEX_FORMAT_VERSION_def parse_unsigned_def)
qed

lemma with_table_same:
  assumes "distinct (map fst (db_tables db))" "map_of (db_tables db) n = Some t" "f t = Inr t"
  shows "with_table n f db = Inr db"
proof -
  have "u = t" if "(n, u) \<in> set (db_tables db)" for u
    using map_of_is_SomeI[OF assms(1) that] assms(2) by simp
  then have "map (\<lambda>(m, u). (m, if m = n then t else u)) (db_tables db) = db_tables db"
    by (intro map_idI) auto
  then show ?thesis using assms(2,3) by (simp add: with_table_def table_of_def)
qed

lemma prepare_ready:
  assumes "ready db"
  shows "prepare now db = (Ok (), db)"
proof -
  have "execute_batch now MIGRATION_1 db = (Ok (), db)" using assms in_place_batch by (simp add: ready_def)
  moreover have "check_format now db = (Ok (), db)"
    using assms parse_format by (simp add: ready_def check_format_def INDEX_FORMAT_VERSION_def)
  moreover have "exec now (record_version 1 True) db = Ok db"
  proof -
    obtain t where t: "map_of (db_tables db) T_schema_migrations = Some t" "tb_key t = [C_version]" "C_version \<in> set (column_names t)"
      using assms by (auto simp: ready_def version_table_def split: option.splits)
    let ?r = "[(C_version, SqlInteger 1)]"
    have "find (\<lambda>c. cl_name c = C_version) (tb_columns t) \<noteq> None"
      using t(3) by (auto simp: column_names_def find_None_iff)
    then have "cell (full_row now t ?r) C_version = SqlInteger 1" by (auto simp: cell_full_row)
    moreover obtain x where "x \<in> set (tb_rows t)" "cell x C_version = SqlInteger 1"
      using assms t(1) by (auto simp: ready_def applied_def rows_of_def)
    ultimately have "\<exists>x\<in>set (tb_rows t). same_key t x (full_row now t ?r)"
      using t(2) by (intro bexI[of _ x]) (auto simp: same_key_def row_key_def)
    then have "insert_sql now ?r True t = Ok t" using t(3) by (simp add: insert_sql_def Let_def)
    then show ?thesis using assms t(1) by (simp add: record_version_def ready_def with_table_same)
  qed
  ultimately show ?thesis by (simp add: prepare_def and_also_def execute_batch_Cons)
qed

end
