(* ===== verification/Store_Upgrade.thy ===== *)
theory Store_Upgrade
  imports Store_Migrations
begin

text \<open>
  What opening an index achieves (\<open>migrate\<close> of \<open>crates/kide-core/src/store.rs\<close>): every earlier
  version is upgraded to the schema a fresh index gets, opening again changes nothing, and the
  crash points from which the index can and cannot be opened again.
\<close>

section \<open>The schema of each version\<close>

text \<open>The empty index a program with the migrations up to \<open>k\<close> creates.\<close>

definition level :: "nat \<Rightarrow> database" where
  "level k = snd (and_also (prepare '''') (apply_migrations '''' (take (k - 1) migrations)) empty_database)"

lemma fresh_index: "fst (migrate '''' empty_database) = Ok () \<and> similar (snd (migrate '''' empty_database)) (snd (migrate '''' empty_database))"
  by code_simp

lemma fresh_ready: "ready (snd (prepare '''' empty_database))"
  by code_simp

lemma length_migrations [simp]: "length migrations = 14"
  by (simp add: migrations_def)

lemma prepared: "prepare '''' empty_database = (Ok (), level 1)"
proof -
  obtain s where "migrate '''' empty_database = (Ok (), s)" using fresh_index by (metis prod.collapse)
  then obtain p where "prepare '''' empty_database = (Ok (), p)" by (auto simp: migrate_def and_also_Ok)
  then show ?thesis by (simp add: level_def and_also_def)
qed

lemma level_eq: "level k = snd (apply_migrations '''' (take (k - 1) migrations) (level 1))"
proof -
  have "and_also (prepare '''') f empty_database = f (level 1)" for f
    using prepared by (simp only: and_also_def split_conv sum.case)
  then show ?thesis unfolding level_def[of k] by simp
qed

lemma level_steps:
  "apply_migrations '''' (take j migrations) (level 1) = (Ok (), level (j + 1))"
  "apply_migrations '''' (drop j migrations) (level (j + 1)) = (Ok (), level 15)"
proof -
  obtain s where s: "migrate '''' empty_database = (Ok (), s)" using fresh_index by (metis prod.collapse)
  then have all: "apply_migrations '''' (take j migrations @ drop j migrations) (level 1) = (Ok (), s)"
    using prepared by (simp add: migrate_def and_also_def)
  have s15: "s = level 15" using s by (simp add: level_def migrate_def)
  obtain l where l: "apply_migrations '''' (take j migrations) (level 1) = (Ok (), l)"
    "apply_migrations '''' (drop j migrations) l = (Ok (), s)"
    using all unfolding apply_migrations_append and_also_Ok by blast
  have "level (j + 1) = l" unfolding level_eq[of "j + 1"] using l(1) by simp
  with l s15 show "apply_migrations '''' (take j migrations) (level 1) = (Ok (), level (j + 1))"
    "apply_migrations '''' (drop j migrations) (level (j + 1)) = (Ok (), level 15)" by simp_all
qed

lemma level_top: "15 \<le> k \<Longrightarrow> level k = level 15"
  by (simp add: level_def)

lemma level_0: "level 0 = level 1"
  by (simp add: level_def)

lemma kept_by_exec:
  assumes "\<And>s db db'. plain s \<Longrightarrow> exec now s db = Inr db' \<Longrightarrow> P db \<Longrightarrow> P db'"
  shows "kept_by now all_statements P"
  unfolding kept_by_def using assms migrations_plain by blast

lemma level_ready: "ready (level k)"
proof -
  have "ready (level 1)" using fresh_ready prepared by simp
  then have "ready (snd (apply_migrations '''' (take (k - 1) migrations) (level 1)))"
    by (rule apply_migrations_inv[OF kept_by_exec, rotated 2]) (auto dest: in_set_takeD exec_keeps_ready)
  then show ?thesis unfolding level_eq[of k] .
qed

lemma similar_refl_level: "similar (level k) (level k)"
proof -
  have empty: "similar empty_database empty_database" by (simp add: similar_def empty_database_def)
  have "alike (and_also (prepare '''') (apply_migrations '''' (take (k - 1) migrations)))
      (and_also (prepare '''') (apply_migrations '''' (take (k - 1) migrations)))"
    by (intro alike_and_also prepare_alike apply_migrations_alike) (auto dest: in_set_takeD)
  from alikeD[OF this empty] show ?thesis by (simp add: level_def)
qed

section \<open>Which versions are recorded\<close>

lemma record_applied:
  assumes "exec now (record_version v False) db = Inr db'"
  shows "applied v db'"
proof -
  let ?r = "[(C_version, SqlInteger (int v))]"
  obtain t t' where t: "map_of (db_tables db) T_schema_migrations = Some t" "insert_sql now ?r False t = Inr t'"
    "db' = db\<lparr>db_tables := map (\<lambda>(m, u). (m, if m = T_schema_migrations then t' else u)) (db_tables db)\<rparr>"
    using assms by (auto simp: record_version_def with_table_Ok)
  from t(2) have cols: "C_version \<in> set (column_names t)" and t': "tb_rows t' = tb_rows t @ [full_row now t ?r]"
    by (auto simp: insert_sql_def Let_def split: if_splits)
  have "find (\<lambda>c. cl_name c = C_version) (tb_columns t) \<noteq> None"
    using cols by (auto simp: column_names_def find_None_iff)
  then have "cell (full_row now t ?r) C_version = SqlInteger (int v)" by (auto simp: cell_full_row)
  then show ?thesis using t t' by (auto simp: applied_def rows_of_def map_of_with)
qed

lemma execute_batch_last:
  "execute_batch now (ss @ [s]) db = (Inr u, db') \<Longrightarrow> \<exists>d. exec now s d = Inr db'"
proof -
  assume "execute_batch now (ss @ [s]) db = (Inr u, db')"
  then obtain d where "execute_batch now [s] d = (Inr (), db')" unfolding execute_batch_append and_also_Ok by blast
  then show ?thesis by (cases "exec now s d") (auto simp: execute_batch_Cons)
qed

lemma apply_migration_applied:
  assumes "apply_migration now (v, ss) db = (Inr u, db')"
  shows "applied v db'"
proof (cases "applied v db")
  case False
  then have "execute_batch now (ss @ [record_version v False]) db = (Inr u, db')"
    using assms by (simp add: apply_migration_def)
  then show ?thesis using execute_batch_last record_applied by blast
qed (use assms in \<open>simp add: apply_migration_def\<close>)

lemma apply_migrations_applied:
  assumes "apply_migrations now ms db = (Inr (), db')" "set ms \<subseteq> set migrations" "(v, ss) \<in> set ms"
  shows "applied v db'"
  using assms
proof (induction ms arbitrary: db)
  case (Cons m ms)
  obtain d where d: "apply_migration now m db = (Inr (), d)" "apply_migrations now ms d = (Inr (), db')"
    using Cons.prems(1) by (auto simp: and_also_Ok)
  show ?case
  proof (cases "(v, ss) = m")
    case True
    then have "applied v d" using d(1) apply_migration_applied by blast
    then have "applied v (snd (apply_migrations now ms d))"
      by (rule apply_migrations_inv[OF kept_by_exec, rotated 2]) (use Cons.prems(2) exec_keeps_applied in auto)
    then show ?thesis using d(2) by simp
  next
    case False
    then show ?thesis using Cons.IH[OF d(2)] Cons.prems by simp
  qed
qed simp

lemma level_applied: "(v, ss) \<in> set (take j migrations) \<Longrightarrow> applied v (level (j + 1))"
  using apply_migrations_applied[OF level_steps(1)[of j]] by (auto dest: in_set_takeD)

lemma skip_applied: "\<forall>(v, ss)\<in>set ms. applied v db \<Longrightarrow> apply_migrations now ms db = (Ok (), db)"
  by (induction ms) (auto simp: apply_migration_def and_also_def)

section \<open>Upgrading\<close>

lemma open_ready:
  assumes "ready db" "\<forall>(v, ss)\<in>set (take j migrations). applied v db"
  shows "migrate now db = apply_migrations now (drop j migrations) db"
proof -
  have "migrate now db = apply_migrations now (take j migrations @ drop j migrations) db"
    using prepare_ready[OF assms(1)] by (simp add: migrate_def and_also_def)
  also have "\<dots> = apply_migrations now (drop j migrations) db"
    unfolding apply_migrations_append using skip_applied[OF assms(2)] by (simp add: and_also_def)
  finally show ?thesis .
qed

lemma similar_level_state:
  assumes "similar db (level (j + 1))"
  shows "ready db" "\<forall>(v, ss)\<in>set (take j migrations). applied v db"
  using similar_ready[OF assms level_ready] level_applied similar_applied[OF assms] by auto

lemma upgrade_lemma:
  assumes "similar db (level k)"
  shows "fst (migrate now db) = Ok () \<and> similar (snd (migrate now db)) (level 15)"
proof -
  define j where "j = (if k = 0 then 0 else min (k - 1) 14)"
  have "level k = level (j + 1)"
    using level_top[of k] level_0 by (cases "k = 0"; cases "k \<le> 15") (simp_all add: j_def)
  then have sim: "similar db (level (j + 1))" using assms by simp
  note state = similar_level_state[OF sim]
  have "alike (apply_migrations now (drop j migrations)) (apply_migrations '''' (drop j migrations))"
    by (intro apply_migrations_alike) (auto dest: in_set_dropD)
  from alikeD[OF this sim] show ?thesis unfolding open_ready[OF state] level_steps(2) by simp
qed

text \<open>
  C36. An index of any version opens: from the schema of version \<open>k\<close>, with any rows, the migrations
  succeed and give the schema of a fresh index, with every version recorded.
\<close>

theorem every_version_upgrades:
  assumes "similar db (level k)"
  shows "fst (migrate now db) = Ok () \<and> similar (snd (migrate now db)) (level 15)"
  using assms by (rule upgrade_lemma)

text \<open>
  C35. Opening the index again changes nothing at all: after an index is open, every later \<open>open\<close>
  succeeds and leaves the whole database as it is.
\<close>

theorem opening_again_changes_nothing:
  assumes "similar db (level k)"
  shows "migrate later (snd (migrate now db)) = (Ok (), snd (migrate now db))"
proof -
  have "similar (snd (migrate now db)) (level (14 + 1))" using upgrade_lemma[OF assms] by simp
  note state = similar_level_state[OF this]
  show ?thesis using open_ready[OF state] by simp
qed

lemma empty_upgrades: "fst (migrate now empty_database) = Ok () \<and> similar (snd (migrate now empty_database)) (level 15)"
proof -
  have "similar empty_database empty_database" by (simp add: similar_def empty_database_def)
  from alikeD[OF migrate_alike[of now "''''"] this] fresh_index show ?thesis
    by (simp add: level_def migrate_def)
qed

section \<open>Interrupted migrations\<close>

text \<open>
  The database a crash leaves while a migration runs: \<open>n\<close> of its statements, the recording of its
  version among them, have committed.
\<close>

definition interrupted :: "string \<Rightarrow> nat \<times> sql_statement list \<Rightarrow> nat \<Rightarrow> database \<Rightarrow> database" where
  "interrupted now = (\<lambda>(v, ss) n db. snd (execute_batch now (take n (ss @ [record_version v False])) db))"

text \<open>The migrations that begin by adding a column, which no later run may do again.\<close>

definition blocking :: "nat \<Rightarrow> bool" where
  "blocking v = (v \<in> {2, 8, 13, 14})"

fun creating :: "sql_statement \<Rightarrow> bool" where
  "creating (CreateTable _ _ _) = True"
| "creating (CreateIndex _ _ _) = True"
| "creating _ = False"

lemma migration_shapes:
  assumes "(v, ss) \<in> set migrations"
  shows "\<forall>s\<in>set ss. \<forall>n r i. s \<noteq> InsertRow n r i"
    and "\<not> blocking v \<Longrightarrow> v \<noteq> 15 \<Longrightarrow> list_all creating ss"
    and "blocking v \<Longrightarrow> \<exists>n c rest. ss = AddColumn n c # rest \<and> list_all (keeps_column n (cl_name c)) rest"
    and "v = 15 \<Longrightarrow> ss = MIGRATION_15"
  using assms unfolding migrations_def blocking_def
  by (auto simp: migration_defs column_def required_def defaulted_def)

lemma migrations_nth: "i < 14 \<Longrightarrow> fst (migrations ! i) = i + 2"
proof -
  have "list_all (\<lambda>i. fst (migrations ! i) = i + 2) [0..<14]" by (simp add: migrations_def upt_rec)
  then show "i < 14 \<Longrightarrow> fst (migrations ! i) = i + 2" by (simp add: list_all_iff)
qed

lemma applied_rows: "rows_of T_schema_migrations db' = rows_of T_schema_migrations db \<Longrightarrow> applied v db' = applied v db"
  by (simp add: applied_def)

lemma exec_keeps_versions:
  assumes "plain s" "exec now s db = Inr db'" "\<And>n r i. s \<noteq> InsertRow n r i"
  shows "rows_of T_schema_migrations db' = rows_of T_schema_migrations db"
proof (cases s)
  case (CreateTable n cs k)
  then show ?thesis using assms(2) by (auto simp: rows_of_def map_add_def split: if_splits option.splits)
next
  case (CreateIndex i m cs)
  then show ?thesis using assms(2) by (auto simp: create_index_def and_then_eq_Ok rows_of_def split: if_splits)
next
  case (AddColumn m c)
  then show ?thesis using assms by (auto simp: with_table_Ok rows_of_def map_of_with)
next
  case (DropColumn m c)
  then show ?thesis using assms by (auto simp: with_table_Ok rows_of_def map_of_with split: if_splits)
next
  case (InsertOrReplaceSelect m k cs g)
  then show ?thesis using assms by (auto simp: with_table_Ok and_then_eq_Ok rows_of_def map_of_with split: if_splits)
qed (use assms in simp)

lemma exec_unrecorded:
  assumes "plain s" "exec now s db = Inr db'" "\<And>i. s \<noteq> record_version v i" "\<not> applied v db"
  shows "\<not> applied v db'"
proof (cases "\<exists>n r i. s = InsertRow n r i")
  case True
  then obtain n r i where s: "s = InsertRow n r i" by blast
  obtain t t' where t: "map_of (db_tables db) n = Some t" "insert_sql now r i t = Inr t'"
    "db' = db\<lparr>db_tables := map (\<lambda>(m, u). (m, if m = n then t' else u)) (db_tables db)\<rparr>"
    using assms(2) s by (auto simp: with_table_Ok)
  show ?thesis
  proof (cases "n = T_schema_migrations")
    case True
    with assms(1) s obtain w where r: "r = [(C_version, SqlInteger w)]" by auto
    have w: "w \<noteq> int v" using assms(3)[of i] s True r by (auto simp: record_version_def)
    have "cell (full_row now t r) C_version \<noteq> SqlInteger (int v)"
      using w r by (auto simp: cell_full_row split: option.splits)
    then have "\<forall>x\<in>set (tb_rows t'). x \<in> set (tb_rows t) \<or> cell x C_version \<noteq> SqlInteger (int v)"
      using t(2) by (auto simp: insert_sql_def Let_def split: if_splits)
    then show ?thesis using assms(4) t True by (auto simp: applied_def rows_of_def map_of_with)
  next
    case False
    then have "rows_of T_schema_migrations db' = rows_of T_schema_migrations db"
      using t by (simp add: rows_of_def map_of_with)
    then show ?thesis using assms(4) applied_rows by blast
  qed
next
  case False
  then have "rows_of T_schema_migrations db' = rows_of T_schema_migrations db"
    by (intro exec_keeps_versions[OF assms(1,2)]) blast
  then show ?thesis using assms(4) applied_rows by blast
qed

lemma batch_unrecorded:
  assumes "set ss \<subseteq> set all_statements" "\<And>i. record_version v i \<notin> set ss" "\<not> applied v db"
  shows "\<not> applied v (snd (execute_batch now ss db))"
proof -
  have "kept_by now ss (\<lambda>d. \<not> applied v d)"
    unfolding kept_by_def
  proof (intro ballI allI impI)
    fix s d d' assume s: "s \<in> set ss" "\<not> applied v d" "exec now s d = Ok d'"
    show "\<not> applied v d'"
      by (rule exec_unrecorded[OF _ s(3) _ s(2)]) (use s(1) assms(1,2) migrations_plain in auto)
  qed
  then show ?thesis using execute_batch_inv[of now ss "\<lambda>d. \<not> applied v d" db] assms(3) by simp
qed

lemma migration_statements: "(v, ss) \<in> set migrations \<Longrightarrow> set (ss @ [record_version v False]) \<subseteq> set all_statements"
  by (fastforce simp: all_statements_def)

lemma record_version_inj: "record_version v i = record_version w j \<longleftrightarrow> v = w \<and> i = j"
  by (auto simp: record_version_def)

lemma apply_migrations_unrecorded:
  assumes "set ms \<subseteq> set migrations" "v \<notin> fst ` set ms" "\<not> applied v db"
  shows "\<not> applied v (snd (apply_migrations now ms db))"
  using assms
proof (induction ms arbitrary: db)
  case (Cons m ms)
  obtain w ss where m: "m = (w, ss)" by (cases m)
  have mem: "(w, ss) \<in> set migrations" and w: "w \<noteq> v" using Cons.prems m by auto
  have "record_version v i \<notin> set (ss @ [record_version w False])" for i
    using migration_shapes(1)[OF mem] w by (auto simp: record_version_inj) (auto simp: record_version_def)
  then have "\<not> applied v (snd (apply_migration now m db))"
    using batch_unrecorded[OF migration_statements[OF mem]] Cons.prems(3) by (simp add: m apply_migration_def)
  then show ?case using Cons by (simp add: and_also_unfold split: sum.splits)
qed simp

lemma level_1_versions: "map (\<lambda>r. cell r C_version) (rows_of T_schema_migrations (snd (prepare '''' empty_database))) = [SqlInteger 1]"
  by code_simp

lemma level_unrecorded: "i < 14 \<Longrightarrow> \<not> applied (i + 2) (level (i + 1))"
proof -
  assume i: "i < 14"
  have "\<not> applied (i + 2) (level 1)"
    using level_1_versions prepared by (simp add: applied_iff)
  moreover have "i + 2 \<notin> fst ` set (take i migrations)"
  proof
    assume "i + 2 \<in> fst ` set (take i migrations)"
    then obtain j where "j < i" "fst (migrations ! j) = i + 2" by (auto simp: in_set_conv_nth)
    then show False using migrations_nth[of j] i by simp
  qed
  ultimately have "\<not> applied (i + 2) (snd (apply_migrations '''' (take i migrations) (level 1)))"
    by (intro apply_migrations_unrecorded) (auto dest: in_set_takeD)
  then show ?thesis unfolding level_eq[of "i + 1"] by simp
qed

lemma migration_of_level:
  assumes "i < 14" "migrations ! i = (v, ss)"
  shows "execute_batch '''' (ss @ [record_version v False]) (level (i + 1)) = (Ok (), level (i + 2))"
proof -
  have v: "v = i + 2" using migrations_nth[OF assms(1)] assms(2) by simp
  have "apply_migrations '''' (take i migrations @ [migrations ! i]) (level 1) = (Ok (), level (i + 1 + 1))"
    using level_steps(1)[of "i + 1"] assms(1) by (simp add: take_Suc_conv_app_nth)
  then have "apply_migrations '''' [(v, ss)] (level (i + 1)) = (Ok (), level (i + 2))"
    using level_steps(1)[of i] assms(2) unfolding apply_migrations_append and_also_Ok by simp
  then have "apply_migration '''' (v, ss) (level (i + 1)) = (Ok (), level (i + 2))"
    by (simp add: and_also_def split: prod.splits sum.splits)
  then show ?thesis using level_unrecorded[OF assms(1)] v by (simp add: apply_migration_def)
qed

text \<open>A prefix of creating statements can run again.\<close>

lemma creating_in_place:
  assumes "creating s" "exec now s db = Inr db'"
  shows "in_place s db'"
proof (cases s)
  case (CreateTable n cs k)
  then show ?thesis
    using assms(2) by (cases "map_of (db_tables db) n") (auto dest: map_of_SomeD intro: rev_image_eqI)
next
  case (CreateIndex i n cs)
  then show ?thesis using assms(2) by (auto simp: create_index_def and_then_eq_Ok split: if_splits)
qed (use assms(1) in simp_all)

lemma execute_batch_in_place:
  assumes "list_all creating ss" "execute_batch now ss db = (Inr (), d)"
  shows "\<forall>s\<in>set ss. in_place s d"
  using assms
proof (induction ss arbitrary: db)
  case (Cons s ss)
  then obtain db1 where step: "exec now s db = Inr db1" "execute_batch now ss db1 = (Inr (), d)"
    by (cases "exec now s db") (auto simp: execute_batch_Cons)
  have "in_place s db1" using creating_in_place step(1) Cons.prems(1) by simp
  then have "in_place s (snd (execute_batch now ss db1))"
    by (intro execute_batch_inv[of now ss "in_place s"]) (auto simp: kept_by_def intro: exec_keeps_in_place)
  then show ?case using Cons.IH[OF _ step(2)] Cons.prems(1) step(2) by simp
qed simp

text \<open>The state after an interruption before the version is recorded.\<close>

lemma interrupted_state:
  assumes i: "i < 14" "migrations ! i = (v, ss)" and sim: "similar db (level (i + 1))" and n: "n \<le> length ss"
    and d_def: "d = interrupted now (v, ss) n db"
  shows "execute_batch now (take n ss) db = (Ok (), d)"
    and "ready d" "\<not> applied v d" "\<forall>(w, ss)\<in>set (take i migrations). applied w d"
    and "\<exists>l. similar d l \<and> execute_batch '''' (drop n ss @ [record_version v False]) l = (Ok (), level (i + 2))"
proof -
  let ?rec = "[record_version v False]"
  have v: "v = i + 2" and mem: "(v, ss) \<in> set migrations"
    using migrations_nth[OF i(1)] i nth_mem[of i migrations] by auto
  have d: "d = snd (execute_batch now (take n ss) db)" using n by (simp add: d_def interrupted_def)
  have sub: "set (take n ss) \<subseteq> set all_statements"
    using migration_statements[OF mem] by (auto dest: in_set_takeD)
  have "execute_batch '''' (take n ss @ (drop n ss @ ?rec)) (level (i + 1)) = (Ok (), level (i + 2))"
    using migration_of_level[OF i] by (metis append.assoc append_take_drop_id)
  then obtain l where l: "execute_batch '''' (take n ss) (level (i + 1)) = (Ok (), l)"
    "execute_batch '''' (drop n ss @ ?rec) l = (Ok (), level (i + 2))"
    unfolding execute_batch_append[of _ "take n ss"] and_also_Ok by blast
  have "fst (execute_batch now (take n ss) db) = Ok () \<and> similar d l"
    using alikeD[OF batch_alike[OF sub] sim, of now "''''"] l(1) d by simp
  then show "execute_batch now (take n ss) db = (Ok (), d)"
    "\<exists>l. similar d l \<and> execute_batch '''' (drop n ss @ ?rec) l = (Ok (), level (i + 2))"
    using d l(2) by (metis prod.collapse, blast)
  note state = similar_level_state[OF sim]
  have keep: "P d" if "\<And>s db db'. plain s \<Longrightarrow> exec now s db = Inr db' \<Longrightarrow> P db \<Longrightarrow> P db'" "P db" for P
    unfolding d using execute_batch_inv[OF kept_by_subset[OF kept_by_exec sub]] that by blast
  show "ready d" by (rule keep[of ready, OF exec_keeps_ready state(1)])
  have "applied w d" if "applied w db" for w by (rule keep[of "applied w", OF exec_keeps_applied that])
  then show "\<forall>(w, ss)\<in>set (take i migrations). applied w d" using state(2) by auto
  show "\<not> applied v d" unfolding d
  proof (rule batch_unrecorded[OF sub])
    show "record_version v i \<notin> set (take n ss)" for i
      using migration_shapes(1)[OF mem] by (auto simp: record_version_def dest: in_set_takeD)
    show "\<not> applied v db" using level_unrecorded[OF i(1)] similar_applied[OF sim] v by simp
  qed
qed

lemma resume:
  assumes i: "i < 14" "migrations ! i = (v, ss)" and sim: "similar db (level (i + 1))"
    and n: "n \<le> length ss" and d_def: "d = interrupted now (v, ss) n db"
    and again: "execute_batch later (take n ss) d = (Ok (), d')" "similar d' d"
  shows "fst (migrate later d) = Ok () \<and> similar (snd (migrate later d)) (level 15)"
proof -
  let ?rec = "[record_version v False]"
  note state = interrupted_state[OF i sim n d_def]
  have mem: "(v, ss) \<in> set migrations" using i nth_mem[of i migrations] by auto
  obtain l where l: "similar d l" "execute_batch '''' (drop n ss @ ?rec) l = (Ok (), level (i + 2))"
    using state(5) by blast
  have sub: "set (drop n ss @ ?rec) \<subseteq> set all_statements"
    using migration_statements[OF mem] by (auto dest: in_set_dropD)
  have "execute_batch later (ss @ ?rec) d = execute_batch later (take n ss @ (drop n ss @ ?rec)) d"
    by (metis append.assoc append_take_drop_id)
  also have "\<dots> = execute_batch later (drop n ss @ ?rec) d'"
    unfolding execute_batch_append[of _ "take n ss"] using again(1) by (simp add: and_also_def)
  finally have one: "fst (apply_migration later (v, ss) d) = Ok ()" "similar (snd (apply_migration later (v, ss) d)) (level (i + 2))"
    using alikeD[OF batch_alike[OF sub] similar_trans[OF again(2) l(1)], of later "''''"] l(2) state(3) by (simp_all add: apply_migration_def)
  have "drop i migrations = (v, ss) # drop (i + 1) migrations" using i Cons_nth_drop_Suc[of i migrations] by simp
  then have mig: "migrate later d = apply_migrations later (drop (i + 1) migrations) (snd (apply_migration later (v, ss) d))"
    using open_ready[OF state(2,4)] one(1) by (simp add: and_also_unfold)
  have "alike (apply_migrations later (drop (i + 1) migrations)) (apply_migrations '''' (drop (i + 1) migrations))"
    by (intro apply_migrations_alike) (auto dest: in_set_dropD)
  from alikeD[OF this one(2)] show ?thesis using level_steps(2)[of "i + 1"] unfolding mig by simp
qed

text \<open>A column that was added stays and is refused the next time.\<close>

lemma blocked:
  assumes i: "i < 14" "migrations ! i = (v, ss)" and sim: "similar db (level (i + 1))"
    and n: "0 < n" "n \<le> length ss" and blocking: "blocking v"
    and d_def: "d = interrupted now (v, ss) n db"
  shows "migrate later d = (Err SqliteSchema, d)"
proof -
  note state = interrupted_state[OF i sim n(2) d_def]
  have mem: "(v, ss) \<in> set migrations" using i nth_mem[of i migrations] by auto
  obtain t c rest where ss: "ss = AddColumn t c # rest" "list_all (keeps_column t (cl_name c)) rest"
    using migration_shapes(3)[OF mem blocking] by blast
  obtain k where k: "n = Suc k" using n(1) by (cases n) auto
  obtain d1 where d1: "exec now (AddColumn t c) db = Inr d1" "execute_batch now (take k rest) d1 = (Ok (), d)"
    using state(1) unfolding ss(1) k take_Suc_Cons execute_batch_Cons
    by (cases "exec now (AddColumn t c) db") (simp_all del: exec.simps)
  have "has_column t (cl_name c) d1"
    using d1(1) by (auto simp: with_table_Ok has_column_def table_of_def map_of_with add_column_def column_names_def split: if_splits)
  moreover have "kept_by now (take k rest) (has_column t (cl_name c))"
    unfolding kept_by_def using ss(2) exec_keeps_column by (meson in_set_takeD list_all_iff)
  ultimately have "has_column t (cl_name c) (snd (execute_batch now (take k rest) d1))"
    by (rule execute_batch_inv[of now "take k rest" "has_column t (cl_name c)" d1, rotated])
  then have "exec later (AddColumn t c) d = Err SqliteSchema"
    using d1(2) by (auto simp: has_column_def table_of_def with_table_def add_column_def split: option.splits)
  then have "apply_migration later (v, ss) d = (Err SqliteSchema, d)"
    using state(3) ss(1) by (simp add: apply_migration_def execute_batch_Cons del: exec.simps)
  moreover have "drop i migrations = (v, ss) # drop (i + 1) migrations" using i Cons_nth_drop_Suc[of i migrations] by simp
  ultimately show ?thesis using open_ready[OF state(2,4)] by (simp add: and_also_def)
qed

text \<open>The last migration copies rows after it creates its table; copying again gives the same schema.\<close>

lemma copy_again:
  assumes "plain s" "s = InsertOrReplaceSelect n m cs g" "n \<noteq> m" "exec now s db = Inr d" "similar d d"
  shows "\<exists>d'. exec later s d = Inr d' \<and> similar d' d"
proof -
  have plain: "n = T_source_provenance" "cs = [C_source_unit_id, C_provenance_blob]" "g = C_provenance_blob"
    using assms(1,2) by simp_all
  obtain u t t' where u: "map_of (db_tables db) m = Some u" "set (g # cs) \<subseteq> set (column_names u)"
    and t: "map_of (db_tables db) n = Some t"
    and d: "d = db\<lparr>db_tables := map (\<lambda>(k, x). (k, if k = n then t' else x)) (db_tables db)\<rparr>"
    using assms(2,4) by (auto simp: table_of_def with_table_Ok and_then_eq_Ok split: if_splits option.splits)
  have tables: "map_of (db_tables d) m = Some u" "map_of (db_tables d) n = Some t'"
    using u(1) t d assms(3) by (simp_all add: map_of_with)
  have "similar_table n t' t'"
    using assms(5) tables(2) by (cases rule: similar_lookup_cases[where n = n]) auto
  moreover have "\<forall>r\<in>set (selected_rows cs g u). map fst r = [C_source_unit_id, C_provenance_blob] \<and> cell r C_provenance_blob \<noteq> SqlNull"
    by (auto simp: selected_rows_def plain cell_def)
  ultimately obtain w where w: "for_each (replace_sql later) (selected_rows cs g u) t' = Ok w" "similar_table n w t'"
    using replace_provenance plain(1) by metis
  have "similar (d\<lparr>db_tables := map (\<lambda>(k, x). (k, if k = n then w else x)) (db_tables d)\<rparr>)
      (d\<lparr>db_tables := map (\<lambda>(k, x). (k, if k = n then t' else x)) (db_tables d)\<rparr>)"
    by (rule similar_update[OF assms(5) w(2)])
  moreover have "d\<lparr>db_tables := map (\<lambda>(k, x). (k, if k = n then t' else x)) (db_tables d)\<rparr> = d"
    using d by (simp add: comp_def case_prod_unfold)
  ultimately show ?thesis using assms(2) tables u(2) w(1) by (simp add: table_of_def with_table_def)
qed

lemma execute_two:
  "execute_batch now [a, b] db = (Inr (), d) \<longleftrightarrow> (\<exists>d1. exec now a db = Inr d1 \<and> exec now b d1 = Inr d)"
  by (auto simp: execute_batch_Cons simp del: exec.simps split: sum.splits)

lemma copied_twice:
  assumes "execute_batch now MIGRATION_15 db = (Inr (), d)" "similar d d"
  shows "\<exists>d'. execute_batch later MIGRATION_15 d = (Inr (), d') \<and> similar d' d"
proof -
  obtain a b where ss: "MIGRATION_15 = [a, b]" "creating a" "b = InsertOrReplaceSelect T_source_provenance T_source_snapshots
      [C_source_unit_id, C_provenance_blob] C_provenance_blob"
    by (simp add: MIGRATION_15_def)
  then have plain: "plain b" by simp
  obtain d1 where d1: "exec now a db = Inr d1" "exec now b d1 = Inr d"
    using assms(1) unfolding ss(1) execute_two by blast
  have "in_place a d" using creating_in_place[OF ss(2) d1(1)] exec_keeps_in_place[OF d1(2)] by simp
  then have "exec later a d = Inr d" using in_place_batch[of "[a]" d later] by (auto simp: execute_batch_Cons split: sum.splits)
  moreover obtain d' where "exec later b d = Inr d'" "similar d' d"
    using copy_again[OF plain ss(3) _ d1(2) assms(2)] by auto
  ultimately show ?thesis unfolding ss(1) execute_two by blast
qed

text \<open>
  C37. A crash in the middle of an upgrade. After \<open>n\<close> statements of the migration to version
  \<open>i + 2\<close> have committed, the next \<open>open\<close> completes the upgrade, unless the migration is one of 2, 8,
  13 and 14 and its column was added without its version being recorded: then every later \<open>open\<close>
  fails on the column that is already there and leaves the index as it is.
\<close>

theorem crash_during_upgrade:
  assumes "i < 14" "migrations ! i = (v, ss)" "similar db (level (i + 1))" "n \<le> length ss + 1"
    and "d = interrupted now (v, ss) n db"
  shows "if blocking v \<and> 0 < n \<and> n \<le> length ss
    then migrate later d = (Err SqliteSchema, d)
    else fst (migrate later d) = Ok () \<and> similar (snd (migrate later d)) (level 15)"
proof -
  have mem: "(v, ss) \<in> set migrations" using assms(1,2) nth_mem[of i migrations] by auto
  have v: "v = i + 2" using migrations_nth[OF assms(1)] assms(2) by simp
  consider "blocking v" "0 < n" "n \<le> length ss" | "n = length ss + 1" | "n = 0"
    | "\<not> blocking v" "n \<le> length ss" "0 < n" using assms(4) by linarith
  then show ?thesis
  proof cases
    case 1
    then show ?thesis using blocked[OF assms(1-3) _ _ _ assms(5)] by simp
  next
    case 2
    have "d = snd (execute_batch now (ss @ [record_version v False]) db)"
      using assms(5) 2 by (simp add: interrupted_def)
    then have "similar d (level (i + 2))"
      using alikeD[OF batch_alike[OF migration_statements[OF mem]] assms(3), of now "''''"]
        migration_of_level[OF assms(1,2)] by simp
    then show ?thesis using upgrade_lemma 2 by simp
  next
    case 3
    then have "d = db" using assms(5) by (simp add: interrupted_def)
    then show ?thesis using upgrade_lemma[OF assms(3)] 3 by simp
  next
    case 4
    note state = interrupted_state[OF assms(1-3) 4(2) assms(5)]
    obtain l where l: "similar d l" using state(5) by blast
    then have refl: "similar d d" using similar_sym similar_trans by blast
    have "\<exists>d'. execute_batch later (take n ss) d = (Ok (), d') \<and> similar d' d"
    proof (cases "list_all creating (take n ss)")
      case True
      then show ?thesis using in_place_batch[OF execute_batch_in_place[OF True state(1)]] refl by blast
    next
      case False
      then have "v = 15" using migration_shapes(2)[OF mem 4(1)] by (auto simp: list_all_iff dest: in_set_takeD)
      then have ss: "ss = MIGRATION_15" using migration_shapes(4)[OF mem] by simp
      have "take n ss = MIGRATION_15" using False 4(2,3) ss by (cases n; cases "n - 1") (auto simp: MIGRATION_15_def)
      then show ?thesis using copied_twice state(1) refl by metis
    qed
    then show ?thesis using resume[OF assms(1-3) 4(2) assms(5)] 4 by auto
  qed
qed

theorem crash_during_upgrade_witness:
  "migrate ''later'' (interrupted ''now'' (8, MIGRATION_8) 1 (level 7)) = (Err SqliteSchema, interrupted ''now'' (8, MIGRATION_8) 1 (level 7))"
proof -
  have "migrations ! 6 = (8, MIGRATION_8)" by (simp add: migrations_def)
  from crash_during_upgrade[OF _ this, of "level 7" 1 _ "''now''" "''later''"] show ?thesis
    using similar_refl_level[of 7] by (simp add: blocking_def MIGRATION_8_def)
qed

theorem every_version_upgrades_witness:
  "fst (migrate ''now'' (level 3)) = Ok () \<and> similar (snd (migrate ''now'' (level 3))) (level 15)"
  by (rule every_version_upgrades[OF similar_refl_level])

theorem opening_again_changes_nothing_witness:
  "migrate ''later'' (snd (migrate ''now'' (level 3))) = (Ok (), snd (migrate ''now'' (level 3)))"
  by (rule opening_again_changes_nothing[OF similar_refl_level])

end
