(* ===== verification/Messages.thy ===== *)
theory Messages
  imports Protocol
begin

text \<open>
  The control-plane messages of \<open>crates/kide-core/src/protocol.rs\<close> that Core exchanges with a
  worker, and the rule that decides whether two protocol versions are compatible. A message the
  transport carries is an envelope: version, request id and one message.
\<close>

section \<open>Requests and responses\<close>

record handshake_request =
  hq_core_version :: string

record handshake_response =
  hr_capabilities :: worker_capabilities

record project_manifest_request =
  mq_workspace_root :: workspace_path

record opaque_execution_plan =
  ep_backend :: string
  ep_resolved_fingerprint :: fingerprint
  ep_payload :: string

record project_manifest_response =
  mr_manifest :: project_manifest
  mr_execution_plan :: opaque_execution_plan

datatype analysis_fact =
  FactSymbols | FactOccurrences | FactReferences | FactCalls | FactHierarchy | FactTypes

record analyze_batch_request =
  bq_workspace :: workspace_id
  bq_project_fingerprint :: fingerprint
  bq_requested_facts :: "analysis_fact list"
  bq_source_units :: "source_unit list"
  bq_execution_plan :: opaque_execution_plan

record phase_timing =
  pt_phase :: string
  pt_elapsed_millis :: u64

record worker_metric =
  wm_name :: string
  wm_value :: u64

record artifact_candidate =
  ac_locator :: string
  ac_component :: component_id
  ac_context :: fingerprint

record analysis_batch_response =
  br_snapshots :: "file_analysis_snapshot list"
  br_timings :: "phase_timing list"
  br_artifact_candidates :: "artifact_candidate list"
  br_metrics :: "worker_metric list"

record artifact_analysis_request =
  aq_workspace_root :: workspace_path
  aq_max_artifacts :: u32
  aq_cursor :: "string option"

record artifact_analysis_response =
  as_snapshots :: "file_analysis_snapshot list"
  as_next_cursor :: "string option"

record artifact_discovery_request =
  dq_workspace_root :: workspace_path
  dq_max_artifacts :: u32
  dq_cursor :: "string option"
  dq_execution_plan :: opaque_execution_plan

record artifact_locator =
  al_source_unit :: source_unit_id
  al_locator :: string

record artifact_discovery_response =
  dr_artifacts :: "artifact_descriptor list"
  dr_next_cursor :: "string option"
  dr_artifact_locators :: "artifact_locator list"

record artifact_materialization_request =
  xq_workspace_root :: workspace_path
  xq_artifact :: artifact_descriptor
  xq_staging_directory :: string
  xq_blob_format_version :: u32
  xq_artifact_locator :: "string option"

record artifact_materialization_response =
  xr_staged_filename :: string
  xr_byte_length :: u64
  xr_sha256 :: fingerprint
  xr_blob_format_version :: u32
  xr_timings :: "phase_timing list"
  xr_metrics :: "worker_metric list"

record analysis_delta =
  da_source_unit :: source_unit_id
  da_previous_content :: "fingerprint option"
  da_snapshot :: "file_analysis_snapshot option"

datatype worker_error_code =
  IncompatibleProtocolVersion | InvalidRequest | UnsupportedCapability | AnalysisFailed | Internal

record worker_error =
  we_code :: worker_error_code
  we_message :: string
  we_retryable :: bool
  we_supported_protocol_version :: u32
  we_received_protocol_version :: "u32 option"

datatype worker_message =
  MsgHandshakeRequest handshake_request
| MsgHandshakeResponse handshake_response
| MsgProjectManifestRequest project_manifest_request
| MsgProjectManifestResponse project_manifest_response
| MsgAnalyzeBatchRequest analyze_batch_request
| MsgAnalysisBatchResponse analysis_batch_response
| MsgArtifactAnalysisRequest artifact_analysis_request
| MsgArtifactAnalysisResponse artifact_analysis_response
| MsgArtifactDiscoveryRequest artifact_discovery_request
| MsgArtifactDiscoveryResponse artifact_discovery_response
| MsgArtifactMaterializationRequest artifact_materialization_request
| MsgArtifactMaterializationResponse artifact_materialization_response
| MsgSemanticQueryRequest semantic_query_request
| MsgSemanticQueryResponse semantic_query_response
| MsgAnalysisDelta analysis_delta
| MsgError worker_error

record worker_envelope =
  env_protocol_version :: u32
  env_request_id :: string
  env_message :: worker_message

section \<open>Versions\<close>

definition incompatible_protocol_version :: "u32 \<Rightarrow> worker_error" where
  "incompatible_protocol_version received =
     \<lparr> we_code = IncompatibleProtocolVersion,
       we_message = ''worker protocol version '' @ decimal (unat received)
         @ '' is incompatible; supported version is '' @ decimal (unat WORKER_PROTOCOL_VERSION),
       we_retryable = False, we_supported_protocol_version = WORKER_PROTOCOL_VERSION,
       we_received_protocol_version = Some received \<rparr>"

definition ensure_compatible_protocol_version :: "u32 \<Rightarrow> (worker_error, unit) result" where
  "ensure_compatible_protocol_version version =
     (if version = WORKER_PROTOCOL_VERSION then Ok () else Err (incompatible_protocol_version version))"

definition new_envelope :: "string \<Rightarrow> worker_message \<Rightarrow> worker_envelope" where
  "new_envelope request_id message =
     \<lparr> env_protocol_version = WORKER_PROTOCOL_VERSION, env_request_id = request_id, env_message = message \<rparr>"

definition validate_protocol_version :: "worker_envelope \<Rightarrow> (worker_error, unit) result" where
  "validate_protocol_version e = ensure_compatible_protocol_version (env_protocol_version e)"

end
