(* ===== verification/Framing.thy ===== *)
theory Framing
  imports Bytes
begin

text \<open>
  The frames of the worker transport (\<open>crates/kide-core/src/lib.rs\<close>, module \<open>worker_framing\<close>): a
  protobuf message behind its length as an unsigned varint. The protobuf codec is third-party code
  and a parameter: \<open>enc\<close> is \<open>Message::encode\<close>, whose length is \<open>encoded_len\<close>, and \<open>dec\<close> is
  \<open>Message::decode\<close>. A reader is the list of bytes it still delivers.
\<close>

unbundle bit_operations_syntax

section \<open>Operations\<close>

datatype frame_error = FrameIo | InvalidLength | LengthMismatch | FrameDecode

text \<open>\<open>u64::from(byte)\<close> and \<open>length as u8\<close>.\<close>

definition byte_u64 :: "char \<Rightarrow> u64" where
  "byte_u64 c = of_nat (byte c)"

definition low_byte :: "u64 \<Rightarrow> char" where
  "low_byte w = char_of (unat w)"

function encode_length :: "u64 \<Rightarrow> string" where
  "encode_length l =
     (if l \<ge> 0x80 then low_byte ((l AND 0xFF) OR 0x80) # encode_length (drop_bit 7 l)
      else [low_byte l])"
  by pat_completeness auto

lemma drop_bit_7_unat: "unat (drop_bit 7 l) = unat l div 128" for l :: u64
  by (simp add: drop_bit_eq_div unat_div)

termination encode_length
proof (relation "measure unat")
  show "(drop_bit 7 l, l) \<in> measure unat" if "0x80 \<le> l" for l :: u64
  proof -
    have "128 \<le> unat l" using that by (simp add: word_le_nat_alt)
    then show ?thesis by (simp add: drop_bit_7_unat)
  qed
qed simp

declare encode_length.simps [simp del]

definition encode_frame :: "('e \<Rightarrow> string) \<Rightarrow> 'e \<Rightarrow> string" where
  "encode_frame enc e = encode_length (of_nat (length (enc e))) @ enc e"

text \<open>The length and the number of bytes it took; the loop also ends when the bytes do.\<close>

fun decode_length :: "string \<Rightarrow> u64 \<Rightarrow> nat \<Rightarrow> nat \<Rightarrow> (frame_error, u64 \<times> nat) result" where
  "decode_length [] l shift offset = Ok (l, offset)"
| "decode_length (c # cs) l shift offset =
     (let l = l OR push_bit shift (byte_u64 c AND 0x7F)
      in if byte_u64 c AND 0x80 = 0 then Ok (l, offset + 1)
         else if shift + 7 \<ge> 64 then Err InvalidLength
         else decode_length cs l (shift + 7) (offset + 1))"

definition decode_frame :: "(string \<Rightarrow> 'e option) \<Rightarrow> string \<Rightarrow> (frame_error, 'e) result" where
  "decode_frame dec frame =
     and_then (decode_length frame 0 0 0) (\<lambda>(l, offset).
       if unat l \<noteq> length (drop offset frame) then Err LengthMismatch
       else (case dec (drop offset frame) of None \<Rightarrow> Err FrameDecode | Some e \<Rightarrow> Ok e))"

text \<open>The prefix of a frame read byte by byte, at most ten bytes.\<close>

function read_prefix :: "string \<Rightarrow> string \<Rightarrow> (frame_error, string \<times> string) result" where
  "read_prefix prefix input =
     (if prefix \<noteq> [] \<and> byte_u64 (last prefix) AND 0x80 \<noteq> 0 then
        if length prefix = 10 then Err InvalidLength
        else (case input of [] \<Rightarrow> Err FrameIo | c # input \<Rightarrow> read_prefix (prefix @ [c]) input)
      else Ok (prefix, input))"
  by pat_completeness auto

termination read_prefix
  by (relation "measure (\<lambda>(prefix, input). length input)") auto

declare read_prefix.simps [simp del]

text \<open>\<open>for (index, byte) in prefix.iter().enumerate() { length |= .. << (index * 7) }\<close>\<close>

fun prefix_length :: "nat \<Rightarrow> string \<Rightarrow> u64 \<Rightarrow> u64" where
  "prefix_length index [] l = l"
| "prefix_length index (c # cs) l =
     prefix_length (index + 1) cs (l OR push_bit (index * 7) (byte_u64 c AND 0x7F))"

text \<open>
  \<^const>\<open>None\<close> is the panic of an allocation above \<open>isize::MAX\<close> bytes. A result carries the input left
  for the next frame; an end of the input before a frame is \<open>Ok None\<close>.
\<close>

definition read_frame ::
    "(string \<Rightarrow> 'e option) \<Rightarrow> string \<Rightarrow> (frame_error, 'e option \<times> string) result option" where
  "read_frame dec input =
     (case input of
        [] \<Rightarrow> Some (Ok (None, []))
      | c # input \<Rightarrow>
          (case read_prefix [c] input of
             Inl e \<Rightarrow> Some (Err e)
           | Inr (prefix, input) \<Rightarrow>
               let l = unat (prefix_length 0 prefix 0)
               in if l \<ge> 2 ^ 63 then None
                  else if length input < l then Some (Err FrameIo)
                  else (case dec (take l input) of
                          None \<Rightarrow> Some (Err FrameDecode)
                        | Some e \<Rightarrow> Some (Ok (Some e, drop l input)))))"

section \<open>The varint\<close>

lemma byte_u64_and: "unat (byte_u64 c AND 0x7F) = byte c mod 128"
    "byte_u64 c AND 0x80 = 0 \<longleftrightarrow> byte c < 128"
proof -
  have b: "byte c < 256" by simp
  then have "byte c < 2 ^ 64" by (rule less_trans) simp
  then have "byte c mod 2 ^ 64 = byte c" by (rule mod_less)
  then have u: "unat (byte_u64 c) = byte c" by (simp add: byte_u64_def unat_of_nat)
  have "(0x7F :: u64) = mask 7" by (simp add: mask_eq_exp_minus_1)
  then have "unat (byte_u64 c AND 0x7F) = unat (take_bit 7 (byte_u64 c))" by (simp add: take_bit_eq_mask)
  then show "unat (byte_u64 c AND 0x7F) = byte c mod 128" by (simp add: u take_bit_eq_mod unat_mod)
  have "byte_u64 c AND 0x80 = 0 \<longleftrightarrow> \<not> bit (byte_u64 c) 7"
  proof -
    show ?thesis using and_exp_eq_0_iff_not_bit[of "byte_u64 c" 7] by simp
  qed
  also have "\<dots> \<longleftrightarrow> byte c < 128"
  proof -
    have "bit (byte_u64 c) 7 = bit (unat (byte_u64 c)) 7" by (simp add: bit_unsigned_iff)
    also have "\<dots> = odd (byte c div 128)" by (simp add: u bit_iff_odd)
    also have "\<dots> \<longleftrightarrow> 128 \<le> byte c"
    proof (cases "128 \<le> byte c")
      case True
      then have "byte c div 128 = 1" using b by (intro div_nat_eqI) simp_all
      then show ?thesis using True by simp
    qed simp
    finally show ?thesis by auto
  qed
  finally show "byte_u64 c AND 0x80 = 0 \<longleftrightarrow> byte c < 128" .
qed

text \<open>The varint of a natural number: seven bits per byte, the least significant first.\<close>

fun varint :: "nat \<Rightarrow> string" where
  "varint n = (if n \<ge> 128 then char_of (128 + n mod 128) # varint (n div 128) else [char_of n])"

declare varint.simps [simp del]

lemma or_top_bit: "take_bit (Suc k) m OR push_bit k 1 = take_bit k m + 2 ^ k" for m :: nat
proof -
  have "take_bit (Suc k) m OR push_bit k 1 = take_bit k m OR push_bit k 1"
    by (rule bit_eqI) (auto simp: bit_simps less_Suc_eq)
  also have "\<dots> = take_bit k m + push_bit k 1"
    by (rule disjunctive_add_eq_or [symmetric]) (rule bit_eqI, auto simp: bit_simps)
  finally show ?thesis by (simp add: push_bit_eq_mult)
qed

lemma low_byte_or: "byte (low_byte ((l AND 0xFF) OR 0x80)) = 128 + unat l mod 128"
proof -
  have ff: "(0xFF :: u64) = mask 8" by (simp add: mask_eq_exp_minus_1)
  have "unat ((l AND 0xFF) OR 0x80) = unat (take_bit 8 l OR push_bit 7 1)"
    by (simp add: ff take_bit_eq_mask)
  also have "\<dots> = take_bit 8 (unat l) OR push_bit 7 1"
    by (simp add: unsigned_or_eq unsigned_take_bit_eq)
  also have "\<dots> = 128 + unat l mod 128"
    using or_top_bit[of 7 "unat l"] by (simp add: take_bit_eq_mod)
  finally show ?thesis by (simp add: low_byte_def)
qed

lemma encode_length_varint: "encode_length l = varint (unat l)"
proof (induction l rule: encode_length.induct)
  case (1 l)
  show ?case
  proof (cases "0x80 \<le> l")
    case True
    then have "128 \<le> unat l" by (simp add: word_le_nat_alt)
    moreover have "low_byte ((l AND 0xFF) OR 0x80) = char_of (128 + unat l mod 128)"
      using low_byte_or[of l] by (metis char_of_char)
    ultimately show ?thesis
      using 1 True by (simp add: encode_length.simps[of l] varint.simps[of "unat l"] drop_bit_7_unat)
  next
    case False
    then have "\<not> 128 \<le> unat l" by (simp add: word_le_nat_alt)
    then show ?thesis
      using False by (simp add: encode_length.simps[of l] varint.simps[of "unat l"] low_byte_def)
  qed
qed

text \<open>Or-ing seven more bits above the ones collected so far adds them.\<close>

lemma or_step:
  fixes l b :: u64
  assumes "unat l < 2 ^ shift" "unat b * 2 ^ shift < 2 ^ 64"
  shows "unat (l OR push_bit shift b) = unat l + unat b * 2 ^ shift"
proof -
  have "unat (push_bit shift b) = take_bit 64 (push_bit shift (unat b))"
    by (simp add: unsigned_push_bit_eq)
  also have "\<dots> = push_bit shift (unat b)"
    using assms(2) by (intro take_bit_nat_eq_self) (simp add: push_bit_eq_mult)
  finally have "unat (push_bit shift b) = push_bit shift (unat b)" .
  moreover have "unat l OR push_bit shift (unat b) = unat l + push_bit shift (unat b)"
  proof (rule disjunctive_add_eq_or [symmetric], rule bit_eqI)
    fix i
    have "unat l = take_bit shift (unat l)" using assms(1) by (simp add: take_bit_eq_mod)
    then have "bit (unat l) i \<Longrightarrow> i < shift" by (metis bit_take_bit_iff)
    then show "bit (unat l AND push_bit shift (unat b)) i = bit 0 i" by (auto simp: bit_simps)
  qed
  ultimately have "unat (l OR push_bit shift b) = unat l + push_bit shift (unat b)"
    by (simp add: unsigned_or_eq)
  then show ?thesis by (simp add: push_bit_eq_mult)
qed

lemma varint_shift_bound:
  fixes n :: nat
  assumes "128 \<le> n" "n * 2 ^ shift < 2 ^ 64"
  shows "shift + 7 < (64 :: nat)"
proof (rule ccontr)
  assume "\<not> shift + 7 < 64"
  then have "(2 :: nat) ^ 64 \<le> 2 ^ (7 + shift)" by (intro power_increasing) auto
  also have "\<dots> = 128 * 2 ^ shift" by (simp add: power_add)
  also have "\<dots> \<le> n * 2 ^ shift" using assms(1) by simp
  finally show False using assms(2) by simp
qed

lemma decode_length_varint:
  assumes "unat l < 2 ^ shift" "n * 2 ^ shift < 2 ^ 64"
  shows "\<exists>w. decode_length (varint n @ rest) l shift offset = Ok (w, offset + length (varint n))
    \<and> unat w = unat l + n * 2 ^ shift"
  using assms
proof (induction n arbitrary: l shift offset rule: varint.induct)
  case (1 n)
  show ?case
  proof (cases "128 \<le> n")
    case True
    let ?c = "char_of (128 + n mod 128)"
    have c: "byte ?c = 128 + n mod 128" by simp
    let ?b = "byte_u64 ?c AND 0x7F"
    have b: "unat ?b = n mod 128" using byte_u64_and(1)[of ?c] by simp
    have more: "byte_u64 ?c AND 0x80 \<noteq> 0" using byte_u64_and(2)[of ?c] by simp
    have nb: "n mod 128 * 2 ^ shift < 2 ^ 64"
      using 1(3) by (meson le_less_trans mod_less_eq_dividend mult_le_mono1)
    let ?l = "l OR push_bit shift ?b"
    have l: "unat ?l = unat l + n mod 128 * 2 ^ shift" using or_step[OF 1(2), of ?b] nb b by simp
    have "n mod 128 * 2 ^ shift \<le> 127 * 2 ^ shift" by (intro mult_right_mono) simp_all
    then have "unat ?l < 2 ^ shift + 127 * 2 ^ shift" using l 1(2) by linarith
    then have bound: "unat ?l < 2 ^ (shift + 7)" by (simp add: power_add)
    have rest: "n div 128 * 2 ^ (shift + 7) < 2 ^ 64"
    proof -
      have "n div 128 * 2 ^ (shift + 7) = (128 * (n div 128)) * 2 ^ shift" by (simp add: power_add)
      also have "\<dots> \<le> n * 2 ^ shift" by (intro mult_right_mono) simp_all
      finally show ?thesis using 1(3) by simp
    qed
    from 1(1)[OF True bound rest, of "offset + 1"] obtain w where
      w: "decode_length (varint (n div 128) @ rest) ?l (shift + 7) (offset + 1)
          = Ok (w, offset + 1 + length (varint (n div 128)))"
      "unat w = unat ?l + n div 128 * 2 ^ (shift + 7)" by blast
    have add: "r * 2 ^ shift + q * 2 ^ (shift + 7) = (r + 128 * q) * 2 ^ shift" for r q :: nat
      by (simp add: power_add algebra_simps)
    have "n mod 128 * 2 ^ shift + n div 128 * 2 ^ (shift + 7) = n * 2 ^ shift"
      using add[of "n mod 128" "n div 128"] by simp
    then show ?thesis
      using w l more varint_shift_bound[OF True 1(3)] True by (simp add: varint.simps[of n] Let_def)
  next
    case False
    then have c: "byte (char_of n) = n" by simp
    then have "byte_u64 (char_of n) AND 0x80 = 0" using byte_u64_and(2)[of "char_of n"] False by simp
    moreover have "unat (byte_u64 (char_of n) AND 0x7F) = n" using byte_u64_and(1)[of "char_of n"] c False by simp
    ultimately show ?thesis
      using or_step[OF 1(2), of "byte_u64 (char_of n) AND 0x7F"] 1(3) False by (simp add: varint.simps[of n] Let_def)
  qed
qed

text \<open>A reader that continues until a byte without the top bit reads exactly a varint.\<close>

lemma varint_length: "n < 128 ^ Suc k \<Longrightarrow> length (varint n) \<le> Suc k"
proof (induction k arbitrary: n)
  case 0
  then show ?case by (simp add: varint.simps[of n])
next
  case (Suc k)
  have "n div 128 < 128 ^ Suc k" using Suc.prems by (simp add: less_mult_imp_div_less)
  from Suc.IH[OF this] show ?case by (simp add: varint.simps[of n])
qed

lemma varint_nonempty: "varint n \<noteq> []"
  by (simp add: varint.simps[of n])

lemma read_prefix_varint:
  assumes "length prefix + length (varint n) \<le> 10"
    and "prefix = [] \<or> byte (last prefix) \<ge> 128"
  shows "read_prefix (prefix @ [hd (varint n)]) (tl (varint n) @ rest) = Ok (prefix @ varint n, rest)"
  using assms
proof (induction n arbitrary: prefix rule: varint.induct)
  case (1 n)
  show ?case
  proof (cases "128 \<le> n")
    case True
    let ?c = "char_of (128 + n mod 128)"
    have v: "varint n = ?c # varint (n div 128)" using True by (simp add: varint.simps[of n])
    have c: "128 \<le> byte ?c" by simp
    then have more: "byte_u64 ?c AND 0x80 \<noteq> 0" using byte_u64_and(2)[of ?c] by simp
    obtain d ds where ds: "varint (n div 128) = d # ds" using varint_nonempty by (cases "varint (n div 128)") auto
    have "length (prefix @ [?c]) < 10" using 1(2) v ds by simp
    then have "read_prefix (prefix @ [?c]) (varint (n div 128) @ rest)
        = read_prefix ((prefix @ [?c]) @ [hd (varint (n div 128))]) (tl (varint (n div 128)) @ rest)"
      using more ds by (simp add: read_prefix.simps[of "prefix @ [?c]"])
    also have "\<dots> = Ok ((prefix @ [?c]) @ varint (n div 128), rest)"
      by (rule 1(1)[OF True]) (use 1(2) v c in auto)
    finally show ?thesis by (simp add: v)
  next
    case False
    then have v: "varint n = [char_of n]" by (simp add: varint.simps[of n])
    have "byte_u64 (char_of n) AND 0x80 = 0" using byte_u64_and(2)[of "char_of n"] False by simp
    then show ?thesis by (simp add: v read_prefix.simps)
  qed
qed

text \<open>The two decoders compute the same length.\<close>

lemma prefix_length_decode:
  "decode_length cs l (index * 7) offset = Ok (w, n) \<Longrightarrow> n = offset + length cs \<Longrightarrow> prefix_length index cs l = w"
proof (induction cs arbitrary: l index offset)
  case (Cons c cs)
  let ?l = "l OR push_bit (index * 7) (byte_u64 c AND 0x7F)"
  show ?case
  proof (cases "byte_u64 c AND 0x80 = 0")
    case True
    then show ?thesis using Cons.prems by (simp add: Let_def)
  next
    case False
    then have "decode_length cs ?l ((index + 1) * 7) (offset + 1) = Ok (w, n)"
      using Cons.prems(1) by (simp add: Let_def add.commute split: if_splits)
    then show ?thesis using Cons.IH[of ?l "index + 1" "offset + 1"] Cons.prems(2) by simp
  qed
qed simp

section \<open>Frames\<close>

lemma of_nat_length: "n < 2 ^ 64 \<Longrightarrow> unat (of_nat n :: u64) = n"
  by (simp add: unat_of_nat)

lemma decode_encode_lemma:
  assumes "dec (enc e) = Some e" "length (enc e) < 2 ^ 64"
  shows "decode_frame dec (encode_frame enc e) = Ok e"
proof -
  let ?n = "length (enc e)"
  obtain w where "decode_length (varint ?n @ enc e) 0 0 0 = Ok (w, length (varint ?n))" "unat w = ?n"
    using decode_length_varint[of 0 0 ?n "enc e" 0] assms(2) by auto
  then show ?thesis
    using assms by (simp add: decode_frame_def encode_frame_def encode_length_varint of_nat_length)
qed

lemma read_frame_varint:
  assumes "n < 2 ^ 64"
  shows "read_frame dec (varint n @ rest) =
    (if n \<ge> 2 ^ 63 then None
     else if length rest < n then Some (Err FrameIo)
     else (case dec (take n rest) of None \<Rightarrow> Some (Err FrameDecode) | Some e \<Rightarrow> Some (Ok (Some e, drop n rest))))"
proof -
  have "(2 :: nat) ^ 64 \<le> 128 ^ Suc 9" by simp
  then have ten: "length (varint n) \<le> 10" using varint_length[of n 9] assms by linarith
  have cons: "varint n = hd (varint n) # tl (varint n)" using varint_nonempty by simp
  have prefix: "read_prefix [hd (varint n)] (tl (varint n) @ rest) = Ok (varint n, rest)"
    using read_prefix_varint[of "[]" n rest] ten by simp
  obtain w where w: "decode_length (varint n) 0 0 0 = Ok (w, length (varint n))" "unat w = n"
    using decode_length_varint[of 0 0 n "[]" 0] assms by auto
  then have len: "unat (prefix_length 0 (varint n) 0) = n"
    using prefix_length_decode[of "varint n" 0 0 0 w] by simp
  have "read_frame dec (varint n @ rest)
      = (case read_prefix [hd (varint n)] (tl (varint n) @ rest) of
             Inl e \<Rightarrow> Some (Err e)
           | Inr (prefix, input) \<Rightarrow>
               let l = unat (prefix_length 0 prefix 0)
               in if l \<ge> 2 ^ 63 then None
                  else if length input < l then Some (Err FrameIo)
                  else (case dec (take l input) of
                          None \<Rightarrow> Some (Err FrameDecode)
                        | Some e \<Rightarrow> Some (Ok (Some e, drop l input))))"
    by (subst cons) (simp add: read_frame_def)
  then show ?thesis by (simp add: prefix len Let_def split: option.split)
qed

lemma read_encode_lemma:
  assumes "dec (enc e) = Some e" "length (enc e) < 2 ^ 63"
  shows "read_frame dec (encode_frame enc e @ rest) = Some (Ok (Some e, rest))"
proof -
  have n64: "length (enc e) < 2 ^ 64" using assms(2) by simp
  then have "encode_frame enc e = varint (length (enc e)) @ enc e"
    by (simp add: encode_frame_def encode_length_varint of_nat_length)
  then show ?thesis using assms read_frame_varint[OF n64, of dec "enc e @ rest"] by simp
qed

text \<open>The frames a reader thread takes from a stream until the clean end, or the first failure.\<close>

fun read_frames :: "nat \<Rightarrow> (string \<Rightarrow> 'e option) \<Rightarrow> string \<Rightarrow> 'e list \<times> (frame_error, unit) result option" where
  "read_frames 0 dec input = ([], None)"
| "read_frames (Suc n) dec input =
     (case read_frame dec input of
        None \<Rightarrow> ([], None)
      | Some (Inl e) \<Rightarrow> ([], Some (Err e))
      | Some (Inr (None, _)) \<Rightarrow> ([], Some (Ok ()))
      | Some (Inr (Some e, input)) \<Rightarrow> (case read_frames n dec input of (es, r) \<Rightarrow> (e # es, r)))"

lemma read_stream_lemma:
  assumes "\<forall>e\<in>set es. dec (enc e) = Some e \<and> length (enc e) < 2 ^ 63"
  shows "read_frames (Suc (length es)) dec (concat (map (encode_frame enc) es)) = (es, Some (Ok ()))"
  using assms
proof (induction es)
  case Nil
  then show ?case by (simp add: read_frame_def)
next
  case (Cons e es)
  have "read_frame dec (encode_frame enc e @ concat (map (encode_frame enc) es))
      = Some (Ok (Some e, concat (map (encode_frame enc) es)))"
    using Cons.prems by (intro read_encode_lemma) simp_all
  moreover have "read_frames (Suc (length es)) dec (concat (map (encode_frame enc) es)) = (es, Some (Ok ()))"
    using Cons by simp
  ultimately show ?case by (simp del: read_frames.simps(2) add: read_frames.simps(2)[of "Suc (length es)"])
qed

text \<open>
  The transport delivers what was sent: a frame decodes to its message, and a reader of any
  sequence of frames receives exactly the messages, in order, and then the clean end of the stream.
\<close>

theorem transport_roundtrip:
  assumes "\<forall>e\<in>set es. dec (enc e) = Some e \<and> length (enc e) < 2 ^ 63"
  shows "(\<forall>e\<in>set es. decode_frame dec (encode_frame enc e) = Ok e)
    \<and> read_frames (Suc (length es)) dec (concat (map (encode_frame enc) es)) = (es, Some (Ok ()))"
proof
  show "\<forall>e\<in>set es. decode_frame dec (encode_frame enc e) = Ok e"
    using assms by (auto intro!: decode_encode_lemma)
  show "read_frames (Suc (length es)) dec (concat (map (encode_frame enc) es)) = (es, Some (Ok ()))"
    using assms by (rule read_stream_lemma)
qed

theorem transport_roundtrip_witness:
  "read_frames 3 Some (concat (map (encode_frame (\<lambda>s. s)) [''ab'', ''''])) = ([''ab'', ''''], Some (Ok ()))"
  using transport_roundtrip[of "[''ab'', '''']" Some "\<lambda>s. s"] by (simp add: numeral_3_eq_3 del: read_frames.simps)

text \<open>
  The two decoders differ on a cut frame: \<open>decode\<close> takes a prefix whose last byte announces another
  one for an empty message, \<open>read_frame\<close> refuses it.
\<close>

lemma unterminated_prefix_decodes:
  "decode_frame Some [CHR 0x80] = Ok []" "read_frame Some [CHR 0x80] = Some (Err FrameIo)"
  by (simp_all add: decode_frame_def read_frame_def read_prefix.simps byte_u64_def)

text \<open>A length prefix beyond the address space is a panic of the reader thread, not an error.\<close>

lemma oversized_length_panics:
  "2 ^ 63 \<le> n \<Longrightarrow> n < 2 ^ 64 \<Longrightarrow> read_frame dec (varint n @ rest) = None"
  by (simp add: read_frame_varint)

end
