(* ===== verification/Supervisor.thy ===== *)
theory Supervisor
  imports Messages Framing
begin

text \<open>
  The lifecycle of a worker process (\<open>crates/kide-core/src/supervisor.rs\<close>): started on demand,
  used for one request at a time, stopped when idle or when it misbehaves. What the operating
  system and the worker do during one request is a \<open>world\<close>; the conversion to and from protobuf is
  a parameter.
\<close>

section \<open>State\<close>

record worker_launch =
  wl_program :: string
  wl_args :: "string list"
  wl_working_directory :: "string option"
  wl_environment :: "(string \<times> string) list"
  wl_idle_timeout :: nat
  wl_request_timeout :: nat

definition new_launch :: "string \<Rightarrow> worker_launch" where
  "new_launch program =
     \<lparr> wl_program = program, wl_args = [], wl_working_directory = None, wl_environment = [],
       wl_idle_timeout = 30000, wl_request_timeout = 30000 \<rparr>"

datatype supervisor_error =
  StartFailed string
| FrameFailed frame_error
| InvalidResponse
| TimedOut nat
| Exited
| RequestIdMismatch string string
| DuplicateRequestId string
| IncompatibleProtocol u32 u32
| WorkerReported worker_error
| InvalidHandshake worker_message

type_synonym 'a supervised = "(supervisor_error, 'a) result"

text \<open>
  A running process: the request ids it has seen, the time of its last activity in milliseconds,
  and what its reader thread has put into the channel and nobody has received.
\<close>

record 'p running_worker =
  rw_request_ids :: "string set"
  rw_last_activity :: nat
  rw_channel :: "(frame_error, 'p) result list"

record 'p supervisor =
  sv_launch :: worker_launch
  sv_running :: "'p running_worker option"
  sv_starts :: nat

definition new_supervisor :: "worker_launch \<Rightarrow> 'p supervisor" where
  "new_supervisor launch = \<lparr> sv_launch = launch, sv_running = None, sv_starts = 0 \<rparr>"

text \<open>
  What one request meets: the clock before, at the write and after the answer, whether the child
  has exited, whether a spawn succeeds, the result of the write, what the reader thread has added
  to the channel by the deadline and whether it has ended.
\<close>

record 'p world =
  w_before :: nat
  w_exited :: bool
  w_spawns :: bool
  w_sent :: nat
  w_write :: "(frame_error, unit) result"
  w_arrived :: "(frame_error, 'p) result list"
  w_closed :: bool
  w_after :: nat

record 'p adapter =
  to_proto :: "worker_envelope \<Rightarrow> 'p option"
  of_proto :: "'p \<Rightarrow> worker_envelope option"

section \<open>Operations\<close>

definition stop :: "'p supervisor \<Rightarrow> 'p supervisor" where
  "stop s = s\<lparr>sv_running := None\<rparr>"

definition discard_exited :: "bool \<Rightarrow> 'p supervisor \<Rightarrow> 'p supervisor" where
  "discard_exited exited s = (if sv_running s \<noteq> None \<and> exited then s\<lparr>sv_running := None\<rparr> else s)"

definition is_running :: "bool \<Rightarrow> 'p supervisor \<Rightarrow> bool \<times> 'p supervisor" where
  "is_running exited s = (let s = discard_exited exited s in (sv_running s \<noteq> None, s))"

definition reap_idle :: "nat \<Rightarrow> 'p supervisor \<Rightarrow> bool \<times> 'p supervisor" where
  "reap_idle now s =
     (let expired = (case sv_running s of
            None \<Rightarrow> False
          | Some r \<Rightarrow> now - rw_last_activity r \<ge> wl_idle_timeout (sv_launch s))
      in (expired, if expired then stop s else s))"

definition ensure_running :: "'p world \<Rightarrow> 'p supervisor \<Rightarrow> unit supervised \<times> 'p supervisor" where
  "ensure_running w s =
     (let s = discard_exited (w_exited w) s
      in if sv_running s \<noteq> None then (Ok (), s)
         else if \<not> w_spawns w then (Err (StartFailed (wl_program (sv_launch s))), s)
         else (Ok (), s\<lparr>sv_running := Some \<lparr> rw_request_ids = {}, rw_last_activity = w_before w, rw_channel = [] \<rparr>,
                 sv_starts := sv_starts s + 1\<rparr>))"

text \<open>\<open>recv_timeout\<close>: the oldest result of the channel, else why there is none.\<close>

datatype 'p received = Received "(frame_error, 'p) result" | Disconnected | NoResponse

definition receive :: "'p world \<Rightarrow> 'p running_worker \<Rightarrow> 'p received \<times> 'p running_worker" where
  "receive w r =
     (case rw_channel r @ w_arrived w of
        x # rest \<Rightarrow> (Received x, r\<lparr>rw_channel := rest\<rparr>)
      | [] \<Rightarrow> (if w_closed w then Disconnected else NoResponse, r\<lparr>rw_channel := []\<rparr>))"

text \<open>The checks on the received message.\<close>

definition accept :: "'p adapter \<Rightarrow> 'p world \<Rightarrow> string \<Rightarrow> 'p \<Rightarrow> 'p supervisor
    \<Rightarrow> worker_envelope supervised \<times> 'p supervisor" where
  "accept A w request_id proto s =
     (case of_proto A proto of
        None \<Rightarrow> (Err InvalidResponse, s)
      | Some envelope \<Rightarrow>
          if env_protocol_version envelope \<noteq> WORKER_PROTOCOL_VERSION
          then (Err (IncompatibleProtocol (env_protocol_version envelope) WORKER_PROTOCOL_VERSION), stop s)
          else if env_request_id envelope \<noteq> request_id
          then (Err (RequestIdMismatch request_id (env_request_id envelope)), stop s)
          else (case env_message envelope of
                  MsgError e \<Rightarrow> (Err (WorkerReported e), s)
                | _ \<Rightarrow> (Ok envelope,
                    s\<lparr>sv_running := map_option (\<lambda>r. r\<lparr>rw_last_activity := w_after w\<rparr>) (sv_running s)\<rparr>)))"

text \<open>The exchange with the running process \<open>r\<close>.\<close>

definition exchange :: "'p adapter \<Rightarrow> 'p world \<Rightarrow> nat \<Rightarrow> worker_envelope \<Rightarrow> 'p running_worker \<Rightarrow> 'p supervisor
    \<Rightarrow> worker_envelope supervised \<times> 'p supervisor" where
  "exchange A w timeout request r s =
     (let request_id = env_request_id request;
          running = (\<lambda>r. s\<lparr>sv_running := Some r\<rparr>);
          r1 = r\<lparr>rw_request_ids := insert request_id (rw_request_ids r)\<rparr>
      in if request_id \<in> rw_request_ids r then (Err (DuplicateRequestId request_id), s)
         else case to_proto A request of
           None \<Rightarrow> (Err InvalidResponse, running r1)
         | Some encoded \<Rightarrow>
             (case w_write w of
                Inl e \<Rightarrow> (Err (FrameFailed e), running r1)
              | Inr _ \<Rightarrow>
                  (case receive w (r1\<lparr>rw_last_activity := w_sent w\<rparr>) of
                     (Received (Inr proto), r2) \<Rightarrow> accept A w request_id proto (running r2)
                   | (Received (Inl e), r2) \<Rightarrow> (Err (FrameFailed e), stop s)
                   | (Disconnected, r2) \<Rightarrow> (Err Exited, stop s)
                   | (NoResponse, r2) \<Rightarrow> (Err (TimedOut timeout), stop s))))"

definition request_with_timeout :: "'p adapter \<Rightarrow> 'p world \<Rightarrow> worker_envelope \<Rightarrow> nat \<Rightarrow> 'p supervisor
    \<Rightarrow> worker_envelope supervised \<times> 'p supervisor" where
  "request_with_timeout A w request timeout s =
     (case validate_protocol_version request of
        Inl e \<Rightarrow> (Err (IncompatibleProtocol
             (case we_received_protocol_version e of None \<Rightarrow> 0 | Some v \<Rightarrow> v) (we_supported_protocol_version e)), s)
      | Inr _ \<Rightarrow>
          (case ensure_running w (snd (reap_idle (w_before w) s)) of
             (Inl e, s) \<Rightarrow> (Err e, s)
           | (Inr _, s) \<Rightarrow>
               exchange A w (min timeout (wl_request_timeout (sv_launch s))) request (the (sv_running s)) s))"

definition request :: "'p adapter \<Rightarrow> 'p world \<Rightarrow> worker_envelope \<Rightarrow> 'p supervisor
    \<Rightarrow> worker_envelope supervised \<times> 'p supervisor" where
  "request A w e s = request_with_timeout A w e (wl_request_timeout (sv_launch s)) s"

definition handshake :: "'p adapter \<Rightarrow> 'p world \<Rightarrow> string \<Rightarrow> string \<Rightarrow> 'p supervisor
    \<Rightarrow> handshake_response supervised \<times> 'p supervisor" where
  "handshake A w core_version request_id s =
     (case request A w (new_envelope request_id (MsgHandshakeRequest \<lparr> hq_core_version = core_version \<rparr>)) s of
        (Inl e, s) \<Rightarrow> (Err e, s)
      | (Inr envelope, s) \<Rightarrow>
          (case env_message envelope of
             MsgHandshakeResponse response \<Rightarrow>
               if wc_protocol_version (hr_capabilities response) \<noteq> WORKER_PROTOCOL_VERSION
               then (Err (IncompatibleProtocol (wc_protocol_version (hr_capabilities response)) WORKER_PROTOCOL_VERSION),
                 stop s)
               else (Ok response, s)
           | received \<Rightarrow> (Err (InvalidHandshake received), s)))"

text \<open>\<open>describe\<close> is the text of an error.\<close>

definition supervisor_error_envelope :: "(supervisor_error \<Rightarrow> string) \<Rightarrow> string \<Rightarrow> supervisor_error \<Rightarrow> worker_envelope" where
  "supervisor_error_envelope describe request_id error =
     (let (code, retryable) = (case error of
            TimedOut _ \<Rightarrow> (AnalysisFailed, True)
          | Exited \<Rightarrow> (AnalysisFailed, True)
          | IncompatibleProtocol _ _ \<Rightarrow> (IncompatibleProtocolVersion, False)
          | _ \<Rightarrow> (Internal, False))
      in new_envelope request_id (MsgError
           \<lparr> we_code = code, we_message = describe error, we_retryable = retryable,
             we_supported_protocol_version = WORKER_PROTOCOL_VERSION, we_received_protocol_version = None \<rparr>))"

section \<open>One request\<close>

definition reuses :: "'p world \<Rightarrow> 'p running_worker \<Rightarrow> 'p supervisor \<Rightarrow> bool" where
  "reuses w r s \<longleftrightarrow> sv_running s = Some r \<and> \<not> w_exited w
     \<and> w_before w - rw_last_activity r < wl_idle_timeout (sv_launch s)"

definition fresh_process :: "nat \<Rightarrow> 'p running_worker" where
  "fresh_process now = \<lparr> rw_request_ids = {}, rw_last_activity = now, rw_channel = [] \<rparr>"

text \<open>
  The process a request talks to, and the state in which the exchange with it begins: the running
  one when it is alive and was not idle for too long, else a fresh one.
\<close>

lemma ensure_running_reused:
  "reuses w r s \<Longrightarrow> ensure_running w (snd (reap_idle (w_before w) s)) = (Inr (), s)"
  by (simp add: ensure_running_def reap_idle_def discard_exited_def stop_def reuses_def Let_def)

lemma not_reused_stopped:
  assumes "\<nexists>r. reuses w r s"
  shows "discard_exited (w_exited w) (snd (reap_idle (w_before w) s)) = s\<lparr>sv_running := None\<rparr>"
proof (cases "sv_running s")
  case None
  then have "s\<lparr>sv_running := None\<rparr> = s" by (cases s) simp
  with None show ?thesis by (simp add: reap_idle_def discard_exited_def)
next
  case (Some r)
  then have "w_exited w \<or> w_before w - rw_last_activity r \<ge> wl_idle_timeout (sv_launch s)"
    using assms by (auto simp: reuses_def)
  with Some show ?thesis by (auto simp: reap_idle_def discard_exited_def stop_def Let_def)
qed

lemma ensure_running_started:
  "\<nexists>r. reuses w r s \<Longrightarrow> w_spawns w \<Longrightarrow> ensure_running w (snd (reap_idle (w_before w) s))
     = (Inr (), s\<lparr>sv_running := Some (fresh_process (w_before w)), sv_starts := sv_starts s + 1\<rparr>)"
  by (simp add: ensure_running_def not_reused_stopped Let_def fresh_process_def)

lemma ensure_running_refused:
  "\<nexists>r. reuses w r s \<Longrightarrow> \<not> w_spawns w \<Longrightarrow> ensure_running w (snd (reap_idle (w_before w) s))
     = (Inl (StartFailed (wl_program (sv_launch s))), s\<lparr>sv_running := None\<rparr>)"
  by (simp add: ensure_running_def not_reused_stopped Let_def)

lemma ensure_running_cases:
  assumes "ensure_running w (snd (reap_idle (w_before w) s)) = (Inr u, s1)"
  obtains (reused) r where "reuses w r s" "s1 = s"
    | (started) "\<nexists>r. reuses w r s" "w_spawns w"
        "s1 = s\<lparr>sv_running := Some (fresh_process (w_before w)), sv_starts := sv_starts s + 1\<rparr>"
proof (cases "\<exists>r. reuses w r s")
  case True
  then obtain r where r: "reuses w r s" by blast
  have "s1 = s" using assms ensure_running_reused[OF r] by simp
  with r that(1) show ?thesis by blast
next
  case False
  show ?thesis
  proof (cases "w_spawns w")
    case True
    have "s1 = s\<lparr>sv_running := Some (fresh_process (w_before w)), sv_starts := sv_starts s + 1\<rparr>"
      using assms ensure_running_started[OF False True] by simp
    with False True that(2) show ?thesis by blast
  next
    case refused: False
    then show ?thesis using assms ensure_running_refused[OF False refused] by simp
  qed
qed

lemma accept_Ok:
  "accept A w i p s = (Inr resp, s') \<longleftrightarrow>
     of_proto A p = Some resp \<and> env_protocol_version resp = WORKER_PROTOCOL_VERSION \<and> env_request_id resp = i
     \<and> (\<nexists>e. env_message resp = MsgError e)
     \<and> s' = s\<lparr>sv_running := map_option (\<lambda>r. r\<lparr>rw_last_activity := w_after w\<rparr>) (sv_running s)\<rparr>"
  by (auto simp: accept_def split: option.splits if_splits worker_message.splits)

text \<open>An exchange that succeeds: everything that must have been the case, and the process after it.\<close>

lemma exchange_Ok:
  "exchange A w t e r s = (Inr resp, s') \<longleftrightarrow>
     env_request_id e \<notin> rw_request_ids r \<and> to_proto A e \<noteq> None \<and> w_write w = Inr ()
     \<and> (\<exists>p rest. rw_channel r @ w_arrived w = Inr p # rest \<and> of_proto A p = Some resp
        \<and> env_protocol_version resp = WORKER_PROTOCOL_VERSION \<and> env_request_id resp = env_request_id e
        \<and> (\<nexists>e. env_message resp = MsgError e)
        \<and> s' = s\<lparr>sv_running := Some \<lparr> rw_request_ids = insert (env_request_id e) (rw_request_ids r),
              rw_last_activity = w_after w, rw_channel = rest \<rparr>\<rparr>)"
    (is "?lhs \<longleftrightarrow> ?rhs")
proof (cases "env_request_id e \<in> rw_request_ids r \<or> to_proto A e = None \<or> w_write w \<noteq> Inr ()")
  case True
  then have "\<not> ?rhs" by auto
  moreover have "\<not> ?lhs"
    using True by (cases "to_proto A e"; cases "w_write w") (simp_all add: exchange_def Let_def)
  ultimately show ?thesis by blast
next
  case False
  then obtain encoded where start: "env_request_id e \<notin> rw_request_ids r" "to_proto A e = Some encoded"
      "w_write w = Inr ()"
    by (cases "w_write w") auto
  show ?thesis
  proof (cases "\<exists>p rest. rw_channel r @ w_arrived w = Inr p # rest")
    case True
    then obtain p rest where head: "rw_channel r @ w_arrived w = Inr p # rest" by blast
    show ?thesis
      using start head by (cases r) (simp add: exchange_def receive_def Let_def accept_Ok)
  next
    case none: False
    then have "\<not> ?rhs" by auto
    moreover have "\<not> ?lhs"
      using start none
      by (cases "rw_channel r @ w_arrived w"; cases "hd (rw_channel r @ w_arrived w)")
        (simp_all add: exchange_def receive_def Let_def)
    ultimately show ?thesis by blast
  qed
qed

lemma validate_protocol_version_cases:
  "validate_protocol_version e =
     (if env_protocol_version e = WORKER_PROTOCOL_VERSION then Ok ()
      else Err (incompatible_protocol_version (env_protocol_version e)))"
  by (simp add: validate_protocol_version_def ensure_compatible_protocol_version_def)

lemma request_Ok:
  assumes "request_with_timeout A w e t s = (Inr resp, s')"
  obtains (reused) r where "reuses w r s"
        "exchange A w (min t (wl_request_timeout (sv_launch s))) e r s = (Inr resp, s')"
        "env_protocol_version e = WORKER_PROTOCOL_VERSION"
    | (started) s1 where "\<nexists>r. reuses w r s" "w_spawns w"
        "s1 = s\<lparr>sv_running := Some (fresh_process (w_before w)), sv_starts := sv_starts s + 1\<rparr>"
        "exchange A w (min t (wl_request_timeout (sv_launch s))) e (fresh_process (w_before w)) s1 = (Inr resp, s')"
        "env_protocol_version e = WORKER_PROTOCOL_VERSION"
proof -
  from assms obtain s1 u where valid: "env_protocol_version e = WORKER_PROTOCOL_VERSION"
    and run: "ensure_running w (snd (reap_idle (w_before w) s)) = (Inr u, s1)"
    and ex: "exchange A w (min t (wl_request_timeout (sv_launch s1))) e (the (sv_running s1)) s1 = (Inr resp, s')"
    by (auto simp: request_with_timeout_def validate_protocol_version_cases
        split: if_splits sum.splits prod.splits)
  from run show ?thesis
  proof (cases rule: ensure_running_cases)
    case (reused r)
    then show ?thesis using ex valid that(1)[of r] by (auto simp: reuses_def)
  next
    case started
    then show ?thesis using ex valid that(2)[of s1] by auto
  qed
qed

text \<open>
  C4. An envelope that \<open>request\<close> returns answers that request: it carries its id and the
  supported protocol version and is no error message; the id was new to the process; the
  envelope is the oldest one the process sent that nobody has received; and the process is the one
  that was running, unless that one had exited or been idle too long, in which case it is a fresh
  one and the start is counted. The process stays up, remembers the id and its activity.
\<close>

theorem accepted_response_answers_the_request:
  assumes "request_with_timeout A w e t s = (Inr resp, s')"
  shows "env_request_id resp = env_request_id e \<and> env_protocol_version resp = WORKER_PROTOCOL_VERSION
    \<and> env_protocol_version e = WORKER_PROTOCOL_VERSION \<and> (\<nexists>x. env_message resp = MsgError x)
    \<and> (\<exists>r p rest. r = (if \<exists>r. reuses w r s then the (sv_running s) else fresh_process (w_before w))
         \<and> env_request_id e \<notin> rw_request_ids r
         \<and> rw_channel r @ w_arrived w = Inr p # rest \<and> of_proto A p = Some resp
         \<and> s' = s\<lparr>sv_running := Some \<lparr> rw_request_ids = insert (env_request_id e) (rw_request_ids r),
                     rw_last_activity = w_after w, rw_channel = rest \<rparr>,
                  sv_starts := (if \<exists>r. reuses w r s then sv_starts s else sv_starts s + 1)\<rparr>)"
  using assms
proof (cases rule: request_Ok)
  case (reused r)
  then have "the (sv_running s) = r" by (simp add: reuses_def)
  with reused show ?thesis by (auto simp: exchange_Ok)
next
  case (started s1)
  then show ?thesis by (auto simp: exchange_Ok)
qed

text \<open>
  A worker that declares protocol version 3 and answers at once, with a wire format that keeps
  an envelope as it is.
\<close>

definition plain_adapter :: "worker_envelope adapter" where
  "plain_adapter = \<lparr> to_proto = Some, of_proto = Some \<rparr>"

definition answering_world :: "nat \<Rightarrow> 'p \<Rightarrow> 'p world" where
  "answering_world now p =
     \<lparr> w_before = now, w_exited = False, w_spawns = True, w_sent = now, w_write = Ok (),
       w_arrived = [Ok p], w_closed = False, w_after = now + 5 \<rparr>"

definition sample_capabilities :: worker_capabilities where
  "sample_capabilities = \<lparr> wc_identity = \<lparr> wi_backend = ''jvm'', wi_backend_version = ''1'' \<rparr>,
     wc_protocol_version = 3, wc_languages = [], wc_capabilities = [CapHandshake],
     wc_semantic_query_capabilities = [] \<rparr>"

definition sample_response :: "string \<Rightarrow> worker_envelope" where
  "sample_response i = new_envelope i (MsgHandshakeResponse \<lparr> hr_capabilities = sample_capabilities \<rparr>)"

definition sample_request :: "string \<Rightarrow> worker_envelope" where
  "sample_request i = new_envelope i (MsgHandshakeRequest \<lparr> hq_core_version = ''0.1.0'' \<rparr>)"

lemmas supervisor_run_simps = request_with_timeout_def validate_protocol_version_cases ensure_running_def
  reap_idle_def discard_exited_def stop_def exchange_def receive_def accept_def is_running_def
  sample_request_def sample_response_def answering_world_def plain_adapter_def new_envelope_def
  new_supervisor_def new_launch_def Let_def

lemma sample_request_served:
  "request_with_timeout plain_adapter (answering_world 7 (sample_response ''h1'')) (sample_request ''h1'') 30000
     (new_supervisor (new_launch ''worker''))
   = (Ok (sample_response ''h1''),
      \<lparr> sv_launch = new_launch ''worker'',
        sv_running = Some \<lparr> rw_request_ids = {''h1''}, rw_last_activity = 12, rw_channel = [] \<rparr>, sv_starts = 1 \<rparr>)"
  by (simp add: supervisor_run_simps)

theorem accepted_response_answers_the_request_witness:
  "env_request_id (sample_response ''h1'') = ''h1''"
  using accepted_response_answers_the_request[OF sample_request_served]
  by (simp add: sample_request_def new_envelope_def)

section \<open>Sequences of calls\<close>

text \<open>Calls of the owner of a supervisor, with what each of them meets.\<close>

datatype 'p supervisor_call =
  CallRequest "'p world" worker_envelope nat
| CallIsRunning bool
| CallReapIdle nat
| CallStop

text \<open>
  Serving a sequence of calls; the log holds, for every accepted response, the process it came
  from and its request id.
\<close>

fun serve :: "'p adapter \<Rightarrow> 'p supervisor_call list \<Rightarrow> 'p supervisor \<Rightarrow> (nat \<times> string) list \<times> 'p supervisor" where
  "serve A [] s = ([], s)"
| "serve A (CallRequest w e t # calls) s =
     (let (r, s1) = request_with_timeout A w e t s; (log, s2) = serve A calls s1
      in (case r of Inl _ \<Rightarrow> log | Inr resp \<Rightarrow> (sv_starts s1, env_request_id resp) # log, s2))"
| "serve A (CallIsRunning exited # calls) s = serve A calls (snd (is_running exited s))"
| "serve A (CallReapIdle now # calls) s = serve A calls (snd (reap_idle now s))"
| "serve A (CallStop # calls) s = serve A calls (stop s)"

text \<open>
  How one state follows another: no start is forgotten, and while no process is started the
  running one, if any, is the one from before and remembers every id it had seen.
\<close>

definition later :: "'p supervisor \<Rightarrow> 'p supervisor \<Rightarrow> bool" where
  "later s s' \<longleftrightarrow> sv_launch s' = sv_launch s \<and> sv_starts s \<le> sv_starts s'
     \<and> (sv_starts s' = sv_starts s \<longrightarrow>
          (\<forall>r'. sv_running s' = Some r' \<longrightarrow> (\<exists>r. sv_running s = Some r \<and> rw_request_ids r \<subseteq> rw_request_ids r')))"

lemma later_refl [simp]: "later s s"
  by (auto simp: later_def)

lemma later_stopped [simp]: "later s (s\<lparr>sv_running := None\<rparr>)" "later s (stop s)"
  by (auto simp: later_def stop_def)

lemma later_maintenance: "later s (snd (reap_idle now s))" "later s (snd (is_running exited s))"
  by (auto simp: reap_idle_def is_running_def discard_exited_def Let_def)

lemma exchange_later:
  assumes "exchange A w t e r s = (res, s')" "sv_running s = Some r"
  shows "later s s'"
proof -
  let ?r1 = "r\<lparr>rw_request_ids := insert (env_request_id e) (rw_request_ids r)\<rparr>"
  have keeps: "later s (s\<lparr>sv_running := Some r'\<rparr>)" if "rw_request_ids r \<subseteq> rw_request_ids r'" for r'
    using that assms(2) by (auto simp: later_def)
  have accepted: "later s (snd (accept A w i p (s\<lparr>sv_running := Some r'\<rparr>)))"
    if "rw_request_ids r \<subseteq> rw_request_ids r'" for i p r'
  proof -
    have "snd (accept A w i p (s\<lparr>sv_running := Some r'\<rparr>))
        \<in> {s\<lparr>sv_running := Some r'\<rparr>, s\<lparr>sv_running := None\<rparr>, s\<lparr>sv_running := Some (r'\<lparr>rw_last_activity := w_after w\<rparr>)\<rparr>}"
      by (simp add: accept_def stop_def split: option.splits worker_message.splits)
    then show ?thesis using keeps[OF that] keeps[of "r'\<lparr>rw_last_activity := w_after w\<rparr>"] that by auto
  qed
  have "s' = snd (exchange A w t e r s)" using assms(1) by simp
  moreover have "later s (snd (exchange A w t e r s))"
  proof (cases "env_request_id e \<in> rw_request_ids r \<or> to_proto A e = None \<or> w_write w \<noteq> Inr ()")
    case True
    have "later s (s\<lparr>sv_running := Some ?r1\<rparr>)" by (rule keeps) auto
    then show ?thesis
      using True by (cases "to_proto A e"; cases "w_write w") (simp_all add: exchange_def Let_def)
  next
    case False
    have got: "later s (snd (accept A w i p (s\<lparr>sv_running := Some (?r1\<lparr>rw_last_activity := w_sent w, rw_channel := rest\<rparr>)\<rparr>)))"
      for i p rest by (rule accepted) auto
    show ?thesis
      using False got
      by (cases "w_write w"; cases "rw_channel r @ w_arrived w"; cases "hd (rw_channel r @ w_arrived w)")
        (auto simp: exchange_def receive_def Let_def)
  qed
  ultimately show ?thesis by simp
qed

lemma request_later:
  assumes "request_with_timeout A w e t s = (res, s')"
  shows "later s s'"
proof (cases "env_protocol_version e = WORKER_PROTOCOL_VERSION")
  case False
  with assms have "s' = s" by (simp add: request_with_timeout_def validate_protocol_version_cases)
  then show ?thesis by simp
next
  case True
  then have unfolded: "request_with_timeout A w e t s =
     (case ensure_running w (snd (reap_idle (w_before w) s)) of (Inl x, s1) \<Rightarrow> (Err x, s1)
      | (Inr _, s1) \<Rightarrow> exchange A w (min t (wl_request_timeout (sv_launch s1))) e (the (sv_running s1)) s1)"
    by (simp add: request_with_timeout_def validate_protocol_version_cases)
  show ?thesis
  proof (cases "\<exists>r. reuses w r s")
    case True
    then obtain r where r: "reuses w r s" by blast
    then have "sv_running s = Some r" by (simp add: reuses_def)
    then show ?thesis
      using assms exchange_later[of A w _ e r s res s'] by (simp add: unfolded ensure_running_reused[OF r])
  next
    case fresh: False
    show ?thesis
    proof (cases "w_spawns w")
      case True
      let ?s1 = "s\<lparr>sv_running := Some (fresh_process (w_before w)), sv_starts := sv_starts s + 1\<rparr>"
      have "later ?s1 s'"
        using assms exchange_later[of A w _ e "fresh_process (w_before w)" ?s1 res s']
        by (simp add: unfolded ensure_running_started[OF fresh True])
      then show ?thesis by (auto simp: later_def)
    next
      case False
      then show ?thesis
        using assms by (auto simp: unfolded ensure_running_refused[OF fresh False])
    qed
  qed
qed

text \<open>The ids the current process may still answer.\<close>

definition open_ids :: "'p supervisor \<Rightarrow> (nat \<times> string) set" where
  "open_ids s = {(g, i). sv_starts s < g}
     \<union> (case sv_running s of None \<Rightarrow> {} | Some r \<Rightarrow> {(sv_starts s, i) |i. i \<notin> rw_request_ids r})"

lemma later_open_ids: "later s s' \<Longrightarrow> open_ids s' \<subseteq> open_ids s"
  by (cases "sv_starts s' = sv_starts s"; cases "sv_running s'") (fastforce simp: later_def open_ids_def)+

lemma accepted_closes_id:
  assumes "request_with_timeout A w e t s = (Inr resp, s')"
  shows "(sv_starts s', env_request_id resp) \<in> open_ids s - open_ids s'"
  using assms
proof (cases rule: request_Ok)
  case (reused r)
  then show ?thesis by (auto simp: exchange_Ok open_ids_def reuses_def)
next
  case (started s1)
  then show ?thesis by (auto simp: exchange_Ok open_ids_def)
qed

lemma serve_log: "set (fst (serve A calls s)) \<subseteq> open_ids s \<and> distinct (fst (serve A calls s))"
proof (induction A calls s rule: serve.induct)
  case (1 A s)
  then show ?case by simp
next
  case (2 A w e t calls s)
  obtain res s1 where req: "request_with_timeout A w e t s = (res, s1)" by force
  obtain log s2 where rest: "serve A calls s1 = (log, s2)" by force
  have IH: "set log \<subseteq> open_ids s1" "distinct log"
    using 2(1)[OF req[symmetric] refl] by (simp_all add: rest)
  have sub: "open_ids s1 \<subseteq> open_ids s" by (rule later_open_ids[OF request_later[OF req]])
  show ?case
  proof (cases res)
    case (Inl x)
    then show ?thesis using IH sub by (auto simp: req rest)
  next
    case (Inr resp)
    then show ?thesis using IH sub accepted_closes_id[OF req[unfolded Inr]] by (auto simp: req rest)
  qed
next
  case (3 A exited calls s)
  then show ?case using later_open_ids[OF later_maintenance(2)[of s exited]] by auto
next
  case (4 A now calls s)
  then show ?case using later_open_ids[OF later_maintenance(1)[of s now]] by auto
next
  case (5 A calls s)
  then show ?case using later_open_ids[OF later_stopped(2)[of s]] by auto
qed

text \<open>
  C24. Whatever the owner calls, whatever the workers send and whenever they exit: no process
  has two responses accepted under one request id.
\<close>

theorem no_id_is_answered_twice:
  "distinct (fst (serve A calls (new_supervisor launch)))"
  by (rule conjunct2[OF serve_log])

section \<open>Failures\<close>

text \<open>The errors of a started exchange after which the process is gone.\<close>

definition ends_process :: "supervisor_error \<Rightarrow> bool" where
  "ends_process e = (case e of TimedOut _ \<Rightarrow> True | Exited \<Rightarrow> True | RequestIdMismatch _ _ \<Rightarrow> True
     | StartFailed _ \<Rightarrow> True | IncompatibleProtocol _ _ \<Rightarrow> True | _ \<Rightarrow> False)"

lemma accept_Err:
  "accept A w i p s = (Inl x, s') \<Longrightarrow> ends_process x \<Longrightarrow> sv_running s' = None"
  by (auto simp: accept_def ends_process_def stop_def split: option.splits if_splits worker_message.splits)

lemma exchange_Err:
  assumes "exchange A w t e r s = (Inl x, s')" "ends_process x"
  shows "sv_running s' = None"
proof (cases "env_request_id e \<in> rw_request_ids r \<or> to_proto A e = None \<or> w_write w \<noteq> Inr ()")
  case True
  then show ?thesis
    using assms
    by (cases "env_request_id e \<in> rw_request_ids r"; cases "to_proto A e"; cases "w_write w")
      (auto simp: exchange_def Let_def ends_process_def)
next
  case False
  show ?thesis
  proof (cases "rw_channel r @ w_arrived w")
    case Nil
    then show ?thesis
      using False assms by (cases "w_write w") (auto simp: exchange_def receive_def Let_def stop_def split: if_splits)
  next
    case (Cons a rest)
    then show ?thesis
      using False assms accept_Err
      by (cases "w_write w"; cases a) (auto simp: exchange_def receive_def Let_def stop_def)
  qed
qed

lemma request_Err:
  assumes "request_with_timeout A w e t s = (Inl x, s')" "ends_process x"
    "env_protocol_version e = WORKER_PROTOCOL_VERSION"
  shows "sv_running s' = None"
proof (cases "\<exists>r. reuses w r s")
  case True
  then obtain r where r: "reuses w r s" by blast
  have "exchange A w (min t (wl_request_timeout (sv_launch s))) e (the (sv_running s)) s = (Inl x, s')"
    using assms(1,3) by (simp add: request_with_timeout_def validate_protocol_version_cases ensure_running_reused[OF r])
  then show ?thesis using assms(2) by (rule exchange_Err)
next
  case fresh: False
  show ?thesis
  proof (cases "w_spawns w")
    case True
    then show ?thesis
      using assms exchange_Err
      by (auto simp: request_with_timeout_def validate_protocol_version_cases ensure_running_started[OF fresh True])
  next
    case False
    then show ?thesis
      using assms by (auto simp: request_with_timeout_def validate_protocol_version_cases ensure_running_refused[OF fresh False])
  qed
qed

text \<open>
  C23. A worker that times out, exits, answers another request or speaks another protocol version
  does not block the supervisor: its process is gone when \<open>request\<close> returns the error, and the next
  request starts a fresh process, whose count is one higher and whose channel is empty, and
  returns its first message if that answers the request, even under the request id that failed.
\<close>

theorem failed_worker_is_replaced:
  assumes "request_with_timeout A w e t s = (Inl x, s')" "ends_process x"
    "env_protocol_version e = WORKER_PROTOCOL_VERSION"
    and "env_protocol_version e2 = WORKER_PROTOCOL_VERSION" "to_proto A e2 \<noteq> None" "w_spawns w2" "w_write w2 = Ok ()"
    and "w_arrived w2 = Inr p # rest" "of_proto A p = Some resp" "env_protocol_version resp = WORKER_PROTOCOL_VERSION"
      "env_request_id resp = env_request_id e2" "\<nexists>x. env_message resp = MsgError x"
  shows "sv_running s' = None
    \<and> request_with_timeout A w2 e2 t2 s' = (Ok resp, s'\<lparr>sv_running :=
         Some \<lparr> rw_request_ids = {env_request_id e2}, rw_last_activity = w_after w2, rw_channel = rest \<rparr>,
         sv_starts := sv_starts s' + 1\<rparr>)"
proof
  show none: "sv_running s' = None" by (rule request_Err[OF assms(1-3)])
  then have fresh: "\<nexists>r. reuses w2 r s'" by (simp add: reuses_def)
  show "request_with_timeout A w2 e2 t2 s' = (Ok resp, s'\<lparr>sv_running :=
         Some \<lparr> rw_request_ids = {env_request_id e2}, rw_last_activity = w_after w2, rw_channel = rest \<rparr>,
         sv_starts := sv_starts s' + 1\<rparr>)"
    using assms(4-12)
    by (simp add: request_with_timeout_def validate_protocol_version_cases ensure_running_started[OF fresh assms(6)]
        exchange_Ok fresh_process_def)
qed

text \<open>A worker that is silent for one request.\<close>

lemma silent_request_times_out:
  "request_with_timeout plain_adapter ((answering_world 7 (sample_response ''h1''))\<lparr>w_arrived := []\<rparr>)
     (sample_request ''h1'') 500 (new_supervisor (new_launch ''worker''))
   = (Err (TimedOut 500), \<lparr> sv_launch = new_launch ''worker'', sv_running = None, sv_starts = 1 \<rparr>)"
  by (simp add: supervisor_run_simps)

theorem failed_worker_is_replaced_witness:
  "\<exists>s'. request_with_timeout plain_adapter (answering_world 900 (sample_response ''h1'')) (sample_request ''h1'') 500
     \<lparr> sv_launch = new_launch ''worker'', sv_running = None, sv_starts = 1 \<rparr> = (Ok (sample_response ''h1''), s')
     \<and> sv_starts s' = 2"
proof -
  have "sv_running \<lparr> sv_launch = new_launch ''worker'', sv_running = None :: worker_envelope running_worker option,
            sv_starts = 1 \<rparr> = None
      \<and> request_with_timeout plain_adapter (answering_world 900 (sample_response ''h1'')) (sample_request ''h1'') 500
          \<lparr> sv_launch = new_launch ''worker'', sv_running = None, sv_starts = 1 \<rparr>
        = (Ok (sample_response ''h1''), \<lparr> sv_launch = new_launch ''worker'', sv_running = None, sv_starts = 1 \<rparr>\<lparr>sv_running :=
            Some \<lparr> rw_request_ids = {env_request_id (sample_request ''h1'')}, rw_last_activity = w_after (answering_world 900 (sample_response ''h1'')),
              rw_channel = [] \<rparr>, sv_starts := 1 + 1\<rparr>)"
    using failed_worker_is_replaced[OF silent_request_times_out, where ?w2.0 = "answering_world 900 (sample_response ''h1'')"
        and ?e2.0 = "sample_request ''h1''" and ?t2.0 = 500 and p = "sample_response ''h1''" and rest = "[]"
        and resp = "sample_response ''h1''"]
    by (simp add: ends_process_def sample_request_def sample_response_def new_envelope_def answering_world_def plain_adapter_def)
  then show ?thesis by auto
qed

text \<open>
  A message that does not decode leaves the process running: nothing is stopped and its id stays
  used, as after an error the worker reports.
\<close>

lemma undecodable_message_keeps_worker:
  assumes "reuses w r s" "env_protocol_version e = WORKER_PROTOCOL_VERSION" "env_request_id e \<notin> rw_request_ids r"
    "to_proto A e \<noteq> None" "w_write w = Ok ()" "rw_channel r @ w_arrived w = Inr p # rest" "of_proto A p = None"
  shows "\<exists>r'. request_with_timeout A w e t s = (Err InvalidResponse, s\<lparr>sv_running := Some r'\<rparr>)
    \<and> rw_request_ids r' = insert (env_request_id e) (rw_request_ids r)"
  using assms
  by (auto simp: request_with_timeout_def validate_protocol_version_cases ensure_running_reused[OF assms(1)]
      reuses_def exchange_def receive_def accept_def Let_def)

text \<open>
  \<open>is_running\<close> looks at the exit status only. A worker idle for longer than the idle timeout still
  counts as running, although the next request will replace it.
\<close>

lemma idle_worker_counts_as_running:
  assumes "sv_running s = Some r" "now - rw_last_activity r \<ge> wl_idle_timeout (sv_launch s)"
    "w_before w = now" "w_spawns w"
  shows "fst (is_running False s)
    \<and> ensure_running w (snd (reap_idle now (snd (is_running False s))))
      = (Ok (), s\<lparr>sv_running := Some (fresh_process now), sv_starts := sv_starts s + 1\<rparr>)"
proof
  show "fst (is_running False s)" using assms(1) by (simp add: is_running_def discard_exited_def Let_def)
  have "snd (is_running False s) = s" by (simp add: is_running_def discard_exited_def Let_def)
  moreover have "\<nexists>r. reuses w r s" using assms(1-3) by (auto simp: reuses_def)
  ultimately show "ensure_running w (snd (reap_idle now (snd (is_running False s))))
      = (Ok (), s\<lparr>sv_running := Some (fresh_process now), sv_starts := sv_starts s + 1\<rparr>)"
    using ensure_running_started[of w s] assms(3,4) by simp
qed

end
