(* ===== verification/Worker_Registry.thy ===== *)
theory Worker_Registry
  imports Supervisor
begin

text \<open>
  Discovery and selection of workers (\<open>crates/kide-core/src/worker_registry.rs\<close>): the handshake
  of every installed worker, the assignment of source units to workers in batches, and the
  negotiation of query capabilities. A failed assertion is the result \<^const>\<open>None\<close>.
\<close>

section \<open>Data\<close>

definition DEFAULT_MAX_SOURCE_UNITS_PER_WORKER_BATCH :: usize where
  "DEFAULT_MAX_SOURCE_UNITS_PER_WORKER_BATCH = 128"

datatype query_capability_status = CapabilitySupported | CapabilityMissing | IncompatibleVersion

datatype capability_support = SupportComplete | SupportPartial | SupportUnsupported

record query_capability_negotiation =
  qn_name :: string
  qn_version :: u32
  qn_required :: bool
  qn_status :: query_capability_status
  qn_providers :: "string list"
  qn_available_versions :: "u32 list"

text \<open>\<open>PackageCapability\<close> of \<open>query_package.rs\<close>.\<close>

record package_capability =
  pcap_name :: string
  pcap_version :: u32
  pcap_required :: bool

record worker_installation =
  wn_name :: string
  wn_launch :: worker_launch
  wn_build_systems :: "build_system list"

record discovered_worker =
  dw_installation :: worker_installation
  dw_capabilities :: worker_capabilities

record worker_batch =
  wb_worker :: discovered_worker
  wb_component :: component_id
  wb_language :: language
  wb_source_units :: "source_unit list"

record unsupported_batch =
  ub_component :: component_id
  ub_language :: language
  ub_build_system :: build_system
  ub_source_units :: "source_unit list"

record worker_selection =
  sel_batches :: "worker_batch list"
  sel_unsupported :: "unsupported_batch list"

section \<open>Discovery\<close>

datatype worker_registry_error = HandshakeFailed string supervisor_error

text \<open>\<open>worlds\<close> gives what each handshake meets; the supervisor is dropped after it.\<close>

definition discover :: "'p adapter \<Rightarrow> (worker_installation \<Rightarrow> 'p world) \<Rightarrow> string \<Rightarrow> worker_installation list
    \<Rightarrow> (worker_registry_error, discovered_worker list) result" where
  "discover A worlds core_version installations =
     collect_results (\<lambda>i.
       case fst (handshake A (worlds i) core_version ''worker-registry-handshake'' (new_supervisor (wn_launch i))) of
         Inl e \<Rightarrow> Err (HandshakeFailed (wn_name i) e)
       | Inr response \<Rightarrow> Ok \<lparr> dw_installation = i, dw_capabilities = hr_capabilities response \<rparr>) installations"

section \<open>Selection\<close>

fun language_key :: "language \<Rightarrow> string" where
  "language_key Kotlin = ''kotlin''"
| "language_key Java = ''java''"
| "language_key Rust = ''rust''"
| "language_key TypeScript = ''typescript''"
| "language_key (OtherLanguage v) = ''other:'' @ v"

text \<open>\<open>entry(k).or_default().push(x)\<close> and the loop that groups with it.\<close>

definition btree_push :: "'k::linorder \<Rightarrow> 'a \<Rightarrow> ('k, 'a list) btree \<Rightarrow> ('k, 'a list) btree" where
  "btree_push k x m = btree_insert k ((case btree_get m k of None \<Rightarrow> [] | Some xs \<Rightarrow> xs) @ [x]) m"

definition group_by :: "('a \<Rightarrow> 'k::linorder) \<Rightarrow> 'a list \<Rightarrow> ('k, 'a list) btree" where
  "group_by key xs = fold (\<lambda>x. btree_push (key x) x) xs []"

definition source_order :: "source_unit \<Rightarrow> string \<times> string" where
  "source_order s = (as_str (su_component s), as_str (su_path s))"

definition group_key :: "source_unit \<Rightarrow> string \<times> string" where
  "group_key s = (as_str (su_component s), language_key (su_language s))"

definition component_build_systems :: "project_manifest \<Rightarrow> (string, build_system) btree" where
  "component_build_systems manifest =
     fold (\<lambda>c. btree_insert (as_str (comp_id c)) (comp_build_system c)) (man_components manifest) []"

definition build_system_of :: "project_manifest \<Rightarrow> component_id \<Rightarrow> build_system" where
  "build_system_of manifest c =
     (case btree_get (component_build_systems manifest) (as_str c) of None \<Rightarrow> Filesystem | Some b \<Rightarrow> b)"

definition worker_serves :: "build_system \<Rightarrow> language \<Rightarrow> worker_capability list \<Rightarrow> discovered_worker \<Rightarrow> bool" where
  "worker_serves b l required w \<longleftrightarrow>
     b \<in> set (wn_build_systems (dw_installation w)) \<and> l \<in> set (wc_languages (dw_capabilities w))
     \<and> (\<forall>c\<in>set required. c \<in> set (wc_capabilities (dw_capabilities w)))"

definition worker_order :: "discovered_worker \<Rightarrow> string" where
  "worker_order w = wn_name (dw_installation w)"

text \<open>The body of the loop over the groups; \<open>units\<close> is a nonempty group.\<close>

definition select_group :: "project_manifest \<Rightarrow> worker_capability list \<Rightarrow> discovered_worker list \<Rightarrow> usize
    \<Rightarrow> source_unit list \<Rightarrow> worker_selection \<Rightarrow> worker_selection" where
  "select_group manifest required workers limit units selection =
     (let component = su_component (hd units);
          language = su_language (hd units);
          build_system = build_system_of manifest component
      in case find (worker_serves build_system language required) workers of
           Some worker \<Rightarrow> selection\<lparr>sel_batches := sel_batches selection @
             map (\<lambda>chunk. \<lparr> wb_worker = worker, wb_component = component, wb_language = language,
                            wb_source_units = chunk \<rparr>) (chunks limit units)\<rparr>
         | None \<Rightarrow> selection\<lparr>sel_unsupported := sel_unsupported selection @
             [\<lparr> ub_component = component, ub_language = language, ub_build_system = build_system,
                ub_source_units = units \<rparr>]\<rparr>)"

definition select_discovered_with_batch_limit :: "project_manifest \<Rightarrow> source_unit list
    \<Rightarrow> worker_capability list \<Rightarrow> discovered_worker list \<Rightarrow> usize \<Rightarrow> worker_selection option" where
  "select_discovered_with_batch_limit manifest sources required workers limit =
     (if limit = 0 then None
      else Some (fold (\<lambda>(k, units). select_group manifest required (sort_key worker_order workers) limit units)
                   (group_by group_key (sort_key source_order sources))
                   \<lparr> sel_batches = [], sel_unsupported = [] \<rparr>))"

definition select_discovered :: "project_manifest \<Rightarrow> source_unit list \<Rightarrow> worker_capability list
    \<Rightarrow> discovered_worker list \<Rightarrow> worker_selection option" where
  "select_discovered manifest sources required workers =
     select_discovered_with_batch_limit manifest sources required workers DEFAULT_MAX_SOURCE_UNITS_PER_WORKER_BATCH"

definition select_with_batch_limit :: "'p adapter \<Rightarrow> (worker_installation \<Rightarrow> 'p world) \<Rightarrow> string
    \<Rightarrow> worker_installation list \<Rightarrow> project_manifest \<Rightarrow> source_unit list \<Rightarrow> worker_capability list \<Rightarrow> usize
    \<Rightarrow> (worker_registry_error, worker_selection) result option" where
  "select_with_batch_limit A worlds core_version installations manifest sources required limit =
     (if limit = 0 then None
      else case discover A worlds core_version installations of
        Inl e \<Rightarrow> Some (Err e)
      | Inr discovered \<Rightarrow>
          map_option Ok (select_discovered_with_batch_limit manifest sources required discovered limit))"

section \<open>Query capabilities\<close>

definition requirement_order :: "package_capability \<Rightarrow> string \<times> nat \<times> bool" where
  "requirement_order r = (pcap_name r, unat (pcap_version r), pcap_required r)"

text \<open>The versions under which the workers offer a capability, each with the worker that offers it.\<close>

definition offers :: "discovered_worker list \<Rightarrow> string \<Rightarrow> (u32 \<times> string) list" where
  "offers workers name = concat (map (\<lambda>w. map (\<lambda>c. (sqc_version c, wn_name (dw_installation w)))
     (filter (\<lambda>c. sqc_name c = name) (wc_semantic_query_capabilities (dw_capabilities w)))) workers)"

definition negotiate :: "discovered_worker list \<Rightarrow> package_capability \<Rightarrow> query_capability_negotiation" where
  "negotiate workers r =
     (let offered = offers workers (pcap_name r);
          available_versions = sort_dedup (map fst offered);
          providers = sort_dedup (map snd (filter (\<lambda>x. fst x = pcap_version r) offered));
          status = (if providers \<noteq> [] then CapabilitySupported
                    else if available_versions = [] then CapabilityMissing else IncompatibleVersion)
      in \<lparr> qn_name = pcap_name r, qn_version = pcap_version r, qn_required = pcap_required r, qn_status = status,
           qn_providers = providers, qn_available_versions = available_versions \<rparr>)"

definition negotiate_query_capabilities :: "package_capability list \<Rightarrow> discovered_worker list
    \<Rightarrow> query_capability_negotiation list" where
  "negotiate_query_capabilities requirements workers =
     map (negotiate workers) (sort_key requirement_order requirements)"

definition query_capability_support :: "query_capability_negotiation list \<Rightarrow> capability_support" where
  "query_capability_support ns =
     (if \<exists>n\<in>set ns. qn_required n \<and> qn_status n \<noteq> CapabilitySupported then SupportUnsupported
      else if \<exists>n\<in>set ns. qn_status n \<noteq> CapabilitySupported then SupportPartial
      else SupportComplete)"

section \<open>Groups\<close>

lemma language_key_inject: "language_key a = language_key b \<longleftrightarrow> a = b"
  by (cases a; cases b) auto

lemma group_key_eq: "group_key a = group_key b \<longleftrightarrow> su_component a = su_component b \<and> su_language a = su_language b"
  by (auto simp: group_key_def language_key_inject as_str_inject)

lemma group_by_snoc: "group_by key (xs @ [x]) = btree_push (key x) x (group_by key xs)"
  by (simp add: group_by_def)

lemma group_by_wf: "btree_wf (group_by key xs)"
  by (induction xs rule: rev_induct) (simp_all add: group_by_snoc btree_push_def group_by_def)

lemma group_by_get:
  "btree_get (group_by key xs) k = (if k \<in> key ` set xs then Some (filter (\<lambda>x. key x = k) xs) else None)"
proof (induction xs arbitrary: k rule: rev_induct)
  case Nil
  then show ?case by (simp add: group_by_def)
next
  case (snoc x xs)
  have "(case btree_get (group_by key xs) k of None \<Rightarrow> [] | Some ys \<Rightarrow> ys) = filter (\<lambda>x. key x = k) xs" for k
    by (auto simp: snoc.IH image_iff intro!: sym[OF filter_False])
  then show ?case
    by (auto simp: group_by_snoc btree_push_def btree_get_insert snoc.IH)
qed

lemma group_by_eq:
  "group_by key xs = map (\<lambda>k. (k, filter (\<lambda>x. key x = k) xs)) (sort_dedup (map key xs))"
proof (rule btree_ext[OF group_by_wf])
  show "btree_wf (map (\<lambda>k. (k, filter (\<lambda>x. key x = k) xs)) (sort_dedup (map key xs)))"
    by (simp add: btree_wf_def comp_def)
  show "btree_get (group_by key xs) k
      = btree_get (map (\<lambda>k. (k, filter (\<lambda>x. key x = k) xs)) (sort_dedup (map key xs))) k" for k
    by (simp add: group_by_get map_of_map_restrict restrict_map_def)
qed

lemma mset_filter_groups:
  "distinct ks \<Longrightarrow> key ` set xs \<subseteq> set ks \<Longrightarrow> mset (concat (map (\<lambda>k. filter (\<lambda>x. key x = k) xs) ks)) = mset xs"
proof (induction ks arbitrary: xs)
  case Nil
  then show ?case by simp
next
  case (Cons k ks)
  have "filter (\<lambda>x. key x = k') (filter (\<lambda>x. key x \<noteq> k) xs) = filter (\<lambda>x. key x = k') xs" if "k' \<in> set ks" for k'
    using that Cons.prems(1) by (auto simp: intro!: filter_cong)
  then have "mset (concat (map (\<lambda>k. filter (\<lambda>x. key x = k) xs) ks)) = mset (filter (\<lambda>x. key x \<noteq> k) xs)"
    using Cons.IH[of "filter (\<lambda>x. key x \<noteq> k) xs"] Cons.prems by (auto cong: map_cong)
  then have "mset (concat (map (\<lambda>k. filter (\<lambda>x. key x = k) xs) (k # ks)))
      = filter_mset (\<lambda>x. key x = k) (mset xs) + filter_mset (\<lambda>x. \<not> key x = k) (mset xs)"
    by simp
  then show ?case by (simp only: multiset_partition[symmetric])
qed

section \<open>What the selection guarantees\<close>

text \<open>The batches and the unsupported batches one group contributes.\<close>

definition group_worker :: "project_manifest \<Rightarrow> worker_capability list \<Rightarrow> discovered_worker list
    \<Rightarrow> source_unit \<Rightarrow> discovered_worker option" where
  "group_worker manifest required workers s =
     find (worker_serves (build_system_of manifest (su_component s)) (su_language s) required) (sort_key worker_order workers)"

definition group_batches :: "project_manifest \<Rightarrow> worker_capability list \<Rightarrow> discovered_worker list \<Rightarrow> usize
    \<Rightarrow> source_unit list \<Rightarrow> worker_batch list" where
  "group_batches manifest required workers limit units =
     (case group_worker manifest required workers (hd units) of
        None \<Rightarrow> []
      | Some w \<Rightarrow> map (\<lambda>chunk. \<lparr> wb_worker = w, wb_component = su_component (hd units),
            wb_language = su_language (hd units), wb_source_units = chunk \<rparr>) (chunks limit units))"

definition group_unsupported :: "project_manifest \<Rightarrow> worker_capability list \<Rightarrow> discovered_worker list
    \<Rightarrow> source_unit list \<Rightarrow> unsupported_batch list" where
  "group_unsupported manifest required workers units =
     (case group_worker manifest required workers (hd units) of
        None \<Rightarrow> [\<lparr> ub_component = su_component (hd units), ub_language = su_language (hd units),
            ub_build_system = build_system_of manifest (su_component (hd units)), ub_source_units = units \<rparr>]
      | Some w \<Rightarrow> [])"

lemma select_groups:
  "fold (\<lambda>(k, units). select_group manifest required (sort_key worker_order workers) limit units) gs sel
   = \<lparr> sel_batches = sel_batches sel @ concat (map (\<lambda>g. group_batches manifest required workers limit (snd g)) gs),
       sel_unsupported = sel_unsupported sel @ concat (map (\<lambda>g. group_unsupported manifest required workers (snd g)) gs) \<rparr>"
proof (induction gs arbitrary: sel)
  case Nil
  then show ?case by simp
next
  case (Cons g gs)
  then show ?case
    by (cases g) (simp add: select_group_def group_batches_def group_unsupported_def group_worker_def Let_def
        split: option.splits)
qed

abbreviation source_groups :: "source_unit list \<Rightarrow> source_unit list list" where
  "source_groups sources \<equiv> map snd (group_by group_key (sort_key source_order sources))"

lemma selection_of_groups:
  "select_discovered_with_batch_limit manifest sources required workers limit = Some sel \<longleftrightarrow>
     0 < limit
     \<and> sel = \<lparr> sel_batches = concat (map (group_batches manifest required workers limit) (source_groups sources)),
               sel_unsupported = concat (map (group_unsupported manifest required workers) (source_groups sources)) \<rparr>"
  by (auto simp: select_discovered_with_batch_limit_def select_groups comp_def)

text \<open>A group is never empty and holds every source of one component and language.\<close>

lemma source_group:
  assumes "g \<in> set (source_groups sources)"
  obtains s where "s \<in> set sources" "g \<noteq> []" "hd g \<in> set g"
    "g = filter (\<lambda>u. su_component u = su_component s \<and> su_language u = su_language s) (sort_key source_order sources)"
    "su_component (hd g) = su_component s" "su_language (hd g) = su_language s"
proof -
  from assms obtain s where s: "s \<in> set sources"
      "g = filter (\<lambda>u. group_key u = group_key s) (sort_key source_order sources)"
    by (auto simp: group_by_eq)
  then have g: "g = filter (\<lambda>u. su_component u = su_component s \<and> su_language u = su_language s) (sort_key source_order sources)"
    by (simp add: group_key_eq)
  have ne: "g \<noteq> []" using s by (auto simp: filter_empty_conv)
  then have hd: "hd g \<in> set g" by simp
  then have "su_component (hd g) = su_component s \<and> su_language (hd g) = su_language s"
    by (simp only: g set_filter) simp
  then show ?thesis using that s(1) ne hd g by blast
qed

lemma source_groups_partition: "mset (concat (source_groups sources)) = mset sources"
proof -
  have "mset (concat (source_groups sources)) = mset (sort_key source_order sources)"
    by (simp add: group_by_eq comp_def mset_filter_groups)
  then show ?thesis by simp
qed

lemma group_contributes:
  assumes "0 < limit" "g \<noteq> []"
  shows "concat (map wb_source_units (group_batches manifest required workers limit g))
       @ concat (map ub_source_units (group_unsupported manifest required workers g)) = g"
  using assms
  by (simp add: group_batches_def group_unsupported_def comp_def concat_chunks split: option.splits)

lemma selection_partition:
  assumes "0 < limit" "\<forall>g\<in>set gs. g \<noteq> []"
  shows "mset (concat (map wb_source_units (concat (map (group_batches manifest required workers limit) gs))))
       + mset (concat (map ub_source_units (concat (map (group_unsupported manifest required workers) gs))))
       = mset (concat gs)"
  using assms(2)
proof (induction gs)
  case Nil
  then show ?case by simp
next
  case (Cons g gs)
  have "mset g = mset (concat (map wb_source_units (group_batches manifest required workers limit g)))
       + mset (concat (map ub_source_units (group_unsupported manifest required workers g)))"
    using group_contributes[OF assms(1), of g manifest required workers] Cons.prems
    by (metis list.set_intros(1) mset_append)
  with Cons show ?case by simp
qed

lemma find_sorted_first:
  assumes "sorted (map key xs)" "find P xs = Some x"
  shows "x \<in> set xs \<and> P x \<and> (\<forall>y\<in>set xs. P y \<longrightarrow> key x \<le> key y)"
  using assms by (induction xs) (auto split: if_splits)

lemma group_worker_Some:
  "group_worker manifest required workers s = Some w \<Longrightarrow>
     w \<in> set workers \<and> worker_serves (build_system_of manifest (su_component s)) (su_language s) required w
     \<and> (\<forall>v\<in>set workers. worker_serves (build_system_of manifest (su_component s)) (su_language s) required v
          \<longrightarrow> worker_order w \<le> worker_order v)"
  using find_sorted_first[of worker_order "sort_key worker_order workers"] by (auto simp: group_worker_def)

lemma group_worker_None:
  "group_worker manifest required workers s = None \<longleftrightarrow>
     (\<forall>v\<in>set workers. \<not> worker_serves (build_system_of manifest (su_component s)) (su_language s) required v)"
  by (auto simp: group_worker_def find_None_iff)

text \<open>
  C10. Every source unit goes to exactly one batch, supported or not. A batch is nonempty, no
  longer than the limit and holds units of one component and one language; its worker is the first
  by name of the installed workers that serve the component's build system and the language and
  have the required capabilities. A group is unsupported only when no worker does.
\<close>

theorem selection_is_exact:
  assumes "select_discovered_with_batch_limit manifest sources required workers limit = Some sel"
  shows "mset (concat (map wb_source_units (sel_batches sel)))
       + mset (concat (map ub_source_units (sel_unsupported sel))) = mset sources
    \<and> (\<forall>b\<in>set (sel_batches sel).
         wb_source_units b \<noteq> [] \<and> length (wb_source_units b) \<le> limit
         \<and> (\<forall>u\<in>set (wb_source_units b). su_component u = wb_component b \<and> su_language u = wb_language b)
         \<and> wb_worker b \<in> set workers
         \<and> worker_serves (build_system_of manifest (wb_component b)) (wb_language b) required (wb_worker b)
         \<and> (\<forall>v\<in>set workers. worker_serves (build_system_of manifest (wb_component b)) (wb_language b) required v
              \<longrightarrow> worker_order (wb_worker b) \<le> worker_order v))
    \<and> (\<forall>b\<in>set (sel_unsupported sel).
         ub_source_units b \<noteq> []
         \<and> (\<forall>u\<in>set (ub_source_units b). su_component u = ub_component b \<and> su_language u = ub_language b)
         \<and> ub_build_system b = build_system_of manifest (ub_component b)
         \<and> (\<forall>v\<in>set workers. \<not> worker_serves (ub_build_system b) (ub_language b) required v))"
proof (intro conjI ballI)
  from assms have limit: "0 < limit"
    and batches: "sel_batches sel = concat (map (group_batches manifest required workers limit) (source_groups sources))"
    and unsupported: "sel_unsupported sel = concat (map (group_unsupported manifest required workers) (source_groups sources))"
    by (simp_all add: selection_of_groups)
  have nonempty: "\<forall>g\<in>set (source_groups sources). g \<noteq> []" by (blast elim: source_group)
  show "mset (concat (map wb_source_units (sel_batches sel)))
       + mset (concat (map ub_source_units (sel_unsupported sel))) = mset sources"
    unfolding batches unsupported selection_partition[OF limit nonempty] source_groups_partition ..
next
  fix b assume "b \<in> set (sel_batches sel)"
  with assms obtain g where g: "g \<in> set (source_groups sources)" "b \<in> set (group_batches manifest required workers limit g)"
    by (auto simp: selection_of_groups)
  then obtain w c where w: "group_worker manifest required workers (hd g) = Some w" and c: "c \<in> set (chunks limit g)"
      and b: "b = \<lparr> wb_worker = w, wb_component = su_component (hd g), wb_language = su_language (hd g), wb_source_units = c \<rparr>"
    using g(2) by (cases "group_worker manifest required workers (hd g)") (auto simp: group_batches_def)
  have "\<forall>u\<in>set g. su_component u = su_component (hd g) \<and> su_language u = su_language (hd g)"
    using g(1) by (rule source_group) auto
  then show "wb_source_units b \<noteq> []" "length (wb_source_units b) \<le> limit"
    "\<And>u. u \<in> set (wb_source_units b) \<Longrightarrow> su_component u = wb_component b"
    "\<And>u. u \<in> set (wb_source_units b) \<Longrightarrow> su_language u = wb_language b"
    using chunks_bounds[OF c] by (auto simp: b)
  show "wb_worker b \<in> set workers"
    "worker_serves (build_system_of manifest (wb_component b)) (wb_language b) required (wb_worker b)"
    "\<And>v. v \<in> set workers \<Longrightarrow> worker_serves (build_system_of manifest (wb_component b)) (wb_language b) required v
       \<longrightarrow> worker_order (wb_worker b) \<le> worker_order v"
    using group_worker_Some[OF w] by (simp_all add: b)
next
  fix b assume "b \<in> set (sel_unsupported sel)"
  with assms obtain g where g: "g \<in> set (source_groups sources)" "b \<in> set (group_unsupported manifest required workers g)"
    by (auto simp: selection_of_groups)
  then have w: "group_worker manifest required workers (hd g) = None"
      and b: "b = \<lparr> ub_component = su_component (hd g), ub_language = su_language (hd g),
                    ub_build_system = build_system_of manifest (su_component (hd g)), ub_source_units = g \<rparr>"
    by (auto simp: group_unsupported_def split: option.splits)
  have ne: "g \<noteq> []" using g(1) by (rule source_group)
  have same: "\<forall>u\<in>set g. su_component u = su_component (hd g) \<and> su_language u = su_language (hd g)"
    using g(1) by (rule source_group) auto
  show "ub_source_units b \<noteq> []" using ne by (simp add: b)
  show "su_component u = ub_component b" if "u \<in> set (ub_source_units b)" for u
    using that bspec[OF same, of u] by (simp add: b)
  show "su_language u = ub_language b" if "u \<in> set (ub_source_units b)" for u
    using that bspec[OF same, of u] by (simp add: b)
  show "ub_build_system b = build_system_of manifest (ub_component b)" by (simp add: b)
  show "\<And>v. v \<in> set workers \<Longrightarrow> \<not> worker_serves (ub_build_system b) (ub_language b) required v"
    using w by (simp add: b group_worker_None)
qed

text \<open>A component of the build system Gradle with three Kotlin files, and one worker.\<close>

definition registry_source :: "string \<Rightarrow> source_unit" where
  "registry_source p = \<lparr> su_id = SourceUnitId p, su_component = ComponentId ''app'', su_path = WorkspacePath p,
     su_language = Kotlin, su_origin = OriginSource, su_content = Fingerprint ''1'', su_context = Fingerprint ''2'' \<rparr>"

definition registry_manifest :: project_manifest where
  "registry_manifest = \<lparr> man_workspace = WorkspaceId ''w'', man_root = WorkspacePath ''.'',
     man_components = [\<lparr> comp_id = ComponentId ''app'', comp_name = ''app'', comp_build_system = Gradle,
       comp_root = WorkspacePath ''.'', comp_languages = [Kotlin], comp_configuration = Fingerprint ''2'',
       comp_source_sets = [], comp_classpath = [], comp_toolchain = None, comp_compiler_configuration = None \<rparr>],
     man_dependencies = [], man_fingerprint = Fingerprint ''3'',
     man_provenance = \<lparr> prov_backend = ''jvm'', prov_backend_version = ''1'', prov_protocol_version = 3,
       prov_analysis_options = Fingerprint ''2'' \<rparr> \<rparr>"

definition registry_worker :: "string \<Rightarrow> discovered_worker" where
  "registry_worker n = \<lparr> dw_installation = \<lparr> wn_name = n, wn_launch = new_launch n, wn_build_systems = [Gradle] \<rparr>,
     dw_capabilities = sample_capabilities\<lparr>wc_languages := [Kotlin], wc_capabilities := [CapHandshake, CapFileAnalysisSnapshot]\<rparr> \<rparr>"

lemma registry_selection:
  "select_discovered_with_batch_limit registry_manifest [registry_source ''b'', registry_source ''c'', registry_source ''a'']
     [CapFileAnalysisSnapshot] [registry_worker ''y'', registry_worker ''x''] 2
   = Some \<lparr> sel_batches =
       [\<lparr> wb_worker = registry_worker ''x'', wb_component = ComponentId ''app'', wb_language = Kotlin,
          wb_source_units = [registry_source ''a'', registry_source ''b''] \<rparr>,
        \<lparr> wb_worker = registry_worker ''x'', wb_component = ComponentId ''app'', wb_language = Kotlin,
          wb_source_units = [registry_source ''c''] \<rparr>],
       sel_unsupported = [] \<rparr>"
proof -
  have "sort_key source_order [registry_source ''b'', registry_source ''c'', registry_source ''a'']
      = [registry_source ''a'', registry_source ''b'', registry_source ''c'']"
    by (simp add: source_order_def registry_source_def)
  then have "group_by group_key (sort_key source_order [registry_source ''b'', registry_source ''c'', registry_source ''a''])
      = [((''app'', ''kotlin''), [registry_source ''a'', registry_source ''b'', registry_source ''c''])]"
    by (simp add: group_by_def btree_push_def group_key_def registry_source_def)
  moreover have "chunks 2 [registry_source ''a'', registry_source ''b'', registry_source ''c'']
      = [[registry_source ''a'', registry_source ''b''], [registry_source ''c'']]"
    by (simp add: chunks.simps[of 2 "_ # _"] chunks.simps[of _ "[]"])
  moreover have "sort_key worker_order [registry_worker ''y'', registry_worker ''x''] = [registry_worker ''x'', registry_worker ''y'']"
    by (simp add: worker_order_def registry_worker_def)
  moreover have "build_system_of registry_manifest (ComponentId ''app'') = Gradle"
    by (simp add: build_system_of_def component_build_systems_def registry_manifest_def)
  ultimately show ?thesis
    by (simp add: select_discovered_with_batch_limit_def select_group_def worker_serves_def registry_worker_def
        registry_source_def Let_def)
qed

theorem selection_is_exact_witness:
  "mset (concat (map wb_source_units
     [\<lparr> wb_worker = registry_worker ''x'', wb_component = ComponentId ''app'', wb_language = Kotlin,
        wb_source_units = [registry_source ''a'', registry_source ''b''] \<rparr>,
      \<lparr> wb_worker = registry_worker ''x'', wb_component = ComponentId ''app'', wb_language = Kotlin,
        wb_source_units = [registry_source ''c''] \<rparr>]))
   = mset [registry_source ''b'', registry_source ''c'', registry_source ''a'']"
  using conjunct1[OF selection_is_exact[OF registry_selection]] by simp

text \<open>Discovery asks every installation, in order, and stops at the first handshake that fails.\<close>

lemma discover_Ok:
  "discover A worlds v installations = Inr ws \<longleftrightarrow>
     list_all2 (\<lambda>i w. \<exists>r. fst (handshake A (worlds i) v ''worker-registry-handshake'' (new_supervisor (wn_launch i))) = Inr r
        \<and> w = \<lparr> dw_installation = i, dw_capabilities = hr_capabilities r \<rparr>) installations ws"
proof -
  have "(case h of Inl e \<Rightarrow> Err (HandshakeFailed (wn_name i) e)
          | Inr r \<Rightarrow> Ok \<lparr> dw_installation = i, dw_capabilities = hr_capabilities r \<rparr>) = Inr w
      \<longleftrightarrow> (\<exists>r. h = Inr r \<and> w = \<lparr> dw_installation = i, dw_capabilities = hr_capabilities r \<rparr>)"
    for h :: "handshake_response supervised" and i w
    by (cases h) auto
  then show ?thesis unfolding discover_def collect_results_Ok by (simp only:)
qed

lemma handshake_Ok_version:
  "handshake A w v i s = (Inr r, s') \<Longrightarrow> wc_protocol_version (hr_capabilities r) = WORKER_PROTOCOL_VERSION"
  by (auto simp: handshake_def split: sum.splits prod.splits worker_message.splits if_splits)

lemma list_all2_right: "list_all2 P xs ys \<Longrightarrow> y \<in> set ys \<Longrightarrow> \<exists>x\<in>set xs. P x y"
  by (induction rule: list_all2_induct) auto

lemma discovered_version:
  assumes "discover A worlds v installations = Inr ws" "w \<in> set ws"
  shows "wc_protocol_version (dw_capabilities w) = WORKER_PROTOCOL_VERSION \<and> dw_installation w \<in> set installations"
proof -
  from assms obtain i where "i \<in> set installations"
      "\<exists>r. fst (handshake A (worlds i) v ''worker-registry-handshake'' (new_supervisor (wn_launch i))) = Inr r
        \<and> w = \<lparr> dw_installation = i, dw_capabilities = hr_capabilities r \<rparr>"
    using list_all2_right[OF assms(1)[unfolded discover_Ok] assms(2)] by blast
  then show ?thesis
    using handshake_Ok_version by (metis discovered_worker.select_convs prod.collapse)
qed

text \<open>What the workers offer under a name and a version.\<close>

definition provides :: "discovered_worker \<Rightarrow> string \<Rightarrow> u32 \<Rightarrow> bool" where
  "provides w name version \<longleftrightarrow>
     (\<exists>c\<in>set (wc_semantic_query_capabilities (dw_capabilities w)). sqc_name c = name \<and> sqc_version c = version)"

lemma set_offers: "(v, n) \<in> set (offers workers name) \<longleftrightarrow>
    (\<exists>w\<in>set workers. provides w name v \<and> wn_name (dw_installation w) = n)"
  by (auto simp: offers_def provides_def)

lemma qn_status_negotiate:
  "qn_status (negotiate workers r) = CapabilitySupported \<longleftrightarrow> (\<exists>w\<in>set workers. provides w (pcap_name r) (pcap_version r))"
proof -
  have "filter (\<lambda>x. fst x = pcap_version r) (offers workers (pcap_name r)) \<noteq> []
      \<longleftrightarrow> (\<exists>w\<in>set workers. provides w (pcap_name r) (pcap_version r))"
  proof -
    have "filter (\<lambda>x. fst x = pcap_version r) (offers workers (pcap_name r)) \<noteq> []
        \<longleftrightarrow> (\<exists>n. (pcap_version r, n) \<in> set (offers workers (pcap_name r)))"
      by (force simp: filter_empty_conv)
    also have "\<dots> \<longleftrightarrow> (\<exists>w\<in>set workers. provides w (pcap_name r) (pcap_version r))"
      by (simp only: set_offers) blast
    finally show ?thesis .
  qed
  then show ?thesis by (auto simp: negotiate_def Let_def)
qed

text \<open>
  The negotiation answers every requirement once, and its verdict is exact: support is
  complete when some worker provides every required or optional capability in its version, partial
  when an optional one alone is not provided, and unsupported as soon as a required one is
  not, whatever else the workers offer.
\<close>

theorem negotiation_is_exact:
  "mset (map (\<lambda>n. (qn_name n, qn_version n, qn_required n)) (negotiate_query_capabilities requirements workers))
     = mset (map (\<lambda>r. (pcap_name r, pcap_version r, pcap_required r)) requirements)
   \<and> query_capability_support (negotiate_query_capabilities requirements workers)
     = (let provided = (\<lambda>r. \<exists>w\<in>set workers. provides w (pcap_name r) (pcap_version r))
        in if \<exists>r\<in>set requirements. pcap_required r \<and> \<not> provided r then SupportUnsupported
           else if \<exists>r\<in>set requirements. \<not> provided r then SupportPartial else SupportComplete)"
proof
  have fields: "(qn_name (negotiate workers r), qn_version (negotiate workers r), qn_required (negotiate workers r))
      = (pcap_name r, pcap_version r, pcap_required r)" for r
    by (simp add: negotiate_def Let_def)
  then show "mset (map (\<lambda>n. (qn_name n, qn_version n, qn_required n)) (negotiate_query_capabilities requirements workers))
     = mset (map (\<lambda>r. (pcap_name r, pcap_version r, pcap_required r)) requirements)"
    by (simp add: negotiate_query_capabilities_def comp_def)
  show "query_capability_support (negotiate_query_capabilities requirements workers)
     = (let provided = (\<lambda>r. \<exists>w\<in>set workers. provides w (pcap_name r) (pcap_version r))
        in if \<exists>r\<in>set requirements. pcap_required r \<and> \<not> provided r then SupportUnsupported
           else if \<exists>r\<in>set requirements. \<not> provided r then SupportPartial else SupportComplete)"
    using fields by (auto simp: query_capability_support_def negotiate_query_capabilities_def qn_status_negotiate Let_def)
qed

end
