(* ===== verification/Orchestrator.thy ===== *)
theory Orchestrator
  imports Worker_Registry Incremental Store_Reads Store_Catalog
begin

text \<open>
  Index runs (\<open>crates/kide-core/src/orchestrator.rs\<close>): the plan of a run, the conversation with the
  workers, the validation of what they return and what is committed to the store. A run is a
  task over the store and the counters of the run; it is done, fails with an error, panics or, when a
  worker never ends its catalog, does not return.
\<close>

section \<open>Data\<close>

datatype orchestrator_error =
  OrchestratorWorker supervisor_error
| OrchestratorStore index_store_error
| OrchestratorBlobCache blob_cache_error
| InvalidStagedArtifact
| UnexpectedSnapshot string
| MissingSnapshot string
| InvalidBatchResponse worker_message
| UnsupportedBatches nat
| ExecutionPlanManifestMismatch string fingerprint fingerprint
| WorkerNoLongerCompatible string string language
| DependencyWorkerPanicked
| DependencyContextMismatch string fingerprint fingerprint
| UnknownDependencyComponent string

record batch_index_metrics =
  bm_component :: string
  bm_language :: string
  bm_source_units :: usize
  bm_worker_millis :: nat
  bm_commit_millis :: nat
  bm_worker_phases :: "(string, u64) btree"
  bm_worker_metrics :: "(string, u64) btree"

record index_run =
  ir_reused :: usize
  ir_analyzed :: usize
  ir_removed :: usize
  ir_worker_starts :: nat
  ir_dependency_analyzed :: usize
  ir_dependency_reused :: usize
  ir_dependency_catalog_millis :: nat
  ir_dependency_materialization_millis :: nat
  ir_source_worker_millis :: nat
  ir_source_commit_millis :: nat
  ir_worker_phase_millis :: "(string, u64) btree"
  ir_worker_metrics :: "(string, u64) btree"
  ir_batches :: "batch_index_metrics list"
  ir_artifact_locators :: "(string, string) btree"

definition empty_run :: index_run where
  "empty_run = \<lparr> ir_reused = 0, ir_analyzed = 0, ir_removed = 0, ir_worker_starts = 0, ir_dependency_analyzed = 0,
     ir_dependency_reused = 0, ir_dependency_catalog_millis = 0, ir_dependency_materialization_millis = 0,
     ir_source_worker_millis = 0, ir_source_commit_millis = 0, ir_worker_phase_millis = [], ir_worker_metrics = [],
     ir_batches = [], ir_artifact_locators = [] \<rparr>"

record dependency_catalog =
  dc_descriptors :: "artifact_descriptor list"
  dc_artifact_locators :: "(string, string) btree"
  dc_worker_starts :: nat
  dc_elapsed_millis :: nat

text \<open>
  What a run meets: every exchange with a worker, by request id; whether the worker of a batch has
  exited when the batch begins; the measured times, by phase; the writer of JSON text and the
  lower-case debug form of a language.
\<close>

record 'p host =
  h_adapter :: "'p adapter"
  h_core_version :: string
  h_worlds :: "string \<Rightarrow> 'p world"
  h_exited :: "nat \<Rightarrow> bool"
  h_millis :: "string \<Rightarrow> nat"
  h_json :: "string list \<Rightarrow> string"
  h_language_name :: "language \<Rightarrow> string"

section \<open>Tasks\<close>

record index_state =
  ix_facts :: facts
  ix_catalog :: catalog
  ix_run :: index_run

datatype 'a outcome = Done 'a | Failing orchestrator_error | Panicked | Endless

type_synonym 'a task = "index_state \<Rightarrow> 'a outcome \<times> index_state"

definition return_task :: "'a \<Rightarrow> 'a task" where
  "return_task x s = (Done x, s)"

definition fail :: "orchestrator_error \<Rightarrow> 'a task" where
  "fail e s = (Failing e, s)"

definition panic :: "'a task" where
  "panic s = (Panicked, s)"

definition then_do :: "'a task \<Rightarrow> ('a \<Rightarrow> 'b task) \<Rightarrow> 'b task" where
  "then_do m f s = (case m s of (Done x, s) \<Rightarrow> f x s | (Failing e, s) \<Rightarrow> (Failing e, s)
     | (Panicked, s) \<Rightarrow> (Panicked, s) | (Endless, s) \<Rightarrow> (Endless, s))"

definition attempt :: "(orchestrator_error, 'a) result \<Rightarrow> 'a task" where
  "attempt r = (case r of Inl e \<Rightarrow> fail e | Inr x \<Rightarrow> return_task x)"

definition read_facts :: "(facts \<Rightarrow> 'a stored) \<Rightarrow> 'a task" where
  "read_facts f s = (case f (ix_facts s) of Inl e \<Rightarrow> (Failing (OrchestratorStore e), s) | Inr x \<Rightarrow> (Done x, s))"

definition write_facts :: "(facts \<Rightarrow> unit stored \<times> facts) \<Rightarrow> unit task" where
  "write_facts f s = (case f (ix_facts s) of (r, F) \<Rightarrow>
     (case r of Inl e \<Rightarrow> Failing (OrchestratorStore e) | Inr _ \<Rightarrow> Done (), s\<lparr>ix_facts := F\<rparr>))"

definition write_catalog :: "(catalog \<Rightarrow> unit stored \<times> catalog) \<Rightarrow> unit task" where
  "write_catalog f s = (case f (ix_catalog s) of (r, c) \<Rightarrow>
     (case r of Inl e \<Rightarrow> Failing (OrchestratorStore e) | Inr _ \<Rightarrow> Done (), s\<lparr>ix_catalog := c\<rparr>))"

definition get_state :: "(index_state \<Rightarrow> 'a) \<Rightarrow> 'a task" where
  "get_state f s = (Done (f s), s)"

definition change_run :: "(index_run \<Rightarrow> index_run) \<Rightarrow> unit task" where
  "change_run f s = (Done (), s\<lparr>ix_run := f (ix_run s)\<rparr>)"

fun for_all :: "('a \<Rightarrow> unit task) \<Rightarrow> 'a list \<Rightarrow> unit task" where
  "for_all f [] = return_task ()"
| "for_all f (x # xs) = then_do (f x) (\<lambda>_. for_all f xs)"

section \<open>Validation\<close>

definition validate_execution_plan :: "project_manifest \<Rightarrow> opaque_execution_plan \<Rightarrow> (orchestrator_error, unit) result" where
  "validate_execution_plan manifest plan =
     (if ep_resolved_fingerprint plan \<noteq> man_fingerprint manifest
      then Err (ExecutionPlanManifestMismatch (ep_backend plan) (ep_resolved_fingerprint plan) (man_fingerprint manifest))
      else Ok ())"

definition legacy_execution_plan :: "project_manifest \<Rightarrow> opaque_execution_plan" where
  "legacy_execution_plan manifest =
     \<lparr> ep_backend = ''legacy'', ep_resolved_fingerprint = man_fingerprint manifest, ep_payload = [] \<rparr>"

text \<open>The first unexpected or missing unit in the order of the ids.\<close>

definition validate_batch :: "source_unit list \<Rightarrow> file_analysis_snapshot list
    \<Rightarrow> (orchestrator_error, file_analysis_snapshot list) result" where
  "validate_batch requested snapshots =
     (let expected = sort_dedup (map unit_key requested);
          received = sort_dedup (map (\<lambda>s. unit_key (snap_source_unit s)) snapshots)
      in case filter (\<lambda>u. u \<notin> set expected) received of
           extra # _ \<Rightarrow> Err (UnexpectedSnapshot extra)
         | [] \<Rightarrow> (case filter (\<lambda>u. u \<notin> set received) expected of
                    missing # _ \<Rightarrow> Err (MissingSnapshot missing)
                  | [] \<Rightarrow> Ok snapshots))"

section \<open>The dependency catalog\<close>

definition expected_contexts :: "project_manifest \<Rightarrow> (string, fingerprint) btree" where
  "expected_contexts manifest =
     fold (\<lambda>c. btree_insert (as_str (comp_id c)) (comp_configuration c)) (man_components manifest) []"

definition check_descriptor :: "(string, fingerprint) btree \<Rightarrow> artifact_descriptor \<Rightarrow> (orchestrator_error, unit) result" where
  "check_descriptor contexts d =
     (let component = as_str (su_component (ad_source_unit d))
      in case btree_get contexts component of
           None \<Rightarrow> Err (UnknownDependencyComponent component)
         | Some expected \<Rightarrow>
             if su_context (ad_source_unit d) \<noteq> expected
             then Err (DependencyContextMismatch component expected (su_context (ad_source_unit d)))
             else Ok ())"

record discovery =
  dv_descriptors :: "(string, artifact_descriptor) btree"
  dv_locators :: "(string, string) btree"

definition collect_page :: "artifact_discovery_response \<Rightarrow> discovery \<Rightarrow> discovery" where
  "collect_page r d =
     \<lparr> dv_descriptors = fold (\<lambda>x. btree_insert (artifact_key x) x) (dr_artifacts r) (dv_descriptors d),
       dv_locators = fold (\<lambda>l. btree_insert (as_str (al_source_unit l)) (al_locator l)) (dr_artifact_locators r)
         (dv_locators d) \<rparr>"

text \<open>
  One page: the request, the checks, and the cursor of the next page if there is one. The page counter is a
  64-bit integer that wraps, as in a release build.
\<close>

definition discovery_page :: "'p host \<Rightarrow> opaque_execution_plan \<Rightarrow> (string, fingerprint) btree \<Rightarrow> string option \<Rightarrow> u64
    \<Rightarrow> discovery \<Rightarrow> 'p supervisor \<Rightarrow> (orchestrator_error, discovery \<times> string option \<times> 'p supervisor) result" where
  "discovery_page h plan contexts cursor page d s =
     (let request_id = ''index-artifact-descriptors-'' @ decimal (unat page);
          message = MsgArtifactDiscoveryRequest
            \<lparr> dq_workspace_root = WorkspacePath ''.'', dq_max_artifacts = 64, dq_cursor = cursor, dq_execution_plan = plan \<rparr>
      in case request (h_adapter h) (h_worlds h request_id) (new_envelope request_id message) s of
           (Inl e, s) \<Rightarrow> Err (OrchestratorWorker e)
         | (Inr envelope, s) \<Rightarrow>
             (case env_message envelope of
                MsgArtifactDiscoveryResponse r \<Rightarrow>
                  and_then (check_all (check_descriptor contexts) (dr_artifacts r)) (\<lambda>_.
                    Ok (collect_page r d, dr_next_cursor r, s))
              | received \<Rightarrow> Err (InvalidBatchResponse received)))"

partial_function (option) discovery_loop :: "'p host \<Rightarrow> opaque_execution_plan \<Rightarrow> (string, fingerprint) btree
    \<Rightarrow> string option \<Rightarrow> u64 \<Rightarrow> discovery \<Rightarrow> 'p supervisor
    \<Rightarrow> (orchestrator_error, discovery \<times> 'p supervisor) result option" where
  "discovery_loop h plan contexts cursor page d s =
     (case discovery_page h plan contexts cursor page d s of
        Inl e \<Rightarrow> Some (Err e)
      | Inr (d', next, s') \<Rightarrow>
          (case next of
             None \<Rightarrow> Some (Ok (d', s'))
           | Some cursor' \<Rightarrow> discovery_loop h plan contexts (Some cursor') (page + 1) d' s'))"

text \<open>\<^const>\<open>None\<close> when the loop over the pages does not end.\<close>

definition discover_dependency_catalog :: "'p host \<Rightarrow> worker_launch \<Rightarrow> project_manifest \<Rightarrow> opaque_execution_plan
    \<Rightarrow> (orchestrator_error, dependency_catalog) result option" where
  "discover_dependency_catalog h launch manifest plan =
     (let request_id = ''index-dependency-catalog''
      in case handshake (h_adapter h) (h_worlds h request_id) (h_core_version h) request_id (new_supervisor launch) of
           (Inl e, s) \<Rightarrow> Some (Err (OrchestratorWorker e))
         | (Inr _, s) \<Rightarrow>
             map_option (\<lambda>r. and_then r (\<lambda>(d, s). Ok
               \<lparr> dc_descriptors = map snd (dv_descriptors d), dc_artifact_locators = dv_locators d,
                 dc_worker_starts = sv_starts s, dc_elapsed_millis = h_millis h ''dependency-catalog'' \<rparr>))
             (discovery_loop h plan (expected_contexts manifest) None 0 \<lparr> dv_descriptors = [], dv_locators = [] \<rparr> s))"

text \<open>Joining the dependency lane and publishing its catalog.\<close>

definition join_catalog :: "(orchestrator_error, dependency_catalog) result option \<Rightarrow> unit task" where
  "join_catalog lane =
     (case lane of
        None \<Rightarrow> (\<lambda>s. (Endless, s))
      | Some result \<Rightarrow>
          then_do (attempt result) (\<lambda>c.
          then_do (write_catalog (replace_artifact_descriptors (dc_descriptors c))) (\<lambda>_.
          change_run (\<lambda>r. r\<lparr> ir_artifact_locators := dc_artifact_locators c,
            ir_worker_starts := ir_worker_starts r + dc_worker_starts c,
            ir_dependency_catalog_millis := ir_dependency_catalog_millis r + dc_elapsed_millis c \<rparr>))))"

definition join_lane :: "(orchestrator_error, dependency_catalog) result option option \<Rightarrow> unit task" where
  "join_lane lane = (case lane of None \<Rightarrow> return_task () | Some l \<Rightarrow> join_catalog l)"

section \<open>Pieces of a run\<close>

definition add_to :: "string \<Rightarrow> u64 \<Rightarrow> (string, u64) btree \<Rightarrow> (string, u64) btree" where
  "add_to k v m = btree_insert k ((case btree_get m k of None \<Rightarrow> 0 | Some n \<Rightarrow> n) + v) m"

definition add_timings :: "phase_timing list \<Rightarrow> (string, u64) btree \<Rightarrow> (string, u64) btree" where
  "add_timings ts m = fold (\<lambda>t. add_to (pt_phase t) (pt_elapsed_millis t)) ts m"

definition add_metrics :: "worker_metric list \<Rightarrow> (string, u64) btree \<Rightarrow> (string, u64) btree" where
  "add_metrics ms m = fold (\<lambda>x. add_to (wm_name x) (wm_value x)) ms m"

definition record_response :: "nat \<Rightarrow> analysis_batch_response \<Rightarrow> index_run \<Rightarrow> index_run" where
  "record_response worker_millis r run =
     run\<lparr> ir_source_worker_millis := ir_source_worker_millis run + worker_millis,
          ir_worker_phase_millis := add_timings (br_timings r) (ir_worker_phase_millis run),
          ir_worker_metrics := add_metrics (br_metrics r) (ir_worker_metrics run) \<rparr>"

definition all_facts :: "analysis_fact list" where
  "all_facts = [FactSymbols, FactOccurrences, FactReferences, FactCalls, FactHierarchy, FactTypes]"

definition batch_request :: "string \<Rightarrow> project_manifest \<Rightarrow> source_unit list \<Rightarrow> opaque_execution_plan \<Rightarrow> worker_envelope" where
  "batch_request request_id manifest units plan = new_envelope request_id (MsgAnalyzeBatchRequest
     \<lparr> bq_workspace = man_workspace manifest, bq_project_fingerprint = man_fingerprint manifest,
       bq_requested_facts = all_facts, bq_source_units = units, bq_execution_plan = plan \<rparr>)"

text \<open>The sources of the current facts, and whether the resolved manifest is not the stored one.\<close>

definition persisted_sources :: "index_state \<Rightarrow> source_unit list" where
  "persisted_sources s = filter (\<lambda>u. su_origin u \<noteq> OriginDependency) (stored_source_units (ix_facts s))"

definition catalog_needed :: "project_manifest \<Rightarrow> index_state \<Rightarrow> bool" where
  "catalog_needed manifest s =
     (case latest_manifest (ix_catalog s) of
        None \<Rightarrow> True
      | Some previous \<Rightarrow> man_fingerprint previous \<noteq> man_fingerprint manifest)"

definition previous_inputs :: "provenance option \<Rightarrow> analysis_input list task" where
  "previous_inputs prov = (case prov of None \<Rightarrow> return_task [] | Some _ \<Rightarrow> read_facts stored_analysis_inputs)"

definition plan_actions :: "source_unit list \<Rightarrow> provenance option \<Rightarrow> analysis_input list \<Rightarrow> index_state \<Rightarrow> index_action list" where
  "plan_actions current prov previous s =
     (case prov of
        Some p \<Rightarrow> plan_sources (plan_incremental_analysis_index ManifestReuse
          (map (\<lambda>u. \<lparr> ai_source_unit = u, ai_provenance = p, ai_public_api_fingerprint = None \<rparr>) current)
          previous [] [] (\<lambda>_. False))
      | None \<Rightarrow> plan_sources (plan_incremental_index ManifestReuse current (persisted_sources s) [] [] (\<lambda>_. False)))"

text \<open>The loop over the actions; the units to analyse again, in plan order.\<close>

fun apply_actions :: "index_action list \<Rightarrow> source_unit list task" where
  "apply_actions [] = return_task []"
| "apply_actions (Reuse u # actions) =
     then_do (change_run (\<lambda>r. r\<lparr>ir_reused := ir_reused r + 1\<rparr>)) (\<lambda>_. apply_actions actions)"
| "apply_actions (Reanalyze u reason # actions) =
     then_do (apply_actions actions) (\<lambda>units. return_task (u # units))"
| "apply_actions (Remove i # actions) =
     then_do (write_facts (remove_snapshot i)) (\<lambda>_.
     then_do (change_run (\<lambda>r. r\<lparr>ir_removed := ir_removed r + 1\<rparr>)) (\<lambda>_. apply_actions actions))"

section \<open>One batch\<close>

text \<open>
  The entry of one requested unit, and the units its changed interface invalidates; \<^const>\<open>None\<close> is
  the failed expectation that a validated batch contains the unit.
\<close>

definition batch_entry :: "facts \<Rightarrow> analysis_input list \<Rightarrow> file_analysis_snapshot list \<Rightarrow> source_unit
    \<Rightarrow> (index_store_error, (source_unit \<times> file_analysis_snapshot) \<times> source_unit_id list) result option" where
  "batch_entry F previous snapshots expected =
     (case find (\<lambda>s. su_id (snap_source_unit s) = su_id expected) snapshots of
        None \<Rightarrow> None
      | Some snapshot \<Rightarrow>
          let previous_api = (case find (\<lambda>i. su_id (ai_source_unit i) = su_id expected) previous of
                None \<Rightarrow> None | Some i \<Rightarrow> ai_public_api_fingerprint i)
          in Some (and_then (dependent_source_units (su_id expected) F) (\<lambda>dependents.
               Ok ((expected, snapshot),
                   api_dependent_invalidations previous_api (snap_public_api_fingerprint snapshot) dependents))))"

fun batch_entries :: "analysis_input list \<Rightarrow> file_analysis_snapshot list \<Rightarrow> source_unit list
    \<Rightarrow> ((source_unit \<times> file_analysis_snapshot) list \<times> source_unit_id list) task" where
  "batch_entries previous snapshots [] = return_task ([], [])"
| "batch_entries previous snapshots (u # units) =
     then_do (get_state (\<lambda>s. batch_entry (ix_facts s) previous snapshots u)) (\<lambda>entry.
     case entry of
       None \<Rightarrow> panic
     | Some (Inl e) \<Rightarrow> fail (OrchestratorStore e)
     | Some (Inr (x, ids)) \<Rightarrow>
         then_do (batch_entries previous snapshots units) (\<lambda>(xs, more). return_task (x # xs, ids @ more)))"

text \<open>The conversation with a new worker about the units.\<close>

definition analyze_units :: "'p host \<Rightarrow> project_manifest \<Rightarrow> worker_launch \<Rightarrow> opaque_execution_plan \<Rightarrow> source_unit list
    \<Rightarrow> (orchestrator_error, worker_message \<times> 'p supervisor) result" where
  "analyze_units h manifest launch plan units =
     (case handshake (h_adapter h) (h_worlds h ''index-handshake'') (h_core_version h) ''index-handshake''
             (new_supervisor launch) of
        (Inl e, s) \<Rightarrow> Err (OrchestratorWorker e)
      | (Inr _, s) \<Rightarrow>
          (case request (h_adapter h) (h_worlds h ''index-batch'') (batch_request ''index-batch'' manifest units plan) s of
             (Inl e, s) \<Rightarrow> Err (OrchestratorWorker e)
           | (Inr envelope, s) \<Rightarrow> Ok (env_message envelope, s)))"

text \<open>What follows the response: validation, the commit, and the removal of invalidated dependents.\<close>

definition commit_batch :: "'p host \<Rightarrow> source_unit list \<Rightarrow> analysis_batch_response \<Rightarrow> unit task" where
  "commit_batch h units response =
     then_do (attempt (validate_batch units (br_snapshots response))) (\<lambda>snapshots.
     then_do (change_run (record_response (h_millis h ''worker'') response)) (\<lambda>_.
     then_do (read_facts stored_analysis_inputs) (\<lambda>previous.
     then_do (batch_entries previous snapshots units) (\<lambda>(entries, api_dependents).
     then_do (write_facts (replace_snapshots_batch (h_json h) entries)) (\<lambda>_.
     then_do (change_run (\<lambda>r. r\<lparr>ir_analyzed := ir_analyzed r + length entries\<rparr>)) (\<lambda>_.
     then_do (for_all (\<lambda>dependent.
         if \<exists>u\<in>set units. su_id u = dependent then return_task ()
         else then_do (write_facts (remove_snapshot dependent)) (\<lambda>_.
              change_run (\<lambda>r. r\<lparr>ir_removed := ir_removed r + 1\<rparr>))) api_dependents) (\<lambda>_.
     change_run (\<lambda>r. r\<lparr>ir_source_commit_millis := ir_source_commit_millis r + h_millis h ''commit''\<rparr>))))))))"

definition batch_metrics :: "'p host \<Rightarrow> source_unit list \<Rightarrow> analysis_batch_response \<Rightarrow> batch_index_metrics" where
  "batch_metrics h units response =
     \<lparr> bm_component = as_str (su_component (hd units)), bm_language = h_language_name h (su_language (hd units)),
       bm_source_units = length units, bm_worker_millis = h_millis h ''worker'', bm_commit_millis = h_millis h ''batch-commit'',
       bm_worker_phases = add_timings (br_timings response) [], bm_worker_metrics = add_metrics (br_metrics response) [] \<rparr>"

text \<open>\<open>let WorkerMessage::AnalysisBatchResponse(response) = message else\<close>.\<close>

definition batch_response :: "worker_message \<Rightarrow> analysis_batch_response option" where
  "batch_response message = (case message of MsgAnalysisBatchResponse r \<Rightarrow> Some r | _ \<Rightarrow> None)"

text \<open>The part of the run with units to analyse; the dependency lane is joined after the commit.\<close>

definition analyze_and_commit :: "'p host \<Rightarrow> project_manifest \<Rightarrow> worker_launch \<Rightarrow> opaque_execution_plan
    \<Rightarrow> source_unit list \<Rightarrow> (orchestrator_error, dependency_catalog) result option option \<Rightarrow> index_run task" where
  "analyze_and_commit h manifest launch plan units lane =
     then_do (attempt (analyze_units h manifest launch plan units)) (\<lambda>(message, supervisor).
     case batch_response message of
       None \<Rightarrow> fail (InvalidBatchResponse message)
     | Some response \<Rightarrow>
         then_do (commit_batch h units response) (\<lambda>_.
         then_do (join_lane lane) (\<lambda>_.
         then_do (change_run (\<lambda>r. r\<lparr>ir_batches := ir_batches r @ [batch_metrics h units response]\<rparr>)) (\<lambda>_.
         then_do (write_catalog (put_manifest manifest)) (\<lambda>_.
         then_do (change_run (\<lambda>r. r\<lparr>ir_worker_starts := ir_worker_starts r + sv_starts supervisor\<rparr>)) (\<lambda>_.
         get_state ix_run))))))"

text \<open>The part of the run without: only the dependency catalog and the manifest can be new.\<close>

definition publish_unchanged :: "project_manifest \<Rightarrow> (orchestrator_error, dependency_catalog) result option option
    \<Rightarrow> index_run task" where
  "publish_unchanged manifest lane =
     then_do (join_lane lane) (\<lambda>_. then_do (write_catalog (put_manifest manifest)) (\<lambda>_. get_state ix_run))"

definition index_batch_with_optional_cache :: "'p host \<Rightarrow> project_manifest \<Rightarrow> source_unit list \<Rightarrow> worker_launch
    \<Rightarrow> provenance option \<Rightarrow> opaque_execution_plan \<Rightarrow> index_run task" where
  "index_batch_with_optional_cache h manifest current launch prov plan =
     then_do (get_state (catalog_needed manifest)) (\<lambda>needed.
     then_do (previous_inputs prov) (\<lambda>previous.
     then_do (get_state (plan_actions current prov previous)) (\<lambda>actions.
     then_do (change_run (\<lambda>_. empty_run)) (\<lambda>_.
     then_do (apply_actions actions) (\<lambda>units.
     let lane = (if needed then Some (discover_dependency_catalog h launch manifest plan) else None)
     in if units = [] then publish_unchanged manifest lane
        else analyze_and_commit h manifest launch plan units lane)))))"

definition index_batch :: "'p host \<Rightarrow> project_manifest \<Rightarrow> source_unit list \<Rightarrow> worker_launch \<Rightarrow> index_run task" where
  "index_batch h manifest current launch =
     index_batch_with_optional_cache h manifest current launch None (legacy_execution_plan manifest)"

definition index_batch_with_artifact_cache_and_provenance :: "'p host \<Rightarrow> project_manifest \<Rightarrow> source_unit list
    \<Rightarrow> worker_launch \<Rightarrow> provenance \<Rightarrow> index_run task" where
  "index_batch_with_artifact_cache_and_provenance h manifest current launch prov =
     index_batch_with_optional_cache h manifest current launch (Some prov) (legacy_execution_plan manifest)"

definition index_batch_with_artifact_cache_provenance_and_execution_plan :: "'p host \<Rightarrow> project_manifest
    \<Rightarrow> source_unit list \<Rightarrow> worker_launch \<Rightarrow> provenance \<Rightarrow> opaque_execution_plan \<Rightarrow> index_run task" where
  "index_batch_with_artifact_cache_provenance_and_execution_plan h manifest current launch prov plan =
     then_do (attempt (validate_execution_plan manifest plan)) (\<lambda>_.
     index_batch_with_optional_cache h manifest current launch (Some prov) plan)"

section \<open>Selected batches\<close>

definition requested_units :: "source_unit list \<Rightarrow> worker_batch \<Rightarrow> source_unit list" where
  "requested_units reanalyze b = filter (\<lambda>u. su_id u \<in> su_id ` set reanalyze) (wb_source_units b)"

definition handshake_batch :: "'p host \<Rightarrow> worker_batch \<Rightarrow> nat \<Rightarrow> 'p supervisor
    \<Rightarrow> (orchestrator_error, 'p supervisor) result" where
  "handshake_batch h b index s =
     (let (running, s) = is_running (h_exited h index) s;
          request_id = ''index-handshake-'' @ decimal index
      in if running then Ok s
         else case handshake (h_adapter h) (h_worlds h request_id) (h_core_version h) request_id s of
                (Inl e, s) \<Rightarrow> Err (OrchestratorWorker e)
              | (Inr response, s) \<Rightarrow>
                  if wb_language b \<in> set (wc_languages (hr_capabilities response))
                     \<and> CapFileAnalysisSnapshot \<in> set (wc_capabilities (hr_capabilities response))
                  then Ok s
                  else Err (WorkerNoLongerCompatible (wn_name (dw_installation (wb_worker b)))
                         (as_str (wb_component b)) (wb_language b)))"

text \<open>The conversation about one batch.\<close>

definition analyze_requested :: "'p host \<Rightarrow> project_manifest \<Rightarrow> worker_batch \<Rightarrow> source_unit list \<Rightarrow> nat
    \<Rightarrow> 'p supervisor \<Rightarrow> opaque_execution_plan \<Rightarrow> (orchestrator_error, worker_message \<times> 'p supervisor) result" where
  "analyze_requested h manifest b requested index supervisor plan =
     and_then (handshake_batch h b index supervisor) (\<lambda>s.
     let request_id = ''index-batch-'' @ decimal index
     in case request (h_adapter h) (h_worlds h request_id) (batch_request request_id manifest requested plan) s of
          (Inl e, s) \<Rightarrow> Err (OrchestratorWorker e)
        | (Inr envelope, s) \<Rightarrow> Ok (env_message envelope, s))"

text \<open>The commit of its response; every snapshot is stored as an analysis of the source unit it names.\<close>

definition commit_selected :: "'p host \<Rightarrow> worker_batch \<Rightarrow> string \<Rightarrow> source_unit list \<Rightarrow> analysis_batch_response \<Rightarrow> unit task" where
  "commit_selected h b request_id requested response =
     then_do (attempt (validate_batch requested (br_snapshots response))) (\<lambda>snapshots.
     then_do (change_run (record_response (h_millis h request_id) response)) (\<lambda>_.
     then_do (write_facts (replace_snapshots_batch (h_json h)
         (map (\<lambda>snapshot. (snap_source_unit snapshot, snapshot)) snapshots))) (\<lambda>_.
     change_run (\<lambda>r. r\<lparr> ir_analyzed := ir_analyzed r + length snapshots,
         ir_source_commit_millis := ir_source_commit_millis r + h_millis h ''commit'',
         ir_batches := ir_batches r @
           [\<lparr> bm_component = as_str (wb_component b), bm_language = h_language_name h (wb_language b),
              bm_source_units = length requested, bm_worker_millis = h_millis h request_id,
              bm_commit_millis = h_millis h ''batch-commit'',
              bm_worker_phases = add_timings (br_timings response) [],
              bm_worker_metrics = add_metrics (br_metrics response) [] \<rparr>] \<rparr>))))"

definition analyze_selected_batch :: "'p host \<Rightarrow> project_manifest \<Rightarrow> worker_batch \<Rightarrow> source_unit list \<Rightarrow> nat
    \<Rightarrow> 'p supervisor \<Rightarrow> opaque_execution_plan \<Rightarrow> 'p supervisor task" where
  "analyze_selected_batch h manifest b requested index supervisor plan =
     then_do (attempt (analyze_requested h manifest b requested index supervisor plan)) (\<lambda>(message, s).
     case batch_response message of
       None \<Rightarrow> fail (InvalidBatchResponse message)
     | Some response \<Rightarrow> then_do (commit_selected h b (''index-batch-'' @ decimal index) requested response) (\<lambda>_. return_task s))"

text \<open>The supervisors of the run, one per launch.\<close>

definition supervisor_for :: "worker_launch \<Rightarrow> (worker_launch \<times> 'p supervisor) list \<Rightarrow> 'p supervisor" where
  "supervisor_for launch supervisors =
     (case map_of supervisors launch of None \<Rightarrow> new_supervisor launch | Some s \<Rightarrow> s)"

fun keep_supervisor :: "worker_launch \<Rightarrow> 'p supervisor \<Rightarrow> (worker_launch \<times> 'p supervisor) list
    \<Rightarrow> (worker_launch \<times> 'p supervisor) list" where
  "keep_supervisor launch s [] = [(launch, s)]"
| "keep_supervisor launch s (x # xs) =
     (if fst x = launch then (launch, s) # xs else x # keep_supervisor launch s xs)"

fun run_batches :: "'p host \<Rightarrow> project_manifest \<Rightarrow> opaque_execution_plan \<Rightarrow> source_unit list \<Rightarrow> nat \<Rightarrow> worker_batch list
    \<Rightarrow> (worker_launch \<times> 'p supervisor) list \<Rightarrow> (worker_launch \<times> 'p supervisor) list task" where
  "run_batches h manifest plan reanalyze index [] supervisors = return_task supervisors"
| "run_batches h manifest plan reanalyze index (b # batches) supervisors =
     (let requested = requested_units reanalyze b; launch = wn_launch (dw_installation (wb_worker b))
      in if requested = [] then run_batches h manifest plan reanalyze (index + 1) batches supervisors
         else then_do (analyze_selected_batch h manifest b requested index (supervisor_for launch supervisors) plan)
                (\<lambda>s. run_batches h manifest plan reanalyze (index + 1) batches (keep_supervisor launch s supervisors)))"

definition index_selected_batches_with_execution_plan :: "'p host \<Rightarrow> project_manifest \<Rightarrow> source_unit list
    \<Rightarrow> worker_selection \<Rightarrow> opaque_execution_plan \<Rightarrow> index_run task" where
  "index_selected_batches_with_execution_plan h manifest current selection plan =
     then_do (attempt (validate_execution_plan manifest plan)) (\<lambda>_.
     if sel_unsupported selection \<noteq> [] then fail (UnsupportedBatches (length (sel_unsupported selection)))
     else
       then_do (get_state (catalog_needed manifest)) (\<lambda>needed.
       then_do (get_state (plan_actions current None [])) (\<lambda>actions.
       then_do (change_run (\<lambda>_. empty_run)) (\<lambda>_.
       then_do (apply_actions actions) (\<lambda>reanalyze.
       if (needed \<or> reanalyze \<noteq> []) \<and> sel_batches selection = [] then panic
       else
         let lane = (if needed \<or> reanalyze \<noteq> []
               then Some (discover_dependency_catalog h (wn_launch (dw_installation (wb_worker (hd (sel_batches selection)))))
                      manifest plan)
               else None)
         in then_do (run_batches h manifest plan reanalyze 0 (sel_batches selection) []) (\<lambda>supervisors.
            then_do (join_lane lane) (\<lambda>_.
            then_do (change_run (\<lambda>r. r\<lparr>ir_worker_starts := ir_worker_starts r + sum_list (map (\<lambda>x. sv_starts (snd x)) supervisors)\<rparr>)) (\<lambda>_.
            then_do (write_catalog (put_manifest manifest)) (\<lambda>_.
            get_state ix_run)))))))))"

definition index_selected_batches :: "'p host \<Rightarrow> project_manifest \<Rightarrow> source_unit list \<Rightarrow> worker_selection \<Rightarrow> index_run task" where
  "index_selected_batches h manifest current selection =
     index_selected_batches_with_execution_plan h manifest current selection (legacy_execution_plan manifest)"

end
