(* ===== verification/Index_Runs.thy ===== *)
theory Index_Runs
  imports Orchestrator
begin

text \<open>
  What an index run of \<open>orchestrator.rs\<close> leaves in the store, when it succeeds and when it fails:
  the tasks of \<^theory_text>\<open>Orchestrator\<close> against the abstract store of \<^theory_text>\<open>Store_Snapshots\<close>, which maps a
  source unit to its last published snapshot.
\<close>

section \<open>Tasks\<close>

named_theorems task_simps \<open>what the basic tasks do\<close>

lemma basic_tasks [task_simps]:
  "return_task x s = (Done x, s)" "fail e s = (Failing e, s)" "panic s = (Panicked, s)"
  "get_state f s = (Done (f s), s)" "change_run g s = (Done (), s\<lparr>ix_run := g (ix_run s)\<rparr>)"
  by (simp_all add: return_task_def fail_def panic_def get_state_def change_run_def)

lemma attempt_simps [task_simps]: "attempt (Inl e) = fail e" "attempt (Inr x) = return_task x"
  by (simp_all add: attempt_def)

lemma then_do_simps [task_simps]:
  "m s = (Done x, s') \<Longrightarrow> then_do m f s = f x s'"
  "m s = (Failing e, s') \<Longrightarrow> then_do m f s = (Failing e, s')"
  "m s = (Panicked, s') \<Longrightarrow> then_do m f s = (Panicked, s')"
  "m s = (Endless, s') \<Longrightarrow> then_do m f s = (Endless, s')"
  by (simp_all add: then_do_def)

lemma then_do_Done:
  "then_do m f s = (Done y, s') \<longleftrightarrow> (\<exists>x s1. m s = (Done x, s1) \<and> f x s1 = (Done y, s'))"
  by (auto simp: then_do_def split: prod.splits outcome.splits)

lemma then_do_Failing:
  "then_do m f s = (Failing e, s') \<longleftrightarrow>
     m s = (Failing e, s') \<or> (\<exists>x s1. m s = (Done x, s1) \<and> f x s1 = (Failing e, s'))"
  by (auto simp: then_do_def split: prod.splits outcome.splits)

lemma attempt_Done: "attempt r s = (Done x, s') \<longleftrightarrow> r = Inr x \<and> s' = s"
  by (cases r) (auto simp: task_simps)

lemma attempt_Failing: "attempt r s = (Failing e, s') \<longleftrightarrow> r = Inl e \<and> s' = s"
  by (cases r) (auto simp: task_simps)

lemma write_facts_cases:
  "write_facts f s = (case f (ix_facts s) of (Inr _, F) \<Rightarrow> (Done (), s\<lparr>ix_facts := F\<rparr>)
     | (Inl e, F) \<Rightarrow> (Failing (OrchestratorStore e), s\<lparr>ix_facts := F\<rparr>))"
  by (simp add: write_facts_def split: prod.splits sum.splits)

lemma write_catalog_cases:
  "write_catalog f s = (case f (ix_catalog s) of (Inr _, c) \<Rightarrow> (Done (), s\<lparr>ix_catalog := c\<rparr>)
     | (Inl e, c) \<Rightarrow> (Failing (OrchestratorStore e), s\<lparr>ix_catalog := c\<rparr>))"
  by (simp add: write_catalog_def split: prod.splits sum.splits)

section \<open>The plan of a run\<close>

fun reanalyzed_unit :: "index_action \<Rightarrow> source_unit option" where
  "reanalyzed_unit (Reanalyze u r) = Some u"
| "reanalyzed_unit _ = None"

fun removed_unit :: "index_action \<Rightarrow> source_unit_id option" where
  "removed_unit (Remove i) = Some i"
| "removed_unit _ = None"

definition reanalyzed :: "index_action list \<Rightarrow> source_unit list" where
  "reanalyzed actions = List.map_filter reanalyzed_unit actions"

definition removed_ids :: "index_action list \<Rightarrow> source_unit_id list" where
  "removed_ids actions = List.map_filter removed_unit actions"

definition reused_count :: "index_action list \<Rightarrow> nat" where
  "reused_count actions = length actions - length (reanalyzed actions) - length (removed_ids actions)"

lemma map_filter_Cons: "List.map_filter f (x # xs) = (case f x of None \<Rightarrow> [] | Some y \<Rightarrow> [y]) @ List.map_filter f xs"
  by (simp add: map_filter_def split: option.splits)

lemma map_filter_empty: "List.map_filter f [] = []"
  by (simp add: map_filter_def)

lemma action_lists [simp]:
  "reanalyzed [] = []" "removed_ids [] = []"
  "reanalyzed (Reuse u # as) = reanalyzed as" "removed_ids (Reuse u # as) = removed_ids as"
  "reanalyzed (Reanalyze u r # as) = u # reanalyzed as" "removed_ids (Reanalyze u r # as) = removed_ids as"
  "reanalyzed (Remove i # as) = reanalyzed as" "removed_ids (Remove i # as) = i # removed_ids as"
  by (simp_all add: reanalyzed_def removed_ids_def map_filter_Cons map_filter_empty)

lemma set_reanalyzed: "u \<in> set (reanalyzed actions) \<longleftrightarrow> (\<exists>r. Reanalyze u r \<in> set actions)"
proof (induction actions)
  case (Cons a actions)
  then show ?case by (cases a) auto
qed simp

lemma set_removed_ids: "i \<in> set (removed_ids actions) \<longleftrightarrow> Remove i \<in> set actions"
proof (induction actions)
  case (Cons a actions)
  then show ?case by (cases a) auto
qed simp

fun is_reuse :: "index_action \<Rightarrow> bool" where
  "is_reuse (Reuse u) = True"
| "is_reuse _ = False"

text \<open>The loop over the actions never fails: it removes, counts and collects.\<close>

lemma apply_actions_eq:
  "apply_actions actions s = (Done (reanalyzed actions),
     s\<lparr> ix_facts := fold delete_file_owned_facts (removed_ids actions) (ix_facts s),
        ix_run := (ix_run s)\<lparr> ir_reused := ir_reused (ix_run s) + length (filter is_reuse actions),
                             ir_removed := ir_removed (ix_run s) + length (removed_ids actions) \<rparr> \<rparr>)"
proof (induction actions arbitrary: s)
  case Nil
  then show ?case by (simp add: task_simps)
next
  case (Cons a actions)
  then show ?case
    by (cases a) (simp_all add: then_do_def task_simps write_facts_cases remove_snapshot_eq)
qed

section \<open>The abstract store\<close>

definition forget :: "source_unit_id set \<Rightarrow> abstract_store \<Rightarrow> abstract_store" where
  "forget ids A = (\<lambda>u. if u \<in> ids then None else A u)"

lemma represents_forget:
  "represents json F A \<Longrightarrow> represents json (fold delete_file_owned_facts ids F) (forget (set ids) A)"
proof (induction ids arbitrary: F A)
  case Nil
  then show ?case by (simp add: forget_def)
next
  case (Cons i ids)
  have "forget (set ids) (A(i := None)) = forget (set (i # ids)) A" by (auto simp: forget_def)
  then show ?case
    using Cons.IH[OF represents_remove[OF Cons.prems, of i]] by (simp only: fold_simps)
qed

lemma source_rows_exact:
  assumes "represents json F A"
  shows "r \<in> set (t_sources F) \<longleftrightarrow> (\<exists>snapshot. A (ur_id r) = Some snapshot \<and> row_of_source snapshot () = Inr r)"
  using source_rows_of(2)[OF assms, of r] by auto

lemma source_ids_distinct: "represents json F A \<Longrightarrow> distinct (map ur_id (t_sources F))"
  by (simp add: represents_def store_inv_def facts_valid_def key_valid_def source_pk_def [abs_def])

text \<open>The source units and the analysis inputs of the store are those of its snapshots.\<close>

lemma set_source_units:
  assumes rep: "represents json F A"
  shows "set (stored_source_units F) = {snap_source_unit snapshot |u snapshot. A u = Some snapshot}"
proof (intro equalityI subsetI)
  fix x assume "x \<in> set (stored_source_units F)"
  then obtain r where r: "r \<in> set (t_sources F)" "x = ur_source_unit r" by (auto simp: stored_source_units_def)
  then obtain snapshot where "A (ur_id r) = Some snapshot" "row_of_source snapshot () = Inr r"
    using source_rows_exact[OF rep] by blast
  moreover from this(2) r(2) have "x = snap_source_unit snapshot" by (auto simp: row_of_source_def Let_def)
  ultimately show "x \<in> {snap_source_unit snapshot |u snapshot. A u = Some snapshot}" by blast
next
  fix x assume "x \<in> {snap_source_unit snapshot |u snapshot. A u = Some snapshot}"
  then obtain u snapshot where A: "A u = Some snapshot" and x: "x = snap_source_unit snapshot" by auto
  obtain r where r: "row_of_source snapshot () = Inr r" by (simp add: row_of_source_def Let_def)
  then have cols: "ur_id r = su_id (snap_source_unit snapshot)" "ur_source_unit r = snap_source_unit snapshot"
    by (auto simp: row_of_source_def Let_def)
  have "su_id (snap_source_unit snapshot) = u" using represents_unit(2)[OF rep A] by simp
  then have "r \<in> set (t_sources F)" using source_rows_exact[OF rep] A r cols by auto
  then show "x \<in> set (stored_source_units F)" using cols x by (force simp: stored_source_units_def)
qed

lemma snapshot_id: "represents json F A \<Longrightarrow> A u = Some snapshot \<Longrightarrow> su_id (snap_source_unit snapshot) = u"
  using represents_unit(2) by blast

lemma stored_unit_iff:
  assumes rep: "represents json F A"
  shows "u \<in> su_id ` set (stored_source_units F) \<longleftrightarrow> A u \<noteq> None"
proof
  assume "u \<in> su_id ` set (stored_source_units F)"
  then show "A u \<noteq> None" using snapshot_id[OF rep] by (auto simp: set_source_units[OF rep])
next
  assume "A u \<noteq> None"
  then obtain snapshot where "A u = Some snapshot" by auto
  then show "u \<in> su_id ` set (stored_source_units F)"
    using snapshot_id[OF rep] by (force simp: set_source_units[OF rep])
qed

text \<open>The stored inputs, as far as they are readable: rows this program wrote always are.\<close>

definition known_inputs :: "facts \<Rightarrow> analysis_input list" where
  "known_inputs F = projr (stored_analysis_inputs F)"

lemma stored_inputs_readable:
  assumes rep: "represents json F A"
  shows "stored_analysis_inputs F = Inr (known_inputs F)"
    and "known_inputs F = map (\<lambda>r. \<lparr> ai_source_unit = ur_source_unit r, ai_provenance = the (ur_provenance r),
           ai_public_api_fingerprint = ur_public_api r \<rparr>) (sort_key ur_id (t_sources F))"
proof -
  have "\<exists>p. ur_provenance r = Some p" if "r \<in> set (t_sources F)" for r
    using source_rows_exact[OF rep] that by (auto simp: row_of_source_def Let_def)
  then have read: "stored_analysis_inputs F = Inr (map (\<lambda>r. \<lparr> ai_source_unit = ur_source_unit r, ai_provenance = the (ur_provenance r),
           ai_public_api_fingerprint = ur_public_api r \<rparr>) (sort_key ur_id (t_sources F)))"
    unfolding stored_analysis_inputs_def by (intro collect_results_total) (fastforce simp: provenance_column_def ok_or_def)
  then show "stored_analysis_inputs F = Inr (known_inputs F)" by (simp add: known_inputs_def)
  from read show "known_inputs F = map (\<lambda>r. \<lparr> ai_source_unit = ur_source_unit r, ai_provenance = the (ur_provenance r),
           ai_public_api_fingerprint = ur_public_api r \<rparr>) (sort_key ur_id (t_sources F))" by (simp add: known_inputs_def)
qed

abbreviation plan_of :: "source_unit list \<Rightarrow> provenance option \<Rightarrow> index_state \<Rightarrow> index_action list" where
  "plan_of current prov s \<equiv> plan_actions current prov (known_inputs (ix_facts s)) s"

lemma set_analysis_inputs:
  assumes rep: "represents json F A"
  shows "set (known_inputs F) =
    {\<lparr> ai_source_unit = snap_source_unit snapshot, ai_provenance = snap_provenance snapshot,
       ai_public_api_fingerprint = snap_public_api_fingerprint snapshot \<rparr> |u snapshot. A u = Some snapshot}"
proof (intro equalityI subsetI)
  fix x assume "x \<in> set (known_inputs F)"
  then obtain r where r: "r \<in> set (t_sources F)" "x = \<lparr> ai_source_unit = ur_source_unit r, ai_provenance = the (ur_provenance r),
      ai_public_api_fingerprint = ur_public_api r \<rparr>" by (auto simp: stored_inputs_readable(2)[OF rep])
  then obtain snapshot where "A (ur_id r) = Some snapshot" "row_of_source snapshot () = Inr r"
    using source_rows_exact[OF rep] by blast
  moreover from this(2) r(2) have "x = \<lparr> ai_source_unit = snap_source_unit snapshot,
      ai_provenance = snap_provenance snapshot, ai_public_api_fingerprint = snap_public_api_fingerprint snapshot \<rparr>"
    by (auto simp: row_of_source_def Let_def)
  ultimately show "x \<in> {\<lparr> ai_source_unit = snap_source_unit snapshot, ai_provenance = snap_provenance snapshot,
       ai_public_api_fingerprint = snap_public_api_fingerprint snapshot \<rparr> |u snapshot. A u = Some snapshot}" by blast
next
  fix x assume "x \<in> {\<lparr> ai_source_unit = snap_source_unit snapshot, ai_provenance = snap_provenance snapshot,
       ai_public_api_fingerprint = snap_public_api_fingerprint snapshot \<rparr> |u snapshot. A u = Some snapshot}"
  then obtain u snapshot where A: "A u = Some snapshot" and x: "x = \<lparr> ai_source_unit = snap_source_unit snapshot,
      ai_provenance = snap_provenance snapshot, ai_public_api_fingerprint = snap_public_api_fingerprint snapshot \<rparr>" by auto
  obtain r where r: "row_of_source snapshot () = Inr r" by (simp add: row_of_source_def Let_def)
  then have cols: "ur_id r = su_id (snap_source_unit snapshot)" "ur_source_unit r = snap_source_unit snapshot"
      "ur_provenance r = Some (snap_provenance snapshot)" "ur_public_api r = snap_public_api_fingerprint snapshot"
    by (auto simp: row_of_source_def Let_def)
  have "r \<in> set (t_sources F)" using source_rows_exact[OF rep] A r cols snapshot_id[OF rep A] by auto
  then show "x \<in> set (known_inputs F)" using cols x by (force simp: stored_inputs_readable(2)[OF rep])
qed

section \<open>What the plan compares\<close>

text \<open>
  With a provenance the plan looks at every stored snapshot and compares the worker too; without
  one it looks at the sources only and leaves the snapshots of dependencies alone.
\<close>

definition considered :: "provenance option \<Rightarrow> file_analysis_snapshot \<Rightarrow> bool" where
  "considered prov snapshot \<longleftrightarrow> prov \<noteq> None \<or> su_origin (snap_source_unit snapshot) \<noteq> OriginDependency"

definition up_to_date :: "provenance option \<Rightarrow> source_unit \<Rightarrow> file_analysis_snapshot \<Rightarrow> bool" where
  "up_to_date prov c snapshot \<longleftrightarrow>
     su_id (snap_source_unit snapshot) = su_id c
     \<and> su_content (snap_source_unit snapshot) = su_content c \<and> su_context (snap_source_unit snapshot) = su_context c
     \<and> (\<forall>p. prov = Some p \<longrightarrow> snap_provenance snapshot = p)"

definition input_of :: "file_analysis_snapshot \<Rightarrow> analysis_input" where
  "input_of snapshot = \<lparr> ai_source_unit = snap_source_unit snapshot, ai_provenance = snap_provenance snapshot,
     ai_public_api_fingerprint = snap_public_api_fingerprint snapshot \<rparr>"

lemma index_lookup:
  assumes "inj_on key (set xs)" "\<And>x. x \<in> set xs \<longleftrightarrow> (\<exists>i y. B i = Some y \<and> x = f y)" "\<And>i y. B i = Some y \<Longrightarrow> key (f y) = k i"
    "inj k"
  shows "btree_get (btree_index key xs) (k i) = map_option f (B i)"
proof (cases "B i")
  case None
  have "k i \<notin> key ` set xs"
  proof
    assume "k i \<in> key ` set xs"
    then obtain j y where "B j = Some y" "k i = key (f y)" using assms(2) by auto
    then have "k i = k j" using assms(3) by simp
    then show False using \<open>B j = Some y\<close> None assms(4) by (auto dest: injD)
  qed
  then show ?thesis using None by (simp add: btree_index_get_None)
next
  case (Some y)
  then have "f y \<in> set xs" "key (f y) = k i" using assms(2,3) by auto
  then show ?thesis using btree_index_get_unique[OF _ assms(1), of "f y"] Some by simp
qed

lemma inj_unit_key: "inj (as_str :: source_unit_id \<Rightarrow> string)"
  by (simp add: inj_def as_str_inject)

definition considered_part :: "provenance option \<Rightarrow> abstract_store \<Rightarrow> abstract_store" where
  "considered_part prov A = (\<lambda>u. case A u of None \<Rightarrow> None
     | Some snapshot \<Rightarrow> if considered prov snapshot then Some snapshot else None)"

lemma considered_part_Some:
  "considered_part prov A u = Some snapshot \<longleftrightarrow> A u = Some snapshot \<and> considered prov snapshot"
  by (auto simp: considered_part_def split: option.splits)

lemma persisted_inj:
  assumes rep: "represents json (ix_facts s) A"
  shows "inj_on unit_key (set (persisted_sources s))"
    and "inj_on input_key (set (known_inputs (ix_facts s)))"
proof -
  have id: "u = v" if "A i = Some u" "A j = Some v" "su_id (snap_source_unit u) = su_id (snap_source_unit v)" for i j u v
    using that snapshot_id[OF rep] by (metis option.inject)
  show "inj_on unit_key (set (persisted_sources s))"
    using id by (auto simp: inj_on_def persisted_sources_def set_source_units[OF rep] unit_key_def as_str_inject)
  show "inj_on input_key (set (known_inputs (ix_facts s)))"
    using id by (auto simp: inj_on_def set_analysis_inputs[OF rep] input_key_eq) metis+
qed

lemma persisted_lookup:
  assumes rep: "represents json (ix_facts s) A"
  shows "btree_get (btree_index unit_key (persisted_sources s)) (as_str i)
      = map_option snap_source_unit (considered_part None A i)"
    and "btree_get (btree_index input_key (known_inputs (ix_facts s))) (as_str i)
      = map_option input_of (considered_part (Some p) A i)"
proof -
  show "btree_get (btree_index unit_key (persisted_sources s)) (as_str i)
      = map_option snap_source_unit (considered_part None A i)"
    using snapshot_id[OF rep]
    by (intro index_lookup[OF persisted_inj(1)[OF rep]])
      (auto simp: persisted_sources_def set_source_units[OF rep] considered_part_Some considered_def unit_key_def inj_unit_key)
  show "btree_get (btree_index input_key (known_inputs (ix_facts s))) (as_str i)
      = map_option input_of (considered_part (Some p) A i)"
    using snapshot_id[OF rep]
    by (intro index_lookup[OF persisted_inj(2)[OF rep]])
      (auto simp: set_analysis_inputs[OF rep] considered_part_Some considered_def input_of_def input_key_def inj_unit_key)
qed

text \<open>The action of a current unit.\<close>

definition unit_action :: "provenance option \<Rightarrow> abstract_store \<Rightarrow> source_unit \<Rightarrow> index_action" where
  "unit_action prov A c =
     (case prov of
        None \<Rightarrow> source_action c (map_option snap_source_unit (considered_part prov A (su_id c)))
      | Some p \<Rightarrow> analysis_action \<lparr> ai_source_unit = c, ai_provenance = p, ai_public_api_fingerprint = None \<rparr>
          (map_option input_of (considered_part prov A (su_id c))))"

lemma unit_action_cases:
  assumes "represents json F A"
  shows "if \<exists>snapshot. A (su_id c) = Some snapshot \<and> considered prov snapshot \<and> up_to_date prov c snapshot
    then unit_action prov A c = Reuse c else \<exists>r. unit_action prov A c = Reanalyze c r"
proof (cases "considered_part prov A (su_id c)")
  case None
  then have "\<nexists>snapshot. A (su_id c) = Some snapshot \<and> considered prov snapshot"
    by (auto simp: considered_part_def split: option.splits if_splits)
  with None show ?thesis
    by (cases prov) (auto simp: unit_action_def source_action_def analysis_action_def analysis_reason_def)
next
  case (Some snapshot)
  then have A: "A (su_id c) = Some snapshot" "considered prov snapshot" by (simp_all add: considered_part_Some)
  have id: "su_id (snap_source_unit snapshot) = su_id c" using snapshot_id[OF assms A(1)] .
  show ?thesis
  proof (cases prov)
    case None
    then show ?thesis
      using Some A id by (auto simp: unit_action_def source_action_def up_to_date_def)
  next
    case (Some p)
    let ?i = "\<lparr> ai_source_unit = c, ai_provenance = p, ai_public_api_fingerprint = None \<rparr>"
    have "analysis_reason ?i (Some (input_of snapshot)) = None \<longleftrightarrow> up_to_date prov c snapshot"
      using id by (auto simp: analysis_reason_None up_to_date_def input_of_def Some)
    moreover have "unit_action prov A c = analysis_action ?i (Some (input_of snapshot))"
      using \<open>considered_part prov A (su_id c) = Some snapshot\<close> by (simp add: unit_action_def Some)
    ultimately show ?thesis
      using A by (auto simp: analysis_action_def split: option.splits)
  qed
qed

lemma plan_actions_mem:
  assumes rep: "represents json (ix_facts s) A" and current: "distinct (map su_id current)"
  shows "c \<in> set current \<Longrightarrow> unit_action prov A c \<in> set (plan_of current prov s)"
    and "a \<in> set (plan_of current prov s) \<Longrightarrow>
      (\<exists>c\<in>set current. a = unit_action prov A c)
      \<or> (\<exists>i snapshot. a = Remove i \<and> A i = Some snapshot \<and> considered prov snapshot \<and> i \<notin> su_id ` set current)"
    and "A i = Some snapshot \<Longrightarrow> considered prov snapshot \<Longrightarrow> i \<notin> su_id ` set current \<Longrightarrow>
      Remove i \<in> set (plan_of current prov s)"
    and "distinct (map action_id (plan_of current prov s))"
proof -
  let ?in = "\<lambda>p. map (\<lambda>u. \<lparr> ai_source_unit = u, ai_provenance = p, ai_public_api_fingerprint = None \<rparr>) current"
  have inj: "inj_on su_id (set current)" using current by (simp add: distinct_map)
  then have inj1: "inj_on unit_key (set current)" and inj2: "inj_on input_key (set (?in p))" for p
    by (auto simp: inj_on_def unit_key_def input_key_def as_str_inject)
  have src: "plan_of current None s = plan_invalidation current (persisted_sources s)"
    by (simp add: plan_actions_def plan_incremental_index_def plan_with_source_actions_def)
  have ana: "plan_of current (Some p) s = plan_analysis_invalidation (?in p) (known_inputs (ix_facts s))" for p
    by (simp add: plan_actions_def plan_incremental_analysis_index_def plan_with_source_actions_def)
  have act1: "source_action c (btree_get (btree_index unit_key (persisted_sources s)) (unit_key c)) = unit_action None A c" for c
    by (simp add: unit_action_def persisted_lookup(1)[OF rep] unit_key_def)
  have act2: "analysis_action i (btree_get (btree_index input_key (known_inputs (ix_facts s))) (input_key i))
      = unit_action (Some p) A (ai_source_unit i)" if "i \<in> set (?in p)" for i p
    using that by (auto simp: unit_action_def persisted_lookup(2)[OF rep, of _ p] input_key_def)
  show "unit_action prov A c \<in> set (plan_of current prov s)" if "c \<in> set current"
  proof (cases prov)
    case None
    then show ?thesis using source_plan.plan_current[OF that inj1, of "persisted_sources s"] by (simp add: src act1)
  next
    case (Some p)
    have "\<lparr> ai_source_unit = c, ai_provenance = p, ai_public_api_fingerprint = None \<rparr> \<in> set (?in p)" using that by simp
    from analysis_plan.plan_current[OF this inj2, of "known_inputs (ix_facts s)"] act2[OF this]
    show ?thesis by (simp add: Some ana)
  qed
  show "(\<exists>c\<in>set current. a = unit_action prov A c)
      \<or> (\<exists>i snapshot. a = Remove i \<and> A i = Some snapshot \<and> considered prov snapshot \<and> i \<notin> su_id ` set current)"
    if a: "a \<in> set (plan_of current prov s)"
  proof (cases prov)
    case None
    from a[unfolded None src] show ?thesis
    proof (cases rule: source_plan.plan_cases)
      case (current c)
      then show ?thesis by (auto simp: act1 None)
    next
      case (gone x)
      then obtain i snapshot where x: "A i = Some snapshot" "x = snap_source_unit snapshot" "su_origin x \<noteq> OriginDependency"
        by (auto simp: persisted_sources_def set_source_units[OF rep])
      have "su_id x = i" using snapshot_id[OF rep x(1)] x(2) by simp
      moreover have "su_id x \<notin> su_id ` set current" using gone(2) by (auto simp: unit_key_def)
      ultimately show ?thesis using gone(3) x by (auto simp: considered_def)
    qed
  next
    case (Some p)
    from a[unfolded Some ana] show ?thesis
    proof (cases rule: analysis_plan.plan_cases)
      case (current i)
      have "a = unit_action prov A (ai_source_unit i)" using act2[OF current(1)] current(2) by (simp only: Some)
      moreover have "ai_source_unit i \<in> set current" using current(1) by auto
      ultimately show ?thesis by blast
    next
      case (gone x)
      then obtain i snapshot where x: "A i = Some snapshot" "x = input_of snapshot"
        by (auto simp: set_analysis_inputs[OF rep] input_of_def)
      have "su_id (ai_source_unit x) = i" using snapshot_id[OF rep x(1)] x(2) by (simp add: input_of_def)
      moreover have "su_id (ai_source_unit x) \<notin> su_id ` set current"
        using gone(2) by (auto simp: input_key_def image_iff)
      ultimately show ?thesis using gone(3) x by (auto simp: considered_def Some)
    qed
  qed
  show "Remove i \<in> set (plan_of current prov s)"
    if i: "A i = Some snapshot" "considered prov snapshot" "i \<notin> su_id ` set current"
  proof (cases prov)
    case None
    let ?x = "snap_source_unit snapshot"
    have "?x \<in> set (persisted_sources s)"
      using i None by (auto simp: persisted_sources_def set_source_units[OF rep] considered_def)
    moreover have "unit_key ?x \<notin> unit_key ` set current"
      using i(3) snapshot_id[OF rep i(1)] by (auto simp: unit_key_def as_str_inject image_iff)
    ultimately show ?thesis
      using source_plan.plan_gone[OF _ persisted_inj(1)[OF rep], of ?x current] snapshot_id[OF rep i(1)]
      by (simp add: None src)
  next
    case (Some p)
    let ?x = "input_of snapshot"
    have "?x \<in> set (known_inputs (ix_facts s))"
      using i by (auto simp: set_analysis_inputs[OF rep] input_of_def)
    moreover have "input_key ?x \<notin> input_key ` set (?in p)"
      using i(3) snapshot_id[OF rep i(1)] by (auto simp: input_key_def input_of_def as_str_inject image_iff)
    ultimately show ?thesis
      using analysis_plan.plan_gone[OF _ persisted_inj(2)[OF rep], of ?x "?in p"] snapshot_id[OF rep i(1)]
      by (simp add: Some ana input_of_def)
  qed
  have keys: "distinct (map action_id as)" if "distinct (map (\<lambda>a. as_str (action_id a)) as)" for as
    using that by (rule distinct_map_comp)
  show "distinct (map action_id (plan_of current prov s))"
    using keys[OF source_plan.plan_distinct] keys[OF analysis_plan.plan_distinct]
    by (cases prov) (simp_all add: src ana)
qed

text \<open>The units a run analyses again, and those it removes.\<close>

definition fresh_in :: "abstract_store \<Rightarrow> provenance option \<Rightarrow> source_unit \<Rightarrow> bool" where
  "fresh_in A prov c \<longleftrightarrow> (\<exists>snapshot. A (su_id c) = Some snapshot \<and> considered prov snapshot \<and> up_to_date prov c snapshot)"

lemma unit_action_fresh:
  assumes "represents json F A"
  shows "if fresh_in A prov c then unit_action prov A c = Reuse c else \<exists>r. unit_action prov A c = Reanalyze c r"
  using unit_action_cases[OF assms, of c prov] unfolding fresh_in_def .

lemma reanalyzed_plan:
  assumes rep: "represents json (ix_facts s) A" and current: "distinct (map su_id current)"
  shows "set (reanalyzed (plan_of current prov s)) = {c \<in> set current. \<not> fresh_in A prov c}"
    and "distinct (map su_id (reanalyzed (plan_of current prov s)))"
    and "set (removed_ids (plan_of current prov s)) =
      {i. i \<notin> su_id ` set current \<and> (\<exists>snapshot. A i = Some snapshot \<and> considered prov snapshot)}"
proof -
  note mem = plan_actions_mem[OF rep current, where prov = prov]
  note act = unit_action_fresh[OF rep, where prov = prov]
  show "set (reanalyzed (plan_of current prov s)) = {c \<in> set current. \<not> fresh_in A prov c}"
  proof (intro equalityI subsetI)
    fix c assume "c \<in> set (reanalyzed (plan_of current prov s))"
    then obtain r where r: "Reanalyze c r \<in> set (plan_of current prov s)" by (auto simp: set_reanalyzed)
    then obtain c' where c': "c' \<in> set current" "Reanalyze c r = unit_action prov A c'"
      using mem(2)[OF r] by auto
    then have "\<not> fresh_in A prov c' \<and> c = c'"
      using act[of c'] by (cases "fresh_in A prov c'") auto
    with c' show "c \<in> {c \<in> set current. \<not> fresh_in A prov c}" by blast
  next
    fix c assume "c \<in> {c \<in> set current. \<not> fresh_in A prov c}"
    then show "c \<in> set (reanalyzed (plan_of current prov s))"
      using mem(1)[of c] act[of c] by (auto simp: set_reanalyzed)
  qed
  show "distinct (map su_id (reanalyzed (plan_of current prov s)))"
  proof -
    have "distinct (map su_id (reanalyzed actions)) \<and> su_id ` set (reanalyzed actions) \<subseteq> action_id ` set actions"
      if "distinct (map action_id actions)" for actions
      using that
    proof (induction actions)
      case (Cons a actions)
      then show ?case by (cases a) auto
    qed simp
    then show ?thesis using plan_actions_mem(4)[OF rep current, of prov] by blast
  qed
  show "set (removed_ids (plan_of current prov s)) =
      {i. i \<notin> su_id ` set current \<and> (\<exists>snapshot. A i = Some snapshot \<and> considered prov snapshot)}"
  proof (intro equalityI subsetI)
    fix i assume "i \<in> set (removed_ids (plan_of current prov s))"
    then have i: "Remove i \<in> set (plan_of current prov s)" by (simp add: set_removed_ids)
    have "unit_action prov A c \<noteq> Remove i" for c using act[of c] by (auto split: if_splits)
    then have "\<nexists>c. c \<in> set current \<and> Remove i = unit_action prov A c" by metis
    then show "i \<in> {i. i \<notin> su_id ` set current \<and> (\<exists>snapshot. A i = Some snapshot \<and> considered prov snapshot)}"
      using mem(2)[OF i] by auto
  next
    fix i assume "i \<in> {i. i \<notin> su_id ` set current \<and> (\<exists>snapshot. A i = Some snapshot \<and> considered prov snapshot)}"
    then show "i \<in> set (removed_ids (plan_of current prov s))"
      using mem(3)[of i] by (auto simp: set_removed_ids)
  qed
qed

section \<open>Tasks that leave the facts alone\<close>

definition quiet :: "'a task \<Rightarrow> bool" where
  "quiet m \<longleftrightarrow> (\<forall>s. ix_facts (snd (m s)) = ix_facts s)"

named_theorems quiet_intros \<open>tasks that do not write the facts\<close>

lemma quietD: "quiet m \<Longrightarrow> m s = (r, s') \<Longrightarrow> ix_facts s' = ix_facts s"
  unfolding quiet_def by (metis snd_conv)

lemma quiet_basic [quiet_intros]:
  "quiet (return_task x)" "quiet (fail e)" "quiet panic" "quiet (get_state f)" "quiet (change_run g)"
  by (simp_all add: quiet_def task_simps)

lemma quiet_attempt [quiet_intros]: "quiet (attempt r)"
  by (cases r) (simp_all add: quiet_def task_simps)

lemma quiet_write_catalog [quiet_intros]: "quiet (write_catalog f)"
  by (simp add: quiet_def write_catalog_def split: prod.splits)

lemma quiet_then_do [quiet_intros]:
  assumes "quiet m" "\<And>x. quiet (f x)"
  shows "quiet (then_do m f)"
proof -
  have "ix_facts (snd (then_do m f s)) = ix_facts s" for s
  proof -
    obtain r s1 where m: "m s = (r, s1)" by force
    then have "ix_facts s1 = ix_facts s" by (rule quietD[OF assms(1)])
    moreover have "ix_facts (snd (f x s1)) = ix_facts s1" for x using assms(2) by (simp add: quiet_def)
    ultimately show ?thesis using m by (cases r) (simp_all add: then_do_def)
  qed
  then show ?thesis by (simp add: quiet_def)
qed

lemma quiet_join_lane [quiet_intros]: "quiet (join_lane lane)"
proof (cases lane)
  case None
  then show ?thesis by (simp add: join_lane_def quiet_intros)
next
  case (Some l)
  then show ?thesis
    by (cases l) (simp_all add: join_lane_def join_catalog_def quiet_def[of "\<lambda>s. (Endless, s)"] quiet_intros)
qed

lemma quiet_batch_entries [quiet_intros]: "quiet (batch_entries previous snapshots units)"
proof (induction units)
  case Nil
  then show ?case by (simp add: quiet_intros)
next
  case (Cons u units)
  show ?case
    unfolding batch_entries.simps
    by (rule quiet_then_do, rule quiet_basic)
      (auto split: option.splits sum.splits prod.splits intro!: quiet_intros Cons)
qed

section \<open>One batch\<close>

text \<open>The entries of the requested units and the units their new interfaces invalidate.\<close>

definition entry_of :: "facts \<Rightarrow> analysis_input list \<Rightarrow> file_analysis_snapshot list \<Rightarrow> source_unit
    \<Rightarrow> (source_unit \<times> file_analysis_snapshot) \<times> source_unit_id list \<Rightarrow> bool" where
  "entry_of F previous snapshots u e \<longleftrightarrow> batch_entry F previous snapshots u = Some (Inr e)"

lemma batch_entries_Done:
  "batch_entries previous snapshots units s = (Done (entries, deps), s') \<Longrightarrow>
     s' = s \<and> (\<exists>es. list_all2 (entry_of (ix_facts s) previous snapshots) units es
       \<and> entries = map fst es \<and> deps = concat (map snd es))"
proof (induction units arbitrary: entries deps)
  case Nil
  then show ?case by (simp add: task_simps)
next
  case (Cons u units)
  obtain r where r: "batch_entry (ix_facts s) previous snapshots u = r" by simp
  with Cons.prems obtain x ids where e: "r = Some (Inr (x, ids))"
    by (auto simp: then_do_Done task_simps split: option.splits sum.splits prod.splits)
  with Cons.prems r obtain xs more where rest: "batch_entries previous snapshots units s = (Done (xs, more), s')"
      "entries = x # xs" "deps = ids @ more"
    by (auto simp: then_do_Done task_simps)
  from Cons.IH[OF rest(1)] obtain es where "s' = s" "list_all2 (entry_of (ix_facts s) previous snapshots) units es"
      "xs = map fst es" "more = concat (map snd es)" by blast
  then have "s' = s \<and> list_all2 (entry_of (ix_facts s) previous snapshots) (u # units) ((x, ids) # es)
      \<and> entries = map fst ((x, ids) # es) \<and> deps = concat (map snd ((x, ids) # es))"
    using e r rest by (simp add: entry_of_def)
  then show ?case by blast
qed

lemma remove_dependents_eq:
  "\<exists>run. for_all (\<lambda>dependent. if P dependent then return_task ()
      else then_do (write_facts (remove_snapshot dependent)) (\<lambda>_. change_run (\<lambda>r. r\<lparr>ir_removed := ir_removed r + 1\<rparr>))) ds s
   = (Done (), s\<lparr>ix_facts := fold delete_file_owned_facts (filter (\<lambda>d. \<not> P d) ds) (ix_facts s), ix_run := run\<rparr>)"
proof (induction ds arbitrary: s)
  case Nil
  show ?case by (simp add: task_simps) (rule exI[of _ "ix_run s"], simp)
next
  case (Cons d ds)
  show ?case
  proof (cases "P d")
    case True
    then show ?thesis using Cons[of s] by (simp add: then_do_def task_simps)
  next
    case False
    let ?s1 = "s\<lparr>ix_facts := delete_file_owned_facts d (ix_facts s), ix_run := (ix_run s)\<lparr>ir_removed := ir_removed (ix_run s) + 1\<rparr>\<rparr>"
    show ?thesis
      using False Cons[of ?s1] by (simp add: then_do_def task_simps write_facts_cases remove_snapshot_eq)
  qed
qed

text \<open>
  What the commit of a response to \<open>units\<close> does to the facts: nothing, or the publication of one
  validated snapshot per unit followed by the removal of the invalidated units outside the batch.
\<close>

definition committed :: "'p host \<Rightarrow> source_unit list \<Rightarrow> facts \<Rightarrow> (source_unit \<times> file_analysis_snapshot) list
    \<Rightarrow> source_unit_id list \<Rightarrow> facts \<Rightarrow> bool" where
  "committed h units F entries deps F' \<longleftrightarrow>
     (\<exists>snapshots es F1. list_all2 (entry_of F (known_inputs F) snapshots) units es
        \<and> entries = map fst es \<and> deps = filter (\<lambda>d. d \<notin> su_id ` set units) (concat (map snd es))
        \<and> (\<forall>e\<in>set entries. validate_snapshot (fst e) (snd e) = Inr ())
        \<and> for_each (replace_step (h_json h)) entries F = Inr F1
        \<and> F' = fold delete_file_owned_facts deps F1)"

lemma commit_batch_cases:
  assumes "commit_batch h units response s = (r, s')"
    and readable: "stored_analysis_inputs (ix_facts s) = Inr (known_inputs (ix_facts s))"
  shows "(\<forall>u. r \<noteq> Done u) \<and> ix_facts s' = ix_facts s
    \<or> r = Done () \<and> (\<exists>entries deps. committed h units (ix_facts s) entries deps (ix_facts s'))"
proof -
  let ?P = "\<lambda>r s'. (\<forall>u. r \<noteq> Done u) \<and> ix_facts s' = ix_facts s
    \<or> r = Done () \<and> (\<exists>entries deps. committed h units (ix_facts s) entries deps (ix_facts s'))"
  show ?thesis
  proof (cases "validate_batch units (br_snapshots response)")
    case (Inl e)
    with assms show ?thesis by (auto simp: commit_batch_def task_simps)
  next
    case (Inr snapshots)
    define s1 where "s1 = s\<lparr>ix_run := record_response (h_millis h ''worker'') response (ix_run s)\<rparr>"
    have facts1: "ix_facts s1 = ix_facts s" by (simp add: s1_def)
    obtain r2 s2 where entries: "batch_entries (known_inputs (ix_facts s)) snapshots units s1 = (r2, s2)" by force
    have quiet2: "ix_facts s2 = ix_facts s" using quietD[OF quiet_batch_entries entries] facts1 by simp
    show ?thesis
    proof (cases r2)
      case (Done x)
      then obtain entries deps where x: "r2 = Done (entries, deps)" by (cases x) auto
      from batch_entries_Done[OF entries[unfolded x]] obtain es where es: "s2 = s1"
          "list_all2 (entry_of (ix_facts s) (known_inputs (ix_facts s)) snapshots) units es"
          "entries = map fst es" "deps = concat (map snd es)"
        by (auto simp: facts1)
      obtain w F1 where w: "replace_snapshots_batch (h_json h) entries (ix_facts s) = (w, F1)" by force
      show ?thesis
      proof (cases w)
        case (Inl e)
        then have "F1 = ix_facts s" using w replace_snapshots_batch_Err by blast
        then show ?thesis
          using assms Inr entries x w Inl es(1)
          by (auto simp: commit_batch_def then_do_def task_simps read_facts_def readable write_facts_cases facts1 s1_def)
      next
        case ok: (Inr u)
        define s3 where "s3 = s1\<lparr>ix_facts := F1, ix_run := (ix_run s1)\<lparr>ir_analyzed := ir_analyzed (ix_run s1) + length entries\<rparr>\<rparr>"
        obtain run where run: "for_all (\<lambda>dependent. if \<exists>u\<in>set units. su_id u = dependent then return_task ()
              else then_do (write_facts (remove_snapshot dependent)) (\<lambda>_. change_run (\<lambda>r. r\<lparr>ir_removed := ir_removed r + 1\<rparr>))) deps s3
            = (Done (), s3\<lparr>ix_facts := fold delete_file_owned_facts (filter (\<lambda>d. \<not> (\<exists>u\<in>set units. su_id u = d)) deps) F1,
                ix_run := run\<rparr>)"
          using remove_dependents_eq[of "\<lambda>d. \<exists>u\<in>set units. su_id u = d" deps s3] by (auto simp: s3_def)
        have outside: "filter (\<lambda>d. \<not> (\<exists>u\<in>set units. su_id u = d)) deps = filter (\<lambda>d. d \<notin> su_id ` set units) deps"
          by (rule filter_cong) auto
        have "r = Done ()" "ix_facts s' = fold delete_file_owned_facts (filter (\<lambda>d. d \<notin> su_id ` set units) deps) F1"
          using assms Inr entries x w ok es(1) run[unfolded s3_def outside]
          by (auto simp: commit_batch_def then_do_def task_simps read_facts_def readable write_facts_cases facts1 s1_def)
        moreover have "\<forall>e\<in>set entries. validate_snapshot (fst e) (snd e) = Inr ()"
            "for_each (replace_step (h_json h)) entries (ix_facts s) = Inr F1"
          using w ok by (simp_all add: replace_snapshots_batch_Ok)
        ultimately show ?thesis using es unfolding committed_def by blast
      qed
    next
      case (Failing e)
      then show ?thesis
        using assms Inr entries quiet2 by (auto simp: commit_batch_def then_do_def task_simps read_facts_def readable s1_def)
    next
      case Panicked
      then show ?thesis
        using assms Inr entries quiet2 by (auto simp: commit_batch_def then_do_def task_simps read_facts_def readable s1_def)
    next
      case Endless
      then show ?thesis
        using assms Inr entries quiet2 by (auto simp: commit_batch_def then_do_def task_simps read_facts_def readable s1_def)
    qed
  qed
qed

section \<open>A whole run\<close>

text \<open>The facts after the removals of the plan.\<close>

definition planned :: "source_unit list \<Rightarrow> provenance option \<Rightarrow> index_state \<Rightarrow> facts" where
  "planned current prov s = fold delete_file_owned_facts (removed_ids (plan_of current prov s)) (ix_facts s)"

abbreviation units_to_analyze :: "source_unit list \<Rightarrow> provenance option \<Rightarrow> index_state \<Rightarrow> source_unit list" where
  "units_to_analyze current prov s \<equiv> reanalyzed (plan_of current prov s)"

lemma quiet_facts: "quiet m \<Longrightarrow> ix_facts (snd (m s)) = ix_facts s"
  by (simp add: quiet_def)

lemma empty_run_counts [simp]: "ir_reused empty_run = 0" "ir_removed empty_run = 0"
  by (simp_all add: empty_run_def)

definition after_plan :: "source_unit list \<Rightarrow> provenance option \<Rightarrow> index_state \<Rightarrow> index_state" where
  "after_plan current prov s = s\<lparr> ix_facts := planned current prov s,
     ix_run := empty_run\<lparr> ir_reused := length (filter is_reuse (plan_of current prov s)),
       ir_removed := length (removed_ids (plan_of current prov s)) \<rparr> \<rparr>"

lemma plan_actions_inputs:
  "plan_actions current prov (case prov of None \<Rightarrow> [] | Some _ \<Rightarrow> inputs) s = plan_actions current prov inputs s"
  by (cases prov) (simp_all add: plan_actions_def)

lemma index_batch_unreadable:
  assumes "stored_analysis_inputs (ix_facts s) = Inl e"
  shows "index_batch_with_optional_cache h manifest current launch (Some p) plan s = (Failing (OrchestratorStore e), s)"
  using assms by (simp add: index_batch_with_optional_cache_def previous_inputs_def read_facts_def then_do_def task_simps)

lemma index_batch_start:
  assumes "prov = None \<or> stored_analysis_inputs (ix_facts s) = Inr (known_inputs (ix_facts s))"
  shows "index_batch_with_optional_cache h manifest current launch prov plan s =
     (let units = units_to_analyze current prov s;
          lane = (if catalog_needed manifest s then Some (discover_dependency_catalog h launch manifest plan) else None)
      in if units = [] then publish_unchanged manifest lane (after_plan current prov s)
         else analyze_and_commit h manifest launch plan units lane (after_plan current prov s))"
proof -
  have "previous_inputs prov s = (Done (case prov of None \<Rightarrow> [] | Some _ \<Rightarrow> known_inputs (ix_facts s)), s)"
    using assms by (cases prov) (auto simp: previous_inputs_def read_facts_def task_simps)
  then show ?thesis
    unfolding index_batch_with_optional_cache_def
    by (simp add: then_do_def task_simps plan_actions_inputs apply_actions_eq planned_def after_plan_def Let_def)
qed

lemma index_batch_cases:
  assumes "index_batch_with_optional_cache h manifest current launch prov plan s = (r, s')"
    and readable: "stored_analysis_inputs (ix_facts s) = Inr (known_inputs (ix_facts s))"
    and planned: "stored_analysis_inputs (planned current prov s) = Inr (known_inputs (planned current prov s))"
  shows "ix_facts s' = planned current prov s \<and> ((\<exists>run. r = Done run) \<longrightarrow> units_to_analyze current prov s = [])
    \<or> units_to_analyze current prov s \<noteq> []
      \<and> (\<exists>entries deps. committed h (units_to_analyze current prov s) (planned current prov s) entries deps (ix_facts s'))"
proof -
  let ?units = "units_to_analyze current prov s"
  define s1 where "s1 = after_plan current prov s"
  have facts1: "ix_facts s1 = planned current prov s" by (simp add: s1_def after_plan_def)
  define lane where "lane = (if catalog_needed manifest s then Some (discover_dependency_catalog h launch manifest plan) else None)"
  have start: "index_batch_with_optional_cache h manifest current launch prov plan s =
        (if ?units = [] then publish_unchanged manifest lane s1 else analyze_and_commit h manifest launch plan ?units lane s1)"
    by (simp add: index_batch_start readable lane_def s1_def Let_def)
  show ?thesis
  proof (cases "?units = []")
    case True
    have "quiet (publish_unchanged manifest lane)" unfolding publish_unchanged_def by (intro quiet_intros)
    moreover have "publish_unchanged manifest lane s1 = (r, s')" using assms start True by simp
    ultimately have "ix_facts s' = ix_facts s1" by (rule quietD)
    then show ?thesis using facts1 True by simp
  next
    case False
    then have run: "analyze_and_commit h manifest launch plan ?units lane s1 = (r, s')" using assms start by simp
    show ?thesis
    proof (cases "analyze_units h manifest launch plan ?units")
      case (Inl e)
      then have "r = Failing e \<and> s' = s1" using run by (auto simp: analyze_and_commit_def then_do_def task_simps)
      then show ?thesis using facts1 by simp
    next
      case (Inr ms)
      obtain message supervisor where ms: "ms = (message, supervisor)" by force
      show ?thesis
      proof (cases "batch_response message")
        case None
        then have "r = Failing (InvalidBatchResponse message) \<and> s' = s1"
          using run Inr ms by (auto simp: analyze_and_commit_def then_do_def task_simps)
        then show ?thesis using facts1 by simp
      next
        case (Some response)
        define tail where "tail = then_do (join_lane lane) (\<lambda>_.
              then_do (change_run (\<lambda>r. r\<lparr>ir_batches := ir_batches r @ [batch_metrics h ?units response]\<rparr>)) (\<lambda>_.
              then_do (write_catalog (put_manifest manifest)) (\<lambda>_.
              then_do (change_run (\<lambda>r. r\<lparr>ir_worker_starts := ir_worker_starts r + sv_starts supervisor\<rparr>)) (\<lambda>_.
              get_state ix_run))))"
        have quiet: "quiet tail" unfolding tail_def by (intro quiet_intros)
        have eq: "then_do (commit_batch h ?units response) (\<lambda>_. tail) s1 = (r, s')"
          using run Inr ms Some by (simp add: analyze_and_commit_def task_simps then_do_simps(1)[OF basic_tasks(1)] tail_def)
        obtain rc sc where commit: "commit_batch h ?units response s1 = (rc, sc)" by force
        have "stored_analysis_inputs (ix_facts s1) = Inr (known_inputs (ix_facts s1))" by (simp add: facts1 planned)
        from commit_batch_cases[OF commit this] show ?thesis
        proof
          assume "(\<forall>u. rc \<noteq> Done u) \<and> ix_facts sc = ix_facts s1"
          then show ?thesis using eq commit facts1 by (cases rc) (auto simp: then_do_def)
        next
          assume ok: "rc = Done () \<and> (\<exists>entries deps. committed h ?units (ix_facts s1) entries deps (ix_facts sc))"
          then have "tail sc = (r, s')" using eq commit by (simp add: then_do_def)
          then have "ix_facts s' = ix_facts sc" by (rule quietD[OF quiet])
          then show ?thesis using ok facts1 False by auto
        qed
      qed
    qed
  qed
qed

text \<open>Publishing entries of distinct units.\<close>

lemma fold_publish_other:
  "v \<notin> (\<lambda>e. su_id (fst e)) ` set entries \<Longrightarrow> fold publish entries A v = A v"
  by (induction entries arbitrary: A) (auto simp: publish_def)

lemma fold_publish_mem:
  "distinct (map (\<lambda>e. su_id (fst e)) entries) \<Longrightarrow> e \<in> set entries \<Longrightarrow>
     fold publish entries A (su_id (fst e)) = Some (snd e)"
proof (induction entries arbitrary: A)
  case (Cons x entries)
  show ?case
  proof (cases "e = x")
    case True
    have "fold publish entries (publish x A) (su_id (fst x)) = publish x A (su_id (fst x))"
      using Cons.prems(1) by (intro fold_publish_other) auto
    also have "\<dots> = Some (snd x)" by (simp add: publish_def)
    finally show ?thesis by (simp only: True fold_simps)
  next
    case False
    then have "e \<in> set entries" using Cons.prems(2) by simp
    then show ?thesis using Cons.IH[of "publish x A"] Cons.prems(1) by (simp only: fold_simps list.map distinct.simps)
  qed
qed simp

text \<open>The abstract store after a commit.\<close>

lemma committed_store:
  assumes rep: "represents (h_json h) F A" and units: "distinct (map su_id units)"
    and com: "committed h units F entries deps F'"
  shows "represents (h_json h) F' (forget (set deps) (fold publish entries A))"
    and "map fst entries = units"
    and "set deps \<inter> su_id ` set units = {}"
    and "e \<in> set entries \<Longrightarrow> fst e \<in> set units \<and> validate_snapshot (fst e) (snd e) = Inr ()"
proof -
  obtain snapshots es F1 where es: "list_all2 (entry_of F (known_inputs F) snapshots) units es"
      "entries = map fst es" "deps = filter (\<lambda>d. d \<notin> su_id ` set units) (concat (map snd es))"
      and valid: "\<forall>e\<in>set entries. validate_snapshot (fst e) (snd e) = Inr ()"
      and rows: "for_each (replace_step (h_json h)) entries F = Inr F1" "F' = fold delete_file_owned_facts deps F1"
    using com unfolding committed_def by blast
  show "represents (h_json h) F' (forget (set deps) (fold publish entries A))"
    unfolding rows(2) by (rule represents_forget, rule represents_batch[OF rep valid rows(1)])
  have entry: "fst (fst x) = u" if "entry_of F prev snaps u x" for u x prev snaps
    using that by (auto simp: entry_of_def batch_entry_def and_then_eq_Ok Let_def split: option.splits)
  have "map (\<lambda>x. fst (fst x)) es = units"
    using es(1) by (induction rule: list_all2_induct) (auto simp: entry)
  then show fst: "map fst entries = units" by (simp add: es(2) comp_def)
  show "set deps \<inter> su_id ` set units = {}" by (auto simp: es(3))
  show "fst e \<in> set units \<and> validate_snapshot (fst e) (snd e) = Inr ()" if "e \<in> set entries"
    using that valid fst by force
qed

section \<open>What a run leaves in the store\<close>

definition public_api :: "abstract_store \<Rightarrow> source_unit_id \<Rightarrow> fingerprint option" where
  "public_api A u = (case A u of None \<Rightarrow> None | Some snapshot \<Rightarrow> snap_public_api_fingerprint snapshot)"

text \<open>The units that depend on a unit of the batch whose public interface is not the stored one.\<close>

definition invalidated :: "facts \<Rightarrow> abstract_store \<Rightarrow> (source_unit \<times> file_analysis_snapshot) list \<Rightarrow> source_unit_id \<Rightarrow> bool" where
  "invalidated F A entries d \<longleftrightarrow> d \<notin> (\<lambda>e. su_id (fst e)) ` set entries
     \<and> (\<exists>e\<in>set entries. \<exists>ds. dependent_source_units (su_id (fst e)) F = Ok ds \<and> d \<in> set ds
          \<and> public_api A (su_id (fst e)) \<noteq> snap_public_api_fingerprint (snd e))"

lemma find_input:
  assumes rep: "represents json F A"
  shows "(case find (\<lambda>i. su_id (ai_source_unit i) = u) (known_inputs F) of
     None \<Rightarrow> None | Some i \<Rightarrow> ai_public_api_fingerprint i) = public_api A u"
proof (cases "find (\<lambda>i. su_id (ai_source_unit i) = u) (known_inputs F)")
  case None
  have "A u = None"
  proof (rule ccontr)
    assume "A u \<noteq> None"
    then obtain snapshot where A: "A u = Some snapshot" by auto
    then have "input_of snapshot \<in> set (known_inputs F)" by (auto simp: set_analysis_inputs[OF rep] input_of_def)
    then show False using None snapshot_id[OF rep A] by (auto simp: find_None_iff input_of_def)
  qed
  with None show ?thesis by (simp add: public_api_def)
next
  case (Some i)
  then have i: "i \<in> set (known_inputs F)" "su_id (ai_source_unit i) = u"
    by (auto simp: find_Some_iff)
  then obtain v snapshot where A: "A v = Some snapshot" "i = input_of snapshot"
    by (auto simp: set_analysis_inputs[OF rep] input_of_def)
  then have "v = u" using snapshot_id[OF rep A(1)] i(2) by (simp add: input_of_def)
  with A Some show ?thesis by (simp add: public_api_def input_of_def)
qed

lemma committed_deps:
  assumes rep: "represents json F A" and com: "committed h units F entries deps F'"
  shows "d \<in> set deps \<longleftrightarrow> invalidated F A entries d"
proof -
  obtain snapshots es where es: "list_all2 (entry_of F (known_inputs F) snapshots) units es"
      "entries = map fst es" "deps = filter (\<lambda>d. d \<notin> su_id ` set units) (concat (map snd es))"
    using com unfolding committed_def by blast
  have entry: "fst (fst x) = u
      \<and> (\<exists>ds. dependent_source_units (su_id u) F = Ok ds
           \<and> set (snd x) = (if public_api A (su_id u) = snap_public_api_fingerprint (snd (fst x)) then {} else set ds))"
    if "entry_of F (known_inputs F) snapshots u x" for u x
    using that find_input[OF rep, of "su_id u"]
    by (auto simp: entry_of_def batch_entry_def and_then_eq_Ok Let_def api_dependent_invalidations_def
        split: option.splits if_splits)
  have ids: "map (\<lambda>x. fst (fst x)) es = units"
    using es(1) by (induction rule: list_all2_induct) (auto simp: entry)
  have each: "\<exists>ds. dependent_source_units (su_id (fst (fst x))) F = Ok ds
           \<and> set (snd x) = (if public_api A (su_id (fst (fst x))) = snap_public_api_fingerprint (snd (fst x)) then {} else set ds)"
    if "x \<in> set es" for x
    using list_all2_right[OF es(1) that] entry by blast
  have units: "su_id ` set units = (\<lambda>e. su_id (fst e)) ` set entries"
    by (simp add: ids[symmetric] es(2) image_image)
  have depends: "(\<exists>x\<in>set es. d \<in> set (snd x)) \<longleftrightarrow>
      (\<exists>x\<in>set es. \<exists>ds. dependent_source_units (su_id (fst (fst x))) F = Ok ds \<and> d \<in> set ds
          \<and> public_api A (su_id (fst (fst x))) \<noteq> snap_public_api_fingerprint (snd (fst x)))"
  proof (intro bex_cong refl)
    fix x assume "x \<in> set es"
    then obtain ds where "dependent_source_units (su_id (fst (fst x))) F = Ok ds"
        "set (snd x) = (if public_api A (su_id (fst (fst x))) = snap_public_api_fingerprint (snd (fst x)) then {} else set ds)"
      using each by blast
    then show "d \<in> set (snd x) \<longleftrightarrow> (\<exists>ds. dependent_source_units (su_id (fst (fst x))) F = Ok ds \<and> d \<in> set ds
          \<and> public_api A (su_id (fst (fst x))) \<noteq> snap_public_api_fingerprint (snd (fst x)))"
      by simp
  qed
  have "d \<in> set deps \<longleftrightarrow> d \<notin> su_id ` set units \<and> (\<exists>x\<in>set es. d \<in> set (snd x))"
    by (auto simp: es(3))
  then show ?thesis unfolding invalidated_def units depends by (simp add: es(2))
qed

text \<open>The abstract store after a run, whatever its outcome.\<close>

lemma run_store:
  assumes rep: "represents (h_json h) (ix_facts s) A" and current: "distinct (map su_id current)"
    and run: "index_batch_with_optional_cache h manifest current launch prov plan s = (r, s')"
  defines "A1 \<equiv> forget {i. i \<notin> su_id ` set current \<and> (\<exists>snapshot. A i = Some snapshot \<and> considered prov snapshot)} A"
  shows "represents (h_json h) (planned current prov s) A1"
    and "represents (h_json h) (ix_facts s') A1 \<and> ((\<exists>x. r = Done x) \<longrightarrow> (\<forall>c\<in>set current. fresh_in A prov c))
    \<or> (\<exists>entries. set (map fst entries) = {c \<in> set current. \<not> fresh_in A prov c} \<and> distinct (map (\<lambda>e. su_id (fst e)) entries)
        \<and> (\<forall>e\<in>set entries. validate_snapshot (fst e) (snd e) = Inr ())
        \<and> represents (h_json h) (ix_facts s')
            (forget {d. invalidated (planned current prov s) A1 entries d} (fold publish entries A1)))"
proof -
  let ?units = "units_to_analyze current prov s"
  note plan = reanalyzed_plan[OF rep current, of prov]
  show rep1: "represents (h_json h) (planned current prov s) A1"
    using represents_forget[OF rep, of "removed_ids (plan_of current prov s)"]
    by (simp add: planned_def A1_def plan(3))
  from index_batch_cases[OF run stored_inputs_readable(1)[OF rep] stored_inputs_readable(1)[OF rep1]]
  show "represents (h_json h) (ix_facts s') A1 \<and> ((\<exists>x. r = Done x) \<longrightarrow> (\<forall>c\<in>set current. fresh_in A prov c))
    \<or> (\<exists>entries. set (map fst entries) = {c \<in> set current. \<not> fresh_in A prov c} \<and> distinct (map (\<lambda>e. su_id (fst e)) entries)
        \<and> (\<forall>e\<in>set entries. validate_snapshot (fst e) (snd e) = Inr ())
        \<and> represents (h_json h) (ix_facts s')
            (forget {d. invalidated (planned current prov s) A1 entries d} (fold publish entries A1)))"
  proof
    assume "ix_facts s' = planned current prov s \<and> ((\<exists>run. r = Done run) \<longrightarrow> ?units = [])"
    moreover have "?units = [] \<longrightarrow> (\<forall>c\<in>set current. fresh_in A prov c)"
      using plan(1) by auto
    ultimately show ?thesis using rep1 by simp
  next
    assume "?units \<noteq> [] \<and> (\<exists>entries deps. committed h ?units (planned current prov s) entries deps (ix_facts s'))"
    then obtain entries deps where com: "committed h ?units (planned current prov s) entries deps (ix_facts s')" by blast
    note st = committed_store[OF rep1 plan(2) com]
    have "set deps = {d. invalidated (planned current prov s) A1 entries d}"
      using committed_deps[OF rep1 com] by auto
    moreover have "distinct (map (\<lambda>e. su_id (fst e)) entries)"
      using plan(2) st(2) by (metis map_map comp_def map_cong)
    ultimately show ?thesis
      using st plan(1) by (metis (no_types, lifting))
  qed
qed

lemma validated_up_to_date:
  "validate_snapshot c snapshot = Inr x \<Longrightarrow> up_to_date None c snapshot"
  by (auto simp: validate_snapshot_def up_to_date_def split: if_splits)

lemma fresh_up_to_date: "fresh_in A prov c \<Longrightarrow> \<exists>snapshot. A (su_id c) = Some snapshot \<and> up_to_date None c snapshot"
  by (auto simp: fresh_in_def up_to_date_def)

text \<open>The store of a committed run, unit by unit.\<close>

lemma entries_store:
  assumes "distinct (map (\<lambda>e. su_id (fst e)) entries)"
  shows "e \<in> set entries \<Longrightarrow> forget {d. invalidated F A1 entries d} (fold publish entries A) (su_id (fst e)) = Some (snd e)"
    and "u \<notin> (\<lambda>e. su_id (fst e)) ` set entries \<Longrightarrow>
      forget {d. invalidated F A1 entries d} (fold publish entries A) u = (if invalidated F A1 entries u then None else A u)"
  using fold_publish_mem[OF assms] fold_publish_other by (auto simp: forget_def invalidated_def)

text \<open>A successful run commits one validated snapshot for every unit that is not fresh.\<close>

definition store_after :: "facts \<Rightarrow> abstract_store \<Rightarrow> (source_unit \<times> file_analysis_snapshot) list \<Rightarrow> abstract_store" where
  "store_after F A entries = forget {d. invalidated F A entries d} (fold publish entries A)"

definition kept_store :: "provenance option \<Rightarrow> source_unit list \<Rightarrow> abstract_store \<Rightarrow> abstract_store" where
  "kept_store prov current A =
     forget {i. i \<notin> su_id ` set current \<and> (\<exists>snapshot. A i = Some snapshot \<and> considered prov snapshot)} A"

lemma kept_store_current: "c \<in> set current \<Longrightarrow> kept_store prov current A (su_id c) = A (su_id c)"
  by (auto simp: kept_store_def forget_def)

lemma kept_store_considered:
  "kept_store prov current A u = Some snapshot \<Longrightarrow> considered prov snapshot \<Longrightarrow> \<exists>c\<in>set current. su_id c = u"
  by (auto simp: kept_store_def forget_def split: if_splits)

lemma successful_run_store:
  assumes "represents (h_json h) (ix_facts s) A" "distinct (map su_id current)"
    and "index_batch_with_optional_cache h manifest current launch prov plan s = (Done run, s')"
  obtains entries where "fst ` set entries = {c \<in> set current. \<not> fresh_in A prov c}"
    "distinct (map (\<lambda>e. su_id (fst e)) entries)" "\<forall>e\<in>set entries. up_to_date None (fst e) (snd e)"
    "represents (h_json h) (ix_facts s') (store_after (planned current prov s) (kept_store prov current A) entries)"
proof -
  note store = run_store(2)[OF assms, folded kept_store_def store_after_def]
  have none: "store_after F B [] = B" for F B by (simp add: store_after_def forget_def invalidated_def)
  from store show ?thesis
  proof
    assume "represents (h_json h) (ix_facts s') (kept_store prov current A)
      \<and> ((\<exists>x. Done run = Done x) \<longrightarrow> (\<forall>c\<in>set current. fresh_in A prov c))"
    then show ?thesis using that[of "[]"] by (auto simp: none)
  next
    assume "\<exists>entries. set (map fst entries) = {c \<in> set current. \<not> fresh_in A prov c}
        \<and> distinct (map (\<lambda>e. su_id (fst e)) entries) \<and> (\<forall>e\<in>set entries. validate_snapshot (fst e) (snd e) = Inr ())
        \<and> represents (h_json h) (ix_facts s') (store_after (planned current prov s) (kept_store prov current A) entries)"
    then obtain entries where "set (map fst entries) = {c \<in> set current. \<not> fresh_in A prov c}"
        "distinct (map (\<lambda>e. su_id (fst e)) entries)" "\<forall>e\<in>set entries. validate_snapshot (fst e) (snd e) = Inr ()"
        "represents (h_json h) (ix_facts s') (store_after (planned current prov s) (kept_store prov current A) entries)" by blast
    then show ?thesis using that[of entries] validated_up_to_date by simp
  qed
qed

text \<open>
  C3. After a successful index run no stale fact is left: every stored snapshot the plan looks at
  belongs to a current source unit and was made from its present content and context. Every unit
  that had to be analysed is stored so; a current unit is not stored only if it was up to date
  before and depends on a unit whose public interface the run changed.
\<close>

theorem run_leaves_no_stale_facts:
  assumes "represents (h_json h) (ix_facts s) A" "distinct (map su_id current)"
    and "index_batch_with_optional_cache h manifest current launch prov plan s = (Done run, s')"
  shows "\<exists>A'. represents (h_json h) (ix_facts s') A'
    \<and> (\<forall>u snapshot. A' u = Some snapshot \<and> considered prov snapshot \<longrightarrow> (\<exists>c\<in>set current. up_to_date None c snapshot))
    \<and> (\<forall>c\<in>set current. \<not> fresh_in A prov c \<longrightarrow> (\<exists>snapshot. A' (su_id c) = Some snapshot \<and> up_to_date None c snapshot))
    \<and> (\<forall>c\<in>set current. A' (su_id c) = None \<longrightarrow> (\<exists>d\<in>set current. \<not> fresh_in A prov d
          \<and> (\<exists>ds. dependent_source_units (su_id d) (planned current prov s) = Ok ds \<and> su_id c \<in> set ds)
          \<and> public_api A (su_id d) \<noteq> public_api A' (su_id d)))"
proof -
  obtain entries where units: "fst ` set entries = {c \<in> set current. \<not> fresh_in A prov c}"
      and ids: "distinct (map (\<lambda>e. su_id (fst e)) entries)"
      and valid: "\<forall>e\<in>set entries. up_to_date None (fst e) (snd e)"
      and rep: "represents (h_json h) (ix_facts s') (store_after (planned current prov s) (kept_store prov current A) entries)"
    by (rule successful_run_store[OF assms]) (rule that, assumption+)
  let ?A1 = "kept_store prov current A"
  let ?A' = "store_after (planned current prov s) ?A1 entries"
  note new = entries_store(1)[OF ids, where F = "planned current prov s" and ?A1.0 = ?A1 and A = ?A1, folded store_after_def]
  note other = entries_store(2)[OF ids, where F = "planned current prov s" and ?A1.0 = ?A1 and A = ?A1, folded store_after_def]
  have has_entry: "c \<in> fst ` set entries" if "c \<in> set current" "\<not> fresh_in A prov c" for c
    unfolding units using that by simp
  have of_entry: "fst e \<in> set current \<and> \<not> fresh_in A prov (fst e)" if "e \<in> set entries" for e
    using imageI[OF that, of fst] unfolding units by simp
  have stored: "\<exists>snapshot. ?A' (su_id c) = Some snapshot \<and> up_to_date None c snapshot"
    if unit: "c \<in> set current" "\<not> fresh_in A prov c" for c
  proof -
    obtain e where "e \<in> set entries" "c = fst e" using has_entry[OF unit] by (elim imageE)
    then show ?thesis using new valid by blast
  qed
  have old: "fresh_in A prov c \<and> ?A' (su_id c) = (if invalidated (planned current prov s) ?A1 entries (su_id c) then None else A (su_id c))"
    if "c \<in> set current" "su_id c \<notin> (\<lambda>e. su_id (fst e)) ` set entries" for c
  proof
    have "c \<notin> fst ` set entries" using that(2) by (auto simp: image_iff)
    then show "fresh_in A prov c" using has_entry[OF that(1)] by blast
    show "?A' (su_id c) = (if invalidated (planned current prov s) ?A1 entries (su_id c) then None else A (su_id c))"
      using other[OF that(2)] kept_store_current[OF that(1)] by simp
  qed
  have current: "\<exists>c\<in>set current. up_to_date None c snapshot" if a: "?A' u = Some snapshot \<and> considered prov snapshot" for u snapshot
  proof (cases "u \<in> (\<lambda>e. su_id (fst e)) ` set entries")
    case True
    then obtain e where e: "e \<in> set entries" "u = su_id (fst e)" by auto
    then have "snapshot = snd e" using new a by auto
    then show ?thesis using valid e(1) of_entry by blast
  next
    case False
    then have "?A1 u = Some snapshot" using a other[OF False] by (simp split: if_splits)
    then obtain c where c: "c \<in> set current" "su_id c = u" using kept_store_considered a by blast
    with False old[OF c(1)] a show ?thesis using fresh_up_to_date by (fastforce split: if_splits)
  qed
  have lost: "\<exists>d\<in>set current. \<not> fresh_in A prov d
          \<and> (\<exists>ds. dependent_source_units (su_id d) (planned current prov s) = Ok ds \<and> su_id c \<in> set ds)
          \<and> public_api A (su_id d) \<noteq> public_api ?A' (su_id d)" if c: "c \<in> set current" "?A' (su_id c) = None" for c
  proof -
    have out: "su_id c \<notin> (\<lambda>e. su_id (fst e)) ` set entries" using new c(2) by fastforce
    have "invalidated (planned current prov s) ?A1 entries (su_id c)"
      using old[OF c(1) out] c(2) fresh_up_to_date by (fastforce split: if_splits)
    then obtain e ds where e: "e \<in> set entries" "dependent_source_units (su_id (fst e)) (planned current prov s) = Ok ds"
        "su_id c \<in> set ds" "public_api ?A1 (su_id (fst e)) \<noteq> snap_public_api_fingerprint (snd e)"
      unfolding invalidated_def by blast
    have d: "fst e \<in> set current" "\<not> fresh_in A prov (fst e)" using of_entry[OF e(1)] by simp_all
    then show ?thesis using e new[OF e(1)] kept_store_current[OF d(1), of prov A] by (auto simp: public_api_def)
  qed
  from rep stored current lost show ?thesis by blast
qed

section \<open>Failed runs\<close>

text \<open>Tasks that publish no manifest, or publish it as their last step that can fail.\<close>

definition manifest_last :: "'a task \<Rightarrow> bool" where
  "manifest_last m \<longleftrightarrow> (\<forall>s r s'. m s = (r, s') \<longrightarrow> (\<forall>x. r \<noteq> Done x) \<longrightarrow> c_manifests (ix_catalog s') = c_manifests (ix_catalog s))"

definition keeps_manifests :: "'a task \<Rightarrow> bool" where
  "keeps_manifests m \<longleftrightarrow> (\<forall>s. c_manifests (ix_catalog (snd (m s))) = c_manifests (ix_catalog s))"

named_theorems manifest_intros \<open>tasks that keep the manifests\<close>

lemma keeps_manifests_last [manifest_intros]: "keeps_manifests m \<Longrightarrow> manifest_last m"
  unfolding keeps_manifests_def manifest_last_def by (metis snd_conv)

lemma keeps_basic [manifest_intros]:
  "keeps_manifests (return_task x)" "keeps_manifests (fail e)" "keeps_manifests panic"
  "keeps_manifests (get_state f)" "keeps_manifests (change_run g)"
  by (simp_all add: keeps_manifests_def task_simps)

lemma keeps_attempt [manifest_intros]: "keeps_manifests (attempt r)"
  by (cases r) (simp_all add: keeps_manifests_def task_simps)

lemma keeps_read_facts [manifest_intros]: "keeps_manifests (read_facts f)"
  by (simp add: keeps_manifests_def read_facts_def split: sum.split)

lemma keeps_write_facts [manifest_intros]: "keeps_manifests (write_facts f)"
  by (simp add: keeps_manifests_def write_facts_def split: prod.splits)

lemma keeps_then_do [manifest_intros]:
  assumes "keeps_manifests m" "\<And>x. keeps_manifests (f x)"
  shows "keeps_manifests (then_do m f)"
proof -
  have "c_manifests (ix_catalog (snd (then_do m f s))) = c_manifests (ix_catalog s)" for s
  proof -
    obtain r s1 where m: "m s = (r, s1)" by force
    then have "c_manifests (ix_catalog s1) = c_manifests (ix_catalog s)"
      using assms(1) unfolding keeps_manifests_def by (metis snd_conv)
    moreover have "c_manifests (ix_catalog (snd (f x s1))) = c_manifests (ix_catalog s1)" for x
      using assms(2) by (simp add: keeps_manifests_def)
    ultimately show ?thesis using m by (cases r) (simp_all add: then_do_def)
  qed
  then show ?thesis by (simp add: keeps_manifests_def)
qed

lemma manifest_last_then [manifest_intros]:
  assumes "keeps_manifests m" "\<And>x. manifest_last (f x)"
  shows "manifest_last (then_do m f)"
  unfolding manifest_last_def
proof (intro allI impI)
  fix s r s' assume run: "then_do m f s = (r, s')" and r: "\<forall>x. r \<noteq> Done x"
  obtain rm s1 where m: "m s = (rm, s1)" by force
  have s1: "c_manifests (ix_catalog s1) = c_manifests (ix_catalog s)"
    using assms(1) m unfolding keeps_manifests_def by (metis snd_conv)
  show "c_manifests (ix_catalog s') = c_manifests (ix_catalog s)"
  proof (cases rm)
    case (Done x)
    then have "f x s1 = (r, s')" using run m by (simp add: then_do_def)
    then show ?thesis using assms(2)[of x] r s1 unfolding manifest_last_def by metis
  qed (use run m s1 in \<open>auto simp: then_do_def\<close>)
qed

lemma put_manifest_last:
  assumes "\<And>s. \<exists>x s1. rest s = (Done x, s1)"
  shows "manifest_last (then_do (write_catalog (put_manifest manifest)) (\<lambda>_. rest))"
  unfolding manifest_last_def
proof (intro allI impI)
  fix s r s' assume run: "then_do (write_catalog (put_manifest manifest)) (\<lambda>_. rest) s = (r, s')" and r: "\<forall>x. r \<noteq> Done x"
  obtain v c where put: "put_manifest manifest (ix_catalog s) = (v, c)" by force
  show "c_manifests (ix_catalog s') = c_manifests (ix_catalog s)"
  proof (cases v)
    case (Inl e)
    then have "c = ix_catalog s" using put by (auto simp: put_manifest_def split: sum.splits)
    then show ?thesis using run put Inl by (auto simp: then_do_def write_catalog_cases)
  next
    case (Inr u)
    obtain x s1 where "rest (s\<lparr>ix_catalog := c\<rparr>) = (Done x, s1)" using assms by blast
    then show ?thesis using run put Inr r by (auto simp: then_do_def write_catalog_cases)
  qed
qed

lemma keeps_children:
  "for_each (insert_with_children (insert_with c_descriptors c_descriptors_update key row) children insert_locator) ds c = Inr c'
     \<Longrightarrow> c_manifests c' = c_manifests c"
proof (induction ds arbitrary: c)
  case (Cons d ds)
  then obtain c2 where first: "insert_with_children (insert_with c_descriptors c_descriptors_update key row) children insert_locator d c = Inr c2"
      and rest: "for_each (insert_with_children (insert_with c_descriptors c_descriptors_update key row) children insert_locator) ds c2 = Inr c'"
    by (auto simp: and_then_eq_Ok)
  from first obtain c1 where c: "insert_with c_descriptors c_descriptors_update key row d c = Inr c1"
      "for_each (insert_locator d) (children d) c1 = Inr c2"
    by (auto simp: insert_with_children_def and_then_eq_Ok)
  have "c_manifests c1 = c_manifests c" using c(1) by (auto simp: insert_with_def and_then_eq_Ok on_table_Ok)
  moreover have "c_manifests c2 = c_manifests c1"
    using c(2)
  proof (rule for_each_inv[where P = "\<lambda>c. c_manifests c = c_manifests c1"])
    show "c_manifests y' = c_manifests c1" if "c_manifests y = c_manifests c1" "insert_locator d x y = Inr y'" for x y y'
      using that by (auto simp: insert_locator_def insert_with_def and_then_eq_Ok on_table_Ok)
  qed simp
  ultimately show ?case using Cons.IH[OF rest] by simp
qed simp

lemma keeps_replace_descriptors [manifest_intros]: "keeps_manifests (write_catalog (replace_artifact_descriptors ds))"
proof -
  have "c_manifests c' = c_manifests c" if "replace_artifact_descriptors ds c = (r, c')" for r c c'
    using that keeps_children
    by (cases r) (auto simp: replace_artifact_descriptors_def transaction_Ok transaction_Err and_then_eq_Ok Let_def dest!: keeps_children)
  then show ?thesis by (simp add: keeps_manifests_def write_catalog_def split: prod.splits)
qed

lemma keeps_join_lane [manifest_intros]: "keeps_manifests (join_lane lane)"
proof (cases lane)
  case None
  then show ?thesis by (simp add: join_lane_def manifest_intros)
next
  case (Some l)
  then show ?thesis
    by (cases l) (simp_all add: join_lane_def join_catalog_def keeps_manifests_def[of "\<lambda>s. (Endless, s)"] manifest_intros)
qed

lemma keeps_batch_entries [manifest_intros]: "keeps_manifests (batch_entries previous snapshots units)"
proof (induction units)
  case (Cons u units)
  show ?case
    unfolding batch_entries.simps
    by (rule keeps_then_do, rule keeps_basic)
      (auto split: option.splits sum.splits prod.splits intro!: manifest_intros Cons)
qed (simp add: manifest_intros)

lemma keeps_for_all [manifest_intros]: "(\<And>x. keeps_manifests (f x)) \<Longrightarrow> keeps_manifests (for_all f xs)"
  by (induction xs) (auto intro!: manifest_intros)

lemma keeps_commit_batch [manifest_intros]: "keeps_manifests (commit_batch h units response)"
  unfolding commit_batch_def by (auto split: prod.splits intro!: manifest_intros)

lemma find_upsert: "find (\<lambda>r. key r = key row) (upsert_row key row t) = Some row"
proof (cases "key row \<in> key ` set t")
  case True
  then show ?thesis unfolding upsert_row_def by (induction t) auto
next
  case False
  then show ?thesis unfolding upsert_row_def by (induction t) auto
qed

lemma manifest_last_index_batch:
  "manifest_last (index_batch_with_optional_cache h manifest current launch prov plan)"
proof -
  have publish: "manifest_last (publish_unchanged manifest lane)" for lane
    unfolding publish_unchanged_def
    by (rule manifest_last_then, rule keeps_join_lane, rule put_manifest_last) (simp add: task_simps)
  have analyze: "manifest_last (analyze_and_commit h manifest launch plan units lane)" for units lane
    unfolding analyze_and_commit_def
    by (rule manifest_last_then[OF keeps_attempt])
      (auto split: prod.splits option.splits simp: task_simps then_do_simps(1)[OF basic_tasks(5)]
        intro!: manifest_last_then[OF keeps_commit_batch] manifest_last_then[OF keeps_join_lane]
          manifest_last_then[OF keeps_basic(5)] put_manifest_last keeps_manifests_last[OF keeps_basic(2)])
  have start: "c_manifests (ix_catalog (after_plan current prov s)) = c_manifests (ix_catalog s)" for s
    by (simp add: after_plan_def)
  show ?thesis
    unfolding manifest_last_def
  proof (intro allI impI)
    fix s r s' assume run: "index_batch_with_optional_cache h manifest current launch prov plan s = (r, s')"
      and r: "\<forall>x. r \<noteq> Done x"
    show "c_manifests (ix_catalog s') = c_manifests (ix_catalog s)"
    proof (cases "prov = None \<or> stored_analysis_inputs (ix_facts s) = Inr (known_inputs (ix_facts s))")
      case True
      let ?units = "units_to_analyze current prov s" and ?s = "after_plan current prov s"
      let ?lane = "if catalog_needed manifest s then Some (discover_dependency_catalog h launch manifest plan) else None"
      have "(if ?units = [] then publish_unchanged manifest ?lane ?s else analyze_and_commit h manifest launch plan ?units ?lane ?s) = (r, s')"
        using run unfolding index_batch_start[OF True] Let_def .
      then have "c_manifests (ix_catalog s') = c_manifests (ix_catalog ?s)"
        using r publish[of ?lane] analyze[of ?units ?lane] unfolding manifest_last_def by (cases "?units = []") auto
      then show ?thesis by (simp only: start)
    next
      case False
      then obtain p e where "prov = Some p" "stored_analysis_inputs (ix_facts s) = Inl e"
        by (cases "stored_analysis_inputs (ix_facts s)") (auto simp: known_inputs_def)
      then show ?thesis using run index_batch_unreadable[of s e h manifest current launch p plan] by simp
    qed
  qed
qed

text \<open>
  C26. A run that fails, panics or hangs loses nothing it cannot redo: the stored manifest is the
  one from before, so the next run discovers the catalog again, and every source unit has its old
  snapshot, none, or the validated snapshot of its present content and context.
\<close>

theorem failed_run_stores_nothing_stale:
  assumes "represents (h_json h) (ix_facts s) A" "distinct (map su_id current)"
    and "index_batch_with_optional_cache h manifest current launch prov plan s = (r, s')" "\<forall>run. r \<noteq> Done run"
  shows "c_manifests (ix_catalog s') = c_manifests (ix_catalog s)
    \<and> (\<exists>A'. represents (h_json h) (ix_facts s') A'
       \<and> (\<forall>u. A' u = A u \<or> A' u = None
            \<or> (\<exists>c\<in>set current. \<exists>snapshot. su_id c = u \<and> A' u = Some snapshot \<and> up_to_date None c snapshot)))"
proof
  show "c_manifests (ix_catalog s') = c_manifests (ix_catalog s)"
    using manifest_last_index_batch assms(3,4) unfolding manifest_last_def by metis
  have kept: "kept_store prov current A u = A u \<or> kept_store prov current A u = None" for u
    by (simp add: kept_store_def forget_def)
  from run_store(2)[OF assms(1-3), folded kept_store_def store_after_def]
  show "\<exists>A'. represents (h_json h) (ix_facts s') A'
       \<and> (\<forall>u. A' u = A u \<or> A' u = None
            \<or> (\<exists>c\<in>set current. \<exists>snapshot. su_id c = u \<and> A' u = Some snapshot \<and> up_to_date None c snapshot))"
  proof
    assume "represents (h_json h) (ix_facts s') (kept_store prov current A)
      \<and> ((\<exists>x. r = Done x) \<longrightarrow> (\<forall>c\<in>set current. fresh_in A prov c))"
    then show ?thesis using kept by blast
  next
    assume "\<exists>entries. set (map fst entries) = {c \<in> set current. \<not> fresh_in A prov c}
        \<and> distinct (map (\<lambda>e. su_id (fst e)) entries) \<and> (\<forall>e\<in>set entries. validate_snapshot (fst e) (snd e) = Inr ())
        \<and> represents (h_json h) (ix_facts s') (store_after (planned current prov s) (kept_store prov current A) entries)"
    then obtain entries where units: "set (map fst entries) = {c \<in> set current. \<not> fresh_in A prov c}"
        and ids: "distinct (map (\<lambda>e. su_id (fst e)) entries)" and valid: "\<forall>e\<in>set entries. validate_snapshot (fst e) (snd e) = Inr ()"
        and rep: "represents (h_json h) (ix_facts s') (store_after (planned current prov s) (kept_store prov current A) entries)" by blast
    let ?A' = "store_after (planned current prov s) (kept_store prov current A) entries"
    have "?A' u = A u \<or> ?A' u = None
        \<or> (\<exists>c\<in>set current. \<exists>snapshot. su_id c = u \<and> ?A' u = Some snapshot \<and> up_to_date None c snapshot)" for u
    proof (cases "u \<in> (\<lambda>e. su_id (fst e)) ` set entries")
      case True
      then obtain e where e: "e \<in> set entries" "u = su_id (fst e)" by auto
      have "fst e \<in> set (map fst entries)" using e(1) by simp
      then have "fst e \<in> set current" unfolding units by simp
      moreover have "?A' u = Some (snd e)"
        using entries_store(1)[OF ids e(1)] e(2) by (simp add: store_after_def)
      ultimately show ?thesis using valid e validated_up_to_date by blast
    next
      case False
      then show ?thesis
        using kept[of u] entries_store(2)[OF ids False, of "planned current prov s" "kept_store prov current A" "kept_store prov current A"]
        by (auto simp: store_after_def)
    qed
    with rep show ?thesis by blast
  qed
qed

text \<open>
  C27. A run over an unchanged workspace always succeeds without a worker: when every current unit
  is up to date, no other snapshot is left that the plan looks at, and the manifest is the stored
  one, the run reuses every unit, starts no process whatever the workers do, and leaves the facts as
  they are.
\<close>

theorem warm_run_needs_no_worker:
  assumes "represents (h_json h) (ix_facts s) A" "distinct (map su_id current)"
    and "\<forall>c\<in>set current. fresh_in A prov c"
    and "\<forall>u snapshot. A u = Some snapshot \<and> considered prov snapshot \<longrightarrow> u \<in> su_id ` set current"
    and "\<not> catalog_needed manifest s" "validate_provenance (man_provenance manifest) = Ok ()"
  shows "\<exists>run s'. index_batch_with_optional_cache h manifest current launch prov plan s = (Done run, s')
    \<and> ix_facts s' = ix_facts s \<and> ir_reused run = length current \<and> ir_analyzed run = 0 \<and> ir_removed run = 0
    \<and> ir_worker_starts run = 0 \<and> stored_manifest (man_workspace manifest) (ix_catalog s') = Some manifest"
proof -
  note plan = reanalyzed_plan[OF assms(1,2), of prov]
  have none: "units_to_analyze current prov s = []" "removed_ids (plan_of current prov s) = []"
    using plan(1,3) assms(3,4) by (auto simp flip: set_empty)
  have reuse: "is_reuse a" if "a \<in> set (plan_of current prov s)" for a
  proof (cases a)
    case (Reanalyze u reason)
    then have "u \<in> set (units_to_analyze current prov s)" using that by (auto simp: set_reanalyzed)
    then show ?thesis by (simp add: none)
  next
    case (Remove i)
    then have "i \<in> set (removed_ids (plan_of current prov s))" using that by (simp add: set_removed_ids)
    then show ?thesis by (simp add: none)
  qed simp
  have ids: "action_id ` set (plan_of current prov s) = su_id ` set current"
  proof -
    have act: "action_id (unit_action prov A c) = su_id c" for c
      by (cases prov) (simp_all add: unit_action_def)
    have no_remove: "Remove i \<notin> set (plan_of current prov s)" for i using reuse[of "Remove i"] by auto
    have "set (plan_of current prov s) = unit_action prov A ` set current"
      using plan_actions_mem(1,2)[OF assms(1,2), of _ prov] no_remove by blast
    then show ?thesis by (simp add: image_image act)
  qed
  have "length (plan_of current prov s) = length current"
    using distinct_card[OF plan_actions_mem(4)[OF assms(1,2), of prov]] distinct_card[OF assms(2)] ids by simp
  then have count: "length (filter is_reuse (plan_of current prov s)) = length current"
    using reuse by (simp add: filter_True)
  obtain c where put: "put_manifest manifest (ix_catalog s) = (Ok (), c)"
      and stored: "stored_manifest (man_workspace manifest) c = Some manifest"
  proof
    let ?row = "\<lparr> mr_workspace = man_workspace manifest, mr_fingerprint = man_fingerprint manifest,
        mr_protocol = prov_protocol_version (man_provenance manifest), mr_record = manifest \<rparr>"
    let ?c = "(ix_catalog s)\<lparr>c_manifests := upsert_row mr_workspace ?row (c_manifests (ix_catalog s))\<rparr>"
    show "put_manifest manifest (ix_catalog s) = (Ok (), ?c)" by (simp add: put_manifest_def assms(6))
    have "find (\<lambda>r. mr_workspace r = man_workspace manifest) (upsert_row mr_workspace ?row t) = Some ?row" for t
      using find_upsert[of mr_workspace ?row t] by simp
    then show "stored_manifest (man_workspace manifest) ?c = Some manifest" by (simp add: stored_manifest_def)
  qed
  show ?thesis
    using put stored none count assms(5)
    by (simp add: index_batch_start stored_inputs_readable(1)[OF assms(1)] publish_unchanged_def join_lane_def then_do_def task_simps write_catalog_cases
        after_plan_def planned_def empty_run_def)
qed

section \<open>The runs on a concrete workspace\<close>

text \<open>
  One source unit, a worker that answers the handshake and the batch, an index whose manifest is
  the resolved one.
\<close>

definition sample_batch_response :: analysis_batch_response where
  "sample_batch_response = \<lparr> br_snapshots = [sample_snapshot ''a'' ''1'' []],
     br_timings = [\<lparr> pt_phase = ''parse'', pt_elapsed_millis = 3 \<rparr>], br_artifact_candidates = [], br_metrics = [] \<rparr>"

definition sample_host :: "worker_envelope host" where
  "sample_host = \<lparr> h_adapter = plain_adapter, h_core_version = ''0.1.0'',
     h_worlds = (\<lambda>i. answering_world 7 (if i = ''index-handshake'' then sample_response i
        else new_envelope i (MsgAnalysisBatchResponse sample_batch_response))),
     h_exited = (\<lambda>_. False), h_millis = (\<lambda>_. 2), h_json = concat, h_language_name = (\<lambda>_. ''kotlin'') \<rparr>"

definition silent_host :: "worker_envelope host" where
  "silent_host = sample_host\<lparr>h_worlds := (\<lambda>i. (h_worlds sample_host i)\<lparr>w_arrived := []\<rparr>)\<rparr>"

definition sample_index :: index_state where
  "sample_index = \<lparr> ix_facts = no_facts, ix_catalog = snd (put_manifest sample_manifest empty_catalog), ix_run = empty_run \<rparr>"

lemmas sample_worker_simps = analyze_units_def handshake_def request_def batch_request_def sample_host_def
  silent_host_def sample_capabilities_def WORKER_PROTOCOL_VERSION_def supervisor_run_simps

lemma sample_conversation:
  "\<exists>sup. analyze_units sample_host sample_manifest (new_launch ''worker'') (legacy_execution_plan sample_manifest)
     [sample_unit ''a'' ''1''] = Ok (MsgAnalysisBatchResponse sample_batch_response, sup) \<and> sv_starts sup = 1"
  by (simp add: sample_worker_simps)

lemma silent_conversation:
  "analyze_units silent_host sample_manifest (new_launch ''worker'') (legacy_execution_plan sample_manifest)
     [sample_unit ''a'' ''1''] = Err (OrchestratorWorker (TimedOut 30000))"
  by (simp add: sample_worker_simps)

lemma sample_plan: "\<not> catalog_needed sample_manifest sample_index"
    "reanalyzed (plan_of [sample_unit ''a'' ''1''] None sample_index) = [sample_unit ''a'' ''1'']"
  by code_simp+

lemma sample_commit: "case commit_batch sample_host [sample_unit ''a'' ''1''] sample_batch_response
     (after_plan [sample_unit ''a'' ''1''] None sample_index) of
     (Done u, s) \<Rightarrow> (case write_catalog (put_manifest sample_manifest) s of (Done u, s) \<Rightarrow> True | _ \<Rightarrow> False) | _ \<Rightarrow> False"
  by code_simp

lemma write_catalog_run: "write_catalog f s = (Done u, s1) \<Longrightarrow> \<exists>s2. write_catalog f (s\<lparr>ix_run := g (ix_run s)\<rparr>) = (Done (), s2)"
  by (auto simp: write_catalog_cases split: prod.splits sum.splits)

lemma sample_index_run:
  "\<exists>run s'. index_batch_with_optional_cache sample_host sample_manifest [sample_unit ''a'' ''1''] (new_launch ''worker'')
     None (legacy_execution_plan sample_manifest) sample_index = (Done run, s')"
proof -
  let ?units = "[sample_unit ''a'' ''1'']"
  obtain sup where conv: "analyze_units sample_host sample_manifest (new_launch ''worker'') (legacy_execution_plan sample_manifest)
      ?units = Ok (MsgAnalysisBatchResponse sample_batch_response, sup)" using sample_conversation by blast
  obtain u s1 v s2 where commit: "commit_batch sample_host ?units sample_batch_response (after_plan ?units None sample_index) = (Done u, s1)"
      "write_catalog (put_manifest sample_manifest) s1 = (Done v, s2)"
    using sample_commit by (auto split: prod.splits outcome.splits)
  obtain s3 where "write_catalog (put_manifest sample_manifest)
      (s1\<lparr>ix_run := (ix_run s1)\<lparr>ir_batches := ir_batches (ix_run s1) @ [batch_metrics sample_host ?units sample_batch_response]\<rparr>\<rparr>) = (Done (), s3)"
    using write_catalog_run[OF commit(2), of "\<lambda>r. r\<lparr>ir_batches := ir_batches r @ [batch_metrics sample_host ?units sample_batch_response]\<rparr>"]
    by auto
  then show ?thesis
    using conv commit(1)
    by (simp add: index_batch_start sample_plan analyze_and_commit_def batch_response_def then_do_def task_simps join_lane_def Let_def)
qed

theorem run_leaves_no_stale_facts_witness:
  "\<exists>run s' A'. index_batch_with_optional_cache sample_host sample_manifest [sample_unit ''a'' ''1''] (new_launch ''worker'')
     None (legacy_execution_plan sample_manifest) sample_index = (Done run, s')
   \<and> represents concat (ix_facts s') A' \<and> A' (SourceUnitId ''a'') \<noteq> None"
proof -
  obtain run s' where run: "index_batch_with_optional_cache sample_host sample_manifest [sample_unit ''a'' ''1''] (new_launch ''worker'')
     None (legacy_execution_plan sample_manifest) sample_index = (Done run, s')" using sample_index_run by blast
  have rep: "represents (h_json sample_host) (ix_facts sample_index) Map.empty"
    by (simp add: sample_host_def sample_index_def represents_empty)
  have "\<not> fresh_in Map.empty None (sample_unit ''a'' ''1'')" by (simp add: fresh_in_def)
  with run_leaves_no_stale_facts[OF rep _ run] run show ?thesis
    by (simp add: sample_host_def) blast
qed

theorem failed_run_stores_nothing_stale_witness:
  "\<exists>s'. index_batch_with_optional_cache silent_host sample_manifest [sample_unit ''a'' ''1''] (new_launch ''worker'')
     None (legacy_execution_plan sample_manifest) sample_index = (Failing (OrchestratorWorker (TimedOut 30000)), s')
   \<and> c_manifests (ix_catalog s') = c_manifests (ix_catalog sample_index)"
proof -
  obtain s' where run: "index_batch_with_optional_cache silent_host sample_manifest [sample_unit ''a'' ''1''] (new_launch ''worker'')
     None (legacy_execution_plan sample_manifest) sample_index = (Failing (OrchestratorWorker (TimedOut 30000)), s')"
    using silent_conversation
    by (simp add: index_batch_start sample_plan analyze_and_commit_def then_do_def task_simps Let_def)
  have rep: "represents (h_json silent_host) (ix_facts sample_index) Map.empty"
    by (simp add: sample_index_def represents_empty)
  show ?thesis using failed_run_stores_nothing_stale[OF rep _ run] run by auto
qed

definition sample_stored :: "facts \<times> abstract_store" where
  "sample_stored = published concat [OpReplace (sample_unit ''a'' ''1'') (sample_snapshot ''a'' ''1'' [])]"

lemma sample_stored_snapshot: "snd sample_stored = [SourceUnitId ''a'' \<mapsto> sample_snapshot ''a'' ''1'' []]"
proof -
  have "fst (replace_snapshot concat (sample_unit ''a'' ''1'') (sample_snapshot ''a'' ''1'' []) no_facts) = Inr ()"
    by code_simp
  then show ?thesis by (auto simp: sample_stored_def published_def publish_def split: prod.splits sum.splits)
qed

theorem warm_run_needs_no_worker_witness:
  "\<exists>run s'. index_batch_with_optional_cache silent_host sample_manifest [sample_unit ''a'' ''1''] (new_launch ''worker'')
     None (legacy_execution_plan sample_manifest) (sample_index\<lparr>ix_facts := fst sample_stored\<rparr>) = (Done run, s')
   \<and> ir_reused run = 1 \<and> ir_worker_starts run = 0"
proof -
  let ?s = "sample_index\<lparr>ix_facts := fst sample_stored\<rparr>"
  have "represents (h_json silent_host) (ix_facts ?s) (snd sample_stored)"
    by (simp add: silent_host_def sample_host_def sample_stored_def represents_published)
  moreover have "fresh_in (snd sample_stored) None (sample_unit ''a'' ''1'')"
    by (simp add: sample_stored_snapshot fresh_in_def considered_def up_to_date_def sample_snapshot_def)
  moreover have "\<not> catalog_needed sample_manifest ?s" using sample_plan(1) by (simp add: catalog_needed_def)
  moreover have "validate_provenance (man_provenance sample_manifest) = Ok ()" by code_simp
  moreover have "u \<in> su_id ` set [sample_unit ''a'' ''1'']" if "snd sample_stored u = Some snapshot" for u snapshot
    using that by (simp add: sample_stored_snapshot split: if_splits)
  ultimately obtain run s' where "index_batch_with_optional_cache silent_host sample_manifest [sample_unit ''a'' ''1'']
      (new_launch ''worker'') None (legacy_execution_plan sample_manifest) ?s = (Done run, s')"
      "ir_reused run = length [sample_unit ''a'' ''1'']" "ir_worker_starts run = 0"
    using warm_run_needs_no_worker[of silent_host ?s "snd sample_stored" "[sample_unit ''a'' ''1'']" None sample_manifest
        "new_launch ''worker''" "legacy_execution_plan sample_manifest"] by auto
  then show ?thesis by simp
qed

section \<open>What a run removes\<close>

text \<open>
  With a provenance, as the command line runs it for one batch, the plan compares the sources with
  all stored snapshots: the snapshot of a materialised dependency is removed by the next run.
\<close>

lemma dependency_snapshot_is_removed:
  assumes "represents (h_json h) (ix_facts s) A" "distinct (map su_id current)"
    and "A d = Some snapshot" "su_origin (snap_source_unit snapshot) = OriginDependency" "d \<notin> su_id ` set current"
  shows "Remove d \<in> set (plan_of current (Some p) s) \<and> Remove d \<notin> set (plan_of current None s)"
proof
  show "Remove d \<in> set (plan_of current (Some p) s)"
    using plan_actions_mem(3)[OF assms(1,2,3) _ assms(5), of "Some p"] by (simp add: considered_def)
  have "\<not> considered None snapshot" using assms(4) by (simp add: considered_def)
  then have "d \<notin> set (removed_ids (plan_of current None s))"
    using reanalyzed_plan(3)[OF assms(1,2), of None] assms(3) by auto
  then show "Remove d \<notin> set (plan_of current None s)" by (simp add: set_removed_ids)
qed

text \<open>A changed manifest with no batch to run is a panic, not a run without work.\<close>

lemma empty_selection_panics:
  assumes "man_fingerprint manifest = ep_resolved_fingerprint plan" "catalog_needed manifest s"
    and "sel_batches selection = []" "sel_unsupported selection = []"
  shows "fst (index_selected_batches_with_execution_plan h manifest current selection plan s) = Panicked"
  using assms
  by (simp add: index_selected_batches_with_execution_plan_def validate_execution_plan_def then_do_def task_simps apply_actions_eq)

end
