(* ===== verification/Index_Selected.thy ===== *)
theory Index_Selected
  imports Index_Runs
begin

text \<open>
  The other two lanes of \<open>orchestrator.rs\<close>: the discovery of the dependency catalog, page by page,
  and index runs over the batches of a worker selection.
\<close>

section \<open>The pages of the dependency catalog\<close>

text \<open>
  What the discovery of the dependency catalog promises, in terms of the pages a worker sends. A page is asked for
  with its number, kept in 64 bits, and the cursor of the page before it; another page is wanted as long as there
  is none or the last one names a next cursor.
\<close>

definition cursor_of :: "artifact_discovery_response list \<Rightarrow> string option" where
  "cursor_of rs = (if rs = [] then None else dr_next_cursor (last rs))"

definition wants_page :: "artifact_discovery_response list \<Rightarrow> bool" where
  "wants_page rs \<longleftrightarrow> rs = [] \<or> dr_next_cursor (last rs) \<noteq> None"

definition page_request :: "opaque_execution_plan \<Rightarrow> artifact_discovery_response list \<Rightarrow> worker_envelope" where
  "page_request plan rs = new_envelope (''index-artifact-descriptors-'' @ decimal (length rs mod 2 ^ 64))
     (MsgArtifactDiscoveryRequest \<lparr> dq_workspace_root = WorkspacePath ''.'', dq_max_artifacts = 64,
        dq_cursor = cursor_of rs, dq_execution_plan = plan \<rparr>)"

abbreviation ask_page :: "'p host \<Rightarrow> opaque_execution_plan \<Rightarrow> artifact_discovery_response list \<Rightarrow> 'p supervisor
    \<Rightarrow> worker_envelope supervised \<times> 'p supervisor" where
  "ask_page h plan rs \<equiv>
     request (h_adapter h) (h_worlds h (env_request_id (page_request plan rs))) (page_request plan rs)"

text \<open>A descriptor fits when its context is the configuration of its component, of several the last one listed.\<close>

definition component_of :: "project_manifest \<Rightarrow> artifact_descriptor \<Rightarrow> component option" where
  "component_of manifest d = find (\<lambda>k. comp_id k = su_component (ad_source_unit d)) (rev (man_components manifest))"

definition descriptor_fits :: "project_manifest \<Rightarrow> artifact_descriptor \<Rightarrow> bool" where
  "descriptor_fits manifest d \<longleftrightarrow>
     map_option comp_configuration (component_of manifest d) = Some (su_context (ad_source_unit d))"

text \<open>The pages \<open>rs\<close> were sent, in this order, from the state \<open>s\<close> of the supervisor on.\<close>

inductive pages :: "'p host \<Rightarrow> project_manifest \<Rightarrow> opaque_execution_plan \<Rightarrow> 'p supervisor
    \<Rightarrow> artifact_discovery_response list \<Rightarrow> 'p supervisor \<Rightarrow> bool" for h manifest plan s where
  no_page: "pages h manifest plan s [] s"
| next_page: "pages h manifest plan s rs s1 \<Longrightarrow> wants_page rs \<Longrightarrow> ask_page h plan rs s1 = (Inr envelope, s2)
    \<Longrightarrow> env_message envelope = MsgArtifactDiscoveryResponse r \<Longrightarrow> list_all (descriptor_fits manifest) (dr_artifacts r)
    \<Longrightarrow> pages h manifest plan s (rs @ [r]) s2"

text \<open>Why the page after \<open>rs\<close> is not taken.\<close>

inductive page_fails :: "'p host \<Rightarrow> project_manifest \<Rightarrow> opaque_execution_plan
    \<Rightarrow> artifact_discovery_response list \<Rightarrow> 'p supervisor \<Rightarrow> orchestrator_error \<Rightarrow> bool" for h manifest plan rs s where
  worker_fails: "ask_page h plan rs s = (Inl e, s') \<Longrightarrow> page_fails h manifest plan rs s (OrchestratorWorker e)"
| other_message: "ask_page h plan rs s = (Inr envelope, s') \<Longrightarrow> \<nexists>r. env_message envelope = MsgArtifactDiscoveryResponse r
    \<Longrightarrow> page_fails h manifest plan rs s (InvalidBatchResponse (env_message envelope))"
| unknown_component: "ask_page h plan rs s = (Inr envelope, s') \<Longrightarrow> env_message envelope = MsgArtifactDiscoveryResponse r
    \<Longrightarrow> dr_artifacts r = pre @ d # post \<Longrightarrow> list_all (descriptor_fits manifest) pre \<Longrightarrow> component_of manifest d = None
    \<Longrightarrow> page_fails h manifest plan rs s (UnknownDependencyComponent (as_str (su_component (ad_source_unit d))))"
| other_context: "ask_page h plan rs s = (Inr envelope, s') \<Longrightarrow> env_message envelope = MsgArtifactDiscoveryResponse r
    \<Longrightarrow> dr_artifacts r = pre @ d # post \<Longrightarrow> list_all (descriptor_fits manifest) pre \<Longrightarrow> component_of manifest d = Some k
    \<Longrightarrow> comp_configuration k \<noteq> su_context (ad_source_unit d)
    \<Longrightarrow> page_fails h manifest plan rs s (DependencyContextMismatch (as_str (su_component (ad_source_unit d)))
          (comp_configuration k) (su_context (ad_source_unit d)))"

text \<open>The last element for every key, in the order of the keys.\<close>

definition newest :: "('a \<Rightarrow> 'k::linorder) \<Rightarrow> 'a list \<Rightarrow> ('k \<times> 'a) list" where
  "newest key xs = map (\<lambda>k. (k, last (filter (\<lambda>x. key x = k) xs))) (sort_dedup (map key xs))"

definition catalog_of :: "'p host \<Rightarrow> artifact_discovery_response list \<Rightarrow> 'p supervisor \<Rightarrow> dependency_catalog" where
  "catalog_of h rs s =
     \<lparr> dc_descriptors = map snd (newest artifact_key (concat (map dr_artifacts rs))),
       dc_artifact_locators = map (\<lambda>(k, l). (k, al_locator l))
         (newest (\<lambda>l. as_str (al_source_unit l)) (concat (map dr_artifact_locators rs))),
       dc_worker_starts = sv_starts s, dc_elapsed_millis = h_millis h ''dependency-catalog'' \<rparr>"

lemma btree_index_newest: "btree_index key xs = newest key xs"
proof (rule btree_ext)
  have get: "btree_get (btree_index key xs) k = (if k \<in> key ` set xs then Some (last (filter (\<lambda>x. key x = k) xs)) else None)" for k
    by (induction xs rule: rev_induct) (auto simp: btree_index_append btree_get_insert)
  show "btree_get (btree_index key xs) k = btree_get (newest key xs) k" for k
    by (simp add: get newest_def map_of_map_restrict restrict_map_def)
  show "btree_wf (newest key xs)" by (simp add: newest_def btree_wf_def comp_def)
qed simp

lemma fold_insert_newest: "fold (\<lambda>x. btree_insert (key x) (f x)) xs [] = map (\<lambda>(k, x). (k, f x)) (newest key xs)"
  by (induction xs rule: rev_induct) (simp_all add: btree_index_newest[symmetric] btree_index_append btree_insert_map)

section \<open>The loop over the pages\<close>

lemma check_descriptor_cases:
  "check_descriptor (expected_contexts manifest) d = (case component_of manifest d of
     None \<Rightarrow> Err (UnknownDependencyComponent (as_str (su_component (ad_source_unit d))))
   | Some k \<Rightarrow> if su_context (ad_source_unit d) \<noteq> comp_configuration k
       then Err (DependencyContextMismatch (as_str (su_component (ad_source_unit d))) (comp_configuration k)
              (su_context (ad_source_unit d)))
       else Ok ())"
proof -
  have get: "btree_get (fold (\<lambda>c. btree_insert (as_str (comp_id c)) (comp_configuration c)) cs []) (as_str i)
      = map_option comp_configuration (find (\<lambda>k. comp_id k = i) (rev cs))" for cs i
    by (induction cs rule: rev_induct) (auto simp: btree_get_insert as_str_inject)
  show ?thesis
    unfolding check_descriptor_def expected_contexts_def component_of_def Let_def get by (simp split: option.split)
qed

lemma check_descriptor_Ok: "check_descriptor (expected_contexts manifest) d = Inr () \<longleftrightarrow> descriptor_fits manifest d"
  by (auto simp: check_descriptor_cases descriptor_fits_def split: option.splits)

lemma split_Cons:
  "(\<exists>pre x post. y # xs = pre @ x # post \<and> P pre \<and> Q x) \<longleftrightarrow>
     P [] \<and> Q y \<or> (\<exists>pre x post. xs = pre @ x # post \<and> P (y # pre) \<and> Q x)"
proof
  assume "\<exists>pre x post. y # xs = pre @ x # post \<and> P pre \<and> Q x"
  then obtain pre x post where "y # xs = pre @ x # post" "P pre" "Q x" by blast
  then show "P [] \<and> Q y \<or> (\<exists>pre x post. xs = pre @ x # post \<and> P (y # pre) \<and> Q x)" by (cases pre) auto
next
  assume "P [] \<and> Q y \<or> (\<exists>pre x post. xs = pre @ x # post \<and> P (y # pre) \<and> Q x)"
  then show "\<exists>pre x post. y # xs = pre @ x # post \<and> P pre \<and> Q x" by (metis append_Cons append_Nil)
qed

lemma check_all_Err:
  "check_all f xs = Inl e \<longleftrightarrow> (\<exists>pre x post. xs = pre @ x # post \<and> (\<forall>y\<in>set pre. f y = Inr ()) \<and> f x = Inl e)"
proof (induction xs)
  case (Cons y xs)
  then show ?case
    using split_Cons[of y xs "\<lambda>pre. \<forall>y\<in>set pre. f y = Inr ()" "\<lambda>x. f x = Inl e"] by (cases "f y") auto
qed simp

lemma discovery_page_asks:
  "discovery_page h plan contexts (cursor_of rs) (of_nat (length rs)) d s =
     (case ask_page h plan rs s of
        (Inl e, s) \<Rightarrow> Err (OrchestratorWorker e)
      | (Inr envelope, s) \<Rightarrow>
          (case env_message envelope of
             MsgArtifactDiscoveryResponse r \<Rightarrow>
               and_then (check_all (check_descriptor contexts) (dr_artifacts r)) (\<lambda>_. Ok (collect_page r d, dr_next_cursor r, s))
           | received \<Rightarrow> Err (InvalidBatchResponse received)))"
proof -
  have "unat (of_nat (length rs) :: u64) = length rs mod 2 ^ 64" by (simp add: unat_of_nat take_bit_eq_mod)
  then show ?thesis
    unfolding discovery_page_def page_request_def by (simp add: Let_def new_envelope_def)
qed

lemma discovery_page_Ok:
  "discovery_page h plan (expected_contexts manifest) (cursor_of rs) (of_nat (length rs)) d s = Inr (d', nxt, s2) \<longleftrightarrow>
     (\<exists>envelope r. ask_page h plan rs s = (Inr envelope, s2) \<and> env_message envelope = MsgArtifactDiscoveryResponse r
        \<and> list_all (descriptor_fits manifest) (dr_artifacts r) \<and> d' = collect_page r d \<and> nxt = dr_next_cursor r)"
  unfolding discovery_page_asks
  by (auto simp: and_then_eq_Ok check_all_Ok check_descriptor_Ok list_all_iff split: prod.splits sum.splits worker_message.splits)

lemma discovery_page_Err:
  "discovery_page h plan (expected_contexts manifest) (cursor_of rs) (of_nat (length rs)) d s = Inl e \<longleftrightarrow>
     page_fails h manifest plan rs s e"
proof -
  obtain answer s' where ask: "ask_page h plan rs s = (answer, s')" by force
  show ?thesis
  proof (cases answer)
    case (Inl x)
    then show ?thesis using ask by (auto simp: discovery_page_asks page_fails.simps)
  next
    case (Inr envelope)
    show ?thesis
    proof (cases "\<exists>r. env_message envelope = MsgArtifactDiscoveryResponse r")
      case False
      then have "discovery_page h plan (expected_contexts manifest) (cursor_of rs) (of_nat (length rs)) d s
          = Inl (InvalidBatchResponse (env_message envelope))"
        using ask Inr by (auto simp: discovery_page_asks split: worker_message.splits)
      then show ?thesis using ask Inr False by (auto simp: page_fails.simps)
    next
      case True
      then obtain r where r: "env_message envelope = MsgArtifactDiscoveryResponse r" by blast
      then have "discovery_page h plan (expected_contexts manifest) (cursor_of rs) (of_nat (length rs)) d s = Inl e \<longleftrightarrow>
          (\<exists>pre x post. dr_artifacts r = pre @ x # post \<and> list_all (descriptor_fits manifest) pre
             \<and> check_descriptor (expected_contexts manifest) x = Inl e)"
        using ask Inr by (simp add: discovery_page_asks and_then_eq_Err check_all_Err check_descriptor_Ok list_all_iff)
      also have "\<dots> \<longleftrightarrow> page_fails h manifest plan rs s e"
        using ask Inr r
        by (fastforce simp: page_fails.simps check_descriptor_cases split: option.splits if_splits)
      finally show ?thesis .
    qed
  qed
qed

definition collected :: "artifact_discovery_response list \<Rightarrow> discovery" where
  "collected rs = fold collect_page rs \<lparr> dv_descriptors = [], dv_locators = [] \<rparr>"

lemma collected_newest:
  "dv_descriptors (collected rs) = newest artifact_key (concat (map dr_artifacts rs))"
  "dv_locators (collected rs) = map (\<lambda>(k, l). (k, al_locator l))
     (newest (\<lambda>l. as_str (al_source_unit l)) (concat (map dr_artifact_locators rs)))"
proof -
  have "collected rs = \<lparr> dv_descriptors = fold (\<lambda>x. btree_insert (artifact_key x) x) (concat (map dr_artifacts rs)) [],
      dv_locators = fold (\<lambda>l. btree_insert (as_str (al_source_unit l)) (al_locator l)) (concat (map dr_artifact_locators rs)) [] \<rparr>"
    by (induction rs rule: rev_induct) (simp_all add: collected_def collect_page_def)
  then show "dv_descriptors (collected rs) = newest artifact_key (concat (map dr_artifacts rs))"
    "dv_locators (collected rs) = map (\<lambda>(k, l). (k, al_locator l))
       (newest (\<lambda>l. as_str (al_source_unit l)) (concat (map dr_artifact_locators rs)))"
    using fold_insert_newest[of artifact_key "\<lambda>x. x"] fold_insert_newest[of "\<lambda>l. as_str (al_source_unit l)" al_locator]
    by (simp_all add: case_prod_unfold)
qed

definition page_loop :: "'p host \<Rightarrow> project_manifest \<Rightarrow> opaque_execution_plan \<Rightarrow> artifact_discovery_response list
    \<Rightarrow> 'p supervisor \<Rightarrow> (orchestrator_error, discovery \<times> 'p supervisor) result option" where
  "page_loop h manifest plan rs s =
     discovery_loop h plan (expected_contexts manifest) (cursor_of rs) (of_nat (length rs)) (collected rs) s"

lemma page_loop_step:
  assumes "ask_page h plan rs s = (Inr envelope, s2)" "env_message envelope = MsgArtifactDiscoveryResponse r"
    and "list_all (descriptor_fits manifest) (dr_artifacts r)"
  shows "page_loop h manifest plan rs s =
    (if wants_page (rs @ [r]) then page_loop h manifest plan (rs @ [r]) s2 else Some (Ok (collected (rs @ [r]), s2)))"
proof -
  have "discovery_page h plan (expected_contexts manifest) (cursor_of rs) (of_nat (length rs)) (collected rs) s
      = Inr (collected (rs @ [r]), dr_next_cursor r, s2)"
    using assms by (simp add: discovery_page_Ok collected_def)
  then show ?thesis
    unfolding page_loop_def by (subst discovery_loop.simps) (auto simp: wants_page_def cursor_of_def add.commute split: option.splits)
qed

lemma page_loop_fails: "page_fails h manifest plan rs s e \<Longrightarrow> page_loop h manifest plan rs s = Some (Err e)"
  unfolding discovery_page_Err[symmetric, where d = "collected rs"] page_loop_def by (subst discovery_loop.simps) simp

lemma page_loop_start: "pages h manifest plan s rs s1 \<Longrightarrow> wants_page rs \<Longrightarrow> page_loop h manifest plan [] s = page_loop h manifest plan rs s1"
  by (induction rule: pages.induct) (simp_all add: page_loop_step)

text \<open>How the discovery ends from the state \<open>s\<close> on.\<close>

definition ends_with :: "'p host \<Rightarrow> project_manifest \<Rightarrow> opaque_execution_plan \<Rightarrow> 'p supervisor
    \<Rightarrow> (orchestrator_error, discovery \<times> 'p supervisor) result \<Rightarrow> bool" where
  "ends_with h manifest plan s result \<longleftrightarrow>
     (\<exists>rs s'. pages h manifest plan s rs s' \<and> \<not> wants_page rs \<and> result = Ok (collected rs, s'))
     \<or> (\<exists>rs s' e. pages h manifest plan s rs s' \<and> wants_page rs \<and> page_fails h manifest plan rs s' e \<and> result = Err e)"

lemma ends_with_loop:
  assumes "ends_with h manifest plan s result"
  shows "page_loop h manifest plan [] s = Some result"
  using assms unfolding ends_with_def
proof (elim disjE exE conjE)
  fix rs s' assume "pages h manifest plan s rs s'" "\<not> wants_page rs" "result = Ok (collected rs, s')"
  then show ?thesis
  proof cases
    case no_page
    then show ?thesis using \<open>\<not> wants_page rs\<close> by (simp add: wants_page_def)
  next
    case (next_page rs' s1 envelope r)
    then show ?thesis
      using page_loop_start[OF next_page(2,3)] page_loop_step[OF next_page(4,5,6)] \<open>\<not> wants_page rs\<close>
        \<open>result = Ok (collected rs, s')\<close> by simp
  qed
next
  fix rs s' e assume "pages h manifest plan s rs s'" "wants_page rs" "page_fails h manifest plan rs s' e" "result = Err e"
  then show ?thesis using page_loop_start page_loop_fails by metis
qed

lemma page_step_cases:
  fixes h :: "'p host"
  obtains (fails) e where "page_fails h manifest plan rs s e"
  | (sent) envelope r s2 where "ask_page h plan rs s = (Inr envelope, s2)" "env_message envelope = MsgArtifactDiscoveryResponse r"
      "list_all (descriptor_fits manifest) (dr_artifacts r)"
proof (cases "discovery_page h plan (expected_contexts manifest) (cursor_of rs) (of_nat (length rs)) (collected rs) s")
  case (Inl e)
  then show ?thesis using fails by (simp only: discovery_page_Err)
next
  case (Inr x)
  obtain d nxt s2 where "x = (d, nxt, s2)" by (cases x)
  with Inr show ?thesis using sent by (auto simp: discovery_page_Ok)
qed

lemma loop_ends_with:
  assumes "page_loop h manifest plan rs s1 = Some result" "pages h manifest plan s rs s1" "wants_page rs"
  shows "ends_with h manifest plan s result"
proof -
  have "\<forall>rs. contexts = expected_contexts manifest \<longrightarrow> cursor = cursor_of rs \<longrightarrow> page = of_nat (length rs) \<longrightarrow> d = collected rs
      \<longrightarrow> pages h manifest plan s rs s1 \<longrightarrow> wants_page rs \<longrightarrow> ends_with h manifest plan s result"
    if "discovery_loop h plan contexts cursor page d s1 = Some result" for contexts cursor page d s1 and h :: "'a host" and plan and s
    using that
  proof (rule discovery_loop.raw_induct[where P = "\<lambda>h plan contexts cursor page d s1 result. \<forall>s rs.
      contexts = expected_contexts manifest \<longrightarrow> cursor = cursor_of rs \<longrightarrow> page = of_nat (length rs) \<longrightarrow> d = collected rs
      \<longrightarrow> pages h manifest plan s rs s1 \<longrightarrow> wants_page rs \<longrightarrow> ends_with h manifest plan s result", rotated, THEN spec])
    fix loop and h :: "'a host" and plan contexts cursor page d s1 result
    assume IH: "\<And>h plan contexts cursor page d s1 result. loop h plan contexts cursor page d s1 = Some result \<Longrightarrow> \<forall>s rs.
        contexts = expected_contexts manifest \<longrightarrow> cursor = cursor_of rs \<longrightarrow> page = of_nat (length rs) \<longrightarrow> d = collected rs
        \<longrightarrow> pages (h :: 'a host) manifest plan s rs s1 \<longrightarrow> wants_page rs \<longrightarrow> ends_with h manifest plan s result"
      and body: "(case discovery_page h plan contexts cursor page d s1 of Inl e \<Rightarrow> Some (Err e)
        | Inr (d', next, s') \<Rightarrow> (case next of None \<Rightarrow> Some (Ok (d', s'))
            | Some cursor' \<Rightarrow> loop h plan contexts (Some cursor') (page + 1) d' s')) = Some result"
    show "\<forall>s rs. contexts = expected_contexts manifest \<longrightarrow> cursor = cursor_of rs \<longrightarrow> page = of_nat (length rs) \<longrightarrow> d = collected rs
      \<longrightarrow> pages h manifest plan s rs s1 \<longrightarrow> wants_page rs \<longrightarrow> ends_with h manifest plan s result"
    proof (intro allI impI)
      fix s rs
      assume at: "contexts = expected_contexts manifest" "cursor = cursor_of rs" "page = of_nat (length rs)" "d = collected rs"
        and so_far: "pages h manifest plan s rs s1" "wants_page rs"
      show "ends_with h manifest plan s result"
      proof (cases rule: page_step_cases[of h manifest plan rs s1])
        case (fails e)
        then have "result = Err e" using body at by (simp add: discovery_page_Err[symmetric, where d = "collected rs"])
        then show ?thesis using so_far fails unfolding ends_with_def by blast
      next
        case (sent envelope r s2)
        note more = pages.next_page[OF so_far sent]
        have "discovery_page h plan contexts cursor page d s1 = Inr (collected (rs @ [r]), dr_next_cursor r, s2)"
          using sent by (simp add: at discovery_page_Ok collected_def)
        then show ?thesis
        proof (cases "dr_next_cursor r")
          case None
          then have "result = Ok (collected (rs @ [r]), s2)" "\<not> wants_page (rs @ [r])"
            using body \<open>discovery_page h plan contexts cursor page d s1 = _\<close> by (simp_all add: wants_page_def)
          then show ?thesis using more unfolding ends_with_def by blast
        next
          case (Some c)
          then have "loop h plan contexts (cursor_of (rs @ [r])) (of_nat (length (rs @ [r]))) (collected (rs @ [r])) s2 = Some result"
              "wants_page (rs @ [r])"
            using body \<open>discovery_page h plan contexts cursor page d s1 = _\<close>
            by (simp_all add: wants_page_def cursor_of_def at add.commute)
          then show ?thesis using IH at(1) more by blast
        qed
      qed
    qed
  qed
  then show ?thesis using assms unfolding page_loop_def by blast
qed

lemma loop_ends_iff: "page_loop h manifest plan [] s = Some result \<longleftrightarrow> ends_with h manifest plan s result"
  using ends_with_loop loop_ends_with[OF _ pages.no_page] by (auto simp: wants_page_def)

lemma endless_pages:
  assumes "page_loop h manifest plan [] s = None"
  shows "\<exists>rs s'. length rs = n \<and> pages h manifest plan s rs s' \<and> wants_page rs"
proof (induction n)
  case 0
  show ?case using pages.no_page by (force simp: wants_page_def)
next
  case (Suc n)
  then obtain rs s1 where rs: "length rs = n" "pages h manifest plan s rs s1" "wants_page rs" by blast
  then have loop: "page_loop h manifest plan rs s1 = None" using page_loop_start assms by metis
  show ?case
  proof (cases rule: page_step_cases[of h manifest plan rs s1])
    case (fails e)
    then show ?thesis using loop page_loop_fails by (metis option.distinct(1))
  next
    case (sent envelope r s2)
    then have "wants_page (rs @ [r])" using loop by (simp add: page_loop_step split: if_splits)
    then show ?thesis
      using pages.next_page[OF rs(2,3) sent] rs(1) by (intro exI[of _ "rs @ [r]"] exI[of _ s2]) simp
  qed
qed

lemma pages_unique:
  "pages h manifest plan s rs s1 \<Longrightarrow> pages h manifest plan s rs' s1' \<Longrightarrow> length rs' = length rs \<Longrightarrow> rs' = rs \<and> s1' = s1"
proof (induction arbitrary: rs' s1' rule: pages.induct)
  case no_page
  then show ?case by (auto elim: pages.cases)
next
  case (next_page rs s1 envelope s2 r)
  from next_page.prems(1) show ?case
  proof cases
    case no_page
    then show ?thesis using next_page.prems(2) by simp
  next
    case (next_page rs2 t1 envelope2 r2)
    then show ?thesis using next_page.IH[of rs2 t1] next_page.prems next_page.hyps by auto
  qed
qed

lemma sent_not_fails:
  "ask_page h plan rs s = (Inr envelope, s') \<Longrightarrow> env_message envelope = MsgArtifactDiscoveryResponse r
     \<Longrightarrow> list_all (descriptor_fits manifest) (dr_artifacts r) \<Longrightarrow> \<not> page_fails h manifest plan rs s e"
  by (auto elim!: page_fails.cases simp: descriptor_fits_def)

lemma ended_pages:
  assumes "ends_with h manifest plan s result"
  shows "\<exists>n. \<nexists>rs s'. length rs = n \<and> pages h manifest plan s rs s'"
proof -
  from assms obtain rs s' where rs: "pages h manifest plan s rs s'"
    and ended: "\<not> wants_page rs \<or> (\<exists>e. page_fails h manifest plan rs s' e)" unfolding ends_with_def by blast
  have "\<nexists>rs' s2. length rs' = Suc (length rs) \<and> pages h manifest plan s rs' s2"
  proof
    assume "\<exists>rs' s2. length rs' = Suc (length rs) \<and> pages h manifest plan s rs' s2"
    then obtain rs' s2 where len: "length rs' = Suc (length rs)" and "pages h manifest plan s rs' s2" by blast
    from this(2) show False
    proof cases
      case no_page
      then show ?thesis using len by simp
    next
      case (next_page rs2 t1 envelope r)
      then have "rs2 = rs \<and> t1 = s'" using pages_unique[OF rs next_page(2)] len by simp
      then have "\<nexists>e. page_fails h manifest plan rs s' e" using next_page(4-6) sent_not_fails by blast
      then show ?thesis using ended \<open>rs2 = rs \<and> t1 = s'\<close> next_page(3) by blast
    qed
  qed
  then show ?thesis by blast
qed

text \<open>The handshake with the worker of the catalog.\<close>

abbreviation catalog_handshake where
  "catalog_handshake h launch \<equiv> handshake (h_adapter h) (h_worlds h ''index-dependency-catalog'') (h_core_version h)
     ''index-dependency-catalog'' (new_supervisor launch)"

lemma discover_cases:
  "discover_dependency_catalog h launch manifest plan =
     (case catalog_handshake h launch of
        (Inl e, s) \<Rightarrow> Some (Err (OrchestratorWorker e))
      | (Inr _, s) \<Rightarrow> map_option (\<lambda>r. and_then r (\<lambda>(d, s'). Ok
          \<lparr> dc_descriptors = map snd (dv_descriptors d), dc_artifact_locators = dv_locators d,
            dc_worker_starts = sv_starts s', dc_elapsed_millis = h_millis h ''dependency-catalog'' \<rparr>))
          (page_loop h manifest plan [] s))"
proof -
  have "page_loop h manifest plan [] s = discovery_loop h plan (expected_contexts manifest) None 0
      \<lparr> dv_descriptors = [], dv_locators = [] \<rparr> s" for s
    by (simp add: page_loop_def cursor_of_def collected_def)
  then show ?thesis by (simp only: discover_dependency_catalog_def Let_def)
qed

lemma discovery_loop_Ok:
  "discover_dependency_catalog h launch manifest plan = Some (Inr c) \<longleftrightarrow>
     (\<exists>response s rs s'. catalog_handshake h launch = (Inr response, s) \<and> pages h manifest plan s rs s'
        \<and> \<not> wants_page rs \<and> c = catalog_of h rs s')"
proof -
  obtain answer s where shake: "catalog_handshake h launch = (answer, s)" by force
  have "map_option (\<lambda>r. and_then r (\<lambda>(d, s'). Ok
          \<lparr> dc_descriptors = map snd (dv_descriptors d), dc_artifact_locators = dv_locators d,
            dc_worker_starts = sv_starts s', dc_elapsed_millis = h_millis h ''dependency-catalog'' \<rparr>))
          (page_loop h manifest plan [] s) = Some (Inr c) \<longleftrightarrow>
      (\<exists>d s'. page_loop h manifest plan [] s = Some (Inr (d, s'))
        \<and> c = \<lparr> dc_descriptors = map snd (dv_descriptors d), dc_artifact_locators = dv_locators d,
            dc_worker_starts = sv_starts s', dc_elapsed_millis = h_millis h ''dependency-catalog'' \<rparr>)"
    by (auto simp: and_then_eq_Ok)
  also have "\<dots> \<longleftrightarrow> (\<exists>rs s'. pages h manifest plan s rs s' \<and> \<not> wants_page rs \<and> c = catalog_of h rs s')"
    unfolding loop_ends_iff ends_with_def catalog_of_def collected_newest[symmetric] by blast
  finally show ?thesis using shake by (cases answer) (simp_all add: discover_cases)
qed

lemma discovery_loop_Err:
  "discover_dependency_catalog h launch manifest plan = Some (Inl e) \<longleftrightarrow>
     (\<exists>e' s. catalog_handshake h launch = (Inl e', s) \<and> e = OrchestratorWorker e')
     \<or> (\<exists>response s rs s'. catalog_handshake h launch = (Inr response, s) \<and> pages h manifest plan s rs s'
          \<and> wants_page rs \<and> page_fails h manifest plan rs s' e)"
proof -
  obtain answer s where shake: "catalog_handshake h launch = (answer, s)" by force
  have "map_option (\<lambda>r. and_then r (\<lambda>(d, s'). Ok
          \<lparr> dc_descriptors = map snd (dv_descriptors d), dc_artifact_locators = dv_locators d,
            dc_worker_starts = sv_starts s', dc_elapsed_millis = h_millis h ''dependency-catalog'' \<rparr>))
          (page_loop h manifest plan [] s) = Some (Inl e) \<longleftrightarrow> page_loop h manifest plan [] s = Some (Inl e)"
    by (auto simp: and_then_eq_Err)
  also have "\<dots> \<longleftrightarrow> (\<exists>rs s'. pages h manifest plan s rs s' \<and> wants_page rs \<and> page_fails h manifest plan rs s' e)"
    by (auto simp: loop_ends_iff ends_with_def)
  finally show ?thesis using shake by (cases answer) (auto simp: discover_cases)
qed

lemma discovery_loop_None:
  "discover_dependency_catalog h launch manifest plan = None \<longleftrightarrow>
     (\<exists>response s. catalog_handshake h launch = (Inr response, s) \<and> (\<forall>n. \<exists>rs s'. length rs = n \<and> pages h manifest plan s rs s'))"
proof -
  have loop: "page_loop h manifest plan [] s = None \<longleftrightarrow> (\<forall>n. \<exists>rs s'. length rs = n \<and> pages h manifest plan s rs s')" for s
    using endless_pages ended_pages loop_ends_iff by (metis not_None_eq)
  show ?thesis unfolding discover_cases by (auto simp: loop split: prod.splits sum.splits)
qed

text \<open>
  C25. How the discovery of the dependency catalog ends. It returns a catalog exactly when the worker answers the
  handshake and then, request by request with the cursor of the page before, sends pages whose descriptors all fit
  the manifest, the last of them without a next cursor; the catalog has the newest descriptor of every source
  unit and the newest locator, in the order of the ids. It returns an error exactly when the handshake fails or, after such
  pages, the next request fails, gets another message, or gets a descriptor of an unknown component or with another
  context than the component's configuration, and the error names the first of these. It does not return exactly
  when the pages go on without end: nothing bounds their number.
\<close>

theorem discovery_ends_iff:
  "(discover_dependency_catalog h launch manifest plan = Some (Ok c) \<longleftrightarrow>
      (\<exists>response s rs s'. catalog_handshake h launch = (Ok response, s) \<and> pages h manifest plan s rs s'
         \<and> \<not> wants_page rs \<and> c = catalog_of h rs s'))
   \<and> (discover_dependency_catalog h launch manifest plan = Some (Err e) \<longleftrightarrow>
      (\<exists>e' s. catalog_handshake h launch = (Err e', s) \<and> e = OrchestratorWorker e')
      \<or> (\<exists>response s rs s'. catalog_handshake h launch = (Ok response, s) \<and> pages h manifest plan s rs s'
           \<and> wants_page rs \<and> page_fails h manifest plan rs s' e))
   \<and> (discover_dependency_catalog h launch manifest plan = None \<longleftrightarrow>
      (\<exists>response s. catalog_handshake h launch = (Ok response, s)
         \<and> (\<forall>n. \<exists>rs s'. length rs = n \<and> pages h manifest plan s rs s')))"
  by (intro conjI discovery_loop_Ok discovery_loop_Err discovery_loop_None)

text \<open>
  A worker that exits after every page and always names a next cursor: its pages have no end. (The ids of one
  process may not repeat, so a process that stays up is refused when the page number wraps around.)
\<close>

definition restarting_host :: "worker_envelope host" where
  "restarting_host = sample_host\<lparr>h_worlds := (\<lambda>i. (answering_world 7 (if i = ''index-dependency-catalog'' then sample_response i
     else new_envelope i (MsgArtifactDiscoveryResponse \<lparr> dr_artifacts = [], dr_next_cursor = Some ''more'',
       dr_artifact_locators = [] \<rparr>)))\<lparr>w_exited := True\<rparr>)\<rparr>"

lemma page_request_id: "env_request_id (page_request plan rs) \<noteq> ''index-dependency-catalog''"
  by (simp add: page_request_def new_envelope_def)

lemma restarting_page:
  "\<exists>s'. ask_page restarting_host plan rs s = (Inr (new_envelope (env_request_id (page_request plan rs))
     (MsgArtifactDiscoveryResponse \<lparr> dr_artifacts = [], dr_next_cursor = Some ''more'', dr_artifact_locators = [] \<rparr>)), s')"
  using page_request_id[of plan rs] by (simp add: restarting_host_def page_request_def sample_worker_simps)

lemma restarting_worker_never_ends:
  "discover_dependency_catalog restarting_host (new_launch ''worker'') manifest plan = None"
proof -
  have "\<exists>response s. catalog_handshake restarting_host (new_launch ''worker'') = (Inr response, s)"
    by (simp add: restarting_host_def sample_worker_simps)
  moreover have "\<exists>rs s'. length rs = n \<and> pages restarting_host manifest plan s rs s' \<and> wants_page rs" for n s
  proof (induction n)
    case 0
    show ?case using pages.no_page by (force simp: wants_page_def)
  next
    case (Suc n)
    then obtain rs s1 where rs: "length rs = n" "pages restarting_host manifest plan s rs s1" "wants_page rs" by blast
    let ?r = "\<lparr> dr_artifacts = [], dr_next_cursor = Some ''more'', dr_artifact_locators = [] \<rparr>"
    obtain s2 where "ask_page restarting_host plan rs s1
        = (Inr (new_envelope (env_request_id (page_request plan rs)) (MsgArtifactDiscoveryResponse ?r)), s2)"
      using restarting_page by blast
    from pages.next_page[OF rs(2,3) this, of ?r] show ?case
      using rs(1) by (intro exI[of _ "rs @ [?r]"] exI[of _ s2]) (simp add: new_envelope_def wants_page_def)
  qed
  ultimately show ?thesis unfolding discovery_loop_None by blast
qed

lemma pages_fit: "pages h manifest plan s rs s' \<Longrightarrow> list_all (descriptor_fits manifest) (concat (map dr_artifacts rs))"
  by (induction rule: pages.induct) simp_all

lemma map_fst_newest: "map fst (newest key xs) = sort_dedup (map key xs)"
  by (simp add: newest_def comp_def)

lemma find_in: "find P xs = Some x \<Longrightarrow> x \<in> set xs \<and> P x"
  by (induction xs) (auto split: if_splits)

lemma newest_entry: "(k, x) \<in> set (newest key xs) \<Longrightarrow> x \<in> set xs \<and> key x = k"
  unfolding btree_index_newest[symmetric] by (rule btree_index_entry)

text \<open>
  A catalog that discovery returns is ready for the store: it has at most one descriptor for
  a source unit, in the order of the unit ids, and every descriptor belongs to a component of the
  resolved manifest and carries that component's configuration as its context.
\<close>

theorem discovered_catalog_matches_manifest:
  assumes "discover_dependency_catalog h launch manifest plan = Some (Ok c)"
  shows "strictly_sorted (map artifact_key (dc_descriptors c))
    \<and> (\<forall>d\<in>set (dc_descriptors c). \<exists>k\<in>set (man_components manifest).
         comp_id k = su_component (ad_source_unit d) \<and> comp_configuration k = su_context (ad_source_unit d))"
proof -
  obtain s rs s' where rs: "pages h manifest plan s rs s'" "c = catalog_of h rs s'"
    using assms unfolding discovery_loop_Ok by blast
  let ?new = "newest artifact_key (concat (map dr_artifacts rs))"
  have "map artifact_key (map snd ?new) = map fst ?new" by (auto dest: newest_entry)
  then have "strictly_sorted (map artifact_key (dc_descriptors c))"
    by (simp add: rs(2) catalog_of_def map_fst_newest)
  moreover have "\<exists>k\<in>set (man_components manifest).
      comp_id k = su_component (ad_source_unit d) \<and> comp_configuration k = su_context (ad_source_unit d)"
    if "d \<in> set (dc_descriptors c)" for d
  proof -
    have "d \<in> set (concat (map dr_artifacts rs))" using that by (auto simp: rs(2) catalog_of_def dest: newest_entry)
    then have "descriptor_fits manifest d" using pages_fit[OF rs(1)] by (auto simp: list_all_iff)
    then obtain k where "component_of manifest d = Some k" "comp_configuration k = su_context (ad_source_unit d)"
      by (auto simp: descriptor_fits_def)
    moreover from this(1) have "k \<in> set (man_components manifest) \<and> comp_id k = su_component (ad_source_unit d)"
      unfolding component_of_def by (auto dest: find_in)
    ultimately show ?thesis by blast
  qed
  ultimately show ?thesis by blast
qed

text \<open>A worker with one descriptor on its only page.\<close>

definition discovery_host :: "worker_envelope host" where
  "discovery_host = sample_host\<lparr>h_worlds := (\<lambda>i. answering_world 7 (if i = ''index-dependency-catalog'' then sample_response i
     else new_envelope i (MsgArtifactDiscoveryResponse \<lparr> dr_artifacts = [sample_descriptor ''a'' ''1''],
       dr_next_cursor = None, dr_artifact_locators = [\<lparr> al_source_unit = SourceUnitId ''a'', al_locator = ''a.jar'' \<rparr>] \<rparr>)))\<rparr>"

definition discovery_manifest :: project_manifest where
  "discovery_manifest = sample_manifest\<lparr>man_components := [\<lparr> comp_id = ComponentId ''core'', comp_name = ''core'',
     comp_build_system = Cargo, comp_root = WorkspacePath ''.'', comp_languages = [Rust],
     comp_configuration = Fingerprint ''context'', comp_source_sets = [], comp_classpath = [], comp_toolchain = None,
     comp_compiler_configuration = None \<rparr>]\<rparr>"

lemma sample_catalog_handshake:
  "\<exists>r. handshake plain_adapter (h_worlds discovery_host ''index-dependency-catalog'') ''0.1.0'' ''index-dependency-catalog''
     (new_supervisor (new_launch ''worker''))
   = (Ok r, \<lparr> sv_launch = new_launch ''worker'', sv_running = Some \<lparr> rw_request_ids = {''index-dependency-catalog''},
       rw_last_activity = 12, rw_channel = [] \<rparr>, sv_starts = 1 \<rparr>)"
  by (simp add: discovery_host_def sample_worker_simps)

lemma sample_discovery_page:
  "\<exists>s'. discovery_page discovery_host (legacy_execution_plan discovery_manifest) [(''core'', Fingerprint ''context'')] None 0
     \<lparr> dv_descriptors = [], dv_locators = [] \<rparr> \<lparr> sv_launch = new_launch ''worker'', sv_running = Some \<lparr> rw_request_ids = {''index-dependency-catalog''},
       rw_last_activity = 12, rw_channel = [] \<rparr>, sv_starts = 1 \<rparr>
   = Ok (\<lparr> dv_descriptors = [(''a'', sample_descriptor ''a'' ''1'')], dv_locators = [(''a'', ''a.jar'')] \<rparr>, None, s')
     \<and> sv_starts s' = 1"
  by (simp add: discovery_page_def discovery_host_def check_descriptor_def collect_page_def artifact_key_def
      sample_worker_simps decimal.simps)

lemma sample_discovery:
  "discover_dependency_catalog discovery_host (new_launch ''worker'') discovery_manifest (legacy_execution_plan discovery_manifest)
   = Some (Ok \<lparr> dc_descriptors = [sample_descriptor ''a'' ''1''], dc_artifact_locators = [(''a'', ''a.jar'')],
       dc_worker_starts = 1, dc_elapsed_millis = 2 \<rparr>)"
proof -
  obtain r where shake: "handshake plain_adapter (h_worlds discovery_host ''index-dependency-catalog'') ''0.1.0'' ''index-dependency-catalog''
     (new_supervisor (new_launch ''worker''))
   = (Ok r, \<lparr> sv_launch = new_launch ''worker'', sv_running = Some \<lparr> rw_request_ids = {''index-dependency-catalog''},
       rw_last_activity = 12, rw_channel = [] \<rparr>, sv_starts = 1 \<rparr>)" using sample_catalog_handshake by blast
  have contexts: "expected_contexts discovery_manifest = [(''core'', Fingerprint ''context'')]"
    by (simp add: expected_contexts_def discovery_manifest_def)
  show ?thesis
    using shake sample_discovery_page
    by (auto simp: discover_dependency_catalog_def Let_def contexts discovery_loop.simps[of _ _ _ None]
        discovery_host_def sample_host_def)
qed

theorem discovered_catalog_matches_manifest_witness:
  "\<exists>k\<in>set (man_components discovery_manifest).
     comp_id k = ComponentId ''core'' \<and> comp_configuration k = su_context (sample_unit ''a'' ''1'')"
  using discovered_catalog_matches_manifest[OF sample_discovery] by simp

section \<open>Selected batches\<close>


































end
