(* ===== verification/Worker_Proto.thy ===== *)
theory Worker_Proto
  imports Messages
begin

text \<open>
  The protobuf messages of the worker transport, as \<open>protocol/kide/worker.proto\<close> declares them: a
  record per message, with a list for a repeated field, an option for an optional field and for every
  field that is a message, and a datatype for each \<open>oneof\<close>. Fields are those of the schema, with a
  prefix per message; bytes are a \<^typ>\<open>string\<close>.
\<close>

section \<open>Handshake and semantic queries\<close>

record p_handshake_request =
  phq_core_version :: string

record p_semantic_query_parameter =
  psp_name :: string
  psp_type :: string
  psp_required :: bool

record p_semantic_query_capability =
  psc_name :: string
  psc_version :: u32
  psc_parameters :: "p_semantic_query_parameter list"
  psc_result_kind :: string

record p_handshake_response =
  phr_backend :: string
  phr_backend_version :: string
  phr_protocol_version :: u32
  phr_capabilities :: "string list"
  phr_languages :: "string list"
  phr_semantic_query_capabilities :: "p_semantic_query_capability list"

datatype p_argument_value =
  PArgSymbolId string | PArgComponentId string | PArgStringValue string | PArgIntegerValue i64

record p_semantic_query_argument =
  psa_name :: string
  psa_value :: "p_argument_value option"

record p_semantic_query_budget =
  psb_max_candidates :: u32
  psb_max_nodes :: u32
  psb_max_bytes :: u64
  psb_deadline_millis :: u64

record p_semantic_query_request =
  psq_capability_name :: string
  psq_capability_version :: u32
  psq_arguments :: "p_semantic_query_argument list"
  psq_candidate_symbol_ids :: "string list"
  psq_candidate_source_unit_ids :: "string list"
  psq_budget :: "p_semantic_query_budget option"

section \<open>The resolved project\<close>

record p_provenance =
  ppv_backend :: string
  ppv_backend_version :: string
  ppv_protocol_version :: u32
  ppv_analysis_options_fingerprint :: string

record p_project_manifest_request =
  pmq_workspace_root :: string

record p_source_set =
  pss_name :: string
  pss_source_roots :: "string list"
  pss_generated_roots :: "string list"
  pss_test :: bool

record p_toolchain =
  ptc_jvm_version :: string
  ptc_build_tool_version :: string
  ptc_kotlin_version :: "string option"

record p_component =
  pco_id :: string
  pco_name :: string
  pco_build_system :: string
  pco_root :: string
  pco_languages :: "string list"
  pco_configuration_fingerprint :: string
  pco_source_sets :: "p_source_set list"
  pco_classpath_fingerprints :: "string list"
  pco_toolchain :: "p_toolchain option"
  pco_compiler_configuration_fingerprint :: "string option"

datatype p_dependency_target = PTargetComponentId string | PTargetArtifactFingerprint string

record p_dependency_edge =
  pde_from_component_id :: string
  pde_target :: "p_dependency_target option"
  pde_scope :: string

record p_project_manifest =
  pma_workspace :: string
  pma_root :: string
  pma_components :: "p_component list"
  pma_dependencies :: "p_dependency_edge list"
  pma_fingerprint :: string
  pma_provenance :: "p_provenance option"

record p_opaque_execution_plan =
  pep_backend :: string
  pep_resolved_fingerprint :: string
  pep_payload :: string

record p_project_manifest_response =
  pmr_manifest :: "p_project_manifest option"
  pmr_execution_plan :: "p_opaque_execution_plan option"

section \<open>Snapshots\<close>

record p_source_unit =
  psu_id :: string
  psu_component :: string
  psu_path :: string
  psu_language :: string
  psu_origin :: string
  psu_content :: string
  psu_context :: string

record p_analyze_batch_request =
  pbq_workspace :: string
  pbq_project_fingerprint :: string
  pbq_requested_facts :: "string list"
  pbq_source_units :: "p_source_unit list"
  pbq_execution_plan :: "p_opaque_execution_plan option"

record p_byte_range =
  pbr_start :: u64
  pbr_end :: u64

record p_symbol_declaration =
  psd_id :: string
  psd_source_unit_index :: u32
  psd_provenance_index :: u32
  psd_backend_key :: string
  psd_backend_schema_version :: u32
  psd_language :: string
  psd_kind :: string
  psd_name :: string
  psd_qualified_name :: "string option"
  psd_signature :: "string option"
  psd_declaration :: "p_byte_range option"
  psd_name_range :: "p_byte_range option"
  psd_owner_id :: "string option"
  psd_modifiers :: "string list"
  psd_freshness :: string
  psd_completeness :: string
  psd_component_id :: string
  psd_applied_symbol_ids :: "string list"

datatype p_application_value = PAppString string | PAppBoolean bool | PAppInteger i64

record p_application_argument =
  paa_name :: "string option"
  paa_position :: u32
  paa_value :: "p_application_value option"
  paa_string_list_value :: "string list"

record p_application_fact =
  paf_id :: string
  paf_subject_symbol_id :: string
  paf_target_symbol_id :: string
  paf_range :: "p_byte_range option"
  paf_arguments :: "p_application_argument list"
  paf_precision :: string
  paf_freshness :: string
  paf_completeness :: string
  paf_provenance_index :: u32

record p_source_location =
  psl_source_unit_index :: u32
  psl_range :: "p_byte_range option"

record p_reference_edge =
  pre_source_occurrence_index :: u32
  pre_target_symbol_id :: string
  pre_precision :: string

record p_call_edge =
  pce_source_occurrence_index :: u32
  pce_target_symbol_id :: string
  pce_caller_symbol_id :: "string option"
  pce_precision :: string

record p_hierarchy_edge =
  phe_subtype_symbol_id :: string
  phe_supertype_symbol_id :: string
  phe_precision :: string
  phe_provenance_index :: u32

record p_occurrence =
  poc_location :: "p_source_location option"
  poc_kind :: string
  poc_enclosing_symbol_id :: "string option"
  poc_target_symbol_id :: "string option"
  poc_type_id :: "string option"
  poc_precision :: string
  poc_freshness :: string
  poc_completeness :: string
  poc_provenance_index :: u32

record p_type_record =
  pty_id :: string
  pty_language :: string
  pty_display :: string
  pty_backend_key :: "string option"
  pty_backend_schema_version :: u32
  pty_freshness :: string
  pty_completeness :: string
  pty_provenance_index :: u32

record p_diagnostic =
  pdi_source_unit_index :: u32
  pdi_range :: "p_byte_range option"
  pdi_severity :: string
  pdi_code :: "string option"
  pdi_message :: string
  pdi_freshness :: string
  pdi_completeness :: string
  pdi_provenance_index :: u32

record p_snapshot =
  psn_source_unit :: "p_source_unit option"
  psn_structural_fingerprint :: "string option"
  psn_public_api_fingerprint :: "string option"
  psn_provenances :: "p_provenance list"
  psn_symbols :: "p_symbol_declaration list"
  psn_occurrences :: "p_occurrence list"
  psn_references :: "p_reference_edge list"
  psn_calls :: "p_call_edge list"
  psn_hierarchy :: "p_hierarchy_edge list"
  psn_types :: "p_type_record list"
  psn_diagnostics :: "p_diagnostic list"
  psn_completeness :: string
  psn_provenance_index :: u32
  psn_applications :: "p_application_fact list"

record p_semantic_query_response =
  psr_capability_name :: string
  psr_capability_version :: u32
  psr_state :: string
  psr_candidate_symbol_ids :: "string list"
  psr_snapshots :: "p_snapshot list"
  psr_provenance :: "p_provenance option"
  psr_visited_nodes :: u32
  psr_produced_bytes :: u64

section \<open>Batches and artifacts\<close>

record p_phase_timing =
  ppt_phase :: string
  ppt_elapsed_millis :: u64

record p_worker_metric =
  pwm_name :: string
  pwm_value :: u64

record p_artifact_candidate =
  pac_locator :: string
  pac_component_id :: string
  pac_context_fingerprint :: string

record p_analysis_batch_response =
  pbs_snapshots :: "p_snapshot list"
  pbs_timings :: "p_phase_timing list"
  pbs_artifact_candidates :: "p_artifact_candidate list"
  pbs_metrics :: "p_worker_metric list"

record p_analysis_delta =
  pda_source_unit_id :: string
  pda_previous_content_fingerprint :: "string option"
  pda_snapshot :: "p_snapshot option"

record p_artifact_analysis_request =
  paq_workspace_root :: string
  paq_max_artifacts :: u32
  paq_cursor :: "string option"

record p_artifact_analysis_response =
  par_snapshots :: "p_snapshot list"
  par_next_cursor :: "string option"

record p_artifact_discovery_request =
  pdq_workspace_root :: string
  pdq_max_artifacts :: u32
  pdq_cursor :: "string option"
  pdq_execution_plan :: "p_opaque_execution_plan option"

record p_symbol_locator =
  psy_qualified_name :: string
  psy_symbol_id :: string

record p_artifact_descriptor =
  pad_source_unit_id :: string
  pad_component_id :: string
  pad_workspace_path :: string
  pad_content_fingerprint :: string
  pad_context_fingerprint :: string
  pad_backend :: string
  pad_backend_version :: string
  pad_worker_protocol_version :: u32
  pad_analysis_options_fingerprint :: string
  pad_language :: string
  pad_origin :: string
  pad_symbol_locators :: "p_symbol_locator list"
  pad_ecosystem :: string
  pad_canonical_coordinate :: "string option"
  pad_resolved_version :: "string option"

record p_artifact_locator =
  pal_source_unit_id :: string
  pal_locator :: string

record p_artifact_discovery_response =
  pdr_artifacts :: "p_artifact_descriptor list"
  pdr_next_cursor :: "string option"
  pdr_artifact_locators :: "p_artifact_locator list"

record p_materialization_request =
  pxq_workspace_root :: string
  pxq_artifact :: "p_artifact_descriptor option"
  pxq_staging_directory :: string
  pxq_blob_format_version :: u32
  pxq_artifact_locator :: "string option"

record p_materialization_response =
  pxr_staged_filename :: string
  pxr_byte_length :: u64
  pxr_sha256 :: string
  pxr_blob_format_version :: u32
  pxr_timings :: "p_phase_timing list"
  pxr_metrics :: "p_worker_metric list"

record p_error =
  per_code :: string
  per_message :: string
  per_retryable :: bool
  per_supported_protocol_version :: u32
  per_received_protocol_version :: "u32 option"

section \<open>The envelope\<close>

datatype p_message =
  PHandshakeRequest p_handshake_request
| PHandshakeResponse p_handshake_response
| PArtifactDiscoveryRequest p_artifact_discovery_request
| PArtifactDiscoveryResponse p_artifact_discovery_response
| PError p_error
| PProjectManifestRequest p_project_manifest_request
| PProjectManifestResponse p_project_manifest_response
| PAnalyzeBatchRequest p_analyze_batch_request
| PAnalysisBatchResponse p_analysis_batch_response
| PArtifactMaterializationRequest p_materialization_request
| PArtifactMaterializationResponse p_materialization_response
| PAnalysisDelta p_analysis_delta
| PArtifactAnalysisRequest p_artifact_analysis_request
| PArtifactAnalysisResponse p_artifact_analysis_response
| PSemanticQueryRequest p_semantic_query_request
| PSemanticQueryResponse p_semantic_query_response

record p_envelope =
  pen_protocol_version :: u32
  pen_request_id :: string
  pen_message :: "p_message option"

end
