(* ===== verification/Worker_Adapter.thy ===== *)
theory Worker_Adapter
  imports Worker_Proto
begin

text \<open>
  The conversion between the canonical messages and their protobuf form
  (\<open>crates/kide-core/src/worker_proto_adapter.rs\<close>): an encoder \<open>proto_x\<close> for every \<open>x\<close> of the source
  and its decoder \<open>decode_x\<close>. Decoders refuse missing fields, unknown names and invalid metadata, in the
  order of the source's \<open>?\<close> operators.
\<close>

datatype adapter_error = MissingField string | UnsupportedValue string | InvalidMetadata string

section \<open>Names\<close>

text \<open>A decoder of names: a match on the known strings, and an error that quotes any other.\<close>

definition decode_named :: "string \<Rightarrow> (string \<times> 'a) list \<Rightarrow> string \<Rightarrow> (adapter_error, 'a) result" where
  "decode_named what names s =
     (case map_of names s of Some x \<Rightarrow> Ok x | None \<Rightarrow> Err (UnsupportedValue (what @ '' '' @ s)))"

fun worker_capability_name :: "worker_capability \<Rightarrow> string" where
  "worker_capability_name CapHandshake = ''handshake''"
| "worker_capability_name CapProjectManifest = ''project_manifest''"
| "worker_capability_name CapFileAnalysisSnapshot = ''file_analysis_snapshot''"
| "worker_capability_name CapDependencyAnalysis = ''dependency_analysis''"
| "worker_capability_name CapAnalysisDelta = ''analysis_delta''"

definition decode_worker_capability :: "string \<Rightarrow> (adapter_error, worker_capability) result" where
  "decode_worker_capability = decode_named ''worker capability''
     [(''handshake'', CapHandshake), (''project_manifest'', CapProjectManifest),
      (''file_analysis_snapshot'', CapFileAnalysisSnapshot), (''dependency_analysis'', CapDependencyAnalysis),
      (''analysis_delta'', CapAnalysisDelta)]"

fun semantic_parameter_type_name :: "semantic_query_parameter_type \<Rightarrow> string" where
  "semantic_parameter_type_name PTSymbolId = ''symbol_id''"
| "semantic_parameter_type_name PTComponentId = ''component_id''"
| "semantic_parameter_type_name PTString = ''string''"
| "semantic_parameter_type_name PTInteger = ''integer''"

definition decode_semantic_parameter_type :: "string \<Rightarrow> (adapter_error, semantic_query_parameter_type) result" where
  "decode_semantic_parameter_type = decode_named ''semantic query parameter type''
     [(''symbol_id'', PTSymbolId), (''component_id'', PTComponentId), (''string'', PTString), (''integer'', PTInteger)]"

fun semantic_result_kind_name :: "semantic_query_result_kind \<Rightarrow> string" where
  "semantic_result_kind_name CandidateSymbols = ''candidate_symbols''"
| "semantic_result_kind_name NormalizedFacts = ''normalized_facts''"

definition decode_semantic_result_kind :: "string \<Rightarrow> (adapter_error, semantic_query_result_kind) result" where
  "decode_semantic_result_kind = decode_named ''semantic query result kind''
     [(''candidate_symbols'', CandidateSymbols), (''normalized_facts'', NormalizedFacts)]"

fun response_state_name :: "semantic_query_response_state \<Rightarrow> string" where
  "response_state_name RespComplete = ''complete''"
| "response_state_name RespPartial = ''partial''"
| "response_state_name RespUnsupported = ''unsupported''"

definition decode_response_state :: "string \<Rightarrow> (adapter_error, semantic_query_response_state) result" where
  "decode_response_state = decode_named ''semantic query response state''
     [(''complete'', RespComplete), (''partial'', RespPartial), (''unsupported'', RespUnsupported)]"

definition decode_language :: "string \<Rightarrow> language" where
  "decode_language s =
     (case map_of [(''kotlin'', Kotlin), (''java'', Java), (''rust'', Rust), (''typescript'', TypeScript)] s of
        Some l \<Rightarrow> l | None \<Rightarrow> OtherLanguage s)"

fun proto_language :: "language \<Rightarrow> string" where
  "proto_language Kotlin = ''kotlin''"
| "proto_language Java = ''java''"
| "proto_language Rust = ''rust''"
| "proto_language TypeScript = ''typescript''"
| "proto_language (OtherLanguage v) = v"

definition decode_build_system :: "string \<Rightarrow> build_system" where
  "decode_build_system s =
     (case map_of [(''gradle'', Gradle), (''maven'', Maven), (''cargo'', Cargo), (''npm'', Npm), (''bazel'', Bazel),
        (''filesystem'', Filesystem)] s of Some b \<Rightarrow> b | None \<Rightarrow> OtherBuild s)"

text \<open>
  \<open>format!("{:?}", x).to_lowercase()\<close>. For a variant without fields it is the lower-case name; for
  \<open>Other(v)\<close> the quoted and escaped text of \<open>v\<close> in parentheses, the argument \<open>debug_other\<close>.
\<close>

fun debug_language :: "(string \<Rightarrow> string) \<Rightarrow> language \<Rightarrow> string" where
  "debug_language debug_other (OtherLanguage v) = debug_other v"
| "debug_language debug_other l = proto_language l"

fun debug_build_system :: "(string \<Rightarrow> string) \<Rightarrow> build_system \<Rightarrow> string" where
  "debug_build_system debug_other Gradle = ''gradle''"
| "debug_build_system debug_other Maven = ''maven''"
| "debug_build_system debug_other Cargo = ''cargo''"
| "debug_build_system debug_other Npm = ''npm''"
| "debug_build_system debug_other Bazel = ''bazel''"
| "debug_build_system debug_other Filesystem = ''filesystem''"
| "debug_build_system debug_other (OtherBuild v) = debug_other v"

fun source_origin_name :: "source_origin \<Rightarrow> string" where
  "source_origin_name OriginSource = ''source''"
| "source_origin_name OriginGenerated = ''generated''"
| "source_origin_name OriginDependency = ''dependency''"

definition decode_source_origin :: "string \<Rightarrow> (adapter_error, source_origin) result" where
  "decode_source_origin = decode_named ''source origin''
     [(''source'', OriginSource), (''generated'', OriginGenerated), (''dependency'', OriginDependency)]"

fun debug_fact :: "analysis_fact \<Rightarrow> string" where
  "debug_fact FactSymbols = ''symbols''"
| "debug_fact FactOccurrences = ''occurrences''"
| "debug_fact FactReferences = ''references''"
| "debug_fact FactCalls = ''calls''"
| "debug_fact FactHierarchy = ''hierarchy''"
| "debug_fact FactTypes = ''types''"

definition decode_analysis_fact :: "string \<Rightarrow> (adapter_error, analysis_fact) result" where
  "decode_analysis_fact = decode_named ''analysis fact''
     [(''symbols'', FactSymbols), (''occurrences'', FactOccurrences), (''references'', FactReferences),
      (''calls'', FactCalls), (''hierarchy'', FactHierarchy), (''types'', FactTypes)]"

fun debug_symbol_kind :: "symbol_kind \<Rightarrow> string" where
  "debug_symbol_kind KPackage = ''package''"
| "debug_symbol_kind KModule = ''module''"
| "debug_symbol_kind KClass = ''class''"
| "debug_symbol_kind KInterface = ''interface''"
| "debug_symbol_kind KObject = ''object''"
| "debug_symbol_kind KEnum = ''enum''"
| "debug_symbol_kind KFunction = ''function''"
| "debug_symbol_kind KMethod = ''method''"
| "debug_symbol_kind KConstructor = ''constructor''"
| "debug_symbol_kind KProperty = ''property''"
| "debug_symbol_kind KField = ''field''"
| "debug_symbol_kind KParameter = ''parameter''"
| "debug_symbol_kind KTypeAlias = ''typealias''"
| "debug_symbol_kind KOther = ''other''"

definition decode_symbol_kind :: "string \<Rightarrow> (adapter_error, symbol_kind) result" where
  "decode_symbol_kind = decode_named ''symbol kind''
     [(''package'', KPackage), (''module'', KModule), (''class'', KClass), (''interface'', KInterface),
      (''object'', KObject), (''enum'', KEnum), (''function'', KFunction), (''method'', KMethod),
      (''constructor'', KConstructor), (''property'', KProperty), (''field'', KField), (''parameter'', KParameter),
      (''typealias'', KTypeAlias), (''other'', KOther)]"

fun debug_freshness :: "freshness \<Rightarrow> string" where
  "debug_freshness Fresh = ''fresh''"
| "debug_freshness Stale = ''stale''"
| "debug_freshness Unknown = ''unknown''"
| "debug_freshness Unsupported = ''unsupported''"

definition decode_freshness :: "string \<Rightarrow> (adapter_error, freshness) result" where
  "decode_freshness = decode_named ''freshness''
     [(''fresh'', Fresh), (''stale'', Stale), (''unknown'', Unknown), (''unsupported'', Unsupported)]"

fun debug_completeness :: "completeness \<Rightarrow> string" where
  "debug_completeness Complete = ''complete''"
| "debug_completeness Partial = ''partial''"
| "debug_completeness Failed = ''failed''"

definition decode_completeness :: "string \<Rightarrow> (adapter_error, completeness) result" where
  "decode_completeness = decode_named ''completeness''
     [(''complete'', Complete), (''partial'', Partial), (''failed'', Failed)]"

fun debug_precision :: "precision \<Rightarrow> string" where
  "debug_precision Exact = ''exact''"
| "debug_precision Approximate = ''approximate''"

definition decode_precision :: "string \<Rightarrow> (adapter_error, precision) result" where
  "decode_precision = decode_named ''precision'' [(''exact'', Exact), (''approximate'', Approximate)]"

text \<open>The debug form of \<open>TypeReference\<close> has no underscore; the decoder's name has one.\<close>

fun lowercase_occurrence_kind :: "occurrence_kind \<Rightarrow> string" where
  "lowercase_occurrence_kind ODeclaration = ''declaration''"
| "lowercase_occurrence_kind OReference = ''reference''"
| "lowercase_occurrence_kind OCall = ''call''"
| "lowercase_occurrence_kind OTypeReference = ''typereference''"
| "lowercase_occurrence_kind OImport = ''import''"

definition decode_occurrence_kind :: "string \<Rightarrow> (adapter_error, occurrence_kind) result" where
  "decode_occurrence_kind = decode_named ''occurrence kind''
     [(''declaration'', ODeclaration), (''reference'', OReference), (''call'', OCall),
      (''type_reference'', OTypeReference), (''import'', OImport)]"

fun lowercase_severity :: "diagnostic_severity \<Rightarrow> string" where
  "lowercase_severity SevError = ''error''"
| "lowercase_severity SevWarning = ''warning''"
| "lowercase_severity SevInformation = ''information''"
| "lowercase_severity SevHint = ''hint''"

definition decode_severity :: "string \<Rightarrow> (adapter_error, diagnostic_severity) result" where
  "decode_severity = decode_named ''diagnostic severity''
     [(''error'', SevError), (''warning'', SevWarning), (''information'', SevInformation), (''hint'', SevHint)]"

fun worker_error_code_name :: "worker_error_code \<Rightarrow> string" where
  "worker_error_code_name IncompatibleProtocolVersion = ''incompatible_protocol_version''"
| "worker_error_code_name InvalidRequest = ''invalid_request''"
| "worker_error_code_name UnsupportedCapability = ''unsupported_capability''"
| "worker_error_code_name AnalysisFailed = ''analysis_failed''"
| "worker_error_code_name Internal = ''internal''"

definition decode_worker_error_code :: "string \<Rightarrow> (adapter_error, worker_error_code) result" where
  "decode_worker_error_code = decode_named ''worker error code''
     [(''incompatible_protocol_version'', IncompatibleProtocolVersion), (''invalid_request'', InvalidRequest),
      (''unsupported_capability'', UnsupportedCapability), (''analysis_failed'', AnalysisFailed),
      (''internal'', Internal)]"

section \<open>Source units, ranges and facts\<close>

definition proto_provenance :: "provenance \<Rightarrow> p_provenance" where
  "proto_provenance v =
     \<lparr> ppv_backend = prov_backend v, ppv_backend_version = prov_backend_version v,
       ppv_protocol_version = prov_protocol_version v,
       ppv_analysis_options_fingerprint = as_str (prov_analysis_options v) \<rparr>"

definition decode_provenance :: "p_provenance \<Rightarrow> provenance" where
  "decode_provenance v =
     \<lparr> prov_backend = ppv_backend v, prov_backend_version = ppv_backend_version v,
       prov_protocol_version = ppv_protocol_version v,
       prov_analysis_options = Fingerprint (ppv_analysis_options_fingerprint v) \<rparr>"

definition proto_source_unit :: "source_unit \<Rightarrow> p_source_unit" where
  "proto_source_unit v =
     \<lparr> psu_id = as_str (su_id v), psu_component = as_str (su_component v), psu_path = as_str (su_path v),
       psu_language = proto_language (su_language v), psu_origin = source_origin_name (su_origin v),
       psu_content = as_str (su_content v), psu_context = as_str (su_context v) \<rparr>"

definition decode_source_unit :: "p_source_unit \<Rightarrow> (adapter_error, source_unit) result" where
  "decode_source_unit v =
     and_then (decode_source_origin (psu_origin v)) (\<lambda>origin.
     Ok \<lparr> su_id = SourceUnitId (psu_id v), su_component = ComponentId (psu_component v),
          su_path = WorkspacePath (psu_path v), su_language = decode_language (psu_language v), su_origin = origin,
          su_content = Fingerprint (psu_content v), su_context = Fingerprint (psu_context v) \<rparr>)"

definition proto_range :: "byte_range \<Rightarrow> p_byte_range" where
  "proto_range r = \<lparr> pbr_start = br_start r, pbr_end = br_end r \<rparr>"

definition decode_range :: "p_byte_range \<Rightarrow> byte_range" where
  "decode_range r = \<lparr> br_start = pbr_start r, br_end = pbr_end r \<rparr>"

definition range_in :: "source_unit \<Rightarrow> p_byte_range \<Rightarrow> source_range" where
  "range_in u r = \<lparr> sr_unit = su_id u, sr_bytes = decode_range r \<rparr>"

definition proto_symbol :: "symbol_record \<Rightarrow> p_symbol_declaration" where
  "proto_symbol v =
     \<lparr> psd_id = as_str (sym_id v), psd_source_unit_index = 0, psd_provenance_index = 0,
       psd_backend_key = bk_value (sym_backend_key v),
       psd_backend_schema_version = bk_schema_version (sym_backend_key v),
       psd_language = proto_language (sym_language v), psd_kind = debug_symbol_kind (sym_kind v),
       psd_name = sym_name v, psd_qualified_name = sym_qualified_name v, psd_signature = sym_signature v,
       psd_declaration = Some (proto_range (sr_bytes (sym_declaration v))),
       psd_name_range = Some (proto_range (sr_bytes (sym_name_range v))),
       psd_owner_id = map_option as_str (sym_owner v), psd_modifiers = sym_modifiers v,
       psd_freshness = debug_freshness (sym_freshness v),
       psd_completeness = debug_completeness (sym_completeness v),
       psd_component_id = as_str (sym_component v),
       psd_applied_symbol_ids = map as_str (sym_applied_symbols v) \<rparr>"

definition decode_symbol_declaration :: "source_unit \<Rightarrow> provenance \<Rightarrow> p_symbol_declaration \<Rightarrow> (adapter_error, symbol_record) result" where
  "decode_symbol_declaration u p v =
     and_then (ok_or (MissingField ''symbol.declaration'') (psd_declaration v)) (\<lambda>declaration.
     and_then (ok_or (MissingField ''symbol.name_range'') (psd_name_range v)) (\<lambda>name_range.
     and_then (decode_symbol_kind (psd_kind v)) (\<lambda>kind.
     and_then (decode_freshness (psd_freshness v)) (\<lambda>fresh.
     and_then (decode_completeness (psd_completeness v)) (\<lambda>complete.
     Ok \<lparr> sym_id = SymbolId (psd_id v),
          sym_backend_key = \<lparr> bk_backend = prov_backend p, bk_schema_version = psd_backend_schema_version v,
            bk_value = psd_backend_key v \<rparr>,
          sym_language = decode_language (psd_language v), sym_kind = kind, sym_name = psd_name v,
          sym_qualified_name = psd_qualified_name v, sym_signature = psd_signature v,
          sym_component = ComponentId (psd_component_id v), sym_declaration = range_in u declaration,
          sym_name_range = range_in u name_range, sym_owner = map_option SymbolId (psd_owner_id v),
          sym_modifiers = psd_modifiers v, sym_applied_symbols = map SymbolId (psd_applied_symbol_ids v),
          sym_freshness = fresh, sym_completeness = complete, sym_provenance = p \<rparr>)))))"

definition proto_occurrence :: "source_occurrence \<Rightarrow> p_occurrence" where
  "proto_occurrence v =
     \<lparr> poc_location = Some \<lparr> psl_source_unit_index = 0, psl_range = Some (proto_range (sr_bytes (occ_range v))) \<rparr>,
       poc_kind = lowercase_occurrence_kind (occ_kind v),
       poc_enclosing_symbol_id = map_option as_str (occ_enclosing_symbol v),
       poc_target_symbol_id = map_option as_str (occ_target v), poc_type_id = map_option as_str (occ_type_id v),
       poc_precision = debug_precision (occ_precision v), poc_freshness = debug_freshness (occ_freshness v),
       poc_completeness = debug_completeness (occ_completeness v), poc_provenance_index = 0 \<rparr>"

definition decode_occurrence :: "source_unit \<Rightarrow> provenance \<Rightarrow> p_occurrence \<Rightarrow> (adapter_error, source_occurrence) result" where
  "decode_occurrence u p v =
     and_then (ok_or (MissingField ''occurrence.location'') (poc_location v)) (\<lambda>location.
     and_then (ok_or (MissingField ''occurrence.location.range'') (psl_range location)) (\<lambda>range.
     if psl_source_unit_index location \<noteq> 0 then Err (UnsupportedValue ''cross-snapshot occurrence source'')
     else
     and_then (decode_occurrence_kind (poc_kind v)) (\<lambda>kind.
     and_then (decode_precision (poc_precision v)) (\<lambda>precise.
     and_then (decode_freshness (poc_freshness v)) (\<lambda>fresh.
     and_then (decode_completeness (poc_completeness v)) (\<lambda>complete.
     Ok \<lparr> occ_range = range_in u range, occ_kind = kind,
          occ_enclosing_symbol = map_option SymbolId (poc_enclosing_symbol_id v),
          occ_target = map_option SymbolId (poc_target_symbol_id v), occ_type_id = map_option TypeId (poc_type_id v),
          occ_precision = precise, occ_freshness = fresh, occ_completeness = complete, occ_provenance = p \<rparr>))))))"

definition proto_reference :: "reference_edge \<Rightarrow> u32 \<Rightarrow> p_reference_edge" where
  "proto_reference v i =
     \<lparr> pre_source_occurrence_index = i, pre_target_symbol_id = as_str (ref_target v),
       pre_precision = debug_precision (ref_precision v) \<rparr>"

definition occurrence_at :: "string \<Rightarrow> source_occurrence list \<Rightarrow> u32 \<Rightarrow> (adapter_error, source_occurrence) result" where
  "occurrence_at field occurrences i =
     ok_or (MissingField field) (if unat i < length occurrences then Some (occurrences ! unat i) else None)"

definition decode_reference :: "source_occurrence list \<Rightarrow> p_reference_edge \<Rightarrow> (adapter_error, reference_edge) result" where
  "decode_reference occurrences v =
     and_then (occurrence_at ''reference.source_occurrence'' occurrences (pre_source_occurrence_index v)) (\<lambda>source.
     and_then (decode_precision (pre_precision v)) (\<lambda>precise.
     Ok \<lparr> ref_source = source, ref_target = SymbolId (pre_target_symbol_id v), ref_precision = precise \<rparr>))"

definition proto_call :: "call_edge \<Rightarrow> u32 \<Rightarrow> p_call_edge" where
  "proto_call v i =
     \<lparr> pce_source_occurrence_index = i, pce_target_symbol_id = as_str (call_target v),
       pce_caller_symbol_id = map_option as_str (call_caller v), pce_precision = debug_precision (call_precision v) \<rparr>"

definition decode_call :: "source_occurrence list \<Rightarrow> p_call_edge \<Rightarrow> (adapter_error, call_edge) result" where
  "decode_call occurrences v =
     and_then (occurrence_at ''call.source_occurrence'' occurrences (pce_source_occurrence_index v)) (\<lambda>source.
     and_then (decode_precision (pce_precision v)) (\<lambda>precise.
     Ok \<lparr> call_source = source, call_target = SymbolId (pce_target_symbol_id v),
          call_caller = map_option SymbolId (pce_caller_symbol_id v), call_precision = precise \<rparr>))"

definition proto_hierarchy :: "hierarchy_edge \<Rightarrow> p_hierarchy_edge" where
  "proto_hierarchy v =
     \<lparr> phe_subtype_symbol_id = as_str (hier_subtype v), phe_supertype_symbol_id = as_str (hier_supertype v),
       phe_precision = debug_precision (hier_precision v), phe_provenance_index = 0 \<rparr>"

definition decode_hierarchy :: "provenance \<Rightarrow> p_hierarchy_edge \<Rightarrow> (adapter_error, hierarchy_edge) result" where
  "decode_hierarchy p v =
     and_then (decode_precision (phe_precision v)) (\<lambda>precise.
     Ok \<lparr> hier_subtype = SymbolId (phe_subtype_symbol_id v), hier_supertype = SymbolId (phe_supertype_symbol_id v),
          hier_precision = precise, hier_provenance = p \<rparr>)"

definition proto_diagnostic :: "diagnostic_record \<Rightarrow> p_diagnostic" where
  "proto_diagnostic v =
     \<lparr> pdi_source_unit_index = 0, pdi_range = map_option proto_range (diag_range v),
       pdi_severity = lowercase_severity (diag_severity v), pdi_code = diag_code v, pdi_message = diag_message v,
       pdi_freshness = debug_freshness (diag_freshness v), pdi_completeness = debug_completeness (diag_completeness v),
       pdi_provenance_index = 0 \<rparr>"

definition decode_diagnostic :: "source_unit \<Rightarrow> provenance \<Rightarrow> p_diagnostic \<Rightarrow> (adapter_error, diagnostic_record) result" where
  "decode_diagnostic u p v =
     (if pdi_source_unit_index v \<noteq> 0 then Err (UnsupportedValue ''cross-snapshot diagnostic source'')
      else
      and_then (decode_severity (pdi_severity v)) (\<lambda>severe.
      and_then (decode_freshness (pdi_freshness v)) (\<lambda>fresh.
      and_then (decode_completeness (pdi_completeness v)) (\<lambda>complete.
      Ok \<lparr> diag_source_unit = su_id u, diag_range = map_option decode_range (pdi_range v), diag_severity = severe,
           diag_code = pdi_code v, diag_message = pdi_message v, diag_freshness = fresh,
           diag_completeness = complete, diag_provenance = p \<rparr>))))"

definition proto_type :: "type_record \<Rightarrow> p_type_record" where
  "proto_type v =
     \<lparr> pty_id = as_str (ty_id v), pty_language = proto_language (ty_language v), pty_display = ty_display v,
       pty_backend_key = map_option bk_value (ty_backend_key v),
       pty_backend_schema_version = (case ty_backend_key v of None \<Rightarrow> 0 | Some k \<Rightarrow> bk_schema_version k),
       pty_freshness = debug_freshness (ty_freshness v), pty_completeness = debug_completeness (ty_completeness v),
       pty_provenance_index = 0 \<rparr>"

definition decode_type :: "provenance \<Rightarrow> p_type_record \<Rightarrow> (adapter_error, type_record) result" where
  "decode_type p v =
     and_then (decode_freshness (pty_freshness v)) (\<lambda>fresh.
     and_then (decode_completeness (pty_completeness v)) (\<lambda>complete.
     Ok \<lparr> ty_id = TypeId (pty_id v), ty_language = decode_language (pty_language v), ty_display = pty_display v,
          ty_backend_key = map_option (\<lambda>k. \<lparr> bk_backend = prov_backend p,
            bk_schema_version = pty_backend_schema_version v, bk_value = k \<rparr>) (pty_backend_key v),
          ty_freshness = fresh, ty_completeness = complete, ty_provenance = p \<rparr>))"

text \<open>A list of strings travels in its own repeated field, behind an empty string value.\<close>

definition proto_argument :: "application_argument \<Rightarrow> p_application_argument" where
  "proto_argument v =
     \<lparr> paa_name = arg_name v, paa_position = arg_position v,
       paa_value = Some (case arg_value v of AVString s \<Rightarrow> PAppString s | AVStringList _ \<Rightarrow> PAppString []
         | AVBoolean b \<Rightarrow> PAppBoolean b | AVInteger i \<Rightarrow> PAppInteger i),
       paa_string_list_value = (case arg_value v of AVStringList ss \<Rightarrow> ss | _ \<Rightarrow> []) \<rparr>"

definition decode_argument :: "p_application_argument \<Rightarrow> (adapter_error, application_argument) result" where
  "decode_argument v =
     and_then
       (if paa_string_list_value v \<noteq> [] then Ok (AVStringList (paa_string_list_value v))
        else and_then (ok_or (MissingField ''application.argument.value'') (paa_value v)) (\<lambda>value.
          Ok (case value of PAppString s \<Rightarrow> AVString s | PAppBoolean b \<Rightarrow> AVBoolean b | PAppInteger i \<Rightarrow> AVInteger i)))
       (\<lambda>value. Ok \<lparr> arg_name = paa_name v, arg_position = paa_position v, arg_value = value \<rparr>)"

definition proto_application :: "application_fact \<Rightarrow> p_application_fact" where
  "proto_application v =
     \<lparr> paf_id = as_str (app_id v), paf_subject_symbol_id = as_str (app_subject v),
       paf_target_symbol_id = as_str (app_target v), paf_range = Some (proto_range (sr_bytes (app_range v))),
       paf_arguments = map proto_argument (app_arguments v), paf_precision = debug_precision (app_precision v),
       paf_freshness = debug_freshness (app_freshness v), paf_completeness = debug_completeness (app_completeness v),
       paf_provenance_index = 0 \<rparr>"

definition decode_application :: "source_unit \<Rightarrow> provenance \<Rightarrow> p_application_fact \<Rightarrow> (adapter_error, application_fact) result" where
  "decode_application u p v =
     and_then (ok_or (MissingField ''application.range'') (paf_range v)) (\<lambda>range.
     and_then (collect_results decode_argument (paf_arguments v)) (\<lambda>arguments.
     and_then (decode_precision (paf_precision v)) (\<lambda>precise.
     and_then (decode_freshness (paf_freshness v)) (\<lambda>fresh.
     and_then (decode_completeness (paf_completeness v)) (\<lambda>complete.
     Ok \<lparr> app_id = ApplicationId (paf_id v), app_subject = SymbolId (paf_subject_symbol_id v),
          app_target = SymbolId (paf_target_symbol_id v), app_range = range_in u range, app_arguments = arguments,
          app_precision = precise, app_freshness = fresh, app_completeness = complete, app_provenance = p \<rparr>)))))"

section \<open>Snapshots\<close>

text \<open>\<open>values.iter().position(p)\<close>.\<close>

fun position :: "('a \<Rightarrow> bool) \<Rightarrow> 'a list \<Rightarrow> nat option" where
  "position p [] = None"
| "position p (x # xs) = (if p x then Some 0 else map_option Suc (position p xs))"

definition indexed_provenance :: "provenance list \<Rightarrow> u32 \<Rightarrow> string \<Rightarrow> (adapter_error, provenance) result" where
  "indexed_provenance values i field =
     ok_or (MissingField field) (if unat i < length values then Some (values ! unat i) else None)"

text \<open>The index of a provenance in the table of the snapshot, and the table with it.\<close>

definition provenance_index :: "provenance list \<Rightarrow> provenance \<Rightarrow> u32 \<times> provenance list" where
  "provenance_index values v =
     (case position (\<lambda>candidate. candidate = v) values of
        Some i \<Rightarrow> (of_nat i, values)
      | None \<Rightarrow> (of_nat (length values), values @ [v]))"

text \<open>The loop \<open>for (proto, canonical) in facts.iter_mut().zip(..)\<close>: the indexes it assigns.\<close>

fun provenance_indexes :: "provenance list \<Rightarrow> provenance list \<Rightarrow> u32 list \<times> provenance list" where
  "provenance_indexes values [] = ([], values)"
| "provenance_indexes values (v # vs) =
     (let (i, values) = provenance_index values v; (is, values) = provenance_indexes values vs in (i # is, values))"

definition occurrence_index :: "source_occurrence list \<Rightarrow> source_occurrence \<Rightarrow> (adapter_error, u32) result" where
  "occurrence_index occurrences o' =
     ok_or (MissingField ''relation.source_occurrence'') (map_option of_nat (position (\<lambda>c. c = o') occurrences))"

text \<open>The message of a snapshot, from its provenance table, its relations and the indexes of its facts.\<close>

definition assemble_snapshot :: "file_analysis_snapshot \<Rightarrow> provenance list \<Rightarrow> p_reference_edge list \<Rightarrow> p_call_edge list
    \<Rightarrow> u32 list \<Rightarrow> u32 list \<Rightarrow> u32 list \<Rightarrow> u32 list \<Rightarrow> u32 list \<Rightarrow> u32 list \<Rightarrow> p_snapshot" where
  "assemble_snapshot v table references calls symbol_indexes application_indexes occurrence_indexes
       hierarchy_indexes type_indexes diagnostic_indexes =
     \<lparr> psn_source_unit = Some (proto_source_unit (snap_source_unit v)),
       psn_structural_fingerprint = map_option as_str (snap_structural_fingerprint v),
       psn_public_api_fingerprint = map_option as_str (snap_public_api_fingerprint v),
       psn_provenances = map proto_provenance table,
       psn_symbols = map2 (\<lambda>x i. (proto_symbol x)\<lparr>psd_provenance_index := i\<rparr>) (snap_symbols v) symbol_indexes,
       psn_occurrences = map2 (\<lambda>x i. (proto_occurrence x)\<lparr>poc_provenance_index := i\<rparr>) (snap_occurrences v)
         occurrence_indexes,
       psn_references = references, psn_calls = calls,
       psn_hierarchy = map2 (\<lambda>x i. (proto_hierarchy x)\<lparr>phe_provenance_index := i\<rparr>) (snap_hierarchy v)
         hierarchy_indexes,
       psn_types = map2 (\<lambda>x i. (proto_type x)\<lparr>pty_provenance_index := i\<rparr>) (snap_types v) type_indexes,
       psn_diagnostics = map2 (\<lambda>x i. (proto_diagnostic x)\<lparr>pdi_provenance_index := i\<rparr>) (snap_diagnostics v)
         diagnostic_indexes,
       psn_completeness = debug_completeness (snap_completeness v), psn_provenance_index = 0,
       psn_applications = map2 (\<lambda>x i. (proto_application x)\<lparr>paf_provenance_index := i\<rparr>) (snap_applications v)
         application_indexes \<rparr>"

definition proto_snapshot :: "file_analysis_snapshot \<Rightarrow> (adapter_error, p_snapshot) result" where
  "proto_snapshot v =
     (let (symbol_indexes, table) = provenance_indexes [snap_provenance v] (map sym_provenance (snap_symbols v));
          (application_indexes, table) = provenance_indexes table (map app_provenance (snap_applications v));
          (occurrence_indexes, table) = provenance_indexes table (map occ_provenance (snap_occurrences v))
      in and_then (collect_results (\<lambda>e. and_then (occurrence_index (snap_occurrences v) (ref_source e)) (\<lambda>i.
           Ok (proto_reference e i))) (snap_references v)) (\<lambda>references.
         and_then (collect_results (\<lambda>e. and_then (occurrence_index (snap_occurrences v) (call_source e)) (\<lambda>i.
           Ok (proto_call e i))) (snap_calls v)) (\<lambda>calls.
      let (hierarchy_indexes, table) = provenance_indexes table (map hier_provenance (snap_hierarchy v));
          (type_indexes, table) = provenance_indexes table (map ty_provenance (snap_types v));
          (diagnostic_indexes, table) = provenance_indexes table (map diag_provenance (snap_diagnostics v))
      in Ok (assemble_snapshot v table references calls symbol_indexes application_indexes occurrence_indexes
           hierarchy_indexes type_indexes diagnostic_indexes))))"

text \<open>The decoder of one kind of fact: its provenance by index, then the fact.\<close>

definition with_provenance :: "provenance list \<Rightarrow> string \<Rightarrow> ('p \<Rightarrow> u32) \<Rightarrow> (provenance \<Rightarrow> 'p \<Rightarrow> (adapter_error, 'a) result)
    \<Rightarrow> 'p \<Rightarrow> (adapter_error, 'a) result" where
  "with_provenance table field index decode v =
     and_then (indexed_provenance table (index v) field) (\<lambda>p. decode p v)"

definition decode_snapshot :: "p_snapshot \<Rightarrow> (adapter_error, file_analysis_snapshot) result" where
  "decode_snapshot v =
     and_then (ok_or (MissingField ''snapshot.source_unit'') (psn_source_unit v)) (\<lambda>unit.
     and_then (decode_source_unit unit) (\<lambda>u.
     let table = map decode_provenance (psn_provenances v)
     in and_then (indexed_provenance table (psn_provenance_index v) ''snapshot.provenance_index'') (\<lambda>p.
     and_then (collect_results (with_provenance table ''symbol.provenance_index'' psd_provenance_index (decode_symbol_declaration u))
       (psn_symbols v)) (\<lambda>symbols.
     and_then (collect_results (with_provenance table ''application.provenance_index'' paf_provenance_index
       (decode_application u)) (psn_applications v)) (\<lambda>applications.
     and_then (collect_results (with_provenance table ''occurrence.provenance_index'' poc_provenance_index
       (decode_occurrence u)) (psn_occurrences v)) (\<lambda>occurrences.
     and_then (collect_results (decode_reference occurrences) (psn_references v)) (\<lambda>references.
     and_then (collect_results (decode_call occurrences) (psn_calls v)) (\<lambda>calls.
     and_then (collect_results (with_provenance table ''hierarchy.provenance_index'' phe_provenance_index
       decode_hierarchy) (psn_hierarchy v)) (\<lambda>hierarchy.
     and_then (collect_results (with_provenance table ''type.provenance_index'' pty_provenance_index decode_type)
       (psn_types v)) (\<lambda>types.
     and_then (collect_results (with_provenance table ''diagnostic.provenance_index'' pdi_provenance_index
       (decode_diagnostic u)) (psn_diagnostics v)) (\<lambda>diagnostics.
     and_then (decode_completeness (psn_completeness v)) (\<lambda>complete.
     Ok \<lparr> snap_source_unit = u, snap_structural_fingerprint = map_option Fingerprint (psn_structural_fingerprint v),
          snap_public_api_fingerprint = map_option Fingerprint (psn_public_api_fingerprint v), snap_symbols = symbols,
          snap_applications = applications, snap_occurrences = occurrences, snap_references = references,
          snap_calls = calls, snap_hierarchy = hierarchy, snap_types = types, snap_diagnostics = diagnostics,
          snap_completeness = complete, snap_provenance = p \<rparr>))))))))))))"

end
