(* ===== verification/Worker_Envelope.thy ===== *)
theory Worker_Envelope
  imports Worker_Adapter
begin

text \<open>
  The second half of \<open>worker_proto_adapter.rs\<close>: requests, responses and the envelope, the only place
  that dispatches on the type of a message.
\<close>

section \<open>Handshake and semantic queries\<close>

definition proto_capability :: "semantic_query_capability \<Rightarrow> p_semantic_query_capability" where
  "proto_capability v =
     \<lparr> psc_name = sqc_name v, psc_version = sqc_version v,
       psc_parameters = map (\<lambda>p. \<lparr> psp_name = sqp_name p, psp_type = semantic_parameter_type_name (sqp_ty p),
         psp_required = sqp_required p \<rparr>) (sqc_parameters v),
       psc_result_kind = semantic_result_kind_name (sqc_result v) \<rparr>"

definition decode_capability :: "p_semantic_query_capability \<Rightarrow> (adapter_error, semantic_query_capability) result" where
  "decode_capability v =
     (if psc_name v = [] \<or> psc_version v = 0 then Err (InvalidMetadata ''semantic_query_capability'')
      else
      and_then (collect_results (\<lambda>p. and_then (decode_semantic_parameter_type (psp_type p)) (\<lambda>ty.
        Ok \<lparr> sqp_name = psp_name p, sqp_ty = ty, sqp_required = psp_required p \<rparr>)) (psc_parameters v)) (\<lambda>parameters.
      and_then (decode_semantic_result_kind (psc_result_kind v)) (\<lambda>kind.
      Ok \<lparr> sqc_name = psc_name v, sqc_version = psc_version v, sqc_parameters = parameters, sqc_result = kind \<rparr>)))"

definition proto_query_argument :: "semantic_query_argument \<Rightarrow> p_semantic_query_argument" where
  "proto_query_argument v =
     \<lparr> psa_name = sqa_name v, psa_value = Some (case sqa_value v of ArgSymbolId i \<Rightarrow> PArgSymbolId (as_str i)
         | ArgComponentId i \<Rightarrow> PArgComponentId (as_str i) | ArgString s \<Rightarrow> PArgStringValue s
         | ArgInteger n \<Rightarrow> PArgIntegerValue n) \<rparr>"

definition decode_query_argument :: "p_semantic_query_argument \<Rightarrow> (adapter_error, semantic_query_argument) result" where
  "decode_query_argument v =
     and_then (ok_or (MissingField ''semantic_query_argument.value'') (psa_value v)) (\<lambda>value.
     Ok \<lparr> sqa_name = psa_name v, sqa_value = (case value of PArgSymbolId s \<Rightarrow> ArgSymbolId (SymbolId s)
         | PArgComponentId s \<Rightarrow> ArgComponentId (ComponentId s) | PArgStringValue s \<Rightarrow> ArgString s
         | PArgIntegerValue n \<Rightarrow> ArgInteger n) \<rparr>)"

definition proto_budget :: "semantic_query_budget \<Rightarrow> p_semantic_query_budget" where
  "proto_budget v =
     \<lparr> psb_max_candidates = sqb_max_candidates v, psb_max_nodes = sqb_max_nodes v,
       psb_max_bytes = sqb_max_bytes v, psb_deadline_millis = sqb_deadline_millis v \<rparr>"

definition decode_budget :: "p_semantic_query_budget \<Rightarrow> semantic_query_budget" where
  "decode_budget v =
     \<lparr> sqb_max_candidates = psb_max_candidates v, sqb_max_nodes = psb_max_nodes v,
       sqb_max_bytes = psb_max_bytes v, sqb_deadline_millis = psb_deadline_millis v \<rparr>"

definition proto_query_request :: "semantic_query_request \<Rightarrow> p_semantic_query_request" where
  "proto_query_request v =
     \<lparr> psq_capability_name = sqr_capability_name v, psq_capability_version = sqr_capability_version v,
       psq_arguments = map proto_query_argument (sqr_arguments v),
       psq_candidate_symbol_ids = map as_str (sqr_candidate_symbols v),
       psq_candidate_source_unit_ids = map as_str (sqr_candidate_source_units v),
       psq_budget = Some (proto_budget (sqr_budget v)) \<rparr>"

definition decode_query_request :: "p_semantic_query_request \<Rightarrow> (adapter_error, semantic_query_request) result" where
  "decode_query_request v =
     and_then (collect_results decode_query_argument (psq_arguments v)) (\<lambda>arguments.
     and_then (ok_or (MissingField ''semantic_query_request.budget'') (psq_budget v)) (\<lambda>budget.
     Ok \<lparr> sqr_capability_name = psq_capability_name v, sqr_capability_version = psq_capability_version v,
          sqr_arguments = arguments, sqr_candidate_symbols = map SymbolId (psq_candidate_symbol_ids v),
          sqr_candidate_source_units = map SourceUnitId (psq_candidate_source_unit_ids v),
          sqr_budget = decode_budget budget \<rparr>))"

definition proto_query_response :: "semantic_query_response \<Rightarrow> (adapter_error, p_semantic_query_response) result" where
  "proto_query_response v =
     and_then (collect_results proto_snapshot (resp_snapshots v)) (\<lambda>snapshots.
     Ok \<lparr> psr_capability_name = resp_capability_name v, psr_capability_version = resp_capability_version v,
          psr_state = response_state_name (resp_state v),
          psr_candidate_symbol_ids = map as_str (resp_candidate_symbols v), psr_snapshots = snapshots,
          psr_provenance = Some (proto_provenance (resp_provenance v)), psr_visited_nodes = resp_visited_nodes v,
          psr_produced_bytes = resp_produced_bytes v \<rparr>)"

definition decode_query_response :: "p_semantic_query_response \<Rightarrow> (adapter_error, semantic_query_response) result" where
  "decode_query_response v =
     and_then (decode_response_state (psr_state v)) (\<lambda>state.
     and_then (collect_results decode_snapshot (psr_snapshots v)) (\<lambda>snapshots.
     and_then (ok_or (MissingField ''semantic_query_response.provenance'') (psr_provenance v)) (\<lambda>p.
     Ok \<lparr> resp_capability_name = psr_capability_name v, resp_capability_version = psr_capability_version v,
          resp_state = state, resp_candidate_symbols = map SymbolId (psr_candidate_symbol_ids v),
          resp_snapshots = snapshots, resp_provenance = decode_provenance p,
          resp_visited_nodes = psr_visited_nodes v, resp_produced_bytes = psr_produced_bytes v \<rparr>)))"

definition proto_handshake_response :: "handshake_response \<Rightarrow> p_handshake_response" where
  "proto_handshake_response v =
     (let c = hr_capabilities v
      in \<lparr> phr_backend = wi_backend (wc_identity c), phr_backend_version = wi_backend_version (wc_identity c),
           phr_protocol_version = wc_protocol_version c,
           phr_capabilities = map worker_capability_name (wc_capabilities c),
           phr_languages = map proto_language (wc_languages c),
           phr_semantic_query_capabilities = map proto_capability (wc_semantic_query_capabilities c) \<rparr>)"

definition decode_handshake_response :: "p_handshake_response \<Rightarrow> (adapter_error, handshake_response) result" where
  "decode_handshake_response v =
     and_then (collect_results decode_worker_capability (phr_capabilities v)) (\<lambda>capabilities.
     and_then (collect_results decode_capability (phr_semantic_query_capabilities v)) (\<lambda>queries.
     Ok \<lparr> hr_capabilities =
       \<lparr> wc_identity = \<lparr> wi_backend = phr_backend v, wi_backend_version = phr_backend_version v \<rparr>,
         wc_protocol_version = phr_protocol_version v, wc_languages = map decode_language (phr_languages v),
         wc_capabilities = capabilities, wc_semantic_query_capabilities = queries \<rparr> \<rparr>))"

section \<open>The resolved project\<close>

definition proto_plan :: "opaque_execution_plan \<Rightarrow> p_opaque_execution_plan" where
  "proto_plan v =
     \<lparr> pep_backend = ep_backend v, pep_resolved_fingerprint = as_str (ep_resolved_fingerprint v),
       pep_payload = ep_payload v \<rparr>"

definition decode_plan :: "p_opaque_execution_plan \<Rightarrow> (adapter_error, opaque_execution_plan) result" where
  "decode_plan v =
     (if pep_backend v = [] \<or> pep_resolved_fingerprint v = [] then Err (InvalidMetadata ''opaque execution plan'')
      else Ok \<lparr> ep_backend = pep_backend v, ep_resolved_fingerprint = Fingerprint (pep_resolved_fingerprint v),
             ep_payload = pep_payload v \<rparr>)"

definition proto_source_set :: "source_set \<Rightarrow> p_source_set" where
  "proto_source_set s =
     \<lparr> pss_name = ss_name s, pss_source_roots = map as_str (ss_source_roots s),
       pss_generated_roots = map as_str (ss_generated_roots s), pss_test = ss_test s \<rparr>"

definition decode_source_set :: "p_source_set \<Rightarrow> source_set" where
  "decode_source_set s =
     \<lparr> ss_name = pss_name s, ss_source_roots = map WorkspacePath (pss_source_roots s),
       ss_generated_roots = map WorkspacePath (pss_generated_roots s), ss_test = pss_test s \<rparr>"

definition proto_toolchain :: "toolchain \<Rightarrow> p_toolchain" where
  "proto_toolchain t =
     \<lparr> ptc_jvm_version = tc_jvm_version t, ptc_build_tool_version = tc_build_tool_version t,
       ptc_kotlin_version = tc_kotlin_version t \<rparr>"

definition decode_toolchain :: "p_toolchain \<Rightarrow> toolchain" where
  "decode_toolchain t =
     \<lparr> tc_jvm_version = ptc_jvm_version t, tc_build_tool_version = ptc_build_tool_version t,
       tc_kotlin_version = ptc_kotlin_version t \<rparr>"

definition proto_component :: "(string \<Rightarrow> string) \<Rightarrow> component \<Rightarrow> p_component" where
  "proto_component debug_other c =
     \<lparr> pco_id = as_str (comp_id c), pco_name = comp_name c,
       pco_build_system = debug_build_system debug_other (comp_build_system c), pco_root = as_str (comp_root c),
       pco_languages = map (debug_language debug_other) (comp_languages c),
       pco_configuration_fingerprint = as_str (comp_configuration c),
       pco_source_sets = map proto_source_set (comp_source_sets c),
       pco_classpath_fingerprints = map as_str (comp_classpath c),
       pco_toolchain = map_option proto_toolchain (comp_toolchain c),
       pco_compiler_configuration_fingerprint = map_option as_str (comp_compiler_configuration c) \<rparr>"

definition decode_component :: "p_component \<Rightarrow> component" where
  "decode_component c =
     \<lparr> comp_id = ComponentId (pco_id c), comp_name = pco_name c,
       comp_build_system = decode_build_system (pco_build_system c), comp_root = WorkspacePath (pco_root c),
       comp_languages = map decode_language (pco_languages c),
       comp_configuration = Fingerprint (pco_configuration_fingerprint c),
       comp_source_sets = map decode_source_set (pco_source_sets c),
       comp_classpath = map Fingerprint (pco_classpath_fingerprints c),
       comp_toolchain = map_option decode_toolchain (pco_toolchain c),
       comp_compiler_configuration = map_option Fingerprint (pco_compiler_configuration_fingerprint c) \<rparr>"

definition proto_dependency :: "dependency_edge \<Rightarrow> p_dependency_edge" where
  "proto_dependency e =
     \<lparr> pde_from_component_id = as_str (dep_from e),
       pde_target = Some (case dep_target e of TargetComponent c \<Rightarrow> PTargetComponentId (as_str c)
         | TargetArtifact f \<Rightarrow> PTargetArtifactFingerprint (as_str f)),
       pde_scope = dep_scope e \<rparr>"

definition decode_dependency :: "p_dependency_edge \<Rightarrow> (adapter_error, dependency_edge) result" where
  "decode_dependency e =
     and_then (ok_or (MissingField ''dependency.target'') (pde_target e)) (\<lambda>target.
     Ok \<lparr> dep_from = ComponentId (pde_from_component_id e),
          dep_target = (case target of PTargetComponentId c \<Rightarrow> TargetComponent (ComponentId c)
            | PTargetArtifactFingerprint f \<Rightarrow> TargetArtifact (Fingerprint f)),
          dep_scope = pde_scope e \<rparr>)"

definition proto_manifest :: "(string \<Rightarrow> string) \<Rightarrow> project_manifest \<Rightarrow> p_project_manifest" where
  "proto_manifest debug_other m =
     \<lparr> pma_workspace = as_str (man_workspace m), pma_root = as_str (man_root m),
       pma_components = map (proto_component debug_other) (man_components m),
       pma_dependencies = map proto_dependency (man_dependencies m), pma_fingerprint = as_str (man_fingerprint m),
       pma_provenance = Some (proto_provenance (man_provenance m)) \<rparr>"

definition decode_manifest :: "p_project_manifest \<Rightarrow> (adapter_error, project_manifest) result" where
  "decode_manifest m =
     and_then (ok_or (MissingField ''manifest.provenance'') (pma_provenance m)) (\<lambda>p.
     and_then (collect_results decode_dependency (pma_dependencies m)) (\<lambda>dependencies.
     Ok \<lparr> man_workspace = WorkspaceId (pma_workspace m), man_root = WorkspacePath (pma_root m),
          man_components = map decode_component (pma_components m), man_dependencies = dependencies,
          man_fingerprint = Fingerprint (pma_fingerprint m), man_provenance = decode_provenance p \<rparr>))"

definition proto_manifest_response :: "(string \<Rightarrow> string) \<Rightarrow> project_manifest_response \<Rightarrow> p_project_manifest_response" where
  "proto_manifest_response debug_other r =
     \<lparr> pmr_manifest = Some (proto_manifest debug_other (mr_manifest r)),
       pmr_execution_plan = Some (proto_plan (mr_execution_plan r)) \<rparr>"

definition decode_manifest_response :: "p_project_manifest_response \<Rightarrow> (adapter_error, project_manifest_response) result" where
  "decode_manifest_response r =
     and_then (ok_or (MissingField ''project_manifest_response.manifest'') (pmr_manifest r)) (\<lambda>m.
     and_then (decode_manifest m) (\<lambda>manifest.
     and_then (ok_or (MissingField ''project_manifest_response.execution_plan'') (pmr_execution_plan r)) (\<lambda>p.
     and_then (decode_plan p) (\<lambda>plan.
     Ok \<lparr> mr_manifest = manifest, mr_execution_plan = plan \<rparr>))))"

definition proto_batch_request :: "analyze_batch_request \<Rightarrow> p_analyze_batch_request" where
  "proto_batch_request v =
     \<lparr> pbq_workspace = as_str (bq_workspace v), pbq_project_fingerprint = as_str (bq_project_fingerprint v),
       pbq_requested_facts = map debug_fact (bq_requested_facts v),
       pbq_source_units = map proto_source_unit (bq_source_units v),
       pbq_execution_plan = Some (proto_plan (bq_execution_plan v)) \<rparr>"

definition decode_batch_request :: "p_analyze_batch_request \<Rightarrow> (adapter_error, analyze_batch_request) result" where
  "decode_batch_request v =
     and_then (collect_results decode_analysis_fact (pbq_requested_facts v)) (\<lambda>facts.
     and_then (collect_results decode_source_unit (pbq_source_units v)) (\<lambda>units.
     and_then (ok_or (MissingField ''analyze_batch_request.execution_plan'') (pbq_execution_plan v)) (\<lambda>p.
     and_then (decode_plan p) (\<lambda>plan.
     Ok \<lparr> bq_workspace = WorkspaceId (pbq_workspace v), bq_project_fingerprint = Fingerprint (pbq_project_fingerprint v),
          bq_requested_facts = facts, bq_source_units = units, bq_execution_plan = plan \<rparr>))))"


section \<open>Batches and deltas\<close>

definition proto_timing :: "phase_timing \<Rightarrow> p_phase_timing" where
  "proto_timing t = \<lparr> ppt_phase = pt_phase t, ppt_elapsed_millis = pt_elapsed_millis t \<rparr>"

definition decode_timing :: "p_phase_timing \<Rightarrow> phase_timing" where
  "decode_timing t = \<lparr> pt_phase = ppt_phase t, pt_elapsed_millis = ppt_elapsed_millis t \<rparr>"

definition proto_metric :: "worker_metric \<Rightarrow> p_worker_metric" where
  "proto_metric m = \<lparr> pwm_name = wm_name m, pwm_value = wm_value m \<rparr>"

definition decode_metric :: "p_worker_metric \<Rightarrow> worker_metric" where
  "decode_metric m = \<lparr> wm_name = pwm_name m, wm_value = pwm_value m \<rparr>"

definition proto_candidate :: "artifact_candidate \<Rightarrow> p_artifact_candidate" where
  "proto_candidate v =
     \<lparr> pac_locator = ac_locator v, pac_component_id = as_str (ac_component v),
       pac_context_fingerprint = as_str (ac_context v) \<rparr>"

definition decode_candidate :: "p_artifact_candidate \<Rightarrow> (adapter_error, artifact_candidate) result" where
  "decode_candidate v =
     (if pac_locator v = [] \<or> pac_component_id v = [] \<or> pac_context_fingerprint v = []
      then Err (InvalidMetadata ''artifact candidate'')
      else Ok \<lparr> ac_locator = pac_locator v, ac_component = ComponentId (pac_component_id v),
             ac_context = Fingerprint (pac_context_fingerprint v) \<rparr>)"

definition proto_batch_response :: "analysis_batch_response \<Rightarrow> (adapter_error, p_analysis_batch_response) result" where
  "proto_batch_response v =
     and_then (collect_results proto_snapshot (br_snapshots v)) (\<lambda>snapshots.
     Ok \<lparr> pbs_snapshots = snapshots, pbs_timings = map proto_timing (br_timings v),
          pbs_artifact_candidates = map proto_candidate (br_artifact_candidates v),
          pbs_metrics = map proto_metric (br_metrics v) \<rparr>)"

definition decode_batch_response :: "p_analysis_batch_response \<Rightarrow> (adapter_error, analysis_batch_response) result" where
  "decode_batch_response v =
     and_then (collect_results decode_snapshot (pbs_snapshots v)) (\<lambda>snapshots.
     and_then (collect_results decode_candidate (pbs_artifact_candidates v)) (\<lambda>candidates.
     Ok \<lparr> br_snapshots = snapshots, br_timings = map decode_timing (pbs_timings v),
          br_artifact_candidates = candidates, br_metrics = map decode_metric (pbs_metrics v) \<rparr>))"

text \<open>\<open>option.map(f).transpose()\<close>.\<close>

definition transpose :: "('a \<Rightarrow> ('e, 'b) result) \<Rightarrow> 'a option \<Rightarrow> ('e, 'b option) result" where
  "transpose f v = (case v of None \<Rightarrow> Ok None | Some x \<Rightarrow> and_then (f x) (\<lambda>y. Ok (Some y)))"

definition proto_delta :: "analysis_delta \<Rightarrow> (adapter_error, p_analysis_delta) result" where
  "proto_delta v =
     and_then (transpose proto_snapshot (da_snapshot v)) (\<lambda>snapshot.
     Ok \<lparr> pda_source_unit_id = as_str (da_source_unit v),
          pda_previous_content_fingerprint = map_option as_str (da_previous_content v), pda_snapshot = snapshot \<rparr>)"

definition decode_delta :: "p_analysis_delta \<Rightarrow> (adapter_error, analysis_delta) result" where
  "decode_delta v =
     and_then (transpose decode_snapshot (pda_snapshot v)) (\<lambda>snapshot.
     Ok \<lparr> da_source_unit = SourceUnitId (pda_source_unit_id v),
          da_previous_content = map_option Fingerprint (pda_previous_content_fingerprint v), da_snapshot = snapshot \<rparr>)"

section \<open>Artifacts\<close>

definition proto_artifact_request :: "artifact_analysis_request \<Rightarrow> p_artifact_analysis_request" where
  "proto_artifact_request v =
     \<lparr> paq_workspace_root = as_str (aq_workspace_root v), paq_max_artifacts = aq_max_artifacts v,
       paq_cursor = aq_cursor v \<rparr>"

definition decode_artifact_request :: "p_artifact_analysis_request \<Rightarrow> (adapter_error, artifact_analysis_request) result" where
  "decode_artifact_request v =
     (if paq_max_artifacts v = 0 then Err (InvalidMetadata ''artifact analysis max artifacts'')
      else Ok \<lparr> aq_workspace_root = WorkspacePath (paq_workspace_root v), aq_max_artifacts = paq_max_artifacts v,
             aq_cursor = paq_cursor v \<rparr>)"

definition proto_artifact_response :: "artifact_analysis_response \<Rightarrow> (adapter_error, p_artifact_analysis_response) result" where
  "proto_artifact_response v =
     and_then (collect_results proto_snapshot (as_snapshots v)) (\<lambda>snapshots.
     Ok \<lparr> par_snapshots = snapshots, par_next_cursor = as_next_cursor v \<rparr>)"

definition decode_artifact_response :: "p_artifact_analysis_response \<Rightarrow> (adapter_error, artifact_analysis_response) result" where
  "decode_artifact_response v =
     and_then (collect_results decode_snapshot (par_snapshots v)) (\<lambda>snapshots.
     Ok \<lparr> as_snapshots = snapshots, as_next_cursor = par_next_cursor v \<rparr>)"

definition proto_discovery_request :: "artifact_discovery_request \<Rightarrow> p_artifact_discovery_request" where
  "proto_discovery_request v =
     \<lparr> pdq_workspace_root = as_str (dq_workspace_root v), pdq_max_artifacts = dq_max_artifacts v,
       pdq_cursor = dq_cursor v, pdq_execution_plan = Some (proto_plan (dq_execution_plan v)) \<rparr>"

definition decode_discovery_request :: "p_artifact_discovery_request \<Rightarrow> (adapter_error, artifact_discovery_request) result" where
  "decode_discovery_request v =
     and_then (ok_or (MissingField ''artifact_discovery_request.execution_plan'') (pdq_execution_plan v)) (\<lambda>p.
     and_then (decode_plan p) (\<lambda>plan.
     Ok \<lparr> dq_workspace_root = WorkspacePath (pdq_workspace_root v), dq_max_artifacts = pdq_max_artifacts v,
          dq_cursor = pdq_cursor v, dq_execution_plan = plan \<rparr>))"

definition proto_locator :: "symbol_locator \<Rightarrow> p_symbol_locator" where
  "proto_locator l = \<lparr> psy_qualified_name = loc_qualified_name l, psy_symbol_id = as_str (loc_symbol l) \<rparr>"

definition decode_locator :: "p_symbol_locator \<Rightarrow> symbol_locator" where
  "decode_locator l = \<lparr> loc_qualified_name = psy_qualified_name l, loc_symbol = SymbolId (psy_symbol_id l) \<rparr>"

text \<open>The identity travels as ecosystem, coordinate and version; an empty ecosystem stands for none.\<close>

definition proto_descriptor :: "artifact_descriptor \<Rightarrow> p_artifact_descriptor" where
  "proto_descriptor v =
     (let u = ad_source_unit v; p = ad_provenance v
      in \<lparr> pad_source_unit_id = as_str (su_id u), pad_component_id = as_str (su_component u),
           pad_workspace_path = as_str (su_path u), pad_content_fingerprint = as_str (su_content u),
           pad_context_fingerprint = as_str (su_context u), pad_backend = prov_backend p,
           pad_backend_version = prov_backend_version p, pad_worker_protocol_version = prov_protocol_version p,
           pad_analysis_options_fingerprint = as_str (prov_analysis_options p),
           pad_language = proto_language (su_language u), pad_origin = source_origin_name (su_origin u),
           pad_symbol_locators = map proto_locator (ad_symbol_locators v),
           pad_ecosystem = (case ad_resolved_identity v of None \<Rightarrow> [] | Some i \<Rightarrow> di_ecosystem i),
           pad_canonical_coordinate = (case ad_resolved_identity v of None \<Rightarrow> None | Some i \<Rightarrow> di_canonical_coordinate i),
           pad_resolved_version = (case ad_resolved_identity v of None \<Rightarrow> None | Some i \<Rightarrow> di_resolved_version i) \<rparr>)"

definition decode_descriptor :: "p_artifact_descriptor \<Rightarrow> (adapter_error, artifact_descriptor) result" where
  "decode_descriptor v =
     and_then (decode_source_origin (pad_origin v)) (\<lambda>origin.
     let u = \<lparr> su_id = SourceUnitId (pad_source_unit_id v), su_component = ComponentId (pad_component_id v),
               su_path = WorkspacePath (pad_workspace_path v), su_language = decode_language (pad_language v),
               su_origin = origin, su_content = Fingerprint (pad_content_fingerprint v),
               su_context = Fingerprint (pad_context_fingerprint v) \<rparr>;
         p = \<lparr> prov_backend = pad_backend v, prov_backend_version = pad_backend_version v,
               prov_protocol_version = pad_worker_protocol_version v,
               prov_analysis_options = Fingerprint (pad_analysis_options_fingerprint v) \<rparr>
     in Ok \<lparr> ad_source_unit = u, ad_provenance = p,
             ad_resolved_identity = (if pad_ecosystem v \<noteq> [] then Some (identity_new (pad_ecosystem v)
               (pad_canonical_coordinate v) (pad_resolved_version v) (su_content u) (su_context u) p
               ARTIFACT_BLOB_FORMAT_VERSION) else None),
             ad_symbol_locators = map decode_locator (pad_symbol_locators v) \<rparr>)"

definition proto_discovery_response :: "artifact_discovery_response \<Rightarrow> p_artifact_discovery_response" where
  "proto_discovery_response v =
     \<lparr> pdr_artifacts = map proto_descriptor (dr_artifacts v), pdr_next_cursor = dr_next_cursor v,
       pdr_artifact_locators = map (\<lambda>l. \<lparr> pal_source_unit_id = as_str (al_source_unit l), pal_locator = al_locator l \<rparr>)
         (dr_artifact_locators v) \<rparr>"

definition decode_discovery_response :: "p_artifact_discovery_response \<Rightarrow> (adapter_error, artifact_discovery_response) result" where
  "decode_discovery_response v =
     and_then (collect_results decode_descriptor (pdr_artifacts v)) (\<lambda>artifacts.
     Ok \<lparr> dr_artifacts = artifacts, dr_next_cursor = pdr_next_cursor v,
          dr_artifact_locators = map (\<lambda>l. \<lparr> al_source_unit = SourceUnitId (pal_source_unit_id l),
            al_locator = pal_locator l \<rparr>) (pdr_artifact_locators v) \<rparr>)"


section \<open>Materialisation and digests\<close>

text \<open>\<open>u8::is_ascii_hexdigit\<close> with the value of the digit, and \<open>u8::from_str_radix(pair, 16)\<close> for every pair.\<close>

definition hex_value :: "char \<Rightarrow> nat option" where
  "hex_value c =
     (if 48 \<le> byte c \<and> byte c \<le> 57 then Some (byte c - 48)
      else if 97 \<le> byte c \<and> byte c \<le> 102 then Some (byte c - 87)
      else if 65 \<le> byte c \<and> byte c \<le> 70 then Some (byte c - 55) else None)"

fun from_hex :: "string \<Rightarrow> string option" where
  "from_hex [] = Some []"
| "from_hex [c] = None"
| "from_hex (a # b # cs) =
     (case (hex_value a, hex_value b, from_hex cs) of
        (Some x, Some y, Some bs) \<Rightarrow> Some (char_of (16 * x + y) # bs) | _ \<Rightarrow> None)"

definition digest_bytes :: "fingerprint \<Rightarrow> (adapter_error, string) result" where
  "digest_bytes f =
     and_then (ok_or (InvalidMetadata ''sha256 fingerprint prefix'') (strip_prefix ''sha256:'' (as_str f))) (\<lambda>digits.
     if length digits \<noteq> 64 \<or> (\<exists>c\<in>set digits. hex_value c = None)
     then Err (InvalidMetadata ''sha256 fingerprint encoding'')
     else ok_or (InvalidMetadata ''sha256 fingerprint encoding'') (from_hex digits))"

definition digest_fingerprint :: "string \<Rightarrow> (adapter_error, fingerprint) result" where
  "digest_fingerprint bs =
     (if length bs \<noteq> 32 then Err (InvalidMetadata ''sha256 byte length'')
      else Ok (Fingerprint (''sha256:'' @ hex bs)))"

definition proto_materialization_request :: "artifact_materialization_request \<Rightarrow> p_materialization_request" where
  "proto_materialization_request v =
     \<lparr> pxq_workspace_root = as_str (xq_workspace_root v), pxq_artifact = Some (proto_descriptor (xq_artifact v)),
       pxq_staging_directory = xq_staging_directory v, pxq_blob_format_version = xq_blob_format_version v,
       pxq_artifact_locator = xq_artifact_locator v \<rparr>"

definition decode_materialization_request :: "p_materialization_request
    \<Rightarrow> (adapter_error, artifact_materialization_request) result" where
  "decode_materialization_request v =
     (if pxq_staging_directory v = [] then Err (InvalidMetadata ''staging directory'')
      else if pxq_blob_format_version v = 0 then Err (InvalidMetadata ''blob format version'')
      else
      and_then (ok_or (MissingField ''materialization.artifact'') (pxq_artifact v)) (\<lambda>a.
      and_then (decode_descriptor a) (\<lambda>artifact.
      Ok \<lparr> xq_workspace_root = WorkspacePath (pxq_workspace_root v), xq_artifact = artifact,
           xq_staging_directory = pxq_staging_directory v, xq_blob_format_version = pxq_blob_format_version v,
           xq_artifact_locator = pxq_artifact_locator v \<rparr>)))"

definition proto_materialization_response :: "artifact_materialization_response
    \<Rightarrow> (adapter_error, p_materialization_response) result" where
  "proto_materialization_response v =
     (if xr_staged_filename v = [] \<or> xr_byte_length v = 0 \<or> xr_blob_format_version v = 0
      then Err (InvalidMetadata ''materialization completion metadata'')
      else
      and_then (digest_bytes (xr_sha256 v)) (\<lambda>digest.
      Ok \<lparr> pxr_staged_filename = xr_staged_filename v, pxr_byte_length = xr_byte_length v, pxr_sha256 = digest,
           pxr_blob_format_version = xr_blob_format_version v, pxr_timings = map proto_timing (xr_timings v),
           pxr_metrics = map proto_metric (xr_metrics v) \<rparr>))"

definition decode_materialization_response :: "p_materialization_response
    \<Rightarrow> (adapter_error, artifact_materialization_response) result" where
  "decode_materialization_response v =
     (if pxr_staged_filename v = [] \<or> pxr_byte_length v = 0 \<or> pxr_blob_format_version v = 0
      then Err (InvalidMetadata ''materialization completion metadata'')
      else
      and_then (digest_fingerprint (pxr_sha256 v)) (\<lambda>sha256.
      Ok \<lparr> xr_staged_filename = pxr_staged_filename v, xr_byte_length = pxr_byte_length v, xr_sha256 = sha256,
           xr_blob_format_version = pxr_blob_format_version v, xr_timings = map decode_timing (pxr_timings v),
           xr_metrics = map decode_metric (pxr_metrics v) \<rparr>))"

definition proto_error :: "worker_error \<Rightarrow> p_error" where
  "proto_error v =
     \<lparr> per_code = worker_error_code_name (we_code v), per_message = we_message v, per_retryable = we_retryable v,
       per_supported_protocol_version = we_supported_protocol_version v,
       per_received_protocol_version = we_received_protocol_version v \<rparr>"

definition decode_error :: "p_error \<Rightarrow> (adapter_error, worker_error) result" where
  "decode_error v =
     and_then (decode_worker_error_code (per_code v)) (\<lambda>code.
     Ok \<lparr> we_code = code, we_message = per_message v, we_retryable = per_retryable v,
          we_supported_protocol_version = per_supported_protocol_version v,
          we_received_protocol_version = per_received_protocol_version v \<rparr>)"

section \<open>The envelope\<close>

fun proto_message :: "(string \<Rightarrow> string) \<Rightarrow> worker_message \<Rightarrow> (adapter_error, p_message) result" where
  "proto_message debug_other (MsgHandshakeRequest r) =
     Ok (PHandshakeRequest \<lparr> phq_core_version = hq_core_version r \<rparr>)"
| "proto_message debug_other (MsgHandshakeResponse r) = Ok (PHandshakeResponse (proto_handshake_response r))"
| "proto_message debug_other (MsgProjectManifestRequest r) =
     Ok (PProjectManifestRequest \<lparr> pmq_workspace_root = as_str (mq_workspace_root r) \<rparr>)"
| "proto_message debug_other (MsgProjectManifestResponse r) =
     Ok (PProjectManifestResponse (proto_manifest_response debug_other r))"
| "proto_message debug_other (MsgAnalyzeBatchRequest r) = Ok (PAnalyzeBatchRequest (proto_batch_request r))"
| "proto_message debug_other (MsgAnalysisBatchResponse r) =
     and_then (proto_batch_response r) (\<lambda>p. Ok (PAnalysisBatchResponse p))"
| "proto_message debug_other (MsgArtifactAnalysisRequest r) = Ok (PArtifactAnalysisRequest (proto_artifact_request r))"
| "proto_message debug_other (MsgArtifactAnalysisResponse r) =
     and_then (proto_artifact_response r) (\<lambda>p. Ok (PArtifactAnalysisResponse p))"
| "proto_message debug_other (MsgArtifactDiscoveryRequest r) = Ok (PArtifactDiscoveryRequest (proto_discovery_request r))"
| "proto_message debug_other (MsgArtifactDiscoveryResponse r) = Ok (PArtifactDiscoveryResponse (proto_discovery_response r))"
| "proto_message debug_other (MsgArtifactMaterializationRequest r) =
     Ok (PArtifactMaterializationRequest (proto_materialization_request r))"
| "proto_message debug_other (MsgArtifactMaterializationResponse r) =
     and_then (proto_materialization_response r) (\<lambda>p. Ok (PArtifactMaterializationResponse p))"
| "proto_message debug_other (MsgSemanticQueryRequest r) = Ok (PSemanticQueryRequest (proto_query_request r))"
| "proto_message debug_other (MsgSemanticQueryResponse r) =
     and_then (proto_query_response r) (\<lambda>p. Ok (PSemanticQueryResponse p))"
| "proto_message debug_other (MsgAnalysisDelta d) = and_then (proto_delta d) (\<lambda>p. Ok (PAnalysisDelta p))"
| "proto_message debug_other (MsgError e) = Ok (PError (proto_error e))"

definition proto_envelope :: "(string \<Rightarrow> string) \<Rightarrow> worker_envelope \<Rightarrow> (adapter_error, p_envelope) result" where
  "proto_envelope debug_other e =
     and_then (proto_message debug_other (env_message e)) (\<lambda>message.
     Ok \<lparr> pen_protocol_version = env_protocol_version e, pen_request_id = env_request_id e, pen_message = Some message \<rparr>)"

fun decode_message :: "p_message \<Rightarrow> (adapter_error, worker_message) result" where
  "decode_message (PHandshakeRequest r) = Ok (MsgHandshakeRequest \<lparr> hq_core_version = phq_core_version r \<rparr>)"
| "decode_message (PHandshakeResponse r) = and_then (decode_handshake_response r) (\<lambda>m. Ok (MsgHandshakeResponse m))"
| "decode_message (PProjectManifestRequest r) =
     Ok (MsgProjectManifestRequest \<lparr> mq_workspace_root = WorkspacePath (pmq_workspace_root r) \<rparr>)"
| "decode_message (PProjectManifestResponse r) =
     and_then (decode_manifest_response r) (\<lambda>m. Ok (MsgProjectManifestResponse m))"
| "decode_message (PAnalyzeBatchRequest r) = and_then (decode_batch_request r) (\<lambda>m. Ok (MsgAnalyzeBatchRequest m))"
| "decode_message (PAnalysisBatchResponse r) = and_then (decode_batch_response r) (\<lambda>m. Ok (MsgAnalysisBatchResponse m))"
| "decode_message (PArtifactAnalysisRequest r) = and_then (decode_artifact_request r) (\<lambda>m. Ok (MsgArtifactAnalysisRequest m))"
| "decode_message (PArtifactAnalysisResponse r) =
     and_then (decode_artifact_response r) (\<lambda>m. Ok (MsgArtifactAnalysisResponse m))"
| "decode_message (PArtifactDiscoveryRequest r) =
     and_then (decode_discovery_request r) (\<lambda>m. Ok (MsgArtifactDiscoveryRequest m))"
| "decode_message (PArtifactDiscoveryResponse r) =
     and_then (decode_discovery_response r) (\<lambda>m. Ok (MsgArtifactDiscoveryResponse m))"
| "decode_message (PArtifactMaterializationRequest r) =
     and_then (decode_materialization_request r) (\<lambda>m. Ok (MsgArtifactMaterializationRequest m))"
| "decode_message (PArtifactMaterializationResponse r) =
     and_then (decode_materialization_response r) (\<lambda>m. Ok (MsgArtifactMaterializationResponse m))"
| "decode_message (PSemanticQueryRequest r) = and_then (decode_query_request r) (\<lambda>m. Ok (MsgSemanticQueryRequest m))"
| "decode_message (PSemanticQueryResponse r) = and_then (decode_query_response r) (\<lambda>m. Ok (MsgSemanticQueryResponse m))"
| "decode_message (PAnalysisDelta d) = and_then (decode_delta d) (\<lambda>m. Ok (MsgAnalysisDelta m))"
| "decode_message (PError e) = and_then (decode_error e) (\<lambda>m. Ok (MsgError m))"

definition decode_envelope :: "p_envelope \<Rightarrow> (adapter_error, worker_envelope) result" where
  "decode_envelope e =
     and_then (ok_or (MissingField ''envelope.message'') (pen_message e)) (\<lambda>p.
     and_then (decode_message p) (\<lambda>message.
     Ok \<lparr> env_protocol_version = pen_protocol_version e, env_request_id = pen_request_id e, env_message = message \<rparr>))"

end
