(* ===== verification/Worker_Codec.thy ===== *)
theory Worker_Codec
  imports Worker_Envelope Bytes Samples
begin

text \<open>
  What survives the worker transport: for every part of a message, the exact condition under which
  decoding its protobuf form gives it back.
\<close>

section \<open>Names\<close>

lemma decode_worker_capability_name [codec_simps]: "decode_worker_capability (worker_capability_name c) = Ok c"
  by (cases c) (simp_all add: decode_worker_capability_def decode_named_def)

lemma decode_parameter_type_name [codec_simps]: "decode_semantic_parameter_type (semantic_parameter_type_name t) = Ok t"
  by (cases t) (simp_all add: decode_semantic_parameter_type_def decode_named_def)

lemma decode_result_kind_name [codec_simps]: "decode_semantic_result_kind (semantic_result_kind_name k) = Ok k"
  by (cases k) (simp_all add: decode_semantic_result_kind_def decode_named_def)

lemma decode_response_state_name [codec_simps]: "decode_response_state (response_state_name s) = Ok s"
  by (cases s) (simp_all add: decode_response_state_def decode_named_def)

lemma decode_source_origin_name [codec_simps]: "decode_source_origin (source_origin_name x) = Ok x"
  by (cases x) (simp_all add: decode_source_origin_def decode_named_def)

lemma decode_debug_fact [codec_simps]: "decode_analysis_fact (debug_fact f) = Ok f"
  by (cases f) (simp_all add: decode_analysis_fact_def decode_named_def)

lemma decode_debug_symbol_kind [codec_simps]: "decode_symbol_kind (debug_symbol_kind k) = Ok k"
  by (cases k) (simp_all add: decode_symbol_kind_def decode_named_def)

lemma decode_debug_freshness [codec_simps]: "decode_freshness (debug_freshness f) = Ok f"
  by (cases f) (simp_all add: decode_freshness_def decode_named_def)

lemma decode_debug_completeness [codec_simps]: "decode_completeness (debug_completeness c) = Ok c"
  by (cases c) (simp_all add: decode_completeness_def decode_named_def)

lemma decode_debug_precision [codec_simps]: "decode_precision (debug_precision p) = Ok p"
  by (cases p) (simp_all add: decode_precision_def decode_named_def)

lemma decode_lowercase_severity [codec_simps]: "decode_severity (lowercase_severity s) = Ok s"
  by (cases s) (simp_all add: decode_severity_def decode_named_def)

lemma decode_worker_error_code_name [codec_simps]: "decode_worker_error_code (worker_error_code_name c) = Ok c"
  by (cases c) (simp_all add: decode_worker_error_code_def decode_named_def)

text \<open>The one name that does not come back.\<close>

lemma decode_lowercase_occurrence_kind [codec_simps]:
  "decode_occurrence_kind (lowercase_occurrence_kind k) =
     (if k = OTypeReference then Err (UnsupportedValue ''occurrence kind typereference'') else Ok k)"
  by (cases k) (simp_all add: decode_occurrence_kind_def decode_named_def)

text \<open>A language of another name must not have a name of its own.\<close>

definition wire_language :: "language \<Rightarrow> bool" where
  "wire_language l \<longleftrightarrow> l \<notin> OtherLanguage ` {''kotlin'', ''java'', ''rust'', ''typescript''}"

lemma decode_proto_language: "decode_language (proto_language l) = l \<longleftrightarrow> wire_language l"
  by (cases l) (auto simp: decode_language_def wire_language_def)

section \<open>Facts\<close>

lemma decode_proto_provenance [codec_simps]: "decode_provenance (proto_provenance p) = p"
  by (simp add: decode_provenance_def proto_provenance_def)

lemma decode_proto_range [codec_simps]: "decode_range (proto_range r) = r"
  by (simp add: decode_range_def proto_range_def)

lemma range_in_proto: "range_in u (proto_range (sr_bytes r)) = r \<longleftrightarrow> sr_unit r = su_id u"
  by (cases r) (auto simp: range_in_def codec_simps)

lemma map_Ident_as_str [simp, codec_simps]: "map Ident (map as_str xs) = xs" "map (Ident \<circ> as_str) xs = xs"
  by (simp_all add: o_def)

lemma option_Ident_as_str [simp, codec_simps]:
  "map_option Ident (map_option as_str x) = x" "map_option (Ident \<circ> as_str) x = x"
  by (cases x; simp)+

lemma decode_proto_source_unit: "decode_source_unit (proto_source_unit u) = Ok u \<longleftrightarrow> wire_language (su_language u)"
  by (cases u) (simp add: decode_source_unit_def proto_source_unit_def codec_simps decode_proto_language)

definition wire_symbol :: "source_unit_id \<Rightarrow> symbol_record \<Rightarrow> bool" where
  "wire_symbol u s \<longleftrightarrow> wire_language (sym_language s) \<and> sr_unit (sym_declaration s) = u \<and> sr_unit (sym_name_range s) = u
     \<and> bk_backend (sym_backend_key s) = prov_backend (sym_provenance s)"

lemma decode_proto_symbol:
  "decode_symbol_declaration u (sym_provenance s) ((proto_symbol s)\<lparr>psd_provenance_index := i\<rparr>) = Ok s \<longleftrightarrow> wire_symbol (su_id u) s"
proof -
  obtain b v w where "sym_backend_key s = \<lparr> bk_backend = b, bk_schema_version = v, bk_value = w \<rparr>"
    by (cases "sym_backend_key s") auto
  then show ?thesis
    by (cases s) (auto simp: decode_symbol_declaration_def proto_symbol_def codec_simps decode_proto_language range_in_proto wire_symbol_def)
qed

definition wire_occurrence :: "source_unit_id \<Rightarrow> source_occurrence \<Rightarrow> bool" where
  "wire_occurrence u x \<longleftrightarrow> sr_unit (occ_range x) = u \<and> occ_kind x \<noteq> OTypeReference"

lemma decode_proto_occurrence:
  "decode_occurrence u (occ_provenance x) ((proto_occurrence x)\<lparr>poc_provenance_index := i\<rparr>) = Ok x
     \<longleftrightarrow> wire_occurrence (su_id u) x"
  by (cases x) (auto simp: decode_occurrence_def proto_occurrence_def codec_simps range_in_proto wire_occurrence_def)

lemma decode_proto_hierarchy [codec_simps]:
  "decode_hierarchy (hier_provenance e) ((proto_hierarchy e)\<lparr>phe_provenance_index := i\<rparr>) = Ok e"
  by (cases e) (simp add: decode_hierarchy_def proto_hierarchy_def codec_simps)

definition wire_diagnostic :: "source_unit_id \<Rightarrow> diagnostic_record \<Rightarrow> bool" where
  "wire_diagnostic u d \<longleftrightarrow> diag_source_unit d = u"

lemma option_range [simp, codec_simps]: "map_option decode_range (map_option proto_range r) = r"
    "map_option (decode_range \<circ> proto_range) r = r"
  by (cases r; simp add: codec_simps)+

lemma decode_proto_diagnostic:
  "decode_diagnostic u (diag_provenance d) ((proto_diagnostic d)\<lparr>pdi_provenance_index := i\<rparr>) = Ok d
     \<longleftrightarrow> wire_diagnostic (su_id u) d"
  by (cases d) (auto simp: decode_diagnostic_def proto_diagnostic_def codec_simps wire_diagnostic_def)

definition wire_type :: "type_record \<Rightarrow> bool" where
  "wire_type t \<longleftrightarrow> wire_language (ty_language t)
     \<and> (case ty_backend_key t of None \<Rightarrow> True | Some k \<Rightarrow> bk_backend k = prov_backend (ty_provenance t))"

lemma decode_proto_type:
  "decode_type (ty_provenance t) ((proto_type t)\<lparr>pty_provenance_index := i\<rparr>) = Ok t \<longleftrightarrow> wire_type t"
proof (cases "ty_backend_key t")
  case None
  then show ?thesis
    by (cases t) (auto simp: decode_type_def proto_type_def codec_simps decode_proto_language wire_type_def)
next
  case (Some k)
  then show ?thesis
    by (cases t, cases k) (auto simp: decode_type_def proto_type_def codec_simps decode_proto_language wire_type_def)
qed

definition wire_argument :: "application_argument \<Rightarrow> bool" where
  "wire_argument a \<longleftrightarrow> arg_value a \<noteq> AVStringList []"

lemma decode_proto_argument: "decode_argument (proto_argument a) = Ok a \<longleftrightarrow> wire_argument a"
  by (cases a; cases "arg_value a") (auto simp: decode_argument_def proto_argument_def wire_argument_def)

definition wire_application :: "source_unit_id \<Rightarrow> application_fact \<Rightarrow> bool" where
  "wire_application u a \<longleftrightarrow> sr_unit (app_range a) = u \<and> list_all wire_argument (app_arguments a)"

lemma collect_results_iff:
  "collect_results d (map e xs) = Ok xs \<longleftrightarrow> (\<forall>x\<in>set xs. d (e x) = Ok x)"
  by (auto simp: collect_results_Ok list_all2_conv_all_nth all_set_conv_all_nth)

lemma decode_proto_application:
  "decode_application u (app_provenance a) ((proto_application a)\<lparr>paf_provenance_index := i\<rparr>) = Ok a
     \<longleftrightarrow> wire_application (su_id u) a"
proof -
  have "collect_results decode_argument (map proto_argument (app_arguments a)) = Ok (app_arguments a)
      \<longleftrightarrow> list_all wire_argument (app_arguments a)"
    by (simp add: collect_results_iff decode_proto_argument list_all_iff)
  then show ?thesis
    by (cases a) (auto simp: decode_application_def proto_application_def codec_simps range_in_proto wire_application_def
        and_then_eq_Ok)
qed

section \<open>The provenance table\<close>

lemma position_Some: "position p xs = Some i \<Longrightarrow> i < length xs \<and> p (xs ! i)"
  by (induction xs arbitrary: i) (auto split: if_splits)

lemma position_None: "position p xs = None \<longleftrightarrow> (\<forall>x\<in>set xs. \<not> p x)"
  by (induction xs) auto

lemma position_found: "position p xs \<noteq> None \<longleftrightarrow> (\<exists>x\<in>set xs. p x)"
  by (simp add: position_None)

text \<open>The tables \<open>T\<close> that hold the provenance \<open>v\<close> under the index \<open>i\<close>.\<close>

definition holds_at :: "provenance list \<Rightarrow> u32 \<Rightarrow> provenance \<Rightarrow> bool" where
  "holds_at T i v \<longleftrightarrow> unat i < length T \<and> T ! unat i = v"

lemma holds_at_append: "holds_at T i v \<Longrightarrow> holds_at (T @ U) i v"
  by (simp add: holds_at_def nth_append)

lemma unat_of_index: "i < 2 ^ 32 \<Longrightarrow> unat (of_nat i :: u32) = i"
  by (simp add: unsigned_of_nat take_bit_nat_eq_self)

lemma provenance_index_table:
  assumes "provenance_index T v = (i, T')"
  shows "(\<exists>zs. T' = T @ zs) \<and> (length T' \<le> 2 ^ 32 \<longrightarrow> holds_at T' i v) \<and> set T' = insert v (set T)
    \<and> (distinct T \<longrightarrow> distinct T') \<and> length T' \<le> Suc (length T)"
proof (cases "position (\<lambda>c. c = v) T")
  case None
  then have "v \<notin> set T" by (auto simp: position_None)
  then show ?thesis
    using assms None by (auto simp: provenance_index_def holds_at_def unat_of_index)
next
  case (Some j)
  then have "j < length T" "T ! j = v" using position_Some by auto
  then show ?thesis
    using assms Some by (auto simp: provenance_index_def holds_at_def unat_of_index)
qed

lemma provenance_indexes_table:
  assumes "provenance_indexes T vs = (is, T')"
  shows "(\<exists>zs. T' = T @ zs) \<and> (length T' \<le> 2 ^ 32 \<longrightarrow> list_all2 (holds_at T') is vs) \<and> set T' = set T \<union> set vs
    \<and> (distinct T \<longrightarrow> distinct T') \<and> length T' \<le> length T + length vs \<and> length is = length vs"
  using assms
proof (induction vs arbitrary: T "is")
  case (Cons v vs)
  obtain i T1 where one: "provenance_index T v = (i, T1)" by force
  obtain js where rest: "provenance_indexes T1 vs = (js, T')" "is = i # js"
    using Cons.prems one by (auto split: prod.splits)
  from Cons.IH[OF rest(1)] obtain zs where IH: "T' = T1 @ zs" "length T' \<le> 2 ^ 32 \<longrightarrow> list_all2 (holds_at T') js vs"
      "set T' = set T1 \<union> set vs" "distinct T1 \<longrightarrow> distinct T'" "length T' \<le> length T1 + length vs"
      "length js = length vs" by blast
  note T1 = provenance_index_table[OF one]
  have "length T' \<le> 2 ^ 32 \<longrightarrow> holds_at T' i v" using T1 IH(1) holds_at_append by auto
  moreover have "\<exists>zs. T' = T @ zs" using T1 IH(1) by auto
  ultimately show ?case using T1 IH rest(2) by auto
qed simp

lemma indexed_provenance_Ok: "indexed_provenance T i field = Ok p \<longleftrightarrow> holds_at T i p"
  by (auto simp: indexed_provenance_def holds_at_def ok_or_eq_Ok)

text \<open>
  One kind of fact: encoded with the indexes of its provenances and decoded over a table that holds them,
  it comes back if and only if every single fact does.
\<close>

lemma facts_roundtrip:
  assumes "list_all2 (holds_at T) is (map prov xs)" and "\<And>x i. index (upd x i) = i"
  shows "collect_results (with_provenance T field index decode) (map2 upd xs is) = Ok xs
    \<longleftrightarrow> (\<forall>(x, i)\<in>set (zip xs is). decode (prov x) (upd x i) = Ok x)"
proof -
  have len: "length is = length xs" using assms(1) by (auto dest: list_all2_lengthD)
  have step: "with_provenance T field index decode (upd (xs ! j) (is ! j)) = decode (prov (xs ! j)) (upd (xs ! j) (is ! j))"
    if "j < length xs" for j
  proof -
    have "holds_at T (is ! j) (prov (xs ! j))" using assms(1) that len by (auto simp: list_all2_conv_all_nth)
    then have "indexed_provenance T (is ! j) field = Ok (prov (xs ! j))" by (simp add: indexed_provenance_Ok)
    then show ?thesis by (simp add: with_provenance_def assms(2))
  qed
  show ?thesis
    using len step by (auto simp: collect_results_Ok list_all2_conv_all_nth set_zip)
qed

lemma zip_all: "length xs = length is \<Longrightarrow> (\<forall>(x, i)\<in>set (zip xs is). P x) \<longleftrightarrow> list_all P xs"
  by (auto simp: set_zip list_all_length)

lemma facts_roundtrip_iff:
  assumes "list_all2 (holds_at T) is (map prov xs)" and "\<And>x i. index (upd x i) = i"
    and "\<And>x i. decode (prov x) (upd x i) = Ok x \<longleftrightarrow> P x"
  shows "collect_results (with_provenance T field index decode) (map2 upd xs is) = Ok xs \<longleftrightarrow> list_all P xs"
proof -
  have "length xs = length is" using assms(1) by (auto dest: list_all2_lengthD)
  then show ?thesis
    by (subst facts_roundtrip[where prov = prov]) (use assms in \<open>simp_all add: zip_all\<close>)
qed

section \<open>Relations\<close>

lemma occurrence_index_Ok:
  assumes "length occurrences < 2 ^ 32" "occurrence_index occurrences x = Ok i"
  shows "occurrence_at field occurrences i = Ok x"
proof -
  obtain j where j: "position (\<lambda>c. c = x) occurrences = Some j" "i = of_nat j"
    using assms(2) by (auto simp: occurrence_index_def ok_or_eq_Ok)
  then have "j < length occurrences" "occurrences ! j = x" using position_Some by auto
  then show ?thesis using assms(1) j(2) by (simp add: occurrence_at_def unat_of_index)
qed

lemma occurrence_index_in: "(\<exists>i. occurrence_index occurrences x = Ok i) \<longleftrightarrow> x \<in> set occurrences"
proof -
  have "(\<exists>i. occurrence_index occurrences x = Ok i) \<longleftrightarrow> position (\<lambda>c. c = x) occurrences \<noteq> None"
    by (cases "position (\<lambda>c. c = x) occurrences") (auto simp: occurrence_index_def)
  then show ?thesis unfolding position_found by blast
qed

text \<open>The edges of one kind: encoded by the index of their occurrence and decoded with it.\<close>

lemma edges_encoded:
  "(\<exists>ps. collect_results (\<lambda>e. and_then (occurrence_index occurrences (source e)) (\<lambda>i. Ok (enc e i))) es = Ok ps)
     \<longleftrightarrow> (\<forall>e\<in>set es. source e \<in> set occurrences)"
proof (induction es)
  case (Cons e es)
  show ?case using Cons.IH occurrence_index_in[of occurrences "source e"] by (auto simp: and_then_eq_Ok)
qed simp

lemma edges_roundtrip:
  assumes "collect_results (\<lambda>e. and_then (occurrence_index occurrences (source e)) (\<lambda>i. Ok (enc e i))) es = Ok ps"
    and "\<And>e i. occurrence_index occurrences (source e) = Ok i \<Longrightarrow> decode (enc e i) = Ok e"
  shows "collect_results decode ps = Ok es"
  using assms by (fastforce simp: collect_results_Ok and_then_eq_Ok list_all2_conv_all_nth)

lemma decode_proto_reference:
  "length occurrences < 2 ^ 32 \<Longrightarrow> occurrence_index occurrences (ref_source e) = Ok i
     \<Longrightarrow> decode_reference occurrences (proto_reference e i) = Ok e"
  by (cases e) (simp add: decode_reference_def proto_reference_def occurrence_index_Ok codec_simps)

lemma decode_proto_call:
  "length occurrences < 2 ^ 32 \<Longrightarrow> occurrence_index occurrences (call_source e) = Ok i
     \<Longrightarrow> decode_call occurrences (proto_call e i) = Ok e"
  by (cases e) (simp add: decode_call_def proto_call_def occurrence_index_Ok codec_simps)

section \<open>Snapshots\<close>

definition wire_snapshot :: "file_analysis_snapshot \<Rightarrow> bool" where
  "wire_snapshot s \<longleftrightarrow>
     (let u = su_id (snap_source_unit s)
      in wire_language (su_language (snap_source_unit s)) \<and> list_all (wire_symbol u) (snap_symbols s)
       \<and> list_all (wire_application u) (snap_applications s) \<and> list_all (wire_occurrence u) (snap_occurrences s)
       \<and> list_all wire_type (snap_types s) \<and> list_all (wire_diagnostic u) (snap_diagnostics s)
       \<and> (\<forall>e\<in>set (snap_references s). ref_source e \<in> set (snap_occurrences s))
       \<and> (\<forall>e\<in>set (snap_calls s). call_source e \<in> set (snap_occurrences s)))"

text \<open>The facts that carry a provenance.\<close>

definition fact_count :: "file_analysis_snapshot \<Rightarrow> nat" where
  "fact_count s = length (snap_symbols s) + length (snap_applications s) + length (snap_occurrences s)
     + length (snap_hierarchy s) + length (snap_types s) + length (snap_diagnostics s)"

lemma decode_snapshot_Ok:
  "decode_snapshot v = Ok s \<longleftrightarrow>
     (\<exists>unit. psn_source_unit v = Some unit \<and> decode_source_unit unit = Ok (snap_source_unit s))
     \<and> (let T = map decode_provenance (psn_provenances v); u = snap_source_unit s
        in holds_at T (psn_provenance_index v) (snap_provenance s)
         \<and> collect_results (with_provenance T ''symbol.provenance_index'' psd_provenance_index (decode_symbol_declaration u))
             (psn_symbols v) = Ok (snap_symbols s)
         \<and> collect_results (with_provenance T ''application.provenance_index'' paf_provenance_index (decode_application u))
             (psn_applications v) = Ok (snap_applications s)
         \<and> collect_results (with_provenance T ''occurrence.provenance_index'' poc_provenance_index (decode_occurrence u))
             (psn_occurrences v) = Ok (snap_occurrences s)
         \<and> collect_results (decode_reference (snap_occurrences s)) (psn_references v) = Ok (snap_references s)
         \<and> collect_results (decode_call (snap_occurrences s)) (psn_calls v) = Ok (snap_calls s)
         \<and> collect_results (with_provenance T ''hierarchy.provenance_index'' phe_provenance_index decode_hierarchy)
             (psn_hierarchy v) = Ok (snap_hierarchy s)
         \<and> collect_results (with_provenance T ''type.provenance_index'' pty_provenance_index decode_type)
             (psn_types v) = Ok (snap_types s)
         \<and> collect_results (with_provenance T ''diagnostic.provenance_index'' pdi_provenance_index (decode_diagnostic u))
             (psn_diagnostics v) = Ok (snap_diagnostics s)
         \<and> decode_completeness (psn_completeness v) = Ok (snap_completeness s)
         \<and> map_option Fingerprint (psn_structural_fingerprint v) = snap_structural_fingerprint s
         \<and> map_option Fingerprint (psn_public_api_fingerprint v) = snap_public_api_fingerprint s)"
  by (cases s) (simp add: decode_snapshot_def and_then_eq_Ok ok_or_eq_Ok indexed_provenance_Ok Let_def, blast)

lemma proto_snapshot_encodes:
  "(\<exists>v. proto_snapshot s = Ok v) \<longleftrightarrow>
     (\<forall>e\<in>set (snap_references s). ref_source e \<in> set (snap_occurrences s))
     \<and> (\<forall>e\<in>set (snap_calls s). call_source e \<in> set (snap_occurrences s))"
  unfolding edges_encoded[of _ _ proto_reference, symmetric] edges_encoded[of _ _ proto_call, symmetric]
  by (simp add: proto_snapshot_def and_then_eq_Ok Let_def case_prod_unfold) blast

lemma holds_at_extend: "list_all2 (holds_at T) is vs \<Longrightarrow> \<exists>w. U = T @ w \<Longrightarrow> list_all2 (holds_at U) is vs"
  by (auto elim!: list_all2_mono intro: holds_at_append)

text \<open>What an encoded snapshot holds: one table, and for every kind of fact its indexes in that table.\<close>

lemma proto_snapshot_parts:
  assumes "fact_count s < 2 ^ 32" "proto_snapshot s = Ok v"
  shows "\<exists>T refs calls i1 i2 i3 i4 i5 i6. v = assemble_snapshot s T refs calls i1 i2 i3 i4 i5 i6
    \<and> holds_at T 0 (snap_provenance s)
    \<and> list_all2 (holds_at T) i1 (map sym_provenance (snap_symbols s))
    \<and> list_all2 (holds_at T) i2 (map app_provenance (snap_applications s))
    \<and> list_all2 (holds_at T) i3 (map occ_provenance (snap_occurrences s))
    \<and> list_all2 (holds_at T) i4 (map hier_provenance (snap_hierarchy s))
    \<and> list_all2 (holds_at T) i5 (map ty_provenance (snap_types s))
    \<and> list_all2 (holds_at T) i6 (map diag_provenance (snap_diagnostics s))
    \<and> collect_results (\<lambda>e. and_then (occurrence_index (snap_occurrences s) (ref_source e)) (\<lambda>i.
        Ok (proto_reference e i))) (snap_references s) = Ok refs
    \<and> collect_results (\<lambda>e. and_then (occurrence_index (snap_occurrences s) (call_source e)) (\<lambda>i.
        Ok (proto_call e i))) (snap_calls s) = Ok calls"
proof -
  obtain i1 T1 where p1: "provenance_indexes [snap_provenance s] (map sym_provenance (snap_symbols s)) = (i1, T1)" by force
  obtain i2 T2 where p2: "provenance_indexes T1 (map app_provenance (snap_applications s)) = (i2, T2)" by force
  obtain i3 T3 where p3: "provenance_indexes T2 (map occ_provenance (snap_occurrences s)) = (i3, T3)" by force
  obtain i4 T4 where p4: "provenance_indexes T3 (map hier_provenance (snap_hierarchy s)) = (i4, T4)" by force
  obtain i5 T5 where p5: "provenance_indexes T4 (map ty_provenance (snap_types s)) = (i5, T5)" by force
  obtain i6 T6 where p6: "provenance_indexes T5 (map diag_provenance (snap_diagnostics s)) = (i6, T6)" by force
  note t1 = provenance_indexes_table[OF p1] and t2 = provenance_indexes_table[OF p2]
    and t3 = provenance_indexes_table[OF p3] and t4 = provenance_indexes_table[OF p4]
    and t5 = provenance_indexes_table[OF p5] and t6 = provenance_indexes_table[OF p6]
  obtain z1 z2 z3 z4 z5 z6 where ext: "T1 = [snap_provenance s] @ z1" "T2 = T1 @ z2" "T3 = T2 @ z3" "T4 = T3 @ z4"
      "T5 = T4 @ z5" "T6 = T5 @ z6"
    using t1 t2 t3 t4 t5 t6 by blast
  have "length T6 \<le> Suc (fact_count s)" using t1 t2 t3 t4 t5 t6 by (simp add: fact_count_def)
  then have small: "length T6 \<le> 2 ^ 32" using assms(1) by simp
  have len: "length T1 \<le> 2 ^ 32" "length T2 \<le> 2 ^ 32" "length T3 \<le> 2 ^ 32" "length T4 \<le> 2 ^ 32" "length T5 \<le> 2 ^ 32"
    using small unfolding ext by simp_all
  have holds: "list_all2 (holds_at T6) i1 (map sym_provenance (snap_symbols s))"
      "list_all2 (holds_at T6) i2 (map app_provenance (snap_applications s))"
      "list_all2 (holds_at T6) i3 (map occ_provenance (snap_occurrences s))"
      "list_all2 (holds_at T6) i4 (map hier_provenance (snap_hierarchy s))"
      "list_all2 (holds_at T6) i5 (map ty_provenance (snap_types s))"
      "list_all2 (holds_at T6) i6 (map diag_provenance (snap_diagnostics s))"
    subgoal by (rule holds_at_extend[of T1]) (use t1 len ext in simp_all)
    subgoal by (rule holds_at_extend[of T2]) (use t2 len ext in simp_all)
    subgoal by (rule holds_at_extend[of T3]) (use t3 len ext in simp_all)
    subgoal by (rule holds_at_extend[of T4]) (use t4 len ext in simp_all)
    subgoal by (rule holds_at_extend[of T5]) (use t5 len ext in simp_all)
    subgoal using t6 small by simp
    done
  have first: "holds_at T6 0 (snap_provenance s)"
    unfolding ext by (simp add: holds_at_def)
  obtain refs calls where edges: "collect_results (\<lambda>e. and_then (occurrence_index (snap_occurrences s) (ref_source e)) (\<lambda>i.
        Ok (proto_reference e i))) (snap_references s) = Ok refs"
      "collect_results (\<lambda>e. and_then (occurrence_index (snap_occurrences s) (call_source e)) (\<lambda>i.
        Ok (proto_call e i))) (snap_calls s) = Ok calls"
    using assms(2) p1 p2 p3 by (auto simp: proto_snapshot_def and_then_eq_Ok)
  then have "v = assemble_snapshot s T6 refs calls i1 i2 i3 i4 i5 i6"
    using assms(2) p1 p2 p3 p4 p5 p6 by (simp add: proto_snapshot_def)
  with holds first edges show ?thesis by blast
qed

lemma assemble_simps:
  "psn_source_unit (assemble_snapshot v T rs cs i1 i2 i3 i4 i5 i6) = Some (proto_source_unit (snap_source_unit v))"
  "psn_structural_fingerprint (assemble_snapshot v T rs cs i1 i2 i3 i4 i5 i6) = map_option as_str (snap_structural_fingerprint v)"
  "psn_public_api_fingerprint (assemble_snapshot v T rs cs i1 i2 i3 i4 i5 i6) = map_option as_str (snap_public_api_fingerprint v)"
  "map decode_provenance (psn_provenances (assemble_snapshot v T rs cs i1 i2 i3 i4 i5 i6)) = T"
  "psn_references (assemble_snapshot v T rs cs i1 i2 i3 i4 i5 i6) = rs"
  "psn_calls (assemble_snapshot v T rs cs i1 i2 i3 i4 i5 i6) = cs"
  "psn_completeness (assemble_snapshot v T rs cs i1 i2 i3 i4 i5 i6) = debug_completeness (snap_completeness v)"
  "psn_provenance_index (assemble_snapshot v T rs cs i1 i2 i3 i4 i5 i6) = 0"
  by (simp_all add: assemble_snapshot_def o_def codec_simps)

lemma fact_lists:
  "psn_symbols (assemble_snapshot v T rs cs i1 i2 i3 i4 i5 i6)
     = map2 (\<lambda>x i. (proto_symbol x)\<lparr>psd_provenance_index := i\<rparr>) (snap_symbols v) i1"
  "psn_applications (assemble_snapshot v T rs cs i1 i2 i3 i4 i5 i6)
     = map2 (\<lambda>x i. (proto_application x)\<lparr>paf_provenance_index := i\<rparr>) (snap_applications v) i2"
  "psn_occurrences (assemble_snapshot v T rs cs i1 i2 i3 i4 i5 i6)
     = map2 (\<lambda>x i. (proto_occurrence x)\<lparr>poc_provenance_index := i\<rparr>) (snap_occurrences v) i3"
  "psn_hierarchy (assemble_snapshot v T rs cs i1 i2 i3 i4 i5 i6)
     = map2 (\<lambda>x i. (proto_hierarchy x)\<lparr>phe_provenance_index := i\<rparr>) (snap_hierarchy v) i4"
  "psn_types (assemble_snapshot v T rs cs i1 i2 i3 i4 i5 i6)
     = map2 (\<lambda>x i. (proto_type x)\<lparr>pty_provenance_index := i\<rparr>) (snap_types v) i5"
  "psn_diagnostics (assemble_snapshot v T rs cs i1 i2 i3 i4 i5 i6)
     = map2 (\<lambda>x i. (proto_diagnostic x)\<lparr>pdi_provenance_index := i\<rparr>) (snap_diagnostics v) i6"
  by (simp_all add: assemble_snapshot_def)

text \<open>The six kinds of facts, each against the condition of its own.\<close>

lemma kinds_roundtrip:
  fixes s defines "u \<equiv> snap_source_unit s"
  shows "list_all2 (holds_at T) is (map sym_provenance (snap_symbols s)) \<Longrightarrow>
      collect_results (with_provenance T f psd_provenance_index (decode_symbol_declaration u))
        (map2 (\<lambda>x i. (proto_symbol x)\<lparr>psd_provenance_index := i\<rparr>) (snap_symbols s) is) = Ok (snap_symbols s)
      \<longleftrightarrow> list_all (wire_symbol (su_id u)) (snap_symbols s)"
    and "list_all2 (holds_at T) is (map app_provenance (snap_applications s)) \<Longrightarrow>
      collect_results (with_provenance T f paf_provenance_index (decode_application u))
        (map2 (\<lambda>x i. (proto_application x)\<lparr>paf_provenance_index := i\<rparr>) (snap_applications s) is) = Ok (snap_applications s)
      \<longleftrightarrow> list_all (wire_application (su_id u)) (snap_applications s)"
    and "list_all2 (holds_at T) is (map occ_provenance (snap_occurrences s)) \<Longrightarrow>
      collect_results (with_provenance T f poc_provenance_index (decode_occurrence u))
        (map2 (\<lambda>x i. (proto_occurrence x)\<lparr>poc_provenance_index := i\<rparr>) (snap_occurrences s) is) = Ok (snap_occurrences s)
      \<longleftrightarrow> list_all (wire_occurrence (su_id u)) (snap_occurrences s)"
    and "list_all2 (holds_at T) is (map hier_provenance (snap_hierarchy s)) \<Longrightarrow>
      collect_results (with_provenance T f phe_provenance_index decode_hierarchy)
        (map2 (\<lambda>x i. (proto_hierarchy x)\<lparr>phe_provenance_index := i\<rparr>) (snap_hierarchy s) is) = Ok (snap_hierarchy s)"
    and "list_all2 (holds_at T) is (map ty_provenance (snap_types s)) \<Longrightarrow>
      collect_results (with_provenance T f pty_provenance_index decode_type)
        (map2 (\<lambda>x i. (proto_type x)\<lparr>pty_provenance_index := i\<rparr>) (snap_types s) is) = Ok (snap_types s)
      \<longleftrightarrow> list_all wire_type (snap_types s)"
    and "list_all2 (holds_at T) is (map diag_provenance (snap_diagnostics s)) \<Longrightarrow>
      collect_results (with_provenance T f pdi_provenance_index (decode_diagnostic u))
        (map2 (\<lambda>x i. (proto_diagnostic x)\<lparr>pdi_provenance_index := i\<rparr>) (snap_diagnostics s) is) = Ok (snap_diagnostics s)
      \<longleftrightarrow> list_all (wire_diagnostic (su_id u)) (snap_diagnostics s)"
  subgoal by (erule facts_roundtrip_iff) (simp, rule decode_proto_symbol)
  subgoal by (erule facts_roundtrip_iff) (simp, rule decode_proto_application)
  subgoal by (erule facts_roundtrip_iff) (simp, rule decode_proto_occurrence)
  subgoal by (subst facts_roundtrip_iff[where prov = hier_provenance and P = "\<lambda>_. True"], assumption)
      (simp_all add: decode_proto_hierarchy list_all_iff)
  subgoal by (erule facts_roundtrip_iff) (simp, rule decode_proto_type)
  subgoal by (erule facts_roundtrip_iff) (simp, rule decode_proto_diagnostic)
  done

text \<open>An encoded snapshot is decoded, as a whole and without its applications.\<close>

lemma encoded_snapshot_decodes:
  assumes "fact_count s < 2 ^ 32" "proto_snapshot s = Ok v"
  shows "decode_snapshot v = Ok s \<longleftrightarrow> wire_snapshot s"
    and "decode_snapshot (v\<lparr>psn_applications := []\<rparr>) = Ok (s\<lparr>snap_applications := []\<rparr>)
      \<longleftrightarrow> wire_snapshot (s\<lparr>snap_applications := []\<rparr>)"
proof -
  have sources: "(\<forall>e\<in>set (snap_references s). ref_source e \<in> set (snap_occurrences s))"
      "(\<forall>e\<in>set (snap_calls s). call_source e \<in> set (snap_occurrences s))"
    using assms(2) proto_snapshot_encodes[of s] by blast+
  obtain T refs calls i1 i2 i3 i4 i5 i6 where parts: "v = assemble_snapshot s T refs calls i1 i2 i3 i4 i5 i6"
      "holds_at T 0 (snap_provenance s)"
      "list_all2 (holds_at T) i1 (map sym_provenance (snap_symbols s))"
      "list_all2 (holds_at T) i2 (map app_provenance (snap_applications s))"
      "list_all2 (holds_at T) i3 (map occ_provenance (snap_occurrences s))"
      "list_all2 (holds_at T) i4 (map hier_provenance (snap_hierarchy s))"
      "list_all2 (holds_at T) i5 (map ty_provenance (snap_types s))"
      "list_all2 (holds_at T) i6 (map diag_provenance (snap_diagnostics s))"
    and edges: "collect_results (\<lambda>e. and_then (occurrence_index (snap_occurrences s) (ref_source e)) (\<lambda>i.
        Ok (proto_reference e i))) (snap_references s) = Ok refs"
      "collect_results (\<lambda>e. and_then (occurrence_index (snap_occurrences s) (call_source e)) (\<lambda>i.
        Ok (proto_call e i))) (snap_calls s) = Ok calls"
    using proto_snapshot_parts[OF assms] by blast
  have few: "length (snap_occurrences s) < 2 ^ 32" using assms(1) by (simp add: fact_count_def)
  have relations: "collect_results (decode_reference (snap_occurrences s)) refs = Ok (snap_references s)"
      "collect_results (decode_call (snap_occurrences s)) calls = Ok (snap_calls s)"
    using edges_roundtrip[OF edges(1) decode_proto_reference[OF few]] edges_roundtrip[OF edges(2) decode_proto_call[OF few]]
    by blast+
  show "decode_snapshot v = Ok s \<longleftrightarrow> wire_snapshot s"
    unfolding parts(1) decode_snapshot_Ok Let_def assemble_simps fact_lists
    using relations sources parts(2)
    by (simp add: kinds_roundtrip parts wire_snapshot_def Let_def decode_proto_source_unit codec_simps)
  show "decode_snapshot (v\<lparr>psn_applications := []\<rparr>) = Ok (s\<lparr>snap_applications := []\<rparr>)
      \<longleftrightarrow> wire_snapshot (s\<lparr>snap_applications := []\<rparr>)"
    unfolding parts(1) decode_snapshot_Ok Let_def
    using relations sources parts(2)
    by (simp add: assemble_simps fact_lists kinds_roundtrip parts wire_snapshot_def Let_def decode_proto_source_unit codec_simps)
qed

lemma snapshot_roundtrip_lemma:
  assumes "fact_count s < 2 ^ 32"
  shows "(\<exists>v. proto_snapshot s = Ok v \<and> decode_snapshot v = Ok s) \<longleftrightarrow> wire_snapshot s"
  using encoded_snapshot_decodes(1)[OF assms] proto_snapshot_encodes[of s] by (auto simp: wire_snapshot_def Let_def)

section \<open>Digests\<close>

lemma hex_value_digit: "n < 16 \<Longrightarrow> hex_value (hex_digit n) = Some n"
  by (simp add: hex_value_def byte_hex_digit)

lemma nibbles: "byte b div 16 < 16" "byte b mod 16 < 16"
  using byte_bound[of b] by (simp_all only: less_mult_imp_div_less)

lemma from_hex_hex [codec_simps]: "from_hex (hex bs) = Some bs"
proof (induction bs)
  case (Cons b bs)
  have "hex (b # bs) = hex_digit (byte b div 16) # hex_digit (byte b mod 16) # hex bs"
    by (simp add: hex_Cons hex_byte_def)
  moreover have "char_of (16 * (byte b div 16) + byte b mod 16) = b" by simp
  ultimately show ?case using Cons by (simp add: hex_value_digit nibbles)
qed (simp add: hex_def)

definition lower_hex :: "char \<Rightarrow> bool" where
  "lower_hex c \<longleftrightarrow> 48 \<le> byte c \<and> byte c \<le> 57 \<or> 97 \<le> byte c \<and> byte c \<le> 102"

lemma lower_hex_digit:
  assumes "lower_hex c"
  shows "\<exists>n<16. c = hex_digit n \<and> hex_value c = Some n"
proof (cases "byte c \<le> 57")
  case True
  then have "hex_digit (byte c - 48) = c" "byte c - 48 < 16" using assms by (auto simp: lower_hex_def hex_digit_def)
  then show ?thesis using hex_value_digit by metis
next
  case False
  then have "hex_digit (byte c - 87) = c" "byte c - 87 < 16" using assms by (auto simp: lower_hex_def hex_digit_def)
  then show ?thesis using hex_value_digit by metis
qed

lemma hex_digit_lower: "n < 16 \<Longrightarrow> lower_hex (hex_digit n)"
  by (simp add: lower_hex_def byte_hex_digit)

lemma from_hex_lower:
  "(\<forall>c\<in>set ds. lower_hex c) \<Longrightarrow> even (length ds) \<Longrightarrow> \<exists>bs. from_hex ds = Some bs \<and> hex bs = ds \<and> 2 * length bs = length ds"
proof (induction ds rule: from_hex.induct)
  case (3 a b cs)
  obtain x y where xy: "x < 16" "a = hex_digit x" "hex_value a = Some x" "y < 16" "b = hex_digit y" "hex_value b = Some y"
    using 3 lower_hex_digit by (metis list.set_intros)
  obtain bs where bs: "from_hex cs = Some bs" "hex bs = cs" "2 * length bs = length cs" using 3 xy by auto
  have "16 * x + y < 256" using xy by simp
  then have "byte (char_of (16 * x + y)) = 16 * x + y" by simp
  then have "hex_byte (char_of (16 * x + y)) = [a, b]" using xy by (simp add: hex_byte_def)
  then show ?case using bs xy by (simp add: hex_Cons)
qed (auto simp: hex_def)

text \<open>The fingerprints a digest is written as: 64 lower-case hexadecimal digits behind the prefix.\<close>

definition wire_digest :: "fingerprint \<Rightarrow> bool" where
  "wire_digest f \<longleftrightarrow> (case strip_prefix ''sha256:'' (as_str f) of
     None \<Rightarrow> False | Some ds \<Rightarrow> length ds = 64 \<and> list_all lower_hex ds)"

lemma hex_length: "length (hex bs) = 2 * length bs"
  by (induction bs) (simp_all add: hex_def hex_byte_def)

lemma hex_lower: "c \<in> set (hex bs) \<Longrightarrow> lower_hex c"
proof (induction bs)
  case (Cons b bs)
  then show ?case by (auto simp: hex_Cons hex_byte_def hex_digit_lower nibbles)
qed (simp add: hex_def)

lemma digest_roundtrip:
  "(\<exists>bs. digest_bytes f = Ok bs \<and> digest_fingerprint bs = Ok f) \<longleftrightarrow> wire_digest f"
proof
  assume "\<exists>bs. digest_bytes f = Ok bs \<and> digest_fingerprint bs = Ok f"
  then obtain bs where bs: "length bs = 32" "f = Fingerprint (''sha256:'' @ hex bs)"
    by (auto simp: digest_fingerprint_def split: if_splits)
  then show "wire_digest f" using hex_lower by (auto simp: wire_digest_def list_all_iff hex_length)
next
  assume "wire_digest f"
  then obtain ds where ds: "as_str f = ''sha256:'' @ ds" "length ds = 64" "\<forall>c\<in>set ds. lower_hex c"
    by (auto simp: wire_digest_def strip_prefix_eq_Some list_all_iff split: option.splits)
  then obtain bs where bs: "from_hex ds = Some bs" "hex bs = ds" "length bs = 32" using from_hex_lower[of ds] by auto
  have "\<not> (\<exists>c\<in>set ds. hex_value c = None)" using ds(3) lower_hex_digit by fastforce
  then have "digest_bytes f = Ok bs" using ds(1,2) bs(1) by (simp add: digest_bytes_def)
  moreover have "digest_fingerprint bs = Ok f" using bs ds(1) by (simp add: digest_fingerprint_def ident.expand)
  ultimately show "\<exists>bs. digest_bytes f = Ok bs \<and> digest_fingerprint bs = Ok f" by blast
qed

section \<open>Messages\<close>

definition wire_capability :: "semantic_query_capability \<Rightarrow> bool" where
  "wire_capability c \<longleftrightarrow> sqc_name c \<noteq> [] \<and> sqc_version c \<noteq> 0"

lemma decode_proto_capability: "decode_capability (proto_capability c) = Ok c \<longleftrightarrow> wire_capability c"
proof -
  have "collect_results (\<lambda>p. and_then (decode_semantic_parameter_type (psp_type p)) (\<lambda>ty.
        Ok \<lparr> sqp_name = psp_name p, sqp_ty = ty, sqp_required = psp_required p \<rparr>)) (psc_parameters (proto_capability c))
      = Ok (sqc_parameters c)"
    by (simp add: proto_capability_def collect_results_iff codec_simps)
  then show ?thesis
    by (cases c) (auto simp: decode_capability_def wire_capability_def, auto simp: proto_capability_def codec_simps)
qed

lemma decode_proto_query_argument [codec_simps]: "decode_query_argument (proto_query_argument a) = Ok a"
  by (cases a; cases "sqa_value a") (simp_all add: decode_query_argument_def proto_query_argument_def)

lemma decode_proto_query_request [codec_simps]: "decode_query_request (proto_query_request r) = Ok r"
proof -
  have "decode_budget (proto_budget (sqr_budget r)) = sqr_budget r"
    by (cases "sqr_budget r") (simp add: decode_budget_def proto_budget_def)
  then show ?thesis by (cases r) (simp add: decode_query_request_def proto_query_request_def codec_simps)
qed

definition wire_capabilities :: "worker_capabilities \<Rightarrow> bool" where
  "wire_capabilities c \<longleftrightarrow> list_all wire_language (wc_languages c) \<and> list_all wire_capability (wc_semantic_query_capabilities c)"

lemma map_id_iff: "map f xs = xs \<longleftrightarrow> list_all (\<lambda>x. f x = x) xs"
  by (induction xs) auto

lemma decode_proto_handshake:
  "decode_handshake_response (proto_handshake_response r) = Ok r \<longleftrightarrow> wire_capabilities (hr_capabilities r)"
proof -
  obtain c where r: "r = \<lparr> hr_capabilities = c \<rparr>" by (cases r)
  have queries: "collect_results decode_capability (map proto_capability qs) = Ok qs \<longleftrightarrow> list_all wire_capability qs" for qs
    by (simp add: collect_results_iff decode_proto_capability list_all_iff)
  have languages: "map (decode_language \<circ> proto_language) ls = ls \<longleftrightarrow> list_all wire_language ls" for ls
    by (induction ls) (simp_all add: decode_proto_language)
  have capabilities: "collect_results decode_worker_capability (map worker_capability_name cs) = Ok cs" for cs
    by (simp add: collect_results_iff codec_simps)
  show ?thesis
    using queries[of "wc_semantic_query_capabilities c"]
    by (cases c; cases "wc_identity c")
      (auto simp: r decode_handshake_response_def proto_handshake_response_def Let_def wire_capabilities_def
        and_then_eq_Ok languages capabilities)
qed

definition wire_plan :: "opaque_execution_plan \<Rightarrow> bool" where
  "wire_plan p \<longleftrightarrow> ep_backend p \<noteq> [] \<and> as_str (ep_resolved_fingerprint p) \<noteq> []"

lemma decode_proto_plan: "decode_plan (proto_plan p) = Ok p \<longleftrightarrow> wire_plan p"
  by (cases p) (auto simp: decode_plan_def proto_plan_def wire_plan_def)

text \<open>
  A manifest spells its languages and build systems in their debug form: the names of the known
  ones come back, another one only if its debug form is its name.
\<close>

definition wire_component :: "(string \<Rightarrow> string) \<Rightarrow> component \<Rightarrow> bool" where
  "wire_component debug_other c \<longleftrightarrow>
     decode_build_system (debug_build_system debug_other (comp_build_system c)) = comp_build_system c
     \<and> list_all (\<lambda>l. decode_language (debug_language debug_other l) = l) (comp_languages c)"

lemma known_names_come_back:
  "\<forall>v. b \<noteq> OtherBuild v \<Longrightarrow> decode_build_system (debug_build_system debug_other b) = b"
  "\<forall>v. l \<noteq> OtherLanguage v \<Longrightarrow> decode_language (debug_language debug_other l) = l"
  by (cases b; simp add: decode_build_system_def) (cases l; simp add: decode_language_def)

lemma decode_proto_source_set [codec_simps]: "decode_source_set \<circ> proto_source_set = id"
proof
  show "(decode_source_set \<circ> proto_source_set) s = id s" for s
    by (cases s) (simp add: decode_source_set_def proto_source_set_def)
qed

lemma decode_proto_toolchain [codec_simps]: "decode_toolchain \<circ> proto_toolchain = id"
proof
  show "(decode_toolchain \<circ> proto_toolchain) t = id t" for t
    by (cases t) (simp add: decode_toolchain_def proto_toolchain_def)
qed

lemma decode_proto_component: "decode_component (proto_component d c) = c \<longleftrightarrow> wire_component d c"
proof -
  have languages: "map (decode_language \<circ> debug_language d) ls = ls
      \<longleftrightarrow> list_all (\<lambda>l. decode_language (debug_language d l) = l) ls" for ls
    by (induction ls) simp_all
  show ?thesis
    by (cases c) (simp add: decode_component_def proto_component_def wire_component_def languages codec_simps
        option.map_comp option.map_id)
qed

lemma decode_proto_dependency [codec_simps]: "decode_dependency (proto_dependency e) = Ok e"
  by (cases e; cases "dep_target e") (simp_all add: decode_dependency_def proto_dependency_def)

definition wire_manifest :: "(string \<Rightarrow> string) \<Rightarrow> project_manifest \<Rightarrow> bool" where
  "wire_manifest debug_other m \<longleftrightarrow> list_all (wire_component debug_other) (man_components m)"

lemma decode_proto_manifest: "decode_manifest (proto_manifest d m) = Ok m \<longleftrightarrow> wire_manifest d m"
proof -
  have "map decode_component (map (proto_component d) cs) = cs \<longleftrightarrow> list_all (wire_component d) cs" for cs
    by (induction cs) (simp_all add: decode_proto_component)
  then show ?thesis
    by (cases m) (simp add: decode_manifest_def proto_manifest_def wire_manifest_def codec_simps)
qed

lemma decode_proto_manifest_response:
  "decode_manifest_response (proto_manifest_response d r) = Ok r
     \<longleftrightarrow> wire_manifest d (mr_manifest r) \<and> wire_plan (mr_execution_plan r)"
  using decode_proto_manifest[of d "mr_manifest r"] decode_proto_plan[of "mr_execution_plan r"]
  by (cases r) (auto simp: decode_manifest_response_def proto_manifest_response_def and_then_eq_Ok)

lemma decode_proto_batch_request:
  "decode_batch_request (proto_batch_request r) = Ok r
     \<longleftrightarrow> list_all (\<lambda>u. wire_language (su_language u)) (bq_source_units r) \<and> wire_plan (bq_execution_plan r)"
proof -
  have "collect_results decode_source_unit (map proto_source_unit us) = Ok us
      \<longleftrightarrow> list_all (\<lambda>u. wire_language (su_language u)) us" for us
    by (simp add: collect_results_iff decode_proto_source_unit list_all_iff)
  then show ?thesis using decode_proto_plan[of "bq_execution_plan r"]
    by (cases r) (auto simp: decode_batch_request_def proto_batch_request_def and_then_eq_Ok codec_simps)
qed

lemma encode_then_decode: "(\<exists>v. and_then r (\<lambda>x. Ok (f x)) = Ok v \<and> d v = Ok y) \<longleftrightarrow> (\<exists>x. r = Ok x \<and> d (f x) = Ok y)"
  by (auto simp: and_then_eq_Ok)

lemma snapshots_roundtrip:
  assumes "\<forall>s\<in>set ss. fact_count s < 2 ^ 32"
  shows "(\<exists>vs. collect_results proto_snapshot ss = Ok vs \<and> collect_results decode_snapshot vs = Ok ss)
    \<longleftrightarrow> list_all wire_snapshot ss"
  using assms
proof (induction ss)
  case (Cons s ss)
  then show ?case using snapshot_roundtrip_lemma[of s] by (fastforce simp: and_then_eq_Ok)
qed simp

lemma decode_proto_timing [codec_simps]: "decode_timing \<circ> proto_timing = id"
proof
  show "(decode_timing \<circ> proto_timing) t = id t" for t
    by (cases t) (simp add: decode_timing_def proto_timing_def)
qed

lemma decode_proto_metric [codec_simps]: "decode_metric \<circ> proto_metric = id"
proof
  show "(decode_metric \<circ> proto_metric) m = id m" for m
    by (cases m) (simp add: decode_metric_def proto_metric_def)
qed

definition wire_candidate :: "artifact_candidate \<Rightarrow> bool" where
  "wire_candidate c \<longleftrightarrow> ac_locator c \<noteq> [] \<and> as_str (ac_component c) \<noteq> [] \<and> as_str (ac_context c) \<noteq> []"

lemma decode_proto_candidate: "decode_candidate (proto_candidate c) = Ok c \<longleftrightarrow> wire_candidate c"
  by (cases c) (auto simp: decode_candidate_def proto_candidate_def wire_candidate_def)

lemma batch_response_roundtrip:
  assumes "\<forall>s\<in>set (br_snapshots r). fact_count s < 2 ^ 32"
  shows "(\<exists>v. proto_batch_response r = Ok v \<and> decode_batch_response v = Ok r)
    \<longleftrightarrow> list_all wire_snapshot (br_snapshots r) \<and> list_all wire_candidate (br_artifact_candidates r)"
proof -
  have candidates: "collect_results decode_candidate (map proto_candidate cs) = Ok cs \<longleftrightarrow> list_all wire_candidate cs" for cs
    by (simp add: collect_results_iff decode_proto_candidate list_all_iff)
  show ?thesis
    using snapshots_roundtrip[OF assms] candidates[of "br_artifact_candidates r"]
    by (cases r) (auto simp: proto_batch_response_def decode_batch_response_def and_then_eq_Ok codec_simps)
qed

lemma delta_roundtrip:
  assumes "\<forall>s. da_snapshot d = Some s \<longrightarrow> fact_count s < 2 ^ 32"
  shows "(\<exists>v. proto_delta d = Ok v \<and> decode_delta v = Ok d)
    \<longleftrightarrow> (case da_snapshot d of None \<Rightarrow> True | Some s \<Rightarrow> wire_snapshot s)"
proof (cases "da_snapshot d")
  case None
  then show ?thesis by (cases d) (auto simp: proto_delta_def decode_delta_def transpose_def)
next
  case (Some s)
  then show ?thesis using snapshot_roundtrip_lemma[of s] assms
    by (cases d) (auto simp: proto_delta_def decode_delta_def transpose_def and_then_eq_Ok)
qed

lemma artifact_response_roundtrip:
  assumes "\<forall>s\<in>set (as_snapshots r). fact_count s < 2 ^ 32"
  shows "(\<exists>v. proto_artifact_response r = Ok v \<and> decode_artifact_response v = Ok r) \<longleftrightarrow> list_all wire_snapshot (as_snapshots r)"
  using snapshots_roundtrip[OF assms] unfolding proto_artifact_response_def encode_then_decode
  by (cases r) (auto simp: decode_artifact_response_def and_then_eq_Ok)

lemma query_response_roundtrip:
  assumes "\<forall>s\<in>set (resp_snapshots r). fact_count s < 2 ^ 32"
  shows "(\<exists>v. proto_query_response r = Ok v \<and> decode_query_response v = Ok r) \<longleftrightarrow> list_all wire_snapshot (resp_snapshots r)"
  using snapshots_roundtrip[OF assms]
  by (cases r) (auto simp: proto_query_response_def decode_query_response_def and_then_eq_Ok codec_simps)

lemma decode_proto_artifact_request:
  "decode_artifact_request (proto_artifact_request r) = Ok r \<longleftrightarrow> aq_max_artifacts r \<noteq> 0"
  by (cases r) (simp add: decode_artifact_request_def proto_artifact_request_def)

lemma decode_proto_discovery_request:
  "decode_discovery_request (proto_discovery_request r) = Ok r \<longleftrightarrow> wire_plan (dq_execution_plan r)"
  using decode_proto_plan[of "dq_execution_plan r"]
  by (cases r) (auto simp: decode_discovery_request_def proto_discovery_request_def and_then_eq_Ok)

text \<open>
  A descriptor loses what its identity repeats: an identity comes back if it has an ecosystem and
  repeats the contents, context, provenance and versions of the descriptor.
\<close>

definition wire_descriptor :: "artifact_descriptor \<Rightarrow> bool" where
  "wire_descriptor d \<longleftrightarrow> wire_language (su_language (ad_source_unit d))
     \<and> (case ad_resolved_identity d of None \<Rightarrow> True
        | Some i \<Rightarrow> di_ecosystem i \<noteq> [] \<and> i = identity_new (di_ecosystem i) (di_canonical_coordinate i) (di_resolved_version i)
            (su_content (ad_source_unit d)) (su_context (ad_source_unit d)) (ad_provenance d) ARTIFACT_BLOB_FORMAT_VERSION)"

lemma decode_proto_locator [codec_simps]: "decode_locator \<circ> proto_locator = id"
proof
  show "(decode_locator \<circ> proto_locator) l = id l" for l
    by (cases l) (simp add: decode_locator_def proto_locator_def)
qed

lemma decode_proto_descriptor: "decode_descriptor (proto_descriptor d) = Ok d \<longleftrightarrow> wire_descriptor d"
proof (cases d)
  case (fields u p identity locators)
  obtain i c path l x f g where u: "u = \<lparr> su_id = i, su_component = c, su_path = path, su_language = l, su_origin = x,
      su_content = f, su_context = g \<rparr>" by (cases u)
  obtain b bv v opt where p: "p = \<lparr> prov_backend = b, prov_backend_version = bv, prov_protocol_version = v,
      prov_analysis_options = opt \<rparr>" by (cases p)
  show ?thesis
  proof (cases identity)
    case None
    then show ?thesis
      by (simp add: fields u p decode_descriptor_def proto_descriptor_def wire_descriptor_def Let_def codec_simps
          decode_proto_language)
  next
    case (Some di)
    then show ?thesis
      by (auto simp add: fields u p decode_descriptor_def proto_descriptor_def wire_descriptor_def Let_def codec_simps
          decode_proto_language)
  qed
qed

lemma decode_proto_discovery_response:
  "decode_discovery_response (proto_discovery_response r) = Ok r \<longleftrightarrow> list_all wire_descriptor (dr_artifacts r)"
proof -
  have locators: "map ((\<lambda>l. \<lparr> al_source_unit = SourceUnitId (pal_source_unit_id l), al_locator = pal_locator l \<rparr>)
      \<circ> (\<lambda>l. \<lparr> pal_source_unit_id = as_str (al_source_unit l), pal_locator = al_locator l \<rparr>)) ls = ls" for ls
    by (induction ls) simp_all
  have "collect_results decode_descriptor (map proto_descriptor ds) = Ok ds \<longleftrightarrow> list_all wire_descriptor ds" for ds
    by (simp add: collect_results_iff decode_proto_descriptor list_all_iff)
  then show ?thesis
    by (cases r) (auto simp: decode_discovery_response_def proto_discovery_response_def and_then_eq_Ok locators)
qed

definition wire_materialization_request :: "artifact_materialization_request \<Rightarrow> bool" where
  "wire_materialization_request r \<longleftrightarrow> wire_descriptor (xq_artifact r) \<and> xq_staging_directory r \<noteq> [] \<and> xq_blob_format_version r \<noteq> 0"

lemma decode_proto_materialization_request:
  "decode_materialization_request (proto_materialization_request r) = Ok r \<longleftrightarrow> wire_materialization_request r"
  using decode_proto_descriptor[of "xq_artifact r"]
  by (cases r) (auto simp: decode_materialization_request_def proto_materialization_request_def
      wire_materialization_request_def and_then_eq_Ok)

definition wire_materialization_response :: "artifact_materialization_response \<Rightarrow> bool" where
  "wire_materialization_response r \<longleftrightarrow>
     xr_staged_filename r \<noteq> [] \<and> xr_byte_length r \<noteq> 0 \<and> xr_blob_format_version r \<noteq> 0 \<and> wire_digest (xr_sha256 r)"

lemma materialization_response_roundtrip:
  "(\<exists>v. proto_materialization_response r = Ok v \<and> decode_materialization_response v = Ok r) \<longleftrightarrow> wire_materialization_response r"
proof (cases "xr_staged_filename r = [] \<or> xr_byte_length r = 0 \<or> xr_blob_format_version r = 0")
  case True
  then show ?thesis by (auto simp: proto_materialization_response_def wire_materialization_response_def)
next
  case False
  then have valid: "xr_staged_filename r \<noteq> []" "xr_byte_length r \<noteq> 0" "xr_blob_format_version r \<noteq> 0" by simp_all
  show ?thesis
    unfolding proto_materialization_response_def if_not_P[OF False] encode_then_decode
    using digest_roundtrip[of "xr_sha256 r"] valid
    by (cases r) (auto simp: decode_materialization_response_def wire_materialization_response_def and_then_eq_Ok codec_simps)
qed

lemma decode_proto_error [codec_simps]: "decode_error (proto_error e) = Ok e"
  by (cases e) (simp add: decode_error_def proto_error_def codec_simps)

section \<open>Envelopes\<close>

fun wire_message :: "(string \<Rightarrow> string) \<Rightarrow> worker_message \<Rightarrow> bool" where
  "wire_message debug_other (MsgHandshakeRequest r) = True"
| "wire_message debug_other (MsgHandshakeResponse r) = wire_capabilities (hr_capabilities r)"
| "wire_message debug_other (MsgProjectManifestRequest r) = True"
| "wire_message debug_other (MsgProjectManifestResponse r) =
     (wire_manifest debug_other (mr_manifest r) \<and> wire_plan (mr_execution_plan r))"
| "wire_message debug_other (MsgAnalyzeBatchRequest r) =
     (list_all (\<lambda>u. wire_language (su_language u)) (bq_source_units r) \<and> wire_plan (bq_execution_plan r))"
| "wire_message debug_other (MsgAnalysisBatchResponse r) =
     (list_all wire_snapshot (br_snapshots r) \<and> list_all wire_candidate (br_artifact_candidates r))"
| "wire_message debug_other (MsgArtifactAnalysisRequest r) = (aq_max_artifacts r \<noteq> 0)"
| "wire_message debug_other (MsgArtifactAnalysisResponse r) = list_all wire_snapshot (as_snapshots r)"
| "wire_message debug_other (MsgArtifactDiscoveryRequest r) = wire_plan (dq_execution_plan r)"
| "wire_message debug_other (MsgArtifactDiscoveryResponse r) = list_all wire_descriptor (dr_artifacts r)"
| "wire_message debug_other (MsgArtifactMaterializationRequest r) = wire_materialization_request r"
| "wire_message debug_other (MsgArtifactMaterializationResponse r) = wire_materialization_response r"
| "wire_message debug_other (MsgSemanticQueryRequest r) = True"
| "wire_message debug_other (MsgSemanticQueryResponse r) = list_all wire_snapshot (resp_snapshots r)"
| "wire_message debug_other (MsgAnalysisDelta d) = (case da_snapshot d of None \<Rightarrow> True | Some s \<Rightarrow> wire_snapshot s)"
| "wire_message debug_other (MsgError e) = True"

text \<open>The snapshots a message carries.\<close>

fun message_snapshots :: "worker_message \<Rightarrow> file_analysis_snapshot list" where
  "message_snapshots (MsgAnalysisBatchResponse r) = br_snapshots r"
| "message_snapshots (MsgArtifactAnalysisResponse r) = as_snapshots r"
| "message_snapshots (MsgSemanticQueryResponse r) = resp_snapshots r"
| "message_snapshots (MsgAnalysisDelta d) = (case da_snapshot d of None \<Rightarrow> [] | Some s \<Rightarrow> [s])"
| "message_snapshots m = []"

lemma message_roundtrip:
  assumes "\<forall>s\<in>set (message_snapshots m). fact_count s < 2 ^ 32"
  shows "(\<exists>p. proto_message d m = Ok p \<and> decode_message p = Ok m) \<longleftrightarrow> wire_message d m"
proof (cases m)
  case (MsgHandshakeRequest r)
  then show ?thesis by (cases r) simp
next
  case (MsgProjectManifestRequest r)
  then show ?thesis by (cases r) simp
next
  case (MsgAnalysisBatchResponse r)
  then show ?thesis using batch_response_roundtrip[of r] assms by (auto simp: encode_then_decode and_then_eq_Ok)
next
  case (MsgArtifactAnalysisResponse r)
  then show ?thesis using artifact_response_roundtrip[of r] assms by (auto simp: encode_then_decode and_then_eq_Ok)
next
  case (MsgSemanticQueryResponse r)
  then show ?thesis using query_response_roundtrip[of r] assms by (auto simp: encode_then_decode and_then_eq_Ok)
next
  case (MsgAnalysisDelta x)
  then show ?thesis using delta_roundtrip[of x] assms by (auto simp: encode_then_decode and_then_eq_Ok split: option.splits)
next
  case (MsgArtifactMaterializationResponse r)
  then show ?thesis using materialization_response_roundtrip[of r] by (auto simp: encode_then_decode and_then_eq_Ok)
qed (simp_all add: codec_simps and_then_eq_Ok decode_proto_handshake decode_proto_manifest_response decode_proto_batch_request
    decode_proto_artifact_request decode_proto_discovery_request decode_proto_discovery_response
    decode_proto_materialization_request)

text \<open>
  C5. The worker transport loses nothing but what \<open>wire_message\<close> names: an envelope can be encoded
  and comes back unchanged exactly when its message satisfies that condition. It excludes an
  occurrence of kind \<open>TypeReference\<close>, an empty list as an annotation value, other languages or build
  systems, facts and identities that disagree with what contains them, and empty metadata.
\<close>

theorem envelope_roundtrip_exact:
  assumes "\<forall>s\<in>set (message_snapshots (env_message e)). fact_count s < 2 ^ 32"
  shows "(\<exists>p. proto_envelope debug_other e = Ok p \<and> decode_envelope p = Ok e) \<longleftrightarrow> wire_message debug_other (env_message e)"
  using message_roundtrip[OF assms, of debug_other] unfolding proto_envelope_def encode_then_decode
  by (cases e) (auto simp: decode_envelope_def and_then_eq_Ok)

definition sample_type_occurrence :: source_occurrence where
  "sample_type_occurrence =
     \<lparr> occ_range = sample_range ''a'' 3 7, occ_kind = OTypeReference, occ_enclosing_symbol = None, occ_target = None,
       occ_type_id = None, occ_precision = Exact, occ_freshness = Fresh, occ_completeness = Complete,
       occ_provenance = sample_provenance ''1'' \<rparr>"

definition sample_delta :: "source_occurrence list \<Rightarrow> worker_envelope" where
  "sample_delta occurrences = new_envelope ''d1'' (MsgAnalysisDelta
     \<lparr> da_source_unit = SourceUnitId ''a'', da_previous_content = None,
       da_snapshot = Some ((sample_snapshot ''a'' ''1'' [sample_symbol ''a'' ''s'' ''run''])
         \<lparr>snap_occurrences := occurrences\<rparr>) \<rparr>)"

theorem envelope_roundtrip_exact_witness:
  "(\<exists>p. proto_envelope id (sample_delta [sample_type_occurrence\<lparr>occ_kind := OCall\<rparr>]) = Ok p
      \<and> decode_envelope p = Ok (sample_delta [sample_type_occurrence\<lparr>occ_kind := OCall\<rparr>]))
   \<and> \<not> (\<exists>p. proto_envelope id (sample_delta [sample_type_occurrence]) = Ok p
      \<and> decode_envelope p = Ok (sample_delta [sample_type_occurrence]))"
proof -
  have count: "\<forall>s\<in>set (message_snapshots (env_message (sample_delta os))). fact_count s < 2 ^ 32" if "length os = 1" for os
    using that by (simp add: sample_delta_def new_envelope_def sample_snapshot_def fact_count_def)
  have "wire_message id (env_message (sample_delta [sample_type_occurrence\<lparr>occ_kind := OCall\<rparr>]))"
      "\<not> wire_message id (env_message (sample_delta [sample_type_occurrence]))"
    by code_simp+
  then show ?thesis
    using envelope_roundtrip_exact[OF count, of "[sample_type_occurrence\<lparr>occ_kind := OCall\<rparr>]" id]
      envelope_roundtrip_exact[OF count, of "[sample_type_occurrence]" id] by simp
qed

section \<open>What a decoded snapshot guarantees\<close>

text \<open>
  Everything a decoded snapshot says belongs to its source unit: the ranges lie in it, the sources of
  the relations are among the occurrences, backend keys are keys of the backend in the provenance,
  and every provenance is one of the table.
\<close>

definition owned_snapshot :: "provenance list \<Rightarrow> file_analysis_snapshot \<Rightarrow> bool" where
  "owned_snapshot T s \<longleftrightarrow>
     (let u = su_id (snap_source_unit s)
      in snap_provenance s \<in> set T
       \<and> (\<forall>x\<in>set (snap_symbols s). sr_unit (sym_declaration x) = u \<and> sr_unit (sym_name_range x) = u
            \<and> bk_backend (sym_backend_key x) = prov_backend (sym_provenance x) \<and> sym_provenance x \<in> set T)
       \<and> (\<forall>x\<in>set (snap_applications s). sr_unit (app_range x) = u \<and> app_provenance x \<in> set T)
       \<and> (\<forall>x\<in>set (snap_occurrences s). sr_unit (occ_range x) = u \<and> occ_provenance x \<in> set T)
       \<and> (\<forall>e\<in>set (snap_references s). ref_source e \<in> set (snap_occurrences s))
       \<and> (\<forall>e\<in>set (snap_calls s). call_source e \<in> set (snap_occurrences s))
       \<and> (\<forall>e\<in>set (snap_hierarchy s). hier_provenance e \<in> set T)
       \<and> (\<forall>t\<in>set (snap_types s). ty_provenance t \<in> set T
            \<and> (\<forall>k. ty_backend_key t = Some k \<longrightarrow> bk_backend k = prov_backend (ty_provenance t)))
       \<and> (\<forall>d\<in>set (snap_diagnostics s). diag_source_unit d = u \<and> diag_provenance d \<in> set T))"

lemma with_provenance_Ok:
  "with_provenance T field index decode x = Ok y \<longleftrightarrow> (\<exists>p. holds_at T (index x) p \<and> decode p x = Ok y)"
  by (auto simp: with_provenance_def and_then_eq_Ok indexed_provenance_Ok)

lemma holds_at_mem: "holds_at T i p \<Longrightarrow> p \<in> set T"
  by (auto simp: holds_at_def)

lemma decoded_facts:
  "decode_symbol_declaration u p x = Ok s \<Longrightarrow> sr_unit (sym_declaration s) = su_id u \<and> sr_unit (sym_name_range s) = su_id u
     \<and> bk_backend (sym_backend_key s) = prov_backend p \<and> sym_provenance s = p"
  "decode_application u p a = Ok f \<Longrightarrow> sr_unit (app_range f) = su_id u \<and> app_provenance f = p"
  "decode_occurrence u p y = Ok occ \<Longrightarrow> sr_unit (occ_range occ) = su_id u \<and> occ_provenance occ = p"
  "decode_hierarchy p h = Ok e \<Longrightarrow> hier_provenance e = p"
  "decode_type p t = Ok r \<Longrightarrow> ty_provenance r = p \<and> (\<forall>k. ty_backend_key r = Some k \<longrightarrow> bk_backend k = prov_backend p)"
  "decode_diagnostic u p d = Ok g \<Longrightarrow> diag_source_unit g = su_id u \<and> diag_provenance g = p"
  by (auto simp: decode_symbol_declaration_def decode_application_def decode_occurrence_def decode_hierarchy_def decode_type_def
      decode_diagnostic_def range_in_def and_then_eq_Ok split: if_splits)

lemma decoded_edges:
  "decode_reference occurrences x = Ok r \<Longrightarrow> ref_source r \<in> set occurrences"
  "decode_call occurrences y = Ok c \<Longrightarrow> call_source c \<in> set occurrences"
  by (auto simp: decode_reference_def decode_call_def occurrence_at_def and_then_eq_Ok ok_or_eq_Ok split: if_splits)

lemma decoded_from_table:
  assumes "collect_results (with_provenance T field index decode) xs = Ok ys" "y \<in> set ys"
    and "\<And>p x y. decode p x = Ok y \<Longrightarrow> prov y = p"
  shows "\<exists>i x. holds_at T i (prov y) \<and> decode (prov y) x = Ok y"
  using collect_results_mem[OF assms(1,2)] assms(3) by (auto simp: with_provenance_Ok)

lemma decoded_snapshot_owned:
  assumes "decode_snapshot v = Ok s"
  shows "owned_snapshot (map decode_provenance (psn_provenances v)) s"
proof -
  define T where "T = map decode_provenance (psn_provenances v)"
  note parts = assms[unfolded decode_snapshot_Ok Let_def, folded T_def]
  note mem = decoded_from_table[where T = T]
  have symbols: "sr_unit (sym_declaration x) = su_id (snap_source_unit s) \<and> sr_unit (sym_name_range x) = su_id (snap_source_unit s)
      \<and> bk_backend (sym_backend_key x) = prov_backend (sym_provenance x) \<and> sym_provenance x \<in> set T"
    if "x \<in> set (snap_symbols s)" for x
    using mem[where prov = sym_provenance and decode = "decode_symbol_declaration (snap_source_unit s)"] parts that decoded_facts(1) holds_at_mem
    by blast
  have applications: "sr_unit (app_range x) = su_id (snap_source_unit s) \<and> app_provenance x \<in> set T"
    if "x \<in> set (snap_applications s)" for x
    using mem[where prov = app_provenance and decode = "decode_application (snap_source_unit s)"] parts that decoded_facts(2) holds_at_mem
    by blast
  have occurrences: "sr_unit (occ_range x) = su_id (snap_source_unit s) \<and> occ_provenance x \<in> set T"
    if "x \<in> set (snap_occurrences s)" for x
    using mem[where prov = occ_provenance and decode = "decode_occurrence (snap_source_unit s)"] parts that decoded_facts(3) holds_at_mem
    by blast
  have hierarchy: "hier_provenance x \<in> set T" if "x \<in> set (snap_hierarchy s)" for x
    using mem[where prov = hier_provenance and decode = decode_hierarchy] parts that decoded_facts(4) holds_at_mem by blast
  have types: "ty_provenance x \<in> set T \<and> (\<forall>k. ty_backend_key x = Some k \<longrightarrow> bk_backend k = prov_backend (ty_provenance x))"
    if "x \<in> set (snap_types s)" for x
    using mem[where prov = ty_provenance and decode = decode_type] parts that decoded_facts(5) holds_at_mem by blast
  have diagnostics: "diag_source_unit x = su_id (snap_source_unit s) \<and> diag_provenance x \<in> set T"
    if "x \<in> set (snap_diagnostics s)" for x
    using mem[where prov = diag_provenance and decode = "decode_diagnostic (snap_source_unit s)"] parts that decoded_facts(6) holds_at_mem
    by blast
  have edges: "collect_results (decode_reference (snap_occurrences s)) (psn_references v) = Ok (snap_references s)"
      "collect_results (decode_call (snap_occurrences s)) (psn_calls v) = Ok (snap_calls s)" using parts by simp_all
  have references: "ref_source e \<in> set (snap_occurrences s)" if "e \<in> set (snap_references s)" for e
    using collect_results_mem[OF edges(1) that] decoded_edges(1) by blast
  have calls: "call_source e \<in> set (snap_occurrences s)" if "e \<in> set (snap_calls s)" for e
    using collect_results_mem[OF edges(2) that] decoded_edges(2) by blast
  have "snap_provenance s \<in> set T" using parts holds_at_mem by blast
  then show ?thesis
    unfolding owned_snapshot_def Let_def T_def[symmetric]
    using symbols applications occurrences hierarchy types diagnostics references calls by blast
qed

end
