(* ===== verification/Transport.thy ===== *)
theory Transport
  imports Worker_Codec Supervisor Store_Snapshots
begin

text \<open>
  The worker transport as a whole: canonical messages through the protobuf adapter and the frames to
  the other side, and what reaches the store. The body codec of the protobuf library stays a parameter.
\<close>

section \<open>From message to message\<close>

text \<open>The adapter the supervisor and its reader thread use.\<close>

definition wire_adapter :: "(string \<Rightarrow> string) \<Rightarrow> p_envelope adapter" where
  "wire_adapter debug_other =
     \<lparr> to_proto = (\<lambda>e. case proto_envelope debug_other e of Inl _ \<Rightarrow> None | Inr p \<Rightarrow> Some p),
       of_proto = (\<lambda>p. case decode_envelope p of Inl _ \<Rightarrow> None | Inr e \<Rightarrow> Some e) \<rparr>"

lemma wire_adapter_simps:
  "to_proto (wire_adapter d) e = Some p \<longleftrightarrow> proto_envelope d e = Ok p"
  "of_proto (wire_adapter d) p = Some e \<longleftrightarrow> decode_envelope p = Ok e"
  by (auto simp: wire_adapter_def split: sum.splits)

definition small_message :: "worker_envelope \<Rightarrow> bool" where
  "small_message e \<longleftrightarrow> list_all (\<lambda>s. fact_count s < 2 ^ 32) (message_snapshots (env_message e))"

text \<open>
  C6. The whole transport is lossless: envelopes whose messages satisfy \<open>wire_message\<close> are encoded,
  framed and written one after the other, and the reader on the other side receives exactly these
  envelopes, in order, and then the clean end of the stream, provided that the protobuf library
  decodes the bytes it encoded for them.
\<close>

theorem transport_end_to_end:
  assumes "\<forall>e\<in>set es. wire_message debug_other (env_message e) \<and> small_message e"
    and "\<forall>e\<in>set es. \<forall>p. proto_envelope debug_other e = Ok p \<longrightarrow> dec (enc p) = Some p \<and> length (enc p) < 2 ^ 63"
  shows "\<exists>ps. collect_results (proto_envelope debug_other) es = Ok ps
    \<and> read_frames (Suc (length es)) dec (concat (map (encode_frame enc) ps)) = (ps, Some (Ok ()))
    \<and> collect_results decode_envelope ps = Ok es"
proof -
  have "\<exists>p. proto_envelope debug_other e = Ok p \<and> decode_envelope p = Ok e" if "e \<in> set es" for e
    using message_roundtrip[of "env_message e" debug_other] assms(1) that unfolding proto_envelope_def encode_then_decode
    by (cases e) (auto simp: decode_envelope_def and_then_eq_Ok small_message_def list_all_iff)
  then obtain f where f: "\<And>e. e \<in> set es \<Longrightarrow> proto_envelope debug_other e = Ok (f e) \<and> decode_envelope (f e) = Ok e"
    by metis
  have "collect_results (proto_envelope debug_other) es = Ok (map f es)" using f by (simp add: collect_results_total)
  moreover have "collect_results decode_envelope (map f es) = Ok es" using f by (simp add: collect_results_iff)
  moreover have "read_frames (Suc (length (map f es))) dec (concat (map (encode_frame enc) (map f es))) = (map f es, Some (Ok ()))"
    by (rule read_stream_lemma) (use f assms(2) in auto)
  ultimately show ?thesis by (intro exI[of _ "map f es"]) simp
qed

theorem transport_end_to_end_witness:
  "\<exists>ps. collect_results (proto_envelope id) [sample_request ''h1'', sample_response ''h1''] = Ok ps
    \<and> read_frames 3 (\<lambda>s. if s = ''q'' then Some (hd ps) else Some (ps ! 1)) (concat (map (encode_frame
        (\<lambda>p. if p = hd ps then ''q'' else ''r'')) ps)) = (ps, Some (Ok ()))
    \<and> collect_results decode_envelope ps = Ok [sample_request ''h1'', sample_response ''h1'']"
proof -
  define q where "q = \<lparr> pen_protocol_version = 3, pen_request_id = ''h1'',
    pen_message = Some (PHandshakeRequest \<lparr> phq_core_version = ''0.1.0'' \<rparr>) \<rparr>"
  define r where "r = \<lparr> pen_protocol_version = 3, pen_request_id = ''h1'',
    pen_message = Some (PHandshakeResponse \<lparr> phr_backend = ''jvm'', phr_backend_version = ''1'', phr_protocol_version = 3,
      phr_capabilities = [''handshake''], phr_languages = [], phr_semantic_query_capabilities = [] \<rparr>) \<rparr>"
  have q: "proto_envelope id (sample_request ''h1'') = Ok q"
    by (simp add: proto_envelope_def sample_request_def new_envelope_def q_def WORKER_PROTOCOL_VERSION_def)
  have r: "proto_envelope id (sample_response ''h1'') = Ok r"
    by (simp add: proto_envelope_def sample_response_def new_envelope_def r_def WORKER_PROTOCOL_VERSION_def
        proto_handshake_response_def sample_capabilities_def)
  have qr: "q \<noteq> r" by (simp add: q_def r_def)
  let ?dec = "\<lambda>s. if s = ''q'' then Some q else Some r" and ?enc = "\<lambda>p. if p = q then ''q'' else ''r''"
  have "\<exists>ps. collect_results (proto_envelope id) [sample_request ''h1'', sample_response ''h1''] = Ok ps
    \<and> read_frames (Suc (length [sample_request ''h1'', sample_response ''h1''])) ?dec (concat (map (encode_frame ?enc) ps))
        = (ps, Some (Ok ()))
    \<and> collect_results decode_envelope ps = Ok [sample_request ''h1'', sample_response ''h1'']"
  proof (rule transport_end_to_end)
    show "\<forall>e\<in>set [sample_request ''h1'', sample_response ''h1'']. wire_message id (env_message e) \<and> small_message e"
      by (simp add: sample_request_def sample_response_def new_envelope_def small_message_def wire_capabilities_def
          sample_capabilities_def)
    show "\<forall>e\<in>set [sample_request ''h1'', sample_response ''h1'']. \<forall>p. proto_envelope id e = Ok p
        \<longrightarrow> ?dec (?enc p) = Some p \<and> length (?enc p) < 2 ^ 63"
      using q r qr by auto
  qed
  then obtain ps where ps: "collect_results (proto_envelope id) [sample_request ''h1'', sample_response ''h1''] = Ok ps"
      "read_frames 3 ?dec (concat (map (encode_frame ?enc) ps)) = (ps, Some (Ok ()))"
      "collect_results decode_envelope ps = Ok [sample_request ''h1'', sample_response ''h1'']"
    by (auto simp: numeral_3_eq_3)
  have "ps = [q, r]" using ps(1) q r by simp
  then show ?thesis using ps by (intro exI[of _ ps]) (simp only: list.sel nth_Cons_Suc One_nat_def nth_Cons_0 simp_thms)
qed

section \<open>From the worker to the store\<close>

lemma request_decoded:
  assumes "request_with_timeout A w e t s = (Inr resp, s')"
  shows "\<exists>p. of_proto A p = Some resp"
  using assms by (cases rule: request_Ok) (auto simp: exchange_Ok)

definition ordered :: "byte_range \<Rightarrow> bool" where
  "ordered r \<longleftrightarrow> br_start r \<le> br_end r"

definition current :: "provenance \<Rightarrow> bool" where
  "current p \<longleftrightarrow> prov_protocol_version p = WORKER_PROTOCOL_VERSION"

text \<open>What is left for the store to check in a snapshot whose facts are owned.\<close>

definition ranges_ordered :: "file_analysis_snapshot \<Rightarrow> bool" where
  "ranges_ordered s \<longleftrightarrow>
     (\<forall>x\<in>set (snap_symbols s). ordered (sr_bytes (sym_declaration x)) \<and> ordered (sr_bytes (sym_name_range x)))
     \<and> (\<forall>x\<in>set (snap_applications s). ordered (sr_bytes (app_range x)))
     \<and> (\<forall>x\<in>set (snap_occurrences s). ordered (sr_bytes (occ_range x)))
     \<and> (\<forall>d\<in>set (snap_diagnostics s). case diag_range d of None \<Rightarrow> True | Some r \<Rightarrow> ordered r)"

definition versions_current :: "file_analysis_snapshot \<Rightarrow> bool" where
  "versions_current s \<longleftrightarrow> current (snap_provenance s)
     \<and> (\<forall>x\<in>set (snap_symbols s). current (sym_provenance x)) \<and> (\<forall>x\<in>set (snap_applications s). current (app_provenance x))
     \<and> (\<forall>x\<in>set (snap_occurrences s). current (occ_provenance x)) \<and> (\<forall>e\<in>set (snap_hierarchy s). current (hier_provenance e))
     \<and> (\<forall>t\<in>set (snap_types s). current (ty_provenance t)) \<and> (\<forall>d\<in>set (snap_diagnostics s). current (diag_provenance d))"

lemma validate_provenance_current: "validate_provenance p = Ok u \<longleftrightarrow> current p"
  by (simp add: validate_provenance_def current_def)

lemma validate_range_ordered: "validate_range k r = Ok u \<longleftrightarrow> ordered r"
  by (simp add: validate_range_def ordered_def)

lemma ensure_fact_source_Ok: "ensure_fact_source k (as_str i) j = Ok u \<longleftrightarrow> j = i"
  by (auto simp: ensure_fact_source_def as_str_inject)

lemma validate_owned:
  assumes "owned_snapshot T s"
  shows "validate_snapshot u s = Ok () \<longleftrightarrow> su_id (snap_source_unit s) = su_id u
    \<and> su_content (snap_source_unit s) = su_content u \<and> su_context (snap_source_unit s) = su_context u
    \<and> ranges_ordered s \<and> versions_current s"
proof (cases "su_id (snap_source_unit s) = su_id u \<and> su_content (snap_source_unit s) = su_content u
    \<and> su_context (snap_source_unit s) = su_context u")
  case False
  then show ?thesis by (auto simp: validate_snapshot_def)
next
  case True
  have occurrences: "validate_occurrence (as_str (su_id u)) x = Ok () \<longleftrightarrow> current (occ_provenance x) \<and> ordered (sr_bytes (occ_range x))"
    if "x \<in> set (snap_occurrences s)" for x
    using assms that True
    by (auto simp: owned_snapshot_def Let_def validate_occurrence_def and_then_eq_Ok validate_provenance_current
        validate_range_ordered ensure_fact_source_Ok)
  have symbols: "validate_symbol (as_str (su_id u)) x = Ok () \<longleftrightarrow> current (sym_provenance x)
      \<and> ordered (sr_bytes (sym_declaration x)) \<and> ordered (sr_bytes (sym_name_range x))" if "x \<in> set (snap_symbols s)" for x
    using assms that True
    by (auto simp: owned_snapshot_def Let_def validate_symbol_def and_then_eq_Ok validate_provenance_current
        validate_range_ordered ensure_fact_source_Ok)
  have applications: "validate_application (as_str (su_id u)) x = Ok () \<longleftrightarrow> current (app_provenance x)
      \<and> ordered (sr_bytes (app_range x))" if "x \<in> set (snap_applications s)" for x
    using assms that True
    by (auto simp: owned_snapshot_def Let_def validate_application_def and_then_eq_Ok validate_provenance_current
        validate_range_ordered ensure_fact_source_Ok)
  have diagnostics: "validate_diagnostic (as_str (su_id u)) d = Ok () \<longleftrightarrow> current (diag_provenance d)
      \<and> (case diag_range d of None \<Rightarrow> True | Some r \<Rightarrow> ordered r)" if "d \<in> set (snap_diagnostics s)" for d
    using assms that True
    by (auto simp: owned_snapshot_def Let_def validate_diagnostic_def and_then_eq_Ok validate_provenance_current
        validate_range_ordered ensure_fact_source_Ok split: option.splits)
  have relations: "\<forall>e\<in>set (snap_references s). ref_source e \<in> set (snap_occurrences s)"
      "\<forall>e\<in>set (snap_calls s). call_source e \<in> set (snap_occurrences s)"
    using assms by (simp_all add: owned_snapshot_def Let_def)
  have "validate_snapshot u s = Ok () \<longleftrightarrow> current (snap_provenance s)
      \<and> (\<forall>x\<in>set (snap_symbols s). validate_symbol (as_str (su_id u)) x = Ok ())
      \<and> (\<forall>x\<in>set (snap_applications s). validate_application (as_str (su_id u)) x = Ok ())
      \<and> (\<forall>x\<in>set (snap_occurrences s). validate_occurrence (as_str (su_id u)) x = Ok ())
      \<and> (\<forall>e\<in>set (snap_references s). validate_occurrence (as_str (su_id u)) (ref_source e) = Ok ())
      \<and> (\<forall>e\<in>set (snap_calls s). validate_occurrence (as_str (su_id u)) (call_source e) = Ok ())
      \<and> (\<forall>e\<in>set (snap_hierarchy s). current (hier_provenance e)) \<and> (\<forall>t\<in>set (snap_types s). current (ty_provenance t))
      \<and> (\<forall>d\<in>set (snap_diagnostics s). validate_diagnostic (as_str (su_id u)) d = Ok ())"
    using True by (simp add: validate_snapshot_def Let_def and_then_eq_Ok check_all_Ok validate_provenance_current)
  also have "\<dots> \<longleftrightarrow> ranges_ordered s \<and> versions_current s"
    (is "?valid \<longleftrightarrow> _")
  proof
    assume valid: ?valid
    then show "ranges_ordered s \<and> versions_current s"
      unfolding ranges_ordered_def versions_current_def
      by (intro conjI ballI) (simp_all add: occurrences symbols applications diagnostics)
  next
    assume "ranges_ordered s \<and> versions_current s"
    then show ?valid
      using relations unfolding ranges_ordered_def versions_current_def
      by (intro conjI ballI) (simp_all add: occurrences symbols applications diagnostics)
  qed
  finally show ?thesis using True by blast
qed

lemma decoded_message_snapshots:
  assumes "decode_message p = Ok m" "s \<in> set (message_snapshots m)"
  shows "\<exists>v. decode_snapshot v = Ok s"
  using assms
  by (cases p) (auto simp: and_then_eq_Ok decode_batch_response_def decode_artifact_response_def decode_query_response_def
      decode_delta_def transpose_def dest: collect_results_mem split: option.splits)

text \<open>
  C29. Whatever a worker sends, a snapshot in an accepted response is well-formed: its facts lie in its
  source unit, its relations start at its own occurrences, its keys are of the backend of their
  provenance. So the store refuses it exactly for another source unit, content or context than the
  requested one, a reversed byte range, or a provenance of another protocol version, never for facts
  of a foreign source.
\<close>

theorem accepted_snapshots_are_owned:
  assumes "request_with_timeout (wire_adapter debug_other) w e t s = (Inr resp, s')"
    and "snapshot \<in> set (message_snapshots (env_message resp))"
  shows "(\<exists>T. owned_snapshot T snapshot)
    \<and> (validate_snapshot u snapshot = Ok () \<longleftrightarrow> su_id (snap_source_unit snapshot) = su_id u
        \<and> su_content (snap_source_unit snapshot) = su_content u \<and> su_context (snap_source_unit snapshot) = su_context u
        \<and> ranges_ordered snapshot \<and> versions_current snapshot)"
proof -
  obtain p where "decode_envelope p = Ok resp" using request_decoded[OF assms(1)] by (auto simp: wire_adapter_simps)
  then obtain message where "decode_message message = Ok (env_message resp)"
    by (auto simp: decode_envelope_def and_then_eq_Ok)
  then obtain v where "decode_snapshot v = Ok snapshot" using decoded_message_snapshots assms(2) by blast
  then have owned: "owned_snapshot (map decode_provenance (psn_provenances v)) snapshot" by (rule decoded_snapshot_owned)
  then show ?thesis using validate_owned by blast
qed

definition answered_delta :: worker_envelope where
  "answered_delta = sample_delta [sample_type_occurrence\<lparr>occ_kind := OCall\<rparr>]"

lemma answered_delta_encoded: "\<exists>p. proto_envelope id answered_delta = Ok p \<and> decode_envelope p = Ok answered_delta"
proof -
  have "wire_message id (env_message answered_delta)" by code_simp
  moreover have "\<forall>s\<in>set (message_snapshots (env_message answered_delta)). fact_count s < 2 ^ 32"
    by (simp add: answered_delta_def sample_delta_def new_envelope_def sample_snapshot_def fact_count_def)
  ultimately have "\<exists>p. proto_message id (env_message answered_delta) = Ok p \<and> decode_message p = Ok (env_message answered_delta)"
    using message_roundtrip by blast
  then show ?thesis unfolding proto_envelope_def encode_then_decode
    by (auto simp: decode_envelope_def and_then_eq_Ok)
qed

theorem accepted_snapshots_are_owned_witness:
  "list_all (\<lambda>s. \<exists>T. owned_snapshot T s) (message_snapshots (env_message answered_delta))"
proof -
  obtain p where p: "decode_envelope p = Ok answered_delta" using answered_delta_encoded by blast
  obtain q where q: "proto_envelope id (sample_request ''d1'') = Ok q"
    by (simp add: proto_envelope_def sample_request_def new_envelope_def)
  have ids: "env_request_id answered_delta = ''d1''" "env_protocol_version answered_delta = 3"
      "\<forall>x. env_message answered_delta \<noteq> MsgError x"
    by (simp_all add: answered_delta_def sample_delta_def new_envelope_def WORKER_PROTOCOL_VERSION_def)
  have adapter: "of_proto (wire_adapter id) p = Some answered_delta" "to_proto (wire_adapter id) (sample_request ''d1'') = Some q"
    using p q by (simp_all add: wire_adapter_simps)
  have "\<exists>s'. request_with_timeout (wire_adapter id) (answering_world 7 p) (sample_request ''d1'') 30000
      (new_supervisor (new_launch ''worker'')) = (Ok answered_delta, s')"
    using adapter ids by (cases "env_message answered_delta") (simp_all add: supervisor_run_simps WORKER_PROTOCOL_VERSION_def)
  then show ?thesis unfolding list_all_iff using accepted_snapshots_are_owned by blast
qed

text \<open>The findings: what an encoder accepts and no decoder returns.\<close>

lemma type_reference_is_refused:
  "decode_occurrence u p ((proto_occurrence (x\<lparr>occ_kind := OTypeReference\<rparr>))\<lparr>poc_provenance_index := i\<rparr>)
     = Err (UnsupportedValue ''occurrence kind typereference'')"
  by (simp add: decode_occurrence_def proto_occurrence_def decode_occurrence_kind_def decode_named_def codec_simps)

lemma empty_list_becomes_empty_string:
  "decode_argument (proto_argument (a\<lparr>arg_value := AVStringList []\<rparr>)) = Ok (a\<lparr>arg_value := AVString []\<rparr>)"
  by (cases a) (simp add: decode_argument_def proto_argument_def)

lemma other_language_is_renamed:
  assumes "length v < length (debug_other v)" "debug_other v \<notin> {''kotlin'', ''java'', ''rust'', ''typescript''}"
  shows "decode_language (debug_language debug_other (OtherLanguage v)) = OtherLanguage (debug_other v)
    \<and> debug_other v \<noteq> v"
  using assms by (auto simp: decode_language_def)

end
