(* ===== verification/Artifact_Proto.thy ===== *)
theory Artifact_Proto
  imports Worker_Adapter
begin

text \<open>
  The persistent form of dependency graphs: the messages of \<open>protocol/kide/artifact.proto\<close> and the
  conversion from and to worker messages (\<open>crates/kide-core/src/artifact_proto_adapter.rs\<close>). Ids of
  symbols the artifact itself declares are replaced by their ordinal, and provenance indexes equal to
  that of the snapshot are left out.
\<close>

section \<open>Messages\<close>

record g_source_unit =
  gsu_id :: string
  gsu_component :: string
  gsu_path :: string
  gsu_language :: string
  gsu_origin :: string
  gsu_content_fingerprint :: string
  gsu_context_fingerprint :: string

record g_provenance =
  gpv_backend :: string
  gpv_backend_version :: string
  gpv_worker_protocol_version :: u32
  gpv_analysis_options_fingerprint :: string

record g_range =
  grn_start :: u64
  grn_end :: u64

record g_location =
  glo_source_unit_index :: u32
  glo_range :: "g_range option"

record g_symbol =
  gsy_id :: string
  gsy_backend_key :: string
  gsy_backend_schema_version :: u32
  gsy_language :: string
  gsy_kind :: string
  gsy_name :: string
  gsy_qualified_name :: "string option"
  gsy_signature :: "string option"
  gsy_declaration :: "g_range option"
  gsy_name_range :: "g_range option"
  gsy_owner_id :: "string option"
  gsy_modifiers :: "string list"
  gsy_freshness :: string
  gsy_completeness :: string
  gsy_component_id :: string
  gsy_provenance_index :: "u32 option"
  gsy_owner_symbol_ordinal :: "u32 option"
  gsy_applied_symbol_ids :: "string list"

record g_occurrence =
  goc_location :: "g_location option"
  goc_kind :: string
  goc_enclosing_symbol_id :: "string option"
  goc_target_symbol_id :: "string option"
  goc_type_id :: "string option"
  goc_precision :: string
  goc_freshness :: string
  goc_completeness :: string
  goc_provenance_index :: "u32 option"
  goc_enclosing_symbol_ordinal :: "u32 option"
  goc_target_symbol_ordinal :: "u32 option"

record g_reference =
  gre_source_occurrence_index :: u32
  gre_target_symbol_id :: string
  gre_precision :: string
  gre_target_symbol_ordinal :: "u32 option"

record g_call =
  gca_source_occurrence_index :: u32
  gca_target_symbol_id :: string
  gca_caller_symbol_id :: "string option"
  gca_precision :: string
  gca_target_symbol_ordinal :: "u32 option"
  gca_caller_symbol_ordinal :: "u32 option"

record g_hierarchy =
  ghi_subtype_symbol_id :: string
  ghi_supertype_symbol_id :: string
  ghi_precision :: string
  ghi_provenance_index :: "u32 option"
  ghi_subtype_symbol_ordinal :: "u32 option"
  ghi_supertype_symbol_ordinal :: "u32 option"

record g_type =
  gty_id :: string
  gty_language :: string
  gty_display :: string
  gty_backend_key :: "string option"
  gty_backend_schema_version :: u32
  gty_freshness :: string
  gty_completeness :: string
  gty_provenance_index :: "u32 option"

record g_diagnostic =
  gdi_source_unit_index :: u32
  gdi_range :: "g_range option"
  gdi_severity :: string
  gdi_code :: "string option"
  gdi_message :: string
  gdi_freshness :: string
  gdi_completeness :: string
  gdi_provenance_index :: "u32 option"

record g_snapshot =
  gsn_source_unit :: "g_source_unit option"
  gsn_structural_fingerprint :: "string option"
  gsn_public_api_fingerprint :: "string option"
  gsn_provenances :: "g_provenance list"
  gsn_symbols :: "g_symbol list"
  gsn_occurrences :: "g_occurrence list"
  gsn_references :: "g_reference list"
  gsn_calls :: "g_call list"
  gsn_hierarchy :: "g_hierarchy list"
  gsn_types :: "g_type list"
  gsn_diagnostics :: "g_diagnostic list"
  gsn_completeness :: string
  gsn_provenance_index :: "u32 option"

text \<open>\<open>GraphArtifact\<close> has one field, the list of its snapshots.\<close>

type_synonym graph_artifact = "g_snapshot list"

record artifact_envelope =
  gen_format_version :: u32
  gen_payload_length :: u64
  gen_payload_sha256 :: string
  gen_artifact :: "graph_artifact option"

text \<open>
  The block a detail lookup reads: values shared by its symbols, a table of repeated strings, and one entry per
  symbol.
\<close>

record g_defaults =
  gdf_source_unit :: "g_source_unit option"
  gdf_provenances :: "g_provenance list"
  gdf_language :: string
  gdf_freshness :: string
  gdf_completeness :: string
  gdf_component_id :: string
  gdf_provenance_index :: "u32 option"
  gdf_string_table :: "string list"

record g_detail =
  gde_id :: string
  gde_backend_key :: string
  gde_backend_schema_version :: u32
  gde_kind :: string
  gde_name :: string
  gde_qualified_name :: "string option"
  gde_signature :: "string option"
  gde_declaration :: "g_range option"
  gde_name_range :: "g_range option"
  gde_owner_id :: "string option"
  gde_modifiers :: "string list"
  gde_applied_symbol_ids :: "string list"
  gde_language :: "string option"
  gde_freshness :: "string option"
  gde_completeness :: "string option"
  gde_component_id :: "string option"
  gde_provenance_index :: "u32 option"
  gde_backend_key_string_index :: "u32 option"
  gde_kind_string_index :: "u32 option"
  gde_name_string_index :: "u32 option"
  gde_qualified_name_string_index :: "u32 option"
  gde_signature_string_index :: "u32 option"
  gde_owner_id_string_index :: "u32 option"
  gde_modifier_string_indexes :: "u32 list"
  gde_applied_symbol_string_indexes :: "u32 list"

record g_detail_block =
  gdb_first_symbol_ordinal :: u32
  gdb_defaults :: "g_defaults option"
  gdb_entries :: "g_detail list"

section \<open>Errors, ordinals and indexes\<close>

datatype artifact_proto_error =
  UnsupportedArtifactVersion u32 | ArtifactLengthMismatch | ArtifactChecksumMismatch | ArtifactDecode
| ArtifactCanonical adapter_error

definition ARTIFACT_FORMAT_VERSION :: u32 where "ARTIFACT_FORMAT_VERSION = 1"

text \<open>A \<open>?\<close> that converts an adapter error.\<close>

definition canonical_error :: "(adapter_error, 'a) result \<Rightarrow> (artifact_proto_error, 'a) result" where
  "canonical_error r = (case r of Inl e \<Rightarrow> Err (ArtifactCanonical e) | Inr x \<Rightarrow> Ok x)"

text \<open>\<open>enumerate()\<close> collected into a hash map: the last of two equal ids wins.\<close>

definition local_ordinals :: "string list \<Rightarrow> string \<Rightarrow> u32 option" where
  "local_ordinals ids = map_of (rev (zip ids (map of_nat [0..<length ids])))"

definition inherited_provenance_index :: "u32 \<Rightarrow> u32 \<Rightarrow> u32 option" where
  "inherited_provenance_index v snapshot = (if v \<noteq> snapshot then Some v else None)"

definition nth_id :: "string list \<Rightarrow> u32 \<Rightarrow> string option" where
  "nth_id ids i = (if unat i < length ids then Some (ids ! unat i) else None)"

definition local_id :: "string \<Rightarrow> u32 option \<Rightarrow> string list \<Rightarrow> (artifact_proto_error, string) result" where
  "local_id inline ordinal ids =
     (case ordinal of None \<Rightarrow> Ok inline | Some i \<Rightarrow> ok_or ArtifactLengthMismatch (nth_id ids i))"

text \<open>\<open>local_id(..).unwrap_or_default()\<close>: a dangling ordinal becomes the empty id.\<close>

definition local_id_or_default :: "string \<Rightarrow> u32 option \<Rightarrow> string list \<Rightarrow> string" where
  "local_id_or_default inline ordinal ids = (case local_id inline ordinal ids of Inl _ \<Rightarrow> [] | Inr s \<Rightarrow> s)"

definition local_optional :: "string option \<Rightarrow> u32 option \<Rightarrow> string list \<Rightarrow> string option" where
  "local_optional inline ordinal ids =
     (case Option.bind ordinal (nth_id ids) of Some s \<Rightarrow> Some s | None \<Rightarrow> inline)"

text \<open>\<open>id.filter(|id| local_ordinal(id).is_none())\<close> and \<open>id.and_then(local_ordinal)\<close>; for a required id, the
  inline form is empty when there is an ordinal.\<close>

definition inline_option :: "(string \<Rightarrow> u32 option) \<Rightarrow> string option \<Rightarrow> string option" where
  "inline_option ordinals i = (case i of None \<Rightarrow> None | Some s \<Rightarrow> if ordinals s = None then Some s else None)"

definition inline_id :: "(string \<Rightarrow> u32 option) \<Rightarrow> string \<Rightarrow> string" where
  "inline_id ordinals s = (if ordinals s = None then s else [])"

definition or_index :: "u32 option \<Rightarrow> u32 \<Rightarrow> u32" where
  "or_index i snapshot = (case i of None \<Rightarrow> snapshot | Some v \<Rightarrow> v)"

end
