(* ===== verification/Artifact_Adapter.thy ===== *)
theory Artifact_Adapter
  imports Artifact_Proto Worker_Codec
begin

text \<open>
  The conversions of \<open>artifact_proto_adapter.rs\<close>, from worker messages to artifact messages and back,
  the stored envelope with its length and checksum, and their round trip.
\<close>

section \<open>Conversions\<close>

definition g_of_unit :: "p_source_unit \<Rightarrow> g_source_unit" where
  "g_of_unit v =
     \<lparr> gsu_id = psu_id v, gsu_component = psu_component v, gsu_path = psu_path v, gsu_language = psu_language v,
       gsu_origin = psu_origin v, gsu_content_fingerprint = psu_content v, gsu_context_fingerprint = psu_context v \<rparr>"

definition p_of_unit :: "g_source_unit \<Rightarrow> p_source_unit" where
  "p_of_unit v =
     \<lparr> psu_id = gsu_id v, psu_component = gsu_component v, psu_path = gsu_path v, psu_language = gsu_language v,
       psu_origin = gsu_origin v, psu_content = gsu_content_fingerprint v, psu_context = gsu_context_fingerprint v \<rparr>"

definition g_of_provenance :: "p_provenance \<Rightarrow> g_provenance" where
  "g_of_provenance v =
     \<lparr> gpv_backend = ppv_backend v, gpv_backend_version = ppv_backend_version v,
       gpv_worker_protocol_version = ppv_protocol_version v,
       gpv_analysis_options_fingerprint = ppv_analysis_options_fingerprint v \<rparr>"

definition p_of_provenance :: "g_provenance \<Rightarrow> p_provenance" where
  "p_of_provenance v =
     \<lparr> ppv_backend = gpv_backend v, ppv_backend_version = gpv_backend_version v,
       ppv_protocol_version = gpv_worker_protocol_version v,
       ppv_analysis_options_fingerprint = gpv_analysis_options_fingerprint v \<rparr>"

definition g_of_range :: "p_byte_range \<Rightarrow> g_range" where
  "g_of_range v = \<lparr> grn_start = pbr_start v, grn_end = pbr_end v \<rparr>"

definition p_of_range :: "g_range \<Rightarrow> p_byte_range" where
  "p_of_range v = \<lparr> pbr_start = grn_start v, pbr_end = grn_end v \<rparr>"

definition g_of_location :: "p_source_location \<Rightarrow> g_location" where
  "g_of_location v =
     \<lparr> glo_source_unit_index = psl_source_unit_index v, glo_range = map_option g_of_range (psl_range v) \<rparr>"

definition p_of_location :: "g_location \<Rightarrow> p_source_location" where
  "p_of_location v =
     \<lparr> psl_source_unit_index = glo_source_unit_index v, psl_range = map_option p_of_range (glo_range v) \<rparr>"

definition g_of_symbol :: "u32 \<Rightarrow> (string \<Rightarrow> u32 option) \<Rightarrow> p_symbol_declaration \<Rightarrow> g_symbol" where
  "g_of_symbol snapshot ordinals v =
     \<lparr> gsy_id = psd_id v, gsy_backend_key = psd_backend_key v, gsy_backend_schema_version = psd_backend_schema_version v,
       gsy_language = psd_language v, gsy_kind = psd_kind v, gsy_name = psd_name v,
       gsy_qualified_name = psd_qualified_name v, gsy_signature = psd_signature v,
       gsy_declaration = map_option g_of_range (psd_declaration v),
       gsy_name_range = map_option g_of_range (psd_name_range v),
       gsy_owner_id = inline_option ordinals (psd_owner_id v), gsy_modifiers = psd_modifiers v,
       gsy_freshness = psd_freshness v, gsy_completeness = psd_completeness v, gsy_component_id = psd_component_id v,
       gsy_provenance_index = inherited_provenance_index (psd_provenance_index v) snapshot,
       gsy_owner_symbol_ordinal = Option.bind (psd_owner_id v) ordinals,
       gsy_applied_symbol_ids = psd_applied_symbol_ids v \<rparr>"

definition p_of_symbol :: "u32 \<Rightarrow> string list \<Rightarrow> g_symbol \<Rightarrow> p_symbol_declaration" where
  "p_of_symbol snapshot ids v =
     \<lparr> psd_id = gsy_id v, psd_source_unit_index = 0, psd_provenance_index = or_index (gsy_provenance_index v) snapshot,
       psd_backend_key = gsy_backend_key v, psd_backend_schema_version = gsy_backend_schema_version v,
       psd_language = gsy_language v, psd_kind = gsy_kind v, psd_name = gsy_name v,
       psd_qualified_name = gsy_qualified_name v, psd_signature = gsy_signature v,
       psd_declaration = map_option p_of_range (gsy_declaration v),
       psd_name_range = map_option p_of_range (gsy_name_range v),
       psd_owner_id = local_optional (gsy_owner_id v) (gsy_owner_symbol_ordinal v) ids,
       psd_modifiers = gsy_modifiers v, psd_freshness = gsy_freshness v, psd_completeness = gsy_completeness v,
       psd_component_id = gsy_component_id v, psd_applied_symbol_ids = gsy_applied_symbol_ids v \<rparr>"

definition g_of_occurrence :: "u32 \<Rightarrow> (string \<Rightarrow> u32 option) \<Rightarrow> p_occurrence \<Rightarrow> g_occurrence" where
  "g_of_occurrence snapshot ordinals v =
     \<lparr> goc_location = map_option g_of_location (poc_location v), goc_kind = poc_kind v,
       goc_enclosing_symbol_id = inline_option ordinals (poc_enclosing_symbol_id v),
       goc_target_symbol_id = inline_option ordinals (poc_target_symbol_id v), goc_type_id = poc_type_id v,
       goc_precision = poc_precision v, goc_freshness = poc_freshness v, goc_completeness = poc_completeness v,
       goc_provenance_index = inherited_provenance_index (poc_provenance_index v) snapshot,
       goc_enclosing_symbol_ordinal = Option.bind (poc_enclosing_symbol_id v) ordinals,
       goc_target_symbol_ordinal = Option.bind (poc_target_symbol_id v) ordinals \<rparr>"

definition p_of_occurrence :: "u32 \<Rightarrow> string list \<Rightarrow> g_occurrence \<Rightarrow> p_occurrence" where
  "p_of_occurrence snapshot ids v =
     \<lparr> poc_location = map_option p_of_location (goc_location v), poc_kind = goc_kind v,
       poc_enclosing_symbol_id = local_optional (goc_enclosing_symbol_id v) (goc_enclosing_symbol_ordinal v) ids,
       poc_target_symbol_id = local_optional (goc_target_symbol_id v) (goc_target_symbol_ordinal v) ids,
       poc_type_id = goc_type_id v, poc_precision = goc_precision v, poc_freshness = goc_freshness v,
       poc_completeness = goc_completeness v, poc_provenance_index = or_index (goc_provenance_index v) snapshot \<rparr>"

definition g_of_reference :: "(string \<Rightarrow> u32 option) \<Rightarrow> p_reference_edge \<Rightarrow> g_reference" where
  "g_of_reference ordinals v =
     \<lparr> gre_source_occurrence_index = pre_source_occurrence_index v,
       gre_target_symbol_id = inline_id ordinals (pre_target_symbol_id v), gre_precision = pre_precision v,
       gre_target_symbol_ordinal = ordinals (pre_target_symbol_id v) \<rparr>"

definition p_of_reference :: "string list \<Rightarrow> g_reference \<Rightarrow> p_reference_edge" where
  "p_of_reference ids v =
     \<lparr> pre_source_occurrence_index = gre_source_occurrence_index v,
       pre_target_symbol_id = local_id_or_default (gre_target_symbol_id v) (gre_target_symbol_ordinal v) ids,
       pre_precision = gre_precision v \<rparr>"

definition g_of_call :: "(string \<Rightarrow> u32 option) \<Rightarrow> p_call_edge \<Rightarrow> g_call" where
  "g_of_call ordinals v =
     \<lparr> gca_source_occurrence_index = pce_source_occurrence_index v,
       gca_target_symbol_id = inline_id ordinals (pce_target_symbol_id v),
       gca_caller_symbol_id = inline_option ordinals (pce_caller_symbol_id v), gca_precision = pce_precision v,
       gca_target_symbol_ordinal = ordinals (pce_target_symbol_id v),
       gca_caller_symbol_ordinal = Option.bind (pce_caller_symbol_id v) ordinals \<rparr>"

definition p_of_call :: "string list \<Rightarrow> g_call \<Rightarrow> p_call_edge" where
  "p_of_call ids v =
     \<lparr> pce_source_occurrence_index = gca_source_occurrence_index v,
       pce_target_symbol_id = local_id_or_default (gca_target_symbol_id v) (gca_target_symbol_ordinal v) ids,
       pce_caller_symbol_id = local_optional (gca_caller_symbol_id v) (gca_caller_symbol_ordinal v) ids,
       pce_precision = gca_precision v \<rparr>"

definition g_of_hierarchy :: "u32 \<Rightarrow> (string \<Rightarrow> u32 option) \<Rightarrow> p_hierarchy_edge \<Rightarrow> g_hierarchy" where
  "g_of_hierarchy snapshot ordinals v =
     \<lparr> ghi_subtype_symbol_id = inline_id ordinals (phe_subtype_symbol_id v),
       ghi_supertype_symbol_id = inline_id ordinals (phe_supertype_symbol_id v), ghi_precision = phe_precision v,
       ghi_provenance_index = inherited_provenance_index (phe_provenance_index v) snapshot,
       ghi_subtype_symbol_ordinal = ordinals (phe_subtype_symbol_id v),
       ghi_supertype_symbol_ordinal = ordinals (phe_supertype_symbol_id v) \<rparr>"

definition p_of_hierarchy :: "u32 \<Rightarrow> string list \<Rightarrow> g_hierarchy \<Rightarrow> p_hierarchy_edge" where
  "p_of_hierarchy snapshot ids v =
     \<lparr> phe_subtype_symbol_id = local_id_or_default (ghi_subtype_symbol_id v) (ghi_subtype_symbol_ordinal v) ids,
       phe_supertype_symbol_id = local_id_or_default (ghi_supertype_symbol_id v) (ghi_supertype_symbol_ordinal v) ids,
       phe_precision = ghi_precision v, phe_provenance_index = or_index (ghi_provenance_index v) snapshot \<rparr>"

definition g_of_type :: "u32 \<Rightarrow> p_type_record \<Rightarrow> g_type" where
  "g_of_type snapshot v =
     \<lparr> gty_id = pty_id v, gty_language = pty_language v, gty_display = pty_display v, gty_backend_key = pty_backend_key v,
       gty_backend_schema_version = pty_backend_schema_version v, gty_freshness = pty_freshness v,
       gty_completeness = pty_completeness v,
       gty_provenance_index = inherited_provenance_index (pty_provenance_index v) snapshot \<rparr>"

definition p_of_type :: "u32 \<Rightarrow> g_type \<Rightarrow> p_type_record" where
  "p_of_type snapshot v =
     \<lparr> pty_id = gty_id v, pty_language = gty_language v, pty_display = gty_display v, pty_backend_key = gty_backend_key v,
       pty_backend_schema_version = gty_backend_schema_version v, pty_freshness = gty_freshness v,
       pty_completeness = gty_completeness v, pty_provenance_index = or_index (gty_provenance_index v) snapshot \<rparr>"

definition g_of_diagnostic :: "u32 \<Rightarrow> p_diagnostic \<Rightarrow> g_diagnostic" where
  "g_of_diagnostic snapshot v =
     \<lparr> gdi_source_unit_index = pdi_source_unit_index v, gdi_range = map_option g_of_range (pdi_range v),
       gdi_severity = pdi_severity v, gdi_code = pdi_code v, gdi_message = pdi_message v,
       gdi_freshness = pdi_freshness v, gdi_completeness = pdi_completeness v,
       gdi_provenance_index = inherited_provenance_index (pdi_provenance_index v) snapshot \<rparr>"

definition p_of_diagnostic :: "u32 \<Rightarrow> g_diagnostic \<Rightarrow> p_diagnostic" where
  "p_of_diagnostic snapshot v =
     \<lparr> pdi_source_unit_index = gdi_source_unit_index v, pdi_range = map_option p_of_range (gdi_range v),
       pdi_severity = gdi_severity v, pdi_code = gdi_code v, pdi_message = gdi_message v,
       pdi_freshness = gdi_freshness v, pdi_completeness = gdi_completeness v,
       pdi_provenance_index = or_index (gdi_provenance_index v) snapshot \<rparr>"

section \<open>Snapshots and the stored envelope\<close>

text \<open>The annotations of a snapshot have no field in the artifact message.\<close>

definition g_of_snapshot :: "(string \<Rightarrow> u32 option) \<Rightarrow> p_snapshot \<Rightarrow> g_snapshot" where
  "g_of_snapshot ordinals v =
     (let i = psn_provenance_index v
      in \<lparr> gsn_source_unit = map_option g_of_unit (psn_source_unit v),
           gsn_structural_fingerprint = psn_structural_fingerprint v,
           gsn_public_api_fingerprint = psn_public_api_fingerprint v,
           gsn_provenances = map g_of_provenance (psn_provenances v),
           gsn_symbols = map (g_of_symbol i ordinals) (psn_symbols v),
           gsn_occurrences = map (g_of_occurrence i ordinals) (psn_occurrences v),
           gsn_references = map (g_of_reference ordinals) (psn_references v),
           gsn_calls = map (g_of_call ordinals) (psn_calls v),
           gsn_hierarchy = map (g_of_hierarchy i ordinals) (psn_hierarchy v),
           gsn_types = map (g_of_type i) (psn_types v), gsn_diagnostics = map (g_of_diagnostic i) (psn_diagnostics v),
           gsn_completeness = psn_completeness v, gsn_provenance_index = Some i \<rparr>)"

definition p_of_snapshot :: "string list \<Rightarrow> g_snapshot \<Rightarrow> u32 \<Rightarrow> p_snapshot" where
  "p_of_snapshot ids v i =
     \<lparr> psn_source_unit = map_option p_of_unit (gsn_source_unit v),
       psn_structural_fingerprint = gsn_structural_fingerprint v,
       psn_public_api_fingerprint = gsn_public_api_fingerprint v,
       psn_provenances = map p_of_provenance (gsn_provenances v),
       psn_symbols = map (p_of_symbol i ids) (gsn_symbols v),
       psn_occurrences = map (p_of_occurrence i ids) (gsn_occurrences v),
       psn_references = map (p_of_reference ids) (gsn_references v), psn_calls = map (p_of_call ids) (gsn_calls v),
       psn_hierarchy = map (p_of_hierarchy i ids) (gsn_hierarchy v), psn_types = map (p_of_type i) (gsn_types v),
       psn_diagnostics = map (p_of_diagnostic i) (gsn_diagnostics v), psn_completeness = gsn_completeness v,
       psn_provenance_index = i, psn_applications = [] \<rparr>"

definition graph_snapshot :: "(string \<Rightarrow> u32 option) \<Rightarrow> file_analysis_snapshot \<Rightarrow> (artifact_proto_error, g_snapshot) result" where
  "graph_snapshot ordinals s = and_then (canonical_error (proto_snapshot s)) (\<lambda>p. Ok (g_of_snapshot ordinals p))"

definition decode_graph_snapshot :: "string list \<Rightarrow> g_snapshot \<Rightarrow> (artifact_proto_error, file_analysis_snapshot) result" where
  "decode_graph_snapshot ids v =
     and_then (ok_or ArtifactLengthMismatch (gsn_provenance_index v)) (\<lambda>i.
     canonical_error (decode_snapshot (p_of_snapshot ids v i)))"

definition symbol_ids :: "file_analysis_snapshot list \<Rightarrow> string list" where
  "symbol_ids snapshots = concat (map (\<lambda>s. map (\<lambda>x. as_str (sym_id x)) (snap_symbols s)) snapshots)"

definition graph_of_snapshots :: "file_analysis_snapshot list \<Rightarrow> (artifact_proto_error, graph_artifact) result" where
  "graph_of_snapshots snapshots = collect_results (graph_snapshot (local_ordinals (symbol_ids snapshots))) snapshots"

definition decode_graph_artifact :: "graph_artifact \<Rightarrow> (artifact_proto_error, file_analysis_snapshot list) result" where
  "decode_graph_artifact artifact =
     (let ids = concat (map (\<lambda>s. map gsy_id (gsn_symbols s)) artifact)
      in collect_results (decode_graph_snapshot ids) artifact)"

text \<open>
  The bytes of an artifact: \<open>enc_graph\<close> is \<open>encode_to_vec\<close> of the graph, \<open>enc_env\<close> and \<open>dec_env\<close> are the codec
  of the envelope, \<open>sha256\<close> is the digest.
\<close>

record artifact_codec =
  enc_graph :: "graph_artifact \<Rightarrow> string"
  enc_env :: "artifact_envelope \<Rightarrow> string"
  dec_env :: "string \<Rightarrow> artifact_envelope option"
  art_sha256 :: "string \<Rightarrow> string"

definition envelope_of :: "artifact_codec \<Rightarrow> graph_artifact \<Rightarrow> artifact_envelope" where
  "envelope_of C artifact =
     (let payload = enc_graph C artifact
      in \<lparr> gen_format_version = ARTIFACT_FORMAT_VERSION, gen_payload_length = of_nat (length payload),
           gen_payload_sha256 = art_sha256 C payload, gen_artifact = Some artifact \<rparr>)"

definition encode_snapshots :: "artifact_codec \<Rightarrow> file_analysis_snapshot list \<Rightarrow> (artifact_proto_error, string) result" where
  "encode_snapshots C snapshots =
     and_then (graph_of_snapshots snapshots) (\<lambda>artifact. Ok (enc_env C (envelope_of C artifact)))"

definition decode_snapshots :: "artifact_codec \<Rightarrow> string \<Rightarrow> (artifact_proto_error, file_analysis_snapshot list) result" where
  "decode_snapshots C bytes =
     and_then (ok_or ArtifactDecode (dec_env C bytes)) (\<lambda>e.
     if gen_format_version e \<noteq> ARTIFACT_FORMAT_VERSION then Err (UnsupportedArtifactVersion (gen_format_version e))
     else
     and_then (ok_or ArtifactLengthMismatch (gen_artifact e)) (\<lambda>artifact.
     let payload = enc_graph C artifact
     in if gen_payload_length e \<noteq> of_nat (length payload) then Err ArtifactLengthMismatch
        else if gen_payload_sha256 e \<noteq> art_sha256 C payload then Err ArtifactChecksumMismatch
        else decode_graph_artifact artifact))"

section \<open>One symbol of a detail block\<close>

text \<open>The closures \<open>string\<close> and \<open>strings\<close>, and an optional string that is looked up before it is read inline.\<close>

definition detail_string :: "string list \<Rightarrow> string \<Rightarrow> u32 option \<Rightarrow> (artifact_proto_error, string) result" where
  "detail_string table inline index =
     (case index of None \<Rightarrow> Ok inline | Some i \<Rightarrow> ok_or ArtifactLengthMismatch (nth_id table i))"

definition detail_strings :: "string list \<Rightarrow> string list \<Rightarrow> u32 list \<Rightarrow> (artifact_proto_error, string list) result" where
  "detail_strings table inline indexes =
     (if indexes = [] then Ok inline
      else collect_results (\<lambda>i. ok_or ArtifactLengthMismatch (nth_id table i)) indexes)"

definition detail_optional :: "string list \<Rightarrow> string option \<Rightarrow> u32 option \<Rightarrow> (artifact_proto_error, string option) result" where
  "detail_optional table inline index =
     and_then (transpose (\<lambda>i. detail_string table [] (Some i)) index) (\<lambda>s.
     Ok (case s of None \<Rightarrow> inline | Some x \<Rightarrow> Some x))"

definition detail_symbol :: "g_defaults \<Rightarrow> g_detail \<Rightarrow> (artifact_proto_error, g_symbol) result" where
  "detail_symbol defaults d =
     (let table = gdf_string_table defaults; or_default = (\<lambda>x default. case x of None \<Rightarrow> default | Some v \<Rightarrow> v)
      in and_then (detail_string table (gde_backend_key d) (gde_backend_key_string_index d)) (\<lambda>backend_key.
         and_then (detail_string table (gde_kind d) (gde_kind_string_index d)) (\<lambda>kind.
         and_then (detail_string table (gde_name d) (gde_name_string_index d)) (\<lambda>name.
         and_then (detail_optional table (gde_qualified_name d) (gde_qualified_name_string_index d)) (\<lambda>qualified_name.
         and_then (detail_optional table (gde_signature d) (gde_signature_string_index d)) (\<lambda>signature.
         and_then (detail_optional table (gde_owner_id d) (gde_owner_id_string_index d)) (\<lambda>owner_id.
         and_then (detail_strings table (gde_modifiers d) (gde_modifier_string_indexes d)) (\<lambda>modifiers.
         and_then (detail_strings table (gde_applied_symbol_ids d) (gde_applied_symbol_string_indexes d)) (\<lambda>applied.
         Ok \<lparr> gsy_id = gde_id d, gsy_backend_key = backend_key, gsy_backend_schema_version = gde_backend_schema_version d,
              gsy_language = or_default (gde_language d) (gdf_language defaults), gsy_kind = kind, gsy_name = name,
              gsy_qualified_name = qualified_name, gsy_signature = signature, gsy_declaration = gde_declaration d,
              gsy_name_range = gde_name_range d, gsy_owner_id = owner_id, gsy_modifiers = modifiers,
              gsy_freshness = or_default (gde_freshness d) (gdf_freshness defaults),
              gsy_completeness = or_default (gde_completeness d) (gdf_completeness defaults),
              gsy_component_id = or_default (gde_component_id d) (gdf_component_id defaults),
              gsy_provenance_index = None, gsy_owner_symbol_ordinal = None,
              gsy_applied_symbol_ids = applied \<rparr>)))))))))"

definition decode_symbol_detail :: "g_detail_block \<Rightarrow> u32 \<Rightarrow> (artifact_proto_error, symbol_record) result" where
  "decode_symbol_detail block ordinal =
     (if ordinal < gdb_first_symbol_ordinal block then Err ArtifactLengthMismatch
      else
      let index = unat (ordinal - gdb_first_symbol_ordinal block)
      in if length (gdb_entries block) \<le> index then Err ArtifactLengthMismatch
         else
         let d = gdb_entries block ! index
         in and_then (ok_or ArtifactLengthMismatch (gdb_defaults block)) (\<lambda>defaults.
            and_then (ok_or ArtifactLengthMismatch (gdf_source_unit defaults)) (\<lambda>unit.
            let i = (case gde_provenance_index d of Some i \<Rightarrow> i
                     | None \<Rightarrow> (case gdf_provenance_index defaults of Some i \<Rightarrow> i | None \<Rightarrow> 0))
            in if length (gdf_provenances defaults) \<le> unat i then Err ArtifactLengthMismatch
               else
               and_then (detail_symbol defaults d) (\<lambda>symbol.
               and_then (decode_graph_snapshot [gsy_id symbol]
                   \<lparr> gsn_source_unit = Some unit, gsn_structural_fingerprint = None, gsn_public_api_fingerprint = None,
                     gsn_provenances = [gdf_provenances defaults ! unat i], gsn_symbols = [symbol], gsn_occurrences = [],
                     gsn_references = [], gsn_calls = [], gsn_hierarchy = [], gsn_types = [], gsn_diagnostics = [],
                     gsn_completeness = ''partial'', gsn_provenance_index = Some 0 \<rparr>) (\<lambda>snapshot.
               case snap_symbols snapshot of [] \<Rightarrow> Err ArtifactLengthMismatch | s # _ \<Rightarrow> Ok s)))))"

section \<open>Round trips\<close>

lemma p_of_g [codec_simps]:
  "p_of_unit (g_of_unit u) = u" "p_of_provenance (g_of_provenance p) = p" "p_of_range (g_of_range r) = r"
  by (cases u; cases p; cases r; simp add: p_of_unit_def g_of_unit_def p_of_provenance_def g_of_provenance_def
      p_of_range_def g_of_range_def)+

lemma p_of_g_fun [codec_simps]:
  "p_of_unit \<circ> g_of_unit = id" "p_of_provenance \<circ> g_of_provenance = id" "p_of_range \<circ> g_of_range = id"
  by (auto simp: p_of_g)

lemma p_of_g_option [codec_simps]: "map_option p_of_range (map_option g_of_range r) = r"
    "map_option p_of_unit (map_option g_of_unit u) = u"
  by (simp_all add: option.map_comp codec_simps option.map_id)

lemma p_of_g_location [codec_simps]: "p_of_location (g_of_location l) = l"
  by (cases l) (simp add: p_of_location_def g_of_location_def codec_simps)

lemma p_of_g_location_option [codec_simps]: "map_option p_of_location (map_option g_of_location l) = l"
  by (cases l) (simp_all add: codec_simps)

lemma or_inherited [codec_simps]: "or_index (inherited_provenance_index v i) i = v"
  by (simp add: or_index_def inherited_provenance_index_def)

text \<open>Ordinals that name the ids they stand for.\<close>

definition names :: "(string \<Rightarrow> u32 option) \<Rightarrow> string list \<Rightarrow> bool" where
  "names ordinals ids \<longleftrightarrow> (\<forall>s i. ordinals s = Some i \<longrightarrow> nth_id ids i = Some s)"

lemma names_local_ordinals:
  assumes "length ids \<le> 2 ^ 32"
  shows "names (local_ordinals ids) ids"
  unfolding names_def
proof (intro allI impI)
  fix s i assume "local_ordinals ids s = Some i"
  then have "(s, i) \<in> set (zip ids (map of_nat [0..<length ids]))"
    unfolding local_ordinals_def by (auto dest: map_of_SomeD)
  then obtain j where j: "j < length ids" "s = ids ! j" "i = of_nat j" by (auto simp: set_zip)
  then have "unat i = j" using assms unat_of_index[of j] by simp
  then show "nth_id ids i = Some s" using j by (simp add: nth_id_def)
qed

lemma local_roundtrip [codec_simps]:
  "names ordinals ids \<Longrightarrow> local_id_or_default (inline_id ordinals s) (ordinals s) ids = s"
  by (cases "ordinals s") (auto simp: local_id_or_default_def local_id_def inline_id_def names_def)

lemma local_optional_roundtrip [codec_simps]:
  assumes "names ordinals ids"
  shows "local_optional (inline_option ordinals x) (Option.bind x ordinals) ids = x"
proof (cases x)
  case (Some s)
  then show ?thesis using assms
    by (cases "ordinals s") (auto simp: local_optional_def inline_option_def names_def)
qed (simp add: local_optional_def inline_option_def)

text \<open>
  Under such ordinals every message comes back, except for what the artifact message has no field for:
  the source unit index of a symbol, which the adapter always leaves at zero.
\<close>

lemma p_of_g_facts [codec_simps]:
  assumes "names ordinals ids"
  shows "p_of_symbol i ids (g_of_symbol i ordinals a) = a\<lparr>psd_source_unit_index := 0\<rparr>"
    and "p_of_occurrence i ids (g_of_occurrence i ordinals b) = b"
    and "p_of_reference ids (g_of_reference ordinals c) = c"
    and "p_of_call ids (g_of_call ordinals d) = d"
    and "p_of_hierarchy i ids (g_of_hierarchy i ordinals e) = e"
  using assms
  by (cases a; cases b; cases c; cases d; cases e; simp add: p_of_symbol_def g_of_symbol_def p_of_occurrence_def
      g_of_occurrence_def p_of_reference_def g_of_reference_def p_of_call_def g_of_call_def p_of_hierarchy_def
      g_of_hierarchy_def codec_simps)+

lemma p_of_g_type [codec_simps]: "p_of_type i (g_of_type i v) = v"
  by (cases v) (simp add: p_of_type_def g_of_type_def codec_simps)

lemma p_of_g_diagnostic [codec_simps]: "p_of_diagnostic i (g_of_diagnostic i v) = v"
  by (cases v) (simp add: p_of_diagnostic_def g_of_diagnostic_def codec_simps)

lemma map_back: "(\<And>x. x \<in> set xs \<Longrightarrow> f (g x) = x) \<Longrightarrow> map f (map g xs) = xs"
  by (induction xs) simp_all

lemma p_of_g_snapshot:
  assumes "names ordinals ids" "\<forall>s\<in>set (psn_symbols v). psd_source_unit_index s = 0"
  shows "p_of_snapshot ids (g_of_snapshot ordinals v) (psn_provenance_index v) = v\<lparr>psn_applications := []\<rparr>"
proof -
  have "map (p_of_symbol i ids) (map (g_of_symbol i ordinals) (psn_symbols v)) = psn_symbols v" for i
    by (rule map_back) (use assms in \<open>simp add: codec_simps\<close>)
  moreover have "map (p_of_occurrence i ids) (map (g_of_occurrence i ordinals) xs) = xs"
      "map (p_of_reference ids) (map (g_of_reference ordinals) ys) = ys"
      "map (p_of_call ids) (map (g_of_call ordinals) zs) = zs"
      "map (p_of_hierarchy i ids) (map (g_of_hierarchy i ordinals) hs) = hs"
      "map (p_of_type i) (map (g_of_type i) ts) = ts"
      "map (p_of_diagnostic i) (map (g_of_diagnostic i) ds) = ds"
      "map p_of_provenance (map g_of_provenance ps) = ps" for i xs ys zs hs ts ds ps
    by (rule map_back; use assms in \<open>simp add: codec_simps\<close>)+
  ultimately show ?thesis
    unfolding p_of_snapshot_def g_of_snapshot_def Let_def g_snapshot.select_convs p_of_g_option
    by (simp del: map_map)
qed

text \<open>The applications of a snapshot are not part of its artifact.\<close>

definition stored_form :: "file_analysis_snapshot \<Rightarrow> file_analysis_snapshot" where
  "stored_form s = s\<lparr>snap_applications := []\<rparr>"

lemma encoded_symbols:
  assumes "fact_count s < 2 ^ 32" "proto_snapshot s = Ok v"
  shows "map psd_id (psn_symbols v) = map (as_str \<circ> sym_id) (snap_symbols s)"
    and "\<forall>x\<in>set (psn_symbols v). psd_source_unit_index x = 0"
proof -
  obtain T refs calls i1 i2 i3 i4 i5 i6 where v: "v = assemble_snapshot s T refs calls i1 i2 i3 i4 i5 i6"
    and "list_all2 (holds_at T) i1 (map sym_provenance (snap_symbols s))"
    using proto_snapshot_parts[OF assms] by blast
  then have len: "length i1 = length (snap_symbols s)" by (auto dest: list_all2_lengthD)
  have "map psd_id (map2 (\<lambda>x i. (proto_symbol x)\<lparr>psd_provenance_index := i\<rparr>) xs is) = map (as_str \<circ> sym_id) xs"
    if "length is = length xs" for xs "is"
    using that by (induction "is" xs rule: list_induct2) (simp_all add: proto_symbol_def)
  then show "map psd_id (psn_symbols v) = map (as_str \<circ> sym_id) (snap_symbols s)"
    unfolding v fact_lists using len by blast
  show "\<forall>x\<in>set (psn_symbols v). psd_source_unit_index x = 0"
    unfolding v fact_lists by (auto simp: proto_symbol_def)
qed

lemma graph_snapshot_Ok: "graph_snapshot ordinals s = Ok g \<longleftrightarrow> (\<exists>v. proto_snapshot s = Ok v \<and> g = g_of_snapshot ordinals v)"
  by (cases "proto_snapshot s") (auto simp: graph_snapshot_def canonical_error_def)

lemma graph_snapshot_ids:
  assumes "graph_snapshot ordinals s = Ok g" "fact_count s < 2 ^ 32"
  shows "map gsy_id (gsn_symbols g) = map (as_str \<circ> sym_id) (snap_symbols s)"
proof -
  obtain v where "proto_snapshot s = Ok v" "g = g_of_snapshot ordinals v" using assms(1) by (auto simp: graph_snapshot_Ok)
  then show ?thesis using encoded_symbols(1)[OF assms(2)] by (simp add: g_of_snapshot_def Let_def g_of_symbol_def o_def)
qed

lemma graph_snapshot_decodes:
  assumes "names ordinals ids" "fact_count s < 2 ^ 32"
  shows "(\<exists>g. graph_snapshot ordinals s = Ok g \<and> decode_graph_snapshot ids g = Ok (stored_form s))
    \<longleftrightarrow> wire_snapshot (stored_form s)"
proof (cases "proto_snapshot s")
  case (Inl e)
  then have "\<not> wire_snapshot (stored_form s)"
    using proto_snapshot_encodes[of s] by (auto simp: wire_snapshot_def stored_form_def Let_def)
  then show ?thesis using Inl by (simp add: graph_snapshot_Ok)
next
  case (Inr v)
  have "gsn_provenance_index (g_of_snapshot ordinals v) = Some (psn_provenance_index v)"
    by (simp add: g_of_snapshot_def Let_def)
  then have "decode_graph_snapshot ids (g_of_snapshot ordinals v) = canonical_error (decode_snapshot (v\<lparr>psn_applications := []\<rparr>))"
    using p_of_g_snapshot[OF assms(1) encoded_symbols(2)[OF assms(2) Inr]] by (simp add: decode_graph_snapshot_def ok_or_def)
  then have "decode_graph_snapshot ids (g_of_snapshot ordinals v) = Ok (stored_form s) \<longleftrightarrow> wire_snapshot (stored_form s)"
    using encoded_snapshot_decodes(2)[OF assms(2) Inr]
    by (cases "decode_snapshot (v\<lparr>psn_applications := []\<rparr>)") (auto simp: canonical_error_def stored_form_def)
  then show ?thesis using Inr by (simp add: graph_snapshot_Ok)
qed

lemma collect_graphs_decode:
  assumes "names ordinals ids" "\<forall>s\<in>set ss. fact_count s < 2 ^ 32"
  shows "(\<exists>gs. collect_results (graph_snapshot ordinals) ss = Ok gs
      \<and> collect_results (decode_graph_snapshot ids) gs = Ok (map stored_form ss)) \<longleftrightarrow> list_all (wire_snapshot \<circ> stored_form) ss"
  using assms(2)
proof (induction ss)
  case (Cons s ss)
  have "(\<exists>gs. collect_results (graph_snapshot ordinals) (s # ss) = Ok gs
        \<and> collect_results (decode_graph_snapshot ids) gs = Ok (map stored_form (s # ss)))
      \<longleftrightarrow> (\<exists>g. graph_snapshot ordinals s = Ok g \<and> decode_graph_snapshot ids g = Ok (stored_form s))
        \<and> (\<exists>gs. collect_results (graph_snapshot ordinals) ss = Ok gs
            \<and> collect_results (decode_graph_snapshot ids) gs = Ok (map stored_form ss))"
    by (fastforce simp: and_then_eq_Ok)
  then show ?case using Cons graph_snapshot_decodes[OF assms(1), of s] by simp
qed simp

lemma collect_graphs_ids:
  assumes "collect_results (graph_snapshot ordinals) ss = Ok gs" "\<forall>s\<in>set ss. fact_count s < 2 ^ 32"
  shows "concat (map (\<lambda>g. map gsy_id (gsn_symbols g)) gs) = symbol_ids ss"
  using assms
proof (induction ss arbitrary: gs)
  case (Cons s ss)
  then show ?case using graph_snapshot_ids[of ordinals s] by (auto simp: and_then_eq_Ok symbol_ids_def o_def)
qed (simp add: symbol_ids_def)

lemma decode_of_envelope:
  "dec_env C bytes = Some (envelope_of C gs) \<Longrightarrow> decode_snapshots C bytes = decode_graph_artifact gs"
  by (simp add: decode_snapshots_def envelope_of_def ok_or_def Let_def)

text \<open>
  C11. A stored artifact is read back exactly: the snapshots are encoded with local ordinals, inherited
  provenance indexes, length and checksum, and decoding the bytes returns them without their applications,
  if and only if every one is representable on the wire in that form. The ids an ordinal replaces are
  found again because the decoder numbers the symbols of the artifact in the same order, provided there
  are at most 2^32 of them, and the protobuf library decodes the envelopes it encodes.
\<close>

theorem artifact_roundtrip_exact:
  assumes "\<forall>s\<in>set ss. fact_count s < 2 ^ 32" "length (symbol_ids ss) \<le> 2 ^ 32"
    and "\<And>gs. graph_of_snapshots ss = Ok gs \<Longrightarrow> dec_env C (enc_env C (envelope_of C gs)) = Some (envelope_of C gs)"
  shows "(\<exists>bytes. encode_snapshots C ss = Ok bytes \<and> decode_snapshots C bytes = Ok (map stored_form ss))
    \<longleftrightarrow> list_all (wire_snapshot \<circ> stored_form) ss"
proof -
  let ?ordinals = "local_ordinals (symbol_ids ss)"
  have "(\<exists>bytes. encode_snapshots C ss = Ok bytes \<and> decode_snapshots C bytes = Ok (map stored_form ss))
      \<longleftrightarrow> (\<exists>gs. graph_of_snapshots ss = Ok gs \<and> decode_graph_artifact gs = Ok (map stored_form ss))"
    using decode_of_envelope assms(3) by (auto simp: encode_snapshots_def and_then_eq_Ok)
  also have "\<dots> \<longleftrightarrow> (\<exists>gs. collect_results (graph_snapshot ?ordinals) ss = Ok gs
      \<and> collect_results (decode_graph_snapshot (symbol_ids ss)) gs = Ok (map stored_form ss))"
    using collect_graphs_ids[OF _ assms(1)] by (auto simp: graph_of_snapshots_def decode_graph_artifact_def)
  also have "\<dots> \<longleftrightarrow> list_all (wire_snapshot \<circ> stored_form) ss"
    by (rule collect_graphs_decode[OF names_local_ordinals[OF assms(2)] assms(1)])
  finally show ?thesis .
qed

definition sample_codec :: "graph_artifact \<Rightarrow> artifact_codec" where
  "sample_codec gs =
     \<lparr> enc_graph = (\<lambda>g. ''payload''), enc_env = (\<lambda>e. ''envelope''),
       dec_env = (\<lambda>b. Some \<lparr> gen_format_version = 1, gen_payload_length = 7, gen_payload_sha256 = ''7'', gen_artifact = Some gs \<rparr>),
       art_sha256 = (\<lambda>b. ''7'') \<rparr>"

definition sample_artifact :: "source_occurrence list \<Rightarrow> file_analysis_snapshot list" where
  "sample_artifact occurrences =
     [(sample_snapshot ''a'' ''1'' [sample_symbol ''a'' ''s'' ''run'', sample_symbol ''a'' ''t'' ''stop''])
        \<lparr>snap_occurrences := occurrences\<rparr>]"

theorem artifact_roundtrip_exact_witness:
  "\<exists>gs bytes. graph_of_snapshots (sample_artifact [sample_type_occurrence\<lparr>occ_kind := OCall, occ_target := Some (SymbolId ''t'')\<rparr>]) = Ok gs
     \<and> encode_snapshots (sample_codec gs) (sample_artifact [sample_type_occurrence\<lparr>occ_kind := OCall, occ_target := Some (SymbolId ''t'')\<rparr>]) = Ok bytes
     \<and> decode_snapshots (sample_codec gs) bytes
        = Ok (map stored_form (sample_artifact [sample_type_occurrence\<lparr>occ_kind := OCall, occ_target := Some (SymbolId ''t'')\<rparr>]))"
proof -
  let ?ss = "sample_artifact [sample_type_occurrence\<lparr>occ_kind := OCall, occ_target := Some (SymbolId ''t'')\<rparr>]"
  have count: "\<forall>s\<in>set ?ss. fact_count s < 2 ^ 32" "length (symbol_ids ?ss) \<le> 2 ^ 32"
    by (simp_all add: sample_artifact_def sample_snapshot_def fact_count_def symbol_ids_def)
  have wire: "list_all (wire_snapshot \<circ> stored_form) ?ss" by code_simp
  then obtain gs where gs: "graph_of_snapshots ?ss = Ok gs"
    using collect_graphs_decode[OF names_local_ordinals[OF count(2)] count(1)] by (auto simp: graph_of_snapshots_def)
  have "dec_env (sample_codec gs) (enc_env (sample_codec gs) (envelope_of (sample_codec gs) g)) = Some (envelope_of (sample_codec gs) g)"
    if "graph_of_snapshots ?ss = Ok g" for g
    using that gs by (simp add: sample_codec_def envelope_of_def ARTIFACT_FORMAT_VERSION_def)
  then show ?thesis using artifact_roundtrip_exact[OF count, of "sample_codec gs"] wire gs by blast
qed

text \<open>
  Nothing is read from a damaged artifact: decoding succeeds exactly when the envelope decodes, has the
  current format version and holds an artifact whose encoding has the announced length and checksum, and
  the artifact itself decodes; every snapshot it then returns owns its facts.
\<close>

theorem stored_artifact_is_checked:
  "decode_snapshots C bytes = Ok ss \<longleftrightarrow>
     (\<exists>e artifact. dec_env C bytes = Some e \<and> gen_format_version e = 1 \<and> gen_artifact e = Some artifact
        \<and> gen_payload_length e = of_nat (length (enc_graph C artifact))
        \<and> gen_payload_sha256 e = art_sha256 C (enc_graph C artifact) \<and> decode_graph_artifact artifact = Ok ss
        \<and> list_all (\<lambda>s. \<exists>T. owned_snapshot T s) ss)"
proof -
  have "list_all (\<lambda>s. \<exists>T. owned_snapshot T s) ss" if decoded: "decode_graph_artifact artifact = Ok ss" for artifact
    unfolding list_all_iff
  proof
    fix s assume "s \<in> set ss"
    then obtain ids g where "decode_graph_snapshot ids g = Ok s"
      using collect_results_mem[of _ artifact ss s] decoded unfolding decode_graph_artifact_def Let_def by metis
    then obtain v where "canonical_error (decode_snapshot v) = Ok s" by (auto simp: decode_graph_snapshot_def and_then_eq_Ok)
    then have "decode_snapshot v = Ok s" by (cases "decode_snapshot v") (auto simp: canonical_error_def)
    then show "\<exists>T. owned_snapshot T s" using decoded_snapshot_owned by blast
  qed
  moreover have "decode_snapshots C bytes = Ok ss \<longleftrightarrow>
      (\<exists>e artifact. dec_env C bytes = Some e \<and> gen_format_version e = 1 \<and> gen_artifact e = Some artifact
         \<and> gen_payload_length e = of_nat (length (enc_graph C artifact))
         \<and> gen_payload_sha256 e = art_sha256 C (enc_graph C artifact) \<and> decode_graph_artifact artifact = Ok ss)"
    by (auto simp: decode_snapshots_def and_then_eq_Ok ok_or_eq_Ok ARTIFACT_FORMAT_VERSION_def Let_def)
  ultimately show ?thesis by blast
qed

text \<open>The finding: an ordinal without a symbol is read as an empty id or as no id, not refused.\<close>

lemma dangling_ordinal_is_accepted:
  assumes "length ids \<le> unat i"
  shows "local_id_or_default s (Some i) ids = []" and "local_optional None (Some i) ids = None"
  using assms by (simp_all add: local_id_or_default_def local_id_def local_optional_def nth_id_def ok_or_def)

end
