(* ===== verification/Blob_Detail.thy ===== *)
theory Blob_Detail
  imports Artifact_Adapter
begin

text \<open>
  The detail blocks of a stored artifact (\<open>crates/kide-core/src/artifact_blob_layout.rs\<close>): the symbols of a graph
  in runs of at most 256, with the values a run shares stored once and long repeated strings kept in a table. The
  lemmas show that nothing is lost: a symbol read from its block alone is the one the whole graph decodes to.
\<close>

section \<open>The string table of a block\<close>

definition STRING_INTERN_MIN_OCCURRENCES :: usize where "STRING_INTERN_MIN_OCCURRENCES = 3"

definition STRING_INTERN_MIN_BYTES :: usize where "STRING_INTERN_MIN_BYTES = 8"

record string_table =
  stb_values :: "string list"
  stb_indexes :: "(string, u32) btree"

text \<open>\<open>*counts.entry(value.clone()).or_default() += 1\<close>.\<close>

definition count_string :: "string \<Rightarrow> (string, usize) btree \<Rightarrow> (string, usize) btree" where
  "count_string v counts =
     btree_insert v (Suc (case btree_get counts v of None \<Rightarrow> 0 | Some n \<Rightarrow> n)) counts"

definition option_list :: "'a option \<Rightarrow> 'a list" where
  "option_list x = (case x of None \<Rightarrow> [] | Some v \<Rightarrow> [v])"

definition symbol_strings :: "g_symbol \<Rightarrow> string list" where
  "symbol_strings s =
     [gsy_backend_key s, gsy_kind s, gsy_name s]
     @ option_list (gsy_qualified_name s) @ option_list (gsy_signature s) @ option_list (gsy_owner_id s)
     @ gsy_modifiers s @ gsy_applied_symbol_ids s"

definition from_symbols :: "g_symbol list \<Rightarrow> string_table" where
  "from_symbols symbols =
     (let counts = fold (\<lambda>s. fold count_string (symbol_strings s)) symbols [];
          values = map fst (filter (\<lambda>(v, occurrences).
            STRING_INTERN_MIN_OCCURRENCES \<le> occurrences \<and> STRING_INTERN_MIN_BYTES \<le> length v) counts)
      in \<lparr> stb_values = values, stb_indexes = zip values (map of_nat [0..<length values]) \<rparr>)"

definition stb_index :: "string_table \<Rightarrow> string \<Rightarrow> u32 option" where
  "stb_index t v = btree_get (stb_indexes t) v"

text \<open>\<open>collect::<Option<Vec<_>>>().unwrap_or_default()\<close>.\<close>

definition stb_indexes_of :: "string_table \<Rightarrow> string list \<Rightarrow> u32 list" where
  "stb_indexes_of t vs = (case those (map (stb_index t) vs) of None \<Rightarrow> [] | Some is \<Rightarrow> is)"

definition stb_inline :: "string_table \<Rightarrow> string \<Rightarrow> string" where
  "stb_inline t v = (if stb_index t v = None then v else [])"

definition stb_inline_optional :: "string_table \<Rightarrow> string option \<Rightarrow> string option" where
  "stb_inline_optional t v = Option.bind v (\<lambda>v. if stb_index t v = None then Some v else None)"

definition stb_inline_many :: "string_table \<Rightarrow> string list \<Rightarrow> string list" where
  "stb_inline_many t vs = (if stb_indexes_of t vs = [] then vs else [])"

section \<open>Shared values and entries\<close>

definition common_symbol_field :: "(g_symbol \<Rightarrow> string) \<Rightarrow> g_symbol list \<Rightarrow> string" where
  "common_symbol_field field symbols =
     (case symbols of [] \<Rightarrow> []
      | first # _ \<Rightarrow> if list_all (\<lambda>s. field s = field first) symbols then field first else [])"

definition common_symbol_option :: "(g_symbol \<Rightarrow> u32 option) \<Rightarrow> g_symbol list \<Rightarrow> u32 option" where
  "common_symbol_option field symbols =
     (let value = (case symbols of [] \<Rightarrow> None | first # _ \<Rightarrow> field first)
      in if list_all (\<lambda>s. field s = value) symbols then value else None)"

definition snapshot_defaults :: "g_snapshot \<Rightarrow> g_symbol list \<Rightarrow> g_defaults" where
  "snapshot_defaults snapshot symbols =
     \<lparr> gdf_source_unit = gsn_source_unit snapshot, gdf_provenances = gsn_provenances snapshot,
       gdf_language = common_symbol_field gsy_language symbols,
       gdf_freshness = common_symbol_field gsy_freshness symbols,
       gdf_completeness = common_symbol_field gsy_completeness symbols,
       gdf_component_id = common_symbol_field gsy_component_id symbols,
       gdf_provenance_index = common_symbol_option gsy_provenance_index symbols, gdf_string_table = [] \<rparr>"

text \<open>\<open>(value != default).then(|| value.clone())\<close>.\<close>

definition unless_default :: "string \<Rightarrow> string \<Rightarrow> string option" where
  "unless_default v shared = (if v \<noteq> shared then Some v else None)"

definition symbol_detail :: "g_defaults \<Rightarrow> string_table \<Rightarrow> g_symbol \<Rightarrow> g_detail" where
  "symbol_detail defaults t s =
     \<lparr> gde_id = gsy_id s, gde_backend_key = stb_inline t (gsy_backend_key s),
       gde_backend_schema_version = gsy_backend_schema_version s, gde_kind = stb_inline t (gsy_kind s),
       gde_name = stb_inline t (gsy_name s), gde_qualified_name = stb_inline_optional t (gsy_qualified_name s),
       gde_signature = stb_inline_optional t (gsy_signature s), gde_declaration = gsy_declaration s,
       gde_name_range = gsy_name_range s, gde_owner_id = stb_inline_optional t (gsy_owner_id s),
       gde_modifiers = stb_inline_many t (gsy_modifiers s),
       gde_applied_symbol_ids = stb_inline_many t (gsy_applied_symbol_ids s),
       gde_language = unless_default (gsy_language s) (gdf_language defaults),
       gde_freshness = unless_default (gsy_freshness s) (gdf_freshness defaults),
       gde_completeness = unless_default (gsy_completeness s) (gdf_completeness defaults),
       gde_component_id = unless_default (gsy_component_id s) (gdf_component_id defaults),
       gde_provenance_index =
         (if gsy_provenance_index s \<noteq> gdf_provenance_index defaults then gsy_provenance_index s else None),
       gde_backend_key_string_index = stb_index t (gsy_backend_key s),
       gde_kind_string_index = stb_index t (gsy_kind s), gde_name_string_index = stb_index t (gsy_name s),
       gde_qualified_name_string_index = Option.bind (gsy_qualified_name s) (stb_index t),
       gde_signature_string_index = Option.bind (gsy_signature s) (stb_index t),
       gde_owner_id_string_index = Option.bind (gsy_owner_id s) (stb_index t),
       gde_modifier_string_indexes = stb_indexes_of t (gsy_modifiers s),
       gde_applied_symbol_string_indexes = stb_indexes_of t (gsy_applied_symbol_ids s) \<rparr>"

definition SYMBOL_DETAIL_BLOCK_ENTRY_CAPACITY :: usize where "SYMBOL_DETAIL_BLOCK_ENTRY_CAPACITY = 256"

definition detail_block :: "g_snapshot \<Rightarrow> u32 \<Rightarrow> g_symbol list \<Rightarrow> g_detail_block" where
  "detail_block snapshot start entries =
     (let t = from_symbols entries;
          defaults = (snapshot_defaults snapshot entries)\<lparr>gdf_string_table := stb_values t\<rparr>
      in \<lparr> gdb_first_symbol_ordinal = start, gdb_defaults = Some defaults,
           gdb_entries = map (symbol_detail defaults t) entries \<rparr>)"

text \<open>The loop over the snapshots, with the running first ordinal: every block with its interval of ordinals.\<close>

definition snapshot_blocks :: "u32 \<Rightarrow> g_snapshot \<Rightarrow> (g_detail_block \<times> u32 \<times> u32) list" where
  "snapshot_blocks first s =
     map (\<lambda>(k, entries).
            let start = first + of_nat (k * SYMBOL_DETAIL_BLOCK_ENTRY_CAPACITY)
            in (detail_block s start entries, start, start + of_nat (length entries)))
         (enumerate 0 (chunks SYMBOL_DETAIL_BLOCK_ENTRY_CAPACITY (gsn_symbols s)))"

fun detail_blocks :: "u32 \<Rightarrow> graph_artifact \<Rightarrow> (g_detail_block \<times> u32 \<times> u32) list" where
  "detail_blocks first [] = []"
| "detail_blocks first (s # ss) = snapshot_blocks first s @ detail_blocks (first + of_nat (length (gsn_symbols s))) ss"

section \<open>An entry loses nothing but the owner's ordinal\<close>

lemma from_symbols_names:
  assumes "length (stb_values (from_symbols symbols)) \<le> 2 ^ 32"
  shows "names (stb_index (from_symbols symbols)) (stb_values (from_symbols symbols))"
  unfolding names_def
proof (intro allI impI)
  fix s i assume "stb_index (from_symbols symbols) s = Some i"
  then have "(s, i) \<in> set (stb_indexes (from_symbols symbols))" by (auto simp: stb_index_def dest: map_of_SomeD)
  then obtain j where j: "j < length (stb_values (from_symbols symbols))" "s = stb_values (from_symbols symbols) ! j" "i = of_nat j"
    by (auto simp: from_symbols_def Let_def set_zip)
  then have "unat i = j" using assms unat_of_index[of j] by simp
  then show "nth_id (stb_values (from_symbols symbols)) i = Some s" using j by (simp add: nth_id_def)
qed

lemma detail_string_inline [codec_simps]:
  "names (stb_index t) table \<Longrightarrow> detail_string table (stb_inline t v) (stb_index t v) = Ok v"
  by (cases "stb_index t v") (auto simp: detail_string_def stb_inline_def names_def ok_or_def)

lemma detail_optional_inline [codec_simps]:
  assumes "names (stb_index t) table"
  shows "detail_optional table (stb_inline_optional t v) (Option.bind v (stb_index t)) = Ok v"
proof (cases v)
  case (Some s)
  then show ?thesis using assms
    by (cases "stb_index t s")
      (auto simp: detail_optional_def stb_inline_optional_def transpose_def detail_string_def names_def ok_or_def)
qed (simp add: detail_optional_def stb_inline_optional_def transpose_def)

lemma those_Some: "those (map f xs) = Some ys \<longleftrightarrow> list_all2 (\<lambda>x y. f x = Some y) xs ys"
proof (induction xs arbitrary: ys)
  case (Cons x xs)
  then show ?case by (auto simp: list_all2_Cons1 split: option.splits)
qed auto

lemma detail_strings_inline [codec_simps]:
  assumes "names (stb_index t) table"
  shows "detail_strings table (stb_inline_many t vs) (stb_indexes_of t vs) = Ok vs"
proof (cases "stb_indexes_of t vs = []")
  case False
  then obtain "is" where "those (map (stb_index t) vs) = Some is" "is = stb_indexes_of t vs"
    by (auto simp: stb_indexes_of_def split: option.splits)
  then have "list_all2 (\<lambda>v i. stb_index t v = Some i) vs (stb_indexes_of t vs)" using those_Some by blast
  then have "collect_results (\<lambda>i. ok_or ArtifactLengthMismatch (nth_id table i)) (stb_indexes_of t vs) = Ok vs"
    using assms by (auto simp: collect_results_Ok list_all2_conv_all_nth names_def ok_or_def)
  then show ?thesis using False by (simp add: detail_strings_def)
qed (simp add: detail_strings_def stb_inline_many_def)

lemma unless_default [codec_simps]: "(case unless_default v d of None \<Rightarrow> d | Some x \<Rightarrow> x) = v"
  by (simp add: unless_default_def)

lemma detail_symbol_roundtrip:
  assumes "names (stb_index t) (gdf_string_table defaults)"
  shows "detail_symbol defaults (symbol_detail defaults t s)
    = Ok (s\<lparr>gsy_provenance_index := None, gsy_owner_symbol_ordinal := None\<rparr>)"
  using assms by (cases s) (simp add: detail_symbol_def symbol_detail_def Let_def codec_simps)

section \<open>The block of an ordinal\<close>

text \<open>The runs of symbols the blocks hold, and the symbols of the artifact, each with its snapshot.\<close>

definition pieces :: "graph_artifact \<Rightarrow> (g_snapshot \<times> g_symbol list) list" where
  "pieces g = concat (map (\<lambda>s. map (Pair s) (chunks SYMBOL_DETAIL_BLOCK_ENTRY_CAPACITY (gsn_symbols s))) g)"

definition symbols_of :: "graph_artifact \<Rightarrow> (g_snapshot \<times> g_symbol) list" where
  "symbols_of g = concat (map (\<lambda>s. map (Pair s) (gsn_symbols s)) g)"

fun piece_blocks :: "u32 \<Rightarrow> (g_snapshot \<times> g_symbol list) list \<Rightarrow> (g_detail_block \<times> u32 \<times> u32) list" where
  "piece_blocks first [] = []"
| "piece_blocks first ((s, es) # ps) =
     (detail_block s first es, first, first + of_nat (length es)) # piece_blocks (first + of_nat (length es)) ps"

lemma piece_blocks_append:
  "piece_blocks f (ps @ qs) = piece_blocks f ps @ piece_blocks (f + of_nat (length (concat (map snd ps)))) qs"
  by (induction ps arbitrary: f) (auto simp: add.assoc)

lemma chunk_starts:
  "map (\<lambda>(k, es). let start = first + of_nat (k * 256) in (detail_block s start es, start, start + of_nat (length es)))
     (enumerate m (chunks 256 xs)) = piece_blocks (first + of_nat (m * 256)) (map (Pair s) (chunks 256 xs))"
proof (induction "256 :: nat" xs arbitrary: m rule: chunks.induct)
  case (1 xs)
  show ?case
  proof (cases "xs = []")
    case False
    have "piece_blocks (first + of_nat (m * 256) + of_nat (length (take 256 xs))) (map (Pair s) (chunks 256 (drop 256 xs)))
        = piece_blocks (first + of_nat (Suc m * 256)) (map (Pair s) (chunks 256 (drop 256 xs)))"
    proof (cases "length xs \<le> 256")
      case True
      then show ?thesis by (simp add: chunks.simps)
    next
      case False
      then have "length (take 256 xs) = 256" by simp
      then show ?thesis by (simp add: ac_simps)
    qed
    then show ?thesis using False 1[OF _, of "Suc m"] by (simp add: chunks.simps[of 256 xs] Let_def)
  qed (simp add: chunks.simps)
qed

lemma detail_blocks_pieces: "detail_blocks first g = piece_blocks first (pieces g)"
proof (induction g arbitrary: first)
  case (Cons s g)
  have "snapshot_blocks first s = piece_blocks first (map (Pair s) (chunks 256 (gsn_symbols s)))"
    using chunk_starts[of first s 0 "gsn_symbols s"] by (simp add: snapshot_blocks_def SYMBOL_DETAIL_BLOCK_ENTRY_CAPACITY_def)
  then show ?case using Cons
    by (simp add: pieces_def piece_blocks_append SYMBOL_DETAIL_BLOCK_ENTRY_CAPACITY_def comp_def concat_chunks)
qed (simp add: pieces_def)

lemma pieces_symbols: "concat (map (\<lambda>(s, es). map (Pair s) es) (pieces g)) = symbols_of g"
proof (induction g)
  case (Cons s g)
  have "concat (map (map (Pair s)) (chunks 256 (gsn_symbols s))) = map (Pair s) (gsn_symbols s)"
    by (simp flip: map_concat add: concat_chunks)
  with Cons show ?case
    by (simp add: pieces_def symbols_of_def SYMBOL_DETAIL_BLOCK_ENTRY_CAPACITY_def comp_def)
qed (simp add: pieces_def symbols_of_def)

definition covers :: "u32 \<Rightarrow> g_detail_block \<times> u32 \<times> u32 \<Rightarrow> bool" where
  "covers ordinal = (\<lambda>(b, start, stop). start \<le> ordinal \<and> ordinal < stop)"

lemma covers_of_nat:
  "k < 2 ^ 32 \<Longrightarrow> m < 2 ^ 32 \<Longrightarrow> n < 2 ^ 32 \<Longrightarrow> covers (of_nat k) (b, of_nat m, of_nat n) \<longleftrightarrow> m \<le> k \<and> k < n"
  by (simp add: covers_def word_le_nat_alt word_less_nat_alt unat_of_index)

lemma find_piece:
  assumes "f + length (concat (map snd ps)) < 2 ^ 32" "f \<le> k" "k < f + length (concat (map snd ps))"
  shows "\<exists>s es st. find (covers (of_nat k)) (piece_blocks (of_nat f) ps)
        = Some (detail_block s (of_nat st) es, of_nat st, of_nat (st + length es))
      \<and> (s, es) \<in> set ps \<and> st \<le> k \<and> k < st + length es
      \<and> (s, es ! (k - st)) = concat (map (\<lambda>(s, es). map (Pair s) es) ps) ! (k - f)"
  using assms
proof (induction ps arbitrary: f)
  case (Cons p ps)
  obtain s es where p: "p = (s, es)" by force
  have small: "k < 2 ^ 32" "f < 2 ^ 32" "f + length es < 2 ^ 32" using Cons.prems p by simp_all
  then have hit: "covers (of_nat k) (b, of_nat f, of_nat f + of_nat (length es)) \<longleftrightarrow> k < f + length es" for b
    using covers_of_nat[of k f "f + length es"] Cons.prems(2) by simp
  show ?case
  proof (cases "k < f + length es")
    case True
    then show ?thesis
      using Cons.prems(2) hit p by (intro exI[of _ s] exI[of _ es] exI[of _ f]) (auto simp: nth_append)
  next
    case False
    obtain s' es' st where found: "find (covers (of_nat k)) (piece_blocks (of_nat (f + length es)) ps)
        = Some (detail_block s' (of_nat st) es', of_nat st, of_nat (st + length es'))"
        "(s', es') \<in> set ps" "st \<le> k" "k < st + length es'"
        "(s', es' ! (k - st)) = concat (map (\<lambda>(s, es). map (Pair s) es) ps) ! (k - (f + length es))"
      using Cons.IH[of "f + length es"] Cons.prems False p by (auto simp: add.assoc)
    show ?thesis
      using found hit False p
      by (intro exI[of _ s'] exI[of _ es'] exI[of _ st]) (auto simp: nth_append)
  qed
qed simp

section \<open>A symbol read from its block\<close>

text \<open>What the whole graph decodes one of its symbols to.\<close>

definition decodes_in :: "string list \<Rightarrow> g_snapshot \<times> g_symbol \<Rightarrow> symbol_record \<Rightarrow> bool" where
  "decodes_in ids = (\<lambda>(s, y) x. \<exists>unit u i p. gsn_source_unit s = Some unit \<and> decode_source_unit (p_of_unit unit) = Ok u
     \<and> gsn_provenance_index s = Some i
     \<and> holds_at (map (decode_provenance \<circ> p_of_provenance) (gsn_provenances s)) (or_index (gsy_provenance_index y) i) p
     \<and> decode_symbol_declaration u p (p_of_symbol i ids y) = Ok x)"

lemma graph_snapshot_symbols:
  assumes "decode_graph_snapshot ids s = Ok r"
  shows "list_all2 (\<lambda>y. decodes_in ids (s, y)) (gsn_symbols s) (snap_symbols r)"
proof -
  obtain i where i: "gsn_provenance_index s = Some i" and "canonical_error (decode_snapshot (p_of_snapshot ids s i)) = Ok r"
    using assms by (auto simp: decode_graph_snapshot_def and_then_eq_Ok ok_or_eq_Ok)
  then have decoded: "decode_snapshot (p_of_snapshot ids s i) = Ok r"
    by (cases "decode_snapshot (p_of_snapshot ids s i)") (auto simp: canonical_error_def)
  then obtain unit where unit: "gsn_source_unit s = Some unit" "decode_source_unit (p_of_unit unit) = Ok (snap_source_unit r)"
    by (auto simp: decode_snapshot_Ok p_of_snapshot_def)
  have "collect_results (with_provenance (map decode_provenance (psn_provenances (p_of_snapshot ids s i)))
      ''symbol.provenance_index'' psd_provenance_index (decode_symbol_declaration (snap_source_unit r)))
      (psn_symbols (p_of_snapshot ids s i)) = Ok (snap_symbols r)"
    using decoded unfolding decode_snapshot_Ok Let_def by blast
  then have "list_all2 (\<lambda>y x. with_provenance (map (decode_provenance \<circ> p_of_provenance) (gsn_provenances s))
      ''symbol.provenance_index'' psd_provenance_index (decode_symbol_declaration (snap_source_unit r)) (p_of_symbol i ids y) = Ok x)
      (gsn_symbols s) (snap_symbols r)"
    by (simp add: p_of_snapshot_def collect_results_Ok list_all2_map1 comp_def)
  then show ?thesis
  proof (rule list_all2_mono)
    fix y x
    assume "with_provenance (map (decode_provenance \<circ> p_of_provenance) (gsn_provenances s))
      ''symbol.provenance_index'' psd_provenance_index (decode_symbol_declaration (snap_source_unit r)) (p_of_symbol i ids y) = Ok x"
    then obtain p where "holds_at (map (decode_provenance \<circ> p_of_provenance) (gsn_provenances s))
        (psd_provenance_index (p_of_symbol i ids y)) p"
        "decode_symbol_declaration (snap_source_unit r) p (p_of_symbol i ids y) = Ok x"
      by (auto simp: with_provenance_Ok)
    moreover have "psd_provenance_index (p_of_symbol i ids y) = or_index (gsy_provenance_index y) i"
      by (simp add: p_of_symbol_def)
    ultimately show "decodes_in ids (s, y) x"
      using i unit unfolding decodes_in_def by auto
  qed
qed

definition graph_ids :: "graph_artifact \<Rightarrow> string list" where
  "graph_ids g = concat (map (\<lambda>s. map gsy_id (gsn_symbols s)) g)"

lemma graphs_symbols:
  "list_all2 (\<lambda>s r. decode_graph_snapshot ids s = Ok r) g ss
     \<Longrightarrow> list_all2 (decodes_in ids) (symbols_of g) (concat (map snap_symbols ss))"
proof (induction g ss rule: list_all2_induct)
  case (Cons s g r ss)
  then show ?case
    using graph_snapshot_symbols[of ids s r] by (simp add: symbols_of_def list_all2_appendI list_all2_map1)
qed (simp add: symbols_of_def)

lemma artifact_symbols:
  "decode_graph_artifact g = Ok ss \<Longrightarrow> list_all2 (decodes_in (graph_ids g)) (symbols_of g) (concat (map snap_symbols ss))"
  by (rule graphs_symbols) (simp add: decode_graph_artifact_def graph_ids_def collect_results_Ok)

text \<open>The provenance index of an entry: its own, and zero where it inherits, whatever its snapshot says.\<close>

lemma detail_provenance_index:
  assumes "y \<in> set es" "gdf_provenance_index defaults = common_symbol_option gsy_provenance_index es"
  shows "(case gde_provenance_index (symbol_detail defaults t y) of Some i \<Rightarrow> i
      | None \<Rightarrow> (case gdf_provenance_index defaults of Some i \<Rightarrow> i | None \<Rightarrow> 0)) = or_index (gsy_provenance_index y) 0"
proof (cases "common_symbol_option gsy_provenance_index es")
  case None
  then show ?thesis using assms(2) by (auto simp: symbol_detail_def or_index_def split: option.splits)
next
  case (Some i)
  then have "gsy_provenance_index y = Some i"
    using assms(1) by (auto simp: common_symbol_option_def Let_def list_all_iff split: if_splits list.splits)
  then show ?thesis using Some assms(2) by (simp add: symbol_detail_def or_index_def)
qed

text \<open>
  What a reader of the block gets of a symbol of the graph: the owner only as far as its id is stored with the
  symbol, and where the symbol inherits its provenance the first one of the snapshot, whose backend is then also
  that of the symbol's key.
\<close>

definition with_detail :: "symbol_id option \<Rightarrow> provenance \<Rightarrow> symbol_record \<Rightarrow> symbol_record" where
  "with_detail owner p x = x\<lparr>sym_owner := owner, sym_provenance := p,
     sym_backend_key := (sym_backend_key x)\<lparr>bk_backend := prov_backend p\<rparr>\<rparr>"

definition detail_view :: "g_snapshot \<times> g_symbol \<Rightarrow> symbol_record \<Rightarrow> symbol_record" where
  "detail_view = (\<lambda>(s, y). with_detail (map_option SymbolId (gsy_owner_id y))
     (decode_provenance (p_of_provenance (gsn_provenances s ! unat (or_index (gsy_provenance_index y) 0)))))"

lemma decode_without_ordinal:
  assumes "decode_symbol_declaration u p (p_of_symbol i ids y) = Ok x"
  shows "decode_symbol_declaration u p' (p_of_symbol 0 [gsy_id y]
      (y\<lparr>gsy_provenance_index := None, gsy_owner_symbol_ordinal := None\<rparr>))
    = Ok (with_detail (map_option SymbolId (gsy_owner_id y)) p' x)"
  using assms
  by (cases y) (auto simp: with_detail_def decode_symbol_declaration_def p_of_symbol_def and_then_eq_Ok local_optional_def)

lemma decode_detail:
  assumes "decodes_in ids (s, y) x"
    and "start \<le> ordinal" "unat (ordinal - start) < length es" "es ! unat (ordinal - start) = y"
    and "length (stb_values (from_symbols es)) \<le> 2 ^ 32"
  shows "decode_symbol_detail (detail_block s start es) ordinal = Ok (detail_view (s, y) x)"
proof -
  let ?t = "from_symbols es" and ?j = "unat (ordinal - start)"
  let ?d = "(snapshot_defaults s es)\<lparr>gdf_string_table := stb_values ?t\<rparr>"
  let ?y = "y\<lparr>gsy_provenance_index := None, gsy_owner_symbol_ordinal := None\<rparr>"
  let ?i = "unat (or_index (gsy_provenance_index y) 0)"
  let ?p = "decode_provenance (p_of_provenance (gsn_provenances s ! ?i))"
  obtain unit u i p where unit: "gsn_source_unit s = Some unit" "decode_source_unit (p_of_unit unit) = Ok u"
    and held: "holds_at (map (decode_provenance \<circ> p_of_provenance) (gsn_provenances s)) (or_index (gsy_provenance_index y) i) p"
    and dec: "decode_symbol_declaration u p (p_of_symbol i ids y) = Ok x"
    using assms(1) by (auto simp: decodes_in_def)
  have y: "y \<in> set es" using assms(3,4) nth_mem by blast
  have index: "(case gde_provenance_index (symbol_detail ?d ?t y) of Some i \<Rightarrow> i
      | None \<Rightarrow> (case gdf_provenance_index ?d of Some i \<Rightarrow> i | None \<Rightarrow> 0)) = or_index (gsy_provenance_index y) 0"
    by (rule detail_provenance_index[OF y]) (simp add: snapshot_defaults_def)
  have prov: "?i < length (gsn_provenances s)"
    using held by (cases "gsy_provenance_index y") (auto simp: holds_at_def or_index_def)
  have fields: "gdf_source_unit ?d = Some unit" "gdf_provenances ?d = gsn_provenances s"
    using unit(1) by (simp_all add: snapshot_defaults_def)
  have detail: "detail_symbol ?d (symbol_detail ?d ?t y) = Ok ?y"
    by (rule detail_symbol_roundtrip) (simp add: from_symbols_names[OF assms(5)])
  have one: "psd_provenance_index (p_of_symbol 0 [gsy_id ?y] ?y) = 0" by (simp add: p_of_symbol_def or_index_def)
  have "decode_graph_snapshot [gsy_id ?y]
       \<lparr> gsn_source_unit = Some unit, gsn_structural_fingerprint = None, gsn_public_api_fingerprint = None,
         gsn_provenances = [gsn_provenances s ! ?i], gsn_symbols = [?y], gsn_occurrences = [],
         gsn_references = [], gsn_calls = [], gsn_hierarchy = [], gsn_types = [], gsn_diagnostics = [],
         gsn_completeness = ''partial'', gsn_provenance_index = Some 0 \<rparr>
    = Ok \<lparr> snap_source_unit = u, snap_structural_fingerprint = None, snap_public_api_fingerprint = None,
         snap_symbols = [detail_view (s, y) x], snap_applications = [],
         snap_occurrences = [], snap_references = [], snap_calls = [], snap_hierarchy = [], snap_types = [],
         snap_diagnostics = [], snap_completeness = Partial, snap_provenance = ?p \<rparr>"
    using decode_without_ordinal[OF dec, of ?p] one unit(2)
    by (simp add: decode_graph_snapshot_def p_of_snapshot_def decode_snapshot_def ok_or_def indexed_provenance_def
        with_provenance_def canonical_error_def decode_completeness_def decode_named_def detail_view_def)
  then show ?thesis
    using assms(2-4) index prov fields detail
    by (simp add: decode_symbol_detail_def detail_block_def Let_def ok_or_def not_less)
qed

section \<open>Every symbol of the artifact\<close>

definition artifact_strings :: "graph_artifact \<Rightarrow> string list" where
  "artifact_strings g = concat (map (\<lambda>(s, y). symbol_strings y) (symbols_of g))"

lemma length_count_string: "length (count_string v m) \<le> Suc (length m)"
proof -
  have "length (btree_insert v n m) \<le> Suc (length m)" for n by (induction m) auto
  then show ?thesis by (simp add: count_string_def)
qed

lemma length_from_symbols: "length (stb_values (from_symbols es)) \<le> length (concat (map symbol_strings es))"
proof -
  have one: "length (fold count_string vs m) \<le> length vs + length m" for vs m
  proof (induction vs arbitrary: m)
    case (Cons v vs)
    show ?case using Cons[of "count_string v m"] length_count_string[of v m] by simp
  qed simp
  have "length (fold (\<lambda>s. fold count_string (symbol_strings s)) es m) \<le> length (concat (map symbol_strings es)) + length m" for m
  proof (induction es arbitrary: m)
    case (Cons e es)
    show ?case using Cons[of "fold count_string (symbol_strings e) m"] one[of "symbol_strings e" m] by simp
  qed simp
  from this[of "[]"] show ?thesis
    by (simp add: from_symbols_def Let_def) (meson le_trans length_filter_le)
qed

lemma piece_strings:
  assumes "(s, es) \<in> set (pieces g)"
  shows "length (concat (map symbol_strings es)) \<le> length (artifact_strings g)"
proof -
  have "artifact_strings g = concat (map (\<lambda>(s, es). concat (map symbol_strings es)) (pieces g))"
  proof -
    have "concat (map (\<lambda>(s, y). symbol_strings y) (concat (map (\<lambda>(s, es). map (Pair s) es) ps)))
        = concat (map (\<lambda>(s, es). concat (map symbol_strings es)) ps)" for ps :: "(g_snapshot \<times> g_symbol list) list"
      by (induction ps) (auto simp: comp_def)
    then show ?thesis by (simp add: artifact_strings_def flip: pieces_symbols)
  qed
  moreover have part: "length (f p) \<le> length (concat (map f ps))" if "p \<in> set ps"
    for f :: "g_snapshot \<times> g_symbol list \<Rightarrow> string list" and p ps
    using that by (induction ps) auto
  ultimately show ?thesis using part[OF assms, of "\<lambda>(s, es). concat (map symbol_strings es)"] by simp
qed

lemma symbols_le_strings: "length (symbols_of g) \<le> length (artifact_strings g)"
proof -
  have "length ps \<le> length (concat (map (\<lambda>(s, y). symbol_strings y) ps))" for ps :: "(g_snapshot \<times> g_symbol) list"
    by (induction ps) (auto simp: symbol_strings_def)
  then show ?thesis by (simp add: artifact_strings_def)
qed

lemma length_pieces: "length (concat (map snd (pieces g))) = length (symbols_of g)"
proof -
  have "length (concat (map snd ps)) = length (concat (map (\<lambda>(s, es). map (Pair s) es) ps))"
    for ps :: "(g_snapshot \<times> g_symbol list) list"
    by (induction ps) auto
  then show ?thesis by (simp add: pieces_symbols)
qed

lemma detail_lookup_lemma:
  assumes "decode_graph_artifact g = Ok ss" "length (artifact_strings g) < 2 ^ 32"
    and "k < length (symbols_of g)"
  shows "\<exists>block start stop. find (covers (of_nat k)) (detail_blocks 0 g) = Some (block, start, stop)
    \<and> decode_symbol_detail block (of_nat k)
      = Ok (detail_view (symbols_of g ! k) (concat (map snap_symbols ss) ! k))"
proof -
  have small: "length (symbols_of g) < 2 ^ 32" using symbols_le_strings[of g] assms(2) by simp
  obtain s es st where found: "find (covers (of_nat k)) (piece_blocks (of_nat 0) (pieces g))
        = Some (detail_block s (of_nat st) es, of_nat st, of_nat (st + length es))"
      "(s, es) \<in> set (pieces g)" "st \<le> k" "k < st + length es" "(s, es ! (k - st)) = symbols_of g ! k"
    using find_piece[of 0 "pieces g" k] small assms(3) by (auto simp: length_pieces pieces_symbols)
  have words: "(of_nat st :: u32) \<le> of_nat k" "unat (of_nat k - of_nat st :: u32) = k - st"
  proof -
    show "(of_nat st :: u32) \<le> of_nat k" using found(3) small assms(3) by (simp add: word_le_nat_alt unat_of_index)
    then show "unat (of_nat k - of_nat st :: u32) = k - st"
      using found(3) small assms(3) by (simp add: unat_sub unat_of_index)
  qed
  have "decodes_in (graph_ids g) (symbols_of g ! k) (concat (map snap_symbols ss) ! k)"
    using artifact_symbols[OF assms(1)] assms(3) by (auto dest: list_all2_nthD)
  then have decoded: "decodes_in (graph_ids g) (s, es ! (k - st)) (concat (map snap_symbols ss) ! k)"
    using found(5) by simp
  have "length (stb_values (from_symbols es)) \<le> 2 ^ 32"
    using piece_strings[OF found(2)] length_from_symbols[of es] assms(2) by linarith
  moreover have "unat (of_nat k - of_nat st :: u32) < length es" using words(2) found(3,4) by linarith
  ultimately have "decode_symbol_detail (detail_block s (of_nat st) es) (of_nat k)
      = Ok (detail_view (symbols_of g ! k) (concat (map snap_symbols ss) ! k))"
    using decode_detail[OF decoded words(1)] words(2) found(5) by simp
  moreover have "find (covers (of_nat k)) (detail_blocks 0 g)
      = Some (detail_block s (of_nat st) es, of_nat st, of_nat (st + length es))"
    using found(1) by (simp add: detail_blocks_pieces)
  ultimately show ?thesis by auto
qed

end
