(* ===== verification/Blob_Layout.thy ===== *)
theory Blob_Layout
  imports Blob_Detail Artifact_Cache
begin

text \<open>
  The physical layout of an artifact blob (\<open>crates/kide-core/src/artifact_blob_layout.rs\<close>): a fixed header, a table
  of contents and independent sections, each with its own checksum, so that a reader fetches one section or one
  detail block from the cache without the rest. The protobuf codecs, gzip and SHA-256 are arguments.
\<close>

section \<open>The table of contents\<close>

text \<open>An \<open>i32\<close> of the table is only compared.\<close>

type_synonym i32 = int

datatype blob_section_kind =
  SectionUnspecified | SectionSymbolDictionary | SectionGraphFacts | SectionSymbolPostings
| SectionHierarchyPostings | SectionQualifiedSymbolDirectory | SectionSymbolDetailBlock

fun section_code :: "blob_section_kind \<Rightarrow> i32" where
  "section_code SectionUnspecified = 0"
| "section_code SectionSymbolDictionary = 1"
| "section_code SectionGraphFacts = 2"
| "section_code SectionSymbolPostings = 3"
| "section_code SectionHierarchyPostings = 4"
| "section_code SectionQualifiedSymbolDirectory = 5"
| "section_code SectionSymbolDetailBlock = 6"

record blob_section =
  bse_kind :: i32
  bse_offset :: u64
  bse_length :: u64
  bse_sha256 :: string
  bse_compression :: i32
  bse_symbol_ordinal_start :: u32
  bse_symbol_ordinal_end :: u32

record blob_toc =
  btc_layout_version :: u32
  btc_sections :: "blob_section list"

record dictionary_entry =
  dce_id :: string
  dce_name :: string

record symbol_posting =
  spo_source_unit_index :: u32
  spo_symbol_ordinal :: u32

record hierarchy_posting =
  hpo_subtype_symbol_id :: string
  hpo_supertype_symbol_id :: string
  hpo_precision :: string

record qualified_entry =
  qse_qualified_name :: string
  qse_symbol_ordinal :: u32

datatype blob_layout_error =
  LayoutInvalidHeader | LayoutUnsupportedVersion u32 | LayoutDecode | MissingSection blob_section_kind
| LayoutChecksumMismatch | UnsupportedCompression i32 | LayoutGzip | LayoutCache blob_cache_error

text \<open>\<open>encode_to_vec\<close> and \<open>decode\<close> of the messages, the compressor, the digest.\<close>

record layout_codec =
  enc_toc :: "blob_toc \<Rightarrow> string"
  dec_toc :: "string \<Rightarrow> blob_toc option"
  enc_dictionary :: "dictionary_entry list \<Rightarrow> string"
  dec_dictionary :: "string \<Rightarrow> dictionary_entry list option"
  enc_postings :: "symbol_posting list \<Rightarrow> string"
  dec_postings :: "string \<Rightarrow> symbol_posting list option"
  enc_hierarchy :: "hierarchy_posting list \<Rightarrow> string"
  dec_hierarchy :: "string \<Rightarrow> hierarchy_posting list option"
  enc_directory :: "qualified_entry list \<Rightarrow> string"
  dec_directory :: "string \<Rightarrow> qualified_entry list option"
  enc_facts :: "graph_artifact \<Rightarrow> string"
  dec_facts :: "string \<Rightarrow> graph_artifact option"
  enc_block :: "g_detail_block \<Rightarrow> string"
  dec_block :: "string \<Rightarrow> g_detail_block option"
  gzip :: "string \<Rightarrow> string"
  gunzip :: "string \<Rightarrow> string option"
  lay_sha256 :: "string \<Rightarrow> string"

definition LAYOUT_MAGIC :: string where "LAYOUT_MAGIC = ''KIDEJVM1''"

definition LAYOUT_HEADER_SIZE :: usize where "LAYOUT_HEADER_SIZE = 8 + 4 + 8 + 8"

lemma LAYOUT_HEADER_SIZE_eq [simp]: "LAYOUT_HEADER_SIZE = 28"
  by (simp add: LAYOUT_HEADER_SIZE_def)

section \<open>Reading a blob\<close>

definition toc_location :: "string \<Rightarrow> (blob_layout_error, u64 \<times> usize) result" where
  "toc_location header =
     (if length header \<noteq> LAYOUT_HEADER_SIZE \<or> take 8 header \<noteq> LAYOUT_MAGIC then Err LayoutInvalidHeader
      else
      let version = u32_of_le (take 4 (drop 8 header)); toc_offset = u64_of_le (take 8 (drop 12 header))
      in if version \<noteq> ARTIFACT_BLOB_LAYOUT_VERSION then Err (LayoutUnsupportedVersion version)
         else if toc_offset \<noteq> of_nat LAYOUT_HEADER_SIZE then Err LayoutInvalidHeader
         else Ok (toc_offset, unat (u64_of_le (take 8 (drop 20 header)))))"

text \<open>\<open>checked_add\<close> on \<open>u64\<close>.\<close>

definition checked_add :: "u64 \<Rightarrow> u64 \<Rightarrow> u64 option" where
  "checked_add a b = (if unat a + unat b < 2 ^ 64 then Some (a + b) else None)"

definition check_section :: "u64 \<Rightarrow> u64 \<Rightarrow> blob_section \<Rightarrow> (blob_layout_error, unit) result" where
  "check_section toc_end payload_len s =
     and_then (ok_or LayoutInvalidHeader (checked_add (bse_offset s) (bse_length s))) (\<lambda>end_offset.
     if bse_offset s < toc_end \<or> end_offset > payload_len \<or> length (bse_sha256 s) \<noteq> 32 then Err LayoutInvalidHeader
     else Ok ())"

definition parse_toc :: "layout_codec \<Rightarrow> u64 \<times> usize \<Rightarrow> u64 \<Rightarrow> string \<Rightarrow> (blob_layout_error, blob_toc) result" where
  "parse_toc L location payload_len toc_bytes =
     and_then (ok_or LayoutInvalidHeader (checked_add (fst location) (of_nat (snd location)))) (\<lambda>toc_end.
     if length toc_bytes \<noteq> snd location \<or> toc_end > payload_len then Err LayoutInvalidHeader
     else
     and_then (ok_or LayoutDecode (dec_toc L toc_bytes)) (\<lambda>toc.
     if btc_layout_version toc \<noteq> ARTIFACT_BLOB_LAYOUT_VERSION
     then Err (LayoutUnsupportedVersion (btc_layout_version toc))
     else and_then (check_all (check_section toc_end payload_len) (btc_sections toc)) (\<lambda>_. Ok toc)))"

definition cache_error :: "(blob_cache_error, 'a) result \<Rightarrow> (blob_layout_error, 'a) result" where
  "cache_error r = (case r of Inl e \<Rightarrow> Err (LayoutCache e) | Inr x \<Rightarrow> Ok x)"

text \<open>\<open>ArtifactBlobSections::open\<close>; its value is the table.\<close>

definition sections_open :: "layout_codec \<Rightarrow> artifact_blob \<Rightarrow> (blob_layout_error, blob_toc) result" where
  "sections_open L blob =
     and_then (cache_error (read_range blob 0 LAYOUT_HEADER_SIZE)) (\<lambda>header.
     and_then (toc_location header) (\<lambda>location.
     and_then (cache_error (read_range blob (fst location) (snd location))) (\<lambda>toc_bytes.
     parse_toc L location (ab_payload_len blob) toc_bytes)))"

definition decompress_section :: "layout_codec \<Rightarrow> string \<Rightarrow> i32 \<Rightarrow> (blob_layout_error, string) result" where
  "decompress_section L bytes compression =
     (if compression = 0 then Ok bytes
      else if compression = 1 then ok_or LayoutGzip (gunzip L bytes)
      else Err (UnsupportedCompression compression))"

text \<open>The bytes of one section: read, compare the checksum, decompress.\<close>

definition fetch_section :: "layout_codec \<Rightarrow> artifact_blob \<Rightarrow> blob_section \<Rightarrow> (blob_layout_error, string) result" where
  "fetch_section L blob s =
     and_then (cache_error (read_range blob (bse_offset s) (unat (bse_length s)))) (\<lambda>bytes.
     if bse_sha256 s \<noteq> lay_sha256 L bytes then Err LayoutChecksumMismatch
     else decompress_section L bytes (bse_compression s))"

definition section_of_kind :: "blob_toc \<Rightarrow> blob_section_kind \<Rightarrow> (blob_layout_error, blob_section) result" where
  "section_of_kind toc kind = ok_or (MissingSection kind) (find (\<lambda>s. bse_kind s = section_code kind) (btc_sections toc))"

definition read_section :: "layout_codec \<Rightarrow> blob_toc \<Rightarrow> artifact_blob \<Rightarrow> blob_section_kind \<Rightarrow> (blob_layout_error, string) result" where
  "read_section L toc blob kind = and_then (section_of_kind toc kind) (fetch_section L blob)"

definition symbol_postings :: "layout_codec \<Rightarrow> blob_toc \<Rightarrow> artifact_blob \<Rightarrow> (blob_layout_error, symbol_posting list) result" where
  "symbol_postings L toc blob =
     and_then (read_section L toc blob SectionSymbolPostings) (\<lambda>bytes. ok_or LayoutDecode (dec_postings L bytes))"

definition symbol_dictionary :: "layout_codec \<Rightarrow> blob_toc \<Rightarrow> artifact_blob \<Rightarrow> (blob_layout_error, dictionary_entry list) result" where
  "symbol_dictionary L toc blob =
     and_then (read_section L toc blob SectionSymbolDictionary) (\<lambda>bytes. ok_or LayoutDecode (dec_dictionary L bytes))"

definition hierarchy_postings :: "layout_codec \<Rightarrow> blob_toc \<Rightarrow> artifact_blob \<Rightarrow> (blob_layout_error, hierarchy_posting list) result" where
  "hierarchy_postings L toc blob =
     and_then (read_section L toc blob SectionHierarchyPostings) (\<lambda>bytes. ok_or LayoutDecode (dec_hierarchy L bytes))"

definition qualified_symbol_directory :: "layout_codec \<Rightarrow> blob_toc \<Rightarrow> artifact_blob
    \<Rightarrow> (blob_layout_error, qualified_entry list) result" where
  "qualified_symbol_directory L toc blob =
     and_then (read_section L toc blob SectionQualifiedSymbolDirectory) (\<lambda>bytes. ok_or LayoutDecode (dec_directory L bytes))"

definition graph_facts :: "layout_codec \<Rightarrow> blob_toc \<Rightarrow> artifact_blob \<Rightarrow> (blob_layout_error, graph_artifact) result" where
  "graph_facts L toc blob =
     and_then (read_section L toc blob SectionGraphFacts) (\<lambda>bytes. ok_or LayoutDecode (dec_facts L bytes))"

definition detail_section :: "blob_toc \<Rightarrow> u32 \<Rightarrow> (blob_layout_error, blob_section) result" where
  "detail_section toc ordinal =
     ok_or (MissingSection SectionSymbolDetailBlock)
       (find (\<lambda>s. bse_kind s = section_code SectionSymbolDetailBlock
              \<and> bse_symbol_ordinal_start s \<le> ordinal \<and> ordinal < bse_symbol_ordinal_end s) (btc_sections toc))"

definition symbol_detail_block :: "layout_codec \<Rightarrow> blob_toc \<Rightarrow> artifact_blob \<Rightarrow> u32 \<Rightarrow> (blob_layout_error, g_detail_block) result" where
  "symbol_detail_block L toc blob ordinal =
     and_then (detail_section toc ordinal) (\<lambda>s.
     and_then (fetch_section L blob s) (\<lambda>bytes. ok_or LayoutDecode (dec_block L bytes)))"

definition symbol_detail_block_start :: "blob_toc \<Rightarrow> u32 \<Rightarrow> (blob_layout_error, u32) result" where
  "symbol_detail_block_start toc ordinal =
     and_then (detail_section toc ordinal) (\<lambda>s. Ok (bse_symbol_ordinal_start s))"

section \<open>A blob in memory\<close>

record blob_layout =
  bly_bytes :: string
  bly_toc :: blob_toc

text \<open>\<open>bytes.get(a..b)\<close>.\<close>

definition get_slice :: "string \<Rightarrow> usize \<Rightarrow> usize \<Rightarrow> string option" where
  "get_slice bytes a b = (if a \<le> b \<and> b \<le> length bytes then Some (take (b - a) (drop a bytes)) else None)"

definition validate_layout :: "layout_codec \<Rightarrow> string \<Rightarrow> (blob_layout_error, blob_layout) result" where
  "validate_layout L bytes =
     and_then (ok_or LayoutInvalidHeader (get_slice bytes 0 LAYOUT_HEADER_SIZE)) (\<lambda>header.
     and_then (toc_location header) (\<lambda>location.
     and_then (ok_or LayoutInvalidHeader (checked_add (fst location) (of_nat (snd location)))) (\<lambda>toc_end.
     and_then (ok_or LayoutInvalidHeader (get_slice bytes (unat (fst location)) (unat toc_end))) (\<lambda>toc_bytes.
     and_then (parse_toc L location (of_nat (length bytes)) toc_bytes) (\<lambda>toc.
     Ok \<lparr> bly_bytes = bytes, bly_toc = toc \<rparr>)))))"

text \<open>The slice of a section cannot panic: a layout is only made by \<open>encode\<close> and by \<open>validate\<close>.\<close>

definition section_by_descriptor :: "layout_codec \<Rightarrow> blob_layout \<Rightarrow> blob_section \<Rightarrow> (blob_layout_error, string) result" where
  "section_by_descriptor L layout s =
     (let bytes = take (unat (bse_length s)) (drop (unat (bse_offset s)) (bly_bytes layout))
      in if bse_sha256 s \<noteq> lay_sha256 L bytes then Err LayoutChecksumMismatch else Ok bytes)"

definition layout_section :: "layout_codec \<Rightarrow> blob_layout \<Rightarrow> blob_section_kind \<Rightarrow> (blob_layout_error, string) result" where
  "layout_section L layout kind =
     and_then (section_of_kind (bly_toc layout) kind) (section_by_descriptor L layout)"

definition layout_graph_facts :: "layout_codec \<Rightarrow> blob_layout \<Rightarrow> (blob_layout_error, graph_artifact) result" where
  "layout_graph_facts L layout =
     and_then (section_of_kind (bly_toc layout) SectionGraphFacts) (\<lambda>s.
     and_then (layout_section L layout SectionGraphFacts) (\<lambda>bytes.
     and_then (decompress_section L bytes (bse_compression s)) (\<lambda>bytes. ok_or LayoutDecode (dec_facts L bytes))))"

definition layout_symbol_detail_block :: "layout_codec \<Rightarrow> blob_layout \<Rightarrow> u32 \<Rightarrow> (blob_layout_error, g_detail_block) result" where
  "layout_symbol_detail_block L layout ordinal =
     and_then (detail_section (bly_toc layout) ordinal) (\<lambda>s.
     and_then (section_by_descriptor L layout s) (\<lambda>bytes.
     and_then (decompress_section L bytes (bse_compression s)) (\<lambda>bytes. ok_or LayoutDecode (dec_block L bytes))))"

definition layout_symbol_postings :: "layout_codec \<Rightarrow> blob_layout \<Rightarrow> (blob_layout_error, symbol_posting list) result" where
  "layout_symbol_postings L layout =
     and_then (layout_section L layout SectionSymbolPostings) (\<lambda>bytes. ok_or LayoutDecode (dec_postings L bytes))"

definition layout_hierarchy_postings :: "layout_codec \<Rightarrow> blob_layout \<Rightarrow> (blob_layout_error, hierarchy_posting list) result" where
  "layout_hierarchy_postings L layout =
     and_then (layout_section L layout SectionHierarchyPostings) (\<lambda>bytes. ok_or LayoutDecode (dec_hierarchy L bytes))"

definition layout_qualified_symbol_directory :: "layout_codec \<Rightarrow> blob_layout \<Rightarrow> (blob_layout_error, qualified_entry list) result" where
  "layout_qualified_symbol_directory L layout =
     and_then (layout_section L layout SectionQualifiedSymbolDirectory) (\<lambda>bytes. ok_or LayoutDecode (dec_directory L bytes))"

section \<open>Encoding\<close>

definition dictionary_of :: "graph_artifact \<Rightarrow> dictionary_entry list" where
  "dictionary_of g =
     concat (map (\<lambda>s. map (\<lambda>y. \<lparr> dce_id = gsy_id y, dce_name = gsy_name y \<rparr>) (gsn_symbols s)) g)"

text \<open>The \<open>scan\<close> carries the first ordinal of each snapshot.\<close>

fun postings_from :: "u32 \<Rightarrow> (nat \<times> g_snapshot) list \<Rightarrow> symbol_posting list" where
  "postings_from first [] = []"
| "postings_from first ((unit, s) # rest) =
     map (\<lambda>(k, _). \<lparr> spo_source_unit_index = of_nat unit, spo_symbol_ordinal = first + of_nat k \<rparr>) (enumerate 0 (gsn_symbols s))
     @ postings_from (first + of_nat (length (gsn_symbols s))) rest"

definition postings_of :: "graph_artifact \<Rightarrow> symbol_posting list" where
  "postings_of g = postings_from 0 (enumerate 0 g)"

definition hierarchy_postings_of :: "graph_artifact \<Rightarrow> hierarchy_posting list" where
  "hierarchy_postings_of g =
     concat (map (\<lambda>s. map (\<lambda>e. \<lparr> hpo_subtype_symbol_id = ghi_subtype_symbol_id e,
       hpo_supertype_symbol_id = ghi_supertype_symbol_id e, hpo_precision = ghi_precision e \<rparr>) (gsn_hierarchy s)) g)"

definition directory_of :: "graph_artifact \<Rightarrow> qualified_entry list" where
  "directory_of g =
     sort_key (\<lambda>e. (qse_qualified_name e, qse_symbol_ordinal e))
       (List.map_filter (\<lambda>(k, y). map_option (\<lambda>q. \<lparr> qse_qualified_name = q, qse_symbol_ordinal = of_nat k \<rparr>) (gsy_qualified_name y))
         (enumerate 0 (concat (map gsn_symbols g))))"

text \<open>A section before its place is known: kind, bytes, compression, interval of ordinals.\<close>

type_synonym raw_section = "blob_section_kind \<times> string \<times> i32 \<times> u32 \<times> u32"

definition raw_sections :: "layout_codec \<Rightarrow> graph_artifact \<Rightarrow> raw_section list" where
  "raw_sections L g =
     [(SectionSymbolDictionary, enc_dictionary L (dictionary_of g), 0, 0, 0),
      (SectionSymbolPostings, enc_postings L (postings_of g), 0, 0, 0),
      (SectionHierarchyPostings, enc_hierarchy L (hierarchy_postings_of g), 0, 0, 0),
      (SectionQualifiedSymbolDirectory, enc_directory L (directory_of g), 0, 0, 0),
      (SectionGraphFacts, gzip L (enc_facts L g), 1, 0, 0)]
     @ map (\<lambda>(block, start, stop). (SectionSymbolDetailBlock, enc_block L block, 0, start, stop)) (detail_blocks 0 g)"

fun place_sections :: "layout_codec \<Rightarrow> u64 \<Rightarrow> raw_section list \<Rightarrow> blob_section list" where
  "place_sections L offset [] = []"
| "place_sections L offset ((kind, bytes, compression, start, stop) # rest) =
     \<lparr> bse_kind = section_code kind, bse_offset = offset, bse_length = of_nat (length bytes),
       bse_sha256 = lay_sha256 L bytes, bse_compression = compression, bse_symbol_ordinal_start = start,
       bse_symbol_ordinal_end = stop \<rparr> # place_sections L (offset + of_nat (length bytes)) rest"

text \<open>The loop: the offsets depend on the length of the table, which depends on the offsets.\<close>

partial_function (option) layout_toc :: "layout_codec \<Rightarrow> raw_section list \<Rightarrow> blob_toc \<Rightarrow> blob_toc option" where
  "layout_toc L sections toc =
     (let placed = place_sections L (of_nat (LAYOUT_HEADER_SIZE + length (enc_toc L toc))) sections
      in if placed = btc_sections toc then Some toc else layout_toc L sections (toc\<lparr>btc_sections := placed\<rparr>))"

definition empty_toc :: blob_toc where
  "empty_toc = \<lparr> btc_layout_version = ARTIFACT_BLOB_LAYOUT_VERSION, btc_sections = [] \<rparr>"

definition layout_bytes :: "layout_codec \<Rightarrow> raw_section list \<Rightarrow> blob_toc \<Rightarrow> string" where
  "layout_bytes L sections toc =
     LAYOUT_MAGIC @ u32_le ARTIFACT_BLOB_LAYOUT_VERSION @ u64_le (of_nat LAYOUT_HEADER_SIZE)
     @ u64_le (of_nat (length (enc_toc L toc))) @ enc_toc L toc @ concat (map (fst \<circ> snd) sections)"

definition encode_layout :: "layout_codec \<Rightarrow> graph_artifact \<Rightarrow> blob_layout option" where
  "encode_layout L g =
     (case layout_toc L (raw_sections L g) empty_toc of None \<Rightarrow> None
      | Some toc \<Rightarrow> Some \<lparr> bly_bytes = layout_bytes L (raw_sections L g) toc, bly_toc = toc \<rparr>)"

end
