(* ===== verification/Blob_Access.thy ===== *)
theory Blob_Access
  imports Blob_Layout
begin

text \<open>
  The layout of a blob is found and read back: the loop that places the sections ends, the table of an
  encoded blob is accepted, and every section and every detail block is fetched as it was encoded, from the
  cache file as well as from memory.
\<close>

section \<open>The placement loop ends\<close>

text \<open>The table when it is taken to be \<open>n\<close> bytes long, and the length it then has.\<close>

definition toc_after :: "layout_codec \<Rightarrow> raw_section list \<Rightarrow> nat \<Rightarrow> blob_toc" where
  "toc_after L sections n = empty_toc\<lparr>btc_sections := place_sections L (of_nat (LAYOUT_HEADER_SIZE + n)) sections\<rparr>"

definition toc_length :: "layout_codec \<Rightarrow> raw_section list \<Rightarrow> nat \<Rightarrow> nat" where
  "toc_length L sections n = length (enc_toc L (toc_after L sections n))"

lemma layout_toc_step:
  "layout_toc L sections (toc_after L sections n) =
     (if toc_after L sections (toc_length L sections n) = toc_after L sections n then Some (toc_after L sections n)
      else layout_toc L sections (toc_after L sections (toc_length L sections n)))"
  by (subst layout_toc.simps) (simp add: toc_after_def toc_length_def empty_toc_def Let_def)

lemma layout_toc_ends:
  assumes "\<And>a b. a \<le> b \<Longrightarrow> b \<le> B \<Longrightarrow> toc_length L sections a \<le> toc_length L sections b"
    and "\<And>a. a \<le> B \<Longrightarrow> toc_length L sections a \<le> B"
  shows "n \<le> B \<Longrightarrow> n \<le> toc_length L sections n \<Longrightarrow> layout_toc L sections (toc_after L sections n) \<noteq> None"
proof (induction "B - n" arbitrary: n rule: less_induct)
  case less
  let ?m = "toc_length L sections n"
  show ?case
  proof (cases "?m = n")
    case True
    then show ?thesis by (simp add: layout_toc_step[of L sections n])
  next
    case False
    have m: "?m \<le> B" "?m \<le> toc_length L sections ?m" using assms less.prems by simp_all
    moreover have "B - ?m < B - n" using False less.prems m(1) by linarith
    ultimately show ?thesis using less.hyps[of ?m] by (simp add: layout_toc_step[of L sections n])
  qed
qed

lemma layout_toc_start:
  "layout_toc L (raw_sections L g) empty_toc
     = layout_toc L (raw_sections L g) (toc_after L (raw_sections L g) (length (enc_toc L empty_toc)))"
  by (subst layout_toc.simps) (simp add: toc_after_def empty_toc_def raw_sections_def Let_def)

text \<open>
  C21. Encoding a blob ends: the offsets of the sections depend on the length of the table and the table
  on the offsets, but as long as larger offsets never shorten the table and its length stays below some
  bound, as with variable-length integers, the loop reaches a table that describes its own place.
\<close>

theorem layout_encoding_ends:
  assumes "\<And>a b. a \<le> b \<Longrightarrow> b \<le> B \<Longrightarrow> toc_length L (raw_sections L g) a \<le> toc_length L (raw_sections L g) b"
    and "\<And>a. a \<le> B \<Longrightarrow> toc_length L (raw_sections L g) a \<le> B"
    and "\<And>a. a \<le> B \<Longrightarrow> length (enc_toc L empty_toc) \<le> toc_length L (raw_sections L g) a"
  shows "\<exists>layout. encode_layout L g = Some layout"
proof -
  let ?n = "length (enc_toc L empty_toc)"
  have "?n \<le> B" using assms(2)[of 0] assms(3)[of 0] by simp
  then have "layout_toc L (raw_sections L g) empty_toc \<noteq> None"
    using layout_toc_ends[OF assms(1,2)] assms(3) unfolding layout_toc_start by simp
  then show ?thesis by (auto simp: encode_layout_def)
qed

text \<open>The table the loop ends with describes its own place.\<close>

lemma layout_toc_fixpoint:
  assumes "layout_toc L sections toc = Some t"
  shows "btc_sections t = place_sections L (of_nat (LAYOUT_HEADER_SIZE + length (enc_toc L t))) sections
    \<and> btc_layout_version t = btc_layout_version toc"
proof (rule layout_toc.raw_induct[OF _ assms, where P = "\<lambda>L sections toc t.
      btc_sections t = place_sections L (of_nat (LAYOUT_HEADER_SIZE + length (enc_toc L t))) sections
      \<and> btc_layout_version t = btc_layout_version toc"])
  fix loop L sections toc t
  assume hyp: "\<And>L sections toc t. loop L sections toc = Some t \<Longrightarrow>
        btc_sections t = place_sections L (of_nat (LAYOUT_HEADER_SIZE + length (enc_toc L t))) sections
        \<and> btc_layout_version t = btc_layout_version toc"
    and step: "(let placed = place_sections L (of_nat (LAYOUT_HEADER_SIZE + length (enc_toc L toc))) sections
       in if placed = btc_sections toc then Some toc else loop L sections (toc\<lparr>btc_sections := placed\<rparr>)) = Some t"
  show "btc_sections t = place_sections L (of_nat (LAYOUT_HEADER_SIZE + length (enc_toc L t))) sections
      \<and> btc_layout_version t = btc_layout_version toc"
  proof (cases "place_sections L (of_nat (LAYOUT_HEADER_SIZE + length (enc_toc L toc))) sections = btc_sections toc")
    case True
    then show ?thesis using step by (simp add: Let_def)
  next
    case False
    then show ?thesis using step hyp by (fastforce simp: Let_def)
  qed
qed

section \<open>Where the sections are\<close>

definition placed :: "layout_codec \<Rightarrow> u64 \<Rightarrow> raw_section \<Rightarrow> blob_section" where
  "placed L offset = (\<lambda>(kind, bytes, compression, start, stop).
     \<lparr> bse_kind = section_code kind, bse_offset = offset, bse_length = of_nat (length bytes),
       bse_sha256 = lay_sha256 L bytes, bse_compression = compression, bse_symbol_ordinal_start = start,
       bse_symbol_ordinal_end = stop \<rparr>)"

abbreviation raw_bytes :: "raw_section \<Rightarrow> string" where
  "raw_bytes x \<equiv> fst (snd x)"

definition bytes_before :: "raw_section list \<Rightarrow> nat" where
  "bytes_before pre = length (concat (map raw_bytes pre))"

lemma place_sections_member:
  assumes "s \<in> set (place_sections L offset sections)"
  shows "\<exists>pre x post. sections = pre @ x # post \<and> s = placed L (offset + of_nat (bytes_before pre)) x"
  using assms
proof (induction sections arbitrary: offset)
  case (Cons y sections)
  obtain kind bytes compression start stop where y: "y = (kind, bytes, compression, start, stop)" by (cases y) auto
  show ?case
  proof (cases "s = placed L offset y")
    case True
    then show ?thesis by (intro exI[of _ "[]"] exI[of _ y] exI[of _ sections]) (simp add: bytes_before_def)
  next
    case False
    then obtain pre x post where "sections = pre @ x # post"
        "s = placed L (offset + of_nat (length bytes) + of_nat (bytes_before pre)) x"
      using Cons y by (fastforce simp: placed_def)
    then show ?thesis
      by (intro exI[of _ "y # pre"] exI[of _ x] exI[of _ post]) (simp add: y bytes_before_def add.assoc)
  qed
qed simp

text \<open>The table has one entry per section, in their order, each behind the sections before it.\<close>

lemma place_sections_all:
  "list_all2 (\<lambda>x s. \<exists>pre post. sections = pre @ x # post \<and> s = placed L (offset + of_nat (bytes_before pre)) x)
     sections (place_sections L offset sections)"
proof (induction sections arbitrary: offset)
  case (Cons y sections)
  obtain kind bytes compression start stop where y: "y = (kind, bytes, compression, start, stop)" by (cases y) auto
  let ?offset = "offset + of_nat (length bytes)"
  have "list_all2 (\<lambda>x s. \<exists>pre post. y # sections = pre @ x # post \<and> s = placed L (offset + of_nat (bytes_before pre)) x)
      sections (place_sections L ?offset sections)"
    using Cons[of ?offset]
  proof (rule list_all2_mono)
    fix x s assume "\<exists>pre post. sections = pre @ x # post \<and> s = placed L (?offset + of_nat (bytes_before pre)) x"
    then obtain pre post where "sections = pre @ x # post" "s = placed L (?offset + of_nat (bytes_before pre)) x" by blast
    then show "\<exists>pre post. y # sections = pre @ x # post \<and> s = placed L (offset + of_nat (bytes_before pre)) x"
      by (intro exI[of _ "y # pre"] exI[of _ post]) (simp add: y bytes_before_def add.assoc)
  qed
  moreover have "\<exists>pre post. y # sections = pre @ y # post \<and> placed L offset y = placed L (offset + of_nat (bytes_before pre)) y"
    by (intro exI[of _ "[]"] exI[of _ sections]) (simp add: bytes_before_def)
  moreover have "place_sections L offset (y # sections) = placed L offset y # place_sections L ?offset sections"
    by (simp add: y placed_def)
  ultimately show ?case by simp
qed simp

lemma find_placed_None:
  assumes "find (\<lambda>(kind, _, _, start, stop). R (section_code kind) start stop) sections = None"
  shows "find (\<lambda>s. R (bse_kind s) (bse_symbol_ordinal_start s) (bse_symbol_ordinal_end s)) (place_sections L offset sections) = None"
  using assms
proof (induction sections arbitrary: offset)
  case (Cons y sections)
  then show ?case by (cases y) (auto split: if_splits)
qed simp

text \<open>A search in the table finds what the same search finds among the sections.\<close>

lemma find_placed:
  assumes "find (\<lambda>(kind, _, _, start, stop). R (section_code kind) start stop) sections = Some x"
  shows "\<exists>pre post. sections = pre @ x # post
    \<and> find (\<lambda>s. R (bse_kind s) (bse_symbol_ordinal_start s) (bse_symbol_ordinal_end s)) (place_sections L offset sections)
      = Some (placed L (offset + of_nat (bytes_before pre)) x)"
  using assms
proof (induction sections arbitrary: offset)
  case (Cons y sections)
  obtain kind bytes compression start stop where y: "y = (kind, bytes, compression, start, stop)" by (cases y) auto
  show ?case
  proof (cases "R (section_code kind) start stop")
    case True
    then show ?thesis using Cons.prems y
      by (intro exI[of _ "[]"] exI[of _ sections]) (auto simp: placed_def bytes_before_def)
  next
    case False
    then obtain pre post where "sections = pre @ x # post"
        "find (\<lambda>s. R (bse_kind s) (bse_symbol_ordinal_start s) (bse_symbol_ordinal_end s))
           (place_sections L (offset + of_nat (length bytes)) sections)
         = Some (placed L (offset + of_nat (length bytes) + of_nat (bytes_before pre)) x)"
      using Cons y by fastforce
    then show ?thesis using False
      by (intro exI[of _ "y # pre"] exI[of _ post]) (simp add: y bytes_before_def add.assoc)
  qed
qed simp

section \<open>Reading what was encoded\<close>

text \<open>The blob is an opened cache file with the encoded bytes as its payload.\<close>

definition stores_layout :: "layout_codec \<Rightarrow> graph_artifact \<Rightarrow> blob_layout \<Rightarrow> artifact_blob \<Rightarrow> bool" where
  "stores_layout L g layout blob \<longleftrightarrow>
     encode_layout L g = Some layout \<and> length (bly_bytes layout) < 2 ^ 64
     \<and> drop CACHE_HEADER_SIZE (ab_file blob) = bly_bytes layout \<and> CACHE_HEADER_SIZE \<le> length (ab_file blob)
     \<and> ab_payload_len blob = of_nat (length (bly_bytes layout))
     \<and> (\<forall>bytes. length (lay_sha256 L bytes) = 32) \<and> dec_toc L (enc_toc L (bly_toc layout)) = Some (bly_toc layout)"

lemma stores_layout_parts:
  assumes "stores_layout L g layout blob"
  shows "bly_bytes layout = layout_bytes L (raw_sections L g) (bly_toc layout)"
    and "btc_sections (bly_toc layout)
      = place_sections L (of_nat (28 + length (enc_toc L (bly_toc layout)))) (raw_sections L g)"
    and "btc_layout_version (bly_toc layout) = 1"
proof -
  obtain toc where toc: "layout_toc L (raw_sections L g) empty_toc = Some toc"
      and layout: "layout = \<lparr> bly_bytes = layout_bytes L (raw_sections L g) toc, bly_toc = toc \<rparr>"
    using assms by (auto simp: stores_layout_def encode_layout_def split: option.splits)
  show "bly_bytes layout = layout_bytes L (raw_sections L g) (bly_toc layout)" using layout by simp
  show "btc_sections (bly_toc layout)
      = place_sections L (of_nat (28 + length (enc_toc L (bly_toc layout)))) (raw_sections L g)"
    using layout_toc_fixpoint[OF toc] layout by simp
  show "btc_layout_version (bly_toc layout) = 1"
    using layout_toc_fixpoint[OF toc] layout by (simp add: empty_toc_def ARTIFACT_BLOB_LAYOUT_VERSION_def)
qed

lemma read_range_payload:
  assumes "stores_layout L g layout blob" "a + n \<le> length (bly_bytes layout)"
  shows "read_range blob (of_nat a) n = Ok (take n (drop a (bly_bytes layout)))"
proof -
  have small: "length (bly_bytes layout) < 2 ^ 64" using assms(1) by (simp add: stores_layout_def)
  have a: "unat (of_nat a :: u64) = a" "unat (of_nat (length (bly_bytes layout)) :: u64) = length (bly_bytes layout)"
    using assms(2) small by (simp_all only: unat_of_nat take_bit_nat_eq_self_iff) simp_all
  have "length (ab_file blob) = CACHE_HEADER_SIZE + length (bly_bytes layout)"
    using assms(1) unfolding stores_layout_def by (metis le_add_diff_inverse length_drop)
  moreover have "drop (CACHE_HEADER_SIZE + a) (ab_file blob) = drop a (bly_bytes layout)"
    using assms(1) unfolding stores_layout_def by (metis drop_drop add.commute)
  moreover have "ab_payload_len blob = of_nat (length (bly_bytes layout))" using assms(1) by (simp add: stores_layout_def)
  ultimately show ?thesis using assms(2) small a by (simp add: read_range_def)
qed

lemma of_nat_u64: "n < 2 ^ 64 \<Longrightarrow> unat (of_nat n :: u64) = n"
  by (simp only: unat_of_nat take_bit_nat_eq_self_iff) simp

lemma length_layout_bytes:
  "length (layout_bytes L sections toc) = 28 + length (enc_toc L toc) + length (concat (map raw_bytes sections))"
  by (simp add: layout_bytes_def LAYOUT_MAGIC_def comp_def)

lemma drop_head: "bs = h @ r \<Longrightarrow> n = length h \<Longrightarrow> drop n bs = r"
  by simp

text \<open>A section of the encoded blob lies where the table says.\<close>

lemma section_bytes:
  assumes "stores_layout L g layout blob" "raw_sections L g = pre @ x # post"
  defines "offset \<equiv> 28 + length (enc_toc L (bly_toc layout)) + bytes_before pre"
  shows "offset + length (raw_bytes x) \<le> length (bly_bytes layout)"
    and "take (length (raw_bytes x)) (drop offset (bly_bytes layout)) = raw_bytes x"
proof -
  note bytes = stores_layout_parts(1)[OF assms(1)]
  show "offset + length (raw_bytes x) \<le> length (bly_bytes layout)"
    using assms(2) by (simp add: bytes length_layout_bytes offset_def bytes_before_def)
  let ?head = "LAYOUT_MAGIC @ u32_le ARTIFACT_BLOB_LAYOUT_VERSION @ u64_le (of_nat LAYOUT_HEADER_SIZE)
     @ u64_le (of_nat (length (enc_toc L (bly_toc layout)))) @ enc_toc L (bly_toc layout) @ concat (map raw_bytes pre)"
  have "bly_bytes layout = ?head @ raw_bytes x @ concat (map raw_bytes post)"
    using assms(2) by (simp add: bytes layout_bytes_def comp_def)
  moreover have "offset = length ?head" by (simp add: offset_def bytes_before_def LAYOUT_MAGIC_def)
  ultimately have "drop offset (bly_bytes layout) = raw_bytes x @ concat (map raw_bytes post)"
    by (rule drop_head)
  then show "take (length (raw_bytes x)) (drop offset (bly_bytes layout)) = raw_bytes x" by simp
qed

definition section_offset :: "layout_codec \<Rightarrow> blob_layout \<Rightarrow> raw_section list \<Rightarrow> u64" where
  "section_offset L layout pre = of_nat (28 + length (enc_toc L (bly_toc layout))) + of_nat (bytes_before pre)"

lemma section_offset_unat:
  assumes "stores_layout L g layout blob" "raw_sections L g = pre @ x # post"
  shows "unat (section_offset L layout pre) = 28 + length (enc_toc L (bly_toc layout)) + bytes_before pre"
    and "unat (of_nat (length (raw_bytes x)) :: u64) = length (raw_bytes x)"
proof -
  have "length (bly_bytes layout) < 2 ^ 64" using assms(1) by (simp add: stores_layout_def)
  then have "28 + length (enc_toc L (bly_toc layout)) + bytes_before pre < 2 ^ 64" "length (raw_bytes x) < 2 ^ 64"
    using section_bytes(1)[OF assms] by linarith+
  then show "unat (section_offset L layout pre) = 28 + length (enc_toc L (bly_toc layout)) + bytes_before pre"
    and "unat (of_nat (length (raw_bytes x)) :: u64) = length (raw_bytes x)"
    unfolding section_offset_def of_nat_add[symmetric] using of_nat_u64 by blast+
qed

lemma fetch_placed:
  assumes "stores_layout L g layout blob" "raw_sections L g = pre @ (kind, bytes, compression, start, stop) # post"
  shows "fetch_section L blob (placed L (section_offset L layout pre) (kind, bytes, compression, start, stop))
      = decompress_section L bytes compression"
    and "section_by_descriptor L layout (placed L (section_offset L layout pre) (kind, bytes, compression, start, stop)) = Ok bytes"
proof -
  note offset = section_offset_unat[OF assms] and held = section_bytes[OF assms]
  have "read_range blob (section_offset L layout pre) (length bytes) = Ok bytes"
    using read_range_payload[OF assms(1) held(1)] held(2) by (simp add: section_offset_def add.assoc)
  then show "fetch_section L blob (placed L (section_offset L layout pre) (kind, bytes, compression, start, stop))
      = decompress_section L bytes compression"
    using offset(2) by (simp add: fetch_section_def placed_def cache_error_def)
  show "section_by_descriptor L layout (placed L (section_offset L layout pre) (kind, bytes, compression, start, stop)) = Ok bytes"
    using offset held(2) by (simp add: section_by_descriptor_def placed_def)
qed

section \<open>The table is accepted\<close>

lemma toc_sections_valid:
  assumes "stores_layout L g layout blob"
  shows "check_all (check_section (of_nat (28 + length (enc_toc L (bly_toc layout)))) (of_nat (length (bly_bytes layout))))
    (btc_sections (bly_toc layout)) = Ok ()"
  unfolding check_all_Ok
proof
  fix s assume "s \<in> set (btc_sections (bly_toc layout))"
  then obtain pre x post where split: "raw_sections L g = pre @ x # post" and s: "s = placed L (section_offset L layout pre) x"
    using place_sections_member[of s L] stores_layout_parts(2)[OF assms] unfolding section_offset_def by metis
  note offset = section_offset_unat[OF assms split] and held = section_bytes(1)[OF assms split]
  have small: "length (bly_bytes layout) < 2 ^ 64" using assms by (simp add: stores_layout_def)
  have fields: "bse_offset s = section_offset L layout pre" "bse_length s = of_nat (length (raw_bytes x))"
      "length (bse_sha256 s) = 32"
    using assms by (cases x; simp add: s placed_def stores_layout_def)+
  have fits: "unat (bse_offset s) + unat (bse_length s) < 2 ^ 64" using offset held small by (simp add: fields)
  then have "unat (bse_offset s + bse_length s) = unat (bse_offset s) + unat (bse_length s)"
    by (subst unat_add_lem[symmetric]) simp
  moreover have "unat (of_nat (28 + length (enc_toc L (bly_toc layout))) :: u64) = 28 + length (enc_toc L (bly_toc layout))"
    by (rule of_nat_u64) (use held small in linarith)
  ultimately show "check_section (of_nat (28 + length (enc_toc L (bly_toc layout)))) (of_nat (length (bly_bytes layout))) s = Ok ()"
    using fits held offset fields of_nat_u64[OF small]
    by (simp add: check_section_def checked_add_def ok_or_def word_less_nat_alt word_le_nat_alt not_less)
qed

lemma toc_parsed:
  assumes "stores_layout L g layout blob"
  shows "parse_toc L (28, length (enc_toc L (bly_toc layout))) (of_nat (length (bly_bytes layout))) (enc_toc L (bly_toc layout))
    = Ok (bly_toc layout)"
proof -
  let ?n = "length (enc_toc L (bly_toc layout))"
  have small: "length (bly_bytes layout) < 2 ^ 64" using assms by (simp add: stores_layout_def)
  have fits: "28 + ?n \<le> length (bly_bytes layout)"
    by (simp add: stores_layout_parts(1)[OF assms] length_layout_bytes)
  have n: "unat (of_nat ?n :: u64) = ?n" "unat (of_nat (28 + ?n) :: u64) = 28 + ?n"
    by (rule of_nat_u64; use fits small in linarith)+
  have "checked_add 28 (of_nat ?n) = Some (of_nat (28 + ?n))"
    using n fits small by (simp add: checked_add_def)
  moreover have "\<not> (of_nat (28 + ?n) :: u64) > of_nat (length (bly_bytes layout))"
    using n(2) of_nat_u64[OF small] fits by (simp add: word_less_nat_alt del: of_nat_add)
  ultimately show ?thesis
    using toc_sections_valid[OF assms] stores_layout_parts(3)[OF assms] assms
    by (simp add: parse_toc_def ok_or_def stores_layout_def ARTIFACT_BLOB_LAYOUT_VERSION_def)
qed

lemma layout_header:
  assumes "stores_layout L g layout blob"
  shows "toc_location (take 28 (bly_bytes layout)) = Ok (28, length (enc_toc L (bly_toc layout)))"
    and "take (length (enc_toc L (bly_toc layout))) (drop 28 (bly_bytes layout)) = enc_toc L (bly_toc layout)"
    and "28 + length (enc_toc L (bly_toc layout)) \<le> length (bly_bytes layout)"
proof -
  note bytes = stores_layout_parts(1)[OF assms]
  show fits: "28 + length (enc_toc L (bly_toc layout)) \<le> length (bly_bytes layout)"
    by (simp add: bytes length_layout_bytes)
  have "length (bly_bytes layout) < 2 ^ 64" using assms by (simp add: stores_layout_def)
  then have n: "unat (of_nat (length (enc_toc L (bly_toc layout))) :: u64) = length (enc_toc L (bly_toc layout))"
    by (intro of_nat_u64) (use fits in linarith)
  show "toc_location (take 28 (bly_bytes layout)) = Ok (28, length (enc_toc L (bly_toc layout)))"
    using n by (simp add: toc_location_def bytes layout_bytes_def LAYOUT_MAGIC_def)
  show "take (length (enc_toc L (bly_toc layout))) (drop 28 (bly_bytes layout)) = enc_toc L (bly_toc layout)"
    by (simp add: bytes layout_bytes_def LAYOUT_MAGIC_def)
qed

lemma sections_open_encoded:
  assumes "stores_layout L g layout blob"
  shows "sections_open L blob = Ok (bly_toc layout)"
proof -
  note header = layout_header[OF assms]
  have "read_range blob 0 28 = Ok (take 28 (bly_bytes layout))"
    using read_range_payload[OF assms, of 0 28] header(3) by simp
  moreover have "read_range blob 28 (length (enc_toc L (bly_toc layout))) = Ok (enc_toc L (bly_toc layout))"
    using read_range_payload[OF assms, of 28] header(2,3) by simp
  moreover have "ab_payload_len blob = of_nat (length (bly_bytes layout))" using assms by (simp add: stores_layout_def)
  ultimately show ?thesis
    using header(1) toc_parsed[OF assms] by (simp add: sections_open_def cache_error_def)
qed

lemma validate_encoded:
  assumes "stores_layout L g layout blob"
  shows "validate_layout L (bly_bytes layout) = Ok layout"
proof -
  note header = layout_header[OF assms]
  let ?n = "length (enc_toc L (bly_toc layout))"
  have small: "length (bly_bytes layout) < 2 ^ 64" using assms by (simp add: stores_layout_def)
  have n: "unat (of_nat ?n :: u64) = ?n" "unat (of_nat (28 + ?n) :: u64) = 28 + ?n"
    by (rule of_nat_u64; use header(3) small in linarith)+
  have "checked_add 28 (of_nat ?n) = Some (of_nat (28 + ?n))"
    using n header(3) small by (simp add: checked_add_def)
  moreover have "get_slice (bly_bytes layout) 0 28 = Some (take 28 (bly_bytes layout))"
      "get_slice (bly_bytes layout) 28 (28 + ?n) = Some (enc_toc L (bly_toc layout))"
    using header(2,3) by (simp_all add: get_slice_def)
  ultimately show ?thesis
    using header(1) n(2) toc_parsed[OF assms] by (simp add: validate_layout_def ok_or_def)
qed

section \<open>Every section comes back\<close>

lemma read_section_encoded:
  assumes "stores_layout L g layout blob"
    and "find (\<lambda>(k, _, _, _, _). section_code k = section_code kind) (raw_sections L g) = Some (k, bytes, compression, start, stop)"
  shows "read_section L (bly_toc layout) blob kind = decompress_section L bytes compression"
    and "layout_section L layout kind = Ok bytes"
proof -
  obtain pre post where split: "raw_sections L g = pre @ (k, bytes, compression, start, stop) # post"
    and found: "find (\<lambda>s. bse_kind s = section_code kind) (btc_sections (bly_toc layout))
      = Some (placed L (section_offset L layout pre) (k, bytes, compression, start, stop))"
    using find_placed[of "\<lambda>c _ _. c = section_code kind", OF assms(2), of L] stores_layout_parts(2)[OF assms(1)]
    unfolding section_offset_def by metis
  show "read_section L (bly_toc layout) blob kind = decompress_section L bytes compression"
    using fetch_placed(1)[OF assms(1) split] found by (simp add: read_section_def section_of_kind_def)
  show "layout_section L layout kind = Ok bytes"
    using fetch_placed(2)[OF assms(1) split] found by (simp add: layout_section_def section_of_kind_def)
qed

lemma find_map_option: "find P (map f xs) = map_option f (find (\<lambda>x. P (f x)) xs)"
  by (induction xs) simp_all

lemma covers_sections:
  "find (\<lambda>(k, _, _, start, stop). section_code k = section_code SectionSymbolDetailBlock \<and> start \<le> ordinal \<and> ordinal < stop)
      (raw_sections L g)
    = map_option (\<lambda>(block, start, stop). (SectionSymbolDetailBlock, enc_block L block, 0, start, stop))
        (find (covers ordinal) (detail_blocks 0 g))"
proof -
  have "covers ordinal = (\<lambda>b. fst (snd b) \<le> ordinal \<and> ordinal < snd (snd b))" by (auto simp: covers_def)
  then show ?thesis by (simp add: raw_sections_def find_map_option case_prod_unfold)
qed

text \<open>The section of the detail block that covers an ordinal.\<close>

lemma detail_section_found:
  assumes "stores_layout L g layout blob"
  shows "case find (covers ordinal) (detail_blocks 0 g) of
      None \<Rightarrow> detail_section (bly_toc layout) ordinal = Err (MissingSection SectionSymbolDetailBlock)
    | Some (block, start, stop) \<Rightarrow>
        (\<exists>s. detail_section (bly_toc layout) ordinal = Ok s \<and> bse_compression s = 0 \<and> bse_symbol_ordinal_start s = start
          \<and> fetch_section L blob s = Ok (enc_block L block) \<and> section_by_descriptor L layout s = Ok (enc_block L block))"
proof -
  let ?R = "\<lambda>c (start :: u32) stop. c = section_code SectionSymbolDetailBlock \<and> start \<le> ordinal \<and> ordinal < stop"
  let ?offset = "of_nat (28 + length (enc_toc L (bly_toc layout))) :: u64"
  have located: "detail_section (bly_toc layout) ordinal = ok_or (MissingSection SectionSymbolDetailBlock)
      (find (\<lambda>s. ?R (bse_kind s) (bse_symbol_ordinal_start s) (bse_symbol_ordinal_end s)) (place_sections L ?offset (raw_sections L g)))"
    unfolding detail_section_def stores_layout_parts(2)[OF assms] by (rule refl)
  show ?thesis
  proof (cases "find (covers ordinal) (detail_blocks 0 g)")
    case None
    then have "find (\<lambda>(k, _, _, start, stop). ?R (section_code k) start stop) (raw_sections L g) = None"
      by (simp only: covers_sections None option.map)
    then show ?thesis using None find_placed_None[of ?R "raw_sections L g" L ?offset] located by (simp add: ok_or_def)
  next
    case (Some b)
    obtain block start stop where b: "b = (block, start, stop)" by (cases b)
    let ?raw = "(SectionSymbolDetailBlock, enc_block L block, 0, start, stop)"
    have "find (\<lambda>(k, _, _, start, stop). ?R (section_code k) start stop) (raw_sections L g) = Some ?raw"
      by (simp only: covers_sections Some b option.map prod.case)
    from find_placed[of ?R, OF this, of L ?offset]
    obtain pre post where split: "raw_sections L g = pre @ ?raw # post"
      and found: "find (\<lambda>s. ?R (bse_kind s) (bse_symbol_ordinal_start s) (bse_symbol_ordinal_end s))
          (place_sections L ?offset (raw_sections L g)) = Some (placed L (?offset + of_nat (bytes_before pre)) ?raw)"
      by blast
    have "detail_section (bly_toc layout) ordinal = Ok (placed L (section_offset L layout pre) ?raw)"
      unfolding located found section_offset_def by (simp add: ok_or_def)
    moreover have "bse_compression (placed L (section_offset L layout pre) ?raw) = 0"
        "bse_symbol_ordinal_start (placed L (section_offset L layout pre) ?raw) = start"
      by (simp_all add: placed_def)
    ultimately show ?thesis using fetch_placed[OF assms split] Some b by (simp add: decompress_section_def)
  qed
qed

lemma detail_section_encoded:
  assumes "stores_layout L g layout blob" "find (covers ordinal) (detail_blocks 0 g) = Some (block, start, stop)"
    and "dec_block L (enc_block L block) = Some block"
  shows "symbol_detail_block L (bly_toc layout) blob ordinal = Ok block"
    and "symbol_detail_block_start (bly_toc layout) ordinal = Ok start"
  using detail_section_found[OF assms(1), of ordinal] assms(2,3)
  by (auto simp: symbol_detail_block_def symbol_detail_block_start_def ok_or_def)

text \<open>Every entry of the table gives its own section.\<close>

definition gives_section :: "layout_codec \<Rightarrow> blob_layout \<Rightarrow> artifact_blob \<Rightarrow> raw_section \<Rightarrow> blob_section \<Rightarrow> bool" where
  "gives_section L layout blob = (\<lambda>(kind, bytes, compression, start, stop) s.
     bse_kind s = section_code kind \<and> bse_compression s = compression
     \<and> bse_symbol_ordinal_start s = start \<and> bse_symbol_ordinal_end s = stop
     \<and> fetch_section L blob s = decompress_section L bytes compression
     \<and> section_by_descriptor L layout s = Ok bytes)"

lemma all_sections_given:
  assumes "stores_layout L g layout blob"
  shows "list_all2 (gives_section L layout blob) (raw_sections L g) (btc_sections (bly_toc layout))"
  unfolding stores_layout_parts(2)[OF assms]
proof (rule list_all2_mono[OF place_sections_all])
  let ?offset = "of_nat (28 + length (enc_toc L (bly_toc layout))) :: u64"
  fix x s
  assume "\<exists>pre post. raw_sections L g = pre @ x # post \<and> s = placed L (?offset + of_nat (bytes_before pre)) x"
  then obtain pre post where split: "raw_sections L g = pre @ x # post" "s = placed L (section_offset L layout pre) x"
    by (auto simp: section_offset_def)
  obtain kind bytes compression start stop where x: "x = (kind, bytes, compression, start, stop)" by (cases x) auto
  show "gives_section L layout blob x s"
    using fetch_placed[OF assms split(1)[unfolded x]] by (simp add: gives_section_def x split(2)) (simp add: placed_def)
qed

lemma sections_found:
  "find (\<lambda>(k, _, _, _, _). section_code k = section_code SectionSymbolDictionary) (raw_sections L g)
     = Some (SectionSymbolDictionary, enc_dictionary L (dictionary_of g), 0, 0, 0)"
  "find (\<lambda>(k, _, _, _, _). section_code k = section_code SectionSymbolPostings) (raw_sections L g)
     = Some (SectionSymbolPostings, enc_postings L (postings_of g), 0, 0, 0)"
  "find (\<lambda>(k, _, _, _, _). section_code k = section_code SectionHierarchyPostings) (raw_sections L g)
     = Some (SectionHierarchyPostings, enc_hierarchy L (hierarchy_postings_of g), 0, 0, 0)"
  "find (\<lambda>(k, _, _, _, _). section_code k = section_code SectionQualifiedSymbolDirectory) (raw_sections L g)
     = Some (SectionQualifiedSymbolDirectory, enc_directory L (directory_of g), 0, 0, 0)"
  "find (\<lambda>(k, _, _, _, _). section_code k = section_code SectionGraphFacts) (raw_sections L g)
     = Some (SectionGraphFacts, gzip L (enc_facts L g), 1, 0, 0)"
  by (simp_all add: raw_sections_def)

text \<open>
  C20. An encoded blob is read back from the cache: its table is found through the header and accepted, in the
  file and in memory. Every section of it, the detail blocks included, is fetched from its own range with a
  matching checksum and holds exactly the bytes that were encoded for it, the graph after decompression; the five
  fixed sections are found by their kind and the detail block of an ordinal by the interval that covers it, and an
  ordinal no block covers is reported as a missing section.
\<close>

theorem encoded_layout_reads_back:
  assumes "stores_layout L g layout blob"
  shows "sections_open L blob = Ok (bly_toc layout) \<and> validate_layout L (bly_bytes layout) = Ok layout
    \<and> list_all2 (gives_section L layout blob) (raw_sections L g) (btc_sections (bly_toc layout))
    \<and> read_section L (bly_toc layout) blob SectionSymbolDictionary = Ok (enc_dictionary L (dictionary_of g))
    \<and> read_section L (bly_toc layout) blob SectionSymbolPostings = Ok (enc_postings L (postings_of g))
    \<and> read_section L (bly_toc layout) blob SectionHierarchyPostings = Ok (enc_hierarchy L (hierarchy_postings_of g))
    \<and> read_section L (bly_toc layout) blob SectionQualifiedSymbolDirectory = Ok (enc_directory L (directory_of g))
    \<and> read_section L (bly_toc layout) blob SectionGraphFacts = ok_or LayoutGzip (gunzip L (gzip L (enc_facts L g)))
    \<and> layout_section L layout SectionSymbolDictionary = Ok (enc_dictionary L (dictionary_of g))
    \<and> layout_section L layout SectionSymbolPostings = Ok (enc_postings L (postings_of g))
    \<and> layout_section L layout SectionHierarchyPostings = Ok (enc_hierarchy L (hierarchy_postings_of g))
    \<and> layout_section L layout SectionQualifiedSymbolDirectory = Ok (enc_directory L (directory_of g))
    \<and> layout_section L layout SectionGraphFacts = Ok (gzip L (enc_facts L g))
    \<and> (case find (covers ordinal) (detail_blocks 0 g) of
         None \<Rightarrow> symbol_detail_block L (bly_toc layout) blob ordinal = Err (MissingSection SectionSymbolDetailBlock)
           \<and> layout_symbol_detail_block L layout ordinal = Err (MissingSection SectionSymbolDetailBlock)
       | Some (block, start, stop) \<Rightarrow>
           symbol_detail_block_start (bly_toc layout) ordinal = Ok start
           \<and> and_then (detail_section (bly_toc layout) ordinal) (fetch_section L blob) = Ok (enc_block L block)
           \<and> and_then (detail_section (bly_toc layout) ordinal) (section_by_descriptor L layout) = Ok (enc_block L block)
           \<and> symbol_detail_block L (bly_toc layout) blob ordinal = ok_or LayoutDecode (dec_block L (enc_block L block))
           \<and> layout_symbol_detail_block L layout ordinal = ok_or LayoutDecode (dec_block L (enc_block L block)))"
proof -
  note fixed = read_section_encoded[OF assms, OF sections_found(1)] read_section_encoded[OF assms, OF sections_found(2)]
    read_section_encoded[OF assms, OF sections_found(3)] read_section_encoded[OF assms, OF sections_found(4)]
    read_section_encoded[OF assms, OF sections_found(5)]
  have blocks: "case find (covers ordinal) (detail_blocks 0 g) of
         None \<Rightarrow> symbol_detail_block L (bly_toc layout) blob ordinal = Err (MissingSection SectionSymbolDetailBlock)
           \<and> layout_symbol_detail_block L layout ordinal = Err (MissingSection SectionSymbolDetailBlock)
       | Some (block, start, stop) \<Rightarrow>
           symbol_detail_block_start (bly_toc layout) ordinal = Ok start
           \<and> and_then (detail_section (bly_toc layout) ordinal) (fetch_section L blob) = Ok (enc_block L block)
           \<and> and_then (detail_section (bly_toc layout) ordinal) (section_by_descriptor L layout) = Ok (enc_block L block)
           \<and> symbol_detail_block L (bly_toc layout) blob ordinal = ok_or LayoutDecode (dec_block L (enc_block L block))
           \<and> layout_symbol_detail_block L layout ordinal = ok_or LayoutDecode (dec_block L (enc_block L block))"
    using detail_section_found[OF assms, of ordinal]
    by (auto simp: symbol_detail_block_def layout_symbol_detail_block_def symbol_detail_block_start_def decompress_section_def
        split: option.splits)
  show ?thesis
    by (intro conjI sections_open_encoded[OF assms] validate_encoded[OF assms] all_sections_given[OF assms] blocks)
      (simp_all only: fixed decompress_section_def if_True if_False one_neq_zero simp_thms)
qed

section \<open>Sample blobs\<close>

text \<open>A dependency of two types, one an implementation of the other, every id stored inline.\<close>

definition sample_dependency :: file_analysis_snapshot where
  "sample_dependency =
     (sample_snapshot ''a'' ''1''
        [(sample_symbol ''a'' ''s'' ''Base'')\<lparr>sym_qualified_name := Some ''a.Base''\<rparr>,
         (sample_symbol ''a'' ''t'' ''Impl'')\<lparr>sym_qualified_name := Some ''a.Impl''\<rparr>])
     \<lparr>snap_hierarchy := [\<lparr> hier_subtype = SymbolId ''t'', hier_supertype = SymbolId ''s'', hier_precision = Exact,
        hier_provenance = sample_provenance ''1'' \<rparr>]\<rparr>"

definition sample_graph :: graph_artifact where
  "sample_graph = (case graph_snapshot (\<lambda>_. None) sample_dependency of Inl _ \<Rightarrow> [] | Inr g \<Rightarrow> [g])"

lemma sample_graph_facts:
  "length (detail_blocks 0 sample_graph) = 1" "decode_graph_artifact sample_graph = Ok [sample_dependency]"
  by code_simp+

text \<open>A codec that writes a fixed text for every message and reads the messages of one graph back.\<close>

definition sample_table_codec :: "graph_artifact \<Rightarrow> layout_codec" where
  "sample_table_codec g =
     \<lparr> enc_toc = (\<lambda>_. ''toc''), dec_toc = (\<lambda>_. None),
       enc_dictionary = (\<lambda>_. ''ids''), dec_dictionary = (\<lambda>_. Some (dictionary_of g)),
       enc_postings = (\<lambda>_. ''units''), dec_postings = (\<lambda>_. Some (postings_of g)),
       enc_hierarchy = (\<lambda>_. ''edges''), dec_hierarchy = (\<lambda>_. Some (hierarchy_postings_of g)),
       enc_directory = (\<lambda>_. ''names''), dec_directory = (\<lambda>_. Some (directory_of g)),
       enc_facts = (\<lambda>_. ''graph''), dec_facts = (\<lambda>_. Some g),
       enc_block = (\<lambda>_. ''b''), dec_block = (\<lambda>_. Some (fst (hd (detail_blocks 0 g)))),
       gzip = rev, gunzip = (\<lambda>b. Some (rev b)), lay_sha256 = (\<lambda>b. replicate 32 (CHR ''s'')) \<rparr>"

definition sample_toc :: "graph_artifact \<Rightarrow> blob_toc" where
  "sample_toc g = toc_after (sample_table_codec g) (raw_sections (sample_table_codec g) g) 3"

definition sample_layout_codec :: "graph_artifact \<Rightarrow> layout_codec" where
  "sample_layout_codec g = (sample_table_codec g)\<lparr>dec_toc := (\<lambda>_. Some (sample_toc g))\<rparr>"

definition sample_layout :: "graph_artifact \<Rightarrow> blob_layout" where
  "sample_layout g =
     \<lparr> bly_bytes = layout_bytes (sample_layout_codec g) (raw_sections (sample_layout_codec g) g) (sample_toc g),
       bly_toc = sample_toc g \<rparr>"

definition sample_blob :: "artifact_blob_key \<Rightarrow> graph_artifact \<Rightarrow> artifact_blob" where
  "sample_blob key g =
     \<lparr> ab_file = blob_file sample_digest key (bly_bytes (sample_layout g)),
       ab_payload_len = of_nat (length (bly_bytes (sample_layout g))) \<rparr>"

lemma place_sections_digest:
  "lay_sha256 L = lay_sha256 L' \<Longrightarrow> place_sections L offset sections = place_sections L' offset sections"
proof (induction sections arbitrary: offset)
  case (Cons x sections)
  then show ?case by (cases x) simp
qed simp

lemma sample_layout_encoded: "encode_layout (sample_layout_codec g) g = Some (sample_layout g)"
proof -
  let ?L = "sample_layout_codec g" and ?xs = "raw_sections (sample_layout_codec g) g"
  have three: "toc_length ?L ?xs n = 3" "length (enc_toc ?L t) = 3" for n t
    by (simp_all add: toc_length_def sample_layout_codec_def sample_table_codec_def)
  have "raw_sections ?L g = raw_sections (sample_table_codec g) g"
    by (simp add: raw_sections_def sample_layout_codec_def)
  moreover have "place_sections ?L offset xs = place_sections (sample_table_codec g) offset xs" for offset xs
    by (rule place_sections_digest) (simp add: sample_layout_codec_def)
  ultimately have "toc_after ?L ?xs 3 = sample_toc g" by (simp add: toc_after_def sample_toc_def)
  then have "layout_toc ?L ?xs empty_toc = Some (sample_toc g)"
    using layout_toc_step[of ?L ?xs 3] by (simp add: layout_toc_start three)
  then show ?thesis by (simp add: encode_layout_def sample_layout_def)
qed

lemma sample_blob_stores:
  assumes "length (detail_blocks 0 g) < 1000"
  shows "stores_layout (sample_layout_codec g) g (sample_layout g) (sample_blob key g)"
proof -
  have "length (concat (map (\<lambda>x. ''b'') xs)) = length xs" for xs :: "(g_detail_block \<times> u32 \<times> u32) list"
    by (induction xs) auto
  then have "length (bly_bytes (sample_layout g)) < 2000"
    using assms by (simp add: sample_layout_def layout_bytes_def raw_sections_def sample_layout_codec_def
        sample_table_codec_def LAYOUT_MAGIC_def comp_def case_prod_unfold)
  then show ?thesis
    using blob_header_fields(1)[of sample_digest key]
    by (simp add: stores_layout_def sample_layout_encoded sample_blob_def blob_file_def)
       (simp add: sample_layout_codec_def sample_table_codec_def sample_layout_def)
qed

theorem layout_encoding_ends_witness: "\<exists>layout. encode_layout (sample_layout_codec sample_graph) sample_graph = Some layout"
proof (rule layout_encoding_ends)
  show "toc_length (sample_layout_codec sample_graph) (raw_sections (sample_layout_codec sample_graph) sample_graph) a
      \<le> toc_length (sample_layout_codec sample_graph) (raw_sections (sample_layout_codec sample_graph) sample_graph) b" for a b
    by (simp add: toc_length_def sample_layout_codec_def sample_table_codec_def)
  show "toc_length (sample_layout_codec sample_graph) (raw_sections (sample_layout_codec sample_graph) sample_graph) a \<le> 3" for a
    by (simp add: toc_length_def sample_layout_codec_def sample_table_codec_def)
  show "length (enc_toc (sample_layout_codec sample_graph) empty_toc)
      \<le> toc_length (sample_layout_codec sample_graph) (raw_sections (sample_layout_codec sample_graph) sample_graph) a" for a
    by (simp add: toc_length_def sample_layout_codec_def sample_table_codec_def)
qed

theorem encoded_layout_reads_back_witness:
  "let L = sample_layout_codec sample_graph; blob = sample_blob sample_key sample_graph; toc = sample_toc sample_graph
   in sections_open L blob = Ok toc
    \<and> read_section L toc blob SectionSymbolDictionary = Ok ''ids'' \<and> read_section L toc blob SectionGraphFacts = Ok ''graph''
    \<and> and_then (detail_section toc 1) (fetch_section L blob) = Ok ''b''
    \<and> symbol_detail_block L toc blob 2 = Err (MissingSection SectionSymbolDetailBlock)"
proof -
  have "map (\<lambda>(_, start, stop). (start, stop)) (detail_blocks 0 sample_graph) = [(0, 2)]" by code_simp
  then obtain block where "detail_blocks 0 sample_graph = [(block, 0, 2)]" by (auto simp: map_eq_Cons_conv)
  then have "find (covers 1) (detail_blocks 0 sample_graph) = Some (block, 0, 2)"
      "find (covers 2) (detail_blocks 0 sample_graph) = None"
    by (simp_all add: covers_def)
  then show ?thesis
    using encoded_layout_reads_back[OF sample_blob_stores[of sample_graph sample_key], of 1]
      encoded_layout_reads_back[OF sample_blob_stores[of sample_graph sample_key], of 2] sample_graph_facts(1)
    by (simp add: ok_or_def sample_layout_codec_def sample_table_codec_def sample_layout_def)
qed

end
