(* ===== verification/Artifact_Query.thy ===== *)
theory Artifact_Query
  imports Blob_Access Protocol
begin

text \<open>
  Queries over one dependency blob of the cache (\<open>crates/kide-core/src/artifact_query.rs\<close>): the symbols of a
  qualified name and the direct implementations of a symbol, each from the sections it needs. The lemmas show
  that the answers are those of the whole graph.
\<close>

section \<open>Queries\<close>

datatype artifact_query_error =
  QueryCache blob_cache_error | QueryLayout blob_layout_error | QueryGraph artifact_proto_error | QueryDecode

definition query_cache :: "(blob_cache_error, 'a) result \<Rightarrow> (artifact_query_error, 'a) result" where
  "query_cache r = (case r of Inl e \<Rightarrow> Err (QueryCache e) | Inr x \<Rightarrow> Ok x)"

definition query_layout :: "(blob_layout_error, 'a) result \<Rightarrow> (artifact_query_error, 'a) result" where
  "query_layout r = (case r of Inl e \<Rightarrow> Err (QueryLayout e) | Inr x \<Rightarrow> Ok x)"

definition query_graph :: "(artifact_proto_error, 'a) result \<Rightarrow> (artifact_query_error, 'a) result" where
  "query_graph r = (case r of Inl e \<Rightarrow> Err (QueryGraph e) | Inr x \<Rightarrow> Ok x)"

lemma query_simps [simp]:
  "query_cache (Inr x) = Ok x" "query_layout (Inr x) = Ok x" "query_graph (Inr x) = Ok x"
  "query_cache (Inl e) = Err (QueryCache e)" "query_layout (Inl e') = Err (QueryLayout e')"
  "query_graph (Inl e'') = Err (QueryGraph e'')"
  by (simp_all add: query_cache_def query_layout_def query_graph_def)

definition artifact_symbols_with_qualified_name :: "digester \<Rightarrow> layout_codec \<Rightarrow> cache_files \<Rightarrow> artifact_descriptor \<Rightarrow> string
    \<Rightarrow> (artifact_query_error, symbol_record list) result" where
  "artifact_symbols_with_qualified_name digest L fs artifact qualified_name =
     and_then (query_cache (open_blob digest (key_for_descriptor artifact) fs)) (\<lambda>found.
     case found of None \<Rightarrow> Ok []
     | Some blob \<Rightarrow>
         and_then (query_layout (sections_open L blob)) (\<lambda>toc.
         and_then (query_layout (qualified_symbol_directory L toc blob)) (\<lambda>directory.
         collect_results (\<lambda>ordinal.
             and_then (query_layout (symbol_detail_block L toc blob ordinal)) (\<lambda>block.
             query_graph (decode_symbol_detail block ordinal)))
           (map qse_symbol_ordinal (filter (\<lambda>e. qse_qualified_name e = qualified_name) directory)))))"

text \<open>\<open>by_block.entry(start?).or_default().push(ordinal)\<close> for every ordinal.\<close>

fun group_ordinals :: "blob_toc \<Rightarrow> u32 list \<Rightarrow> (u32, u32 list) btree \<Rightarrow> (artifact_query_error, (u32, u32 list) btree) result" where
  "group_ordinals toc [] m = Ok m"
| "group_ordinals toc (ordinal # rest) m =
     and_then (query_layout (symbol_detail_block_start toc ordinal)) (\<lambda>start.
     group_ordinals toc rest
       (btree_insert start ((case btree_get m start of None \<Rightarrow> [] | Some v \<Rightarrow> v) @ [ordinal]) m))"

text \<open>The blocks in order of their start, each read once; no group is empty.\<close>

definition read_groups :: "layout_codec \<Rightarrow> blob_toc \<Rightarrow> artifact_blob \<Rightarrow> (u32, u32 list) btree
    \<Rightarrow> (artifact_query_error, symbol_record list) result" where
  "read_groups L toc blob groups =
     and_then (collect_results (\<lambda>(_, ordinals).
         and_then (query_layout (symbol_detail_block L toc blob (hd ordinals))) (\<lambda>block.
         collect_results (\<lambda>ordinal. query_graph (decode_symbol_detail block ordinal)) ordinals)) groups)
       (\<lambda>symbols. Ok (concat symbols))"

text \<open>Blobs without hierarchy postings: the whole graph of this artifact; of two symbols with one id the last counts.\<close>

definition implementations_in_graph :: "layout_codec \<Rightarrow> artifact_blob \<Rightarrow> symbol_id
    \<Rightarrow> (artifact_query_error, symbol_record list) result" where
  "implementations_in_graph L blob supertype =
     and_then (query_cache (read_all blob)) (\<lambda>payload.
     and_then (query_layout (validate_layout L payload)) (\<lambda>layout.
     and_then (query_layout (layout_graph_facts L layout)) (\<lambda>graph.
     and_then (query_graph (decode_graph_artifact graph)) (\<lambda>snapshots.
     let symbols = map_of (rev (map (\<lambda>x. (sym_id x, x)) (concat (map snap_symbols snapshots))))
     in Ok (List.map_filter (\<lambda>e. symbols (hier_subtype e))
              (filter (\<lambda>e. hier_supertype e = supertype) (concat (map snap_hierarchy snapshots))))))))"

definition direct_implementations :: "digester \<Rightarrow> layout_codec \<Rightarrow> cache_files \<Rightarrow> artifact_descriptor \<Rightarrow> symbol_id
    \<Rightarrow> (artifact_query_error, symbol_record list) result" where
  "direct_implementations digest L fs artifact supertype =
     and_then (query_cache (open_blob digest (key_for_descriptor artifact) fs)) (\<lambda>found.
     case found of None \<Rightarrow> Ok []
     | Some blob \<Rightarrow>
         and_then (query_layout (sections_open L blob)) (\<lambda>toc.
         case hierarchy_postings L toc blob of
           Inr hierarchy \<Rightarrow>
             (let subtype_ids = map hpo_subtype_symbol_id
                (filter (\<lambda>e. hpo_supertype_symbol_id e = as_str supertype) hierarchy)
              in if subtype_ids = [] then Ok []
                 else
                 and_then (query_layout (symbol_dictionary L toc blob)) (\<lambda>dictionary.
                 and_then (group_ordinals toc
                     (map (\<lambda>(k, _). of_nat k) (filter (\<lambda>(_, e). dce_id e \<in> set subtype_ids) (enumerate 0 dictionary))) [])
                   (read_groups L toc blob)))
         | Inl e \<Rightarrow>
             if e = MissingSection SectionHierarchyPostings then implementations_in_graph L blob supertype
             else Err (QueryLayout e)))"

section \<open>The symbols of a qualified name\<close>

text \<open>
  A blob that can be read for a descriptor: it is opened under its key, holds the encoded graph \<open>g\<close> and the
  codec decodes the sections it encoded; the graph decodes to \<open>ss\<close> and its strings are countable in 32 bits.
\<close>

definition readable :: "digester \<Rightarrow> layout_codec \<Rightarrow> cache_files \<Rightarrow> artifact_descriptor \<Rightarrow> graph_artifact
    \<Rightarrow> file_analysis_snapshot list \<Rightarrow> bool" where
  "readable digest L fs artifact g ss \<longleftrightarrow>
     (\<exists>blob layout. open_blob digest (key_for_descriptor artifact) fs = Ok (Some blob) \<and> stores_layout L g layout blob)
     \<and> dec_directory L (enc_directory L (directory_of g)) = Some (directory_of g)
     \<and> dec_dictionary L (enc_dictionary L (dictionary_of g)) = Some (dictionary_of g)
     \<and> dec_hierarchy L (enc_hierarchy L (hierarchy_postings_of g)) = Some (hierarchy_postings_of g)
     \<and> list_all (\<lambda>(block, _, _). dec_block L (enc_block L block) = Some block) (detail_blocks 0 g)
     \<and> decode_graph_artifact g = Ok ss \<and> length (artifact_strings g) < 2 ^ 32"

text \<open>Everything the detail blocks look for is where they look: provenances at index zero, owners by their id.\<close>

definition inline_details :: "graph_artifact \<Rightarrow> bool" where
  "inline_details g \<longleftrightarrow> list_all (\<lambda>s. gsn_provenance_index s = Some 0) g
     \<and> list_all (\<lambda>(s, y). gsy_owner_symbol_ordinal y = None) (symbols_of g)"

definition serves :: "digester \<Rightarrow> layout_codec \<Rightarrow> cache_files \<Rightarrow> artifact_descriptor \<Rightarrow> graph_artifact
    \<Rightarrow> file_analysis_snapshot list \<Rightarrow> bool" where
  "serves digest L fs artifact g ss \<longleftrightarrow> readable digest L fs artifact g ss \<and> inline_details g"

definition all_symbols :: "file_analysis_snapshot list \<Rightarrow> symbol_record list" where
  "all_symbols ss = concat (map snap_symbols ss)"

lemma decoded_declaration:
  "decode_symbol_declaration u p v = Ok x \<Longrightarrow> sym_qualified_name x = psd_qualified_name v \<and> sym_id x = SymbolId (psd_id v)
     \<and> sym_owner x = map_option SymbolId (psd_owner_id v) \<and> sym_provenance x = p
     \<and> bk_backend (sym_backend_key x) = prov_backend p"
  by (auto simp: decode_symbol_declaration_def and_then_eq_Ok)

lemma decoded_symbol_fields:
  assumes "decodes_in ids (s, y) x"
  shows "sym_qualified_name x = gsy_qualified_name y" and "sym_id x = SymbolId (gsy_id y)"
    and "gsn_provenance_index s = Some 0 \<Longrightarrow> gsy_owner_symbol_ordinal y = None \<Longrightarrow> detail_view (s, y) x = x"
proof -
  obtain u p i where i: "gsn_provenance_index s = Some i" and dec: "decode_symbol_declaration u p (p_of_symbol i ids y) = Ok x"
      and held: "holds_at (map (decode_provenance \<circ> p_of_provenance) (gsn_provenances s)) (or_index (gsy_provenance_index y) i) p"
    using assms by (auto simp: decodes_in_def)
  note fields = decoded_declaration[OF dec]
  show "sym_qualified_name x = gsy_qualified_name y" "sym_id x = SymbolId (gsy_id y)"
    using fields by (simp_all add: p_of_symbol_def)
  assume "gsn_provenance_index s = Some 0" "gsy_owner_symbol_ordinal y = None"
  then have "sym_owner x = map_option SymbolId (gsy_owner_id y)"
      "sym_provenance x = decode_provenance (p_of_provenance (gsn_provenances s ! unat (or_index (gsy_provenance_index y) 0)))"
    using fields i held by (auto simp: p_of_symbol_def local_optional_def holds_at_def)
  then show "detail_view (s, y) x = x"
    using fields by (cases x; cases "sym_backend_key x") (simp add: detail_view_def with_detail_def)
qed

text \<open>The symbols of the graph as the detail blocks give them.\<close>

definition detail_symbols :: "graph_artifact \<Rightarrow> file_analysis_snapshot list \<Rightarrow> symbol_record list" where
  "detail_symbols g ss = map (\<lambda>(y, x). detail_view y x) (zip (symbols_of g) (all_symbols ss))"

lemma readable_symbols:
  assumes "readable digest L fs artifact g ss"
  shows "length (all_symbols ss) = length (symbols_of g)"
    and "k < length (symbols_of g) \<Longrightarrow> sym_qualified_name (all_symbols ss ! k) = gsy_qualified_name (snd (symbols_of g ! k))"
    and "k < length (symbols_of g) \<Longrightarrow> sym_id (all_symbols ss ! k) = SymbolId (gsy_id (snd (symbols_of g ! k)))"
    and "k < length (symbols_of g) \<Longrightarrow> detail_symbols g ss ! k = detail_view (symbols_of g ! k) (all_symbols ss ! k)"
    and "length (detail_symbols g ss) = length (symbols_of g)"
    and "inline_details g \<Longrightarrow> detail_symbols g ss = all_symbols ss"
proof -
  have decoded: "list_all2 (decodes_in (graph_ids g)) (symbols_of g) (all_symbols ss)"
    using artifact_symbols assms by (simp add: readable_def all_symbols_def)
  then show len: "length (all_symbols ss) = length (symbols_of g)" by (simp add: list_all2_lengthD)
  then show size: "length (detail_symbols g ss) = length (symbols_of g)" by (simp add: detail_symbols_def)
  show nth: "k < length (symbols_of g) \<Longrightarrow> detail_symbols g ss ! k = detail_view (symbols_of g ! k) (all_symbols ss ! k)" for k
    using len by (simp add: detail_symbols_def)
  have decodes: "decodes_in (graph_ids g) (fst (symbols_of g ! k), snd (symbols_of g ! k)) (all_symbols ss ! k)"
    if "k < length (symbols_of g)" for k
    using decoded that by (auto simp: list_all2_conv_all_nth)
  note fields = decoded_symbol_fields[OF decodes]
  show "k < length (symbols_of g) \<Longrightarrow> sym_qualified_name (all_symbols ss ! k) = gsy_qualified_name (snd (symbols_of g ! k))"
    and "k < length (symbols_of g) \<Longrightarrow> sym_id (all_symbols ss ! k) = SymbolId (gsy_id (snd (symbols_of g ! k)))"
    using fields(1,2) by blast+
  assume inline: "inline_details g"
  show "detail_symbols g ss = all_symbols ss"
  proof (rule nth_equalityI)
    fix k assume "k < length (detail_symbols g ss)"
    then have k: "k < length (symbols_of g)" using size by simp
    then have "symbols_of g ! k \<in> set (symbols_of g)" by simp
    then have "gsn_provenance_index (fst (symbols_of g ! k)) = Some 0" "gsy_owner_symbol_ordinal (snd (symbols_of g ! k)) = None"
      using inline by (auto simp: inline_details_def list_all_iff symbols_of_def)
    then show "detail_symbols g ss ! k = all_symbols ss ! k" using fields(3)[OF k] nth[OF k] by simp
  qed (simp add: len size)
qed

text \<open>One ordinal, read from the one block that holds it.\<close>

lemma readable_ordinal:
  assumes "readable digest L fs artifact g ss" "stores_layout L g layout blob" "k < length (symbols_of g)"
  shows "\<exists>block start stop. find (covers (of_nat k)) (detail_blocks 0 g) = Some (block, start, stop)
    \<and> symbol_detail_block L (bly_toc layout) blob (of_nat k) = Ok block
    \<and> symbol_detail_block_start (bly_toc layout) (of_nat k) = Ok start
    \<and> decode_symbol_detail block (of_nat k) = Ok (detail_symbols g ss ! k)"
proof -
  obtain block start stop where found: "find (covers (of_nat k)) (detail_blocks 0 g) = Some (block, start, stop)"
    and decoded: "decode_symbol_detail block (of_nat k) = Ok (detail_view (symbols_of g ! k) (all_symbols ss ! k))"
    using detail_lookup_lemma[of g ss k] assms(1,3) unfolding all_symbols_def readable_def by blast
  have "(block, start, stop) \<in> set (detail_blocks 0 g)" using found by (auto simp: find_Some_iff)
  then have "dec_block L (enc_block L block) = Some block" using assms(1) by (auto simp: readable_def list_all_iff)
  then show ?thesis
    using found decoded detail_section_encoded[OF assms(2) found] readable_symbols(4)[OF assms(1,3)] by auto
qed

lemma served_ordinal:
  assumes "serves digest L fs artifact g ss" "stores_layout L g layout blob" "k < length (symbols_of g)"
  shows "\<exists>block start stop. find (covers (of_nat k)) (detail_blocks 0 g) = Some (block, start, stop)
    \<and> symbol_detail_block L (bly_toc layout) blob (of_nat k) = Ok block
    \<and> symbol_detail_block_start (bly_toc layout) (of_nat k) = Ok start
    \<and> decode_symbol_detail block (of_nat k) = Ok (all_symbols ss ! k)"
  using readable_ordinal[OF _ assms(2,3)] readable_symbols(6) assms(1) unfolding serves_def by metis

lemma concat_symbols: "concat (map gsn_symbols g) = map snd (symbols_of g)"
  by (induction g) (simp_all add: symbols_of_def comp_def)

lemma enumerate_upt: "enumerate 0 (map f xs) = map (\<lambda>k. (k, f (xs ! k))) [0..<length xs]"
  by (rule nth_equalityI) (simp_all add: nth_enumerate_eq)

lemma directory_entries:
  assumes "length (symbols_of g) < 2 ^ 32"
  shows "map qse_symbol_ordinal (filter (\<lambda>e. qse_qualified_name e = q) (directory_of g))
    = map of_nat (filter (\<lambda>k. gsy_qualified_name (snd (symbols_of g ! k)) = Some q) [0..<length (symbols_of g)])"
proof -
  let ?name = "\<lambda>k. gsy_qualified_name (snd (symbols_of g ! k))"
  let ?key = "\<lambda>e. (qse_qualified_name e, qse_symbol_ordinal e)"
  let ?ks = "filter (\<lambda>k. ?name k = Some q) [0..<length (symbols_of g)]"
  let ?es = "List.map_filter (\<lambda>k. map_option (\<lambda>n. \<lparr> qse_qualified_name = n, qse_symbol_ordinal = of_nat k \<rparr>) (?name k))
    [0..<length (symbols_of g)]"
  have "List.map_filter (\<lambda>(k, y). map_option (\<lambda>n. \<lparr> qse_qualified_name = n, qse_symbol_ordinal = of_nat k \<rparr>) (gsy_qualified_name y))
      (enumerate 0 (map snd (symbols_of g))) = ?es"
    by (simp add: enumerate_upt map_filter_def filter_map comp_def)
  then have "filter (\<lambda>e. qse_qualified_name e = q) (directory_of g) = sort_key ?key (filter (\<lambda>e. qse_qualified_name e = q) ?es)"
    by (simp add: directory_of_def concat_symbols filter_sort)
  also have "filter (\<lambda>e. qse_qualified_name e = q) ?es = map (\<lambda>k. \<lparr> qse_qualified_name = q, qse_symbol_ordinal = of_nat k \<rparr>) ?ks"
  proof -
    have "filter (\<lambda>e. qse_qualified_name e = q) (List.map_filter (\<lambda>k. map_option (\<lambda>n. \<lparr> qse_qualified_name = n, qse_symbol_ordinal = of_nat k \<rparr>) (?name k)) ks)
        = map (\<lambda>k. \<lparr> qse_qualified_name = q, qse_symbol_ordinal = of_nat k \<rparr>) (filter (\<lambda>k. ?name k = Some q) ks)" for ks
      by (induction ks) (auto simp: List.map_filter_simps split: option.splits)
    then show ?thesis .
  qed
  also have "sort_key ?key (map (\<lambda>k. \<lparr> qse_qualified_name = q, qse_symbol_ordinal = of_nat k \<rparr>) ?ks)
      = map (\<lambda>k. \<lparr> qse_qualified_name = q, qse_symbol_ordinal = of_nat k \<rparr>) ?ks"
  proof (rule sort_key_id_if_sorted)
    have "sorted (map (\<lambda>k. (q, of_nat k :: u32)) ks)" if "sorted ks" "\<forall>k\<in>set ks. k < 2 ^ 32" for ks
      using that by (induction ks) (auto simp: word_le_nat_alt unat_of_index)
    from this[of ?ks] show "sorted (map ?key (map (\<lambda>k. \<lparr> qse_qualified_name = q, qse_symbol_ordinal = of_nat k \<rparr>) ?ks))"
      using assms by (simp add: comp_def sorted_wrt_filter)
  qed
  finally show ?thesis by (simp add: comp_def)
qed

lemma filter_nth: "filter P xs = map (nth xs) (filter (\<lambda>k. P (xs ! k)) [0..<length xs])"
proof -
  have "filter P (map (nth xs) [0..<length xs]) = map (nth xs) (filter (P \<circ> nth xs) [0..<length xs])" by (rule filter_map)
  then show ?thesis by (simp add: map_nth comp_def)
qed

lemma select_nth:
  assumes "n = length xs" "\<And>k. k < n \<Longrightarrow> P k \<longleftrightarrow> Q (xs ! k)"
  shows "map (nth xs) (filter P [0..<n]) = filter Q xs"
proof -
  have "filter P [0..<n] = filter (\<lambda>k. Q (xs ! k)) [0..<length xs]" by (rule filter_cong) (use assms in simp_all)
  then show ?thesis using filter_nth[of Q xs] by simp
qed

text \<open>
  C12. A lookup by qualified name over a cached dependency reads the directory and one detail block per hit and
  returns exactly the symbols of that name of the graph, in its order, as their detail blocks store them: every
  field is the one the whole graph decodes to, except that an owner stored by ordinal is missing and an inherited
  provenance (with the backend it names) is the first of the snapshot. In a graph with owners stored by id and snapshots with their
  provenance at index zero the answer is that of the whole graph.
\<close>

theorem qualified_lookup_exact:
  assumes "readable digest L fs artifact g ss"
  shows "artifact_symbols_with_qualified_name digest L fs artifact q
      = Ok (filter (\<lambda>x. sym_qualified_name x = Some q) (detail_symbols g ss))
    \<and> (inline_details g \<longrightarrow> detail_symbols g ss = all_symbols ss)"
proof -
  obtain blob layout where blob: "open_blob digest (key_for_descriptor artifact) fs = Ok (Some blob)"
    and stored: "stores_layout L g layout blob"
    using assms by (auto simp: readable_def)
  have small: "length (symbols_of g) < 2 ^ 32" using assms symbols_le_strings[of g] by (simp add: readable_def)
  have directory: "qualified_symbol_directory L (bly_toc layout) blob = Ok (directory_of g)"
    using read_section_encoded(1)[OF stored sections_found(4)] assms
    by (simp add: qualified_symbol_directory_def decompress_section_def ok_or_def readable_def)
  let ?ks = "filter (\<lambda>k. gsy_qualified_name (snd (symbols_of g ! k)) = Some q) [0..<length (symbols_of g)]"
  let ?read = "\<lambda>ordinal. and_then (query_layout (symbol_detail_block L (bly_toc layout) blob ordinal)) (\<lambda>block.
      query_graph (decode_symbol_detail block ordinal))"
  have "collect_results (\<lambda>k. ?read (of_nat k)) ?ks = Ok (map (nth (detail_symbols g ss)) ?ks)"
    by (rule collect_results_total) (use readable_ordinal[OF assms stored] in fastforce)
  moreover have "collect_results f (map h xs) = collect_results (\<lambda>x. f (h x)) xs" for f :: "u32 \<Rightarrow> (artifact_query_error, symbol_record) result" and h :: "nat \<Rightarrow> u32" and xs
    by (induction xs) auto
  moreover have "map (nth (detail_symbols g ss)) ?ks = filter (\<lambda>x. sym_qualified_name x = Some q) (detail_symbols g ss)"
    by (rule select_nth)
      (use readable_symbols(2,4,5)[OF assms] in \<open>simp_all add: detail_view_def with_detail_def case_prod_unfold\<close>)
  ultimately show ?thesis
    using blob sections_open_encoded[OF stored] directory directory_entries[OF small, of q] readable_symbols(6)[OF assms]
    by (simp add: artifact_symbols_with_qualified_name_def)
qed

section \<open>Ordinals of one block\<close>

text \<open>The first ordinal of the run that holds the ordinal \<open>k\<close>.\<close>

fun piece_start :: "nat \<Rightarrow> (g_snapshot \<times> g_symbol list) list \<Rightarrow> nat \<Rightarrow> nat" where
  "piece_start f [] k = f"
| "piece_start f ((s, es) # ps) k = (if k < f + length es then f else piece_start (f + length es) ps k)"

lemma piece_start_ge: "f \<le> piece_start f ps k"
proof (induction ps arbitrary: f)
  case (Cons p ps)
  obtain s es where "p = (s, es)" by force
  then show ?case using Cons[of "f + length es"] by simp
qed simp

lemma piece_start_mono: "k \<le> k' \<Longrightarrow> piece_start f ps k \<le> piece_start f ps k'"
proof (induction ps arbitrary: f)
  case (Cons p ps)
  obtain s es where "p = (s, es)" by force
  then show ?case using Cons piece_start_ge[of "f + length es" ps k'] by auto
qed simp

lemma piece_start_le: "f \<le> k \<Longrightarrow> piece_start f ps k \<le> k"
proof (induction ps arbitrary: f)
  case (Cons p ps)
  obtain s es where "p = (s, es)" by force
  then show ?case using Cons by auto
qed simp

lemma piece_starts_sorted:
  "sorted ks \<Longrightarrow> \<forall>k\<in>set ks. k < 2 ^ 32 \<Longrightarrow> sorted (map (\<lambda>k. of_nat (piece_start 0 ps k) :: u32) ks)"
proof (induction ks)
  case (Cons k ks)
  have "(of_nat (piece_start 0 ps k) :: u32) \<le> of_nat (piece_start 0 ps k')" if "k' \<in> set ks" for k'
  proof -
    have "piece_start 0 ps k < 2 ^ 32" "piece_start 0 ps k' < 2 ^ 32"
      using Cons.prems(2) that piece_start_le[of 0 k ps] piece_start_le[of 0 k' ps] by auto
    then show ?thesis
      using Cons.prems(1) that piece_start_mono[of k k' 0 ps] by (simp add: word_le_nat_alt unat_of_index)
  qed
  then show ?case using Cons by simp
qed simp

lemma find_piece_start:
  assumes "f + length (concat (map snd ps)) < 2 ^ 32" "f \<le> k" "k < f + length (concat (map snd ps))"
    and "find (covers (of_nat k)) (piece_blocks (of_nat f) ps) = Some (block, start, stop)"
  shows "start = of_nat (piece_start f ps k)"
  using assms
proof (induction ps arbitrary: f)
  case (Cons p ps)
  obtain s es where p: "p = (s, es)" by force
  have "covers (of_nat k) (b, of_nat f, of_nat f + of_nat (length es)) \<longleftrightarrow> k < f + length es" for b
    using covers_of_nat[of k f "f + length es"] Cons.prems(1-3) p by simp
  then show ?case using Cons.IH[of "f + length es"] Cons.prems p by (auto simp: add.assoc split: if_splits)
qed simp

lemma same_start_same_block:
  assumes "f + length (concat (map snd ps)) < 2 ^ 32" "\<forall>p\<in>set ps. snd p \<noteq> []"
    and "f \<le> k" "k < f + length (concat (map snd ps))" "f \<le> k'" "k' < f + length (concat (map snd ps))"
    and "piece_start f ps k = piece_start f ps k'"
  shows "find (covers (of_nat k)) (piece_blocks (of_nat f) ps) = find (covers (of_nat k')) (piece_blocks (of_nat f) ps)"
  using assms
proof (induction ps arbitrary: f)
  case (Cons p ps)
  obtain s es where p: "p = (s, es)" by force
  have hit: "covers (of_nat n) (b, of_nat f, of_nat f + of_nat (length es)) \<longleftrightarrow> n < f + length es"
    if "n \<in> {k, k'}" for b n
    using covers_of_nat[of n f "f + length es"] Cons.prems(1,3-6) p that by auto
  have "es \<noteq> []" using Cons.prems(2) p by auto
  then have later: "f < piece_start (f + length es) ps n" for n
    using piece_start_ge[of "f + length es" ps n] by (cases es) auto
  have "k < f + length es \<longleftrightarrow> k' < f + length es"
    using Cons.prems(7) p later[of k] later[of k'] by (auto split: if_splits)
  then show ?case
    using Cons.IH[of "f + length es"] Cons.prems p hit by (auto simp: add.assoc split: if_splits)
qed simp

lemma pieces_nonempty: "\<forall>p\<in>set (pieces g). snd p \<noteq> []"
  using chunks_bounds by (fastforce simp: pieces_def)

text \<open>Grouping a list whose keys ascend keeps its order.\<close>

definition groups_ok :: "('a \<Rightarrow> 'k) \<Rightarrow> ('k, 'a list) btree \<Rightarrow> bool" where
  "groups_ok key m \<longleftrightarrow> (\<forall>(k, v)\<in>set m. v \<noteq> [] \<and> (\<forall>x\<in>set v. key x = k))"

lemma group_step:
  fixes m :: "('k::linorder, 'a list) btree"
  assumes "btree_wf m" "\<forall>k\<in>fst ` set m. k \<le> key x" "groups_ok key m"
  shows "concat (map snd (btree_insert (key x) ((case btree_get m (key x) of None \<Rightarrow> [] | Some v \<Rightarrow> v) @ [x]) m))
      = concat (map snd m) @ [x]
    \<and> groups_ok key (btree_insert (key x) ((case btree_get m (key x) of None \<Rightarrow> [] | Some v \<Rightarrow> v) @ [x]) m)"
  using assms
proof (induction m)
  case (Cons e m)
  show ?case
  proof (cases "fst e < key x")
    case True
    then show ?thesis using Cons by (auto simp: btree_wf_def groups_ok_def)
  next
    case False
    then have key: "fst e = key x" using Cons.prems(2) by force
    have "k > key x \<and> k \<le> key x" if "k \<in> fst ` set m" for k
      using Cons.prems(1,2) that key by (auto simp: btree_wf_def)
    then have "m = []" by (cases m) force+
    then show ?thesis using key Cons.prems(3) by (cases e) (auto simp: groups_ok_def)
  qed
qed (simp add: groups_ok_def)

lemma group_ordinals_eq:
  assumes "\<forall>x\<in>set xs. symbol_detail_block_start toc x = Ok (key x)" "sorted (map key xs)"
    and "btree_wf m" "\<forall>k\<in>fst ` set m. \<forall>x\<in>set xs. k \<le> key x" "groups_ok key m"
  shows "\<exists>m'. group_ordinals toc xs m = Ok m' \<and> concat (map snd m') = concat (map snd m) @ xs \<and> groups_ok key m'"
  using assms
proof (induction xs arbitrary: m)
  case (Cons x xs)
  let ?m = "btree_insert (key x) ((case btree_get m (key x) of None \<Rightarrow> [] | Some v \<Rightarrow> v) @ [x]) m"
  have step: "concat (map snd ?m) = concat (map snd m) @ [x]" "groups_ok key ?m"
    using group_step[of m key x] Cons.prems by simp_all
  have "\<forall>k\<in>fst ` set ?m. \<forall>y\<in>set xs. k \<le> key y" using Cons.prems(2,4) by (auto simp: keys_insert)
  then obtain m' where "group_ordinals toc xs ?m = Ok m'" "concat (map snd m') = concat (map snd ?m) @ xs" "groups_ok key m'"
    using Cons.IH[of ?m] Cons.prems step(2) by auto
  then show ?case using Cons.prems(1) step(1) by simp
qed simp

lemma read_groups_eq:
  assumes "groups_ok key m" "\<forall>x\<in>set (concat (map snd m)). symbol_detail_block L toc blob x = Ok (block x)
      \<and> decode_symbol_detail (block x) x = Ok (result x)"
    and "\<forall>x\<in>set (concat (map snd m)). \<forall>y\<in>set (concat (map snd m)). key x = key y \<longrightarrow> block x = block y"
  shows "read_groups L toc blob m = Ok (map result (concat (map snd m)))"
proof -
  have "collect_results (\<lambda>(_, ordinals). and_then (query_layout (symbol_detail_block L toc blob (hd ordinals))) (\<lambda>block.
         collect_results (\<lambda>ordinal. query_graph (decode_symbol_detail block ordinal)) ordinals)) m
      = Ok (map (\<lambda>(_, ordinals). map result ordinals) m)"
  proof (rule collect_results_total)
    fix e assume e: "e \<in> set m"
    obtain k v where kv: "e = (k, v)" by force
    have v: "v \<noteq> []" "\<forall>x\<in>set v. key x = k" using assms(1) e kv by (auto simp: groups_ok_def)
    have sub: "set v \<subseteq> set (concat (map snd m))" using e kv by force
    have same: "block (hd v) = block x" if "x \<in> set v" for x
    proof -
      have "key (hd v) = key x" using v(2) that hd_in_set[OF v(1)] by simp
      then show ?thesis using assms(3) subsetD[OF sub that] subsetD[OF sub hd_in_set[OF v(1)]] by blast
    qed
    have "decode_symbol_detail (block (hd v)) x = Ok (result x)" if "x \<in> set v" for x
      using bspec[OF assms(2) subsetD[OF sub that]] same[OF that] by simp
    then have "collect_results (\<lambda>ordinal. query_graph (decode_symbol_detail (block (hd v)) ordinal)) v = Ok (map result v)"
      by (intro collect_results_total) simp
    then show "(case e of (_, ordinals) \<Rightarrow> and_then (query_layout (symbol_detail_block L toc blob (hd ordinals))) (\<lambda>block.
         collect_results (\<lambda>ordinal. query_graph (decode_symbol_detail block ordinal)) ordinals))
        = Ok (case e of (_, ordinals) \<Rightarrow> map result ordinals)"
      using bspec[OF assms(2) subsetD[OF sub hd_in_set[OF v(1)]]] by (simp add: kv)
  qed
  then show ?thesis by (simp add: read_groups_def map_concat comp_def case_prod_unfold)
qed

section \<open>Direct implementations\<close>

definition all_edges :: "file_analysis_snapshot list \<Rightarrow> hierarchy_edge list" where
  "all_edges ss = concat (map snap_hierarchy ss)"

text \<open>Edges between symbols that are stored by id.\<close>

definition inline_edges :: "graph_artifact \<Rightarrow> bool" where
  "inline_edges g \<longleftrightarrow> list_all (\<lambda>e. ghi_subtype_symbol_ordinal e = None \<and> ghi_supertype_symbol_ordinal e = None)
     (concat (map gsn_hierarchy g))"

lemma decoded_edge:
  assumes "with_provenance T f phe_provenance_index decode_hierarchy (p_of_hierarchy i ids e) = Ok h"
    and "ghi_subtype_symbol_ordinal e = None" "ghi_supertype_symbol_ordinal e = None"
  shows "hier_subtype h = SymbolId (ghi_subtype_symbol_id e) \<and> hier_supertype h = SymbolId (ghi_supertype_symbol_id e)"
  using assms
  by (auto simp: with_provenance_Ok decode_hierarchy_def p_of_hierarchy_def and_then_eq_Ok local_id_or_default_def local_id_def)

definition same_edge :: "g_hierarchy \<Rightarrow> hierarchy_edge \<Rightarrow> bool" where
  "same_edge e h \<longleftrightarrow> hier_subtype h = SymbolId (ghi_subtype_symbol_id e) \<and> hier_supertype h = SymbolId (ghi_supertype_symbol_id e)"

lemma graph_snapshot_edges:
  assumes "decode_graph_snapshot ids s = Ok r"
    and "list_all (\<lambda>e. ghi_subtype_symbol_ordinal e = None \<and> ghi_supertype_symbol_ordinal e = None) (gsn_hierarchy s)"
  shows "list_all2 same_edge (gsn_hierarchy s) (snap_hierarchy r)"
proof -
  obtain i where "canonical_error (decode_snapshot (p_of_snapshot ids s i)) = Ok r"
    using assms by (auto simp: decode_graph_snapshot_def and_then_eq_Ok)
  then have "decode_snapshot (p_of_snapshot ids s i) = Ok r"
    by (cases "decode_snapshot (p_of_snapshot ids s i)") (auto simp: canonical_error_def)
  then have "collect_results (with_provenance (map decode_provenance (psn_provenances (p_of_snapshot ids s i)))
      ''hierarchy.provenance_index'' phe_provenance_index decode_hierarchy) (psn_hierarchy (p_of_snapshot ids s i)) = Ok (snap_hierarchy r)"
    unfolding decode_snapshot_Ok Let_def by blast
  then have "list_all2 (\<lambda>e h. with_provenance (map decode_provenance (psn_provenances (p_of_snapshot ids s i)))
      ''hierarchy.provenance_index'' phe_provenance_index decode_hierarchy (p_of_hierarchy i ids e) = Ok h)
      (gsn_hierarchy s) (snap_hierarchy r)"
    by (simp add: p_of_snapshot_def collect_results_Ok list_all2_map1)
  then show ?thesis
    using assms(2) decoded_edge unfolding list_all2_conv_all_nth list_all_length same_edge_def by blast
qed

lemma graphs_edges:
  "list_all2 (\<lambda>s r. decode_graph_snapshot ids s = Ok r) g ss \<Longrightarrow> inline_edges g
     \<Longrightarrow> list_all2 same_edge (concat (map gsn_hierarchy g)) (all_edges ss)"
proof (induction g ss rule: list_all2_induct)
  case (Cons s g r ss)
  then show ?case
    using graph_snapshot_edges[of ids s r] by (simp add: inline_edges_def all_edges_def list_all2_appendI)
qed (simp add: all_edges_def)

lemma dictionary_ordinals:
  "map (\<lambda>(k, _). of_nat k) (filter (\<lambda>(_, e). dce_id e \<in> S) (enumerate 0 (dictionary_of g)))
    = map of_nat (filter (\<lambda>k. gsy_id (snd (symbols_of g ! k)) \<in> S) [0..<length (symbols_of g)])"
proof -
  have "dictionary_of g = map (\<lambda>p. \<lparr> dce_id = gsy_id (snd p), dce_name = gsy_name (snd p) \<rparr>) (symbols_of g)"
    by (induction g) (simp_all add: dictionary_of_def symbols_of_def comp_def)
  then show ?thesis by (simp add: enumerate_upt filter_map comp_def)
qed

lemma postings_concat:
  "hierarchy_postings_of g = map (\<lambda>e. \<lparr> hpo_subtype_symbol_id = ghi_subtype_symbol_id e,
     hpo_supertype_symbol_id = ghi_supertype_symbol_id e, hpo_precision = ghi_precision e \<rparr>) (concat (map gsn_hierarchy g))"
  by (simp add: hierarchy_postings_of_def map_concat comp_def)

text \<open>The groups of ascending ordinals are read to the symbols of these ordinals, in order.\<close>

lemma served_groups:
  assumes "serves digest L fs artifact g ss" "stores_layout L g layout blob"
    and "sorted ks" "\<forall>k\<in>set ks. k < length (symbols_of g)"
  shows "and_then (group_ordinals (bly_toc layout) (map of_nat ks) []) (read_groups L (bly_toc layout) blob)
    = Ok (map (nth (all_symbols ss)) ks)"
proof -
  have small: "length (symbols_of g) < 2 ^ 32" using assms(1) symbols_le_strings[of g] by (simp add: serves_def readable_def)
  have bound: "0 + length (concat (map snd (pieces g))) < 2 ^ 32" using small by (simp add: length_pieces)
  let ?key = "\<lambda>n :: u32. of_nat (piece_start 0 (pieces g) (unat n)) :: u32"
  let ?block = "\<lambda>n :: u32. fst (the (find (covers n) (detail_blocks 0 g)))"
  let ?result = "\<lambda>n :: u32. all_symbols ss ! unat n"
  have unat: "unat (of_nat k :: u32) = k" if "k \<in> set ks" for k
    using that assms(4) small by (intro unat_of_index) auto
  have read: "symbol_detail_block L (bly_toc layout) blob (of_nat k) = Ok (?block (of_nat k))
      \<and> symbol_detail_block_start (bly_toc layout) (of_nat k) = Ok (?key (of_nat k))
      \<and> decode_symbol_detail (?block (of_nat k)) (of_nat k) = Ok (?result (of_nat k))" if k: "k \<in> set ks" for k
  proof -
    obtain b start stop where found: "find (covers (of_nat k)) (detail_blocks 0 g) = Some (b, start, stop)"
      "symbol_detail_block L (bly_toc layout) blob (of_nat k) = Ok b"
      "symbol_detail_block_start (bly_toc layout) (of_nat k) = Ok start"
      "decode_symbol_detail b (of_nat k) = Ok (all_symbols ss ! k)"
      using served_ordinal[OF assms(1,2)] k assms(4) by blast
    moreover have "start = of_nat (piece_start 0 (pieces g) k)"
      using find_piece_start[OF bound, of k] found(1) k assms(4) by (simp add: detail_blocks_pieces length_pieces)
    ultimately show ?thesis using unat[OF k] by simp
  qed
  have start_small: "piece_start 0 (pieces g) k < 2 ^ 32" if "k \<in> set ks" for k
    using that assms(4) small piece_start_le[of 0 k "pieces g"] by auto
  have "map ?key (map of_nat ks) = map (\<lambda>k. of_nat (piece_start 0 (pieces g) k)) ks" using unat by simp
  then have sorted: "sorted (map ?key (map of_nat ks))"
    using piece_starts_sorted[OF assms(3)] assms(4) small by (metis less_trans)
  obtain m where m: "group_ordinals (bly_toc layout) (map of_nat ks) [] = Ok m" "concat (map snd m) = map of_nat ks"
      "groups_ok ?key m"
    using group_ordinals_eq[of "map of_nat ks" "bly_toc layout" ?key "[]"] read sorted by (auto simp: groups_ok_def)
  have "?block (of_nat k) = ?block (of_nat k')" if "k \<in> set ks" "k' \<in> set ks" "?key (of_nat k) = ?key (of_nat k')" for k k'
  proof -
    have "piece_start 0 (pieces g) k = piece_start 0 (pieces g) k'"
      using that start_small[OF that(1)] start_small[OF that(2)] unat[OF that(1)] unat[OF that(2)]
      by (metis unat_of_index)
    then have "find (covers (of_nat k)) (detail_blocks 0 g) = find (covers (of_nat k')) (detail_blocks 0 g)"
      using same_start_same_block[OF bound pieces_nonempty, of k k'] that assms(4)
      by (simp add: detail_blocks_pieces length_pieces)
    then show ?thesis by simp
  qed
  then have same: "\<forall>x\<in>set (map of_nat ks). \<forall>y\<in>set (map of_nat ks). ?key x = ?key y \<longrightarrow> ?block x = ?block y"
    unfolding set_map by blast
  have readable: "\<forall>x\<in>set (map of_nat ks). symbol_detail_block L (bly_toc layout) blob x = Ok (?block x)
      \<and> decode_symbol_detail (?block x) x = Ok (?result x)"
  proof
    fix x :: u32 assume "x \<in> set (map of_nat ks)"
    then obtain k where "k \<in> set ks" "x = of_nat k" by auto
    then show "symbol_detail_block L (bly_toc layout) blob x = Ok (?block x)
      \<and> decode_symbol_detail (?block x) x = Ok (?result x)" using read[of k] by blast
  qed
  have "read_groups L (bly_toc layout) blob m = Ok (map ?result (concat (map snd m)))"
    by (rule read_groups_eq[OF m(3)]) (unfold m(2), rule readable, rule same)
  then show ?thesis using m(1,2) unat by (simp add: comp_def)
qed

lemma edge_between:
  assumes "list_all2 same_edge es hs"
  shows "y \<in> set (map ghi_subtype_symbol_id (filter (\<lambda>e. ghi_supertype_symbol_id e = as_str supertype) es))
    \<longleftrightarrow> list_ex (\<lambda>h. hier_supertype h = supertype \<and> hier_subtype h = SymbolId y) hs"
  using assms
proof (induction es hs rule: list_all2_induct)
  case (Cons e es h hs)
  have "ghi_supertype_symbol_id e = as_str supertype \<longleftrightarrow> hier_supertype h = supertype"
    using Cons.hyps(1) by (cases supertype) (auto simp: same_edge_def)
  moreover have "ghi_subtype_symbol_id e = y \<longleftrightarrow> hier_subtype h = SymbolId y"
    using Cons.hyps(1) by (auto simp: same_edge_def)
  ultimately show ?case using Cons.IH by auto
qed simp

text \<open>
  C13. The direct implementations of a type in a cached dependency, found through the hierarchy postings, the
  dictionary and the detail blocks grouped by their start, are exactly the symbols of the whole graph with an
  edge to the type, in the order of the graph.
\<close>

theorem direct_implementations_exact:
  assumes "serves digest L fs artifact g ss" and "inline_edges g"
  shows "direct_implementations digest L fs artifact supertype
    = Ok (filter (\<lambda>x. list_ex (\<lambda>h. hier_supertype h = supertype \<and> hier_subtype h = sym_id x) (all_edges ss)) (all_symbols ss))"
proof -
  obtain blob layout where blob: "open_blob digest (key_for_descriptor artifact) fs = Ok (Some blob)"
    and stored: "stores_layout L g layout blob"
    using assms by (auto simp: serves_def readable_def)
  note read = read_section_encoded(1)[OF stored]
  have hierarchy: "hierarchy_postings L (bly_toc layout) blob = Ok (hierarchy_postings_of g)"
    using read[OF sections_found(3)] assms(1)
    by (simp add: hierarchy_postings_def decompress_section_def ok_or_def serves_def readable_def)
  have dictionary: "symbol_dictionary L (bly_toc layout) blob = Ok (dictionary_of g)"
    using read[OF sections_found(1)] assms(1)
    by (simp add: symbol_dictionary_def decompress_section_def ok_or_def serves_def readable_def)
  let ?ids = "map ghi_subtype_symbol_id (filter (\<lambda>e. ghi_supertype_symbol_id e = as_str supertype) (concat (map gsn_hierarchy g)))"
  let ?ks = "filter (\<lambda>k. gsy_id (snd (symbols_of g ! k)) \<in> set ?ids) [0..<length (symbols_of g)]"
  let ?P = "\<lambda>x. list_ex (\<lambda>h. hier_supertype h = supertype \<and> hier_subtype h = sym_id x) (all_edges ss)"
  have ids: "map hpo_subtype_symbol_id (filter (\<lambda>e. hpo_supertype_symbol_id e = as_str supertype) (hierarchy_postings_of g)) = ?ids"
    by (simp only: postings_concat filter_map map_map comp_def hierarchy_posting.simps)
  have "list_all2 (\<lambda>s r. decode_graph_snapshot (graph_ids g) s = Ok r) g ss"
    using assms(1) by (simp add: serves_def readable_def decode_graph_artifact_def collect_results_Ok graph_ids_def)
  then have edges: "y \<in> set ?ids \<longleftrightarrow> list_ex (\<lambda>h. hier_supertype h = supertype \<and> hier_subtype h = SymbolId y) (all_edges ss)" for y
    using edge_between[OF graphs_edges[OF _ assms(2)]] by blast
  have chosen: "map (nth (all_symbols ss)) ?ks = filter ?P (all_symbols ss)"
    by (rule select_nth) (simp_all only: readable_symbols(1,3)[OF assms(1)[unfolded serves_def, THEN conjunct1]] edges)
  have none: "filter ?P (all_symbols ss) = []" if "?ids = []"
    by (simp only: chosen[symmetric] that) simp
  have "sorted ?ks" "\<forall>k\<in>set ?ks. k < length (symbols_of g)" by (simp_all add: sorted_wrt_filter)
  note groups = served_groups[OF assms(1) stored this, unfolded chosen]
  have "direct_implementations digest L fs artifact supertype
      = (if ?ids = [] then Ok [] else and_then (group_ordinals (bly_toc layout) (map of_nat ?ks) []) (read_groups L (bly_toc layout) blob))"
    by (simp only: direct_implementations_def blob sections_open_encoded[OF stored] hierarchy dictionary query_simps
        and_then_Ok option.case sum.case Let_def ids dictionary_ordinals)
  also have "\<dots> = Ok (filter ?P (all_symbols ss))" unfolding groups using none by (cases "?ids = []") (simp_all only: simp_thms if_True if_False)
  finally show ?thesis .
qed

section \<open>Edges stored by ordinal\<close>

text \<open>
  The postings copy the inline ids, which a graph that refers to its own symbols by ordinal leaves empty: in
  a graph the encoder of artifacts made, no posting names a symbol of that graph, so the direct
  implementations a dependency declares itself are not found.
\<close>

lemma inline_id_not_local: "inline_id (local_ordinals ids) s \<in> set ids \<Longrightarrow> inline_id (local_ordinals ids) s = []"
proof -
  have "local_ordinals ids s \<noteq> None" if "s \<in> set ids"
    using that map_fst_zip[of ids "map of_nat [0..<length ids] :: u32 list"]
    by (simp add: local_ordinals_def map_of_eq_None_iff flip: set_map)
  then show "inline_id (local_ordinals ids) s \<in> set ids \<Longrightarrow> inline_id (local_ordinals ids) s = []"
    by (auto simp: inline_id_def split: if_splits)
qed

lemma compact_postings_name_no_local_symbol:
  assumes "graph_of_snapshots ss = Ok g" "e \<in> set (hierarchy_postings_of g)" "hpo_subtype_symbol_id e \<in> set (symbol_ids ss)"
  shows "hpo_subtype_symbol_id e = []"
proof -
  obtain s v where "s \<in> set ss" "graph_snapshot (local_ordinals (symbol_ids ss)) s = Ok v"
      "hpo_subtype_symbol_id e \<in> ghi_subtype_symbol_id ` set (gsn_hierarchy v)"
  proof -
    have "\<forall>v\<in>set g. \<exists>s\<in>set ss. graph_snapshot (local_ordinals (symbol_ids ss)) s = Ok v"
    proof
      fix v assume "v \<in> set g"
      then obtain k where "k < length g" "v = g ! k" by (auto simp: in_set_conv_nth)
      then show "\<exists>s\<in>set ss. graph_snapshot (local_ordinals (symbol_ids ss)) s = Ok v"
        using assms(1) by (auto simp: graph_of_snapshots_def collect_results_Ok list_all2_conv_all_nth intro!: bexI[of _ "ss ! k"])
    qed
    then show ?thesis using assms(2) that by (fastforce simp: hierarchy_postings_of_def)
  qed
  then have "hpo_subtype_symbol_id e \<in> range (inline_id (local_ordinals (symbol_ids ss)))"
    by (auto simp: graph_snapshot_def and_then_eq_Ok g_of_snapshot_def g_of_hierarchy_def Let_def)
  then show ?thesis using inline_id_not_local assms(3) by auto
qed

section \<open>A served dependency\<close>

abbreviation dependency_descriptor :: artifact_descriptor where
  "dependency_descriptor \<equiv> sample_descriptor ''a'' ''1''"

definition sample_cache :: cache_files where
  "sample_cache = [key_filename sample_digest (key_for_descriptor dependency_descriptor)
     \<mapsto> blob_file sample_digest (key_for_descriptor dependency_descriptor) (bly_bytes (sample_layout sample_graph))]"

lemma sample_readers:
  "dec_directory (sample_layout_codec g) b = Some (directory_of g)" "dec_dictionary (sample_layout_codec g) b = Some (dictionary_of g)"
  "dec_hierarchy (sample_layout_codec g) b = Some (hierarchy_postings_of g)"
  "dec_block (sample_layout_codec g) b = Some (fst (hd (detail_blocks 0 g)))"
  by (simp_all add: sample_layout_codec_def sample_table_codec_def)

lemma sample_served:
  "serves sample_digest (sample_layout_codec sample_graph) sample_cache dependency_descriptor sample_graph [sample_dependency]"
proof -
  let ?key = "key_for_descriptor dependency_descriptor"
  let ?g = sample_graph
  have opened: "open_blob sample_digest ?key sample_cache = Ok (Some (sample_blob ?key ?g))"
    using open_blob_file[of sample_digest ?key ?key sample_cache] by (simp add: sample_cache_def sample_blob_def)
  have stored: "stores_layout (sample_layout_codec ?g) ?g (sample_layout ?g) (sample_blob ?key ?g)"
    by (rule sample_blob_stores) (simp add: sample_graph_facts(1))
  have "list_all (\<lambda>(block, _, _). Some (fst (hd xs)) = Some block) xs" if "length xs = 1" for xs :: "(g_detail_block \<times> u32 \<times> u32) list"
    using that by (cases xs) auto
  note blocks = this[OF sample_graph_facts(1)]
  have "length (artifact_strings ?g) < 100" by code_simp
  then have small: "length (artifact_strings ?g) < 2 ^ 32" by simp
  have zero: "list_all (\<lambda>s. gsn_provenance_index s = Some 0) ?g" by code_simp
  have owners: "list_all (\<lambda>(s, y). gsy_owner_symbol_ordinal y = None) (symbols_of ?g)" by code_simp
  show ?thesis
    unfolding serves_def readable_def inline_details_def sample_readers
    by (intro conjI exI, rule opened, rule stored, rule refl, rule refl, rule refl, rule blocks, rule sample_graph_facts(2),
        rule small, rule zero, rule owners)
qed

theorem qualified_lookup_exact_witness:
  "artifact_symbols_with_qualified_name sample_digest (sample_layout_codec sample_graph) sample_cache dependency_descriptor ''a.Impl''
     = Ok [(sample_symbol ''a'' ''t'' ''Impl'')\<lparr>sym_qualified_name := Some ''a.Impl''\<rparr>]"
proof -
  have "readable sample_digest (sample_layout_codec sample_graph) sample_cache dependency_descriptor sample_graph [sample_dependency]"
    and "inline_details sample_graph"
    using sample_served by (simp_all add: serves_def)
  with qualified_lookup_exact[OF this(1)] show ?thesis
    by (simp add: all_symbols_def sample_dependency_def sample_snapshot_def sample_symbol_def)
qed

theorem direct_implementations_exact_witness:
  "direct_implementations sample_digest (sample_layout_codec sample_graph) sample_cache dependency_descriptor (SymbolId ''s'')
     = Ok [(sample_symbol ''a'' ''t'' ''Impl'')\<lparr>sym_qualified_name := Some ''a.Impl''\<rparr>]"
proof -
  have "inline_edges sample_graph" by code_simp
  then show ?thesis
    by (simp add: direct_implementations_exact[OF sample_served] all_symbols_def all_edges_def sample_dependency_def
        sample_snapshot_def sample_symbol_def)
qed

end
