(* ===== verification/Locations.thy ===== *)
theory Locations
  imports Store_Reads Text_Index
begin

text \<open>
  From a position in the editor to a symbol (\<open>crates/kide-core/src/query_resolver.rs\<close>): the unit at the path, the
  byte offset of the position, the targets of the occurrences there and, without one, the narrowest declaration.
  The lemmas give the result for a published store by sets of symbols, without the order of rows.
\<close>

section \<open>Resolution\<close>

datatype location_resolution =
  LocationSymbol symbol_id | LocationNoResult | LocationAmbiguous "symbol_id list"

text \<open>The coordinate and range errors are those of \<open>byte_offset\<close>.\<close>

datatype location_resolution_error =
  LocationStore index_store_error | LocationOffset location_error | UnknownPath string | AmbiguousPath string

definition location_store :: "'a stored \<Rightarrow> (location_resolution_error, 'a) result" where
  "location_store r = (case r of Inl e \<Rightarrow> Err (LocationStore e) | Inr x \<Rightarrow> Ok x)"

definition location_offset :: "(location_error, 'a) result \<Rightarrow> (location_resolution_error, 'a) result" where
  "location_offset r = (case r of Inl e \<Rightarrow> Err (LocationOffset e) | Inr x \<Rightarrow> Ok x)"

definition unique_source_unit :: "workspace_path \<Rightarrow> facts \<Rightarrow> (location_resolution_error, source_unit_id) result" where
  "unique_source_unit path F =
     (case source_units_at_path path F of
        [] \<Rightarrow> Err (UnknownPath (as_str path))
      | [unit] \<Rightarrow> Ok (su_id unit)
      | _ \<Rightarrow> Err (AmbiguousPath (as_str path)))"

definition return_resolution :: "symbol_id list \<Rightarrow> location_resolution option" where
  "return_resolution candidates =
     (case candidates of
        [] \<Rightarrow> None
      | [symbol] \<Rightarrow> Some (LocationSymbol symbol)
      | _ \<Rightarrow> Some (LocationAmbiguous candidates))"

text \<open>The width of a name; the subtraction is the release build's, which wraps for a reversed range.\<close>

definition name_width :: "symbol_record \<Rightarrow> u64" where
  "name_width s = br_end (sr_bytes (sym_name_range s)) - br_start (sr_bytes (sym_name_range s))"

definition resolve_declaration_candidates :: "symbol_record list \<Rightarrow> location_resolution option" where
  "resolve_declaration_candidates candidates =
     (if candidates = [] then None
      else
      let narrowest = Min (set (map name_width candidates));
          kept = filter (\<lambda>s. name_width s = narrowest) candidates;
          kept = (if list_ex (\<lambda>s. sym_kind s \<noteq> KConstructor) kept
                  then filter (\<lambda>s. sym_kind s \<noteq> KConstructor) kept else kept)
      in return_resolution (sort_dedup (map sym_id kept)))"

definition holds_name :: "u64 \<Rightarrow> symbol_record \<Rightarrow> bool" where
  "holds_name offset s =
     (br_start (sr_bytes (sym_name_range s)) \<le> offset \<and> offset < br_end (sr_bytes (sym_name_range s)))"

definition resolve_location :: "location \<Rightarrow> string \<Rightarrow> facts \<Rightarrow> (location_resolution_error, location_resolution) result" where
  "resolve_location l text F =
     and_then (unique_source_unit (loc_path l) F) (\<lambda>unit.
     and_then (location_offset (byte_offset text (loc_position l))) (\<lambda>offset.
     and_then (location_store (occurrences_at unit offset F)) (\<lambda>occurrences.
     case return_resolution (sort_dedup (List.map_filter occ_target occurrences)) of
       Some resolution \<Rightarrow> Ok resolution
     | None \<Rightarrow>
         and_then (location_store (symbols_for_source unit F)) (\<lambda>symbols.
         Ok (case resolve_declaration_candidates (filter (holds_name offset) symbols) of
               Some resolution \<Rightarrow> resolution | None \<Rightarrow> LocationNoResult)))))"

section \<open>What a position means\<close>

text \<open>The symbols a position can stand for, and the answer for a set of them.\<close>

definition targets_at :: "file_analysis_snapshot \<Rightarrow> u64 \<Rightarrow> symbol_id set" where
  "targets_at s offset = {t. \<exists>oc\<in>set (snap_occurrences s). holds_offset offset oc \<and> occ_target oc = Some t}"

definition narrowest_at :: "file_analysis_snapshot \<Rightarrow> u64 \<Rightarrow> symbol_record set" where
  "narrowest_at s offset =
     {d \<in> set (snap_symbols s). holds_name offset d
        \<and> (\<forall>e\<in>set (snap_symbols s). holds_name offset e \<longrightarrow> name_width d \<le> name_width e)}"

definition declared_at :: "file_analysis_snapshot \<Rightarrow> u64 \<Rightarrow> symbol_id set" where
  "declared_at s offset =
     {sym_id d | d. d \<in> narrowest_at s offset
        \<and> (sym_kind d = KConstructor \<longrightarrow> (\<forall>e\<in>narrowest_at s offset. sym_kind e = KConstructor))}"

definition resolution_of :: "symbol_id set \<Rightarrow> location_resolution" where
  "resolution_of S =
     (if S = {} then LocationNoResult
      else if \<exists>x. S = {x} then LocationSymbol (the_elem S) else LocationAmbiguous (sorted_list_of_set S))"

lemma return_resolution_set:
  "(case return_resolution (sort_dedup xs) of Some r \<Rightarrow> r | None \<Rightarrow> LocationNoResult) = resolution_of (set xs)"
  "return_resolution (sort_dedup xs) = None \<longleftrightarrow> set xs = {}"
proof -
  have zs: "set (sort_dedup xs) = set xs" "distinct (sort_dedup xs)" "sort_dedup xs = sorted_list_of_set (set xs)"
    by (simp_all add: sort_dedup_eq_sorted_list)
  have goal: "(case return_resolution zs of Some r \<Rightarrow> r | None \<Rightarrow> LocationNoResult) = resolution_of S
      \<and> (return_resolution zs = None \<longleftrightarrow> S = {})"
    if "set zs = S" "distinct zs" "zs = sorted_list_of_set S" for zs S
  proof (cases zs rule: remdups_adj.cases)
    case (3 x y ys)
    then have "\<not> (\<exists>x. S = {x})" "S \<noteq> {}" using that(1,2) by auto
    then show ?thesis using 3 that(3) by (simp add: return_resolution_def resolution_of_def)
  qed (use that(1) in \<open>auto simp: return_resolution_def resolution_of_def\<close>)
  show "(case return_resolution (sort_dedup xs) of Some r \<Rightarrow> r | None \<Rightarrow> LocationNoResult) = resolution_of (set xs)"
    "return_resolution (sort_dedup xs) = None \<longleftrightarrow> set xs = {}"
    by (rule conjunct1[OF goal[OF zs]], rule conjunct2[OF goal[OF zs]])
qed

lemma declarations_resolved:
  assumes "set ds = {d \<in> set (snap_symbols s). holds_name offset d}"
  shows "(case resolve_declaration_candidates ds of Some r \<Rightarrow> r | None \<Rightarrow> LocationNoResult)
    = resolution_of (declared_at s offset)"
proof (cases "ds = []")
  case True
  then have "declared_at s offset = {}" using assms by (auto simp: declared_at_def narrowest_at_def)
  then show ?thesis using True by (simp add: resolve_declaration_candidates_def resolution_of_def)
next
  case False
  let ?kept = "filter (\<lambda>d. name_width d = Min (set (map name_width ds))) ds"
  let ?best = "if list_ex (\<lambda>d. sym_kind d \<noteq> KConstructor) ?kept then filter (\<lambda>d. sym_kind d \<noteq> KConstructor) ?kept else ?kept"
  have "name_width d = Min (set (map name_width ds)) \<longleftrightarrow> (\<forall>e\<in>set ds. name_width d \<le> name_width e)" if "d \<in> set ds" for d
    using that by (metis (mono_tags, lifting) Min_eqI Min_le List.finite_set image_eqI imageE set_map)
  then have kept: "set ?kept = narrowest_at s offset"
    unfolding narrowest_at_def using assms by auto
  have "set ?best = {d \<in> set ?kept. sym_kind d = KConstructor \<longrightarrow> (\<forall>e\<in>set ?kept. sym_kind e = KConstructor)}"
    by (auto simp: list_ex_iff)
  then have "set (map sym_id ?best) = declared_at s offset"
    unfolding kept declared_at_def by auto
  then show ?thesis
    using return_resolution_set(1)[of "map sym_id ?best"] False by (simp only: resolve_declaration_candidates_def Let_def if_False)
qed

section \<open>Resolution over a published store\<close>

text \<open>The units published at a path.\<close>

definition units_at :: "workspace_path \<Rightarrow> abstract_store \<Rightarrow> source_unit_id set" where
  "units_at path A = {u. \<exists>s. A u = Some s \<and> su_path (snap_source_unit s) = path}"

lemma rows_at_path:
  assumes "represents json F A"
  shows "ur_id ` set (filter (\<lambda>r. ur_path r = path) (t_sources F)) = units_at path A"
    and "distinct (map ur_id (filter (\<lambda>r. ur_path r = path) (t_sources F)))"
    and "r \<in> set (t_sources F) \<Longrightarrow> su_id (ur_source_unit r) = ur_id r"
proof -
  have row: "r \<in> set (t_sources F) \<longleftrightarrow> (\<exists>s. A (ur_id r) = Some s \<and> row_of_source s () = Inr r)" for r
    using source_rows_of(2)[OF assms] by auto
  have unit: "su_id (snap_source_unit s) = u" if "A u = Some s" for u s using represents_unit(2)[OF assms that] by simp
  show "ur_id ` set (filter (\<lambda>r. ur_path r = path) (t_sources F)) = units_at path A"
  proof (intro set_eqI iffI)
    fix u assume "u \<in> units_at path A"
    then obtain s where s: "A u = Some s" "su_path (snap_source_unit s) = path" by (auto simp: units_at_def)
    obtain so where "row_of_source s () = Inr so" "ur_id so = u" "ur_path so = path"
      using unit[OF s(1)] s(2) by (simp add: row_of_source_def Let_def)
    moreover from this have "so \<in> set (t_sources F)" using row[of so] s(1) by auto
    ultimately show "u \<in> ur_id ` set (filter (\<lambda>r. ur_path r = path) (t_sources F))" by force
  next
    fix u assume "u \<in> ur_id ` set (filter (\<lambda>r. ur_path r = path) (t_sources F))"
    then obtain r where r: "r \<in> set (t_sources F)" "ur_path r = path" "u = ur_id r" by auto
    then show "u \<in> units_at path A" using row[of r] by (auto simp: units_at_def row_of_source_def Let_def)
  qed
  show "su_id (ur_source_unit r) = ur_id r" if r: "r \<in> set (t_sources F)"
  proof -
    obtain s where s: "A (ur_id r) = Some s" "row_of_source s () = Inr r" using row[of r] r by blast
    then have "ur_source_unit r = snap_source_unit s" by (auto simp: row_of_source_def Let_def)
    then show ?thesis using unit[OF s(1)] by simp
  qed
  have "distinct (map ur_id (t_sources F))"
    using assms by (simp add: represents_def store_inv_def facts_valid_def key_valid_def source_pk_def [abs_def])
  then show "distinct (map ur_id (filter (\<lambda>r. ur_path r = path) (t_sources F)))" by (simp add: distinct_map_filter)
qed

lemma unique_source_unit_published:
  assumes "represents json F A"
  shows "unique_source_unit path F =
    (if units_at path A = {} then Err (UnknownPath (as_str path))
     else if \<exists>u. units_at path A = {u} then Ok (the_elem (units_at path A)) else Err (AmbiguousPath (as_str path)))"
proof -
  let ?rows = "sort_key ur_id (filter (\<lambda>r. ur_path r = path) (t_sources F))"
  have set: "ur_id ` set ?rows = units_at path A" using rows_at_path(1)[OF assms] by simp
  have distinct: "distinct (map ur_id ?rows)"
    using rows_at_path(2)[OF assms, of path] by (simp add: distinct_map)
  have ids: "\<forall>r\<in>set ?rows. su_id (ur_source_unit r) = ur_id r" using rows_at_path(3)[OF assms] by simp
  have result: "unique_source_unit path F = (if units_at path A = {} then Err (UnknownPath (as_str path))
     else if \<exists>u. units_at path A = {u} then Ok (the_elem (units_at path A)) else Err (AmbiguousPath (as_str path)))"
    if "distinct (map ur_id rows)" "\<forall>r\<in>set rows. su_id (ur_source_unit r) = ur_id r" "ur_id ` set rows = units_at path A"
      "source_units_at_path path F = map ur_source_unit rows" for rows
  proof (cases rows rule: remdups_adj.cases)
    case (3 r r' rs)
    then have "\<not> (\<exists>u. units_at path A = {u})" "units_at path A \<noteq> {}" using that(1) by (auto simp flip: that(3))
    then show ?thesis using 3 that(4) by (simp add: unique_source_unit_def)
  qed (use that(2,4) in \<open>auto simp: unique_source_unit_def simp flip: that(3)\<close>)
  show ?thesis by (rule result[OF distinct ids set]) (simp add: source_units_at_path_def)
qed

lemma holds_name_view: "holds_name offset (symbol_view s d) = holds_name offset d"
    "resolve_declaration_candidates (map (symbol_view s) ds) = resolve_declaration_candidates ds"
proof -
  have view: "name_width (symbol_view s d) = name_width d" "sym_kind (symbol_view s d) = sym_kind d"
      "sym_id (symbol_view s d) = sym_id d" for d
    by (simp_all add: symbol_view_def name_width_def)
  show "holds_name offset (symbol_view s d) = holds_name offset d" by (simp add: holds_name_def symbol_view_def)
  show "resolve_declaration_candidates (map (symbol_view s) ds) = resolve_declaration_candidates ds"
    by (auto simp: resolve_declaration_candidates_def view comp_def filter_map list_ex_iff Let_def)
qed

text \<open>
  C14. A position resolves to the symbol it stands for: over any published store, the path must belong to exactly
  one unit and the position to the text; the targets of the occurrences at its offset decide, and without a
  target the narrowest declarations whose name is there, where a constructor yields to what it constructs.
  One symbol is the answer, several are an ambiguity in the order of their ids, whatever the order of the rows.
\<close>

theorem location_resolution_exact:
  "resolve_location l text (fst (published json ops)) =
    (let A = snd (published json ops); units = units_at (loc_path l) A
     in if units = {} then Err (UnknownPath (as_str (loc_path l)))
        else if \<exists>u. units = {u} then
          (case byte_offset text (loc_position l) of Inl e \<Rightarrow> Err (LocationOffset e)
           | Inr offset \<Rightarrow>
               if uint offset < 2 ^ 63 then
                 (let s = the (A (the_elem units))
                  in Ok (resolution_of (if targets_at s offset = {} then declared_at s offset else targets_at s offset)))
               else Err (LocationStore (ByteOffsetOutOfRange offset)))
        else Err (AmbiguousPath (as_str (loc_path l))))"
proof -
  let ?F = "fst (published json ops)" and ?A = "snd (published json ops)"
  have rep: "represents json ?F ?A" by (rule represents_published)
  have one: "resolve_location l text ?F =
      (if uint offset < 2 ^ 63 then Ok (resolution_of (if targets_at s offset = {} then declared_at s offset else targets_at s offset))
       else Err (LocationStore (ByteOffsetOutOfRange offset)))"
    if unit: "units_at (loc_path l) ?A = {u}" and s: "?A u = Some s" and offset: "byte_offset text (loc_position l) = Inr offset" for u s offset
  proof (cases "uint offset < 2 ^ 63")
    case True
    let ?os = "sort_key innermost_order (filter (holds_offset offset) (snap_occurrences s))"
    let ?ts = "List.map_filter occ_target ?os"
    let ?ds = "filter (holds_name offset) (sort_key declaration_order (snap_symbols s))"
    have targets: "set ?ts = targets_at s offset" by (force simp: targets_at_def List.map_filter_def)
    have symbols: "filter (holds_name offset) (map (symbol_view s) (sort_key declaration_order (snap_symbols s))) = map (symbol_view s) ?ds"
      by (simp add: filter_map comp_def holds_name_view(1))
    have "set ?ds = {d \<in> set (snap_symbols s). holds_name offset d}" by auto
    note declared = declarations_resolved[OF this]
    have "resolve_location l text ?F = Ok (case return_resolution (sort_dedup ?ts) of Some r \<Rightarrow> r
        | None \<Rightarrow> (case resolve_declaration_candidates ?ds of Some r \<Rightarrow> r | None \<Rightarrow> LocationNoResult))"
      using unit offset True occurrences_at_eq[OF rep s, of offset] symbols_for_source_eq[OF rep, of u] s
      by (simp add: resolve_location_def unique_source_unit_published[OF rep] location_offset_def location_store_def
          symbols holds_name_view(2) split: option.split)
    then show ?thesis
      using True return_resolution_set[of ?ts] declared unfolding targets by (auto split: option.splits)
  next
    case False
    then show ?thesis
      using unit offset occurrences_at_eq[OF rep s, of offset]
      by (simp add: resolve_location_def unique_source_unit_published[OF rep] location_offset_def location_store_def)
  qed
  show ?thesis
  proof (cases "\<exists>u. units_at (loc_path l) ?A = {u}")
    case True
    then obtain u where u: "units_at (loc_path l) ?A = {u}" by blast
    then have "u \<in> units_at (loc_path l) ?A" by simp
    then obtain s where s: "?A u = Some s" by (auto simp: units_at_def)
    show ?thesis
    proof (cases "byte_offset text (loc_position l)")
      case (Inl e)
      then show ?thesis
        using u by (simp add: resolve_location_def unique_source_unit_published[OF rep] location_offset_def)
    next
      case (Inr offset)
      then show ?thesis using one[OF u s Inr] u s by (simp add: Let_def)
    qed
  next
    case False
    then show ?thesis by (simp add: resolve_location_def unique_source_unit_published[OF rep] Let_def)
  qed
qed

end
