(* ===== verification/Selectors.thy ===== *)
theory Selectors
  imports Store_Reads Store_Catalog
begin

text \<open>
  Selections of symbols (\<open>crates/kide-core/src/selector.rs\<close>) and the declarative queries compiled to them
  (\<open>crates/kide-core/src/semantic_query.rs\<close>). Every selection starts from one indexed relation and filters its
  symbols. The lemmas give the answers by the published snapshots.
\<close>

section \<open>Selectors\<close>

datatype language_view = KotlinClass | JavaClass

datatype selector_predicate =
  SelectKind symbol_kind | SelectAppliedSymbol symbol_id | SelectSubtypeOf symbol_id
| SelectQualifiedNamePrefix string | SelectLanguage language | SelectComponent component_id | SelectBackend string

record selector =
  sel_views :: "language_view list"
  sel_predicates :: "selector_predicate list"

datatype selector_plan = AppliedSymbolPosting symbol_id | HierarchyPosting symbol_id

record nested_application_argument_pattern =
  nap_nested_target :: symbol_id
  nap_outer_target :: symbol_id
  nap_argument_name :: string
  nap_argument_value :: application_value

datatype selector_state = SelectorComplete | SelectorPartial | SelectorNoResult

record selector_result =
  sre_state :: selector_state
  sre_plan :: selector_plan
  sre_symbols :: "symbol_record list"

datatype selector_error = Unbounded | SelectorStore index_store_error

definition selector_store :: "'a stored \<Rightarrow> (selector_error, 'a) result" where
  "selector_store r = (case r of Inl e \<Rightarrow> Err (SelectorStore e) | Inr x \<Rightarrow> Ok x)"

fun view_predicates :: "language_view \<Rightarrow> selector_predicate list" where
  "view_predicates KotlinClass = [SelectLanguage Kotlin, SelectKind KClass]"
| "view_predicates JavaClass = [SelectLanguage Java, SelectKind KClass]"

definition normalized_predicates :: "selector \<Rightarrow> selector_predicate list" where
  "normalized_predicates s = sel_predicates s @ concat (map view_predicates (sel_views s))"

fun matches :: "symbol_record \<Rightarrow> selector_predicate \<Rightarrow> bool" where
  "matches s (SelectKind kind) = (sym_kind s = kind)"
| "matches s (SelectAppliedSymbol annotation) = (annotation \<in> set (sym_applied_symbols s))"
| "matches s (SelectSubtypeOf _) = True"
| "matches s (SelectQualifiedNamePrefix p) =
     (case sym_qualified_name s of None \<Rightarrow> False | Some name \<Rightarrow> starts_with p name)"
| "matches s (SelectLanguage language) = (sym_language s = language)"
| "matches s (SelectComponent component) = (sym_component s = component)"
| "matches s (SelectBackend backend) = (prov_backend (sym_provenance s) = backend)"

fun subtype_start :: "selector_predicate \<Rightarrow> symbol_id option" where
  "subtype_start (SelectSubtypeOf s) = Some s"
| "subtype_start _ = None"

fun applied_start :: "selector_predicate \<Rightarrow> symbol_id option" where
  "applied_start (SelectAppliedSymbol s) = Some s"
| "applied_start _ = None"

text \<open>\<open>min_by(|l, r| l.as_str().cmp(r.as_str()))\<close>.\<close>

definition least_symbol :: "symbol_id list \<Rightarrow> symbol_id option" where
  "least_symbol ss = (if ss = [] then None else Some (Min (set ss)))"

definition state_of :: "symbol_record list \<Rightarrow> selector_state" where
  "state_of symbols =
     (if symbols = [] then SelectorNoResult
      else if list_all (\<lambda>s. sym_freshness s = Fresh \<and> sym_completeness s = Complete) symbols then SelectorComplete
      else SelectorPartial)"

definition starting_symbols :: "selector_predicate list \<Rightarrow> facts \<Rightarrow> (selector_error, selector_plan \<times> symbol_record list) result" where
  "starting_symbols predicates F =
     (case least_symbol (List.map_filter subtype_start predicates) of
        Some supertype \<Rightarrow>
          and_then (selector_store (collect_results (\<lambda>e. stored_symbol_by_id (hier_subtype e) F) (implementations_of supertype F)))
            (\<lambda>symbols. Ok (HierarchyPosting supertype, List.map_filter id symbols))
      | None \<Rightarrow>
          (case least_symbol (List.map_filter applied_start predicates) of
             Some annotation \<Rightarrow>
               and_then (selector_store (symbols_with_applied_symbol annotation F))
                 (\<lambda>symbols. Ok (AppliedSymbolPosting annotation, symbols))
           | None \<Rightarrow> Err Unbounded))"

definition select :: "selector \<Rightarrow> facts \<Rightarrow> (selector_error, selector_result) result" where
  "select selector F =
     (let predicates = normalized_predicates selector in
      and_then (starting_symbols predicates F) (\<lambda>(plan, symbols).
      let kept = filter (\<lambda>s. list_all (matches s) predicates) symbols
      in Ok \<lparr> sre_state = state_of kept, sre_plan = plan, sre_symbols = kept \<rparr>))"

definition select_nested_application_argument :: "(string list \<Rightarrow> string) \<Rightarrow> nested_application_argument_pattern \<Rightarrow> facts
    \<Rightarrow> (selector_error, selector_result) result" where
  "select_nested_application_argument json pattern F =
     and_then (selector_store (symbols_with_nested_application_argument json (nap_nested_target pattern)
       (nap_outer_target pattern) (nap_argument_name pattern) (nap_argument_value pattern) F)) (\<lambda>symbols.
     Ok \<lparr> sre_state = state_of symbols, sre_plan = AppliedSymbolPosting (nap_nested_target pattern), sre_symbols = symbols \<rparr>)"

section \<open>Queries\<close>

definition MAX_RESULT_LIMIT :: u32 where "MAX_RESULT_LIMIT = 1000"

datatype query_symbol = QueryId symbol_id | QueryQualifiedName string | QuerySymbolParameter string
datatype query_component = QueryComponentId component_id | QueryComponentParameter string
datatype query_string = QueryLiteral string | QueryStringParameter string

datatype query_capability_value =
  CapabilityParameter string | CapabilitySymbolId symbol_id | CapabilityComponentId component_id
| CapabilityString string | CapabilityInteger int

record query_capability_argument =
  qca_name :: string
  qca_value :: query_capability_value

record query_capability_step =
  qcs_name :: string
  qcs_arguments :: "query_capability_argument list"

datatype query_from = FromAppliedSymbol query_symbol | FromSubtypeOf query_symbol

datatype query_predicate =
  WhereKind symbol_kind | WhereLanguage language | WhereComponent query_component
| WhereQualifiedNamePrefix query_string

record query_program =
  qpr_from :: query_from
  qpr_predicates :: "query_predicate list"
  qpr_capability_steps :: "query_capability_step list"
  qpr_limit :: u32

datatype query_value =
  ValueSymbolId symbol_id | ValueQualifiedSymbol string | ValueComponentId component_id
| ValueString string | ValueInteger u32

type_synonym query_parameters = "(string, query_value) btree"

record compiled_query =
  cq_selector :: selector
  cq_starting_symbol :: symbol_id
  cq_selector_plan :: selector_plan
  cq_limit :: u32

record query_result =
  qre_state :: selector_state
  qre_plan :: compiled_query
  qre_symbols :: "symbol_record list"

datatype query_compile_error =
  InvalidLimit | MissingParameter string | InvalidParameterType string string | UnknownQualifiedSymbol string
| AmbiguousQualifiedSymbol string usize | QueryStore index_store_error | QuerySelector selector_error

definition query_parameter :: "query_parameters \<Rightarrow> string \<Rightarrow> (query_compile_error, query_value) result" where
  "query_parameter parameters name = ok_or (MissingParameter name) (btree_get parameters name)"

definition resolve_qualified_symbol :: "catalog \<Rightarrow> string \<Rightarrow> (query_compile_error, symbol_id) result" where
  "resolve_qualified_symbol c name =
     (case symbols_with_qualified_name name c of
        [] \<Rightarrow> if CHR ''.'' \<in> set name then Ok (SymbolId (''jvm:type:'' @ name)) else Err (UnknownQualifiedSymbol name)
      | [symbol] \<Rightarrow> Ok symbol
      | symbols \<Rightarrow> Err (AmbiguousQualifiedSymbol name (length symbols)))"

definition resolve_symbol :: "catalog \<Rightarrow> query_parameters \<Rightarrow> query_symbol \<Rightarrow> (query_compile_error, symbol_id) result" where
  "resolve_symbol c parameters v =
     (case v of
        QueryId s \<Rightarrow> Ok s
      | QueryQualifiedName name \<Rightarrow> resolve_qualified_symbol c name
      | QuerySymbolParameter name \<Rightarrow>
          and_then (query_parameter parameters name) (\<lambda>p.
          case p of ValueSymbolId s \<Rightarrow> Ok s | ValueQualifiedSymbol q \<Rightarrow> resolve_qualified_symbol c q
          | _ \<Rightarrow> Err (InvalidParameterType name ''symbol-id or qualified-symbol'')))"

definition resolve_component :: "query_parameters \<Rightarrow> query_component \<Rightarrow> (query_compile_error, component_id) result" where
  "resolve_component parameters v =
     (case v of
        QueryComponentId x \<Rightarrow> Ok x
      | QueryComponentParameter name \<Rightarrow>
          and_then (query_parameter parameters name) (\<lambda>p.
          case p of ValueComponentId x \<Rightarrow> Ok x | _ \<Rightarrow> Err (InvalidParameterType name ''component-id'')))"

definition resolve_string :: "query_parameters \<Rightarrow> query_string \<Rightarrow> (query_compile_error, string) result" where
  "resolve_string parameters v =
     (case v of
        QueryLiteral x \<Rightarrow> Ok x
      | QueryStringParameter name \<Rightarrow>
          and_then (query_parameter parameters name) (\<lambda>p.
          case p of ValueString x \<Rightarrow> Ok x | _ \<Rightarrow> Err (InvalidParameterType name ''string'')))"

definition compile_predicate :: "query_parameters \<Rightarrow> query_predicate \<Rightarrow> (query_compile_error, selector_predicate) result" where
  "compile_predicate parameters p =
     (case p of
        WhereKind kind \<Rightarrow> Ok (SelectKind kind)
      | WhereLanguage language \<Rightarrow> Ok (SelectLanguage language)
      | WhereComponent component \<Rightarrow> and_then (resolve_component parameters component) (\<lambda>x. Ok (SelectComponent x))
      | WhereQualifiedNamePrefix q \<Rightarrow> and_then (resolve_string parameters q) (\<lambda>x. Ok (SelectQualifiedNamePrefix x)))"

definition compile_from :: "catalog \<Rightarrow> query_parameters \<Rightarrow> query_from
    \<Rightarrow> (query_compile_error, symbol_id \<times> selector_predicate \<times> selector_plan) result" where
  "compile_from c parameters f =
     (case f of
        FromAppliedSymbol s \<Rightarrow> and_then (resolve_symbol c parameters s) (\<lambda>x. Ok (x, SelectAppliedSymbol x, AppliedSymbolPosting x))
      | FromSubtypeOf s \<Rightarrow> and_then (resolve_symbol c parameters s) (\<lambda>x. Ok (x, SelectSubtypeOf x, HierarchyPosting x)))"

definition compile :: "catalog \<Rightarrow> query_program \<Rightarrow> query_parameters \<Rightarrow> (query_compile_error, compiled_query) result" where
  "compile c program parameters =
     (if qpr_limit program = 0 \<or> qpr_limit program > MAX_RESULT_LIMIT then Err InvalidLimit
      else
      and_then (compile_from c parameters (qpr_from program)) (\<lambda>(symbol, start, plan).
      and_then (collect_results (compile_predicate parameters) (qpr_predicates program)) (\<lambda>predicates.
      Ok \<lparr> cq_selector = \<lparr> sel_views = [], sel_predicates = start # predicates \<rparr>, cq_starting_symbol = symbol,
           cq_selector_plan = plan, cq_limit = qpr_limit program \<rparr>)))"

definition query_selector :: "(selector_error, 'a) result \<Rightarrow> (query_compile_error, 'a) result" where
  "query_selector r = (case r of Inl e \<Rightarrow> Err (QuerySelector e) | Inr x \<Rightarrow> Ok x)"

definition execute_query :: "catalog \<Rightarrow> facts \<Rightarrow> query_program \<Rightarrow> query_parameters \<Rightarrow> (query_compile_error, query_result) result" where
  "execute_query c F program parameters =
     and_then (compile c program parameters) (\<lambda>plan.
     and_then (query_selector (select (cq_selector plan) F)) (\<lambda>selected.
     let truncated = (length (sre_symbols selected) > unat (cq_limit plan))
     in Ok \<lparr> qre_state = (if truncated then SelectorPartial else sre_state selected), qre_plan = plan,
             qre_symbols = take (unat (cq_limit plan)) (sre_symbols selected) \<rparr>))"

section \<open>Starting relations\<close>

lemma annotation_rows_of:
  assumes "represents json F A"
  shows "r \<in> set (t_annotations F) \<longleftrightarrow>
    (\<exists>snapshot x. A (ar_unit r) = Some snapshot \<and> x \<in> set (snap_symbols snapshot) \<and> sym_id x = ar_symbol r
       \<and> ar_annotation r \<in> set (sym_applied_symbols x))"
proof -
  let ?pairs = "\<lambda>s. concat (map (\<lambda>x. map (Pair x) (sym_applied_symbols x)) (snap_symbols s))"
  have "r \<in> set (t_annotations F) \<longleftrightarrow>
      (\<exists>s p. A (ar_unit r) = Some s \<and> p \<in> set (?pairs s) \<and> (case p of (x, y) \<Rightarrow> row_of_annotation (ar_unit r) x y) = Inr r)"
  proof (rule represents_rows(2)[OF assms, where tab = t_annotations and k = ar_unit and xs = ?pairs
        and row = "\<lambda>u _ (x, y). row_of_annotation u x y"])
    show "collect_results (\<lambda>(x, y). row_of_annotation u x y) (?pairs s) = Inr (t_annotations G)"
      if "snapshot_facts json s = Inr G" "su_id (snap_source_unit s) = u" for u s G
      using that by (auto simp: snapshot_facts_def Let_def and_then_eq_Ok child_rows_def)
  qed (simp_all add: unit_facts_def no_facts_def)
  then show ?thesis by (cases r) (force simp: row_of_annotation_def)
qed

lemma collect_results_set:
  "\<forall>x\<in>set xs. \<exists>y. f x = Ok y \<Longrightarrow> \<exists>ys. collect_results f xs = Ok ys \<and> set ys = {y. \<exists>x\<in>set xs. f x = Ok y}"
proof (induction xs)
  case (Cons x xs)
  then obtain y ys where "f x = Ok y" "collect_results f xs = Ok ys" "set ys = {y. \<exists>x\<in>set xs. f x = Ok y}" by auto
  then show ?case by (intro exI[of _ "y # ys"]) auto
qed simp

lemma implementations_lookup:
  assumes "represents json F A"
  shows "\<exists>ys. collect_results (\<lambda>e. stored_symbol_by_id (hier_subtype e) F) es = Ok ys
    \<and> set (List.map_filter id ys) = {r. \<exists>e\<in>set es. declares A (hier_subtype e) r}"
proof -
  have found: "stored_symbol_by_id key F = Ok (Some r) \<longleftrightarrow> declares A key r" "\<exists>y. stored_symbol_by_id key F = Ok y" for key r
  proof -
    show "\<exists>y. stored_symbol_by_id key F = Ok y"
      using lookup_declared[OF assms] lookup_undeclared[OF assms] by blast
    show "stored_symbol_by_id key F = Ok (Some r) \<longleftrightarrow> declares A key r"
      using lookup_declared[OF assms] lookup_undeclared[OF assms] by (metis option.distinct(1) option.inject sum.inject(2))
  qed
  obtain ys where "collect_results (\<lambda>e. stored_symbol_by_id (hier_subtype e) F) es = Ok ys"
      "set ys = {y. \<exists>e\<in>set es. stored_symbol_by_id (hier_subtype e) F = Ok y}"
    using collect_results_set[of es "\<lambda>e. stored_symbol_by_id (hier_subtype e) F"] found(2) by blast
  moreover have "set (List.map_filter id ys) = {r. Some r \<in> set ys}" by (force simp: List.map_filter_def)
  ultimately show ?thesis using found(1) by auto
qed

lemma applied_lookup:
  assumes rep: "represents json F A"
  shows "\<exists>ys. symbols_with_applied_symbol a F = Ok ys
    \<and> set ys = {r. \<exists>key. declares A key r \<and> a \<in> set (sym_applied_symbols r)}"
proof -
  let ?rows = "sort_key symbol_order (concat (map (\<lambda>an. filter (\<lambda>(y, s). yr_id y = ar_symbol an) (joined_symbols F))
      (filter (\<lambda>an. ar_annotation an = a) (t_annotations F))))"
  have rows: "row \<in> set ?rows \<longleftrightarrow> row \<in> set (joined_symbols F)
      \<and> (\<exists>an\<in>set (t_annotations F). ar_annotation an = a \<and> ar_symbol an = yr_id (fst row))" for row
    by (cases row) auto
  have applied: "(\<exists>an\<in>set (t_annotations F). ar_annotation an = a \<and> ar_symbol an = yr_id y) \<longleftrightarrow> a \<in> set (sym_applied_symbols r)"
    if row: "(y, so) \<in> set (joined_symbols F)" and r: "decode_symbol (y, so) = Ok r" for y so r
  proof -
    obtain snapshot x where x: "A (yr_unit y) = Some snapshot" "x \<in> set (snap_symbols snapshot)" "sym_id x = yr_id y"
        "decode_symbol (y, so) = Ok (symbol_view snapshot x)"
      by (rule joined_symbol[OF rep row])
    have same: "sym_applied_symbols x' = sym_applied_symbols r"
      if x': "A u = Some snapshot'" "x' \<in> set (snap_symbols snapshot')" "sym_id x' = yr_id y" for u snapshot' x'
    proof -
      obtain y' so' where y': "(y', so') \<in> set (joined_symbols F)" "yr_id y' = sym_id x'"
          "decode_symbol (y', so') = Ok (symbol_view snapshot' x')"
        by (rule joined_symbol_exists[OF rep x'(1,2)])
      then have "(y', so') = (y, so)" using joined_symbol_unique[OF rep y'(1) row] x'(3) by simp
      then have "symbol_view snapshot' x' = r" using y'(3) r by simp
      then show ?thesis by (auto simp: symbol_view_def)
    qed
    show ?thesis
    proof
      assume "\<exists>an\<in>set (t_annotations F). ar_annotation an = a \<and> ar_symbol an = yr_id y"
      then obtain u snapshot' x' where "A u = Some snapshot'" "x' \<in> set (snap_symbols snapshot')" "sym_id x' = yr_id y"
          "a \<in> set (sym_applied_symbols x')"
        using annotation_rows_of[OF rep] by metis
      then show "a \<in> set (sym_applied_symbols r)" using same[of u snapshot' x'] by simp
    next
      assume "a \<in> set (sym_applied_symbols r)"
      then have "a \<in> set (sym_applied_symbols x)" using same[OF x(1-3)] by simp
      then have "\<lparr> ar_unit = yr_unit y, ar_symbol = yr_id y, ar_annotation = a \<rparr> \<in> set (t_annotations F)"
        using annotation_rows_of[OF rep] x(1-3) by fastforce
      then show "\<exists>an\<in>set (t_annotations F). ar_annotation an = a \<and> ar_symbol an = yr_id y" by force
    qed
  qed
  have "\<forall>row\<in>set ?rows. \<exists>r. decode_symbol row = Ok r"
  proof
    fix row assume "row \<in> set ?rows"
    then have "(fst row, snd row) \<in> set (joined_symbols F)" using rows by simp
    then show "\<exists>r. decode_symbol row = Ok r" by (rule joined_symbol[OF rep]) auto
  qed
  from collect_results_set[OF this] obtain ys where "symbols_with_applied_symbol a F = Ok ys"
      "set ys = {r. \<exists>row\<in>set ?rows. decode_symbol row = Ok r}"
    by (auto simp only: symbols_with_applied_symbol_def decode_symbols_Ok)
  moreover have "(\<exists>row\<in>set ?rows. decode_symbol row = Ok r) \<longleftrightarrow> (\<exists>key. declares A key r \<and> a \<in> set (sym_applied_symbols r))" for r
    unfolding declares_joined[OF rep] using rows applied by fastforce
  ultimately show ?thesis by auto
qed

section \<open>What a selection returns\<close>

text \<open>The starting relation of a list of predicates, as the code picks it.\<close>

definition starts_at :: "abstract_store \<Rightarrow> selector_plan \<Rightarrow> symbol_record \<Rightarrow> bool" where
  "starts_at A plan r \<longleftrightarrow>
     (\<exists>key. declares A key r \<and>
        (case plan of
           HierarchyPosting supertype \<Rightarrow> \<exists>u s e. A u = Some s \<and> e \<in> set (snap_hierarchy s) \<and> hier_supertype e = supertype
             \<and> hier_subtype e = key
         | AppliedSymbolPosting annotation \<Rightarrow> annotation \<in> set (sym_applied_symbols r)))"

definition chosen_plan :: "selector_predicate list \<Rightarrow> selector_plan option" where
  "chosen_plan predicates =
     (case least_symbol (List.map_filter subtype_start predicates) of
        Some s \<Rightarrow> Some (HierarchyPosting s)
      | None \<Rightarrow> map_option AppliedSymbolPosting (least_symbol (List.map_filter applied_start predicates)))"

lemma starting_symbols_published:
  assumes rep: "represents json F A"
  shows "case chosen_plan predicates of None \<Rightarrow> starting_symbols predicates F = Err Unbounded
    | Some plan \<Rightarrow> \<exists>symbols. starting_symbols predicates F = Ok (plan, symbols) \<and> set symbols = {r. starts_at A plan r}"
proof (cases "least_symbol (List.map_filter subtype_start predicates)")
  case (Some supertype)
  obtain ys where ys: "collect_results (\<lambda>e. stored_symbol_by_id (hier_subtype e) F) (implementations_of supertype F) = Ok ys"
      "set (List.map_filter id ys) = {r. \<exists>e\<in>set (implementations_of supertype F). declares A (hier_subtype e) r}"
    using implementations_lookup[OF rep] by blast
  have "set (List.map_filter id ys) = {r. starts_at A (HierarchyPosting supertype) r}"
    unfolding ys(2) starts_at_def Bex_def implementations_of_exact[OF rep] by auto
  then show ?thesis using ys(1) Some by (simp add: chosen_plan_def starting_symbols_def selector_store_def)
next
  case None
  show ?thesis
  proof (cases "least_symbol (List.map_filter applied_start predicates)")
    case (Some annotation)
    obtain ys where "symbols_with_applied_symbol annotation F = Ok ys"
        "set ys = {r. \<exists>key. declares A key r \<and> annotation \<in> set (sym_applied_symbols r)}"
      using applied_lookup[OF rep] by blast
    moreover have "{r. \<exists>key. declares A key r \<and> annotation \<in> set (sym_applied_symbols r)}
        = {r. starts_at A (AppliedSymbolPosting annotation) r}"
      by (auto simp: starts_at_def)
    ultimately show ?thesis using Some None by (simp add: chosen_plan_def starting_symbols_def selector_store_def)
  qed (simp add: None chosen_plan_def starting_symbols_def)
qed

text \<open>
  A selection is refused exactly when no predicate names a starting relation, and otherwise never fails: it
  returns exactly the declared symbols in the starting relation that satisfy every predicate, and its state
  says complete only if there is one and all are fresh and complete.
\<close>

lemma selection_lemma:
  "let F = fst (published json ops); A = snd (published json ops); predicates = normalized_predicates selector
   in case chosen_plan predicates of None \<Rightarrow> select selector F = Err Unbounded
      | Some plan \<Rightarrow> \<exists>r. select selector F = Ok r \<and> sre_plan r = plan
          \<and> set (sre_symbols r) = {x. starts_at A plan x \<and> list_all (matches x) predicates}
          \<and> (sre_state r = SelectorNoResult \<longleftrightarrow> sre_symbols r = [])
          \<and> (sre_state r = SelectorComplete \<longleftrightarrow> sre_symbols r \<noteq> []
              \<and> list_all (\<lambda>x. sym_freshness x = Fresh \<and> sym_completeness x = Complete) (sre_symbols r))"
proof -
  let ?F = "fst (published json ops)" and ?A = "snd (published json ops)" and ?ps = "normalized_predicates selector"
  have state: "(state_of xs = SelectorNoResult \<longleftrightarrow> xs = []) \<and> (state_of xs = SelectorComplete \<longleftrightarrow> xs \<noteq> []
      \<and> list_all (\<lambda>x. sym_freshness x = Fresh \<and> sym_completeness x = Complete) xs)" for xs
    by (simp add: state_of_def)
  note start = starting_symbols_published[OF represents_published[of json ops], of ?ps]
  show ?thesis
  proof (cases "chosen_plan ?ps")
    case None
    then show ?thesis using start by (simp add: select_def Let_def)
  next
    case (Some plan)
    then obtain symbols where symbols: "starting_symbols ?ps ?F = Ok (plan, symbols)" "set symbols = {r. starts_at ?A plan r}"
      using start by auto
    let ?kept = "filter (\<lambda>s. list_all (matches s) ?ps) symbols"
    have "select selector ?F = Ok \<lparr> sre_state = state_of ?kept, sre_plan = plan, sre_symbols = ?kept \<rparr>"
      using symbols(1) by (simp add: select_def Let_def)
    moreover have "set ?kept = {x. starts_at ?A plan x \<and> list_all (matches x) ?ps}" using symbols(2) by auto
    ultimately show ?thesis using Some state[of ?kept] by (simp only: Let_def option.case selector_result.select_convs) auto
  qed
qed

text \<open>
  Only the least of several supertypes counts: the predicates of a selector are meant as a conjunction, but a
  further \<open>SubtypeOf\<close> is neither a starting relation nor a filter.
\<close>

lemma further_supertype_is_ignored:
  assumes "s < t"
  shows "select \<lparr> sel_views = [], sel_predicates = [SelectSubtypeOf s, SelectSubtypeOf t] \<rparr> F
    = select \<lparr> sel_views = [], sel_predicates = [SelectSubtypeOf s] \<rparr> F"
  using less_imp_le[OF assms]
  by (simp add: select_def normalized_predicates_def starting_symbols_def List.map_filter_def least_symbol_def min_def Let_def)

section \<open>What a query returns\<close>

lemma compiled_shape:
  "compile c program parameters = Ok plan \<Longrightarrow>
     (\<exists>start predicates. cq_selector plan = \<lparr> sel_views = [], sel_predicates = start # predicates \<rparr>
        \<and> collect_results (compile_predicate parameters) (qpr_predicates program) = Ok predicates
        \<and> (start = SelectAppliedSymbol (cq_starting_symbol plan) \<and> cq_selector_plan plan = AppliedSymbolPosting (cq_starting_symbol plan)
           \<or> start = SelectSubtypeOf (cq_starting_symbol plan) \<and> cq_selector_plan plan = HierarchyPosting (cq_starting_symbol plan)))
     \<and> cq_limit plan = qpr_limit program \<and> 0 < cq_limit plan \<and> cq_limit plan \<le> MAX_RESULT_LIMIT"
  by (auto simp: compile_def compile_from_def and_then_eq_Ok word_neq_0_conv split: if_splits query_from.splits)

lemma compiled_predicates_start_nothing:
  assumes "collect_results (compile_predicate parameters) ps = Ok qs"
  shows "List.map_filter subtype_start qs = []" "List.map_filter applied_start qs = []"
proof -
  have "subtype_start q = None \<and> applied_start q = None" if "compile_predicate parameters p = Ok q" for p q
    using that by (auto simp: compile_predicate_def and_then_eq_Ok split: query_predicate.splits)
  then have "\<forall>q\<in>set qs. subtype_start q = None \<and> applied_start q = None" using collect_results_mem[OF assms] by blast
  then show "List.map_filter subtype_start qs = []" "List.map_filter applied_start qs = []"
    by (auto simp: List.map_filter_def)
qed

lemma compiled_plan:
  assumes "compile c program parameters = Ok plan"
  shows "chosen_plan (normalized_predicates (cq_selector plan)) = Some (cq_selector_plan plan)"
  using compiled_shape[OF assms] compiled_predicates_start_nothing[of parameters "qpr_predicates program"]
  by (auto simp: normalized_predicates_def chosen_plan_def least_symbol_def List.map_filter_simps)

text \<open>
  C15. A query that compiles always runs, from the relation its plan announces: its symbols are declared, stand in
  that relation and satisfy every predicate, at most as many as the limit, which Core caps at 1000; when it
  does not report a partial answer nothing was left out.
\<close>

theorem query_execution_exact:
  "let F = fst (published json ops); A = snd (published json ops)
   in case compile c program parameters of Inl e \<Rightarrow> execute_query c F program parameters = Err e
      | Inr plan \<Rightarrow>
          (let answer = {x. starts_at A (cq_selector_plan plan) x \<and> list_all (matches x) (sel_predicates (cq_selector plan))}
           in \<exists>r. execute_query c F program parameters = Ok r \<and> qre_plan r = plan \<and> set (qre_symbols r) \<subseteq> answer
                \<and> length (qre_symbols r) \<le> unat (qpr_limit program) \<and> unat (qpr_limit program) \<le> 1000
                \<and> (qre_state r = SelectorPartial \<or> set (qre_symbols r) = answer)
                \<and> (qre_state r = SelectorNoResult \<longleftrightarrow> answer = {}))"
proof (cases "compile c program parameters")
  case (Inl e)
  then show ?thesis by (simp add: execute_query_def)
next
  case (Inr plan)
  let ?F = "fst (published json ops)" and ?A = "snd (published json ops)"
  let ?answer = "{x. starts_at ?A (cq_selector_plan plan) x \<and> list_all (matches x) (sel_predicates (cq_selector plan))}"
  have ps: "normalized_predicates (cq_selector plan) = sel_predicates (cq_selector plan)"
    using compiled_shape[OF Inr] by (auto simp: normalized_predicates_def)
  obtain r where r: "select (cq_selector plan) ?F = Ok r" "set (sre_symbols r) = ?answer"
      "sre_state r = SelectorNoResult \<longleftrightarrow> sre_symbols r = []"
    using selection_lemma[of json ops "cq_selector plan"] compiled_plan[OF Inr] ps by auto
  have limit: "0 < cq_limit plan" "cq_limit plan = qpr_limit program" "unat (qpr_limit program) \<le> 1000"
    using compiled_shape[OF Inr] by (auto simp: MAX_RESULT_LIMIT_def word_le_nat_alt)
  have positive: "0 < unat (qpr_limit program)" using limit(1,2) by (simp add: word_less_nat_alt)
  let ?n = "unat (cq_limit plan)"
  let ?out = "\<lparr> qre_state = (if length (sre_symbols r) > ?n then SelectorPartial else sre_state r), qre_plan = plan,
      qre_symbols = take ?n (sre_symbols r) \<rparr>"
  have "execute_query c ?F program parameters = Ok ?out"
    using Inr r(1) by (simp add: execute_query_def query_selector_def Let_def)
  moreover have "set (take ?n (sre_symbols r)) \<subseteq> ?answer" using r(2) set_take_subset by fast
  moreover have "qre_state ?out = SelectorPartial \<or> set (qre_symbols ?out) = ?answer" using r(2) by simp
  moreover have "qre_state ?out = SelectorNoResult \<longleftrightarrow> ?answer = {}"
  proof -
    have "sre_symbols r = [] \<longleftrightarrow> ?answer = {}" unfolding r(2)[symmetric] by simp
    then show ?thesis using r(3) by auto
  qed
  ultimately show ?thesis
    using limit(2,3) Inr by (simp only: Let_def sum.case) (intro exI[of _ ?out], simp)
qed

end
