(* ===== verification/Framework_Results.thy ===== *)
theory Framework_Results
  imports Samples
begin

text \<open>
  Candidate results of framework queries (\<open>crates/kide-core/src/framework_query.rs\<close>): the validation of the public
  contract and the canonical order of every repeated field. The lemmas give the exact condition under which
  a result is accepted and show that a normalised result is stable.
\<close>

section \<open>Results\<close>

datatype framework_query_state = FrameworkComplete | FrameworkPartial | FrameworkUnsupported

datatype candidate_disposition = Selected | Excluded | Unresolved

datatype framework_evidence_target = EvidenceSymbol symbol_id | EvidenceSource source_range

record framework_evidence =
  fev_code :: string
  fev_target :: framework_evidence_target
  fev_provenance :: provenance

record framework_assumption =
  fas_code :: string
  fas_value :: "string option"
  fas_evidence :: "framework_evidence list"

record framework_boundary =
  fbo_code :: string
  fbo_message :: string
  fbo_evidence :: "framework_evidence list"

record framework_candidate =
  fca_symbol :: symbol_record
  fca_disposition :: candidate_disposition
  fca_reasons :: "string list"
  fca_evidence :: "framework_evidence list"
  fca_assumptions :: "framework_assumption list"

record framework_query_result =
  fqr_state :: framework_query_state
  fqr_candidates :: "framework_candidate list"
  fqr_boundaries :: "framework_boundary list"

datatype framework_error =
  InvalidCode string | MissingReasons string | MissingEvidence string | DuplicateCandidate string
| InvalidCompleteState | MissingPartialBoundary | InvalidUnsupportedState

section \<open>Normalisation\<close>

definition valid_code :: "string \<Rightarrow> bool" where
  "valid_code code \<longleftrightarrow> CHR ''.'' \<in> set code \<and> dotted name_byte code"

definition validate_code :: "string \<Rightarrow> (framework_error, unit) result" where
  "validate_code code = (if valid_code code then Ok () else Err (InvalidCode code))"

definition evidence_target_key :: "framework_evidence_target \<Rightarrow> string" where
  "evidence_target_key t =
     (case t of
        EvidenceSymbol s \<Rightarrow> ''symbol:'' @ as_str s
      | EvidenceSource r \<Rightarrow> ''source:'' @ as_str (sr_unit r) @ '':'' @ decimal (unat (br_start (sr_bytes r)))
          @ '':'' @ decimal (unat (br_end (sr_bytes r))))"

definition evidence_key :: "framework_evidence \<Rightarrow> string" where
  "evidence_key e =
     fev_code e @ ''|'' @ evidence_target_key (fev_target e) @ ''|'' @ prov_backend (fev_provenance e) @ ''|''
     @ prov_backend_version (fev_provenance e) @ ''|'' @ as_str (prov_analysis_options (fev_provenance e))"

text \<open>\<open>retain(|item| seen.insert(key(item)))\<close>.\<close>

fun retain_first :: "('a \<Rightarrow> 'k) \<Rightarrow> 'k list \<Rightarrow> 'a list \<Rightarrow> 'a list" where
  "retain_first key seen [] = []"
| "retain_first key seen (x # xs) =
     (if key x \<in> set seen then retain_first key seen xs else x # retain_first key (key x # seen) xs)"

definition normalize_evidence :: "framework_evidence list \<Rightarrow> (framework_error, framework_evidence list) result" where
  "normalize_evidence evidence =
     and_then (check_all (\<lambda>e. validate_code (fev_code e)) evidence) (\<lambda>_.
     Ok (retain_first evidence_key [] (sort_key evidence_key evidence)))"

definition normalize_assumption :: "framework_assumption \<Rightarrow> (framework_error, framework_assumption) result" where
  "normalize_assumption a =
     and_then (validate_code (fas_code a)) (\<lambda>_.
     and_then (normalize_evidence (fas_evidence a)) (\<lambda>evidence. Ok (a\<lparr>fas_evidence := evidence\<rparr>)))"

definition assumption_key :: "framework_assumption \<Rightarrow> string \<times> string option" where
  "assumption_key a = (fas_code a, fas_value a)"

definition normalize_candidate :: "framework_candidate \<Rightarrow> (framework_error, framework_candidate) result" where
  "normalize_candidate c =
     (if fca_reasons c = [] then Err (MissingReasons (as_str (sym_id (fca_symbol c))))
      else
      and_then (check_all validate_code (fca_reasons c)) (\<lambda>_.
      if fca_evidence c = [] then Err (MissingEvidence (as_str (sym_id (fca_symbol c))))
      else
      and_then (normalize_evidence (fca_evidence c)) (\<lambda>evidence.
      and_then (collect_results normalize_assumption (fca_assumptions c)) (\<lambda>assumptions.
      Ok (c\<lparr>fca_reasons := sort_dedup (fca_reasons c), fca_evidence := evidence,
            fca_assumptions := sort_key assumption_key assumptions\<rparr>)))))"

definition normalize_boundary :: "framework_boundary \<Rightarrow> (framework_error, framework_boundary) result" where
  "normalize_boundary b =
     and_then (validate_code (fbo_code b)) (\<lambda>_.
     and_then (normalize_evidence (fbo_evidence b)) (\<lambda>evidence. Ok (b\<lparr>fbo_evidence := evidence\<rparr>)))"

definition boundary_key :: "framework_boundary \<Rightarrow> string \<times> string" where
  "boundary_key b = (fbo_code b, fbo_message b)"

definition candidate_id :: "framework_candidate \<Rightarrow> symbol_id" where
  "candidate_id c = sym_id (fca_symbol c)"

text \<open>The first of two adjacent candidates with one id.\<close>

fun duplicate_candidate :: "framework_candidate list \<Rightarrow> framework_candidate option" where
  "duplicate_candidate (c # d # cs) = (if candidate_id c = candidate_id d then Some c else duplicate_candidate (d # cs))"
| "duplicate_candidate _ = None"

definition check_state :: "framework_query_result \<Rightarrow> (framework_error, framework_query_result) result" where
  "check_state r =
     (case fqr_state r of
        FrameworkComplete \<Rightarrow>
          if fqr_boundaries r \<noteq> [] \<or> list_ex (\<lambda>c. fca_disposition c = Unresolved) (fqr_candidates r)
          then Err InvalidCompleteState else Ok r
      | FrameworkPartial \<Rightarrow> if fqr_boundaries r = [] then Err MissingPartialBoundary else Ok r
      | FrameworkUnsupported \<Rightarrow>
          if fqr_boundaries r = [] \<or> fqr_candidates r \<noteq> [] then Err InvalidUnsupportedState else Ok r)"

definition normalize_result :: "framework_query_result \<Rightarrow> (framework_error, framework_query_result) result" where
  "normalize_result r =
     and_then (collect_results normalize_candidate (fqr_candidates r)) (\<lambda>candidates.
     let candidates = sort_key candidate_id candidates
     in case duplicate_candidate candidates of
          Some c \<Rightarrow> Err (DuplicateCandidate (as_str (candidate_id c)))
        | None \<Rightarrow>
            and_then (collect_results normalize_boundary (fqr_boundaries r)) (\<lambda>boundaries.
            check_state (r\<lparr>fqr_candidates := candidates, fqr_boundaries := sort_key boundary_key boundaries\<rparr>)))"

section \<open>Normalised lists stay as they are\<close>

lemma retain_first_sub: "set (retain_first key seen xs) \<subseteq> set xs"
  by (induction key seen xs rule: retain_first.induct) auto

lemma retain_first_keys:
  "key ` set (retain_first key seen xs) = key ` set xs - set seen \<and> distinct (map key (retain_first key seen xs))"
  by (induction key seen xs rule: retain_first.induct) auto

lemma retain_first_sorted: "sorted (map key xs) \<Longrightarrow> sorted (map key (retain_first key seen xs))"
proof (induction key seen xs rule: retain_first.induct)
  case (2 key seen x xs)
  then show ?case using retain_first_sub[of key "key x # seen" xs] by auto
qed simp

lemma retain_first_id: "distinct (map key xs) \<Longrightarrow> key ` set xs \<inter> set seen = {} \<Longrightarrow> retain_first key seen xs = xs"
  by (induction key seen xs rule: retain_first.induct) auto

lemma retain_sorted_stable:
  fixes key :: "'a \<Rightarrow> 'k::linorder"
  assumes "ys = retain_first key [] (sort_key key xs)"
  shows "retain_first key [] (sort_key key ys) = ys"
proof -
  have "sorted (map key ys)" "distinct (map key ys)"
    using retain_first_sorted[of key "sort_key key xs" "[]"] retain_first_keys[of key "[]" "sort_key key xs"] assms by simp_all
  then show ?thesis by (simp add: sort_key_id_if_sorted retain_first_id)
qed

lemma normalize_evidence_Ok:
  "normalize_evidence es = Ok ns \<longleftrightarrow>
     list_all (\<lambda>e. valid_code (fev_code e)) es \<and> ns = retain_first evidence_key [] (sort_key evidence_key es)"
  by (auto simp: normalize_evidence_def and_then_eq_Ok check_all_Ok validate_code_def list_all_iff split: if_splits)

lemma normalize_evidence_stable: "normalize_evidence es = Ok ns \<Longrightarrow> normalize_evidence ns = Ok ns"
  using retain_first_sub[of evidence_key "[]" "sort_key evidence_key es"] retain_sorted_stable[of ns evidence_key es]
  by (auto simp: normalize_evidence_Ok list_all_iff)

lemma normalize_evidence_empty: "normalize_evidence es = Ok ns \<Longrightarrow> ns = [] \<longleftrightarrow> es = []"
proof -
  have "retain_first evidence_key [] xs = [] \<longleftrightarrow> xs = []" for xs by (cases xs) simp_all
  then show "normalize_evidence es = Ok ns \<Longrightarrow> ns = [] \<longleftrightarrow> es = []"
    by (simp add: normalize_evidence_Ok flip: length_0_conv)
qed

lemma normalize_assumption_stable: "normalize_assumption a = Ok n \<Longrightarrow> normalize_assumption n = Ok n"
  by (auto simp: normalize_assumption_def and_then_eq_Ok normalize_evidence_stable)

lemma normalize_boundary_stable: "normalize_boundary b = Ok n \<Longrightarrow> normalize_boundary n = Ok n"
  by (auto simp: normalize_boundary_def and_then_eq_Ok normalize_evidence_stable)

text \<open>Results in the order of a stable sort are stable when every element is.\<close>

lemma collect_sorted_stable:
  assumes "collect_results f xs = Ok ys" "\<And>x y. f x = Ok y \<Longrightarrow> f y = Ok y"
  shows "collect_results f (sort_key key ys) = Ok (sort_key key ys)"
proof -
  have "f y = Ok y" if "y \<in> set ys" for y using collect_results_mem[OF assms(1) that] assms(2) by blast
  then show ?thesis using collect_results_total[of "sort_key key ys" f id] by simp
qed

lemma normalize_candidate_stable:
  assumes "normalize_candidate c = Ok n"
  shows "normalize_candidate n = Ok n"
proof -
  obtain es as where c: "fca_reasons c \<noteq> []" "check_all validate_code (fca_reasons c) = Ok ()" "fca_evidence c \<noteq> []"
      "normalize_evidence (fca_evidence c) = Ok es" "collect_results normalize_assumption (fca_assumptions c) = Ok as"
      "n = c\<lparr>fca_reasons := sort_dedup (fca_reasons c), fca_evidence := es, fca_assumptions := sort_key assumption_key as\<rparr>"
    using assms by (auto simp: normalize_candidate_def and_then_eq_Ok split: if_splits)
  have "check_all validate_code (sort_dedup (fca_reasons c)) = Ok ()" using c(2) by (simp add: check_all_Ok)
  moreover have "collect_results normalize_assumption (sort_key assumption_key as) = Ok (sort_key assumption_key as)"
    using collect_sorted_stable[OF c(5)] normalize_assumption_stable by blast
  moreover have "sort_key assumption_key (sort_key assumption_key as) = sort_key assumption_key as"
    by (simp add: sort_key_id_if_sorted)
  ultimately show ?thesis
    using c(1,3) normalize_evidence_stable[OF c(4)] normalize_evidence_empty[OF c(4)] by (simp add: normalize_candidate_def c(6))
qed

lemma duplicate_candidate_None:
  "sorted (map candidate_id cs) \<Longrightarrow> duplicate_candidate cs = None \<longleftrightarrow> distinct (map candidate_id cs)"
proof (induction cs rule: duplicate_candidate.induct)
  case (1 c d cs)
  then show ?case by (auto simp: antisym)
qed simp_all

lemma normalized_parts:
  assumes "normalize_result r = Ok n"
  obtains cs bs where "collect_results normalize_candidate (fqr_candidates r) = Ok cs"
    "collect_results normalize_boundary (fqr_boundaries r) = Ok bs" "distinct (map candidate_id cs)"
    "n = r\<lparr>fqr_candidates := sort_key candidate_id cs, fqr_boundaries := sort_key boundary_key bs\<rparr>" "check_state n = Ok n"
proof -
  have state: "y = x" if "check_state x = Ok y" for x y
    using that by (auto simp: check_state_def split: framework_query_state.splits if_splits)
  obtain cs bs where "collect_results normalize_candidate (fqr_candidates r) = Ok cs"
      "duplicate_candidate (sort_key candidate_id cs) = None" "collect_results normalize_boundary (fqr_boundaries r) = Ok bs"
      "check_state (r\<lparr>fqr_candidates := sort_key candidate_id cs, fqr_boundaries := sort_key boundary_key bs\<rparr>) = Ok n"
    using assms by (auto simp: normalize_result_def and_then_eq_Ok Let_def split: option.splits)
  moreover from this(4) have "n = r\<lparr>fqr_candidates := sort_key candidate_id cs, fqr_boundaries := sort_key boundary_key bs\<rparr>"
    by (rule state)
  moreover have "distinct (map candidate_id cs)"
    using calculation(2) duplicate_candidate_None[of "sort_key candidate_id cs"] by (simp add: distinct_map)
  ultimately show ?thesis using that by simp
qed

lemma normalize_from_parts:
  assumes "collect_results normalize_candidate (fqr_candidates r) = Ok cs"
    and "collect_results normalize_boundary (fqr_boundaries r) = Ok bs" "distinct (map candidate_id cs)"
    and "check_state (r\<lparr>fqr_candidates := sort_key candidate_id cs, fqr_boundaries := sort_key boundary_key bs\<rparr>) = Ok n"
  shows "normalize_result r = Ok n"
proof -
  have "duplicate_candidate (sort_key candidate_id cs) = None"
    using duplicate_candidate_None[of "sort_key candidate_id cs"] assms(3) by (simp add: distinct_map)
  then show ?thesis using assms by (simp add: normalize_result_def Let_def)
qed

text \<open>
  C19. An accepted result is canonical: normalising it again changes nothing, and the order in which a package
  or worker lists its candidates does not matter, every order is accepted with the same result.
\<close>

theorem normalization_is_canonical:
  assumes "normalize_result r = Ok n" and "mset cs = mset (fqr_candidates r)"
  shows "normalize_result n = Ok n \<and> normalize_result (r\<lparr>fqr_candidates := cs\<rparr>) = Ok n"
proof -
  obtain xs bs where xs: "collect_results normalize_candidate (fqr_candidates r) = Ok xs"
    and bs: "collect_results normalize_boundary (fqr_boundaries r) = Ok bs" and distinct: "distinct (map candidate_id xs)"
    and n: "n = r\<lparr>fqr_candidates := sort_key candidate_id xs, fqr_boundaries := sort_key boundary_key bs\<rparr>"
    and state: "check_state n = Ok n"
    by (rule normalized_parts[OF assms(1)])
  have sorted: "sort_key candidate_id (sort_key candidate_id xs) = sort_key candidate_id xs"
      "sort_key boundary_key (sort_key boundary_key bs) = sort_key boundary_key bs"
    by (simp_all add: sort_key_id_if_sorted)
  have again: "collect_results normalize_candidate (fqr_candidates n) = Ok (sort_key candidate_id xs)"
      "collect_results normalize_boundary (fqr_boundaries n) = Ok (sort_key boundary_key bs)"
    using collect_sorted_stable[OF xs normalize_candidate_stable] collect_sorted_stable[OF bs normalize_boundary_stable]
    by (simp_all add: n)
  have first: "normalize_result n = Ok n"
    by (rule normalize_from_parts[OF again]) (use distinct state sorted in \<open>simp_all add: n distinct_map\<close>)
  let ?f = "\<lambda>c. projr (normalize_candidate c)"
  have each: "normalize_candidate c = Ok (?f c)" if "c \<in> set (fqr_candidates r)" for c
    using collect_results_has[OF xs that] by auto
  then have "xs = map ?f (fqr_candidates r)"
    using collect_results_total[of "fqr_candidates r" normalize_candidate ?f] xs by auto
  then have perm: "mset (map ?f cs) = mset xs" using assms(2) by simp
  have "set cs = set (fqr_candidates r)" using assms(2) by (metis set_mset_mset)
  then have ys: "collect_results normalize_candidate cs = Ok (map ?f cs)"
    using each by (intro collect_results_total) auto
  have ids: "distinct (map candidate_id (map ?f cs))"
    using distinct perm mset_eq_imp_distinct_iff[of "map candidate_id (map ?f cs)" "map candidate_id xs"] by (simp only: mset_map)
  have inj: "inj_on candidate_id (set (map ?f cs))"
    using ids unfolding distinct_map[of candidate_id "map ?f cs"] by blast
  have "sort_key candidate_id (map ?f cs) = sort_key candidate_id xs"
    by (rule sort_key_inj_key_eq[OF _ inj]) (use perm in simp_all)
  then have "normalize_result (r\<lparr>fqr_candidates := cs\<rparr>) = Ok n"
    using normalize_from_parts[of "r\<lparr>fqr_candidates := cs\<rparr>" "map ?f cs" bs n] ys bs ids state by (simp add: n)
  then show ?thesis using first by simp
qed

section \<open>Acceptance\<close>

definition evidence_valid :: "framework_evidence list \<Rightarrow> bool" where
  "evidence_valid es = list_all (\<lambda>e. valid_code (fev_code e)) es"

definition candidate_valid :: "framework_candidate \<Rightarrow> bool" where
  "candidate_valid c \<longleftrightarrow> fca_reasons c \<noteq> [] \<and> list_all valid_code (fca_reasons c)
     \<and> fca_evidence c \<noteq> [] \<and> evidence_valid (fca_evidence c)
     \<and> list_all (\<lambda>a. valid_code (fas_code a) \<and> evidence_valid (fas_evidence a)) (fca_assumptions c)"

definition state_valid :: "framework_query_result \<Rightarrow> bool" where
  "state_valid r =
     (case fqr_state r of
        FrameworkComplete \<Rightarrow> fqr_boundaries r = [] \<and> list_all (\<lambda>c. fca_disposition c \<noteq> Unresolved) (fqr_candidates r)
      | FrameworkPartial \<Rightarrow> fqr_boundaries r \<noteq> []
      | FrameworkUnsupported \<Rightarrow> fqr_boundaries r \<noteq> [] \<and> fqr_candidates r = [])"

lemma normalize_evidence_iff: "(\<exists>n. normalize_evidence es = Ok n) \<longleftrightarrow> evidence_valid es"
  by (auto simp: normalize_evidence_Ok evidence_valid_def)

lemma collect_results_exists: "(\<exists>ys. collect_results f xs = Ok ys) \<longleftrightarrow> list_all (\<lambda>x. \<exists>y. f x = Ok y) xs"
  by (induction xs) (auto simp: and_then_eq_Ok)

lemma normalize_candidate_iff: "(\<exists>n. normalize_candidate c = Ok n) \<longleftrightarrow> candidate_valid c"
proof -
  have "(\<exists>n. normalize_assumption a = Ok n) \<longleftrightarrow> valid_code (fas_code a) \<and> evidence_valid (fas_evidence a)" for a
    using normalize_evidence_iff[of "fas_evidence a"]
    by (auto simp: normalize_assumption_def and_then_eq_Ok validate_code_def)
  then have "(\<exists>as. collect_results normalize_assumption (fca_assumptions c) = Ok as)
      \<longleftrightarrow> list_all (\<lambda>a. valid_code (fas_code a) \<and> evidence_valid (fas_evidence a)) (fca_assumptions c)"
    by (simp add: collect_results_exists)
  moreover have "check_all validate_code rs = Ok () \<longleftrightarrow> list_all valid_code rs" for rs
    by (auto simp: check_all_Ok validate_code_def list_all_iff split: if_splits)
  ultimately show ?thesis
    using normalize_evidence_iff[of "fca_evidence c"]
    by (auto simp: normalize_candidate_def and_then_eq_Ok candidate_valid_def)
qed

lemma normalize_boundary_iff: "(\<exists>n. normalize_boundary b = Ok n) \<longleftrightarrow> valid_code (fbo_code b) \<and> evidence_valid (fbo_evidence b)"
  using normalize_evidence_iff[of "fbo_evidence b"]
  by (auto simp: normalize_boundary_def and_then_eq_Ok validate_code_def)

lemma sort_key_Nil_iff: "sort_key key xs = [] \<longleftrightarrow> xs = []"
  by (metis length_0_conv length_sort)

lemma candidate_unchanged:
  "normalize_candidate c = Ok n \<Longrightarrow> candidate_id n = candidate_id c \<and> fca_disposition n = fca_disposition c"
  by (auto simp: normalize_candidate_def and_then_eq_Ok candidate_id_def split: if_splits)

text \<open>
  C18. A result is accepted exactly when every candidate has reasons and evidence, every code is a lower-case
  namespaced identifier, no candidate occurs twice and the state is honest: complete without boundaries or
  unresolved candidates, partial with a named boundary, unsupported with boundaries only.
\<close>

theorem normalization_accepts_exactly:
  "(\<exists>n. normalize_result r = Ok n) \<longleftrightarrow>
     list_all candidate_valid (fqr_candidates r) \<and> distinct (map candidate_id (fqr_candidates r))
     \<and> list_all (\<lambda>b. valid_code (fbo_code b) \<and> evidence_valid (fbo_evidence b)) (fqr_boundaries r) \<and> state_valid r"
proof -
  have state: "check_state (r\<lparr>fqr_candidates := sort_key candidate_id cs, fqr_boundaries := sort_key boundary_key bs\<rparr>)
      = Ok (r\<lparr>fqr_candidates := sort_key candidate_id cs, fqr_boundaries := sort_key boundary_key bs\<rparr>) \<longleftrightarrow> state_valid r"
    if "collect_results normalize_candidate (fqr_candidates r) = Ok cs" "collect_results normalize_boundary (fqr_boundaries r) = Ok bs" for cs bs
  proof -
    have "list_all2 (\<lambda>c n. fca_disposition n = fca_disposition c) (fqr_candidates r) cs"
      using that(1) candidate_unchanged by (auto simp: collect_results_Ok elim!: list_all2_mono)
    then have "list_all (\<lambda>c. fca_disposition c \<noteq> Unresolved) (fqr_candidates r) \<longleftrightarrow> list_all (\<lambda>c. fca_disposition c \<noteq> Unresolved) cs"
      by (induction rule: list_all2_induct) auto
    moreover have "cs = [] \<longleftrightarrow> fqr_candidates r = []" "bs = [] \<longleftrightarrow> fqr_boundaries r = []"
      using collect_results_Ok_length[OF that(1)] collect_results_Ok_length[OF that(2)] by auto
    ultimately show ?thesis
      by (cases "fqr_state r") (auto simp: check_state_def state_valid_def list_all_iff list_ex_iff sort_key_Nil_iff)
  qed
  have ids: "map candidate_id cs = map candidate_id (fqr_candidates r)"
    if "collect_results normalize_candidate (fqr_candidates r) = Ok cs" for cs
  proof -
    have "list_all2 (\<lambda>c n. candidate_id n = candidate_id c) (fqr_candidates r) cs"
      using that candidate_unchanged by (auto simp: collect_results_Ok elim!: list_all2_mono)
    then show ?thesis by (induction rule: list_all2_induct) auto
  qed
  have "(\<exists>n. normalize_result r = Ok n) \<longleftrightarrow> (\<exists>cs bs. collect_results normalize_candidate (fqr_candidates r) = Ok cs
      \<and> collect_results normalize_boundary (fqr_boundaries r) = Ok bs \<and> distinct (map candidate_id cs) \<and> state_valid r)"
    using normalized_parts normalize_from_parts state by metis
  also have "\<dots> \<longleftrightarrow> (\<exists>cs. collect_results normalize_candidate (fqr_candidates r) = Ok cs) \<and> distinct (map candidate_id (fqr_candidates r))
      \<and> (\<exists>bs. collect_results normalize_boundary (fqr_boundaries r) = Ok bs) \<and> state_valid r"
    using ids by auto
  finally show ?thesis
    by (simp only: collect_results_exists normalize_candidate_iff normalize_boundary_iff conj_assoc)
qed

section \<open>A sample result\<close>

definition sample_evidence :: "u32 \<Rightarrow> framework_evidence" where
  "sample_evidence protocol =
     \<lparr> fev_code = ''spring.beans'', fev_target = EvidenceSymbol (SymbolId ''bean''),
       fev_provenance = (sample_provenance ''1'')\<lparr>prov_protocol_version := protocol\<rparr> \<rparr>"

definition sample_candidate :: "string \<Rightarrow> framework_candidate" where
  "sample_candidate symbol =
     \<lparr> fca_symbol = sample_symbol ''a'' symbol ''Bean'', fca_disposition = Selected, fca_reasons = [''spring.type''],
       fca_evidence = [sample_evidence 3], fca_assumptions = [] \<rparr>"

definition sample_result :: "string list \<Rightarrow> framework_query_result" where
  "sample_result symbols = \<lparr> fqr_state = FrameworkComplete, fqr_candidates = map sample_candidate symbols, fqr_boundaries = [] \<rparr>"

theorem normalization_is_canonical_witness:
  "normalize_result (sample_result [''x'', ''y'']) = Ok (sample_result [''x'', ''y''])
    \<and> normalize_result (sample_result [''y'', ''x'']) = Ok (sample_result [''x'', ''y''])"
proof -
  have "normalize_result (sample_result [''x'', ''y'']) = Ok (sample_result [''x'', ''y''])" by code_simp
  from normalization_is_canonical[OF this, of "map sample_candidate [''y'', ''x'']"] show ?thesis
    by (simp add: sample_result_def)
qed

text \<open>
  Evidence is compared without the protocol version of its provenance: of two items that differ only there
  the first listed is kept, so the result depends on the order of the evidence.
\<close>

lemma evidence_order_matters:
  "normalize_evidence [sample_evidence 3, sample_evidence 4] = Ok [sample_evidence 3]
    \<and> normalize_evidence [sample_evidence 4, sample_evidence 3] = Ok [sample_evidence 4]"
  by code_simp

end
