(* ===== verification/Capability.thy ===== *)
theory Capability
  imports Worker_Registry Worker_Envelope Samples
begin

text \<open>
  Bounded calls of worker capabilities (\<open>crates/kide-core/src/semantic_capability.rs\<close>): the plan of a call with its
  typed arguments and its budget, the call itself, and the validation of the response against the plan. The
  lemmas bound what is sent and what is accepted.
\<close>

section \<open>Plans\<close>

definition MAX_CAPABILITY_CANDIDATES :: u32 where "MAX_CAPABILITY_CANDIDATES = 1000"
definition MAX_CAPABILITY_NODES :: u32 where "MAX_CAPABILITY_NODES = 10000"
definition MAX_CAPABILITY_BYTES :: u64 where "MAX_CAPABILITY_BYTES = 16 * 1024 * 1024"
definition MAX_CAPABILITY_DEADLINE_MILLIS :: u64 where "MAX_CAPABILITY_DEADLINE_MILLIS = 30000"

record semantic_capability_plan =
  scp_worker :: worker_identity
  scp_capability :: semantic_query_capability
  scp_request :: semantic_query_request

text \<open>The messages of invalid arguments and responses without the names they quote.\<close>

datatype argument_problem =
  DuplicateParameterNames | UnknownArgument string | RepeatedArgument string | WrongType string | MissingArgument string

datatype response_problem =
  UnexpectedMessage worker_message | OtherCapability | OtherProvenance | FactsFromCandidates | CandidatesFromFacts
| UnsupportedWithResults | OutsideSources | SnapshotProvenance | DuplicateSnapshots

datatype capability_error =
  CapabilityUnavailable string u32 | InvalidArguments argument_problem | InvalidBudget string
| CapabilitySupervisor supervisor_error | CapabilityAdapter adapter_error | InvalidCapabilityResponse response_problem
| BudgetExceeded string

definition validate_budget :: "semantic_query_budget \<Rightarrow> (capability_error, unit) result" where
  "validate_budget b =
     (if sqb_max_candidates b = 0 \<or> sqb_max_candidates b > MAX_CAPABILITY_CANDIDATES then Err (InvalidBudget ''max_candidates'')
      else if sqb_max_nodes b = 0 \<or> sqb_max_nodes b > MAX_CAPABILITY_NODES then Err (InvalidBudget ''max_nodes'')
      else if sqb_max_bytes b = 0 \<or> sqb_max_bytes b > MAX_CAPABILITY_BYTES then Err (InvalidBudget ''max_bytes'')
      else if sqb_deadline_millis b = 0 \<or> sqb_deadline_millis b > MAX_CAPABILITY_DEADLINE_MILLIS
      then Err (InvalidBudget ''deadline_millis'')
      else Ok ())"

fun argument_matches :: "semantic_query_parameter_type \<Rightarrow> semantic_query_argument_value \<Rightarrow> bool" where
  "argument_matches PTSymbolId (ArgSymbolId _) = True"
| "argument_matches PTComponentId (ArgComponentId _) = True"
| "argument_matches PTString (ArgString _) = True"
| "argument_matches PTInteger (ArgInteger _) = True"
| "argument_matches _ _ = False"

text \<open>The loop over the arguments, with the ones supplied so far.\<close>

fun supply_arguments :: "(string, semantic_query_parameter) btree \<Rightarrow> semantic_query_argument list
    \<Rightarrow> (string, semantic_query_argument) btree \<Rightarrow> (capability_error, (string, semantic_query_argument) btree) result" where
  "supply_arguments declared [] supplied = Ok supplied"
| "supply_arguments declared (a # rest) supplied =
     (case btree_get declared (sqa_name a) of
        None \<Rightarrow> Err (InvalidArguments (UnknownArgument (sqa_name a)))
      | Some p \<Rightarrow>
          if btree_get supplied (sqa_name a) \<noteq> None then Err (InvalidArguments (RepeatedArgument (sqa_name a)))
          else if \<not> argument_matches (sqp_ty p) (sqa_value a) then Err (InvalidArguments (WrongType (sqa_name a)))
          else supply_arguments declared rest (btree_insert (sqa_name a) a supplied))"

definition validate_arguments :: "semantic_query_capability \<Rightarrow> semantic_query_argument list
    \<Rightarrow> (capability_error, semantic_query_argument list) result" where
  "validate_arguments capability arguments =
     (let declared = btree_index sqp_name (sqc_parameters capability)
      in if length declared \<noteq> length (sqc_parameters capability) then Err (InvalidArguments DuplicateParameterNames)
         else
         and_then (supply_arguments declared arguments []) (\<lambda>supplied.
         and_then (check_all (\<lambda>p. if sqp_required p \<and> btree_get supplied (sqp_name p) = None
             then Err (InvalidArguments (MissingArgument (sqp_name p))) else Ok ()) (sqc_parameters capability)) (\<lambda>_.
         Ok (map snd supplied))))"

definition plan_semantic_capability :: "discovered_worker \<Rightarrow> string \<Rightarrow> u32 \<Rightarrow> semantic_query_argument list
    \<Rightarrow> symbol_id list \<Rightarrow> source_unit_id list \<Rightarrow> semantic_query_budget
    \<Rightarrow> (capability_error, semantic_capability_plan) result" where
  "plan_semantic_capability worker name version arguments symbols units budget =
     and_then (validate_budget budget) (\<lambda>_.
     if length symbols > unat (sqb_max_candidates budget) then Err (BudgetExceeded ''candidate input'')
     else if length units > unat (sqb_max_nodes budget) then Err (BudgetExceeded ''source input'')
     else
     and_then (ok_or (CapabilityUnavailable name version)
       (find (\<lambda>c. sqc_name c = name \<and> sqc_version c = version) (wc_semantic_query_capabilities (dw_capabilities worker))))
       (\<lambda>capability.
     and_then (validate_arguments capability arguments) (\<lambda>arguments.
     Ok \<lparr> scp_worker = wc_identity (dw_capabilities worker), scp_capability = capability,
          scp_request = \<lparr> sqr_capability_name = name, sqr_capability_version = version, sqr_arguments = arguments,
            sqr_candidate_symbols = sort_dedup symbols, sqr_candidate_source_units = sort_dedup units,
            sqr_budget = budget \<rparr> \<rparr>)))"

section \<open>Responses\<close>

definition same_worker :: "semantic_capability_plan \<Rightarrow> provenance \<Rightarrow> bool" where
  "same_worker plan p \<longleftrightarrow> prov_backend p = wi_backend (scp_worker plan)
     \<and> prov_backend_version p = wi_backend_version (scp_worker plan) \<and> prov_protocol_version p = WORKER_PROTOCOL_VERSION"

definition snapshot_unit :: "file_analysis_snapshot \<Rightarrow> source_unit_id" where
  "snapshot_unit s = su_id (snap_source_unit s)"

text \<open>\<open>encoded_len\<close> is that of the protobuf library.\<close>

definition validate_semantic_capability_response :: "(p_semantic_query_response \<Rightarrow> nat) \<Rightarrow> semantic_capability_plan
    \<Rightarrow> semantic_query_response \<Rightarrow> nat \<Rightarrow> (capability_error, semantic_query_response) result" where
  "validate_semantic_capability_response encoded_len plan response elapsed =
     (let request = scp_request plan; budget = sqr_budget request;
          invalid = (\<lambda>p. Err (InvalidCapabilityResponse p)) in
      if resp_capability_name response \<noteq> sqr_capability_name request
         \<or> resp_capability_version response \<noteq> sqr_capability_version request then invalid OtherCapability
      else if \<not> same_worker plan (resp_provenance response) then invalid OtherProvenance
      else if elapsed > unat (sqb_deadline_millis budget) then Err (BudgetExceeded ''deadline'')
      else if resp_visited_nodes response > sqb_max_nodes budget then Err (BudgetExceeded ''node'')
      else if resp_produced_bytes response > sqb_max_bytes budget then Err (BudgetExceeded ''reported byte'')
      else if length (resp_candidate_symbols response) > unat (sqb_max_candidates budget)
      then Err (BudgetExceeded ''candidate output'')
      else if length (resp_snapshots response) > unat (sqb_max_nodes budget) then Err (BudgetExceeded ''snapshot output'')
      else
      and_then (case proto_query_response response of Inl e \<Rightarrow> Err (CapabilityAdapter e) | Inr p \<Rightarrow> Ok p) (\<lambda>p.
      if encoded_len p > unat (sqb_max_bytes budget) then Err (BudgetExceeded ''encoded byte'')
      else if sqc_result (scp_capability plan) = CandidateSymbols \<and> resp_snapshots response \<noteq> []
      then invalid FactsFromCandidates
      else if sqc_result (scp_capability plan) = NormalizedFacts \<and> resp_candidate_symbols response \<noteq> []
      then invalid CandidatesFromFacts
      else if resp_state response = RespUnsupported \<and> (resp_candidate_symbols response \<noteq> [] \<or> resp_snapshots response \<noteq> [])
      then invalid UnsupportedWithResults
      else
      let state = (if resp_state response = RespComplete
                      \<and> list_ex (\<lambda>s. snap_completeness s \<noteq> Complete) (resp_snapshots response)
                   then RespPartial else resp_state response)
      in if list_ex (\<lambda>s. snapshot_unit s \<notin> set (sqr_candidate_source_units request)) (resp_snapshots response)
         then invalid OutsideSources
         else if list_ex (\<lambda>s. \<not> same_worker plan (snap_provenance s)) (resp_snapshots response)
         then invalid SnapshotProvenance
         else
         let snapshots = sort_key snapshot_unit (resp_snapshots response)
         in if \<not> distinct (map snapshot_unit snapshots) then invalid DuplicateSnapshots
            else Ok (response\<lparr>resp_state := state, resp_candidate_symbols := sort_dedup (resp_candidate_symbols response),
              resp_snapshots := snapshots\<rparr>)))"

text \<open>
  The call: a handshake, then the request, each with its own world; the handshake must still name the planned
  worker and capability.
\<close>

definition execute_semantic_capability :: "(p_semantic_query_response \<Rightarrow> nat) \<Rightarrow> 'p adapter \<Rightarrow> 'p world \<Rightarrow> 'p world
    \<Rightarrow> string \<Rightarrow> semantic_capability_plan \<Rightarrow> string \<Rightarrow> nat \<Rightarrow> 'p supervisor
    \<Rightarrow> (capability_error, semantic_query_response) result \<times> 'p supervisor" where
  "execute_semantic_capability encoded_len A w1 w2 core_version plan request_id elapsed s =
     (case handshake A w1 core_version (request_id @ ''-handshake'') s of
        (Inl e, s) \<Rightarrow> (Err (CapabilitySupervisor e), s)
      | (Inr response, s) \<Rightarrow>
          if wc_identity (hr_capabilities response) \<noteq> scp_worker plan
             \<or> scp_capability plan \<notin> set (wc_semantic_query_capabilities (hr_capabilities response))
          then (Err (CapabilityUnavailable (sqc_name (scp_capability plan)) (sqc_version (scp_capability plan))), s)
          else
          (case request_with_timeout A w2 (new_envelope request_id (MsgSemanticQueryRequest (scp_request plan)))
               (unat (sqb_deadline_millis (sqr_budget (scp_request plan)))) s of
             (Inl e, s) \<Rightarrow> (Err (CapabilitySupervisor e), s)
           | (Inr envelope, s) \<Rightarrow>
               (case env_message envelope of
                  MsgSemanticQueryResponse r \<Rightarrow> (validate_semantic_capability_response encoded_len plan r elapsed, s)
                | m \<Rightarrow> (Err (InvalidCapabilityResponse (UnexpectedMessage m)), s))))"

section \<open>What is sent\<close>

text \<open>The arguments a capability takes: declared names, each once and of its type, and every required one.\<close>

definition typed_arguments :: "semantic_query_capability \<Rightarrow> semantic_query_argument list \<Rightarrow> bool" where
  "typed_arguments c as \<longleftrightarrow> distinct (map sqp_name (sqc_parameters c)) \<and> distinct (map sqa_name as)
     \<and> list_all (\<lambda>a. list_ex (\<lambda>p. sqp_name p = sqa_name a \<and> argument_matches (sqp_ty p) (sqa_value a))
          (sqc_parameters c)) as
     \<and> list_all (\<lambda>p. \<not> sqp_required p \<or> sqp_name p \<in> set (map sqa_name as)) (sqc_parameters c)"

lemma index_length_distinct: "length (btree_index key xs) = length xs \<longleftrightarrow> distinct (map key xs)"
proof -
  have "length (btree_index key xs) = card (set (map key xs))"
    by (metis btree_index_keys_list distinct_card distinct_sort_dedup length_map set_sort_dedup)
  then show ?thesis
    by (metis card_distinct distinct_card length_map)
qed

lemma index_distinct_get:
  assumes "distinct (map key xs)"
  shows "btree_get (btree_index key xs) k = Some x \<longleftrightarrow> x \<in> set xs \<and> key x = k"
proof
  assume "btree_get (btree_index key xs) k = Some x"
  then show "x \<in> set xs \<and> key x = k" by (rule btree_index_get_Some)
next
  assume x: "x \<in> set xs \<and> key x = k"
  then have "btree_get (btree_index key xs) (key x) = Some x"
    using assms by (intro btree_index_get_unique) (auto simp: distinct_map inj_on_def)
  then show "btree_get (btree_index key xs) k = Some x" using x by simp
qed

lemma supply_arguments_Ok:
  assumes "\<And>k p. btree_get d k = Some p \<longleftrightarrow> p \<in> set ps \<and> sqp_name p = k"
  shows "(\<exists>m'. supply_arguments d as m = Inr m') \<longleftrightarrow>
      distinct (map sqa_name as) \<and> sqa_name ` set as \<inter> fst ` set m = {}
      \<and> (\<forall>a\<in>set as. \<exists>p\<in>set ps. sqp_name p = sqa_name a \<and> argument_matches (sqp_ty p) (sqa_value a))"
proof (induction as arbitrary: m)
  case (Cons a as)
  show ?case
  proof (cases "btree_get d (sqa_name a)")
    case None
    then have "\<not> (\<exists>p\<in>set ps. sqp_name p = sqa_name a)" using assms[of "sqa_name a"] by auto
    then show ?thesis using None by auto
  next
    case (Some p)
    then have p: "p \<in> set ps" "sqp_name p = sqa_name a" using assms by auto
    have uniq: "q \<in> set ps \<Longrightarrow> sqp_name q = sqa_name a \<Longrightarrow> q = p" for q using assms[of "sqa_name a" q] Some by simp
    have get: "btree_get m (sqa_name a) \<noteq> None \<longleftrightarrow> sqa_name a \<in> fst ` set m" by (simp add: map_of_eq_None_iff)
    have ex: "(\<exists>q\<in>set ps. sqp_name q = sqa_name a \<and> argument_matches (sqp_ty q) (sqa_value a))
        \<longleftrightarrow> argument_matches (sqp_ty p) (sqa_value a)"
      using p uniq by metis
    have step: "supply_arguments d (a # as) m = (if sqa_name a \<in> fst ` set m then Err (InvalidArguments (RepeatedArgument (sqa_name a)))
        else if \<not> argument_matches (sqp_ty p) (sqa_value a) then Err (InvalidArguments (WrongType (sqa_name a)))
        else supply_arguments d as (btree_insert (sqa_name a) a m))"
      by (simp only: supply_arguments.simps Some option.case get)
    show ?thesis
      using Cons.IH[of "btree_insert (sqa_name a) a m"] by (simp add: step ex keys_insert del: supply_arguments.simps) blast
  qed
qed simp

lemma set_insert_fresh: "btree_get m k = None \<Longrightarrow> set (btree_insert k v m) = insert (k, v) (set m)"
  by (induction m) (auto split: if_splits)

lemma supply_arguments_result:
  assumes "supply_arguments d as m = Inr m'" "btree_wf m" "\<forall>e\<in>set m. fst e = sqa_name (snd e)"
  shows "btree_wf m' \<and> (\<forall>e\<in>set m'. fst e = sqa_name (snd e)) \<and> snd ` set m' = snd ` set m \<union> set as"
  using assms
proof (induction as arbitrary: m)
  case (Cons a as)
  let ?m = "btree_insert (sqa_name a) a m"
  from Cons.prems(1) have fresh: "btree_get m (sqa_name a) = None" and rest: "supply_arguments d as ?m = Inr m'"
    by (auto split: option.splits if_splits)
  have set: "set ?m = insert (sqa_name a, a) (set m)" by (rule set_insert_fresh[OF fresh])
  show ?case
    using Cons.IH[OF rest] Cons.prems(2,3) by (auto simp: set)
qed simp

lemma strictly_sorted_map_unique:
  assumes "strictly_sorted (map f xs)" "strictly_sorted (map f ys)" "set xs = set ys"
  shows "xs = ys"
proof (rule map_inj_on)
  show "map f xs = map f ys"
    using assms by (intro strict_sorted_equal) auto
  show "inj_on f (set xs \<union> set ys)"
    using assms by (auto simp: strict_sorted_iff distinct_map)
qed

lemma validate_arguments_Ok:
  "validate_arguments c as = Inr bs \<longleftrightarrow>
     typed_arguments c as \<and> strictly_sorted (map sqa_name bs) \<and> set bs = set as"
proof (cases "distinct (map sqp_name (sqc_parameters c))")
  case False
  then show ?thesis by (simp add: validate_arguments_def Let_def index_length_distinct typed_arguments_def)
next
  case True
  let ?d = "btree_index sqp_name (sqc_parameters c)"
  note get = index_distinct_get[OF True]
  have entries: "set (map snd m) = set as \<and> map sqa_name (map snd m) = map fst m \<and> strictly_sorted (map fst m)"
    if "supply_arguments ?d as [] = Inr m" for m
    using supply_arguments_result[OF that] by (auto simp: btree_wf_def)
  have missing: "btree_get m k = None \<longleftrightarrow> k \<notin> set (map sqa_name as)" if "supply_arguments ?d as [] = Inr m" for m k
    using entries[OF that] by (metis image_set map_of_eq_None_iff)
  have supplied: "(\<exists>m. supply_arguments ?d as [] = Inr m) \<longleftrightarrow> distinct (map sqa_name as)
      \<and> list_all (\<lambda>a. list_ex (\<lambda>p. sqp_name p = sqa_name a \<and> argument_matches (sqp_ty p) (sqa_value a))
          (sqc_parameters c)) as"
    using supply_arguments_Ok[OF get, where as = as and m = "[]"]
    by (simp add: list_all_iff list_ex_iff)
  show ?thesis
  proof (cases "supply_arguments ?d as []")
    case (Inl e)
    then show ?thesis
      using supplied True by (auto simp: validate_arguments_def Let_def index_length_distinct typed_arguments_def)
  next
    case (Inr m)
    have bs: "bs = map snd m \<longleftrightarrow> strictly_sorted (map sqa_name bs) \<and> set bs = set as"
      using entries[OF Inr] strictly_sorted_map_unique[of sqa_name bs "map snd m"] by metis
    show ?thesis
      using Inr supplied True bs
      by (auto simp: validate_arguments_def Let_def index_length_distinct typed_arguments_def and_then_eq_Ok
          check_all_Ok missing[OF Inr] list_all_iff split: if_splits)
  qed
qed

definition budget_allowed :: "semantic_query_budget \<Rightarrow> bool" where
  "budget_allowed b \<longleftrightarrow> 0 < sqb_max_candidates b \<and> sqb_max_candidates b \<le> MAX_CAPABILITY_CANDIDATES
    \<and> 0 < sqb_max_nodes b \<and> sqb_max_nodes b \<le> MAX_CAPABILITY_NODES
    \<and> 0 < sqb_max_bytes b \<and> sqb_max_bytes b \<le> MAX_CAPABILITY_BYTES
    \<and> 0 < sqb_deadline_millis b \<and> sqb_deadline_millis b \<le> MAX_CAPABILITY_DEADLINE_MILLIS"

lemma validate_budget_Ok: "validate_budget b = Inr u \<longleftrightarrow> budget_allowed b"
  by (auto simp: validate_budget_def budget_allowed_def word_neq_0_conv not_less)

lemma plan_Ok:
  "plan_semantic_capability worker name version as symbols units b = Inr plan \<longleftrightarrow>
     budget_allowed b \<and> length symbols \<le> unat (sqb_max_candidates b) \<and> length units \<le> unat (sqb_max_nodes b)
     \<and> find (\<lambda>c. sqc_name c = name \<and> sqc_version c = version)
         (wc_semantic_query_capabilities (dw_capabilities worker)) = Some (scp_capability plan)
     \<and> scp_worker plan = wc_identity (dw_capabilities worker)
     \<and> validate_arguments (scp_capability plan) as = Inr (sqr_arguments (scp_request plan))
     \<and> scp_request plan = \<lparr> sqr_capability_name = name, sqr_capability_version = version,
          sqr_arguments = sqr_arguments (scp_request plan), sqr_candidate_symbols = sort_dedup symbols,
          sqr_candidate_source_units = sort_dedup units, sqr_budget = b \<rparr>"
proof -
  obtain w c r where plan: "plan = \<lparr> scp_worker = w, scp_capability = c, scp_request = r \<rparr>" by (cases plan)
  show ?thesis
    by (auto simp: plan plan_semantic_capability_def and_then_eq_Ok validate_budget_Ok ok_or_eq_Ok not_less split: if_splits)
qed

text \<open>
  C17. Planning a call succeeds exactly for a budget within the caps of the core, inputs within that budget, a
  capability the worker offers under that name and version, and arguments that have declared names, each once and
  of its type, with every required one. The request then carries the first such capability's worker, the same
  arguments in name order, the symbols and source units sorted without repetitions, and the budget as given.
\<close>

theorem capability_plan_exact:
  "plan_semantic_capability worker name version as symbols units b = Ok plan \<longleftrightarrow>
     budget_allowed b \<and> length symbols \<le> unat (sqb_max_candidates b) \<and> length units \<le> unat (sqb_max_nodes b)
     \<and> find (\<lambda>c. sqc_name c = name \<and> sqc_version c = version)
         (wc_semantic_query_capabilities (dw_capabilities worker)) = Some (scp_capability plan)
     \<and> scp_worker plan = wc_identity (dw_capabilities worker)
     \<and> typed_arguments (scp_capability plan) as
     \<and> strictly_sorted (map sqa_name (sqr_arguments (scp_request plan)))
     \<and> set (sqr_arguments (scp_request plan)) = set as
     \<and> scp_request plan = \<lparr> sqr_capability_name = name, sqr_capability_version = version,
          sqr_arguments = sqr_arguments (scp_request plan), sqr_candidate_symbols = sort_dedup symbols,
          sqr_candidate_source_units = sort_dedup units, sqr_budget = b \<rparr>"
  by (simp add: plan_Ok validate_arguments_Ok conj_assoc)

section \<open>What is accepted\<close>

definition answer_within :: "semantic_capability_plan \<Rightarrow> semantic_query_response \<Rightarrow> bool" where
  "answer_within plan r \<longleftrightarrow>
     (let request = scp_request plan; budget = sqr_budget request in
      resp_capability_name r = sqr_capability_name request \<and> resp_capability_version r = sqr_capability_version request
      \<and> resp_visited_nodes r \<le> sqb_max_nodes budget \<and> resp_produced_bytes r \<le> sqb_max_bytes budget
      \<and> length (resp_candidate_symbols r) \<le> unat (sqb_max_candidates budget)
      \<and> length (resp_snapshots r) \<le> unat (sqb_max_nodes budget)
      \<and> strictly_sorted (resp_candidate_symbols r) \<and> strictly_sorted (map snapshot_unit (resp_snapshots r))
      \<and> set (map snapshot_unit (resp_snapshots r)) \<subseteq> set (sqr_candidate_source_units request)
      \<and> list_all (same_worker plan) (resp_provenance r # map snap_provenance (resp_snapshots r))
      \<and> (resp_state r \<noteq> RespComplete \<or> list_all (\<lambda>s. snap_completeness s = Complete) (resp_snapshots r))
      \<and> (resp_state r \<noteq> RespUnsupported \<or> resp_candidate_symbols r = [] \<and> resp_snapshots r = [])
      \<and> (sqc_result (scp_capability plan) = CandidateSymbols \<and> resp_snapshots r = []
         \<or> sqc_result (scp_capability plan) = NormalizedFacts \<and> resp_candidate_symbols r = []))"

definition encoded_within :: "(p_semantic_query_response \<Rightarrow> nat) \<Rightarrow> u64 \<Rightarrow> semantic_query_response \<Rightarrow> bool" where
  "encoded_within encoded_len limit r \<longleftrightarrow>
     (case proto_query_response r of Inl _ \<Rightarrow> False | Inr p \<Rightarrow> encoded_len p \<le> unat limit)"

lemma accepted_checks:
  assumes "validate_semantic_capability_response encoded_len plan r0 elapsed = Inr r"
  shows "resp_capability_name r0 = sqr_capability_name (scp_request plan)"
    "resp_capability_version r0 = sqr_capability_version (scp_request plan)"
    "same_worker plan (resp_provenance r0)"
    "elapsed \<le> unat (sqb_deadline_millis (sqr_budget (scp_request plan)))"
    "resp_visited_nodes r0 \<le> sqb_max_nodes (sqr_budget (scp_request plan))"
    "resp_produced_bytes r0 \<le> sqb_max_bytes (sqr_budget (scp_request plan))"
    "length (resp_candidate_symbols r0) \<le> unat (sqb_max_candidates (sqr_budget (scp_request plan)))"
    "length (resp_snapshots r0) \<le> unat (sqb_max_nodes (sqr_budget (scp_request plan)))"
    "encoded_within encoded_len (sqb_max_bytes (sqr_budget (scp_request plan))) r0"
    "sqc_result (scp_capability plan) = CandidateSymbols \<Longrightarrow> resp_snapshots r0 = []"
    "sqc_result (scp_capability plan) = NormalizedFacts \<Longrightarrow> resp_candidate_symbols r0 = []"
    "resp_state r0 = RespUnsupported \<Longrightarrow> resp_candidate_symbols r0 = [] \<and> resp_snapshots r0 = []"
    "\<forall>s\<in>set (resp_snapshots r0). snapshot_unit s \<in> set (sqr_candidate_source_units (scp_request plan))"
    "\<forall>s\<in>set (resp_snapshots r0). same_worker plan (snap_provenance s)"
    "distinct (map snapshot_unit (sort_key snapshot_unit (resp_snapshots r0)))"
    "r = r0\<lparr>resp_state := (if resp_state r0 = RespComplete
                      \<and> list_ex (\<lambda>s. snap_completeness s \<noteq> Complete) (resp_snapshots r0)
                   then RespPartial else resp_state r0),
        resp_candidate_symbols := sort_dedup (resp_candidate_symbols r0),
        resp_snapshots := sort_key snapshot_unit (resp_snapshots r0)\<rparr>"
  using assms unfolding validate_semantic_capability_response_def Let_def
  by (simp_all add: and_then_eq_Ok encoded_within_def list_ex_iff split: if_split_asm sum.split_asm) auto

lemma validated_response:
  assumes "validate_semantic_capability_response encoded_len plan r0 elapsed = Inr r"
  shows "answer_within plan r"
    "set (resp_candidate_symbols r) = set (resp_candidate_symbols r0) \<and> mset (resp_snapshots r) = mset (resp_snapshots r0)"
proof -
  note checks = accepted_checks[OF assms]
  have "length (sort_dedup (resp_candidate_symbols r0)) \<le> unat (sqb_max_candidates (sqr_budget (scp_request plan)))"
    using checks(7) length_sort_dedup_le order_trans by blast
  moreover have "sqc_result (scp_capability plan) = CandidateSymbols \<and> resp_snapshots r0 = []
      \<or> sqc_result (scp_capability plan) = NormalizedFacts \<and> resp_candidate_symbols r0 = []"
    using checks(10,11) by (cases "sqc_result (scp_capability plan)") auto
  moreover have "strictly_sorted (map snapshot_unit (sort_key snapshot_unit (resp_snapshots r0)))"
    using checks(15) by (simp add: strict_sorted_iff)
  moreover have "resp_state r0 = RespUnsupported \<longrightarrow> resp_candidate_symbols r0 = [] \<and> resp_snapshots r0 = []"
    using checks(12) by blast
  ultimately show "answer_within plan r"
    using checks(1-3,5,6,8,13,14)
    by (auto simp: answer_within_def Let_def checks(16) list_all_iff list_ex_iff)
  show "set (resp_candidate_symbols r) = set (resp_candidate_symbols r0) \<and> mset (resp_snapshots r) = mset (resp_snapshots r0)"
    by (simp add: checks(16))
qed

lemma executed_response:
  assumes "execute_semantic_capability encoded_len A w1 w2 core plan i elapsed s = (Inr r, s')"
  shows "\<exists>r0. validate_semantic_capability_response encoded_len plan r0 elapsed = Inr r"
  using assms by (auto simp: execute_semantic_capability_def split: prod.splits sum.splits if_splits worker_message.splits)

text \<open>
  C16. An answer that a planned call returns is within what the plan asked: the named capability of the planned
  worker answered, no later than the deadline, with an encoding and a count of nodes, symbols and snapshots
  within a budget that is itself within the caps of the core; its symbols and snapshots come sorted and distinct,
  every snapshot is of a requested source unit, facts and candidates are not mixed, only complete snapshots make a
  complete answer, and nothing the worker sent is dropped.
\<close>

theorem capability_answer_is_bounded:
  assumes "plan_semantic_capability worker name version as symbols units budget = Ok plan"
    and "execute_semantic_capability encoded_len A w1 w2 core plan i elapsed s = (Ok r, s')"
  shows "answer_within plan r \<and> sqr_budget (scp_request plan) = budget \<and> budget_allowed budget
    \<and> elapsed \<le> unat (sqb_deadline_millis budget)
    \<and> set (map snapshot_unit (resp_snapshots r)) \<subseteq> set units
    \<and> (\<exists>r0. encoded_within encoded_len (sqb_max_bytes budget) r0
         \<and> set (resp_candidate_symbols r) = set (resp_candidate_symbols r0)
         \<and> mset (resp_snapshots r) = mset (resp_snapshots r0))"
proof -
  obtain r0 where valid: "validate_semantic_capability_response encoded_len plan r0 elapsed = Inr r"
    using executed_response[OF assms(2)] by blast
  have request: "budget_allowed budget" "sqr_budget (scp_request plan) = budget"
      "sqr_candidate_source_units (scp_request plan) = sort_dedup units"
    using assms(1)[unfolded plan_Ok] by (auto dest: arg_cong[of _ _ sqr_budget] arg_cong[of _ _ sqr_candidate_source_units])
  have "answer_within plan r" "elapsed \<le> unat (sqb_deadline_millis budget)"
      "encoded_within encoded_len (sqb_max_bytes budget) r0"
    using validated_response(1)[OF valid] accepted_checks(4,9)[OF valid] by (simp_all add: request)
  moreover from this(1) have "set (map snapshot_unit (resp_snapshots r)) \<subseteq> set units"
    by (simp add: answer_within_def Let_def request)
  ultimately show ?thesis using request validated_response(2)[OF valid] by blast
qed

section \<open>A concrete call\<close>

definition probe_capability :: semantic_query_capability where
  "probe_capability = \<lparr> sqc_name = ''members'', sqc_version = 1,
     sqc_parameters = [\<lparr> sqp_name = ''owner'', sqp_ty = PTString, sqp_required = True \<rparr>], sqc_result = CandidateSymbols \<rparr>"

definition probe_worker :: worker_capabilities where
  "probe_worker = sample_capabilities\<lparr>wc_semantic_query_capabilities := [probe_capability]\<rparr>"

definition probe_arguments :: "semantic_query_argument list" where
  "probe_arguments = [\<lparr> sqa_name = ''owner'', sqa_value = ArgString ''A'' \<rparr>]"

definition probe_budget :: semantic_query_budget where
  "probe_budget = \<lparr> sqb_max_candidates = 10, sqb_max_nodes = 100, sqb_max_bytes = 1000, sqb_deadline_millis = 500 \<rparr>"

definition probe_plan :: semantic_capability_plan where
  "probe_plan = \<lparr> scp_worker = wc_identity sample_capabilities, scp_capability = probe_capability,
     scp_request = \<lparr> sqr_capability_name = ''members'', sqr_capability_version = 1, sqr_arguments = probe_arguments,
       sqr_candidate_symbols = [], sqr_candidate_source_units = [SourceUnitId ''a''], sqr_budget = probe_budget \<rparr> \<rparr>"

definition probe_response :: semantic_query_response where
  "probe_response = \<lparr> resp_capability_name = ''members'', resp_capability_version = 1, resp_state = RespComplete,
     resp_candidate_symbols = [SymbolId ''s''], resp_snapshots = [],
     resp_provenance = (sample_provenance ''1'')\<lparr>prov_backend := ''jvm''\<rparr>,
     resp_visited_nodes = 3, resp_produced_bytes = 40 \<rparr>"

definition probe_world :: "nat \<Rightarrow> string \<Rightarrow> worker_message \<Rightarrow> worker_envelope world" where
  "probe_world now i m = answering_world now (new_envelope i m)"

lemma probe_planned:
  "plan_semantic_capability ((registry_worker ''worker'')\<lparr>dw_capabilities := probe_worker\<rparr>) ''members'' 1
     probe_arguments [] [SourceUnitId ''a''] probe_budget = Ok probe_plan"
  by (simp add: plan_Ok budget_allowed_def probe_budget_def MAX_CAPABILITY_CANDIDATES_def MAX_CAPABILITY_NODES_def
      MAX_CAPABILITY_BYTES_def MAX_CAPABILITY_DEADLINE_MILLIS_def probe_worker_def probe_capability_def probe_plan_def
      probe_arguments_def validate_arguments_def btree_index_def sort_dedup_def)

lemma probe_validated:
  "validate_semantic_capability_response (\<lambda>_. 60) probe_plan probe_response 20 = Ok probe_response"
  by code_simp

lemma probe_plan_fields:
  "scp_worker probe_plan = \<lparr> wi_backend = ''jvm'', wi_backend_version = ''1'' \<rparr>"
  "scp_capability probe_plan = probe_capability"
  by (simp_all add: probe_plan_def sample_capabilities_def)

lemma probe_executed:
  "\<exists>s'. execute_semantic_capability (\<lambda>_. 60) plain_adapter
     (probe_world 7 ''q-handshake'' (MsgHandshakeResponse \<lparr> hr_capabilities = probe_worker \<rparr>))
     (probe_world 20 ''q'' (MsgSemanticQueryResponse probe_response)) ''0.1.0'' probe_plan ''q'' 20
     (new_supervisor (new_launch ''worker'')) = (Ok probe_response, s')"
  unfolding execute_semantic_capability_def
  by (simp add: probe_plan_fields handshake_def request_def probe_world_def probe_worker_def
      sample_capabilities_def WORKER_PROTOCOL_VERSION_def supervisor_run_simps probe_validated)

theorem capability_answer_is_bounded_witness:
  "answer_within probe_plan probe_response \<and> budget_allowed probe_budget \<and> (20::nat) \<le> 500"
proof -
  obtain s' where run: "execute_semantic_capability (\<lambda>_. 60) plain_adapter
     (probe_world 7 ''q-handshake'' (MsgHandshakeResponse \<lparr> hr_capabilities = probe_worker \<rparr>))
     (probe_world 20 ''q'' (MsgSemanticQueryResponse probe_response)) ''0.1.0'' probe_plan ''q'' 20
     (new_supervisor (new_launch ''worker'')) = (Ok probe_response, s')"
    using probe_executed by blast
  show ?thesis
    using capability_answer_is_bounded[OF probe_planned run] by (auto simp: probe_budget_def)
qed

end
