(* ===== verification/Spec2Isabelle.thy ===== *)
theory Spec2Isabelle
  imports Incremental Store_Reads Text_Index Artifact_Cache Store_Lexical Store_Upgrade Index_Selected Transport Artifact_Adapter Artifact_Query Locations Selectors Framework_Results Capability
begin

text \<open>
  KIDE is a local semantic code index. Its Core (\<open>src/crates/kide-core\<close>) owns durable facts about
  source units in an SQLite store; disposable language workers are processes that answer requests over a
  framed protobuf stream; the command line (\<open>src/crates/kide-cli\<close>) reads the workspace, calls Core and
  prints. An index run compares the workspace with the stored inputs, asks workers for snapshots of what
  changed, validates and commits them in one transaction per batch, and records the manifest last.
  Dependencies of a build are described by a catalog, and their facts are kept as immutable blobs in a
  cache shared by processes.

  This library models Core as executable definitions and proves what makes it correct. Every theory below
  belongs to one source file or one group of its functions and names it in its opening text; a
  definition has the name of the function, type or constant it translates, with a prefix where two
  files use the same name.

  Conventions. A struct is a record, an enum a datatype, a \<open>Result\<close> a sum with \<open>Err\<close> on the left, an
  integer that the code keeps at a width a word of that width; \<open>usize\<close> is \<open>nat\<close> where it counts elements of
  a list in memory. A \<open>String\<close> is the list of its bytes in UTF-8 (\<open>Rust_Str\<close>), a \<open>Vec\<close> a list, a
  \<open>BTreeMap\<close> a list sorted by key, a table of the database the list of its rows in insertion order. A panic is the
  value \<open>None\<close> (or \<open>Panicked\<close> in an index run), a call that never returns is \<open>None\<close> of a \<open>partial_function\<close>
  (or \<open>Hangs\<close> in an index run). Counters of width 64 wrap as in a release build.

  \<^bold>\<open>Shared vocabulary.\<close> \<open>Prelude\<close> (results, sorting and deduplication, first and last entries by key, the
  collections \<open>result_simps\<close> and \<open>codec_simps\<close>), \<open>Rust_Str\<close> (characters, words, lines, splitting of strings),
  \<open>Bytes\<close> (little-endian integers), \<open>Samples\<close> (small values the witnesses share).

  \<^bold>\<open>Data model.\<close> \<open>Canonical\<close> (\<open>canonical.rs\<close>), \<open>Protocol\<close> (\<open>protocol.rs\<close>, \<open>dependency_identity.rs\<close>), \<open>Messages\<close>
  (the worker messages of \<open>protocol.rs\<close>).

  \<^bold>\<open>Planning.\<close> \<open>Keyed_Plan\<close> is the contract of a planner that compares two keyed inventories, a locale with its
  laws; \<open>Freshness\<close> (\<open>freshness.rs\<close>) and \<open>Incremental\<close> (\<open>incremental_plan.rs\<close>) interpret it; \<open>Inputs\<close>
  (\<open>input_inventory.rs\<close>) has the fingerprints and the reconciliation of configuration inputs. The lemmas show
  that a plan is a partition, that reuse is exact, and that no change of an input is missed.

  \<^bold>\<open>Store of facts\<close> (\<open>store.rs\<close>). \<open>Store_Tables\<close> (rows, keys, transactions, the locales of a table and of a
  parent and child table), \<open>Store_Snapshots\<close> (validation, replacement and removal of snapshots, single and in
  batches, their rollback; the refinement to a map from source units to snapshots), \<open>Store_Reads\<close> (every query on
  facts, the traversal of the type hierarchy, which terminates because every round visits a new symbol).

  \<^bold>\<open>Store of the workspace\<close> (\<open>store.rs\<close>). \<open>Store_Catalog\<close> (manifests, checkpoints, inventories, descriptors, blob
  references, text documents and the invariant over all their operations), \<open>Text_Index\<close> (\<open>text_index.rs\<close>: terms,
  positions, snippets), \<open>Store_Lexical\<close> (search from end to end).

  \<^bold>\<open>Schema\<close> (\<open>store.rs\<close>). \<open>Store_Schema\<close> has the fifteen migrations statement by statement, \<open>Store_Migrations\<close> runs
  them on any database, \<open>Store_Upgrade\<close> shows that every earlier version is upgraded, that a second opening
  changes nothing, and what a crash between two statements does.

  \<^bold>\<open>Blob cache.\<close> \<open>Artifact_Cache\<close> (\<open>artifact_cache.rs\<close>) over a map from paths to contents. A publication
  takes the file system call that fails, if one does; a step relation has the concurrent publishers and
  readers, with invariants by rule induction, and every outcome of the operation is a run of its steps.

  \<^bold>\<open>Transport.\<close> \<open>Framing\<close> (the frames of \<open>lib.rs\<close>, each read by recursion on the length of the stream),
  \<open>Supervisor\<close> (\<open>supervisor.rs\<close>: one worker process, whose pipe, exit and clock are a world the operations run in),
  \<open>Worker_Registry\<close> (\<open>worker_registry.rs\<close>: discovery, batches, negotiation), \<open>Worker_Proto\<close> (the messages of
  \<open>worker.proto\<close>), \<open>Worker_Adapter\<close> and \<open>Worker_Envelope\<close> (\<open>worker_proto_adapter.rs\<close>), \<open>Worker_Codec\<close> (the exact condition
  under which a message comes back), \<open>Transport\<close> (adapter, frames, supervisor and store composed).

  \<^bold>\<open>Index runs\<close> (\<open>orchestrator.rs\<close>). \<open>Orchestrator\<close> has the runs as tasks over the store and the run record,
  \<open>Index_Runs\<close> what they leave behind when they succeed, fail or panic, \<open>Index_Selected\<close> the discovery of the
  dependency catalog and the run over a selection of batches. The discovery loop has no bound in the code: it is a
  \<open>partial_function\<close>, and which result it has, or that it has none, is characterised by the inductive relation
  \<open>pages\<close> of the pages a worker sends.

  \<^bold>\<open>Artifacts.\<close> \<open>Artifact_Proto\<close> and \<open>Artifact_Adapter\<close> (\<open>artifact.proto\<close>, \<open>artifact_proto_adapter.rs\<close>): the persistent
  form of dependency graphs with local ordinals, its envelope, and the lookup of a symbol in a detail block.


  \<^bold>\<open>Blobs.\<close> (\<open>Blob_Detail\<close>, \<open>Blob_Layout\<close>, \<open>Blob_Access\<close>, \<open>Artifact_Query\<close>; \<open>artifact_blob_layout.rs\<close> and
  \<open>artifact_query.rs\<close>). A graph is stored as independent sections behind a table of contents. \<open>Blob_Detail\<close> cuts
  its symbols into blocks of 256 with shared defaults and a string table, and shows that a symbol read from its
  block alone is the one the whole graph decodes to. \<open>Blob_Layout\<close> has the table, the checks on it, the readers
  over the cache file and over memory, and the encoder, whose placement loop is a \<open>partial_function\<close>: the
  offsets depend on the length of the table that holds them. \<open>Blob_Access\<close> shows that this loop ends, with the
  hypotheses variable-length integers meet, and that every section and block is read back as encoded.
  \<open>Artifact_Query\<close> composes them: both queries over a cached dependency give the symbols of the whole graph, as far as
  detail blocks keep them. Its predicate \<open>readable\<close> states what they rely on: the blob opens under the key of the
  descriptor and holds the encoding of the graph, and the protobuf library decodes the sections it encoded;
  \<open>serves\<close> adds that owners and provenances are stored where the detail blocks look for them. A sample blob meets both.

  \<^bold>\<open>Queries.\<close> \<open>Locations\<close> (\<open>query_resolver.rs\<close>) resolves a position to a symbol; \<open>Selectors\<close> (\<open>selector.rs\<close>,
  \<open>semantic_query.rs\<close>) has the bounded selections and the typed queries compiled to them. Both are stated over the abstract
  store of published snapshots, so that the answers do not mention rows. \<open>Framework_Results\<close> (\<open>framework_query.rs\<close>) is
  the contract of explained candidates, \<open>Capability\<close> (\<open>semantic_capability.rs\<close>) the bounded call of a worker's own
  query: what is sent, and what is accepted of the answer.

  \<^bold>\<open>Parameters.\<close> SHA-256, the JSON encoder, the protobuf body codec (\<open>encode_to_vec\<close> and \<open>decode\<close> of the generated
  types), the debug form of other languages and build systems, the processes, pipes and clocks are arguments of the definitions
  that use them. Where a property needs something of them (a digest without collisions on the inputs compared, a codec that
  decodes what it encoded) it is a hypothesis of the property, and its witness gives a concrete function.

  \<^bold>\<open>Bounds.\<close> Reading a stream of frames takes fuel one above the number of frames written, which the properties
  supply; the traversal of hierarchies is bounded by the number of symbols; the round trips of messages ask for fewer
  than 2^32 facts in a snapshot, since the code stores indexes in 32 bits.

  \<^bold>\<open>Not modelled.\<close> The materialisation of artifacts (\<open>orchestrator.rs\<close>), the query contracts and packages (\<open>query.rs\<close> with
  \<open>records\<close> of \<open>selector.rs\<close>, \<open>query_package.rs\<close>, \<open>project_query.rs\<close>); the walks over directories and the TOML parser's part of
  \<open>config.rs\<close>, \<open>discovery.rs\<close> and \<open>workspace.rs\<close>; the command line, which parses arguments, prints
  and calls the operations above; the fixture worker, an example and the build script.
\<close>

end
